(* ===== verification/Prelude.thy ===== *)
theory Prelude
  imports Main "HOL-Library.Word" "HOL-Library.Monad_Syntax"
begin

text \<open>
  Shared vocabulary of the development: the C integer types, byte buffers with
  bounds-checked copies, and the list and word lemmas the components share.

  Every operation that the C code could fail to complete (an access outside a buffer,
  a signed overflow, a loop that does not stop) is a function into \<open>option\<close>:
  \<open>None\<close> is an execution with no defined result, and \<open>Some\<close> is a normal return.
  Error codes of the C code itself (\<open>false\<close>, \<open>NULL\<close>, \<open>-1\<close>) are ordinary values
  under \<open>Some\<close>.
\<close>

unbundle bit_operations_syntax

type_synonym byte = "8 word"
type_synonym u16 = "16 word"
type_synonym u32 = "32 word"
type_synonym u64 = "64 word"
type_synonym size_t = "64 word"

named_theorems buf_simps "simplification of buffer reads and writes"
named_theorems u32_simps "transfer of 32-bit arithmetic to nat"

section \<open>Signed C arithmetic\<close>

text \<open>The result of an operation at type \<open>int\<close>: defined only when it is representable.\<close>

definition cint :: "int \<Rightarrow> int option" where
  "cint x = (if - (2 ^ 31) \<le> x \<and> x < 2 ^ 31 then Some x else None)"

lemma cint_Some [simp]: "- 2147483648 \<le> x \<Longrightarrow> x < 2147483648 \<Longrightarrow> cint x = Some x"
  by (simp add: cint_def)

section \<open>Byte buffers\<close>

text \<open>
  \<open>overwrite buf off src\<close> is \<open>buf\<close> after \<open>src\<close> has been stored from index \<open>off\<close> on;
  \<open>bslice buf off n\<close> are the \<open>n\<close> elements from index \<open>off\<close> on.
\<close>

definition overwrite :: "'a list \<Rightarrow> nat \<Rightarrow> 'a list \<Rightarrow> 'a list" where
  "overwrite buf off src = take off buf @ src @ drop (off + length src) buf"

definition bslice :: "'a list \<Rightarrow> nat \<Rightarrow> nat \<Rightarrow> 'a list" where
  "bslice buf off n = take n (drop off buf)"

text \<open>\<open>memcpy\<close> out of and into a buffer; \<open>None\<close> when it leaves the buffer.\<close>

definition mem_read :: "'a list \<Rightarrow> nat \<Rightarrow> nat \<Rightarrow> 'a list option" where
  "mem_read buf off n = (if off + n \<le> length buf then Some (bslice buf off n) else None)"

definition mem_write :: "'a list \<Rightarrow> nat \<Rightarrow> 'a list \<Rightarrow> 'a list option" where
  "mem_write buf off src =
     (if off + length src \<le> length buf then Some (overwrite buf off src) else None)"

definition mem_get :: "'a list \<Rightarrow> nat \<Rightarrow> 'a option" where
  "mem_get buf i = (if i < length buf then Some (buf ! i) else None)"

definition mem_set :: "'a list \<Rightarrow> nat \<Rightarrow> 'a \<Rightarrow> 'a list option" where
  "mem_set buf i x = (if i < length buf then Some (buf[i := x]) else None)"

lemma length_overwrite [simp, buf_simps]:
  "off + length src \<le> length buf \<Longrightarrow> length (overwrite buf off src) = length buf"
  by (simp add: overwrite_def)

lemma length_slice [simp, buf_simps]:
  "off + n \<le> length buf \<Longrightarrow> length (bslice buf off n) = n"
  by (simp add: bslice_def)

lemma nth_slice [buf_simps]:
  "i < n \<Longrightarrow> off + n \<le> length buf \<Longrightarrow> bslice buf off n ! i = buf ! (off + i)"
  by (simp add: bslice_def)

lemma nth_overwrite [buf_simps]:
  assumes "off + length src \<le> length buf" "i < length buf"
  shows "overwrite buf off src ! i =
    (if off \<le> i \<and> i < off + length src then src ! (i - off) else buf ! i)"
proof (cases "i < off")
  case True
  then show ?thesis using assms by (simp add: overwrite_def nth_append)
next
  case False
  then show ?thesis using assms
    by (cases "i < off + length src") (auto simp: overwrite_def nth_append)
qed

lemma slice_slice [buf_simps]:
  "o2 + n \<le> m \<Longrightarrow> bslice (bslice buf off m) o2 n = bslice buf (off + o2) n"
  by (simp add: bslice_def drop_take min_def add.commute)

lemma slice_full [simp]: "bslice buf 0 (length buf) = buf"
  by (simp add: bslice_def)

lemma slice_zero [simp]: "bslice buf off 0 = []"
  by (simp add: bslice_def)

lemma slice_append: "bslice buf off (m + n) = bslice buf off m @ bslice buf (off + m) n"
  by (simp add: bslice_def take_add add.commute)

lemma bslice_drop: "bslice (drop a buf) off n = bslice buf (a + off) n"
  by (simp add: bslice_def add.commute)

lemma overwrite_Nil [simp]: "overwrite buf off [] = buf"
  by (simp add: overwrite_def)

lemma overwrite_whole [simp]: "length src = length buf \<Longrightarrow> overwrite buf 0 src = src"
  by (simp add: overwrite_def)

text \<open>Reading back what was written, and reading beside it.\<close>

lemma slice_overwrite_same [simp]:
  assumes "off + length src \<le> length buf" "n = length src"
  shows "bslice (overwrite buf off src) off n = src"
  using assms by (simp add: bslice_def overwrite_def)

lemma slice_overwrite_disjoint:
  assumes "off + length src \<le> length buf" "o2 + n \<le> length buf"
    and "o2 + n \<le> off \<or> off + length src \<le> o2"
  shows "bslice (overwrite buf off src) o2 n = bslice buf o2 n"
  using assms by (intro nth_equalityI) (auto simp: buf_simps)

lemma slice_overwrite_inner:
  assumes "o2 \<le> off" "off + length src \<le> o2 + n" "o2 + n \<le> length buf"
  shows "bslice (overwrite buf off src) o2 n = overwrite (bslice buf o2 n) (off - o2) src"
  using assms by (intro nth_equalityI) (auto simp: buf_simps add.commute)

lemma slice_overwrite_outer:
  assumes "off + length src \<le> length buf" "off \<le> o2" "o2 + n \<le> off + length src"
  shows "bslice (overwrite buf off src) o2 n = bslice src (o2 - off) n"
  using assms by (intro nth_equalityI) (auto simp: buf_simps)

lemma mem_read_Some [simp]: "off + n \<le> length buf \<Longrightarrow> mem_read buf off n = Some (bslice buf off n)"
  by (simp add: mem_read_def)

lemma mem_write_Some [simp]:
  "off + length src \<le> length buf \<Longrightarrow> mem_write buf off src = Some (overwrite buf off src)"
  by (simp add: mem_write_def)

lemma mem_get_Some [simp]: "i < length buf \<Longrightarrow> mem_get buf i = Some (buf ! i)"
  by (simp add: mem_get_def)

lemma mem_set_Some [simp]: "i < length buf \<Longrightarrow> mem_set buf i x = Some (buf[i := x])"
  by (simp add: mem_set_def)

lemma mem_get_eq_Some: "mem_get buf i = Some x \<longleftrightarrow> i < length buf \<and> x = buf ! i"
  by (auto simp: mem_get_def)

section \<open>Division\<close>

lemma div_mod_add_small:
  assumes "k mod n + j < (n::nat)"
  shows "(k + j) div n = k div n" "(k + j) mod n = k mod n + j"
proof -
  have *: "k + j = (k mod n + j) + n * (k div n)" by simp
  show "(k + j) div n = k div n" by (subst *, subst div_mult_self2) (use assms in auto)
  show "(k + j) mod n = k mod n + j" by (subst *, subst mod_mult_self2) (use assms in auto)
qed

section \<open>Words\<close>

lemma unat_add_u32 [u32_simps]: "unat a + unat b < 2 ^ 32 \<Longrightarrow> unat (a + b) = unat a + unat (b :: u32)"
  by (simp add: unat_word_ariths)

lemma unat_sub_u32 [u32_simps]: "unat b \<le> unat a \<Longrightarrow> unat (a - b) = unat a - unat (b :: u32)"
  by (simp add: unat_sub_if_size)

lemma unat_mult_u32 [u32_simps]: "unat a * unat b < 2 ^ 32 \<Longrightarrow> unat (a * b) = unat a * unat (b :: u32)"
  by (simp add: unat_word_ariths)

lemma unat_lt_u32: "unat (a :: u32) < 4294967296"
  using unsigned_less [of a, where ?'a = nat] by simp

lemma uint_eq_int_unat: "uint (a :: 'a::len word) = int (unat a)"
  by simp

lemma sint_u32_small:
  assumes "unat (a :: u32) < 2147483648"
  shows "sint a = int (unat a)"
proof -
  have "int (unat a) < int 2147483648" using assms by (simp only: of_nat_less_iff)
  then have "uint a < 2147483648" by (simp only: uint_eq_int_unat of_nat_numeral)
  moreover have "- 2147483648 \<le> uint a" by (rule order_trans [OF _ unsigned_greater_eq]) simp
  ultimately have "signed_take_bit 31 (uint a) = uint a"
    by (intro signed_take_bit_int_eq_self) simp_all
  then show ?thesis by (simp add: sint_uint)
qed

end
