(* ===== verification/Medium.thy ===== *)
theory Medium
  imports Prelude
begin

text \<open>
  The disc below the file system. \<open>DISC_INTERFACE\<close> is the structure of function pointers of
  \<^verbatim>\<open>utils/libfat/disc_io.h\<close>, here over a type \<open>'d\<close> of medium states; \<open>FAT_disc_readSectors\<close>
  and \<open>FAT_disc_writeSectors\<close> are the wrappers of \<^verbatim>\<open>utils/libfat/disc.h\<close>. The medium of the
  emulator is a memory image, \<open>Instance\<close>, accessed by \<open>MEDIUM_io\<close> of
  \<^verbatim>\<open>utils/libfat/libfat_public_api.c\<close>.

  The locale \<open>disc_device\<close> is the contract the sector cache relies on; it is interpreted
  here on the memory image.
\<close>

section \<open>The interface\<close>

record 'd DISC_INTERFACE =
  ioType :: u32
  features :: u32
  isInserted :: "'d \<Rightarrow> bool"
  readSectors :: "u32 \<Rightarrow> u32 \<Rightarrow> byte list \<Rightarrow> 'd \<Rightarrow> (bool \<times> byte list \<times> 'd) option"
  writeSectors :: "u32 \<Rightarrow> u32 \<Rightarrow> byte list \<Rightarrow> 'd \<Rightarrow> (bool \<times> 'd) option"

text \<open>
  \<open>readSectors sector n buf m\<close> fills \<open>buf\<close> from its start and returns the C result, the
  buffer and the medium; \<open>writeSectors\<close> takes its data from the start of \<open>buf\<close>.
\<close>

definition FEATURE_MEDIUM_CANREAD :: u32 where "FEATURE_MEDIUM_CANREAD = 1"
definition FEATURE_MEDIUM_CANWRITE :: u32 where "FEATURE_MEDIUM_CANWRITE = 2"
definition BYTES_PER_READ :: nat where "BYTES_PER_READ = 512"

definition FAT_disc_readSectors ::
  "'d DISC_INTERFACE \<Rightarrow> u32 \<Rightarrow> u32 \<Rightarrow> byte list \<Rightarrow> 'd \<Rightarrow> (bool \<times> byte list \<times> 'd) option" where
  "FAT_disc_readSectors disc sector numSectors buf m = readSectors disc sector numSectors buf m"

definition FAT_disc_writeSectors ::
  "'d DISC_INTERFACE \<Rightarrow> u32 \<Rightarrow> u32 \<Rightarrow> byte list \<Rightarrow> 'd \<Rightarrow> (bool \<times> 'd) option" where
  "FAT_disc_writeSectors disc sector numSectors buf m = writeSectors disc sector numSectors buf m"

definition FAT_disc_features :: "'d DISC_INTERFACE \<Rightarrow> u32" where
  "FAT_disc_features disc = features disc"

definition FAT_disc_hostType :: "'d DISC_INTERFACE \<Rightarrow> u32" where
  "FAT_disc_hostType disc = ioType disc"

section \<open>The memory image\<close>

text \<open>
  \<open>struct Instance\<close>: the image and the size the caller declared for it. The memory that
  \<open>buffer\<close> points to is the list; an access outside it has no defined result.
\<close>

record Instance =
  buffer :: "byte list"
  size_bytes :: int

text \<open>
  \<open>MEDIUM_io\<close> with its arithmetic at type \<open>int\<close>: the casts \<open>(int)sector\<close> and
  \<open>(int)numSectors\<close> reinterpret the 32 bits, and the products and the difference must be
  representable.
\<close>

definition MEDIUM_io ::
  "bool \<Rightarrow> u32 \<Rightarrow> u32 \<Rightarrow> byte list \<Rightarrow> Instance \<Rightarrow> (bool \<times> byte list \<times> Instance) option" where
  "MEDIUM_io write sector numSectors buf gInstance = do {
     todo \<leftarrow> cint (sint numSectors * 512);
     loc \<leftarrow> cint (sint sector * 512);
     avail \<leftarrow> cint (size_bytes gInstance - loc);
     if todo > avail then Some (False, buf, gInstance)
     else if todo < 0 \<or> loc < 0 then None
     else if write then do {
       data \<leftarrow> mem_read buf 0 (nat todo);
       b \<leftarrow> mem_write (buffer gInstance) (nat loc) data;
       Some (True, buf, gInstance\<lparr>buffer := b\<rparr>) }
     else do {
       data \<leftarrow> mem_read (buffer gInstance) (nat loc) (nat todo);
       b \<leftarrow> mem_write buf 0 data;
       Some (True, b, gInstance) } }"

definition MEDIUM_READSECTORS ::
  "u32 \<Rightarrow> u32 \<Rightarrow> byte list \<Rightarrow> Instance \<Rightarrow> (bool \<times> byte list \<times> Instance) option" where
  "MEDIUM_READSECTORS sector numSectors buf i = MEDIUM_io False sector numSectors buf i"

definition MEDIUM_WRITESECTORS ::
  "u32 \<Rightarrow> u32 \<Rightarrow> byte list \<Rightarrow> Instance \<Rightarrow> (bool \<times> Instance) option" where
  "MEDIUM_WRITESECTORS sector numSectors buf i = do {
     (ok, buf', i') \<leftarrow> MEDIUM_io True sector numSectors buf i;
     Some (ok, i') }"

definition MEDIUM_ISINSERTED :: "Instance \<Rightarrow> bool" where
  "MEDIUM_ISINSERTED i = True"

definition discio :: "Instance DISC_INTERFACE" where
  "discio = \<lparr>ioType = 0, features = FEATURE_MEDIUM_CANWRITE OR FEATURE_MEDIUM_CANREAD,
     isInserted = MEDIUM_ISINSERTED, readSectors = MEDIUM_READSECTORS,
     writeSectors = MEDIUM_WRITESECTORS\<rparr>"

section \<open>The contract of a disc\<close>

text \<open>
  A disc of \<open>nsec m\<close> sectors: \<open>sec m t\<close> is the content of sector \<open>t\<close>. A read within the
  disc fills the front of the buffer with the sectors' contents; a write within the disc
  replaces the sectors it names and no others.
\<close>

definition sectors :: "(nat \<Rightarrow> byte list) \<Rightarrow> nat \<Rightarrow> nat \<Rightarrow> byte list" where
  "sectors f s n = concat (map f [s..<s + n])"

lemma sectors_0 [simp]: "sectors f s 0 = []"
  by (simp add: sectors_def)

lemma sectors_Suc: "sectors f s (Suc n) = sectors f s n @ f (s + n)"
  by (simp add: sectors_def)

lemma sectors_add: "sectors f s (m + n) = sectors f s m @ sectors f (s + m) n"
  by (induction n) (simp_all add: sectors_Suc add.assoc)

lemma sectors_cong: "(\<And>t. s \<le> t \<Longrightarrow> t < s + n \<Longrightarrow> f t = g t) \<Longrightarrow> sectors f s n = sectors g s n"
  unfolding sectors_def by (rule arg_cong [where f = concat]) (auto intro: map_cong)

lemma length_sectors:
  "(\<And>t. s \<le> t \<Longrightarrow> t < s + n \<Longrightarrow> length (f t) = 512) \<Longrightarrow> length (sectors f s n) = 512 * n"
  by (induction n) (simp_all add: sectors_Suc)

lemma slice_sectors:
  assumes "\<And>t. s \<le> t \<Longrightarrow> t < s + n \<Longrightarrow> length (f t) = 512" and "k < n"
  shows "bslice (sectors f s n) (512 * k) 512 = f (s + k)"
proof -
  obtain j where n: "n = k + Suc 0 + j"
    using \<open>k < n\<close> less_imp_Suc_add by fastforce
  have len: "length (sectors f s k) = 512 * k"
    by (rule length_sectors) (use assms n in auto)
  have fk: "length (f (s + k)) = 512" using assms by simp
  have "sectors f s n = sectors f s k @ f (s + k) @ sectors f (s + k + 1) j"
    unfolding n sectors_add by (simp add: sectors_Suc add.assoc)
  then show ?thesis by (simp add: bslice_def len fk)
qed

lemma slice_sectors_range:
  assumes "\<And>t. s \<le> t \<Longrightarrow> t < s + n \<Longrightarrow> length (f t) = 512" and "k + m \<le> n"
  shows "bslice (sectors f s n) (512 * k) (512 * m) = sectors f (s + k) m"
proof -
  obtain j where n: "n = k + m + j" using assms(2) le_Suc_ex by blast
  have lk: "length (sectors f s k) = 512 * k"
    by (rule length_sectors) (use assms n in auto)
  have lm: "length (sectors f (s + k) m) = 512 * m"
    by (rule length_sectors) (use assms n in auto)
  have "sectors f s n = sectors f s k @ sectors f (s + k) m @ sectors f (s + k + m) j"
    unfolding n by (simp add: sectors_add add.assoc)
  then show ?thesis by (simp add: bslice_def lk lm)
qed

text \<open>Cutting a buffer of whole sectors into sectors and gluing them again.\<close>

lemma sectors_of_slices:
  "512 * (k + n) \<le> length b \<Longrightarrow>
   sectors (\<lambda>t. bslice b (512 * (t - s)) 512) (s + k) n = bslice b (512 * k) (512 * n)"
proof (induction n)
  case (Suc n)
  have "bslice b (512 * k) (512 * Suc n) = bslice b (512 * k) (512 * n) @ bslice b (512 * (k + n)) 512"
    using slice_append [of b "512 * k" "512 * n" 512] by (simp add: algebra_simps)
  with Suc show ?case by (simp add: sectors_Suc add.assoc)
qed simp

text \<open>Overwriting whole sectors of a buffer changes those sectors only.\<close>

lemma slice_overwrite_sectors:
  assumes "512 * (s + n) \<le> length b" "length d = 512 * n" "512 * (t + 1) \<le> length b"
  shows "bslice (overwrite b (512 * s) d) (512 * t) 512 =
    (if s \<le> t \<and> t < s + n then bslice d (512 * (t - s)) 512 else bslice b (512 * t) 512)"
proof (cases "s \<le> t \<and> t < s + n")
  case True
  then have "512 * t - 512 * s = 512 * (t - s)" by simp
  moreover have "bslice (overwrite b (512 * s) d) (512 * t) 512 = bslice d (512 * t - 512 * s) 512"
    by (rule slice_overwrite_outer) (use True assms in simp_all)
  ultimately show ?thesis using True by simp
next
  case False
  then have "bslice (overwrite b (512 * s) d) (512 * t) 512 = bslice b (512 * t) 512"
    by (intro slice_overwrite_disjoint) (use assms in auto)
  then show ?thesis using False by (simp only: if_False)
qed

locale disc_device =
  fixes D :: "'d DISC_INTERFACE"
    and ok :: "'d \<Rightarrow> bool"
    and nsec :: "'d \<Rightarrow> nat"
    and sec :: "'d \<Rightarrow> nat \<Rightarrow> byte list"
  assumes sec_length: "ok m \<Longrightarrow> t < nsec m \<Longrightarrow> length (sec m t) = 512"
    and read_sectors: "ok m \<Longrightarrow> unat s + unat n \<le> nsec m \<Longrightarrow> 512 * unat n \<le> length buf \<Longrightarrow>
      readSectors D s n buf m = Some (True, overwrite buf 0 (sectors (sec m) (unat s) (unat n)), m)"
    and write_sectors: "ok m \<Longrightarrow> unat s + unat n \<le> nsec m \<Longrightarrow> 512 * unat n \<le> length buf \<Longrightarrow>
      \<exists>m'. writeSectors D s n buf m = Some (True, m') \<and> ok m' \<and> nsec m' = nsec m \<and>
        (\<forall>t < nsec m. sec m' t =
          (if unat s \<le> t \<and> t < unat s + unat n then bslice buf (512 * (t - unat s)) 512 else sec m t))"

section \<open>The memory image is such a disc\<close>

definition image_ok :: "Instance \<Rightarrow> bool" where
  "image_ok i \<longleftrightarrow> 0 \<le> size_bytes i \<and> size_bytes i < 2 ^ 31 \<and> length (buffer i) = nat (size_bytes i)"

definition image_nsec :: "Instance \<Rightarrow> nat" where
  "image_nsec i = nat (size_bytes i) div 512"

definition image_sec :: "Instance \<Rightarrow> nat \<Rightarrow> byte list" where
  "image_sec i t = bslice (buffer i) (512 * t) 512"

lemma slice_image:
  assumes "512 * (s + n) \<le> length (buffer i)"
  shows "bslice (buffer i) (512 * s) (512 * n) = sectors (image_sec i) s n"
  using assms
proof (induction n)
  case (Suc n)
  have "bslice (buffer i) (512 * s) (512 * Suc n) =
      bslice (buffer i) (512 * s) (512 * n) @ bslice (buffer i) (512 * (s + n)) 512"
    using slice_append [of "buffer i" "512 * s" "512 * n" 512] by (simp add: algebra_simps)
  with Suc show ?case by (simp add: sectors_Suc image_sec_def)
qed simp

text \<open>Within the image the arithmetic of \<open>MEDIUM_io\<close> does not overflow.\<close>

lemma image_range:
  fixes s n :: u32
  assumes "image_ok i" "unat s + unat n \<le> image_nsec i"
  shows "sint n = uint n" "sint s = uint s"
    "512 * (unat s + unat n) \<le> length (buffer i)"
    "512 * uint s + 512 * uint n \<le> size_bytes i"
    "size_bytes i < 2147483648"
proof -
  have *: "512 * (unat s + unat n) \<le> nat (size_bytes i)"
    using assms(2) unfolding image_nsec_def by (simp add: less_eq_div_iff_mult_less_eq mult.commute)
  have lt: "size_bytes i < 2147483648" "0 \<le> size_bytes i"
    using assms(1) by (simp_all add: image_ok_def)
  then have lt': "nat (size_bytes i) < 2147483648" by linarith
  have "unat n \<le> 512 * (unat s + unat n)" "unat s \<le> 512 * (unat s + unat n)" by simp_all
  with * lt' have "unat n < 2147483648" and "unat s < 2147483648"
    by (auto intro: le_less_trans)
  then show "sint n = uint n" "sint s = uint s" by (simp_all add: sint_u32_small)
  show "512 * (unat s + unat n) \<le> length (buffer i)" using * assms(1) by (simp add: image_ok_def)
  have "int (512 * (unat s + unat n)) \<le> size_bytes i"
    using * lt(2) by (simp only: le_nat_iff [symmetric])
  then show "512 * uint s + 512 * uint n \<le> size_bytes i" by simp
  show "size_bytes i < 2147483648" by fact
qed

lemma image_arith:
  fixes s n :: u32
  assumes "image_ok i" "unat s + unat n \<le> image_nsec i"
  shows "cint (sint n * 512) = Some (512 * uint n)"
    "cint (sint s * 512) = Some (512 * uint s)"
    "cint (size_bytes i - 512 * uint s) = Some (size_bytes i - 512 * uint s)"
    "512 * uint n \<le> size_bytes i - 512 * uint s"
proof -
  note r = image_range [OF assms]
  have s0: "0 \<le> 512 * uint s" and n0: "0 \<le> 512 * uint n" by simp_all
  show "cint (sint n * 512) = Some (512 * uint n)"
    unfolding r(1) mult.commute [of _ 512] by (rule cint_Some) (use r n0 s0 in linarith)+
  show "cint (sint s * 512) = Some (512 * uint s)"
    unfolding r(2) mult.commute [of _ 512] by (rule cint_Some) (use r n0 s0 in linarith)+
  show "cint (size_bytes i - 512 * uint s) = Some (size_bytes i - 512 * uint s)"
    by (rule cint_Some) (use r n0 s0 in linarith)+
  show "512 * uint n \<le> size_bytes i - 512 * uint s" using r by linarith
qed

lemma MEDIUM_io_read:
  assumes "image_ok i" "unat s + unat n \<le> image_nsec i" "512 * unat n \<le> length buf"
  shows "MEDIUM_io False s n buf i =
    Some (True, overwrite buf 0 (sectors (image_sec i) (unat s) (unat n)), i)"
proof -
  note r = image_range [OF assms(1,2)] and a = image_arith [OF assms(1,2)]
  have nat_eq: "nat (512 * uint n) = 512 * unat n" "nat (512 * uint s) = 512 * unat s"
    by (simp_all add: nat_mult_distrib)
  have "length (bslice (buffer i) (512 * unat s) (512 * unat n)) = 512 * unat n"
    using r by (intro length_slice) simp
  with a r assms(3) show ?thesis
    by (simp add: MEDIUM_io_def nat_eq not_less slice_image [symmetric])
qed

lemma MEDIUM_io_write:
  assumes "image_ok i" "unat s + unat n \<le> image_nsec i" "512 * unat n \<le> length buf"
  shows "MEDIUM_io True s n buf i =
    Some (True, buf, i\<lparr>buffer := overwrite (buffer i) (512 * unat s) (bslice buf 0 (512 * unat n))\<rparr>)"
proof -
  note r = image_range [OF assms(1,2)] and a = image_arith [OF assms(1,2)]
  have nat_eq: "nat (512 * uint n) = 512 * unat n" "nat (512 * uint s) = 512 * unat s"
    by (simp_all add: nat_mult_distrib)
  have "length (bslice buf 0 (512 * unat n)) = 512 * unat n"
    using assms(3) by (intro length_slice) simp
  with a r assms(3) show ?thesis
    by (simp add: MEDIUM_io_def nat_eq not_less)
qed

interpretation image: disc_device discio image_ok image_nsec image_sec
proof unfold_locales
  fix m t
  assume "image_ok m" "t < image_nsec m"
  then have "512 * t + 512 \<le> length (buffer m)"
    unfolding image_ok_def image_nsec_def by linarith
  then show "length (image_sec m t) = 512" by (simp add: image_sec_def)
next
  fix m and s n :: u32 and buf :: "byte list"
  assume "image_ok m" "unat s + unat n \<le> image_nsec m" "512 * unat n \<le> length buf"
  then show "readSectors discio s n buf m =
      Some (True, overwrite buf 0 (sectors (image_sec m) (unat s) (unat n)), m)"
    by (simp add: discio_def MEDIUM_READSECTORS_def MEDIUM_io_read)
next
  fix m and s n :: u32 and buf :: "byte list"
  assume a: "image_ok m" "unat s + unat n \<le> image_nsec m" "512 * unat n \<le> length buf"
  let ?d = "bslice buf 0 (512 * unat n)"
  let ?m = "m\<lparr>buffer := overwrite (buffer m) (512 * unat s) ?d\<rparr>"
  note r = image_range [OF a(1,2)]
  have ld: "length ?d = 512 * unat n" using a(3) by (intro length_slice) simp
  have "writeSectors discio s n buf m = Some (True, ?m)"
    using a by (simp add: discio_def MEDIUM_WRITESECTORS_def MEDIUM_io_write)
  moreover have "image_ok ?m" "image_nsec ?m = image_nsec m"
    using a r ld by (simp_all add: image_ok_def image_nsec_def)
  moreover have "image_sec ?m t =
      (if unat s \<le> t \<and> t < unat s + unat n then bslice buf (512 * (t - unat s)) 512 else image_sec m t)"
    if "t < image_nsec m" for t
  proof -
    have "(t + 1) * 512 \<le> length (buffer m)"
      using that a(1) unfolding image_ok_def image_nsec_def
      by (simp add: less_eq_div_iff_mult_less_eq flip: Suc_le_eq)
    then have "512 * (t + 1) \<le> length (buffer m)" by simp
    then have "bslice (buffer ?m) (512 * t) 512 =
        (if unat s \<le> t \<and> t < unat s + unat n then bslice ?d (512 * (t - unat s)) 512
         else bslice (buffer m) (512 * t) 512)"
      using slice_overwrite_sectors [OF r(3) ld, of t] by simp
    moreover have "bslice ?d (512 * (t - unat s)) 512 = bslice buf (512 * (t - unat s)) 512"
      if "unat s \<le> t" "t < unat s + unat n"
      using that by (subst slice_slice) auto
    ultimately show ?thesis
      unfolding image_sec_def by simp
  qed
  ultimately show "\<exists>m'. writeSectors discio s n buf m = Some (True, m') \<and> image_ok m' \<and>
      image_nsec m' = image_nsec m \<and> (\<forall>t < image_nsec m. image_sec m' t =
        (if unat s \<le> t \<and> t < unat s + unat n then bslice buf (512 * (t - unat s)) 512 else image_sec m t))"
    by blast
qed

end
