(* ===== verification/ByteOrder.thy ===== *)
theory ByteOrder
  imports Prelude
begin

text \<open>
  The little-endian helpers of \<^verbatim>\<open>utils/libfat/bit_ops.h\<close>: reading 16- and 32-bit values
  out of a byte array and storing them into one. An access outside the array is \<open>None\<close>.
\<close>

definition u8array_to_u16 :: "byte list \<Rightarrow> nat \<Rightarrow> u16 option" where
  "u8array_to_u16 item off = do {
     b0 \<leftarrow> mem_get item off;
     b1 \<leftarrow> mem_get item (off + 1);
     Some (ucast b0 OR push_bit 8 (ucast b1)) }"

definition u8array_to_u32 :: "byte list \<Rightarrow> nat \<Rightarrow> u32 option" where
  "u8array_to_u32 item off = do {
     b0 \<leftarrow> mem_get item off;
     b1 \<leftarrow> mem_get item (off + 1);
     b2 \<leftarrow> mem_get item (off + 2);
     b3 \<leftarrow> mem_get item (off + 3);
     Some (ucast b0 OR push_bit 8 (ucast b1) OR push_bit 16 (ucast b2) OR push_bit 24 (ucast b3)) }"

definition u16_to_u8array :: "byte list \<Rightarrow> nat \<Rightarrow> u16 \<Rightarrow> byte list option" where
  "u16_to_u8array item off val = do {
     i1 \<leftarrow> mem_set item off (ucast val);
     mem_set i1 (off + 1) (ucast (drop_bit 8 val)) }"

definition u32_to_u8array :: "byte list \<Rightarrow> nat \<Rightarrow> u32 \<Rightarrow> byte list option" where
  "u32_to_u8array item off val = do {
     i1 \<leftarrow> mem_set item off (ucast val);
     i2 \<leftarrow> mem_set i1 (off + 1) (ucast (drop_bit 8 val));
     i3 \<leftarrow> mem_set i2 (off + 2) (ucast (drop_bit 16 val));
     mem_set i3 (off + 3) (ucast (drop_bit 24 val)) }"

section \<open>Stores as overwrites, loads as values of slices\<close>

definition le16 :: "byte list \<Rightarrow> u16" where
  "le16 bs = ucast (bs ! 0) OR push_bit 8 (ucast (bs ! 1))"

definition le32 :: "byte list \<Rightarrow> u32" where
  "le32 bs = ucast (bs ! 0) OR push_bit 8 (ucast (bs ! 1)) OR push_bit 16 (ucast (bs ! 2))
     OR push_bit 24 (ucast (bs ! 3))"

definition bytes16 :: "u16 \<Rightarrow> byte list" where
  "bytes16 v = [ucast v, ucast (drop_bit 8 v)]"

definition bytes32 :: "u32 \<Rightarrow> byte list" where
  "bytes32 v = [ucast v, ucast (drop_bit 8 v), ucast (drop_bit 16 v), ucast (drop_bit 24 v)]"

lemma length_bytes [simp]: "length (bytes16 v) = 2" "length (bytes32 w) = 4"
  by (simp_all add: bytes16_def bytes32_def)

text \<open>Splitting a value into bytes and joining them is the identity.\<close>

lemma le16_bytes16 [simp]: "le16 (bytes16 v) = v"
  by (rule bit_word_eqI) (auto simp: le16_def bytes16_def bit_simps)

lemma le32_bytes32 [simp]: "le32 (bytes32 v) = v"
proof (rule bit_word_eqI)
  fix n :: nat
  assume "n < LENGTH(32)"
  then show "bit (le32 (bytes32 v)) n = bit v n"
    unfolding le32_def bytes32_def by (cases "n < 8"; cases "n < 16"; cases "n < 24") (auto simp: bit_simps not_less)
qed

lemma overwrite_step:
  "off < length buf \<Longrightarrow> overwrite buf off (x # src) = overwrite (buf[off := x]) (Suc off) src"
  by (simp add: overwrite_def take_Suc_conv_app_nth)

lemma u16_to_u8array_eq:
  "off + 2 \<le> length item \<Longrightarrow> u16_to_u8array item off v = Some (overwrite item off (bytes16 v))"
  by (simp add: u16_to_u8array_def bytes16_def overwrite_step)

lemma u32_to_u8array_eq:
  "off + 4 \<le> length item \<Longrightarrow> u32_to_u8array item off v = Some (overwrite item off (bytes32 v))"
  by (simp add: u32_to_u8array_def bytes32_def overwrite_step numeral_eq_Suc)

lemma u8array_to_u16_eq:
  "off + 2 \<le> length item \<Longrightarrow> u8array_to_u16 item off = Some (le16 (bslice item off 2))"
  by (simp add: u8array_to_u16_def le16_def nth_slice)

lemma u8array_to_u32_eq:
  "off + 4 \<le> length item \<Longrightarrow> u8array_to_u32 item off = Some (le32 (bslice item off 4))"
  by (simp add: u8array_to_u32_def le32_def nth_slice)

end
