(* ===== verification/Cache.thy ===== *)
theory Cache
  imports Medium ByteOrder
begin

text \<open>
  The sector cache of \<^verbatim>\<open>utils/libfat/cache.c\<close>. A cache holds a few pages of consecutive
  sectors; every operation finds or loads the page of a sector (\<open>FAT_cache_getPage\<close>, with
  eviction of the least recently used page) and copies bytes to or from it. The pointers to
  cache entries that the C functions return are indices into \<open>cacheEntries\<close>.

  The record \<open>CACHE\<close> has, beside the fields of the C structure, the state \<open>medium\<close> of the
  device that \<open>disc\<close> points to and the static \<open>accessCounter\<close> of \<^verbatim>\<open>cache.c\<close>.

  The invariant, the abstraction and the correctness lemmas are in \<open>CacheCorrect\<close>.
\<close>

section \<open>State\<close>

record CACHE_ENTRY =
  ce_sector :: u32
  ce_count :: u32
  ce_last_access :: u32
  ce_dirty :: bool
  ce_cache :: "byte list"

record 'd CACHE =
  disc :: "'d DISC_INTERFACE"
  endOfPartition :: u32
  numberOfPages :: u32
  sectorsPerPage :: u32
  cacheEntries :: "CACHE_ENTRY list"
  medium :: 'd
  accessCounter :: u32

definition CACHE_FREE :: u32 where "CACHE_FREE = -1"

definition SECTOR_BYTES :: u32 where "SECTOR_BYTES = 512"

definition set_entry :: "nat \<Rightarrow> CACHE_ENTRY \<Rightarrow> 'd CACHE \<Rightarrow> 'd CACHE" where
  "set_entry i e c = c\<lparr>cacheEntries := (cacheEntries c)[i := e]\<rparr>"

section \<open>Operations\<close>

text \<open>
  The allocations of the constructor are taken to succeed; fresh memory has any content
  (\<open>junk\<close>). The static counter keeps the value \<open>count\<close> that earlier caches left.
\<close>

definition FAT_cache_constructor ::
  "u32 \<Rightarrow> u32 \<Rightarrow> 'd DISC_INTERFACE \<Rightarrow> u32 \<Rightarrow> byte \<Rightarrow> u32 \<Rightarrow> 'd \<Rightarrow> 'd CACHE" where
  "FAT_cache_constructor pages spp discInterface endPart junk count m =
     (let pages = (if pages < 2 then 2 else pages);
          spp = (if spp < 8 then 8 else spp);
          e = \<lparr>ce_sector = CACHE_FREE, ce_count = 0, ce_last_access = 0, ce_dirty = False,
               ce_cache = replicate (unat (spp * SECTOR_BYTES)) junk\<rparr>
      in \<lparr>disc = discInterface, endOfPartition = endPart, numberOfPages = pages,
          sectorsPerPage = spp, cacheEntries = replicate (unat pages) e,
          medium = m, accessCounter = count\<rparr>)"

definition accessTime :: "'d CACHE \<Rightarrow> u32 \<times> 'd CACHE" where
  "accessTime c = (let t = accessCounter c + 1 in (t, c\<lparr>accessCounter := t\<rparr>))"

text \<open>
  The scan of \<open>FAT_cache_getPage\<close>: the first page that holds the sector, or else the page to
  replace (the first free one, or else the first with the smallest \<open>last_access\<close>).
\<close>

datatype page_search = Hit nat | Miss bool nat

fun getPage_search :: "CACHE_ENTRY list \<Rightarrow> nat \<Rightarrow> u32 \<Rightarrow> bool \<Rightarrow> nat \<Rightarrow> u32 \<Rightarrow> page_search" where
  "getPage_search [] i sector foundFree oldUsed oldAccess = Miss foundFree oldUsed"
| "getPage_search (e # es) i sector foundFree oldUsed oldAccess =
     (if ce_sector e \<le> sector \<and> sector < ce_sector e + ce_count e then Hit i
      else if \<not> foundFree \<and> (ce_sector e = CACHE_FREE \<or> ce_last_access e < oldAccess)
      then getPage_search es (i + 1) sector (ce_sector e = CACHE_FREE) i (ce_last_access e)
      else getPage_search es (i + 1) sector foundFree oldUsed oldAccess)"

text \<open>Writing a dirty victim back; the result is \<open>False\<close> when the disc refuses the write.\<close>

definition getPage_evict :: "bool \<Rightarrow> nat \<Rightarrow> 'd CACHE \<Rightarrow> (bool \<times> 'd CACHE) option" where
  "getPage_evict foundFree oldUsed c = do {
     e \<leftarrow> mem_get (cacheEntries c) oldUsed;
     if \<not> foundFree \<and> ce_dirty e then do {
       (b, m) \<leftarrow> FAT_disc_writeSectors (disc c) (ce_sector e) (ce_count e) (ce_cache e) (medium c);
       let c = c\<lparr>medium := m\<rparr>;
       Some (b, if b then set_entry oldUsed (e\<lparr>ce_dirty := False\<rparr>) c else c) }
     else Some (True, c) }"

definition getPage_load :: "u32 \<Rightarrow> nat \<Rightarrow> 'd CACHE \<Rightarrow> (nat option \<times> 'd CACHE) option" where
  "getPage_load sector oldUsed c =
     (if sectorsPerPage c = 0 then None else do {
     e \<leftarrow> mem_get (cacheEntries c) oldUsed;
     let sector = (sector div sectorsPerPage c) * sectorsPerPage c;
     let next_page = sector + sectorsPerPage c;
     let next_page = (if next_page > endOfPartition c then endOfPartition c else next_page);
     (b, buf, m) \<leftarrow> FAT_disc_readSectors (disc c) sector (next_page - sector) (ce_cache e) (medium c);
     let c = c\<lparr>medium := m\<rparr>;
     if \<not> b then Some (None, set_entry oldUsed (e\<lparr>ce_cache := buf\<rparr>) c)
     else let (t, c) = accessTime c in
       Some (Some oldUsed, set_entry oldUsed (e\<lparr>ce_sector := sector, ce_count := next_page - sector,
         ce_last_access := t, ce_cache := buf\<rparr>) c) })"

definition FAT_cache_getPage :: "'d CACHE \<Rightarrow> u32 \<Rightarrow> (nat option \<times> 'd CACHE) option" where
  "FAT_cache_getPage c sector =
     (case getPage_search (cacheEntries c) 0 sector False 0 (-1) of
        Hit i \<Rightarrow> do {
          e \<leftarrow> mem_get (cacheEntries c) i;
          let (t, c) = accessTime c in Some (Some i, set_entry i (e\<lparr>ce_last_access := t\<rparr>) c) }
      | Miss foundFree oldUsed \<Rightarrow> do {
          (b, c) \<leftarrow> getPage_evict foundFree oldUsed c;
          if b then getPage_load sector oldUsed c else Some (None, c) })"

text \<open>The bytes stored through \<open>dest\<close> are returned, after those of earlier rounds (\<open>acc\<close>).\<close>

partial_function (option) readSectors_loop ::
  "u32 \<Rightarrow> u32 \<Rightarrow> byte list \<Rightarrow> 'd CACHE \<Rightarrow> (bool \<times> byte list \<times> 'd CACHE) option" where
  [code]: "readSectors_loop sector numSectors acc c =
     (if numSectors = 0 then Some (True, acc, c)
      else do {
        (entry, c) \<leftarrow> FAT_cache_getPage c sector;
        case entry of None \<Rightarrow> Some (False, acc, c)
        | Some i \<Rightarrow> do {
            e \<leftarrow> mem_get (cacheEntries c) i;
            let sec = sector - ce_sector e;
            let secs_to_read = ce_count e - sec;
            let secs_to_read = (if secs_to_read > numSectors then numSectors else secs_to_read);
            d \<leftarrow> mem_read (ce_cache e) (unat (sec * SECTOR_BYTES)) (unat (secs_to_read * SECTOR_BYTES));
            readSectors_loop (sector + secs_to_read) (numSectors - secs_to_read) (acc @ d) c } })"

definition FAT_cache_readSectors ::
  "'d CACHE \<Rightarrow> u32 \<Rightarrow> u32 \<Rightarrow> (bool \<times> byte list \<times> 'd CACHE) option" where
  "FAT_cache_readSectors c sector numSectors = readSectors_loop sector numSectors [] c"

text \<open>
  \<open>FAT_cache_readPartialSector\<close> returns the C result and the bytes stored in the caller's
  buffer (none when it fails). A size is a \<open>size_t\<close> that no caller lets near its upper end: the
  sum \<open>offset + size\<close> is taken without wrap-around.
\<close>

definition FAT_cache_readPartialSector ::
  "'d CACHE \<Rightarrow> u32 \<Rightarrow> u32 \<Rightarrow> nat \<Rightarrow> (bool \<times> byte list \<times> 'd CACHE) option" where
  "FAT_cache_readPartialSector c sector off sz =
     (if unat off + sz > BYTES_PER_READ then Some (False, [], c)
      else do {
        (entry, c) \<leftarrow> FAT_cache_getPage c sector;
        case entry of None \<Rightarrow> Some (False, [], c)
        | Some i \<Rightarrow> do {
            e \<leftarrow> mem_get (cacheEntries c) i;
            let sec = sector - ce_sector e;
            d \<leftarrow> mem_read (ce_cache e) (unat (sec * SECTOR_BYTES + off)) sz;
            Some (True, d, c) } })"

definition FAT_cache_readLittleEndianValue ::
  "'d CACHE \<Rightarrow> u32 \<Rightarrow> u32 \<Rightarrow> u32 \<Rightarrow> nat \<Rightarrow> (bool \<times> u32 \<times> 'd CACHE) option" where
  "FAT_cache_readLittleEndianValue c val sector off num_bytes = do {
     (b, buf, c) \<leftarrow> FAT_cache_readPartialSector c sector off num_bytes;
     if \<not> b then Some (False, val, c)
     else if num_bytes > 4 then None
     else if num_bytes = 1 then do { v \<leftarrow> mem_get buf 0; Some (True, ucast v, c) }
     else if num_bytes = 2 then do { v \<leftarrow> u8array_to_u16 buf 0; Some (True, ucast v, c) }
     else if num_bytes = 4 then do { v \<leftarrow> u8array_to_u32 buf 0; Some (True, v, c) }
     else Some (False, val, c) }"

text \<open>The two partial writes differ in what the rest of the sector holds afterwards.\<close>

definition FAT_cache_writePartialSector ::
  "'d CACHE \<Rightarrow> byte list \<Rightarrow> u32 \<Rightarrow> u32 \<Rightarrow> nat \<Rightarrow> (bool \<times> 'd CACHE) option" where
  "FAT_cache_writePartialSector c buf sector off sz =
     (if unat off + sz > BYTES_PER_READ then Some (False, c)
      else do {
        (entry, c) \<leftarrow> FAT_cache_getPage c sector;
        case entry of None \<Rightarrow> Some (False, c)
        | Some i \<Rightarrow> do {
            e \<leftarrow> mem_get (cacheEntries c) i;
            let sec = sector - ce_sector e;
            d \<leftarrow> mem_read buf 0 sz;
            p \<leftarrow> mem_write (ce_cache e) (unat (sec * SECTOR_BYTES + off)) d;
            Some (True, set_entry i (e\<lparr>ce_cache := p, ce_dirty := True\<rparr>) c) } })"

definition FAT_cache_writeLittleEndianValue ::
  "'d CACHE \<Rightarrow> u32 \<Rightarrow> u32 \<Rightarrow> u32 \<Rightarrow> nat \<Rightarrow> (bool \<times> 'd CACHE) option" where
  "FAT_cache_writeLittleEndianValue c val sector off sz =
     (let buf = [0, 0, 0, 0] in
      if sz = 1 then do {
        buf \<leftarrow> mem_set buf 0 (ucast val);
        FAT_cache_writePartialSector c buf sector off sz }
      else if sz = 2 then do {
        buf \<leftarrow> u16_to_u8array buf 0 (ucast val);
        FAT_cache_writePartialSector c buf sector off sz }
      else if sz = 4 then do {
        buf \<leftarrow> u32_to_u8array buf 0 val;
        FAT_cache_writePartialSector c buf sector off sz }
      else Some (False, c))"

definition FAT_cache_eraseWritePartialSector ::
  "'d CACHE \<Rightarrow> byte list \<Rightarrow> u32 \<Rightarrow> u32 \<Rightarrow> nat \<Rightarrow> (bool \<times> 'd CACHE) option" where
  "FAT_cache_eraseWritePartialSector c buf sector off sz =
     (if unat off + sz > BYTES_PER_READ then Some (False, c)
      else do {
        (entry, c) \<leftarrow> FAT_cache_getPage c sector;
        case entry of None \<Rightarrow> Some (False, c)
        | Some i \<Rightarrow> do {
            e \<leftarrow> mem_get (cacheEntries c) i;
            let sec = sector - ce_sector e;
            p \<leftarrow> mem_write (ce_cache e) (unat (sec * SECTOR_BYTES)) (replicate BYTES_PER_READ 0);
            d \<leftarrow> mem_read buf 0 sz;
            p \<leftarrow> mem_write p (unat (sec * SECTOR_BYTES + off)) d;
            Some (True, set_entry i (e\<lparr>ce_cache := p, ce_dirty := True\<rparr>) c) } })"

text \<open>The lowest loaded page that meets the sectors from \<open>sector\<close> on, \<open>count\<close> of them.\<close>

fun findPage_search ::
  "CACHE_ENTRY list \<Rightarrow> nat \<Rightarrow> u32 \<Rightarrow> u32 \<Rightarrow> u32 \<Rightarrow> nat option \<Rightarrow> nat option" where
  "findPage_search [] i sector cnt lowest entry = entry"
| "findPage_search (e # es) i sector cnt lowest entry =
     (let hit = (ce_sector e \<noteq> CACHE_FREE \<and>
          (if sector > ce_sector e then sector - ce_sector e < ce_count e
           else ce_sector e - sector < cnt) \<and> ce_sector e < lowest)
      in findPage_search es (i + 1) sector cnt
           (if hit then ce_sector e else lowest) (if hit then Some i else entry))"

definition FAT_cache_findPage :: "'d CACHE \<Rightarrow> u32 \<Rightarrow> u32 \<Rightarrow> nat option" where
  "FAT_cache_findPage c sector cnt = findPage_search (cacheEntries c) 0 sector cnt (-1) None"

text \<open>
  \<open>FAT_cache_writeSectors\<close>: sectors that no page holds go straight to the disc, whose answer
  is ignored; the others are stored in their page. \<open>src\<close> is the data not yet written.
\<close>

definition writeSectors_direct ::
  "'d CACHE \<Rightarrow> u32 \<Rightarrow> u32 \<Rightarrow> byte list \<Rightarrow> 'd CACHE option" where
  "writeSectors_direct c sector n src = do {
     (b, m) \<leftarrow> FAT_disc_writeSectors (disc c) sector n src (medium c);
     Some (c\<lparr>medium := m\<rparr>) }"

partial_function (option) writeSectors_loop ::
  "u32 \<Rightarrow> u32 \<Rightarrow> byte list \<Rightarrow> 'd CACHE \<Rightarrow> (bool \<times> 'd CACHE) option" where
  [code]: "writeSectors_loop sector numSectors src c =
     (if numSectors = 0 then Some (True, c)
      else case FAT_cache_findPage c sector numSectors of
        None \<Rightarrow> do {
          c \<leftarrow> writeSectors_direct c sector numSectors src;
          Some (True, c) }
      | Some i \<Rightarrow> do {
          e \<leftarrow> mem_get (cacheEntries c) i;
          let gap = (if ce_sector e > sector then ce_sector e - sector else 0);
          c \<leftarrow> (if ce_sector e > sector then writeSectors_direct c sector gap src else Some c);
          let src = drop (unat (gap * SECTOR_BYTES)) src;
          let sector = sector + gap;
          let numSectors = numSectors - gap;
          let sec = sector - ce_sector e;
          let secs_to_write = ce_count e - sec;
          let secs_to_write = (if secs_to_write > numSectors then numSectors else secs_to_write);
          d \<leftarrow> mem_read src 0 (unat (secs_to_write * SECTOR_BYTES));
          p \<leftarrow> mem_write (ce_cache e) (unat (sec * SECTOR_BYTES)) d;
          writeSectors_loop (sector + secs_to_write) (numSectors - secs_to_write)
            (drop (unat (secs_to_write * SECTOR_BYTES)) src)
            (set_entry i (e\<lparr>ce_cache := p, ce_dirty := True\<rparr>) c) })"

definition FAT_cache_writeSectors ::
  "'d CACHE \<Rightarrow> u32 \<Rightarrow> u32 \<Rightarrow> byte list \<Rightarrow> (bool \<times> 'd CACHE) option" where
  "FAT_cache_writeSectors c sector numSectors buf = writeSectors_loop sector numSectors buf c"

text \<open>The flush visits the pages from index \<open>i\<close> on; \<open>n\<close> pages are left.\<close>

fun flush_loop :: "nat \<Rightarrow> nat \<Rightarrow> 'd CACHE \<Rightarrow> (bool \<times> 'd CACHE) option" where
  "flush_loop 0 i c = Some (True, c)"
| "flush_loop (Suc n) i c = do {
     e \<leftarrow> mem_get (cacheEntries c) i;
     (b, c) \<leftarrow> (if ce_dirty e then do {
          (b, m) \<leftarrow> FAT_disc_writeSectors (disc c) (ce_sector e) (ce_count e) (ce_cache e) (medium c);
          Some (b, c\<lparr>medium := m\<rparr>) }
        else Some (True, c));
     if \<not> b then Some (False, c)
     else flush_loop n (i + 1) (set_entry i (e\<lparr>ce_dirty := False\<rparr>) c) }"

definition FAT_cache_flush :: "'d CACHE \<Rightarrow> (bool \<times> 'd CACHE) option" where
  "FAT_cache_flush c = flush_loop (unat (numberOfPages c)) 0 c"

definition FAT_cache_invalidate :: "'d CACHE \<Rightarrow> 'd CACHE option" where
  "FAT_cache_invalidate c = do {
     (b, c) \<leftarrow> FAT_cache_flush c;
     Some (c\<lparr>cacheEntries := map (\<lambda>e. e\<lparr>ce_sector := CACHE_FREE, ce_last_access := 0,
       ce_count := 0, ce_dirty := False\<rparr>) (cacheEntries c)\<rparr>) }"

text \<open>Destroying a cache flushes it; the medium is what remains.\<close>

definition FAT_cache_destructor :: "'d CACHE \<Rightarrow> 'd option" where
  "FAT_cache_destructor c = do {
     (b, c) \<leftarrow> FAT_cache_flush c;
     Some (medium c) }"

end
