(* ===== verification/CacheCorrect.thy ===== *)
theory CacheCorrect
  imports Cache
begin

text \<open>
  Correctness of the sector cache. \<open>cache_view sec c t\<close> is what sector \<open>t\<close> holds seen through
  the cache: its bytes in the page that holds it, or else the disc's. \<open>cache_inv\<close> is the
  invariant: pages are aligned, pairwise different and inside the partition, and a page that
  is not dirty agrees with the disc. In the context of \<open>disc_device\<close> every operation is shown
  to keep the invariant and to act on the view as the same operation on a plain disc would.
\<close>

section \<open>Pages\<close>

definition covers :: "CACHE_ENTRY \<Rightarrow> nat \<Rightarrow> bool" where
  "covers e t \<longleftrightarrow> unat (ce_sector e) \<le> t \<and> t < unat (ce_sector e) + unat (ce_count e)"

definition page_sector :: "CACHE_ENTRY \<Rightarrow> nat \<Rightarrow> byte list" where
  "page_sector e t = bslice (ce_cache e) (512 * (t - unat (ce_sector e))) 512"

definition page_ok :: "nat \<Rightarrow> nat \<Rightarrow> CACHE_ENTRY \<Rightarrow> bool" where
  "page_ok spp endp e \<longleftrightarrow> length (ce_cache e) = 512 * spp \<and>
     (if ce_sector e = CACHE_FREE then ce_count e = 0 \<and> \<not> ce_dirty e
      else unat (ce_sector e) mod spp = 0 \<and> unat (ce_sector e) < endp \<and>
        unat (ce_count e) = min spp (endp - unat (ce_sector e)))"

definition clean_ok :: "(nat \<Rightarrow> byte list) \<Rightarrow> CACHE_ENTRY \<Rightarrow> bool" where
  "clean_ok f e \<longleftrightarrow> (\<not> ce_dirty e \<longrightarrow> (\<forall>t. covers e t \<longrightarrow> page_sector e t = f t))"

definition no_overlap :: "CACHE_ENTRY list \<Rightarrow> bool" where
  "no_overlap es \<longleftrightarrow> (\<forall>i < length es. \<forall>j < length es. i \<noteq> j \<longrightarrow>
     ce_sector (es ! i) \<noteq> CACHE_FREE \<longrightarrow> ce_sector (es ! i) \<noteq> ce_sector (es ! j))"

definition pages_ok :: "nat \<Rightarrow> nat \<Rightarrow> (nat \<Rightarrow> byte list) \<Rightarrow> CACHE_ENTRY list \<Rightarrow> bool" where
  "pages_ok spp endp f es \<longleftrightarrow>
     (\<forall>e \<in> set es. page_ok spp endp e) \<and> no_overlap es \<and> (\<forall>e \<in> set es. clean_ok f e)"

definition view_of :: "(nat \<Rightarrow> byte list) \<Rightarrow> CACHE_ENTRY list \<Rightarrow> nat \<Rightarrow> byte list" where
  "view_of f es t =
     (case find (\<lambda>e. covers e t) es of Some e \<Rightarrow> page_sector e t | None \<Rightarrow> f t)"

lemma covers_loaded: "page_ok spp endp e \<Longrightarrow> covers e t \<Longrightarrow> ce_sector e \<noteq> CACHE_FREE"
  by (auto simp: page_ok_def covers_def)

lemma covers_aligned:
  assumes "page_ok spp endp e" "covers e t"
  shows "unat (ce_sector e) = t div spp * spp" "t < endp"
proof -
  have al: "unat (ce_sector e) mod spp = 0"
    and lo: "unat (ce_sector e) \<le> t"
    and hi: "t < unat (ce_sector e) + min spp (endp - unat (ce_sector e))"
    and lt: "unat (ce_sector e) < endp"
    using assms covers_loaded [OF assms] by (auto simp: page_ok_def covers_def)
  define q where "q = unat (ce_sector e) div spp"
  from al have q: "unat (ce_sector e) = q * spp"
    using div_mult_mod_eq [of "unat (ce_sector e)" spp] unfolding q_def by simp
  have "t div spp = q"
  proof (rule div_nat_eqI)
    show "spp * q \<le> t" using lo q by (simp add: mult.commute)
    show "t < spp * Suc q" using hi q by (simp add: algebra_simps)
  qed
  then show "unat (ce_sector e) = t div spp * spp" using q by simp
  show "t < endp" using hi lt by simp
qed

lemma covers_unique:
  assumes "pages_ok spp endp f es" "i < length es" "j < length es"
    and "covers (es ! i) t" "covers (es ! j) t"
  shows "i = j"
proof (rule ccontr)
  assume "i \<noteq> j"
  have p: "page_ok spp endp (es ! i)" "page_ok spp endp (es ! j)"
    using assms(1-3) by (auto simp: pages_ok_def)
  then have "ce_sector (es ! i) = ce_sector (es ! j)"
    using covers_aligned(1) assms(4,5) by (metis word_unat_eq_iff)
  moreover have "ce_sector (es ! i) \<noteq> ce_sector (es ! j)"
    using assms(1-3) \<open>i \<noteq> j\<close> covers_loaded [OF p(1) assms(4)]
    by (auto simp: pages_ok_def no_overlap_def)
  ultimately show False by simp
qed

lemma no_overlapD:
  assumes "pages_ok spp endp f es" "i < length es" "j < length es" "j \<noteq> i"
    and "ce_sector (es ! i) \<noteq> CACHE_FREE"
  shows "ce_sector (es ! j) \<noteq> ce_sector (es ! i)"
proof -
  have "ce_sector (es ! i) \<noteq> ce_sector (es ! j)"
    using assms unfolding pages_ok_def no_overlap_def by blast
  then show ?thesis by simp
qed

lemma view_at:
  assumes "pages_ok spp endp f es" "i < length es" "covers (es ! i) t"
  shows "view_of f es t = page_sector (es ! i) t"
proof -
  have "find (\<lambda>e. covers e t) es \<noteq> None"
    using assms(2,3) nth_mem by (auto simp: find_None_iff)
  then obtain e where e: "find (\<lambda>e. covers e t) es = Some e" by blast
  then obtain j where j: "e = es ! j" "j < length es" "covers (es ! j) t"
    by (auto simp: find_Some_iff)
  have "j = i" by (rule covers_unique [OF assms(1) j(2) assms(2) j(3) assms(3)])
  with e j show ?thesis by (simp add: view_of_def)
qed

lemma view_none:
  assumes "\<And>i. i < length es \<Longrightarrow> \<not> covers (es ! i) t"
  shows "view_of f es t = f t"
proof -
  have "find (\<lambda>e. covers e t) es = None"
    using assms by (auto simp: find_None_iff in_set_conv_nth)
  then show ?thesis by (simp add: view_of_def)
qed

lemma view_of_cases:
  assumes "pages_ok spp endp f es"
  obtains (page) i where "i < length es" "covers (es ! i) t" "view_of f es t = page_sector (es ! i) t"
  | (disc) "\<And>i. i < length es \<Longrightarrow> \<not> covers (es ! i) t" "view_of f es t = f t"
  using view_at [OF assms] view_none by metis

lemma length_page_sector:
  assumes "page_ok spp endp e" "covers e t"
  shows "length (page_sector e t) = 512"
proof -
  have "t - unat (ce_sector e) < spp"
    using assms covers_loaded [OF assms] by (auto simp: page_ok_def covers_def)
  then have "512 * (t - unat (ce_sector e)) + 512 \<le> 512 * spp" by linarith
  then show ?thesis using assms(1) by (simp add: page_sector_def page_ok_def)
qed

text \<open>A page replaced by another one in place \<open>i\<close>.\<close>

lemma pages_ok_update:
  assumes "pages_ok spp endp f es" "i < length es" "page_ok spp endp e" "clean_ok f' e"
    and "ce_sector e \<noteq> CACHE_FREE \<Longrightarrow>
      (\<And>j. j < length es \<Longrightarrow> j \<noteq> i \<Longrightarrow> ce_sector (es ! j) \<noteq> ce_sector e)"
    and "\<And>j. j < length es \<Longrightarrow> j \<noteq> i \<Longrightarrow> clean_ok f' (es ! j)"
  shows "pages_ok spp endp f' (es[i := e])"
proof -
  have "page_ok spp endp (es[i := e] ! k)" "clean_ok f' (es[i := e] ! k)" if "k < length es" for k
    using that assms by (auto simp: pages_ok_def nth_list_update)
  moreover have "no_overlap (es[i := e])"
    unfolding no_overlap_def
  proof (intro allI impI)
    fix k l
    assume a: "k < length (es[i := e])" "l < length (es[i := e])" "k \<noteq> l"
      "ce_sector (es[i := e] ! k) \<noteq> CACHE_FREE"
    show "ce_sector (es[i := e] ! k) \<noteq> ce_sector (es[i := e] ! l)"
    proof (cases "k = i")
      case True
      with a assms(2) have "l < length es" "l \<noteq> i" "ce_sector e \<noteq> CACHE_FREE" by simp_all
      then have "ce_sector (es ! l) \<noteq> ce_sector e" using assms(5) by blast
      with True a(3) assms(2) show ?thesis by simp
    next
      case k: False
      show ?thesis
      proof (cases "l = i")
        case True
        have "ce_sector (es ! k) \<noteq> ce_sector e" if "ce_sector e \<noteq> CACHE_FREE"
          using assms(5) [OF that, of k] a(1) k by simp
        then show ?thesis using a k True assms(2) by auto
      next
        case False
        with k a assms(1) show ?thesis by (simp add: pages_ok_def no_overlap_def)
      qed
    qed
  qed
  ultimately show ?thesis
    unfolding pages_ok_def by (auto simp: in_set_conv_nth)
qed

lemma view_update:
  assumes "pages_ok spp endp f es" "pages_ok spp endp f' (es[i := e])" "i < length es"
    and "covers (es ! i) t \<Longrightarrow> \<not> covers e t \<Longrightarrow> f' t = page_sector (es ! i) t"
    and "(\<And>j. j < length es \<Longrightarrow> \<not> covers (es ! j) t) \<Longrightarrow> \<not> covers e t \<Longrightarrow> f' t = f t"
  shows "view_of f' (es[i := e]) t = (if covers e t then page_sector e t else view_of f es t)"
proof (cases "covers e t")
  case True
  then show ?thesis using view_at [OF assms(2), of i t] assms(3) by simp
next
  case False
  show ?thesis
  proof (cases rule: view_of_cases [OF assms(1), of t, case_names page disc])
    case (page j)
    then show ?thesis
    proof (cases "j = i")
      case True
      have "\<not> covers (es[i := e] ! k) t" if "k < length (es[i := e])" for k
        using that covers_unique [OF assms(1) page(1) _ page(2), of k] False True
        by (cases "k = i") auto
      then have "view_of f' (es[i := e]) t = f' t" by (rule view_none)
      with page True False assms(4) show ?thesis by simp
    next
      case neq: False
      then have "view_of f' (es[i := e]) t = page_sector (es ! j) t"
        using view_at [OF assms(2), of j t] page by simp
      with page False show ?thesis by simp
    qed
  next
    case disc
    have "\<not> covers (es[i := e] ! k) t" if "k < length (es[i := e])" for k
      using that disc(1) False by (cases "k = i") auto
    then have "view_of f' (es[i := e]) t = f' t" by (rule view_none)
    with disc False assms(5) show ?thesis by simp
  qed
qed

section \<open>Caches\<close>

definition cache_view :: "('d \<Rightarrow> nat \<Rightarrow> byte list) \<Rightarrow> 'd CACHE \<Rightarrow> nat \<Rightarrow> byte list" where
  "cache_view sec c = view_of (sec (medium c)) (cacheEntries c)"

definition cache_inv ::
  "'d DISC_INTERFACE \<Rightarrow> ('d \<Rightarrow> bool) \<Rightarrow> ('d \<Rightarrow> nat) \<Rightarrow> ('d \<Rightarrow> nat \<Rightarrow> byte list) \<Rightarrow> 'd CACHE \<Rightarrow> bool"
  where
  "cache_inv D ok nsec sec c \<longleftrightarrow>
     disc c = D \<and> ok (medium c) \<and> unat (endOfPartition c) \<le> nsec (medium c) \<and>
     unat (endOfPartition c) + unat (sectorsPerPage c) < 2 ^ 32 \<and>
     512 * unat (sectorsPerPage c) < 2 ^ 32 \<and> 0 < unat (sectorsPerPage c) \<and>
     length (cacheEntries c) = unat (numberOfPages c) \<and> 0 < length (cacheEntries c) \<and>
     pages_ok (unat (sectorsPerPage c)) (unat (endOfPartition c)) (sec (medium c)) (cacheEntries c)"

text \<open>What no operation changes: the geometry of the cache and of its disc.\<close>

definition same_frame :: "('d \<Rightarrow> nat) \<Rightarrow> 'd CACHE \<Rightarrow> 'd CACHE \<Rightarrow> bool" where
  "same_frame nsec c c' \<longleftrightarrow> disc c' = disc c \<and> endOfPartition c' = endOfPartition c \<and>
     numberOfPages c' = numberOfPages c \<and> sectorsPerPage c' = sectorsPerPage c \<and>
     nsec (medium c') = nsec (medium c)"

text \<open>\<open>c'\<close> shows the same disc as \<open>c\<close>.\<close>

definition same_view ::
  "('d \<Rightarrow> nat) \<Rightarrow> ('d \<Rightarrow> nat \<Rightarrow> byte list) \<Rightarrow> 'd CACHE \<Rightarrow> 'd CACHE \<Rightarrow> bool" where
  "same_view nsec sec c c' \<longleftrightarrow> (\<forall>t < nsec (medium c). cache_view sec c' t = cache_view sec c t)"

lemma same_frame_refl [simp]: "same_frame nsec c c"
  by (simp add: same_frame_def)

lemma same_frame_trans: "same_frame nsec a b \<Longrightarrow> same_frame nsec b c \<Longrightarrow> same_frame nsec a c"
  by (simp add: same_frame_def)

lemma set_entry_simps [simp]:
  "cacheEntries (set_entry i e c) = (cacheEntries c)[i := e]" "medium (set_entry i e c) = medium c"
  "disc (set_entry i e c) = disc c" "endOfPartition (set_entry i e c) = endOfPartition c"
  "numberOfPages (set_entry i e c) = numberOfPages c"
  "sectorsPerPage (set_entry i e c) = sectorsPerPage c"
  by (simp_all add: set_entry_def)

lemma accessTime_simps [simp]:
  "cacheEntries (snd (accessTime c)) = cacheEntries c" "medium (snd (accessTime c)) = medium c"
  "disc (snd (accessTime c)) = disc c" "endOfPartition (snd (accessTime c)) = endOfPartition c"
  "numberOfPages (snd (accessTime c)) = numberOfPages c"
  "sectorsPerPage (snd (accessTime c)) = sectorsPerPage c"
  by (simp_all add: accessTime_def Let_def)

lemma entry_hit_iff:
  assumes "page_ok spp endp e" "endp + spp < 2 ^ 32"
  shows "(ce_sector e \<le> s \<and> s < ce_sector e + ce_count e) = covers e (unat s)"
proof (cases "ce_sector e = CACHE_FREE")
  case True
  then have "ce_count e = 0" using assms(1) by (simp add: page_ok_def)
  then show ?thesis by (auto simp: covers_def word_less_nat_alt word_le_nat_alt)
next
  case False
  then have "unat (ce_sector e) < endp" "unat (ce_count e) \<le> spp"
    using assms(1) by (auto simp: page_ok_def)
  then have "unat (ce_sector e + ce_count e) = unat (ce_sector e) + unat (ce_count e)"
    using assms(2) by (intro unat_add_u32) linarith
  then show ?thesis by (simp add: covers_def word_less_nat_alt word_le_nat_alt)
qed

lemma drop_eq_ConsD: "drop i full = e # es \<Longrightarrow> i < length full \<and> full ! i = e \<and> es = drop (i + 1) full"
  by (metis Cons_nth_drop_Suc Suc_eq_plus1 drop_all list.distinct(1) list.inject not_le)

text \<open>The three ways the scan treats a page.\<close>

lemma getPage_search_step:
  fixes e :: CACHE_ENTRY
  defines "hit \<equiv> \<lambda>s. ce_sector e \<le> s \<and> s < ce_sector e + ce_count e"
    and "better \<equiv> \<lambda>ff acc. \<not> ff \<and> (ce_sector e = CACHE_FREE \<or> ce_last_access e < acc)"
  shows "hit s \<Longrightarrow> getPage_search (e # es) i s ff old acc = Hit i"
    and "\<not> hit s \<Longrightarrow> better ff acc \<Longrightarrow> getPage_search (e # es) i s ff old acc =
      getPage_search es (i + 1) s (ce_sector e = CACHE_FREE) i (ce_last_access e)"
    and "\<not> hit s \<Longrightarrow> \<not> better ff acc \<Longrightarrow> getPage_search (e # es) i s ff old acc =
      getPage_search es (i + 1) s ff old acc"
  unfolding hit_def better_def getPage_search.simps by (simp_all only: if_True if_False simp_thms)

declare getPage_search.simps(2) [simp del]

lemma getPage_search_Hit:
  "getPage_search es i s ff old acc = Hit k \<Longrightarrow> es = drop i full \<Longrightarrow>
     k < length full \<and> ce_sector (full ! k) \<le> s \<and> s < ce_sector (full ! k) + ce_count (full ! k)"
proof (induction es arbitrary: i ff old acc)
  case (Cons e es)
  note d = drop_eq_ConsD [OF Cons.prems(2) [symmetric]] and st = getPage_search_step [of e s]
  show ?case
  proof (cases "ce_sector e \<le> s \<and> s < ce_sector e + ce_count e")
    case True
    with Cons.prems(1) st(1) d show ?thesis by auto
  next
    case False
    from Cons.prems(1) st(2,3) [OF False] obtain ff' old' acc'
      where "getPage_search es (i + 1) s ff' old' acc' = Hit k" by metis
    from Cons.IH [OF this] d show ?thesis by blast
  qed
qed simp

lemma getPage_search_Miss_none:
  "getPage_search es i s ff old acc = Miss ff' old' \<Longrightarrow> e \<in> set es \<Longrightarrow>
     \<not> (ce_sector e \<le> s \<and> s < ce_sector e + ce_count e)"
proof (induction es arbitrary: i ff old acc)
  case (Cons a es)
  note st = getPage_search_step [of a s]
  have miss: "\<not> (ce_sector a \<le> s \<and> s < ce_sector a + ce_count a)"
    using Cons.prems(1) st(1) by auto
  from Cons.prems(1) st(2,3) [OF miss] obtain i' ff2 old2 acc2
    where "getPage_search es i' s ff2 old2 acc2 = Miss ff' old'" by metis
  from Cons.IH [OF this] Cons.prems(2) miss show ?case by auto
qed simp

lemma getPage_search_Miss_old:
  "getPage_search es i s ff old acc = Miss ff' old' \<Longrightarrow> es = drop i full \<Longrightarrow>
     old' = old \<and> ff' = ff \<or> old' < length full \<and> (ff' \<longrightarrow> ce_sector (full ! old') = CACHE_FREE)"
proof (induction es arbitrary: i ff old acc)
  case (Cons e es)
  note d = drop_eq_ConsD [OF Cons.prems(2) [symmetric]] and st = getPage_search_step [of e s]
  have miss: "\<not> (ce_sector e \<le> s \<and> s < ce_sector e + ce_count e)"
    using Cons.prems(1) st(1) by auto
  show ?case
  proof (cases "\<not> ff \<and> (ce_sector e = CACHE_FREE \<or> ce_last_access e < acc)")
    case True
    from Cons.IH [of "i + 1"] Cons.prems(1) d show ?thesis
      unfolding st(2) [OF miss True] by blast
  next
    case False
    from Cons.IH [of "i + 1"] Cons.prems(1) d show ?thesis
      unfolding st(3) [OF miss False] by blast
  qed
qed simp

section \<open>Correctness over a disc\<close>

context disc_device begin

abbreviation cinv :: "'d CACHE \<Rightarrow> bool" where "cinv \<equiv> cache_inv D ok nsec sec"

abbreviation cview :: "'d CACHE \<Rightarrow> nat \<Rightarrow> byte list" where "cview \<equiv> cache_view sec"

abbreviation sview :: "'d CACHE \<Rightarrow> 'd CACHE \<Rightarrow> bool" where "sview \<equiv> same_view nsec sec"

lemma same_view_trans: "sview a b \<Longrightarrow> sview b c \<Longrightarrow> same_frame nsec a b \<Longrightarrow> sview a c"
  by (simp add: same_view_def same_frame_def)

lemma cinvD:
  assumes "cinv c"
  shows "ok (medium c)" "unat (endOfPartition c) \<le> nsec (medium c)"
    "unat (endOfPartition c) + unat (sectorsPerPage c) < 2 ^ 32"
    "0 < unat (sectorsPerPage c)" "0 < length (cacheEntries c)" "disc c = D"
    "pages_ok (unat (sectorsPerPage c)) (unat (endOfPartition c)) (sec (medium c)) (cacheEntries c)"
    "512 * unat (sectorsPerPage c) < 2 ^ 32" "length (cacheEntries c) = unat (numberOfPages c)"
  using assms unfolding cache_inv_def by blast+

lemma cinv_page_ok:
  assumes "cinv c" "i < length (cacheEntries c)"
  shows "page_ok (unat (sectorsPerPage c)) (unat (endOfPartition c)) (cacheEntries c ! i)"
  using cinvD(7) [OF assms(1)] assms(2) by (simp add: pages_ok_def)

lemma cinv_clean_ok:
  assumes "cinv c" "i < length (cacheEntries c)"
  shows "clean_ok (sec (medium c)) (cacheEntries c ! i)"
  using cinvD(7) [OF assms(1)] assms(2) by (simp add: pages_ok_def)

lemma loaded_page:
  assumes "page_ok spp endp e" "ce_sector e \<noteq> CACHE_FREE"
  shows "unat (ce_sector e) + unat (ce_count e) \<le> endp" "unat (ce_count e) \<le> spp"
    "length (ce_cache e) = 512 * spp"
  using assms by (auto simp: page_ok_def)

text \<open>A page whose bytes or flags change, but not its place.\<close>

lemma cinv_set_entry:
  assumes "cinv c" "i < length (cacheEntries c)"
    and "ce_sector e = ce_sector (cacheEntries c ! i)" "ce_count e = ce_count (cacheEntries c ! i)"
    and "length (ce_cache e) = length (ce_cache (cacheEntries c ! i))"
    and "ce_dirty e \<Longrightarrow> ce_sector e \<noteq> CACHE_FREE"
    and "clean_ok (sec (medium c)) e"
  shows "cinv (set_entry i e c)"
    and "cview (set_entry i e c) t = (if covers e t then page_sector e t else cview c t)"
proof -
  note inv = cinvD [OF assms(1)] and p = cinv_page_ok [OF assms(1,2)]
  have po: "page_ok (unat (sectorsPerPage c)) (unat (endOfPartition c)) e"
    using p assms(3-6) by (auto simp: page_ok_def)
  have "pages_ok (unat (sectorsPerPage c)) (unat (endOfPartition c)) (sec (medium c))
      ((cacheEntries c)[i := e])"
  proof (rule pages_ok_update [OF inv(7) assms(2) po assms(7)])
    show "ce_sector (cacheEntries c ! j) \<noteq> ce_sector e"
      if "ce_sector e \<noteq> CACHE_FREE" "j < length (cacheEntries c)" "j \<noteq> i" for j
      using no_overlapD [OF inv(7) assms(2) that(2,3)] that(1) assms(3) by simp
  qed (use assms(1) cinv_clean_ok in auto)
  note up = this
  then show "cinv (set_entry i e c)" using inv assms(1) by (simp add: cache_inv_def)
  show "cview (set_entry i e c) t = (if covers e t then page_sector e t else cview c t)"
    unfolding cache_view_def
    using view_update [OF inv(7) up assms(2)] assms(3,4) by (simp add: covers_def)
qed

lemma evict_ok:
  assumes inv: "cinv c" and old: "old < length (cacheEntries c)"
    and ff: "ff \<Longrightarrow> ce_sector (cacheEntries c ! old) = CACHE_FREE"
  obtains c' where "getPage_evict ff old c = Some (True, c')" "cinv c'" "sview c c'"
    "same_frame nsec c c'"
    "cacheEntries c' = (cacheEntries c)[old := (cacheEntries c ! old)\<lparr>ce_dirty := False\<rparr>]"
proof (cases "ce_dirty (cacheEntries c ! old)")
  case False
  then have e: "(cacheEntries c ! old)\<lparr>ce_dirty := False\<rparr> = cacheEntries c ! old" by simp
  from False old inv show ?thesis
    by (intro that [of c]) (simp_all add: getPage_evict_def same_view_def e)
next
  case True
  let ?e = "cacheEntries c ! old"
  let ?e' = "?e\<lparr>ce_dirty := False\<rparr>"
  note I = cinvD [OF inv] and p = cinv_page_ok [OF inv old]
  have nf: "ce_sector ?e \<noteq> CACHE_FREE" using True p by (auto simp: page_ok_def)
  note lp = loaded_page [OF p nf]
  obtain m' where w: "writeSectors D (ce_sector ?e) (ce_count ?e) (ce_cache ?e) (medium c) = Some (True, m')"
    "ok m'" "nsec m' = nsec (medium c)"
    "\<And>t. t < nsec (medium c) \<Longrightarrow> sec m' t = (if covers ?e t then page_sector ?e t else sec (medium c) t)"
    using write_sectors [OF I(1), of "ce_sector ?e" "ce_count ?e" "ce_cache ?e"] lp I(2)
    by (auto simp: covers_def page_sector_def)
  let ?c = "set_entry old ?e' (c\<lparr>medium := m'\<rparr>)"
  have cov: "covers ?e' t = covers ?e t" "page_sector ?e' t = page_sector ?e t" for t
    by (simp_all add: covers_def page_sector_def)
  have in_disc: "t < nsec (medium c)" if "j < length (cacheEntries c)" "covers (cacheEntries c ! j) t" for j t
    using covers_aligned(2) [OF cinv_page_ok [OF inv that(1)] that(2)] I(2) by simp
  have up: "pages_ok (unat (sectorsPerPage c)) (unat (endOfPartition c)) (sec m') ((cacheEntries c)[old := ?e'])"
  proof (rule pages_ok_update [OF I(7) old])
    show "page_ok (unat (sectorsPerPage c)) (unat (endOfPartition c)) ?e'"
      using p by (simp add: page_ok_def)
    show "clean_ok (sec m') ?e'"
      using w(4) in_disc [OF old] by (auto simp: clean_ok_def cov)
    show "ce_sector (cacheEntries c ! j) \<noteq> ce_sector ?e'"
      if "j < length (cacheEntries c)" "j \<noteq> old" for j
      using no_overlapD [OF I(7) old that nf] by simp
    show "clean_ok (sec m') (cacheEntries c ! j)"
      if j: "j < length (cacheEntries c)" "j \<noteq> old" for j
      unfolding clean_ok_def
    proof (intro impI allI)
      fix t assume "\<not> ce_dirty (cacheEntries c ! j)" and cj: "covers (cacheEntries c ! j) t"
      then have "page_sector (cacheEntries c ! j) t = sec (medium c) t"
        using cinv_clean_ok [OF inv j(1)] by (simp add: clean_ok_def)
      moreover have "\<not> covers ?e t" using covers_unique [OF I(7) j(1) old cj] j(2) by blast
      ultimately show "page_sector (cacheEntries c ! j) t = sec m' t"
        using w(4) in_disc [OF j(1) cj] by simp
    qed
  qed
  have "cinv ?c" using up w(2,3) I inv by (simp add: cache_inv_def)
  moreover have "sview c ?c"
    unfolding same_view_def cache_view_def
    using view_update [OF I(7) up old] w(4) old view_at [OF I(7) old] by (auto simp: cov)
  ultimately show ?thesis
    using True w(1,3) ff nf old I(6)
    by (intro that [of ?c])
      (auto simp: getPage_evict_def FAT_disc_writeSectors_def same_frame_def Let_def)
qed

text \<open>The page that is loaded for a sector: its base and its size.\<close>

lemma page_base:
  fixes s spp endp :: u32
  assumes "0 < unat spp" "unat s < unat endp" "unat endp + unat spp < 2 ^ 32"
  defines "base \<equiv> (s div spp) * spp"
  defines "next_page \<equiv> (if base + spp > endp then endp else base + spp)"
  shows "unat base = unat s div unat spp * unat spp" "unat base \<le> unat s"
    "unat s < unat base + unat (next_page - base)"
    "unat (next_page - base) = min (unat spp) (unat endp - unat base)"
proof -
  have le: "unat s div unat spp * unat spp \<le> unat s" by (rule div_times_less_eq_dividend)
  have "unat (s div spp) * unat spp < 2 ^ 32"
    using le_less_trans [OF le unat_lt_u32] by (simp add: unat_div_distrib)
  then show b: "unat base = unat s div unat spp * unat spp"
    unfolding base_def by (subst unat_mult_u32) (simp_all add: unat_div_distrib)
  with le show bs: "unat base \<le> unat s" by simp
  have sum: "unat (base + spp) = unat base + unat spp"
    using bs assms(2,3) by (intro unat_add_u32) linarith
  have sh: "unat s < unat base + unat spp"
    unfolding b using assms(1) by (metis add.commute dividend_less_times_div mult.commute mult_Suc)
  show "unat (next_page - base) = min (unat spp) (unat endp - unat base)"
    unfolding next_page_def using bs assms(2) sum
    by (auto simp: word_less_nat_alt unat_sub_u32 min_def)
  then show "unat s < unat base + unat (next_page - base)"
    using sh bs assms(2) by (simp add: min_def)
qed

lemma load_ok:
  assumes inv: "cinv c" and old: "old < length (cacheEntries c)"
    and clean: "\<not> ce_dirty (cacheEntries c ! old)"
    and s: "unat s < unat (endOfPartition c)"
    and miss: "\<And>i. i < length (cacheEntries c) \<Longrightarrow> \<not> covers (cacheEntries c ! i) (unat s)"
  obtains c' where "getPage_load s old c = Some (Some old, c')" "cinv c'" "sview c c'"
    "same_frame nsec c c'" "covers (cacheEntries c' ! old) (unat s)"
proof -
  note I = cinvD [OF inv]
  let ?spp = "sectorsPerPage c" and ?endp = "endOfPartition c" and ?e = "cacheEntries c ! old"
  define base where "base = (s div ?spp) * ?spp"
  define next_page where "next_page = (if base + ?spp > ?endp then ?endp else base + ?spp)"
  note B = page_base [OF I(4) s I(3), folded base_def, folded next_page_def]
  let ?n = "unat (next_page - base)"
  define buf where "buf = overwrite (ce_cache ?e) 0 (sectors (sec (medium c)) (unat base) ?n)"
  define e where "e = ?e\<lparr>ce_sector := base, ce_count := next_page - base,
    ce_last_access := accessCounter c + 1, ce_cache := buf\<rparr>"
  have "?n \<le> unat ?endp - unat base" unfolding B(4) by (rule min.cobounded2)
  then have n_end: "unat base + ?n \<le> unat ?endp" using B(2) s by linarith
  have len_e: "length (ce_cache ?e) = 512 * unat ?spp"
    using cinv_page_ok [OF inv old] by (simp add: page_ok_def)
  have sl: "length (sec (medium c) t) = 512" if "t < unat base + ?n" for t
    by (rule sec_length [OF I(1)]) (use that n_end I(2) in linarith)
  have ls: "length (sectors (sec (medium c)) (unat base) ?n) = 512 * ?n"
    by (rule length_sectors) (use sl in auto)
  have n_spp: "512 * ?n \<le> 512 * unat ?spp" using B(4) by simp
  have rd: "readSectors D base (next_page - base) (ce_cache ?e) (medium c) = Some (True, buf, medium c)"
    unfolding buf_def by (rule read_sectors [OF I(1)]) (use n_end I(2) n_spp len_e in linarith)+
  have new_sec: "page_sector e t = sec (medium c) t" if "covers e t" for t
  proof -
    have t: "unat base \<le> t" "t < unat base + ?n" using that by (auto simp: covers_def e_def)
    then have k: "512 * (t - unat base) + 512 \<le> 512 * ?n" by linarith
    have "page_sector e t = bslice (sectors (sec (medium c)) (unat base) ?n) (512 * (t - unat base)) 512"
      unfolding page_sector_def e_def buf_def
      using k ls n_spp len_e by (simp add: slice_overwrite_outer)
    also have "\<dots> = sec (medium c) t" using t sl by (subst slice_sectors) auto
    finally show ?thesis .
  qed
  have free: "base \<noteq> CACHE_FREE"
  proof
    assume "base = CACHE_FREE"
    then have "unat base = 4294967295" by (simp add: CACHE_FREE_def unsigned_minus_1_eq_mask mask_eq_exp_minus_1)
    then show False using B(2) s I(3,4) by simp
  qed
  have up: "pages_ok (unat ?spp) (unat ?endp) (sec (medium c)) ((cacheEntries c)[old := e])"
  proof (rule pages_ok_update [OF I(7) old])
    show "page_ok (unat ?spp) (unat ?endp) e"
    proof -
      have "length buf = 512 * unat ?spp"
        unfolding buf_def using ls n_spp len_e by (subst length_overwrite) linarith+
      moreover have "unat base mod unat ?spp = 0" unfolding B(1) by simp
      moreover have "unat base < unat ?endp" using B(2) s by simp
      ultimately show ?thesis using free B(4) by (simp add: page_ok_def e_def)
    qed
    show "clean_ok (sec (medium c)) e" using new_sec by (simp add: clean_ok_def)
    show "clean_ok (sec (medium c)) (cacheEntries c ! j)" if "j < length (cacheEntries c)" "j \<noteq> old" for j
      using cinv_clean_ok [OF inv that(1)] .
    show "ce_sector (cacheEntries c ! j) \<noteq> ce_sector e"
      if "ce_sector e \<noteq> CACHE_FREE" "j < length (cacheEntries c)" "j \<noteq> old" for j
    proof
      assume eq: "ce_sector (cacheEntries c ! j) = ce_sector e"
      then have "covers (cacheEntries c ! j) (unat s)"
        using cinv_page_ok [OF inv that(2)] free B s by (auto simp: page_ok_def covers_def e_def)
      then show False using miss [OF that(2)] by simp
    qed
  qed
  let ?c = "set_entry old e (snd (accessTime c))"
  have "getPage_load s old c = Some (Some old, ?c)"
    using rd old I(4) inv I(6)
    by (auto simp: getPage_load_def FAT_disc_readSectors_def accessTime_def Let_def e_def
        set_entry_def base_def [symmetric] next_page_def [symmetric])
  moreover have "cinv ?c" using up I inv by (simp add: cache_inv_def)
  moreover have "sview c ?c"
    unfolding same_view_def cache_view_def
  proof (intro allI impI)
    fix t
    have clean_page: "sec (medium c) t = page_sector ?e t" if "covers ?e t"
      using that clean cinv_clean_ok [OF inv old] by (simp add: clean_ok_def)
    have "view_of (sec (medium c)) ((cacheEntries c)[old := e]) t =
        (if covers e t then page_sector e t else view_of (sec (medium c)) (cacheEntries c) t)"
      by (rule view_update [OF I(7) up old]) (use clean_page in auto)
    moreover have "view_of (sec (medium c)) (cacheEntries c) t = sec (medium c) t" if "covers e t"
    proof (cases rule: view_of_cases [OF I(7), of t, case_names page disc])
      case (page j)
      have pe: "page_ok (unat ?spp) (unat ?endp) e"
        using up set_update_memI [OF old, of e] by (simp add: pages_ok_def)
      have "ce_sector (cacheEntries c ! j) = ce_sector e"
        using covers_aligned(1) [OF cinv_page_ok [OF inv page(1)] page(2)]
          covers_aligned(1) [OF pe that] by (simp add: word_unat_eq_iff)
      then have "covers (cacheEntries c ! j) (unat s)"
        using cinv_page_ok [OF inv page(1)] free B s by (auto simp: page_ok_def covers_def e_def)
      then show ?thesis using miss [OF page(1)] by simp
    qed
    ultimately show "view_of (sec (medium ?c)) (cacheEntries ?c) t =
        view_of (sec (medium c)) (cacheEntries c) t"
      using new_sec by simp
  qed
  moreover have "same_frame nsec c ?c" by (simp add: same_frame_def)
  moreover have "covers (cacheEntries ?c ! old) (unat s)"
    using old B by (simp add: covers_def e_def)
  ultimately show ?thesis by (rule that)
qed

text \<open>
  \<open>FAT_cache_getPage\<close> returns a page that holds the sector and shows the same disc.
\<close>

lemma getPage_ok:
  assumes inv: "cinv c" and s: "unat s < unat (endOfPartition c)"
  obtains i c' where "FAT_cache_getPage c s = Some (Some i, c')" "cinv c'" "sview c c'"
    "same_frame nsec c c'" "i < length (cacheEntries c')" "covers (cacheEntries c' ! i) (unat s)"
proof (cases "getPage_search (cacheEntries c) 0 s False 0 (-1)")
  case (Hit i)
  note I = cinvD [OF inv]
  from getPage_search_Hit [OF Hit, of "cacheEntries c"]
  have i: "i < length (cacheEntries c)" and cov: "covers (cacheEntries c ! i) (unat s)"
    using entry_hit_iff [OF cinv_page_ok [OF inv] I(3)] by auto
  let ?e = "(cacheEntries c ! i)\<lparr>ce_last_access := accessCounter c + 1\<rparr>"
  let ?a = "snd (accessTime c)"
  have a: "cinv ?a" using inv unfolding cache_inv_def accessTime_simps .
  have av: "cview ?a t = cview c t" for t unfolding cache_view_def accessTime_simps ..
  have pe: "covers ?e t = covers (cacheEntries c ! i) t"
    "page_sector ?e t = page_sector (cacheEntries c ! i) t" for t
    by (simp_all add: covers_def page_sector_def)
  have "clean_ok (sec (medium c)) ?e"
    using cinv_clean_ok [OF inv i] by (simp add: clean_ok_def pe)
  moreover have "ce_dirty ?e \<Longrightarrow> ce_sector ?e \<noteq> CACHE_FREE"
    using cinv_page_ok [OF inv i] by (auto simp: page_ok_def)
  ultimately have n: "cinv (set_entry i ?e ?a)"
    and v: "cview (set_entry i ?e ?a) t = (if covers ?e t then page_sector ?e t else cview ?a t)" for t
    using cinv_set_entry [OF a, of i ?e] i by simp_all
  have "sview c (set_entry i ?e ?a)"
    unfolding same_view_def v av pe using view_at [OF I(7) i] by (simp add: cache_view_def)
  moreover have "FAT_cache_getPage c s = Some (Some i, set_entry i ?e ?a)"
    using Hit i by (simp add: FAT_cache_getPage_def accessTime_def Let_def)
  ultimately show ?thesis
    using n i cov by (intro that [of i "set_entry i ?e ?a"]) (simp_all add: same_frame_def pe)
next
  case (Miss ff old)
  note I = cinvD [OF inv]
  have miss: "\<not> covers (cacheEntries c ! i) (unat s)" if "i < length (cacheEntries c)" for i
    using getPage_search_Miss_none [OF Miss nth_mem [OF that]]
      entry_hit_iff [OF cinv_page_ok [OF inv that] I(3)] by blast
  from getPage_search_Miss_old [OF Miss, of "cacheEntries c"] I(5)
  have old: "old < length (cacheEntries c)" and ff: "ff \<Longrightarrow> ce_sector (cacheEntries c ! old) = CACHE_FREE"
    by auto
  from evict_ok [OF inv old ff] obtain c1
    where ev: "getPage_evict ff old c = Some (True, c1)" "cinv c1" "sview c c1" "same_frame nsec c c1"
      "cacheEntries c1 = (cacheEntries c)[old := (cacheEntries c ! old)\<lparr>ce_dirty := False\<rparr>]" by blast
  have old1: "old < length (cacheEntries c1)" "\<not> ce_dirty (cacheEntries c1 ! old)"
    using ev(5) old by simp_all
  have miss1: "\<not> covers (cacheEntries c1 ! i) (unat s)" if "i < length (cacheEntries c1)" for i
    using that miss [of i] ev(5) by (cases "i = old") (auto simp: covers_def)
  have s1: "unat s < unat (endOfPartition c1)" using s ev(4) by (simp add: same_frame_def)
  from load_ok [OF ev(2) old1 s1 miss1] obtain c2
    where ld: "getPage_load s old c1 = Some (Some old, c2)" "cinv c2" "sview c1 c2"
      "same_frame nsec c1 c2" "covers (cacheEntries c2 ! old) (unat s)" by blast
  have "FAT_cache_getPage c s = Some (Some old, c2)"
    using Miss ev(1) ld(1) by (simp add: FAT_cache_getPage_def)
  moreover have "sview c c2" using same_view_trans [OF ev(3) ld(3) ev(4)] .
  moreover have "same_frame nsec c c2" using same_frame_trans [OF ev(4) ld(4)] .
  moreover have "old < length (cacheEntries c2)"
    using cinvD(9) [OF ld(2)] cinvD(9) [OF ev(2)] old1(1) ld(4) by (simp add: same_frame_def)
  ultimately show ?thesis using ld by (intro that)
qed

end

section \<open>Reading and writing inside a sector\<close>

context disc_device begin

text \<open>Where a sector lies in the page that holds it.\<close>

lemma page_position:
  assumes inv: "cinv c" and i: "i < length (cacheEntries c)" and cov: "covers (cacheEntries c ! i) (unat s)"
  defines "e \<equiv> cacheEntries c ! i" and "k \<equiv> unat s - unat (ce_sector (cacheEntries c ! i))"
  shows "unat (s - ce_sector e) = k" "k < unat (ce_count e)"
    "512 * unat (ce_count e) \<le> length (ce_cache e)" "length (ce_cache e) < 2 ^ 32"
    "unat off \<le> 512 \<Longrightarrow> unat ((s - ce_sector e) * SECTOR_BYTES + off) = 512 * k + unat off"
    "ce_sector e \<noteq> CACHE_FREE"
    "unat (ce_sector e) + unat (ce_count e) \<le> unat (endOfPartition c)"
    "unat s = unat (ce_sector e) + k"
proof -
  note I = cinvD [OF inv] and p = cinv_page_ok [OF inv i]
  have nf: "ce_sector e \<noteq> CACHE_FREE" using covers_loaded [OF p cov] by (simp add: e_def)
  note L = loaded_page [OF p] nf
  show "unat (s - ce_sector e) = k"
    unfolding k_def e_def using cov by (intro unat_sub_u32) (simp add: covers_def)
  note ks = this
  show k: "k < unat (ce_count e)" using cov by (auto simp: covers_def k_def e_def)
  show c: "512 * unat (ce_count e) \<le> length (ce_cache e)" using L by (simp add: e_def)
  show l: "length (ce_cache e) < 2 ^ 32" using L I(8) by (simp add: e_def)
  show "ce_sector e \<noteq> CACHE_FREE" by (rule nf)
  show "unat (ce_sector e) + unat (ce_count e) \<le> unat (endOfPartition c)" using L by (simp add: e_def)
  show "unat s = unat (ce_sector e) + k" using cov by (simp add: covers_def k_def e_def)
  show "unat ((s - ce_sector e) * SECTOR_BYTES + off) = 512 * k + unat off" if "unat off \<le> 512"
  proof -
    have b: "k * 512 + 512 < 2 ^ 32"
      using k c l L(2) L(3) I(3) I(8) by (simp add: e_def)
    have sb: "unat SECTOR_BYTES = 512" by (simp add: SECTOR_BYTES_def)
    have "unat ((s - ce_sector e) * SECTOR_BYTES) = k * 512"
      using b ks sb by (subst unat_mult_u32) simp_all
    then show ?thesis using b that by (subst unat_add_u32) simp_all
  qed
qed

lemma readPartialSector_ok:
  assumes inv: "cinv c" and s: "unat s < unat (endOfPartition c)" and n: "unat off + n \<le> 512"
  obtains c' where "FAT_cache_readPartialSector c s off n =
      Some (True, bslice (cview c (unat s)) (unat off) n, c')"
    "cinv c'" "sview c c'" "same_frame nsec c c'"
proof -
  from getPage_ok [OF inv s] obtain i c'
    where g: "FAT_cache_getPage c s = Some (Some i, c')" "cinv c'" "sview c c'"
      "same_frame nsec c c'" "i < length (cacheEntries c')" "covers (cacheEntries c' ! i) (unat s)" .
  let ?e = "cacheEntries c' ! i"
  let ?k = "unat s - unat (ce_sector ?e)"
  note P = page_position [OF g(2,5,6)]
  have len: "512 * ?k + unat off + n \<le> length (ce_cache ?e)" using P(2,3) n by linarith
  have "cview c (unat s) = cview c' (unat s)"
    using g(3) s cinvD(2) [OF inv] by (simp add: same_view_def)
  also have "\<dots> = page_sector ?e (unat s)"
    using view_at [OF cinvD(7) [OF g(2)] g(5,6)] by (simp add: cache_view_def)
  finally have "bslice (cview c (unat s)) (unat off) n = bslice (ce_cache ?e) (512 * ?k + unat off) n"
    using n by (simp add: page_sector_def slice_slice)
  moreover have "mem_read (ce_cache ?e) (unat ((s - ce_sector ?e) * SECTOR_BYTES + off)) n =
      Some (bslice (ce_cache ?e) (512 * ?k + unat off) n)"
    using P(5) [of off] n len by simp
  ultimately have "FAT_cache_readPartialSector c s off n =
      Some (True, bslice (cview c (unat s)) (unat off) n, c')"
    using g(1,5) n by (simp add: FAT_cache_readPartialSector_def BYTES_PER_READ_def)
  then show ?thesis using g by (intro that)
qed

text \<open>Storing bytes into a page: every sector of the page shows the new bytes.\<close>

lemma page_store:
  assumes inv: "cinv c" and i: "i < length (cacheEntries c)"
    and loaded: "ce_sector (cacheEntries c ! i) \<noteq> CACHE_FREE"
    and d: "off + length d \<le> length (ce_cache (cacheEntries c ! i))"
  defines "e \<equiv> cacheEntries c ! i"
  defines "c' \<equiv> set_entry i (e\<lparr>ce_cache := overwrite (ce_cache e) off d, ce_dirty := True\<rparr>) c"
  shows "cinv c'" "same_frame nsec c c'"
    "cview c' t = (if covers e t
      then bslice (overwrite (ce_cache e) off d) (512 * (t - unat (ce_sector e))) 512 else cview c t)"
proof -
  let ?e = "e\<lparr>ce_cache := overwrite (ce_cache e) off d, ce_dirty := True\<rparr>"
  note S = cinv_set_entry [OF inv i, of ?e]
  show "cinv c'" unfolding c'_def
    by (rule S(1)) (use loaded d in \<open>simp_all add: e_def clean_ok_def\<close>)
  have "cview c' t = (if covers ?e t then page_sector ?e t else cview c t)"
    unfolding c'_def by (rule S(2)) (use loaded d in \<open>simp_all add: e_def clean_ok_def\<close>)
  then show "cview c' t = (if covers e t
      then bslice (overwrite (ce_cache e) off d) (512 * (t - unat (ce_sector e))) 512 else cview c t)"
    by (simp add: covers_def page_sector_def)
  show "same_frame nsec c c'" by (simp add: same_frame_def c'_def)
qed

lemma cview_at:
  "cinv c \<Longrightarrow> i < length (cacheEntries c) \<Longrightarrow> covers (cacheEntries c ! i) t \<Longrightarrow>
    cview c t = page_sector (cacheEntries c ! i) t"
  unfolding cache_view_def by (rule view_at [OF cinvD(7)])

lemma length_cview:
  assumes "cinv c" "t < unat (endOfPartition c)"
  shows "length (cview c t) = 512"
proof (cases rule: view_of_cases [OF cinvD(7) [OF assms(1)], of t, case_names page disc])
  case (page i)
  then show ?thesis using length_page_sector [OF cinv_page_ok [OF assms(1) page(1)] page(2)]
    by (simp add: cache_view_def)
next
  case disc
  then show ?thesis using sec_length [OF cinvD(1) [OF assms(1)], of t] cinvD(2) [OF assms(1)] assms(2)
    by (simp add: cache_view_def)
qed

text \<open>Storing bytes into one sector of a page.\<close>

lemma sector_store:
  fixes s :: u32
  assumes inv: "cinv c" and i: "i < length (cacheEntries c)"
    and cov: "covers (cacheEntries c ! i) (unat s)" and d: "off + length d \<le> 512"
  defines "e \<equiv> cacheEntries c ! i"
  defines "k \<equiv> unat s - unat (ce_sector e)"
  defines "c' \<equiv> set_entry i (e\<lparr>ce_cache := overwrite (ce_cache e) (512 * k + off) d, ce_dirty := True\<rparr>) c"
  shows "cinv c'" "same_frame nsec c c'"
    "cview c' t = (if t = unat s then overwrite (cview c t) off d else cview c t)"
proof -
  note P = page_position [OF inv i cov, folded e_def, folded k_def]
  have len: "512 * k + off + length d \<le> length (ce_cache e)" using P(2,3) d by linarith
  note S = page_store [OF inv i, of "512 * k + off" d, folded e_def, OF P(6) len, folded c'_def]
  show "cinv c'" "same_frame nsec c c'" by (rule S(1), rule S(2))
  show "cview c' t = (if t = unat s then overwrite (cview c t) off d else cview c t)"
  proof (cases "covers e t")
    case False
    then have "t \<noteq> unat s" using cov by (auto simp: e_def)
    with False S(3) show ?thesis by simp
  next
    case True
    define j where "j = t - unat (ce_sector e)"
    have j: "j < unat (ce_count e)" "t = unat s \<longleftrightarrow> j = k"
      using True P(8) by (auto simp: covers_def j_def k_def)
    then have jl: "512 * j + 512 \<le> length (ce_cache e)" using P(3) by linarith
    have v: "cview c t = bslice (ce_cache e) (512 * j) 512"
      using cview_at [OF inv i] True by (simp add: page_sector_def j_def e_def)
    show ?thesis
    proof (cases "j = k")
      case True
      have "bslice (overwrite (ce_cache e) (512 * k + off) d) (512 * k) 512 =
          overwrite (bslice (ce_cache e) (512 * k) 512) (512 * k + off - 512 * k) d"
        by (rule slice_overwrite_inner) (use d jl True in simp_all)
      with S(3) v True \<open>covers e t\<close> j(2) show ?thesis by (simp add: j_def)
    next
      case False
      then have "j < k \<or> k < j" by auto
      then have "512 * j + 512 \<le> 512 * k \<or> 512 * (k + 1) \<le> 512 * j" by auto
      then have "bslice (overwrite (ce_cache e) (512 * k + off) d) (512 * j) 512 =
          bslice (ce_cache e) (512 * j) 512"
        by (intro slice_overwrite_disjoint) (use d len jl in auto)
      with S(3) v False \<open>covers e t\<close> j(2) show ?thesis by (simp add: j_def)
    qed
  qed
qed

lemma writePartialSector_ok:
  assumes inv: "cinv c" and s: "unat s < unat (endOfPartition c)" and n: "unat off + n \<le> 512"
    and b: "n \<le> length buf"
  obtains c' where "FAT_cache_writePartialSector c buf s off n = Some (True, c')"
    "cinv c'" "same_frame nsec c c'"
    "\<And>t. t < nsec (medium c) \<Longrightarrow>
      cview c' t = (if t = unat s then overwrite (cview c t) (unat off) (take n buf) else cview c t)"
proof -
  from getPage_ok [OF inv s] obtain i c1
    where g: "FAT_cache_getPage c s = Some (Some i, c1)" "cinv c1" "sview c c1"
      "same_frame nsec c c1" "i < length (cacheEntries c1)" "covers (cacheEntries c1 ! i) (unat s)" .
  let ?e = "cacheEntries c1 ! i"
  let ?k = "unat s - unat (ce_sector ?e)"
  let ?d = "take n buf"
  let ?c = "set_entry i (?e\<lparr>ce_cache := overwrite (ce_cache ?e) (512 * ?k + unat off) ?d, ce_dirty := True\<rparr>) c1"
  note P = page_position [OF g(2,5,6)]
  have ld: "length ?d = n" using b by simp
  have len: "512 * ?k + unat off + n \<le> length (ce_cache ?e)" using P(2,3) n by linarith
  note S = sector_store [OF g(2,5,6), of "unat off" ?d, unfolded ld, OF n]
  have "mem_write (ce_cache ?e) (unat ((s - ce_sector ?e) * SECTOR_BYTES + off)) ?d =
      Some (overwrite (ce_cache ?e) (512 * ?k + unat off) ?d)"
    using P(5) [of off] n len ld by simp
  then have "FAT_cache_writePartialSector c buf s off n = Some (True, ?c)"
    using g(1,5) n b by (simp add: FAT_cache_writePartialSector_def BYTES_PER_READ_def bslice_def)
  moreover have "cview ?c t = (if t = unat s then overwrite (cview c t) (unat off) ?d else cview c t)"
    if "t < nsec (medium c)" for t
    using S(3) [of t] g(3) that by (simp add: same_view_def)
  ultimately show ?thesis
    using S(1) same_frame_trans [OF g(4) S(2)] by (intro that)
qed

lemma eraseWritePartialSector_ok:
  assumes inv: "cinv c" and s: "unat s < unat (endOfPartition c)" and n: "unat off + n \<le> 512"
    and b: "n \<le> length buf"
  obtains c' where "FAT_cache_eraseWritePartialSector c buf s off n = Some (True, c')"
    "cinv c'" "same_frame nsec c c'"
    "\<And>t. t < nsec (medium c) \<Longrightarrow>
      cview c' t = (if t = unat s then overwrite (replicate 512 0) (unat off) (take n buf) else cview c t)"
proof -
  from getPage_ok [OF inv s] obtain i c1
    where g: "FAT_cache_getPage c s = Some (Some i, c1)" "cinv c1" "sview c c1"
      "same_frame nsec c c1" "i < length (cacheEntries c1)" "covers (cacheEntries c1 ! i) (unat s)" .
  let ?e = "cacheEntries c1 ! i"
  let ?k = "unat s - unat (ce_sector ?e)"
  let ?z = "overwrite (replicate 512 0) (unat off) (take n buf)"
  let ?c = "set_entry i (?e\<lparr>ce_cache := overwrite (ce_cache ?e) (512 * ?k + 0) ?z, ce_dirty := True\<rparr>) c1"
  note P = page_position [OF g(2,5,6)]
  have lz: "length ?z = 512" using n b by simp
  have len: "512 * ?k + 512 \<le> length (ce_cache ?e)" using P(2,3) by linarith
  note S = sector_store [OF g(2,5,6), of 0 ?z, unfolded lz]
  have ov: "overwrite (overwrite (ce_cache ?e) (512 * ?k) (replicate 512 0)) (512 * ?k + unat off) (take n buf) =
      overwrite (ce_cache ?e) (512 * ?k) ?z"
    by (rule nth_equalityI) (use len n b in \<open>auto simp: nth_overwrite\<close>)
  have "unat ((s - ce_sector ?e) * SECTOR_BYTES) = 512 * ?k" using P(5) [of 0] by simp
  then have "FAT_cache_eraseWritePartialSector c buf s off n = Some (True, ?c)"
    using g(1,5) n b len P(5) [of off] ov
    by (simp add: FAT_cache_eraseWritePartialSector_def BYTES_PER_READ_def bslice_def)
  moreover have "cview ?c t = (if t = unat s then ?z else cview c t)" if t: "t < nsec (medium c)" for t
  proof -
    have "length (cview c1 (unat s)) = 512"
      using length_cview [OF g(2)] s g(4) by (simp add: same_frame_def)
    then show ?thesis using S(3) [of t] g(3) t lz by (auto simp: same_view_def)
  qed
  ultimately show ?thesis
    using S(1,2) same_frame_trans [OF g(4)] by (intro that) auto
qed

end

section \<open>Runs of sectors\<close>

context disc_device begin

text \<open>The reading loop terminates and returns the sectors of the abstract disc, in order.\<close>

lemma readSectors_loop_ok:
  assumes "cinv c" "unat s + unat n \<le> unat (endOfPartition c)"
  shows "\<exists>c'. readSectors_loop s n acc c = Some (True, acc @ sectors (cview c) (unat s) (unat n), c') \<and>
    cinv c' \<and> sview c c' \<and> same_frame nsec c c'"
  using assms
proof (induction "unat n" arbitrary: s n acc c rule: less_induct)
  case less
  note inv = less.prems(1) and rng = less.prems(2)
  show ?case
  proof (cases "n = 0")
    case True
    then show ?thesis using inv
      by (subst readSectors_loop.simps) (simp add: same_view_def)
  next
    case False
    then have n0: "0 < unat n" by (simp add: unat_gt_0)
    then have s: "unat s < unat (endOfPartition c)" using rng by linarith
    from getPage_ok [OF inv s] obtain i c1
      where g: "FAT_cache_getPage c s = Some (Some i, c1)" "cinv c1" "sview c c1"
        "same_frame nsec c c1" "i < length (cacheEntries c1)" "covers (cacheEntries c1 ! i) (unat s)" .
    define e where "e = cacheEntries c1 ! i"
    define k where "k = unat s - unat (ce_sector e)"
    define left where "left = ce_count e - (s - ce_sector e)"
    define m where "m = (if left > n then n else left)"
    note P = page_position [OF g(2,5,6), folded e_def, folded k_def]
    have left: "unat left = unat (ce_count e) - k"
      unfolding left_def using P(1,2) by (simp add: unat_sub_u32)
    have m: "0 < unat m" "unat m \<le> unat n" "k + unat m \<le> unat (ce_count e)"
      using n0 left P(2) by (auto simp: m_def word_less_nat_alt)
    have bytes: "512 * (k + unat m) \<le> length (ce_cache e)"
      using mult_le_mono2 [OF m(3), of 512] P(3) by (rule order_trans)
    have um: "unat (m * SECTOR_BYTES) = 512 * unat m"
      using bytes P(4) by (subst unat_mult_u32) (simp_all add: SECTOR_BYTES_def)
    have view1: "cview c1 t = bslice (ce_cache e) (512 * (t - unat (ce_sector e))) 512"
      if "unat s \<le> t" "t < unat s + unat m" for t
      using cview_at [OF g(2,5), of t] that m(3) P(8)
      by (simp add: e_def [symmetric] page_sector_def covers_def)
    have "sectors (cview c) (unat s) (unat m) =
        sectors (\<lambda>t. bslice (ce_cache e) (512 * (t - unat (ce_sector e))) 512) (unat (ce_sector e) + k) (unat m)"
      unfolding P(8) using g(3) view1 rng m(2) cinvD(2) [OF inv] P(8)
      by (intro sectors_cong) (simp add: same_view_def)
    also have "\<dots> = bslice (ce_cache e) (512 * k) (512 * unat m)"
      using bytes by (rule sectors_of_slices)
    finally have d: "mem_read (ce_cache e) (unat ((s - ce_sector e) * SECTOR_BYTES)) (unat (m * SECTOR_BYTES)) =
        Some (sectors (cview c) (unat s) (unat m))"
      using P(5) [of 0] um bytes by simp
    have nm: "unat (n - m) = unat n - unat m" using m(2) by (rule unat_sub_u32)
    have sm: "unat (s + m) = unat s + unat m"
      using rng m(2) cinvD(3) [OF inv] by (intro unat_add_u32) linarith
    have "\<exists>c'. readSectors_loop (s + m) (n - m) (acc @ sectors (cview c) (unat s) (unat m)) c1 =
        Some (True, (acc @ sectors (cview c) (unat s) (unat m)) @
          sectors (cview c1) (unat (s + m)) (unat (n - m)), c') \<and>
        cinv c' \<and> sview c1 c' \<and> same_frame nsec c1 c'"
      by (rule less.hyps [OF _ g(2)]) (use nm sm m rng g(4) in \<open>simp_all add: same_frame_def\<close>)
    then obtain c' where c': "readSectors_loop (s + m) (n - m) (acc @ sectors (cview c) (unat s) (unat m)) c1 =
        Some (True, (acc @ sectors (cview c) (unat s) (unat m)) @
          sectors (cview c1) (unat (s + m)) (unat (n - m)), c')"
        "cinv c'" "sview c1 c'" "same_frame nsec c1 c'" by blast
    have "sectors (cview c1) (unat (s + m)) (unat (n - m)) = sectors (cview c) (unat s + unat m) (unat n - unat m)"
      unfolding nm sm using g(3) rng m(2) cinvD(2) [OF inv]
      by (intro sectors_cong) (simp add: same_view_def)
    moreover have "sectors (cview c) (unat s) (unat n) =
        sectors (cview c) (unat s) (unat m) @ sectors (cview c) (unat s + unat m) (unat n - unat m)"
      using m(2) by (simp add: sectors_add [symmetric])
    moreover have "readSectors_loop s n acc c =
        readSectors_loop (s + m) (n - m) (acc @ sectors (cview c) (unat s) (unat m)) c1"
      using False g(1,5) d
      by (subst readSectors_loop.simps)
        (simp add: e_def [symmetric] Let_def m_def [unfolded left_def, symmetric] split del: if_split)
    ultimately show ?thesis
      using c' same_view_trans [OF g(3) c'(3) g(4)] same_frame_trans [OF g(4) c'(4)] by auto
  qed
qed

end

text \<open>Which pages \<open>FAT_cache_findPage\<close> looks for, and that it finds the lowest one.\<close>

definition meets :: "u32 \<Rightarrow> u32 \<Rightarrow> CACHE_ENTRY \<Rightarrow> bool" where
  "meets s n e \<longleftrightarrow> ce_sector e \<noteq> CACHE_FREE \<and>
     (if s > ce_sector e then s - ce_sector e < ce_count e else ce_sector e - s < n)"

definition lowest_page :: "u32 \<Rightarrow> u32 \<Rightarrow> CACHE_ENTRY list \<Rightarrow> nat \<Rightarrow> u32 \<Rightarrow> nat option \<Rightarrow> bool" where
  "lowest_page s n full i lowest entry \<longleftrightarrow>
     (\<forall>j < i. meets s n (full ! j) \<longrightarrow> lowest \<le> ce_sector (full ! j)) \<and>
     (case entry of None \<Rightarrow> lowest = -1
      | Some k \<Rightarrow> k < i \<and> meets s n (full ! k) \<and> lowest = ce_sector (full ! k))"

lemma lowest_page_step:
  assumes "lowest_page s n full i lowest entry"
  defines "hit \<equiv> meets s n (full ! i) \<and> ce_sector (full ! i) < lowest"
  shows "lowest_page s n full (i + 1) (if hit then ce_sector (full ! i) else lowest)
    (if hit then Some i else entry)"
proof (cases hit)
  case True
  then have lt: "ce_sector (full ! i) < lowest" by (simp add: hit_def)
  have "ce_sector (full ! i) \<le> ce_sector (full ! j)" if "j < i + 1" "meets s n (full ! j)" for j
  proof (cases "j = i")
    case False
    with that assms(1) have "lowest \<le> ce_sector (full ! j)" by (auto simp: lowest_page_def)
    with lt show ?thesis by simp
  qed simp
  with True show ?thesis by (simp add: lowest_page_def hit_def)
next
  case False
  have "lowest \<le> ce_sector (full ! j)" if "j < i + 1" "meets s n (full ! j)" for j
    using that assms(1) False by (cases "j = i") (auto simp: lowest_page_def hit_def)
  with False assms(1) show ?thesis by (auto simp: lowest_page_def split: option.splits)
qed

lemma findPage_search_lowest:
  "es = drop i full \<Longrightarrow> i \<le> length full \<Longrightarrow> lowest_page s n full i lowest entry \<Longrightarrow>
   \<exists>l. lowest_page s n full (length full) l (findPage_search es i s n lowest entry)"
proof (induction es arbitrary: i lowest entry)
  case Nil
  then have "i = length full" by simp
  with Nil show ?case by auto
next
  case (Cons e es)
  note d = drop_eq_ConsD [OF Cons.prems(1) [symmetric]]
  have "findPage_search (e # es) i s n lowest entry =
      findPage_search es (i + 1) s n
        (if meets s n e \<and> ce_sector e < lowest then ce_sector e else lowest)
        (if meets s n e \<and> ce_sector e < lowest then Some i else entry)"
    by (simp add: meets_def Let_def)
  with Cons.IH [OF _ _ lowest_page_step [OF Cons.prems(3)]] d show ?case by auto
qed

lemma findPage_lowest:
  obtains l where "lowest_page s n (cacheEntries c) (length (cacheEntries c)) l (FAT_cache_findPage c s n)"
  using findPage_search_lowest [of "cacheEntries c" 0 "cacheEntries c" s n "-1" None]
  by (auto simp: FAT_cache_findPage_def lowest_page_def)

context disc_device begin

lemma covers_meets:
  assumes inv: "cinv c" and j: "j < length (cacheEntries c)"
    and cov: "covers (cacheEntries c ! j) t" and t: "unat s \<le> t" "t < unat s + unat n"
  shows "meets s n (cacheEntries c ! j)"
proof -
  let ?e = "cacheEntries c ! j"
  have nf: "ce_sector ?e \<noteq> CACHE_FREE" by (rule covers_loaded [OF cinv_page_ok [OF inv j] cov])
  show ?thesis
  proof (cases "s > ce_sector ?e")
    case True
    then have "unat (s - ce_sector ?e) = unat s - unat (ce_sector ?e)"
      by (intro unat_sub_u32) (simp add: word_less_nat_alt)
    then show ?thesis using True nf cov t by (auto simp: meets_def covers_def word_less_nat_alt)
  next
    case False
    then have "unat (ce_sector ?e - s) = unat (ce_sector ?e) - unat s"
      by (intro unat_sub_u32) (simp add: word_less_nat_alt)
    then show ?thesis using False nf cov t by (auto simp: meets_def covers_def word_less_nat_alt)
  qed
qed

lemma findPage_None:
  assumes "cinv c" "FAT_cache_findPage c s n = None" "j < length (cacheEntries c)"
    and "unat s \<le> t" "t < unat s + unat n"
  shows "\<not> covers (cacheEntries c ! j) t"
proof
  assume cov: "covers (cacheEntries c ! j) t"
  obtain l where "lowest_page s n (cacheEntries c) (length (cacheEntries c)) l None"
    using findPage_lowest [of s n c] assms(2) by auto
  then have "-1 \<le> ce_sector (cacheEntries c ! j)"
    using assms(3) covers_meets [OF assms(1,3) cov assms(4,5)] by (auto simp: lowest_page_def)
  then have "ce_sector (cacheEntries c ! j) = CACHE_FREE"
    unfolding CACHE_FREE_def by (simp add: word_order.extremum_unique)
  then show False using covers_loaded [OF cinv_page_ok [OF assms(1,3)] cov] by simp
qed

text \<open>The page found is loaded, meets the range, and no page holds a sector before it.\<close>

lemma findPage_Some:
  assumes inv: "cinv c" and f: "FAT_cache_findPage c s n = Some i"
  defines "e \<equiv> cacheEntries c ! i"
  shows "i < length (cacheEntries c)" "ce_sector e \<noteq> CACHE_FREE"
    "unat s < unat (ce_sector e) + unat (ce_count e)" "unat (ce_sector e) < unat s + unat n \<or> ce_sector e < s"
    "j < length (cacheEntries c) \<Longrightarrow> unat s \<le> t \<Longrightarrow> t < unat (ce_sector e) \<Longrightarrow> \<not> covers (cacheEntries c ! j) t"
proof -
  obtain l where L: "lowest_page s n (cacheEntries c) (length (cacheEntries c)) l (Some i)"
    using findPage_lowest [of s n c] f by auto
  then show i: "i < length (cacheEntries c)" by (simp add: lowest_page_def)
  have m: "meets s n e" using L by (simp add: lowest_page_def e_def)
  then show nf: "ce_sector e \<noteq> CACHE_FREE" by (simp add: meets_def)
  have cnt: "0 < unat (ce_count e)"
    using cinv_page_ok [OF inv i] nf cinvD(4) [OF inv] by (simp add: page_ok_def e_def)
  have 1: "unat s < unat (ce_sector e) + unat (ce_count e) \<and>
    (unat (ce_sector e) < unat s + unat n \<or> ce_sector e < s)"
  proof (cases "s > ce_sector e")
    case True
    then have "unat (s - ce_sector e) = unat s - unat (ce_sector e)"
      by (intro unat_sub_u32) (simp add: word_less_nat_alt)
    then show ?thesis using True m by (auto simp: meets_def word_less_nat_alt)
  next
    case False
    then have "unat (ce_sector e - s) = unat (ce_sector e) - unat s"
      by (intro unat_sub_u32) (simp add: word_less_nat_alt)
    then show ?thesis using False m cnt by (auto simp: meets_def word_less_nat_alt)
  qed
  then show "unat s < unat (ce_sector e) + unat (ce_count e)"
    "unat (ce_sector e) < unat s + unat n \<or> ce_sector e < s" by simp_all
  show "\<not> covers (cacheEntries c ! j) t"
    if j: "j < length (cacheEntries c)" and t: "unat s \<le> t" "t < unat (ce_sector e)"
  proof
    assume cov: "covers (cacheEntries c ! j) t"
    have "\<not> ce_sector e < s" using t by (simp add: word_less_nat_alt)
    with 1 have "t < unat s + unat n" using t(2) by auto
    then have "meets s n (cacheEntries c ! j)" by (rule covers_meets [OF inv j cov t(1)])
    then have "ce_sector e \<le> ce_sector (cacheEntries c ! j)"
      using L j by (auto simp: lowest_page_def e_def)
    then show False using cov t(2) by (simp add: covers_def word_le_nat_alt)
  qed
qed

lemma writeSectors_direct_ok:
  assumes inv: "cinv c" and rng: "unat s + unat n \<le> unat (endOfPartition c)" and src: "512 * unat n \<le> length src"
    and un: "\<And>j t. j < length (cacheEntries c) \<Longrightarrow> unat s \<le> t \<Longrightarrow> t < unat s + unat n \<Longrightarrow>
      \<not> covers (cacheEntries c ! j) t"
  obtains c' where "writeSectors_direct c s n src = Some c'" "cinv c'" "same_frame nsec c c'"
    "cacheEntries c' = cacheEntries c"
    "\<And>t. t < nsec (medium c) \<Longrightarrow> cview c' t =
      (if unat s \<le> t \<and> t < unat s + unat n then bslice src (512 * (t - unat s)) 512 else cview c t)"
proof -
  note I = cinvD [OF inv]
  obtain m' where w: "writeSectors D s n src (medium c) = Some (True, m')" "ok m'" "nsec m' = nsec (medium c)"
    "\<And>t. t < nsec (medium c) \<Longrightarrow> sec m' t =
      (if unat s \<le> t \<and> t < unat s + unat n then bslice src (512 * (t - unat s)) 512 else sec (medium c) t)"
    using write_sectors [OF I(1) _ src, of s] rng I(2) by auto
  let ?c = "c\<lparr>medium := m'\<rparr>"
  have keep: "sec m' t = sec (medium c) t" if "j < length (cacheEntries c)" "covers (cacheEntries c ! j) t" for j t
    using w(4) [of t] un [OF that(1), of t] that(2)
      covers_aligned(2) [OF cinv_page_ok [OF inv that(1)] that(2)] I(2) by auto
  have up: "pages_ok (unat (sectorsPerPage c)) (unat (endOfPartition c)) (sec m') (cacheEntries c)"
    using I(7) keep unfolding pages_ok_def clean_ok_def by (auto simp: in_set_conv_nth)
  have "cinv ?c" using up w(2,3) I by (auto simp: cache_inv_def)
  moreover have "cview ?c t =
      (if unat s \<le> t \<and> t < unat s + unat n then bslice src (512 * (t - unat s)) 512 else cview c t)"
    if t: "t < nsec (medium c)" for t
  proof (cases rule: view_of_cases [OF I(7), of t, case_names page disc])
    case (page j)
    then have "\<not> (unat s \<le> t \<and> t < unat s + unat n)" using un by blast
    moreover have "cview ?c t = page_sector (cacheEntries c ! j) t"
      using view_at [OF up page(1,2)] by (simp add: cache_view_def)
    ultimately show ?thesis using page(3) by (auto simp: cache_view_def)
  next
    case disc
    have "cview ?c t = sec m' t"
      unfolding cache_view_def using view_none disc(1) by simp
    then show ?thesis using w(4) [OF t] disc(2) by (simp add: cache_view_def)
  qed
  moreover have "writeSectors_direct c s n src = Some ?c"
    using w(1) I(6) by (simp add: writeSectors_direct_def FAT_disc_writeSectors_def)
  ultimately show ?thesis using w(3) by (intro that [of ?c]) (simp_all add: same_frame_def)
qed

text \<open>The sectors before the first page that meets the range go to the disc.\<close>

lemma write_gap:
  assumes inv: "cinv c" and f: "FAT_cache_findPage c s n = Some i" and n0: "n \<noteq> 0"
    and rng: "unat s + unat n \<le> unat (endOfPartition c)" and src: "512 * unat n \<le> length src"
  defines "e \<equiv> cacheEntries c ! i"
  defines "gap \<equiv> (if ce_sector e > s then ce_sector e - s else 0)"
  obtains c1 where "unat gap = unat (ce_sector e) - unat s" "unat gap < unat n"
    "(if ce_sector e > s then writeSectors_direct c s gap src else Some c) = Some c1"
    "cinv c1" "same_frame nsec c c1" "cacheEntries c1 = cacheEntries c"
    "\<And>t. t < nsec (medium c) \<Longrightarrow> cview c1 t =
      (if unat s \<le> t \<and> t < unat s + unat gap then bslice src (512 * (t - unat s)) 512 else cview c t)"
proof -
  note F = findPage_Some [OF inv f, folded e_def]
  have gap: "unat gap = unat (ce_sector e) - unat s"
    by (auto simp: gap_def word_less_nat_alt unat_sub_u32)
  have "0 < unat n" using n0 by (simp add: unat_gt_0)
  then have gap_n: "unat gap < unat n" using F(4) gap by (auto simp: word_less_nat_alt)
  show ?thesis
  proof (cases "ce_sector e > s")
    case True
    have "unat s + unat gap \<le> unat (endOfPartition c)" using gap_n rng by simp
    moreover have "512 * unat gap \<le> length src" using gap_n src by simp
    moreover have "\<not> covers (cacheEntries c ! j) t"
      if "j < length (cacheEntries c)" "unat s \<le> t" "t < unat s + unat gap" for j t
      using F(5) [OF that(1,2)] that(2,3) gap by simp
    ultimately show ?thesis
      by (rule writeSectors_direct_ok [OF inv]) (use True that gap gap_n in simp_all)
  next
    case False
    then have "gap = 0" by (simp add: gap_def)
    with False inv gap gap_n show ?thesis by (intro that [of c]) auto
  qed
qed

text \<open>Storing whole sectors into a page changes those sectors only.\<close>

lemma range_store:
  fixes s :: u32
  assumes inv: "cinv c" and i: "i < length (cacheEntries c)" and cov: "covers (cacheEntries c ! i) (unat s)"
  defines "e \<equiv> cacheEntries c ! i"
  defines "k \<equiv> unat s - unat (ce_sector e)"
  assumes m: "k + m \<le> unat (ce_count e)" and ld: "length d = 512 * m"
  defines "c' \<equiv> set_entry i (e\<lparr>ce_cache := overwrite (ce_cache e) (512 * k) d, ce_dirty := True\<rparr>) c"
  shows "cinv c'" "same_frame nsec c c'"
    "cview c' t = (if unat s \<le> t \<and> t < unat s + m then bslice d (512 * (t - unat s)) 512 else cview c t)"
proof -
  note P = page_position [OF inv i cov, folded e_def, folded k_def]
  have bytes: "512 * (k + m) \<le> length (ce_cache e)"
    using mult_le_mono2 [OF m, of 512] P(3) by (rule order_trans)
  then have len: "512 * k + length d \<le> length (ce_cache e)" using ld by simp
  note S = page_store [OF inv i, of "512 * k" d, folded e_def, OF P(6) len, folded c'_def]
  show "cinv c'" "same_frame nsec c c'" by (rule S(1), rule S(2))
  show "cview c' t = (if unat s \<le> t \<and> t < unat s + m then bslice d (512 * (t - unat s)) 512 else cview c t)"
  proof (cases "covers e t")
    case True
    define j where "j = t - unat (ce_sector e)"
    have j: "t = unat (ce_sector e) + j" "j < unat (ce_count e)" using True by (auto simp: covers_def j_def)
    have "j + 1 \<le> unat (ce_count e)" using j(2) by simp
    then have jl: "512 * (j + 1) \<le> length (ce_cache e)"
      using P(3) by (rule order_trans [OF mult_le_mono2])
    have "cview c t = bslice (ce_cache e) (512 * j) 512"
      using cview_at [OF inv i, folded e_def, OF True] by (simp add: page_sector_def j_def)
    moreover have "(k \<le> j \<and> j < k + m) = (unat s \<le> t \<and> t < unat s + m)" "j - k = t - unat s"
      using j(1) P(8) by auto
    ultimately show ?thesis
      using S(3) [of t] True slice_overwrite_sectors [OF bytes ld jl]
      by (simp add: j_def [symmetric])
  next
    case False
    then have "\<not> (unat s \<le> t \<and> t < unat s + m)" using m P(8) by (auto simp: covers_def)
    then show ?thesis using S(3) [of t] False by (simp only: if_False)
  qed
qed

text \<open>The writing loop terminates and stores its data sector by sector.\<close>

lemma writeSectors_loop_ok:
  assumes "cinv c" "unat s + unat n \<le> unat (endOfPartition c)" "512 * unat n \<le> length src"
    and "512 * unat n < 2 ^ 32"
  shows "\<exists>c'. writeSectors_loop s n src c = Some (True, c') \<and> cinv c' \<and> same_frame nsec c c' \<and>
    (\<forall>t < nsec (medium c). cview c' t =
      (if unat s \<le> t \<and> t < unat s + unat n then bslice src (512 * (t - unat s)) 512 else cview c t))"
  using assms
proof (induction "unat n" arbitrary: s n src c rule: less_induct)
  case less
  note inv = less.prems(1) and rng = less.prems(2) and src = less.prems(3) and small = less.prems(4)
  show ?case
  proof (cases "n = 0")
    case True
    then show ?thesis using inv by (subst writeSectors_loop.simps) auto
  next
    case n0: False
    show ?thesis
    proof (cases "FAT_cache_findPage c s n")
      case None
      have un: "\<not> covers (cacheEntries c ! j) t"
        if "j < length (cacheEntries c)" "unat s \<le> t" "t < unat s + unat n" for j t
        using findPage_None [OF inv None that] .
      show ?thesis
      proof (rule writeSectors_direct_ok [OF inv rng src])
        fix c'
        assume "writeSectors_direct c s n src = Some c'" "cinv c'" "same_frame nsec c c'"
          "\<And>t. t < nsec (medium c) \<Longrightarrow> cview c' t =
            (if unat s \<le> t \<and> t < unat s + unat n then bslice src (512 * (t - unat s)) 512 else cview c t)"
        with None n0 show ?thesis by (subst writeSectors_loop.simps) simp
      qed (use un in blast)
    next
      case (Some i)
      define e where "e = cacheEntries c ! i"
      note F = findPage_Some [OF inv Some, folded e_def]
      define gap where "gap = (if ce_sector e > s then ce_sector e - s else 0)"
      obtain c1 where gap: "unat gap = unat (ce_sector e) - unat s" and gap_n: "unat gap < unat n"
        and c1: "(if ce_sector e > s then writeSectors_direct c s gap src else Some c) = Some c1"
        "cinv c1" "same_frame nsec c c1" "cacheEntries c1 = cacheEntries c"
        "\<And>t. t < nsec (medium c) \<Longrightarrow> cview c1 t =
          (if unat s \<le> t \<and> t < unat s + unat gap then bslice src (512 * (t - unat s)) 512 else cview c t)"
        using write_gap [OF inv Some n0 rng src, folded e_def, folded gap_def] by blast
      define s1 where "s1 = s + gap"
      define n1 where "n1 = n - gap"
      define src1 where "src1 = drop (unat (gap * SECTOR_BYTES)) src"
      define left where "left = ce_count e - (s1 - ce_sector e)"
      define m where "m = (if left > n1 then n1 else left)"
      have i: "i < length (cacheEntries c1)" and e1: "cacheEntries c1 ! i = e"
        using F(1) c1(4) by (simp_all add: e_def)
      have s1: "unat s1 = unat s + unat gap"
        unfolding s1_def using gap_n rng cinvD(3) [OF inv] by (intro unat_add_u32) linarith
      have n1: "unat n1 = unat n - unat gap"
        unfolding n1_def using gap_n by (intro unat_sub_u32) simp
      have "0 < unat (ce_count e)"
        using cinv_page_ok [OF inv F(1)] F(2) cinvD(4) [OF inv] by (simp add: page_ok_def e_def)
      then have cov: "covers (cacheEntries c1 ! i) (unat s1)"
        unfolding e1 covers_def s1 gap using F(3) by auto
      define k where "k = unat s1 - unat (ce_sector e)"
      note P = page_position [OF c1(2) i cov, unfolded e1, folded k_def]
      have left: "unat left = unat (ce_count e) - k"
        unfolding left_def using P(1,2) by (simp add: unat_sub_u32)
      have m: "0 < unat m" "unat m \<le> unat n1" "k + unat m \<le> unat (ce_count e)"
        using n1 gap_n left P(2) by (auto simp: m_def word_less_nat_alt)
      have bytes: "512 * (k + unat m) \<le> length (ce_cache e)"
        using mult_le_mono2 [OF m(3), of 512] P(3) by (rule order_trans)
      have ub: "unat (m * SECTOR_BYTES) = 512 * unat m"
        using bytes P(4) by (subst unat_mult_u32) (simp_all add: SECTOR_BYTES_def)
      have "512 * unat gap < 2 ^ 32" using gap_n small by simp
      then have gb: "unat (gap * SECTOR_BYTES) = 512 * unat gap"
        by (subst unat_mult_u32) (simp_all add: SECTOR_BYTES_def)
      have src1: "bslice src1 o1 l = bslice src (512 * unat gap + o1) l" for o1 l
        by (simp add: src1_def gb bslice_drop)
      have ls1: "512 * unat n1 \<le> length src1" using src n1 by (simp add: src1_def gb)
      define d where "d = bslice src1 0 (512 * unat m)"
      have lm: "512 * unat m \<le> length src1" using m(2) ls1 by linarith
      then have ld: "length d = 512 * unat m" by (simp add: d_def)
      define c2 where "c2 = set_entry i (e\<lparr>ce_cache := overwrite (ce_cache e) (512 * k) d, ce_dirty := True\<rparr>) c1"
      have len: "512 * k + length d \<le> length (ce_cache e)" using bytes ld by simp
      note S = range_store [OF c1(2) i cov, unfolded e1, folded k_def, OF m(3) ld, folded c2_def]
      have step: "writeSectors_loop s n src c =
          writeSectors_loop (s1 + m) (n1 - m) (drop (unat (m * SECTOR_BYTES)) src1) c2"
        using n0 Some F(1) c1(1) lm len P(5) [of 0] ub
        unfolding c2_def d_def m_def left_def n1_def src1_def s1_def gap_def
        by (subst writeSectors_loop.simps) (simp add: e_def [symmetric] Let_def split del: if_split)
      note v2 = S(3)
      have nm: "unat (n1 - m) = unat n1 - unat m" using m(2) by (rule unat_sub_u32)
      have sm: "unat (s1 + m) = unat s + unat gap + unat m"
        using rng m(2) n1 gap_n cinvD(3) [OF inv] s1 by (subst unat_add_u32) linarith+
      have fr: "same_frame nsec c c2" by (rule same_frame_trans [OF c1(3) S(2)])
      have "\<exists>c'. writeSectors_loop (s1 + m) (n1 - m) (drop (unat (m * SECTOR_BYTES)) src1) c2 = Some (True, c') \<and>
          cinv c' \<and> same_frame nsec c2 c' \<and> (\<forall>t < nsec (medium c2). cview c' t =
            (if unat (s1 + m) \<le> t \<and> t < unat (s1 + m) + unat (n1 - m)
             then bslice (drop (unat (m * SECTOR_BYTES)) src1) (512 * (t - unat (s1 + m))) 512 else cview c2 t))"
      proof (rule less.hyps [OF _ S(1)])
        show "unat (n1 - m) < unat n" using nm m n1 by simp
        show "unat (s1 + m) + unat (n1 - m) \<le> unat (endOfPartition c2)"
          using sm nm m n1 gap_n rng fr by (simp add: same_frame_def)
        show "512 * unat (n1 - m) \<le> length (drop (unat (m * SECTOR_BYTES)) src1)"
          using nm ub ls1 m(2) by simp
        show "512 * unat (n1 - m) < 2 ^ 32" using nm n1 small by simp
      qed
      then obtain c' where c': "writeSectors_loop s n src c = Some (True, c')" "cinv c'" "same_frame nsec c2 c'"
        "\<And>t. t < nsec (medium c2) \<Longrightarrow> cview c' t =
            (if unat s + unat gap + unat m \<le> t \<and> t < unat s + unat n
             then bslice src (512 * (unat gap + unat m) + 512 * (t - (unat s + unat gap + unat m))) 512
             else cview c2 t)"
        unfolding step sm nm ub using m(2) n1 gap_n by (auto simp: bslice_drop src1 algebra_simps)
      have "cview c' t = (if unat s \<le> t \<and> t < unat s + unat n then bslice src (512 * (t - unat s)) 512 else cview c t)"
        if t: "t < nsec (medium c)" for t
      proof -
        have t2: "t < nsec (medium c2)" using t fr by (simp add: same_frame_def)
        consider "t < unat s \<or> unat s + unat n \<le> t" | "unat s \<le> t" "t < unat s + unat gap"
          | "unat s + unat gap \<le> t" "t < unat s + unat gap + unat m"
          | "unat s + unat gap + unat m \<le> t" "t < unat s + unat n" by linarith
        then show ?thesis
        proof cases
          case 3
          then have "bslice d (512 * (t - unat s1)) 512 = bslice src (512 * (t - unat s)) 512"
            unfolding d_def s1
            by (subst slice_slice) (auto simp: src1 algebra_simps diff_mult_distrib2)
          moreover have "t < unat s + unat n" "unat s \<le> t" using 3 m(2) n1 gap_n by linarith+
          ultimately show ?thesis using 3 c'(4) [OF t2] v2 [of t] s1 by simp
        next
          case 4
          then have "512 * (unat gap + unat m) + 512 * (t - (unat s + unat gap + unat m)) = 512 * (t - unat s)"
            by simp
          then show ?thesis using 4 c'(4) [OF t2] by simp
        qed (use c'(4) [OF t2] v2 [of t] c1(5) [OF t] s1 m(2) n1 gap_n in auto)
      qed
      then show ?thesis using c'(1,2) same_frame_trans [OF fr c'(3)] by blast
    qed
  qed
qed

text \<open>
  A step of the flush is an eviction that keeps the page loaded, so after the whole flush
  every page is clean and the disc itself shows what the cache shows.
\<close>

lemma flush_step:
  "flush_loop (Suc n) i c = do {
     (b, c') \<leftarrow> getPage_evict False i c;
     if b then flush_loop n (i + 1) c' else Some (False, c') }"
proof (cases "i < length (cacheEntries c) \<and> \<not> ce_dirty (cacheEntries c ! i)")
  case True
  then have "(cacheEntries c ! i)\<lparr>ce_dirty := False\<rparr> = cacheEntries c ! i" by simp
  then have "set_entry i ((cacheEntries c ! i)\<lparr>ce_dirty := False\<rparr>) c = c"
    by (simp add: set_entry_def)
  with True show ?thesis by (simp add: getPage_evict_def)
next
  case False
  then show ?thesis
    by (cases "i < length (cacheEntries c)")
      (auto simp: getPage_evict_def mem_get_def Let_def set_entry_def split: bind_splits option.splits)
qed

lemma flush_loop_ok:
  assumes "cinv c" "i + n = length (cacheEntries c)"
    and "\<And>j. j < i \<Longrightarrow> \<not> ce_dirty (cacheEntries c ! j)"
  shows "\<exists>c'. flush_loop n i c = Some (True, c') \<and> cinv c' \<and> sview c c' \<and> same_frame nsec c c' \<and>
    length (cacheEntries c') = length (cacheEntries c) \<and> (\<forall>e \<in> set (cacheEntries c'). \<not> ce_dirty e)"
  using assms
proof (induction n arbitrary: i c)
  case 0
  then show ?case by (auto simp: same_view_def in_set_conv_nth)
next
  case (Suc n)
  have i: "i < length (cacheEntries c)" using Suc.prems(2) by simp
  obtain c1 where c1: "getPage_evict False i c = Some (True, c1)" "cinv c1" "sview c c1" "same_frame nsec c c1"
    "cacheEntries c1 = (cacheEntries c)[i := (cacheEntries c ! i)\<lparr>ce_dirty := False\<rparr>]"
    using evict_ok [OF Suc.prems(1) i, of False] by blast
  have clean: "\<not> ce_dirty (cacheEntries c1 ! j)" if "j < i + 1" for j
    using that Suc.prems(3) [of j] i c1(5) by (cases "j = i") auto
  have len: "i + 1 + n = length (cacheEntries c1)" using Suc.prems(2) c1(5) by simp
  from Suc.IH [OF c1(2) len clean] obtain c' where c': "flush_loop n (i + 1) c1 = Some (True, c')" "cinv c'"
    "sview c1 c'" "same_frame nsec c1 c'" "length (cacheEntries c') = length (cacheEntries c1)"
    "\<forall>e \<in> set (cacheEntries c'). \<not> ce_dirty e" by blast
  have "flush_loop (Suc n) i c = Some (True, c')"
    unfolding flush_step using c1(1) c'(1) by simp
  then show ?case
    using c'(2,5,6) c1(5) same_view_trans [OF c1(3) c'(3) c1(4)] same_frame_trans [OF c1(4) c'(4)]
    by auto
qed

lemma flush_ok:
  assumes inv: "cinv c"
  obtains c' where "FAT_cache_flush c = Some (True, c')" "cinv c'" "sview c c'" "same_frame nsec c c'"
    "\<And>e. e \<in> set (cacheEntries c') \<Longrightarrow> \<not> ce_dirty e"
    "\<And>t. t < nsec (medium c) \<Longrightarrow> sec (medium c') t = cview c t"
proof -
  obtain c' where c': "FAT_cache_flush c = Some (True, c')" "cinv c'" "sview c c'" "same_frame nsec c c'"
    "\<forall>e \<in> set (cacheEntries c'). \<not> ce_dirty e"
    using flush_loop_ok [OF inv, of 0 "length (cacheEntries c)"] cinvD(9) [OF inv]
    by (auto simp: FAT_cache_flush_def)
  have "sec (medium c') t = cview c t" if t: "t < nsec (medium c)" for t
  proof -
    have "cview c' t = sec (medium c') t"
    proof (cases rule: view_of_cases [OF cinvD(7) [OF c'(2)], of t, case_names page disc])
      case (page i)
      then show ?thesis using cinv_clean_ok [OF c'(2) page(1)] c'(5)
        by (simp add: clean_ok_def cache_view_def)
    qed (simp add: cache_view_def)
    then show ?thesis using c'(3) t by (simp add: same_view_def)
  qed
  with c' show ?thesis by (intro that) auto
qed

text \<open>Little-endian values of one, two or four bytes.\<close>

lemma readLittleEndianValue_ok:
  assumes inv: "cinv c" and s: "unat s < unat (endOfPartition c)" and n: "unat off + n \<le> 512"
    and w: "n = 1 \<or> n = 2 \<or> n = 4"
  obtains c' where "FAT_cache_readLittleEndianValue c val s off n = Some (True,
      (if n = 1 then ucast (cview c (unat s) ! unat off)
       else if n = 2 then ucast (le16 (bslice (cview c (unat s)) (unat off) 2))
       else le32 (bslice (cview c (unat s)) (unat off) 4)), c')"
    "cinv c'" "sview c c'" "same_frame nsec c c'"
proof -
  from readPartialSector_ok [OF inv s n] obtain c' where c': "FAT_cache_readPartialSector c s off n =
      Some (True, bslice (cview c (unat s)) (unat off) n, c')" "cinv c'" "sview c c'" "same_frame nsec c c'" .
  have len: "length (cview c (unat s)) = 512" by (rule length_cview [OF inv s])
  have f: "bslice (bslice b off' n) 0 n = bslice b off' n" for b :: "byte list" and off'
    by (simp add: slice_slice)
  have "FAT_cache_readLittleEndianValue c val s off n = Some (True,
      (if n = 1 then ucast (cview c (unat s) ! unat off)
       else if n = 2 then ucast (le16 (bslice (cview c (unat s)) (unat off) 2))
       else le32 (bslice (cview c (unat s)) (unat off) 4)), c')"
    using w
  proof (elim disjE)
    assume "n = 1"
    then show ?thesis using c'(1) len n
      by (simp add: FAT_cache_readLittleEndianValue_def nth_slice)
  next
    assume n2: "n = 2"
    then have "u8array_to_u16 (bslice (cview c (unat s)) (unat off) 2) 0 =
        Some (le16 (bslice (cview c (unat s)) (unat off) 2))"
      using f len n by (subst u8array_to_u16_eq) simp_all
    with n2 c'(1) show ?thesis by (simp add: FAT_cache_readLittleEndianValue_def)
  next
    assume n4: "n = 4"
    then have "u8array_to_u32 (bslice (cview c (unat s)) (unat off) 4) 0 =
        Some (le32 (bslice (cview c (unat s)) (unat off) 4))"
      using f len n by (subst u8array_to_u32_eq) simp_all
    with n4 c'(1) show ?thesis by (simp add: FAT_cache_readLittleEndianValue_def)
  qed
  with c' show ?thesis by (intro that)
qed

lemma writeLittleEndianValue_ok:
  assumes inv: "cinv c" and s: "unat s < unat (endOfPartition c)" and n: "unat off + n \<le> 512"
    and w: "n = 1 \<or> n = 2 \<or> n = 4"
  obtains c' where "FAT_cache_writeLittleEndianValue c val s off n = Some (True, c')"
    "cinv c'" "same_frame nsec c c'"
    "\<And>t. t < nsec (medium c) \<Longrightarrow> cview c' t = (if t = unat s
      then overwrite (cview c t) (unat off)
        (if n = 1 then [ucast val] else if n = 2 then bytes16 (ucast val) else bytes32 val)
      else cview c t)"
proof -
  define b :: "byte list" where "b = (if n = 1 then [ucast val, 0, 0, 0] else
    if n = 2 then overwrite [0, 0, 0, 0] 0 (bytes16 (ucast val)) else overwrite [0, 0, 0, 0] 0 (bytes32 val))"
  have lb: "length b = 4" using w by (auto simp: b_def)
  have tk: "take n b = (if n = 1 then [ucast val] else if n = 2 then bytes16 (ucast val) else bytes32 val)"
    using w by (auto simp: b_def overwrite_def)
  have "FAT_cache_writeLittleEndianValue c val s off n = FAT_cache_writePartialSector c b s off n"
    using w by (auto simp: FAT_cache_writeLittleEndianValue_def b_def u16_to_u8array_eq u32_to_u8array_eq)
  moreover have "n \<le> length b" using w lb by auto
  ultimately show ?thesis
    using writePartialSector_ok [OF inv s n, of b] that unfolding tk by metis
qed

end

end
