(* ===== verification/Volume.thy ===== *)
theory Volume
  imports CacheCorrect
begin

text \<open>
  The state of a mounted volume: \<open>FAT\<close>, \<open>FS_TYPE\<close> and \<open>PARTITION\<close> of
  \<^verbatim>\<open>utils/libfat/partition.h\<close> and the cluster constants and inline functions of
  \<^verbatim>\<open>file_allocation_table.h\<close>. The cache a partition points to is part of its state. The lock
  is not modelled: on the PC build its operations are empty.
\<close>

datatype FS_TYPE = FS_UNKNOWN | FS_FAT12 | FS_FAT16 | FS_FAT32

record FAT =
  fatStart :: u32
  sectorsPerFat :: u32
  lastCluster :: u32
  firstFree :: u32

text \<open>\<open>firstOpenFile\<close> is the address of a file structure; \<open>None\<close> is the null pointer.\<close>

record 'd PARTITION =
  cache :: "'d CACHE"
  filesysType :: FS_TYPE
  totalSize :: u64
  rootDirStart :: u32
  rootDirCluster :: u32
  numberOfSectors :: u32
  dataStart :: u32
  bytesPerSector :: u32
  sectorsPerCluster :: u32
  bytesPerCluster :: u32
  fat :: FAT
  cwdCluster :: u32
  openFileCount :: int
  firstOpenFile :: "nat option"
  readOnly :: bool
  label :: "byte list"

definition CLUSTER_EOF :: u32 where "CLUSTER_EOF = 0x0FFFFFFF"
definition CLUSTER_FREE :: u32 where "CLUSTER_FREE = 0"
definition CLUSTER_ROOT :: u32 where "CLUSTER_ROOT = 0"
definition CLUSTER_FIRST :: u32 where "CLUSTER_FIRST = 2"
definition CLUSTER_ERROR :: u32 where "CLUSTER_ERROR = 0xFFFFFFFF"

definition CLUSTERS_PER_FAT12 :: u32 where "CLUSTERS_PER_FAT12 = 4085"
definition CLUSTERS_PER_FAT16 :: u32 where "CLUSTERS_PER_FAT16 = 65525"

definition FAT_fat_clusterToSector :: "'d PARTITION \<Rightarrow> u32 \<Rightarrow> u32" where
  "FAT_fat_clusterToSector p cluster =
     (if cluster \<ge> CLUSTER_FIRST
      then (cluster - CLUSTER_FIRST) * sectorsPerCluster p + dataStart p
      else rootDirStart p)"

definition FAT_fat_isValidCluster :: "'d PARTITION \<Rightarrow> u32 \<Rightarrow> bool" where
  "FAT_fat_isValidCluster p cluster \<longleftrightarrow>
     cluster \<ge> CLUSTER_FIRST \<and> cluster \<le> lastCluster (fat p)"

lemmas cluster_consts = CLUSTER_EOF_def CLUSTER_FREE_def CLUSTER_ROOT_def CLUSTER_FIRST_def
  CLUSTER_ERROR_def

definition set_cache :: "'d CACHE \<Rightarrow> 'd PARTITION \<Rightarrow> 'd PARTITION" where
  "set_cache c p = p\<lparr>cache := c\<rparr>"

definition set_firstFree :: "u32 \<Rightarrow> 'd PARTITION \<Rightarrow> 'd PARTITION" where
  "set_firstFree x p = p\<lparr>fat := (fat p)\<lparr>firstFree := x\<rparr>\<rparr>"

lemma set_cache_simps [simp]:
  "cache (set_cache c p) = c" "fat (set_cache c p) = fat p"
  "filesysType (set_cache c p) = filesysType p" "dataStart (set_cache c p) = dataStart p"
  "rootDirStart (set_cache c p) = rootDirStart p"
  "sectorsPerCluster (set_cache c p) = sectorsPerCluster p"
  "bytesPerCluster (set_cache c p) = bytesPerCluster p"
  "rootDirCluster (set_cache c p) = rootDirCluster p"
  by (simp_all add: set_cache_def)

lemma set_firstFree_simps [simp]:
  "cache (set_firstFree x p) = cache p"
  "fatStart (fat (set_firstFree x p)) = fatStart (fat p)"
  "lastCluster (fat (set_firstFree x p)) = lastCluster (fat p)"
  "firstFree (fat (set_firstFree x p)) = x"
  "filesysType (set_firstFree x p) = filesysType p" "dataStart (set_firstFree x p) = dataStart p"
  "rootDirStart (set_firstFree x p) = rootDirStart p"
  "sectorsPerCluster (set_firstFree x p) = sectorsPerCluster p"
  "bytesPerCluster (set_firstFree x p) = bytesPerCluster p"
  by (simp_all add: set_firstFree_def)

end
