(* ===== verification/FatTable.thy ===== *)
theory FatTable
  imports Volume
begin

text \<open>
  The file allocation table of \<^verbatim>\<open>utils/libfat/file_allocation_table.c\<close>: reading and writing an
  entry in the three formats, and the operations on chains of clusters built on them.
\<close>

section \<open>Entries\<close>

definition readFatByte :: "'d PARTITION \<Rightarrow> u32 \<Rightarrow> u32 \<Rightarrow> u32 \<Rightarrow> (bool \<times> u32 \<times> 'd PARTITION) option" where
  "readFatByte p val sector off = do {
     (b, v, c) \<leftarrow> FAT_cache_readLittleEndianValue (cache p) val sector off 1;
     Some (b, v, set_cache c p) }"

text \<open>The sector and offset of the byte after \<open>(sector, off)\<close>.\<close>

definition next_byte :: "u32 \<Rightarrow> u32 \<Rightarrow> u32 \<times> u32" where
  "next_byte sector off = (if off + 1 \<ge> 512 then (sector + 1, 0) else (sector, off + 1))"

definition FAT_fat_nextCluster :: "'d PARTITION \<Rightarrow> u32 \<Rightarrow> (u32 \<times> 'd PARTITION) option" where
  "FAT_fat_nextCluster p cluster =
     (if cluster = CLUSTER_FREE then Some (CLUSTER_FREE, p)
      else case filesysType p of
        FS_UNKNOWN \<Rightarrow> Some (CLUSTER_ERROR, p)
      | FS_FAT12 \<Rightarrow> do {
          let sector = fatStart (fat p) + ((cluster * 3) div 2) div 512;
          let off = ((cluster * 3) div 2) mod 512;
          (b, lo, p) \<leftarrow> readFatByte p CLUSTER_FREE sector off;
          let (sector, off) = next_byte sector off;
          (b, hi, p) \<leftarrow> readFatByte p 0 sector off;
          let v = lo OR push_bit 8 hi;
          let v = (if cluster AND 1 \<noteq> 0 then drop_bit 4 v else v AND 0x0FFF);
          Some (if v \<ge> 0x0FF7 then CLUSTER_EOF else v, p) }
      | FS_FAT16 \<Rightarrow> do {
          let sector = fatStart (fat p) + (push_bit 1 cluster) div 512;
          let off = push_bit 1 (cluster mod 256);
          (b, v, c) \<leftarrow> FAT_cache_readLittleEndianValue (cache p) CLUSTER_FREE sector off 2;
          Some (if v \<ge> 0xFFF7 then CLUSTER_EOF else v, set_cache c p) }
      | FS_FAT32 \<Rightarrow> do {
          let sector = fatStart (fat p) + (push_bit 2 cluster) div 512;
          let off = push_bit 2 (cluster mod 128);
          (b, v, c) \<leftarrow> FAT_cache_readLittleEndianValue (cache p) CLUSTER_FREE sector off 4;
          Some (if v \<ge> 0x0FFFFFF7 then CLUSTER_EOF else v, set_cache c p) })"

definition writeFatByte :: "'d PARTITION \<Rightarrow> u32 \<Rightarrow> u32 \<Rightarrow> u32 \<Rightarrow> 'd PARTITION option" where
  "writeFatByte p val sector off = do {
     (b, c) \<leftarrow> FAT_cache_writeLittleEndianValue (cache p) val sector off 1;
     Some (set_cache c p) }"

text \<open>
  In the FAT12 format two entries share a byte, whose other half is read first. When that
  read fails, \<open>oldValue\<close> is used uninitialised: the model has no result then.
\<close>

definition writeFatEntry12 :: "'d PARTITION \<Rightarrow> u32 \<Rightarrow> u32 \<Rightarrow> 'd PARTITION option" where
  "writeFatEntry12 p cluster val = do {
     let sector = fatStart (fat p) + ((cluster * 3) div 2) div 512;
     let off = ((cluster * 3) div 2) mod 512;
     if cluster AND 1 \<noteq> 0 then do {
       (b, oldValue, p) \<leftarrow> readFatByte p 0 sector off;
       if \<not> b then None else do {
       let val = push_bit 4 val OR (oldValue AND 0x0F);
       p \<leftarrow> writeFatByte p (val AND 0xFF) sector off;
       let (sector, off) = next_byte sector off;
       writeFatByte p (drop_bit 8 val AND 0xFF) sector off } }
     else do {
       p \<leftarrow> writeFatByte p val sector off;
       let (sector, off) = next_byte sector off;
       (b, oldValue, p) \<leftarrow> readFatByte p 0 sector off;
       if \<not> b then None else do {
       let val = (drop_bit 8 val AND 0x0F) OR (oldValue AND 0xF0);
       writeFatByte p val sector off } } }"

definition FAT_fat_writeFatEntry :: "'d PARTITION \<Rightarrow> u32 \<Rightarrow> u32 \<Rightarrow> (bool \<times> 'd PARTITION) option" where
  "FAT_fat_writeFatEntry p cluster val =
     (if cluster < CLUSTER_FIRST \<or> cluster > lastCluster (fat p) then Some (False, p)
      else case filesysType p of
        FS_UNKNOWN \<Rightarrow> Some (False, p)
      | FS_FAT12 \<Rightarrow> do { p \<leftarrow> writeFatEntry12 p cluster val; Some (True, p) }
      | FS_FAT16 \<Rightarrow> do {
          let sector = fatStart (fat p) + (push_bit 1 cluster) div 512;
          let off = push_bit 1 (cluster mod 256);
          (b, c) \<leftarrow> FAT_cache_writeLittleEndianValue (cache p) val sector off 2;
          Some (True, set_cache c p) }
      | FS_FAT32 \<Rightarrow> do {
          let sector = fatStart (fat p) + (push_bit 2 cluster) div 512;
          let off = push_bit 2 (cluster mod 128);
          (b, c) \<leftarrow> FAT_cache_writeLittleEndianValue (cache p) val sector off 4;
          Some (True, set_cache c p) })"

section \<open>Chains\<close>

text \<open>The search of \<open>FAT_fat_linkFreeCluster\<close>: at most twice around the table.\<close>

partial_function (option) findFree_loop ::
  "u32 \<Rightarrow> bool \<Rightarrow> 'd PARTITION \<Rightarrow> (bool \<times> u32 \<times> 'd PARTITION) option" where
  [code]: "findFree_loop free loopedAroundFAT p = do {
     (nxt, p) \<leftarrow> FAT_fat_nextCluster p free;
     if nxt \<noteq> CLUSTER_FREE then do {
       let free = free + 1;
       if free > lastCluster (fat p) then
         (if loopedAroundFAT then Some (False, free, set_firstFree free p)
          else findFree_loop CLUSTER_FIRST True p)
       else findFree_loop free loopedAroundFAT p }
     else Some (True, free, p) }"

definition FAT_fat_linkFreeCluster :: "'d PARTITION \<Rightarrow> u32 \<Rightarrow> (u32 \<times> 'd PARTITION) option" where
  "FAT_fat_linkFreeCluster p cluster =
     (let last = lastCluster (fat p) in
      if cluster > last then Some (CLUSTER_ERROR, p)
      else do {
        (curLink, p) \<leftarrow> FAT_fat_nextCluster p cluster;
        if curLink \<ge> CLUSTER_FIRST \<and> curLink \<le> last then Some (curLink, p)
        else do {
          let free = firstFree (fat p);
          let free = (if free < CLUSTER_FIRST then CLUSTER_FIRST else free);
          (found, free, p) \<leftarrow> findFree_loop free False p;
          if \<not> found then Some (CLUSTER_ERROR, p)
          else do {
            let p = set_firstFree free p;
            (b, p) \<leftarrow> (if cluster \<ge> CLUSTER_FIRST \<and> cluster < last
                        then FAT_fat_writeFatEntry p cluster free else Some (True, p));
            (b, p) \<leftarrow> FAT_fat_writeFatEntry p free CLUSTER_EOF;
            Some (free, p) } } })"

text \<open>Zeroing the sectors of a cluster, \<open>n\<close> of them left, from index \<open>i\<close> on.\<close>

fun clearCluster_loop :: "nat \<Rightarrow> u32 \<Rightarrow> u32 \<Rightarrow> 'd PARTITION \<Rightarrow> 'd PARTITION option" where
  "clearCluster_loop 0 i cluster p = Some p"
| "clearCluster_loop (Suc n) i cluster p = do {
     (b, c) \<leftarrow> FAT_cache_writeSectors (cache p) (FAT_fat_clusterToSector p cluster + i) 1
       (replicate BYTES_PER_READ 0);
     clearCluster_loop n (i + 1) cluster (set_cache c p) }"

definition FAT_fat_linkFreeClusterCleared :: "'d PARTITION \<Rightarrow> u32 \<Rightarrow> (u32 \<times> 'd PARTITION) option" where
  "FAT_fat_linkFreeClusterCleared p cluster = do {
     (newCluster, p) \<leftarrow> FAT_fat_linkFreeCluster p cluster;
     if newCluster = CLUSTER_FREE \<or> newCluster = CLUSTER_ERROR then Some (CLUSTER_ERROR, p)
     else do {
       p \<leftarrow> clearCluster_loop (unat (sectorsPerCluster p)) 0 newCluster p;
       Some (newCluster, p) } }"

partial_function (option) clearLinks_loop :: "u32 \<Rightarrow> 'd PARTITION \<Rightarrow> 'd PARTITION option" where
  [code]: "clearLinks_loop cluster p =
     (if cluster \<noteq> CLUSTER_EOF \<and> cluster \<noteq> CLUSTER_FREE \<and> cluster \<noteq> CLUSTER_ERROR then do {
        (nextCluster, p) \<leftarrow> FAT_fat_nextCluster p cluster;
        (b, p) \<leftarrow> FAT_fat_writeFatEntry p cluster CLUSTER_FREE;
        clearLinks_loop nextCluster p }
      else Some p)"

definition FAT_fat_clearLinks :: "'d PARTITION \<Rightarrow> u32 \<Rightarrow> (bool \<times> 'd PARTITION) option" where
  "FAT_fat_clearLinks p cluster =
     (if cluster < CLUSTER_FIRST \<or> cluster > lastCluster (fat p) then Some (False, p)
      else do {
        let p = (if cluster < firstFree (fat p) then set_firstFree cluster p else p);
        p \<leftarrow> clearLinks_loop cluster p;
        Some (True, p) })"

partial_function (option) trimChain_loop ::
  "u32 \<Rightarrow> u32 \<Rightarrow> u32 \<Rightarrow> 'd PARTITION \<Rightarrow> (u32 \<times> u32 \<times> 'd PARTITION) option" where
  [code]: "trimChain_loop chainLength startCluster nextCluster p =
     (if chainLength > 0 \<and> nextCluster \<noteq> CLUSTER_FREE \<and> nextCluster \<noteq> CLUSTER_EOF then do {
        (n, p) \<leftarrow> FAT_fat_nextCluster p nextCluster;
        trimChain_loop (chainLength - 1) nextCluster n p }
      else Some (startCluster, nextCluster, p))"

definition FAT_fat_trimChain :: "'d PARTITION \<Rightarrow> u32 \<Rightarrow> u32 \<Rightarrow> (u32 \<times> 'd PARTITION) option" where
  "FAT_fat_trimChain p startCluster chainLength =
     (if chainLength = 0 then do {
        (b, p) \<leftarrow> FAT_fat_clearLinks p startCluster;
        Some (CLUSTER_FREE, p) }
      else do {
        let chainLength = chainLength - 1;
        (nextCluster, p) \<leftarrow> FAT_fat_nextCluster p startCluster;
        (startCluster, nextCluster, p) \<leftarrow> trimChain_loop chainLength startCluster nextCluster p;
        (b, p) \<leftarrow> (if nextCluster \<noteq> CLUSTER_FREE \<and> nextCluster \<noteq> CLUSTER_EOF
                    then FAT_fat_clearLinks p nextCluster else Some (True, p));
        (b, p) \<leftarrow> FAT_fat_writeFatEntry p startCluster CLUSTER_EOF;
        Some (startCluster, p) })"

text \<open>The loop condition of \<open>FAT_fat_lastCluster\<close> asks for the next cluster twice, its body once.\<close>

partial_function (option) FAT_fat_lastCluster :: "'d PARTITION \<Rightarrow> u32 \<Rightarrow> (u32 \<times> 'd PARTITION) option" where
  [code]: "FAT_fat_lastCluster p cluster = do {
     (n1, p) \<leftarrow> FAT_fat_nextCluster p cluster;
     if n1 \<noteq> CLUSTER_FREE then do {
       (n2, p) \<leftarrow> FAT_fat_nextCluster p cluster;
       if n2 \<noteq> CLUSTER_EOF then do {
         (n3, p) \<leftarrow> FAT_fat_nextCluster p cluster;
         FAT_fat_lastCluster p n3 }
       else Some (cluster, p) }
     else Some (cluster, p) }"

partial_function (option) freeClusterCount_loop ::
  "u32 \<Rightarrow> u32 \<Rightarrow> 'd PARTITION \<Rightarrow> (u32 \<times> 'd PARTITION) option" where
  [code]: "freeClusterCount_loop curCluster cnt p =
     (if curCluster \<le> lastCluster (fat p) then do {
        (n, p) \<leftarrow> FAT_fat_nextCluster p curCluster;
        freeClusterCount_loop (curCluster + 1) (if n = CLUSTER_FREE then cnt + 1 else cnt) p }
      else Some (cnt, p))"

definition FAT_fat_freeClusterCount :: "'d PARTITION \<Rightarrow> (u32 \<times> 'd PARTITION) option" where
  "FAT_fat_freeClusterCount p = freeClusterCount_loop CLUSTER_FIRST 0 p"

end
