(* ===== verification/FatEntry.thy ===== *)
theory FatEntry
  imports FatTable
begin

text \<open>
  The layout of a file allocation table as a function from byte positions to bytes: where an
  entry lies, how it is read out of the bytes and how it is stored. The lemma
  \<open>raw_entry_put\<close> says that storing an entry changes that entry and no other, in each of the
  three formats, the shared byte of the 12-bit format included.
\<close>

section \<open>Positions\<close>

fun entry_pos :: "FS_TYPE \<Rightarrow> nat \<Rightarrow> nat" where
  "entry_pos FS_FAT12 c = c * 3 div 2"
| "entry_pos FS_FAT16 c = 2 * c"
| "entry_pos FS_FAT32 c = 4 * c"
| "entry_pos FS_UNKNOWN c = 0"

fun entry_len :: "FS_TYPE \<Rightarrow> nat" where
  "entry_len FS_FAT12 = 2"
| "entry_len FS_FAT16 = 2"
| "entry_len FS_FAT32 = 4"
| "entry_len FS_UNKNOWN = 0"

text \<open>The first number that is not a cluster any more: from here on an entry ends a chain.\<close>

fun end_mark :: "FS_TYPE \<Rightarrow> u32" where
  "end_mark FS_FAT12 = 0x0FF7"
| "end_mark FS_FAT16 = 0xFFF7"
| "end_mark FS_FAT32 = 0x0FFFFFF7"
| "end_mark FS_UNKNOWN = 0"

fun entry_mask :: "FS_TYPE \<Rightarrow> u32" where
  "entry_mask FS_FAT12 = 0x0FFF"
| "entry_mask FS_FAT16 = 0xFFFF"
| "entry_mask FS_FAT32 = -1"
| "entry_mask FS_UNKNOWN = 0"

definition fat_sectors :: "FS_TYPE \<Rightarrow> nat \<Rightarrow> nat" where
  "fat_sectors fs lc = (entry_pos fs lc + entry_len fs + 511) div 512"

lemma entry_pos_mono: "c \<le> d \<Longrightarrow> entry_pos fs c \<le> entry_pos fs d"
  by (cases fs) (auto intro: div_le_mono)

lemma entry_in_table:
  assumes "c \<le> lc" "k < entry_pos fs c + entry_len fs"
  shows "k div 512 < fat_sectors fs lc"
proof -
  have "k + 512 \<le> entry_pos fs lc + entry_len fs + 511"
    using entry_pos_mono [OF assms(1), of fs] assms(2) by linarith
  then have "(k + 512) div 512 \<le> fat_sectors fs lc"
    unfolding fat_sectors_def by (rule div_le_mono)
  then show ?thesis by simp
qed

section \<open>Entries\<close>

definition raw_entry :: "FS_TYPE \<Rightarrow> (nat \<Rightarrow> byte) \<Rightarrow> nat \<Rightarrow> u32" where
  "raw_entry fs b c =
     (let k = entry_pos fs c; v = ucast (b k) OR push_bit 8 (ucast (b (k + 1))) in
      case fs of
        FS_FAT12 \<Rightarrow> if odd c then drop_bit 4 v else v AND 0x0FFF
      | FS_FAT16 \<Rightarrow> v
      | FS_FAT32 \<Rightarrow> v OR push_bit 16 (ucast (b (k + 2))) OR push_bit 24 (ucast (b (k + 3)))
      | FS_UNKNOWN \<Rightarrow> 0)"

text \<open>The link an entry stands for: every end mark and every bad cluster ends the chain.\<close>

definition entry_link :: "FS_TYPE \<Rightarrow> (nat \<Rightarrow> byte) \<Rightarrow> nat \<Rightarrow> u32" where
  "entry_link fs b c = (let v = raw_entry fs b c in if v \<ge> end_mark fs then CLUSTER_EOF else v)"

definition put_entry :: "FS_TYPE \<Rightarrow> (nat \<Rightarrow> byte) \<Rightarrow> nat \<Rightarrow> u32 \<Rightarrow> nat \<Rightarrow> byte" where
  "put_entry fs b c v =
     (let k = entry_pos fs c in
      case fs of
        FS_FAT12 \<Rightarrow>
          if odd c
          then b(k := push_bit 4 (ucast v) OR (b k AND 0x0F), k + 1 := ucast (drop_bit 4 v))
          else b(k := ucast v, k + 1 := (ucast (drop_bit 8 v) AND 0x0F) OR (b (k + 1) AND 0xF0))
      | FS_FAT16 \<Rightarrow> b(k := ucast v, k + 1 := ucast (drop_bit 8 v))
      | FS_FAT32 \<Rightarrow> b(k := ucast v, k + 1 := ucast (drop_bit 8 v),
          k + 2 := ucast (drop_bit 16 v), k + 3 := ucast (drop_bit 24 v))
      | FS_UNKNOWN \<Rightarrow> b)"

lemma bit_masks [simp]:
  "bit (0x0F :: 'a::len word) n \<longleftrightarrow> n < 4 \<and> n < LENGTH('a)"
  "bit (0x0FFF :: 'a::len word) n \<longleftrightarrow> n < 12 \<and> n < LENGTH('a)"
  "bit (0xFFFF :: 'a::len word) n \<longleftrightarrow> n < 16 \<and> n < LENGTH('a)"
  "bit (0xFF :: 'a::len word) n \<longleftrightarrow> n < 8 \<and> n < LENGTH('a)"
  "bit (0xF0 :: 'a::len word) n \<longleftrightarrow> 4 \<le> n \<and> n < 8 \<and> n < LENGTH('a)"
proof -
  have *: "(0x0F :: 'a word) = mask 4" "(0x0FFF :: 'a word) = mask 12" "(0xFFFF :: 'a word) = mask 16"
    "(0xFF :: 'a word) = mask 8" "(0xF0 :: 'a word) = push_bit 4 (mask 4)"
    by (simp_all add: mask_eq_exp_minus_1 push_bit_eq_mult)
  show "bit (0x0F :: 'a word) n \<longleftrightarrow> n < 4 \<and> n < LENGTH('a)"
    "bit (0x0FFF :: 'a word) n \<longleftrightarrow> n < 12 \<and> n < LENGTH('a)"
    "bit (0xFFFF :: 'a word) n \<longleftrightarrow> n < 16 \<and> n < LENGTH('a)"
    "bit (0xFF :: 'a word) n \<longleftrightarrow> n < 8 \<and> n < LENGTH('a)"
    "bit (0xF0 :: 'a word) n \<longleftrightarrow> 4 \<le> n \<and> n < 8 \<and> n < LENGTH('a)"
    unfolding * by (auto simp only: bit_push_bit_iff bit_mask_iff possible_bit_word)
qed

lemma mask_split_12:
  fixes v :: u32
  shows "(ucast (ucast v :: byte) OR push_bit 8 (ucast ((ucast (drop_bit 8 v) AND 0x0F) OR (y AND 0xF0) :: byte))) AND 0x0FFF
      = v AND 0x0FFF"
    and "drop_bit 4 (ucast (push_bit 4 (ucast v) OR (y AND 0x0F) :: byte) OR push_bit 8 (ucast (ucast (drop_bit 4 v) :: byte)))
      = v AND 0x0FFF"
    by (rule bit_word_eqI; auto simp: bit_simps not_less simp del: bit_numeral_word_iff)+

lemma keep_nibble_12:
  fixes v :: u32 and x y :: byte
  shows "drop_bit 4 (ucast ((z AND 0x0F) OR (x AND 0xF0)) OR push_bit 8 (ucast y) :: u32)
      = drop_bit 4 (ucast x OR push_bit 8 (ucast y))"
    and "(ucast y OR push_bit 8 (ucast (push_bit 4 z OR (x AND 0x0F)))) AND (0x0FFF :: u32)
      = (ucast y OR push_bit 8 (ucast x)) AND 0x0FFF"
    by (rule bit_word_eqI; auto simp: bit_simps not_less simp del: bit_numeral_word_iff dest: bit_imp_le_length)+

lemma bytes_of_u32 [simp]:
  fixes v :: u32
  shows "ucast (ucast v :: byte) OR push_bit 8 (ucast (ucast (drop_bit 8 v) :: byte)) = v AND 0xFFFF"
    and "v AND 0xFFFF OR push_bit 16 (ucast (ucast (drop_bit 16 v) :: byte))
      OR push_bit 24 (ucast (ucast (drop_bit 24 v) :: byte)) = v"
proof -
  show "ucast (ucast v :: byte) OR push_bit 8 (ucast (ucast (drop_bit 8 v) :: byte)) = v AND 0xFFFF"
    by (rule bit_word_eqI; auto simp: bit_simps not_less simp del: bit_numeral_word_iff)
  show "v AND 0xFFFF OR push_bit 16 (ucast (ucast (drop_bit 16 v) :: byte))
      OR push_bit 24 (ucast (ucast (drop_bit 24 v) :: byte)) = v"
  proof (rule bit_word_eqI)
    fix n :: nat
    assume "n < LENGTH(32)"
    then show "bit (v AND 0xFFFF OR push_bit 16 (ucast (ucast (drop_bit 16 v) :: byte))
        OR push_bit 24 (ucast (ucast (drop_bit 24 v) :: byte))) n = bit v n"
      by (cases "n < 16"; cases "n < 24")
        (auto simp: bit_simps not_less simp del: bit_numeral_word_iff)
  qed
qed

text \<open>An entry depends on its own bytes only.\<close>

lemma raw_entry_cong:
  assumes "\<And>k. entry_pos fs c \<le> k \<Longrightarrow> k < entry_pos fs c + entry_len fs \<Longrightarrow> b k = b' k"
  shows "raw_entry fs b c = raw_entry fs b' c"
  using assms by (cases fs) (simp_all add: raw_entry_def Let_def)

lemma put_entry_outside:
  assumes "\<not> (entry_pos fs c \<le> k \<and> k < entry_pos fs c + entry_len fs)"
  shows "put_entry fs b c v k = b k"
  using assms by (cases fs) (auto simp: put_entry_def Let_def)

text \<open>Reading back the stored entry, and reading its neighbours.\<close>

lemma raw_entry_put_same:
  "raw_entry fs (put_entry fs b c v) c = v AND entry_mask fs"
  by (cases fs) (simp_all add: raw_entry_def put_entry_def Let_def mask_split_12 del: drop_bit_or)

lemma pos12 [simp]: "2 * h * 3 div 2 = 3 * h" "(2 * h + 1) * 3 div 2 = 3 * h + (1::nat)"
  by simp_all

lemma parity_cases: obtains (even) h where "c = 2 * h" | (odd) h where "c = 2 * h + (1::nat)"
  by (metis evenE oddE)

lemma pos12_shared:
  assumes "x \<noteq> c" "entry_pos FS_FAT12 x < entry_pos FS_FAT12 c + 2"
    "entry_pos FS_FAT12 c < entry_pos FS_FAT12 x + 2"
  shows "odd c \<and> x + 1 = c \<or> even c \<and> x = c + 1"
  using assms by (cases x rule: parity_cases; cases c rule: parity_cases) (simp_all only: entry_pos.simps pos12, auto)

lemma raw_entry_put_other:
  assumes "x \<noteq> c"
  shows "raw_entry fs (put_entry fs b c v) x = raw_entry fs b x"
proof (cases "entry_pos fs x < entry_pos fs c + entry_len fs \<and> entry_pos fs c < entry_pos fs x + entry_len fs")
  case False
  show ?thesis
    by (rule raw_entry_cong, rule put_entry_outside) (use False in linarith)
next
  case True
  with assms have fs: "fs = FS_FAT12" by (cases fs) auto
  with assms True have "odd c \<and> x + 1 = c \<or> even c \<and> x = c + 1"
    by (intro pos12_shared) simp_all
  then show ?thesis
  proof
    assume c: "odd c \<and> x + 1 = c"
    then obtain h where h: "x = 2 * h" "c = 2 * h + 1" by (metis add_right_imp_eq evenE even_plus_one_iff)
    have "entry_pos FS_FAT12 x = 3 * h" "entry_pos FS_FAT12 c = 3 * h + 1"
      unfolding h entry_pos.simps pos12 by simp_all
    with h show ?thesis
      by (simp add: fs raw_entry_def put_entry_def Let_def keep_nibble_12 del: entry_pos.simps drop_bit_or bit.conj_disj_distrib2)
  next
    assume c: "even c \<and> x = c + 1"
    then obtain h where h: "c = 2 * h" "x = 2 * h + 1" by blast
    then show ?thesis
      by (simp add: fs raw_entry_def put_entry_def Let_def keep_nibble_12 del: drop_bit_or bit.conj_disj_distrib2)
  qed
qed

lemma raw_entry_put:
  "raw_entry fs (put_entry fs b c v) x = (if x = c then v AND entry_mask fs else raw_entry fs b x)"
  by (simp add: raw_entry_put_same raw_entry_put_other)

end
