(* ===== verification/FatCorrect.thy ===== *)
theory FatCorrect
  imports FatEntry
begin

text \<open>
  Correctness of the file allocation table. \<open>fat_link sec p x\<close> is the link of cluster \<open>x\<close> that
  the table of volume \<open>p\<close> holds, seen through the cache; \<open>fat_inv\<close> is the invariant. A
  \<open>fat_step\<close> keeps the invariant, gives the table new links and leaves every sector outside the
  table as it was. Each operation is shown to be such a step, for the links it should leave.
\<close>

section \<open>The table of a volume\<close>

definition fat_bytes :: "(nat \<Rightarrow> byte list) \<Rightarrow> nat \<Rightarrow> nat \<Rightarrow> byte" where
  "fat_bytes f start k = f (start + k div 512) ! (k mod 512)"

definition fat_view :: "('d \<Rightarrow> nat \<Rightarrow> byte list) \<Rightarrow> 'd PARTITION \<Rightarrow> nat \<Rightarrow> byte" where
  "fat_view sec p = fat_bytes (cache_view sec (cache p)) (unat (fatStart (fat p)))"

definition fat_link :: "('d \<Rightarrow> nat \<Rightarrow> byte list) \<Rightarrow> 'd PARTITION \<Rightarrow> u32 \<Rightarrow> u32" where
  "fat_link sec p x = entry_link (filesysType p) (fat_view sec p) (unat x)"

definition table_sectors :: "'d PARTITION \<Rightarrow> nat" where
  "table_sectors p = fat_sectors (filesysType p) (unat (lastCluster (fat p)))"

definition fat_geometry :: "'d PARTITION \<Rightarrow> bool" where
  "fat_geometry p \<longleftrightarrow> filesysType p \<noteq> FS_UNKNOWN \<and> 2 \<le> lastCluster (fat p) \<and>
     lastCluster (fat p) < end_mark (filesysType p) \<and>
     unat (fatStart (fat p)) + table_sectors p \<le> unat (endOfPartition (cache p))"

definition in_fat :: "'d PARTITION \<Rightarrow> nat \<Rightarrow> bool" where
  "in_fat p t \<longleftrightarrow> unat (fatStart (fat p)) \<le> t \<and> t < unat (fatStart (fat p)) + table_sectors p"

definition fat_inv ::
  "'d DISC_INTERFACE \<Rightarrow> ('d \<Rightarrow> bool) \<Rightarrow> ('d \<Rightarrow> nat) \<Rightarrow> ('d \<Rightarrow> nat \<Rightarrow> byte list) \<Rightarrow> 'd PARTITION \<Rightarrow> bool"
  where
  "fat_inv D ok nsec sec p \<longleftrightarrow> cache_inv D ok nsec sec (cache p) \<and> fat_geometry p"

definition fat_step ::
  "'d DISC_INTERFACE \<Rightarrow> ('d \<Rightarrow> bool) \<Rightarrow> ('d \<Rightarrow> nat) \<Rightarrow> ('d \<Rightarrow> nat \<Rightarrow> byte list) \<Rightarrow>
     'd PARTITION \<Rightarrow> u32 \<Rightarrow> (u32 \<Rightarrow> u32) \<Rightarrow> 'd PARTITION \<Rightarrow> bool"
  where
  "fat_step D ok nsec sec p ff L p' \<longleftrightarrow>
     (\<exists>c. p' = set_firstFree ff (set_cache c p) \<and> cache_inv D ok nsec sec c \<and> same_frame nsec (cache p) c) \<and>
     (\<forall>x \<le> lastCluster (fat p). fat_link sec p' x = L x) \<and>
     (\<forall>t < nsec (medium (cache p)). \<not> in_fat p t \<longrightarrow>
        cache_view sec (cache p') t = cache_view sec (cache p) t)"

lemma set_firstFree_same [simp]: "set_firstFree (firstFree (fat p)) p = p"
  by (simp add: set_firstFree_def)

lemma set_twice [simp]:
  "set_firstFree ff' (set_firstFree ff p) = set_firstFree ff' p"
  "set_cache c' (set_cache c p) = set_cache c' p"
  "set_cache c (set_firstFree ff p) = set_firstFree ff (set_cache c p)"
  "set_cache (cache p) p = p"
  by (simp_all add: set_firstFree_def set_cache_def)

lemma fat_stepD:
  assumes "fat_step D ok nsec sec p ff L p'"
  shows "fat p' = (fat p)\<lparr>firstFree := ff\<rparr>" "filesysType p' = filesysType p"
    "table_sectors p' = table_sectors p" "in_fat p' = in_fat p" "firstFree (fat p') = ff"
    "lastCluster (fat p') = lastCluster (fat p)" "fatStart (fat p') = fatStart (fat p)"
    "x \<le> lastCluster (fat p) \<Longrightarrow> fat_link sec p' x = L x"
    "same_frame nsec (cache p) (cache p')" "nsec (medium (cache p')) = nsec (medium (cache p))"
    "\<not> in_fat p t \<Longrightarrow> t < nsec (medium (cache p)) \<Longrightarrow>
       cache_view sec (cache p') t = cache_view sec (cache p) t"
  using assms
  by (auto simp: fat_step_def set_firstFree_def set_cache_def table_sectors_def in_fat_def fun_eq_iff
      same_frame_def)

lemma fat_step_inv:
  assumes "fat_step D ok nsec sec p ff L p'" "fat_inv D ok nsec sec p"
  shows "fat_inv D ok nsec sec p'"
proof -
  note d = fat_stepD [OF assms(1)]
  have "cache_inv D ok nsec sec (cache p')" using assms(1) unfolding fat_step_def by (elim conjE exE) simp
  moreover have "endOfPartition (cache p') = endOfPartition (cache p)"
    using d(9) by (simp add: same_frame_def)
  ultimately show ?thesis using assms(2) d(2,3,6,7) by (simp add: fat_inv_def fat_geometry_def)
qed

lemma fat_step_refl:
  "fat_inv D ok nsec sec p \<Longrightarrow> fat_step D ok nsec sec p (firstFree (fat p)) (fat_link sec p) p"
  unfolding fat_step_def fat_inv_def
  by (intro conjI exI [of _ "cache p"]) simp_all

lemma fat_step_trans:
  assumes "fat_step D ok nsec sec p ff L p'" "fat_step D ok nsec sec p' ff' L' p''"
  shows "fat_step D ok nsec sec p ff' L' p''"
proof -
  note d = fat_stepD [OF assms(1)] and d' = fat_stepD [OF assms(2)]
  obtain c where c: "p' = set_firstFree ff (set_cache c p)" "same_frame nsec (cache p) c"
    using assms(1) unfolding fat_step_def by blast
  obtain c' where c': "p'' = set_firstFree ff' (set_cache c' p')" "cache_inv D ok nsec sec c'"
    "same_frame nsec (cache p') c'"
    using assms(2) unfolding fat_step_def by blast
  have "p'' = set_firstFree ff' (set_cache c' p)" using c c' by simp
  moreover have "same_frame nsec (cache p) c'" using c c' by (simp add: same_frame_def)
  ultimately show ?thesis
    unfolding fat_step_def using c'(2) d'(8,11) d(4,6,10,11) by (intro conjI exI [of _ c']) simp_all
qed

lemma fat_step_cong:
  "fat_step D ok nsec sec p ff L p' \<Longrightarrow> (\<And>x. x \<le> lastCluster (fat p) \<Longrightarrow> L x = L' x) \<Longrightarrow>
   fat_step D ok nsec sec p ff L' p'"
  by (simp add: fat_step_def)

text \<open>Moving the hint of the first free cluster is a step as well.\<close>

lemma fat_step_hint:
  assumes "fat_step D ok nsec sec p ff L p'"
  shows "fat_step D ok nsec sec p ff' L (set_firstFree ff' p')"
proof -
  have "fat_link sec (set_firstFree ff' p') = fat_link sec p'"
    by (simp add: fat_link_def fat_view_def fun_eq_iff)
  then show ?thesis using assms by (auto simp: fat_step_def)
qed

section \<open>Reading and writing entries\<close>

text \<open>\<open>located p s i k\<close>: byte \<open>k\<close> of the table lies at offset \<open>i\<close> of sector \<open>s\<close>.\<close>

definition located :: "'d PARTITION \<Rightarrow> u32 \<Rightarrow> u32 \<Rightarrow> nat \<Rightarrow> bool" where
  "located p s i k \<longleftrightarrow> unat s = unat (fatStart (fat p)) + k div 512 \<and> unat i = k mod 512"

lemma located_set_cache [simp]: "located (set_cache c p) = located p"
  by (simp add: located_def fun_eq_iff)

lemma table_room:
  assumes "fat_inv D ok nsec sec p" "k div 512 < table_sectors p"
  shows "unat (fatStart (fat p)) + k div 512 < unat (endOfPartition (cache p))"
    "unat (fatStart (fat p)) + k div 512 < nsec (medium (cache p))"
    "unat (fatStart (fat p)) + k div 512 + 1 < 2 ^ 32"
proof -
  have "unat (endOfPartition (cache p)) \<le> nsec (medium (cache p))"
    using assms(1) unfolding fat_inv_def cache_inv_def by blast
  moreover have "unat (endOfPartition (cache p)) < 2 ^ 32" using unat_lt_u32 by simp
  moreover show "unat (fatStart (fat p)) + k div 512 < unat (endOfPartition (cache p))"
    using assms by (auto simp: fat_inv_def fat_geometry_def)
  ultimately show "unat (fatStart (fat p)) + k div 512 < nsec (medium (cache p))"
    "unat (fatStart (fat p)) + k div 512 + 1 < 2 ^ 32" by linarith+
qed

lemma located_next:
  assumes "fat_inv D ok nsec sec p" "located p s i k" "k div 512 < table_sectors p"
  shows "located p (fst (next_byte s i)) (snd (next_byte s i)) (k + 1)"
proof -
  have i: "unat (i + 1) = k mod 512 + 1" and s: "unat (s + 1) = unat (fatStart (fat p)) + k div 512 + 1"
    using assms table_room(3) [OF assms(1,3)] by (simp_all add: located_def unat_word_ariths)
  have "(512 \<le> i + 1) = (k mod 512 = 511)"
    unfolding word_le_nat_alt i by simp linarith
  then show ?thesis
    using assms(2) i s unfolding next_byte_def located_def
    by (cases "k mod 512 = 511") (simp_all add: mod_Suc div_Suc)
qed

lemma located_start:
  assumes "fat_inv D ok nsec sec p" "k div 512 < table_sectors p" "unat a = k"
  shows "located p (fatStart (fat p) + a div 512) (a mod 512) k"
proof -
  have "unat (a div 512) = k div 512" "unat (a mod 512) = k mod 512"
    using assms(3) by (simp_all add: unat_div unat_mod)
  then show ?thesis
    using table_room(3) [OF assms(1,2)] by (simp add: located_def unat_add_u32)
qed

context disc_device begin

abbreviation finv :: "'d PARTITION \<Rightarrow> bool" where "finv \<equiv> fat_inv D ok nsec sec"
abbreviation flink :: "'d PARTITION \<Rightarrow> u32 \<Rightarrow> u32" where "flink \<equiv> fat_link sec"
abbreviation fbyte :: "'d PARTITION \<Rightarrow> nat \<Rightarrow> byte" where "fbyte \<equiv> fat_view sec"
abbreviation fstep where "fstep \<equiv> fat_step D ok nsec sec"

lemma located_in_partition:
  assumes "finv p" "located p s i k" "k div 512 < table_sectors p"
  shows "cinv (cache p)" "unat s < unat (endOfPartition (cache p))"
    "cview (cache p) (unat s) ! unat i = fbyte p k"
  using assms table_room(1) [OF assms(1,3)]
  by (simp_all add: fat_inv_def located_def fat_view_def fat_bytes_def)

text \<open>A read leaves the table as it is.\<close>

lemma read_step:
  assumes "finv p" "cinv c" "sview (cache p) c" "same_frame nsec (cache p) c"
  shows "fstep p (firstFree (fat p)) (flink p) (set_cache c p)"
    and "k div 512 < table_sectors p \<Longrightarrow> fbyte (set_cache c p) k = fbyte p k"
proof -
  show *: "fbyte (set_cache c p) k = fbyte p k" if "k div 512 < table_sectors p" for k
    using assms(3) table_room(2) [OF assms(1) that]
    by (simp add: fat_view_def fat_bytes_def same_view_def)
  have "flink (set_cache c p) x = flink p x" if "x \<le> lastCluster (fat p)" for x
  proof -
    have "raw_entry (filesysType p) (fbyte (set_cache c p)) (unat x) =
        raw_entry (filesysType p) (fbyte p) (unat x)"
      by (rule raw_entry_cong, rule *)
        (use that entry_in_table in \<open>simp add: table_sectors_def word_le_nat_alt\<close>)
    then show ?thesis by (simp add: fat_link_def entry_link_def)
  qed
  moreover have "set_cache c p = set_firstFree (firstFree (fat p)) (set_cache c p)"
    by (simp add: set_firstFree_def set_cache_def)
  ultimately show "fstep p (firstFree (fat p)) (flink p) (set_cache c p)"
    using assms(2-4) unfolding fat_step_def
    by (intro conjI exI [of _ c]) (simp_all add: same_view_def)
qed

lemma readFatByte_ok:
  assumes "finv p" "located p s i k" "k div 512 < table_sectors p"
  obtains c where "readFatByte p v s i = Some (True, ucast (fbyte p k), set_cache c p)"
    "cinv c" "sview (cache p) c" "same_frame nsec (cache p) c"
proof -
  note l = located_in_partition [OF assms]
  have "unat i + 1 \<le> 512" using assms(2) mod_less_divisor [of 512 k] unfolding located_def by linarith
  then obtain c where c: "FAT_cache_readLittleEndianValue (cache p) v s i 1 =
      Some (True, ucast (cview (cache p) (unat s) ! unat i), c)"
    "cinv c" "sview (cache p) c" "same_frame nsec (cache p) c"
    using readLittleEndianValue_ok [OF l(1,2), of i 1 v] by auto
  show thesis
    by (rule that [OF _ c(2-4)]) (simp add: readFatByte_def c(1) [simplified] l(3))
qed

lemma located_slice:
  assumes "finv p" "located p s i k" "k div 512 < table_sectors p" "k mod 512 + n \<le> 512" "j < n"
  shows "bslice (cview (cache p) (unat s)) (unat i) n ! j = fbyte p (k + j)"
    "(k + j) div 512 = k div 512"
proof -
  note l = located_in_partition [OF assms(1-3)]
  have i: "unat i = k mod 512" using assms(2) by (simp add: located_def)
  have "(k + j) div 512 = k div 512 \<and> (k + j) mod 512 = k mod 512 + j"
    using div_mod_add_small [of k 512 j] assms(4,5) by simp
  then show d: "(k + j) div 512 = k div 512" and
    "bslice (cview (cache p) (unat s)) (unat i) n ! j = fbyte p (k + j)"
    using assms(2,4,5) length_cview [OF l(1,2)] nth_slice [OF assms(5), of "unat i" "cview (cache p) (unat s)"]
    by (simp_all add: i located_def fat_view_def fat_bytes_def)
qed

end

lemma ucast_le16: "ucast (le16 bs) = (ucast (bs ! 0) OR push_bit 8 (ucast (bs ! 1)) :: u32)"
  unfolding le16_def
  by (rule bit_word_eqI; auto simp: bit_simps dest: bit_imp_le_length)

lemma odd_word: "x AND 1 \<noteq> 0 \<longleftrightarrow> odd (unat (x :: u32))"
proof -
  have "unat (x AND 1) = unat x mod 2"
    by (simp add: and_one_eq unat_mod)
  then show ?thesis
    by (metis One_nat_def odd_iff_mod_2_eq_one parity_cases even_iff_mod_2_eq_zero unat_eq_zero)
qed

text \<open>
  Where the code looks for entry \<open>x\<close>, without overflow. \<open>entry_ok\<close>: the number is below the end
  marks and its entry lies in the sectors of the table, which may hold a few entries more than
  there are clusters.
\<close>

definition entry_ok :: "'d PARTITION \<Rightarrow> u32 \<Rightarrow> bool" where
  "entry_ok p x \<longleftrightarrow> x < end_mark (filesysType p) \<and>
     (\<forall>k < entry_pos (filesysType p) (unat x) + entry_len (filesysType p). k div 512 < table_sectors p)"

lemma entry_room:
  assumes "fat_inv D ok nsec sec p" "x \<le> lastCluster (fat p)"
    and "k < entry_pos (filesysType p) (unat x) + entry_len (filesysType p)"
  shows "k div 512 < table_sectors p"
  using assms entry_in_table unfolding table_sectors_def by (simp add: word_le_nat_alt)

lemma entry_ok_le:
  assumes "fat_inv D ok nsec sec p" "x \<le> lastCluster (fat p)"
  shows "entry_ok p x"
  unfolding entry_ok_def
proof (intro conjI allI impI)
  show "x < end_mark (filesysType p)"
    using assms by (auto simp: fat_inv_def fat_geometry_def intro: le_less_trans)
qed (rule entry_room [OF assms])

lemma cluster_bound:
  assumes "entry_ok p x"
  shows "x < end_mark (filesysType p)" "unat x < 0x0FFFFFF7"
    "filesysType p = FS_FAT12 \<Longrightarrow> unat x < 0x0FF7" "filesysType p = FS_FAT16 \<Longrightarrow> unat x < 0xFFF7"
proof -
  show *: "x < end_mark (filesysType p)" using assms by (simp add: entry_ok_def)
  then show "filesysType p = FS_FAT12 \<Longrightarrow> unat x < 0x0FF7"
    "filesysType p = FS_FAT16 \<Longrightarrow> unat x < 0xFFF7"
    by (simp_all add: word_less_nat_alt)
  show "unat x < 0x0FFFFFF7" using * by (cases "filesysType p") (simp_all add: word_less_nat_alt)
qed

lemma pos_mod: "2 * c mod 512 = 2 * (c mod 256)" "4 * c mod 512 = 4 * (c mod 128)"
  "2 * (c mod 256) + 2 \<le> 512" "4 * (c mod 128) + 4 \<le> (512::nat)"
proof -
  show "2 * c mod 512 = 2 * (c mod 256)" "4 * c mod 512 = 4 * (c mod (128::nat))"
    using mult_mod_right [of 2 c 256] mult_mod_right [of 4 c 128] by simp_all
  have "c mod 256 < 256" "c mod 128 < 128" by simp_all
  then show "2 * (c mod 256) + 2 \<le> 512" "4 * (c mod 128) + 4 \<le> (512::nat)" by linarith+
qed

lemma entry_located:
  assumes inv: "fat_inv D ok nsec sec p" and x: "entry_ok p x"
  defines "k \<equiv> entry_pos (filesysType p) (unat x)"
  shows "filesysType p = FS_FAT12 \<Longrightarrow>
      located p (fatStart (fat p) + ((x * 3) div 2) div 512) (((x * 3) div 2) mod 512) k"
    and "filesysType p = FS_FAT16 \<Longrightarrow>
      located p (fatStart (fat p) + (push_bit 1 x) div 512) (push_bit 1 (x mod 256)) k \<and> k mod 512 + 2 \<le> 512"
    and "filesysType p = FS_FAT32 \<Longrightarrow>
      located p (fatStart (fat p) + (push_bit 2 x) div 512) (push_bit 2 (x mod 128)) k \<and> k mod 512 + 4 \<le> 512"
proof -
  note b = cluster_bound [OF x]
  have room: "k div 512 < table_sectors p" if "0 < entry_len (filesysType p)"
    using x that by (simp add: entry_ok_def k_def)
  show "located p (fatStart (fat p) + ((x * 3) div 2) div 512) (((x * 3) div 2) mod 512) k"
    if fs: "filesysType p = FS_FAT12"
  proof (rule located_start [OF inv])
    show "k div 512 < table_sectors p" using fs room by simp
    have "unat (x * 3) = unat x * 3" using b(3) [OF fs] by (simp add: unat_word_ariths)
    then show "unat ((x * 3) div 2) = k" by (simp add: unat_div k_def fs)
  qed
  have *: "push_bit 1 (x mod 256) = push_bit 1 x mod 512" "push_bit 2 (x mod 128) = push_bit 2 x mod 512"
    if "unat x < 0x0FFFFFF7"
    using that pos_mod(1,2) [of "unat x"]
    by (simp_all add: word_unat_eq_iff push_bit_eq_mult unat_mod unat_word_ariths mult.commute)
  show "located p (fatStart (fat p) + (push_bit 1 x) div 512) (push_bit 1 (x mod 256)) k \<and> k mod 512 + 2 \<le> 512"
    if fs: "filesysType p = FS_FAT16"
  proof
    show "located p (fatStart (fat p) + (push_bit 1 x) div 512) (push_bit 1 (x mod 256)) k"
      unfolding *(1) [OF b(2)]
      by (rule located_start [OF inv])
        (use fs room b(2) in \<open>simp_all add: k_def push_bit_eq_mult unat_word_ariths\<close>)
    show "k mod 512 + 2 \<le> 512" using pos_mod(3,4) by (simp only: k_def fs entry_pos.simps pos_mod(1,2))
  qed
  show "located p (fatStart (fat p) + (push_bit 2 x) div 512) (push_bit 2 (x mod 128)) k \<and> k mod 512 + 4 \<le> 512"
    if fs: "filesysType p = FS_FAT32"
  proof
    show "located p (fatStart (fat p) + (push_bit 2 x) div 512) (push_bit 2 (x mod 128)) k"
      unfolding *(2) [OF b(2)]
      by (rule located_start [OF inv])
        (use fs room b(2) in \<open>simp_all add: k_def push_bit_eq_mult unat_word_ariths\<close>)
    show "k mod 512 + 4 \<le> 512" using pos_mod(3,4) by (simp only: k_def fs entry_pos.simps pos_mod(1,2))
  qed
qed

section \<open>The next cluster\<close>

context disc_device begin

text \<open>Two reads in a row of the bytes of a 12-bit entry.\<close>

lemma readFatByte_pair:
  assumes "finv p" "located p s i k" "k div 512 < table_sectors p" "(k + 1) div 512 < table_sectors p"
  obtains c1 c2 where "readFatByte p v s i = Some (True, ucast (fbyte p k), set_cache c1 p)"
    "readFatByte (set_cache c1 p) w (fst (next_byte s i)) (snd (next_byte s i)) =
      Some (True, ucast (fbyte p (k + 1)), set_cache c2 p)"
    "fstep p (firstFree (fat p)) (flink p) (set_cache c1 p)"
    "fstep p (firstFree (fat p)) (flink p) (set_cache c2 p)"
proof -
  from readFatByte_ok [OF assms(1-3), of v] obtain c1 where
    c1: "readFatByte p v s i = Some (True, ucast (fbyte p k), set_cache c1 p)"
    "cinv c1" "sview (cache p) c1" "same_frame nsec (cache p) c1" by blast
  note s1 = read_step [OF assms(1) c1(2-4)]
  note i1 = fat_step_inv [OF s1(1) assms(1)]
  have "table_sectors (set_cache c1 p) = table_sectors p" by (rule fat_stepD(3) [OF s1(1)])
  with i1 located_next [OF assms(1-3)] assms(4)
  obtain c2 where c2: "readFatByte (set_cache c1 p) w (fst (next_byte s i)) (snd (next_byte s i)) =
      Some (True, ucast (fbyte (set_cache c1 p) (k + 1)), set_cache c2 (set_cache c1 p))"
    "cinv c2" "sview (cache (set_cache c1 p)) c2" "same_frame nsec (cache (set_cache c1 p)) c2"
    by (metis readFatByte_ok located_set_cache)
  note s2 = read_step [OF i1 c2(2-4)]
  have "fstep p (firstFree (fat p)) (flink p) (set_cache c2 p)"
    using fat_step_cong [OF fat_step_trans [OF s1(1) s2(1)], of "flink p"] fat_stepD(8) [OF s1(1)] by simp
  then show thesis
    by (intro that [OF c1(1) _ s1(1)]) (use c2(1) s1(2) [OF assms(4)] in simp_all)
qed

lemma readLE_step:
  assumes "finv p" "located p s i k" "k mod 512 + n \<le> 512" "k div 512 < table_sectors p"
    and "n = 2 \<or> n = 4"
  obtains c where "FAT_cache_readLittleEndianValue (cache p) v s i n = Some (True,
      (let lo = ucast (fbyte p k) OR push_bit 8 (ucast (fbyte p (k + 1))) in
       if n = 2 then lo else lo OR push_bit 16 (ucast (fbyte p (k + 2))) OR push_bit 24 (ucast (fbyte p (k + 3)))), c)"
    "fstep p (firstFree (fat p)) (flink p) (set_cache c p)"
proof -
  note l = located_in_partition [OF assms(1,2,4)]
  have i: "unat i + n \<le> 512" using assms(2,3) by (simp add: located_def)
  have b: "bslice (cview (cache p) (unat s)) (unat i) n ! j = fbyte p (k + j)" if "j < n" for j
    by (rule located_slice(1) [OF assms(1,2,4,3) that])
  from readLittleEndianValue_ok [OF l(1,2) i, of v] assms(5) obtain c where
    c: "FAT_cache_readLittleEndianValue (cache p) v s i n = Some (True,
      (if n = 1 then ucast (cview (cache p) (unat s) ! unat i)
       else if n = 2 then ucast (le16 (bslice (cview (cache p) (unat s)) (unat i) 2))
       else le32 (bslice (cview (cache p) (unat s)) (unat i) 4)), c)"
    "cinv c" "sview (cache p) c" "same_frame nsec (cache p) c" by blast
  show thesis
  proof (rule that [OF _ read_step(1) [OF assms(1) c(2-4)]])
    show "FAT_cache_readLittleEndianValue (cache p) v s i n = Some (True,
      (let lo = ucast (fbyte p k) OR push_bit 8 (ucast (fbyte p (k + 1))) in
       if n = 2 then lo else lo OR push_bit 16 (ucast (fbyte p (k + 2))) OR push_bit 24 (ucast (fbyte p (k + 3)))), c)"
      using assms(5) b [of 0] b [of 1] b [of 2] b [of 3] unfolding c(1)
      by (auto simp: ucast_le16 le32_def Let_def or.assoc)
  qed
qed

lemma nextCluster_ok:
  assumes inv: "finv p" and x: "entry_ok p x" "x \<noteq> CLUSTER_FREE"
  obtains p' where "FAT_fat_nextCluster p x = Some (flink p x, p')"
    "fstep p (firstFree (fat p)) (flink p) p'"
proof -
  define k where "k = entry_pos (filesysType p) (unat x)"
  note loc = entry_located [OF inv x(1), folded k_def]
  have room: "j div 512 < table_sectors p" if "j < k + entry_len (filesysType p)" for j
    using x(1) that by (simp add: entry_ok_def k_def)
  note defs = FAT_fat_nextCluster_def fat_link_def entry_link_def raw_entry_def k_def [symmetric]
  have "filesysType p \<noteq> FS_UNKNOWN" using inv by (simp add: fat_inv_def fat_geometry_def)
  then consider "filesysType p = FS_FAT12" | "filesysType p = FS_FAT16" | "filesysType p = FS_FAT32"
    by (cases "filesysType p") auto
  then show thesis
  proof cases
    case 1
    obtain c1 c2 where r:
      "readFatByte p CLUSTER_FREE (fatStart (fat p) + ((x * 3) div 2) div 512) (((x * 3) div 2) mod 512) =
        Some (True, ucast (fbyte p k), set_cache c1 p)"
      "readFatByte (set_cache c1 p) 0
        (fst (next_byte (fatStart (fat p) + ((x * 3) div 2) div 512) (((x * 3) div 2) mod 512)))
        (snd (next_byte (fatStart (fat p) + ((x * 3) div 2) div 512) (((x * 3) div 2) mod 512))) =
        Some (True, ucast (fbyte p (k + 1)), set_cache c2 p)"
      "fstep p (firstFree (fat p)) (flink p) (set_cache c2 p)"
      by (rule readFatByte_pair [OF inv loc(1) [OF 1] room room]) (use 1 in auto)
    moreover have "entry_pos FS_FAT12 (unat x) = k" using 1 by (simp add: k_def)
    ultimately show thesis
      by (intro that [OF _ r(3)])
        (simp add: defs 1 Let_def x(2) odd_word case_prod_beta del: entry_pos.simps drop_bit_or bit.conj_disj_distrib2)
  next
    case 2
    then have k: "k = 2 * unat x" by (simp add: k_def)
    show thesis
      by (rule readLE_step [OF inv conjunct1 [OF loc(2) [OF 2]] conjunct2 [OF loc(2) [OF 2]] room,
          of CLUSTER_FREE], goal_cases)
        (use 2 x(2) k in \<open>auto intro!: that simp: defs Let_def split del: if_split\<close>)
  next
    case 3
    then have k: "k = 4 * unat x" by (simp add: k_def)
    show thesis
      by (rule readLE_step [OF inv conjunct1 [OF loc(3) [OF 3]] conjunct2 [OF loc(3) [OF 3]] room,
          of CLUSTER_FREE], goal_cases)
        (use 3 x(2) k in \<open>auto intro!: that simp: defs Let_def split del: if_split\<close>)
  qed
qed

end


section \<open>Writing an entry\<close>

text \<open>A change of the table given by its bytes.\<close>

definition byte_step ::
  "'d DISC_INTERFACE \<Rightarrow> ('d \<Rightarrow> bool) \<Rightarrow> ('d \<Rightarrow> nat) \<Rightarrow> ('d \<Rightarrow> nat \<Rightarrow> byte list) \<Rightarrow>
     'd PARTITION \<Rightarrow> (nat \<Rightarrow> byte) \<Rightarrow> 'd PARTITION \<Rightarrow> bool"
  where
  "byte_step D ok nsec sec p B p' \<longleftrightarrow>
     (\<exists>c. p' = set_cache c p \<and> cache_inv D ok nsec sec c \<and> same_frame nsec (cache p) c) \<and>
     (\<forall>j. j div 512 < table_sectors p \<longrightarrow> fat_view sec p' j = B j) \<and>
     (\<forall>t < nsec (medium (cache p)). \<not> in_fat p t \<longrightarrow>
        cache_view sec (cache p') t = cache_view sec (cache p) t)"

definition stored_link :: "FS_TYPE \<Rightarrow> u32 \<Rightarrow> u32" where
  "stored_link fs v = (if v AND entry_mask fs \<ge> end_mark fs then CLUSTER_EOF else v AND entry_mask fs)"

lemma byte_stepE:
  assumes "byte_step D ok nsec sec p B p'"
  obtains c where "p' = set_cache c p" "cache_inv D ok nsec sec c" "same_frame nsec (cache p) c"
    "\<And>j. j div 512 < table_sectors p \<Longrightarrow> fat_view sec p' j = B j"
    "\<And>t. t < nsec (medium (cache p)) \<Longrightarrow> \<not> in_fat p t \<Longrightarrow> cache_view sec c t = cache_view sec (cache p) t"
  using assms unfolding byte_step_def by auto

lemma byte_step_same:
  assumes "byte_step D ok nsec sec p B p'"
  shows "fat p' = fat p" "filesysType p' = filesysType p" "table_sectors p' = table_sectors p"
    "in_fat p' = in_fat p" "located p' = located p" "nsec (medium (cache p')) = nsec (medium (cache p))"
    "fat_inv D ok nsec sec p \<Longrightarrow> fat_inv D ok nsec sec p'"
  using assms
  by (auto elim!: byte_stepE simp: table_sectors_def in_fat_def fun_eq_iff same_frame_def fat_inv_def
      fat_geometry_def)

lemma byte_step_refl: "fat_inv D ok nsec sec p \<Longrightarrow> byte_step D ok nsec sec p (fat_view sec p) p"
  unfolding byte_step_def fat_inv_def by (intro conjI exI [of _ "cache p"]) simp_all

lemma byte_step_trans:
  assumes "byte_step D ok nsec sec p B p'" "byte_step D ok nsec sec p' B' p''"
    and "\<And>j. j div 512 < table_sectors p \<Longrightarrow> B' j = B'' j"
  shows "byte_step D ok nsec sec p B'' p''"
proof -
  note s = byte_step_same [OF assms(1)]
  obtain c where c: "p' = set_cache c p" "same_frame nsec (cache p) c"
    "\<And>t. t < nsec (medium (cache p)) \<Longrightarrow> \<not> in_fat p t \<Longrightarrow> cache_view sec c t = cache_view sec (cache p) t"
    using assms(1) by (rule byte_stepE) blast
  obtain c' where c': "p'' = set_cache c' p'" "cache_inv D ok nsec sec c'" "same_frame nsec (cache p') c'"
    "\<And>j. j div 512 < table_sectors p' \<Longrightarrow> fat_view sec p'' j = B' j"
    "\<And>t. t < nsec (medium (cache p')) \<Longrightarrow> \<not> in_fat p' t \<Longrightarrow> cache_view sec c' t = cache_view sec (cache p') t"
    using assms(2) by (rule byte_stepE) blast
  have "p'' = set_cache c' p" "same_frame nsec (cache p) c'"
    using c c' by (simp_all add: same_frame_def)
  then show ?thesis
    unfolding byte_step_def using c c' s assms(3) by (intro conjI exI [of _ c']) simp_all
qed

text \<open>A stored entry is a new link for its cluster and for no other.\<close>

lemma fat_step_of_put:
  assumes inv: "fat_inv D ok nsec sec p" and x: "x \<le> lastCluster (fat p)"
    and st: "byte_step D ok nsec sec p (put_entry (filesysType p) (fat_view sec p) (unat x) v) p'"
  shows "fat_step D ok nsec sec p (firstFree (fat p))
    ((fat_link sec p)(x := stored_link (filesysType p) v)) p'"
proof -
  obtain c where c: "p' = set_cache c p" "cache_inv D ok nsec sec c" "same_frame nsec (cache p) c"
    "\<And>j. j div 512 < table_sectors p \<Longrightarrow>
      fat_view sec p' j = put_entry (filesysType p) (fat_view sec p) (unat x) v j"
    "\<And>t. t < nsec (medium (cache p)) \<Longrightarrow> \<not> in_fat p t \<Longrightarrow> cache_view sec c t = cache_view sec (cache p) t"
    using st by (rule byte_stepE) blast
  have "fat_link sec p' y = ((fat_link sec p)(x := stored_link (filesysType p) v)) y"
    if y: "y \<le> lastCluster (fat p)" for y
  proof -
    have "raw_entry (filesysType p) (fat_view sec p') (unat y) =
        raw_entry (filesysType p) (put_entry (filesysType p) (fat_view sec p) (unat x) v) (unat y)"
      by (rule raw_entry_cong, rule c(4), rule entry_room [OF inv y])
    also have "\<dots> = (if y = x then v AND entry_mask (filesysType p)
        else raw_entry (filesysType p) (fat_view sec p) (unat y))"
      unfolding raw_entry_put by (simp add: word_unat_eq_iff)
    finally show ?thesis by (simp add: fat_link_def entry_link_def stored_link_def c(1) Let_def)
  qed
  moreover have "p' = set_firstFree (firstFree (fat p)) p'" unfolding c(1) by (simp add: set_firstFree_def set_cache_def)
  ultimately show ?thesis
    unfolding fat_step_def using c by (intro conjI exI [of _ c]) auto
qed


definition le_bytes :: "nat \<Rightarrow> u32 \<Rightarrow> byte list" where
  "le_bytes n v = (if n = 1 then [ucast v] else if n = 2 then bytes16 (ucast v) else bytes32 v)"

lemma le_bytes_simps [simp]:
  "le_bytes (Suc 0) v = [ucast v]"
  "le_bytes 2 v = [ucast v, ucast (drop_bit 8 v)]"
  "le_bytes 4 v = [ucast v, ucast (drop_bit 8 v), ucast (drop_bit 16 v), ucast (drop_bit 24 v)]"
proof -
  have "ucast (drop_bit 8 (ucast v :: u16)) = (ucast (drop_bit 8 v) :: byte)"
    "ucast (ucast v :: u16) = (ucast v :: byte)"
    by (rule bit_word_eqI; auto simp: bit_simps)+
  then show "le_bytes 2 v = [ucast v, ucast (drop_bit 8 v)]"
    by (simp add: le_bytes_def bytes16_def)
qed (simp_all add: le_bytes_def bytes32_def)

context disc_device begin

abbreviation bstep where "bstep \<equiv> byte_step D ok nsec sec"

lemma read_bstep:
  assumes "finv p" "cinv c" "sview (cache p) c" "same_frame nsec (cache p) c"
  shows "bstep p (fbyte p) (set_cache c p)"
proof -
  have "\<forall>j. j div 512 < table_sectors p \<longrightarrow> fbyte (set_cache c p) j = fbyte p j"
    using read_step(2) [OF assms] by blast
  then show ?thesis
    unfolding byte_step_def using assms(2-4) by (intro conjI exI [of _ c]) (simp_all add: same_view_def)
qed

text \<open>Storing bytes of the table into the sector that holds them.\<close>

lemma store_bytes:
  assumes inv: "finv p" and loc: "located p s i k" and room: "k div 512 < table_sectors p"
    and d: "k mod 512 + length d \<le> 512"
    and c: "cinv c" "same_frame nsec (cache p) c"
    "\<And>t. t < nsec (medium (cache p)) \<Longrightarrow>
      cview c t = (if t = unat s then overwrite (cview (cache p) t) (unat i) d else cview (cache p) t)"
  shows "bstep p (\<lambda>j. if k \<le> j \<and> j < k + length d then d ! (j - k) else fbyte p j) (set_cache c p)"
proof -
  have s: "unat s = unat (fatStart (fat p)) + k div 512" and i: "unat i = k mod 512"
    using loc by (simp_all add: located_def)
  have "fbyte (set_cache c p) j = (if k \<le> j \<and> j < k + length d then d ! (j - k) else fbyte p j)"
    if j: "j div 512 < table_sectors p" for j
  proof (cases "j div 512 = k div 512")
    case True
    have "length (cview (cache p) (unat s)) = 512"
      using located_in_partition [OF inv loc room] by (intro length_cview) simp_all
    then have "fbyte (set_cache c p) j =
        (if k mod 512 \<le> j mod 512 \<and> j mod 512 < k mod 512 + length d
         then d ! (j mod 512 - k mod 512) else fbyte p j)"
      using table_room(2) [OF inv room] d True
      by (simp add: fat_view_def fat_bytes_def c(3) s i nth_overwrite)
    moreover have "j = 512 * (k div 512) + j mod 512" "k = 512 * (k div 512) + k mod 512"
      using True by (metis mult_div_mod_eq)+
    then have "k mod 512 \<le> j mod 512 \<longleftrightarrow> k \<le> j" "j mod 512 < k mod 512 + length d \<longleftrightarrow> j < k + length d"
      "j mod 512 - k mod 512 = j - k" by linarith+
    ultimately show ?thesis by simp
  next
    case False
    have "\<not> (k \<le> j \<and> j < k + length d)"
    proof
      assume "k \<le> j \<and> j < k + length d"
      then have "j = k + (j - k)" "k mod 512 + (j - k) < 512" using d by linarith+
      then show False using div_mod_add_small(1) [of k 512 "j - k"] False by simp
    qed
    moreover have "fbyte (set_cache c p) j = fbyte p j"
      using c(3) [OF table_room(2) [OF inv j]] False
      by (simp add: fat_view_def fat_bytes_def s)
    ultimately show ?thesis by auto
  qed
  moreover have "cview c t = cview (cache p) t" if "t < nsec (medium (cache p))" "\<not> in_fat p t" for t
    using c(3) [OF that(1)] that(2) room s by (auto simp: in_fat_def)
  ultimately show ?thesis
    unfolding byte_step_def using c by (intro conjI exI [of _ c]) simp_all
qed

lemma writeLE_bstep:
  fixes val :: u32
  assumes inv: "finv p" and loc: "located p s i k" and room: "k div 512 < table_sectors p"
    and n: "k mod 512 + n \<le> 512" "n = 1 \<or> n = 2 \<or> n = 4"
  obtains c where "FAT_cache_writeLittleEndianValue (cache p) val s i n = Some (True, c)"
    "bstep p (\<lambda>j. if k \<le> j \<and> j < k + n then le_bytes n val ! (j - k) else fbyte p j) (set_cache c p)"
proof -
  note l = located_in_partition [OF inv loc room]
  have i: "unat i + n \<le> 512" using loc n(1) by (simp add: located_def)
  from writeLittleEndianValue_ok [OF l(1,2) i n(2), of val] obtain c where
    c: "FAT_cache_writeLittleEndianValue (cache p) val s i n = Some (True, c)" "cinv c"
    "same_frame nsec (cache p) c"
    "\<And>t. t < nsec (medium (cache p)) \<Longrightarrow>
      cview c t = (if t = unat s then overwrite (cview (cache p) t) (unat i) (le_bytes n val) else cview (cache p) t)"
    unfolding le_bytes_def by blast
  have "length (le_bytes n val) = n" using n(2) by (auto simp: le_bytes_def)
  with store_bytes [OF inv loc room _ c(2-4)] n(1) c(1) show thesis by (intro that) simp_all
qed

lemma writeFatByte_ok:
  assumes "finv p" "located p s i k" "k div 512 < table_sectors p"
  obtains p' where "writeFatByte p v s i = Some p'" "bstep p ((fbyte p)(k := ucast v)) p'"
proof -
  have "k mod 512 + 1 \<le> 512" using mod_less_divisor [of 512 k] by linarith
  from writeLE_bstep [OF assms this, of v] obtain c where
    c: "FAT_cache_writeLittleEndianValue (cache p) v s i 1 = Some (True, c)"
    "bstep p (\<lambda>j. if k \<le> j \<and> j < k + 1 then le_bytes 1 v ! (j - k) else fbyte p j) (set_cache c p)"
    by blast
  have "(\<lambda>j. if k \<le> j \<and> j < k + 1 then le_bytes 1 v ! (j - k) else fbyte p j) = (fbyte p)(k := ucast v)"
    by (auto simp: fun_eq_iff)
  with c show thesis by (intro that [of "set_cache c p"]) (simp_all add: writeFatByte_def)
qed

end


lemma store_list_fun:
  "(\<lambda>j. if k \<le> j \<and> j < k + 2 then [a, b] ! (j - k) else f j) = f(k := a, k + 1 := b)"
  "(\<lambda>j. if k \<le> j \<and> j < k + 4 then [a, b, c, d] ! (j - k) else f j) =
     f(k := a, k + 1 := b, k + 2 := c, k + 3 := d)"
proof -
  have *: "j - k = 0 \<and> j = k \<or> j - k = 1 \<and> j = k + 1 \<or> j - k = 2 \<and> j = k + 2 \<or> j - k = 3 \<and> j = k + 3"
    if "k \<le> j" "j < k + 4" for j using that by arith
  show "(\<lambda>j. if k \<le> j \<and> j < k + 2 then [a, b] ! (j - k) else f j) = f(k := a, k + 1 := b)"
    by (rule ext) (use * in fastforce)
  show "(\<lambda>j. if k \<le> j \<and> j < k + 4 then [a, b, c, d] ! (j - k) else f j) =
     f(k := a, k + 1 := b, k + 2 := c, k + 3 := d)"
    by (rule ext) (use * in fastforce)
qed

lemma entry12_bytes:
  fixes v :: u32 and x y :: byte
  shows "ucast ((push_bit 4 v OR (ucast x AND 0x0F)) AND 0xFF) = push_bit 4 (ucast v) OR (x AND 0x0F)"
    and "ucast (drop_bit 8 (push_bit 4 v OR (ucast x AND 0x0F)) AND 0xFF) = (ucast (drop_bit 4 v) :: byte)"
    and "ucast ((drop_bit 8 v AND 0x0F) OR (ucast y AND 0xF0)) = (ucast (drop_bit 8 v) AND 0x0F) OR (y AND 0xF0)"
  by (rule bit_word_eqI; auto simp: bit_simps not_less simp del: bit_numeral_word_iff)+

context disc_device begin

lemma writeFatEntry12_ok:
  assumes inv: "finv p" and x: "x \<le> lastCluster (fat p)" and fs: "filesysType p = FS_FAT12"
  obtains p' where "writeFatEntry12 p x v = Some p'" "bstep p (put_entry FS_FAT12 (fbyte p) (unat x) v) p'"
proof -
  define k where "k = entry_pos FS_FAT12 (unat x)"
  define s where "s = fatStart (fat p) + ((x * 3) div 2) div 512"
  define i where "i = ((x * 3) div 2) mod 512"
  define s' where "s' = fst (next_byte s i)"
  define i' where "i' = snd (next_byte s i)"
  have nb: "next_byte s i = (s', i')" by (simp add: s'_def i'_def)
  have loc: "located p s i k" using entry_located(1) [OF inv entry_ok_le [OF inv x] fs] by (simp add: fs k_def s_def i_def)
  have room: "k div 512 < table_sectors p" "(k + 1) div 512 < table_sectors p"
    using entry_room [OF inv x] by (simp_all add: fs k_def)
  have loc': "located p s' i' (k + 1)"
    using located_next [OF inv loc room(1)] by (simp add: nb)
  show thesis
  proof (cases "odd (unat x)")
    case True
    obtain c where c: "readFatByte p 0 s i = Some (True, ucast (fbyte p k), set_cache c p)"
      "cinv c" "sview (cache p) c" "same_frame nsec (cache p) c"
      by (rule readFatByte_ok [OF inv loc room(1)])
    define p1 where "p1 = set_cache c p"
    define w where "w = push_bit 4 v OR (ucast (fbyte p k) AND 0x0F)"
    have s1: "bstep p (fbyte p) p1" unfolding p1_def by (rule read_bstep [OF inv c(2-4)])
    note e1 = byte_step_same [OF s1]
    obtain p2 where p2: "writeFatByte p1 (w AND 0xFF) s i = Some p2"
      "bstep p1 ((fbyte p1)(k := ucast (w AND 0xFF))) p2"
      by (rule writeFatByte_ok [of p1 s i k]) (use e1 inv loc room in auto)
    note e2 = byte_step_same [OF p2(2)]
    have s2: "bstep p ((fbyte p)(k := ucast (w AND 0xFF))) p2"
      by (rule byte_step_trans [OF s1 p2(2)]) (use s1 in \<open>auto elim: byte_stepE\<close>)
    obtain p3 where p3: "writeFatByte p2 (drop_bit 8 w AND 0xFF) s' i' = Some p3"
      "bstep p2 ((fbyte p2)(k + 1 := ucast (drop_bit 8 w AND 0xFF))) p3"
      by (rule writeFatByte_ok [of p2 s' i' "k + 1"]) (use e1 e2 inv loc' room in auto)
    have "bstep p (put_entry FS_FAT12 (fbyte p) (unat x) v) p3"
      by (rule byte_step_trans [OF s2 p3(2)])
        (use s2 True in \<open>auto elim: byte_stepE simp: put_entry_def Let_def w_def entry12_bytes k_def simp del: drop_bit_or\<close>)
    with that show thesis
      using c(1) p2(1) p3(1) True
      by (simp add: writeFatEntry12_def odd_word nb w_def p1_def flip: s_def i_def)
  next
    case False
    obtain p1 where p1: "writeFatByte p v s i = Some p1" "bstep p ((fbyte p)(k := ucast v)) p1"
      by (rule writeFatByte_ok [OF inv loc room(1)])
    note e1 = byte_step_same [OF p1(2)]
    have l1: "finv p1" "located p1 s' i' (k + 1)" "(k + 1) div 512 < table_sectors p1"
      using e1 inv loc' room by simp_all
    obtain c where c: "readFatByte p1 0 s' i' = Some (True, ucast (fbyte p1 (k + 1)), set_cache c p1)"
      "cinv c" "sview (cache p1) c" "same_frame nsec (cache p1) c"
      by (rule readFatByte_ok [OF l1])
    define p2 where "p2 = set_cache c p1"
    have s2: "bstep p ((fbyte p)(k := ucast v)) p2"
      by (rule byte_step_trans [OF p1(2) read_bstep [OF l1(1) c(2-4), folded p2_def]])
        (use p1(2) in \<open>auto elim: byte_stepE\<close>)
    note e2 = byte_step_same [OF s2]
    define w where "w = (drop_bit 8 v AND 0x0F) OR (ucast (fbyte p (k + 1)) AND 0xF0)"
    have k1: "fbyte p1 (k + 1) = fbyte p (k + 1)"
      using p1(2) room(2) by (auto elim: byte_stepE)
    obtain p3 where p3: "writeFatByte p2 w s' i' = Some p3" "bstep p2 ((fbyte p2)(k + 1 := ucast w)) p3"
      by (rule writeFatByte_ok [of p2 s' i' "k + 1"]) (use e2 inv loc' room in auto)
    have "bstep p (put_entry FS_FAT12 (fbyte p) (unat x) v) p3"
      by (rule byte_step_trans [OF s2 p3(2)])
        (use s2 False in \<open>auto elim: byte_stepE simp: put_entry_def Let_def w_def entry12_bytes k_def simp del: drop_bit_or\<close>)
    with that show thesis
      using c(1) p1(1) p3(1) False
      by (simp add: writeFatEntry12_def odd_word nb w_def p2_def k1 [simplified] flip: s_def i_def)
  qed
qed


lemma writeFatEntry_ok:
  assumes inv: "finv p" and x: "CLUSTER_FIRST \<le> x" "x \<le> lastCluster (fat p)"
  obtains p' where "FAT_fat_writeFatEntry p x v = Some (True, p')"
    "fstep p (firstFree (fat p)) ((flink p)(x := stored_link (filesysType p) v)) p'"
proof -
  define k where "k = entry_pos (filesysType p) (unat x)"
  note loc = entry_located [OF inv entry_ok_le [OF inv x(2)], folded k_def]
  have room: "0 < entry_len (filesysType p) \<Longrightarrow> k div 512 < table_sectors p"
    using entry_room [OF inv x(2), folded k_def, of k] by simp
  have g: "\<not> (x < CLUSTER_FIRST \<or> lastCluster (fat p) < x)" using x by auto
  have "filesysType p \<noteq> FS_UNKNOWN" using inv by (simp add: fat_inv_def fat_geometry_def)
  then consider "filesysType p = FS_FAT12" | "filesysType p = FS_FAT16" | "filesysType p = FS_FAT32"
    by (cases "filesysType p") auto
  then obtain p' where "FAT_fat_writeFatEntry p x v = Some (True, p')"
    "bstep p (put_entry (filesysType p) (fbyte p) (unat x) v) p'"
  proof cases
    case 1
    obtain p' where "writeFatEntry12 p x v = Some p'" "bstep p (put_entry FS_FAT12 (fbyte p) (unat x) v) p'"
      by (rule writeFatEntry12_ok [OF inv x(2) 1])
    then show thesis using g 1 by (intro that [of p']) (simp_all add: FAT_fat_writeFatEntry_def)
  next
    case 2
    obtain c where c: "FAT_cache_writeLittleEndianValue (cache p) v
        (fatStart (fat p) + (push_bit 1 x) div 512) (push_bit 1 (x mod 256)) 2 = Some (True, c)"
      "bstep p (\<lambda>j. if k \<le> j \<and> j < k + 2 then le_bytes 2 v ! (j - k) else fbyte p j) (set_cache c p)"
      by (rule writeLE_bstep [OF inv conjunct1 [OF loc(2) [OF 2]] room conjunct2 [OF loc(2) [OF 2]]])
        (use 2 in auto)
    have "(\<lambda>j. if k \<le> j \<and> j < k + 2 then le_bytes 2 v ! (j - k) else fbyte p j) =
        put_entry FS_FAT16 (fbyte p) (unat x) v"
      using 2 unfolding le_bytes_simps store_list_fun by (simp add: put_entry_def Let_def k_def)
    with c g 2 show thesis
      by (intro that [of "set_cache c p"]) (simp_all add: FAT_fat_writeFatEntry_def)
  next
    case 3
    obtain c where c: "FAT_cache_writeLittleEndianValue (cache p) v
        (fatStart (fat p) + (push_bit 2 x) div 512) (push_bit 2 (x mod 128)) 4 = Some (True, c)"
      "bstep p (\<lambda>j. if k \<le> j \<and> j < k + 4 then le_bytes 4 v ! (j - k) else fbyte p j) (set_cache c p)"
      by (rule writeLE_bstep [OF inv conjunct1 [OF loc(3) [OF 3]] room conjunct2 [OF loc(3) [OF 3]]])
        (use 3 in auto)
    have "(\<lambda>j. if k \<le> j \<and> j < k + 4 then le_bytes 4 v ! (j - k) else fbyte p j) =
        put_entry FS_FAT32 (fbyte p) (unat x) v"
      using 3 unfolding le_bytes_simps store_list_fun by (simp add: put_entry_def Let_def k_def)
    with c g 3 show thesis
      by (intro that [of "set_cache c p"]) (simp_all add: FAT_fat_writeFatEntry_def)
  qed
  then show thesis
    using fat_step_of_put [OF inv x(2)] that by blast
qed

end

lemma stored_link_EOF [simp]: "fs \<noteq> FS_UNKNOWN \<Longrightarrow> stored_link fs CLUSTER_EOF = CLUSTER_EOF"
  by (cases fs) (simp_all add: stored_link_def CLUSTER_EOF_def)

lemma stored_link_FREE [simp]: "fs \<noteq> FS_UNKNOWN \<Longrightarrow> stored_link fs CLUSTER_FREE = CLUSTER_FREE"
  by (cases fs) (simp_all add: stored_link_def CLUSTER_FREE_def)

lemma and_mask_small: "unat (x :: u32) < 2 ^ n \<Longrightarrow> x AND mask n = x"
  by (simp add: word_unat_eq_iff take_bit_nat_eq_self flip: take_bit_eq_mask, simp add: unsigned_take_bit_eq take_bit_nat_eq_self)

lemma stored_link_cluster:
  assumes "x < end_mark fs"
  shows "stored_link fs x = x"
proof -
  have "x AND entry_mask fs = x"
  proof (cases fs)
    case FS_FAT12
    then show ?thesis using assms and_mask_small [of x 12]
      by (simp add: word_less_nat_alt mask_eq_exp_minus_1)
  next
    case FS_FAT16
    then show ?thesis using assms and_mask_small [of x 16]
      by (simp add: word_less_nat_alt mask_eq_exp_minus_1)
  qed (use assms in auto)
  then show ?thesis using assms by (auto simp: stored_link_def)
qed


end
