(* ===== verification/FatChain.thy ===== *)
theory FatChain
  imports FatCorrect
begin

text \<open>
  Chains of clusters: what \<open>FAT_fat_lastCluster\<close>, \<open>FAT_fat_clearLinks\<close>, \<open>FAT_fat_trimChain\<close>,
  \<open>FAT_fat_freeClusterCount\<close>, \<open>FAT_fat_linkFreeCluster\<close> and
  \<open>FAT_fat_linkFreeClusterCleared\<close> return and how they change the links of the table. Each
  lemma includes that the operation returns.
\<close>

section \<open>Paths through the table\<close>

fun path :: "(u32 \<Rightarrow> u32) \<Rightarrow> u32 \<Rightarrow> u32 list \<Rightarrow> u32 \<Rightarrow> bool" where
  "path nx x [] e \<longleftrightarrow> x = e"
| "path nx x (y # ys) e \<longleftrightarrow> x = y \<and> path nx (nx x) ys e"

text \<open>The clusters \<open>cs\<close> of a chain that starts at \<open>x\<close> and ends with the mark \<open>e\<close>.\<close>

definition chain :: "(u32 \<Rightarrow> u32) \<Rightarrow> u32 \<Rightarrow> u32 \<Rightarrow> u32 list \<Rightarrow> u32 \<Rightarrow> bool" where
  "chain nx lc x cs e \<longleftrightarrow> path nx x cs e \<and> distinct cs \<and>
     (\<forall>y \<in> set cs. CLUSTER_FIRST \<le> y \<and> y \<le> lc) \<and> (e = CLUSTER_FREE \<or> e = CLUSTER_EOF)"

lemma path_cong: "(\<And>y. y \<in> set cs \<Longrightarrow> nx y = nx' y) \<Longrightarrow> path nx x cs e = path nx' x cs e"
  by (induction cs arbitrary: x) auto

lemma path_append: "path nx x (as @ bs) e \<longleftrightarrow> (\<exists>m. path nx x as m \<and> path nx m bs e)"
  by (induction as arbitrary: x) auto

lemma chain_Cons:
  "chain nx lc x (y # ys) e \<longleftrightarrow> x = y \<and> CLUSTER_FIRST \<le> y \<and> y \<le> lc \<and> y \<notin> set ys \<and> chain nx lc (nx y) ys e"
  by (auto simp: chain_def)

lemma chain_Nil: "chain nx lc x [] e \<longleftrightarrow> x = e \<and> (e = CLUSTER_FREE \<or> e = CLUSTER_EOF)"
  by (auto simp: chain_def)

lemma chain_cong:
  "chain nx lc x cs e \<Longrightarrow> (\<And>y. y \<in> set cs \<Longrightarrow> nx y = nx' y) \<Longrightarrow> chain nx' lc x cs e"
  using path_cong [of cs nx nx'] by (auto simp: chain_def)

lemma first_not_mark: "CLUSTER_FIRST \<le> x \<Longrightarrow> x \<noteq> CLUSTER_FREE"
  by (auto simp: cluster_consts)

context disc_device begin

lemma not_mark:
  assumes "finv p" "x \<le> lastCluster (fat p)"
  shows "x \<noteq> CLUSTER_EOF" "x \<noteq> CLUSTER_ERROR"
proof -
  have "unat x < 0x0FFFFFF7" by (rule cluster_bound(2) [OF entry_ok_le [OF assms]])
  then show "x \<noteq> CLUSTER_EOF" "x \<noteq> CLUSTER_ERROR" by (auto simp: cluster_consts)
qed

lemma chain_next:
  assumes "finv p" "chain nx (lastCluster (fat p)) x cs e"
  shows "x = CLUSTER_FREE \<or> x = CLUSTER_EOF \<longleftrightarrow> cs = []"
  using assms first_not_mark not_mark by (cases cs) (auto simp: chain_Cons chain_Nil)

text \<open>Reading a link of the table, any number of times, changes nothing.\<close>

lemma next_step:
  assumes "finv p" "fstep p ff L p'" "CLUSTER_FIRST \<le> x" "x \<le> lastCluster (fat p)"
  obtains p'' where "FAT_fat_nextCluster p' x = Some (L x, p'')" "fstep p ff L p''"
proof -
  note d = fat_stepD [OF assms(2)]
  have i: "finv p'" by (rule fat_step_inv [OF assms(2,1)])
  obtain p'' where n: "FAT_fat_nextCluster p' x = Some (flink p' x, p'')"
    "fstep p' (firstFree (fat p')) (flink p') p''"
    by (rule nextCluster_ok [OF i entry_ok_le [OF i] first_not_mark]) (use assms d in auto)
  have "fstep p ff L p''"
    using fat_step_cong [OF fat_step_trans [OF assms(2) n(2)], of L] d by simp
  with n d(8) [OF assms(4)] show thesis by (intro that) simp_all
qed

lemma write_step:
  assumes "finv p" "fstep p ff L p'" "CLUSTER_FIRST \<le> x" "x \<le> lastCluster (fat p)"
    and "stored_link (filesysType p) v = v"
  obtains p'' where "FAT_fat_writeFatEntry p' x v = Some (True, p'')" "fstep p ff (L(x := v)) p''"
proof -
  note d = fat_stepD [OF assms(2)]
  have i: "finv p'" by (rule fat_step_inv [OF assms(2,1)])
  obtain p'' where n: "FAT_fat_writeFatEntry p' x v = Some (True, p'')"
    "fstep p' (firstFree (fat p')) ((flink p')(x := stored_link (filesysType p') v)) p''"
    by (rule writeFatEntry_ok [OF i assms(3), of v]) (use assms d in auto)
  have "fstep p ff (L(x := v)) p''"
    using fat_step_cong [OF fat_step_trans [OF assms(2) n(2)], of "L(x := v)"] d assms(5) by simp
  with n show thesis by (intro that)
qed

lemma known_type: "finv p \<Longrightarrow> filesysType p \<noteq> FS_UNKNOWN"
  by (simp add: fat_inv_def fat_geometry_def)

section \<open>The last cluster of a chain\<close>

lemma lastCluster_step:
  assumes "finv p" "fstep p ff (flink p) p'" "chain (flink p) (lastCluster (fat p)) x cs e" "cs \<noteq> []"
  shows "\<exists>p''. FAT_fat_lastCluster p' x = Some (last cs, p'') \<and> fstep p ff (flink p) p''"
  using assms(2-4)
proof (induction cs arbitrary: x p')
  case (Cons y ys)
  then have x: "x = y" "CLUSTER_FIRST \<le> x" "x \<le> lastCluster (fat p)"
    "chain (flink p) (lastCluster (fat p)) (flink p x) ys e"
    by (auto simp: chain_Cons)
  obtain p1 where p1: "FAT_fat_nextCluster p' x = Some (flink p x, p1)" "fstep p ff (flink p) p1"
    by (rule next_step [OF assms(1) Cons.prems(1) x(2,3)])
  obtain p2 where p2: "FAT_fat_nextCluster p1 x = Some (flink p x, p2)" "fstep p ff (flink p) p2"
    by (rule next_step [OF assms(1) p1(2) x(2,3)])
  obtain p3 where p3: "FAT_fat_nextCluster p2 x = Some (flink p x, p3)" "fstep p ff (flink p) p3"
    by (rule next_step [OF assms(1) p2(2) x(2,3)])
  note m = chain_next [OF assms(1) x(4)]
  show ?case
  proof (cases "ys = []")
    case True
    then show ?thesis
      using m p1 p2 x by (subst FAT_fat_lastCluster.simps) auto
  next
    case False
    then show ?thesis
      using m p1 p2 p3 Cons.IH [OF p3(2) x(4) False] by (subst FAT_fat_lastCluster.simps) simp
  qed
qed simp

lemma lastCluster_ok:
  assumes "finv p" "chain (flink p) (lastCluster (fat p)) x cs e" "cs \<noteq> []"
  obtains p' where "FAT_fat_lastCluster p x = Some (last cs, p')"
    "fstep p (firstFree (fat p)) (flink p) p'"
  using lastCluster_step [OF assms(1) fat_step_refl [OF assms(1)] assms(2,3)] by blast

end

section \<open>Freeing a chain\<close>

lemma path_last: "path nx x as m \<Longrightarrow> as \<noteq> [] \<Longrightarrow> m = nx (last as)"
  by (induction as arbitrary: x) (auto split: if_splits)

lemma chain_drop: "chain nx lc x (as @ bs) e \<Longrightarrow> as \<noteq> [] \<Longrightarrow> chain nx lc (nx (last as)) bs e"
  using path_last [of nx x as] by (auto simp: chain_def path_append)

definition freed :: "u32 list \<Rightarrow> (u32 \<Rightarrow> u32) \<Rightarrow> u32 \<Rightarrow> u32" where
  "freed cs L y = (if y \<in> set cs then CLUSTER_FREE else L y)"

definition lower_hint :: "u32 \<Rightarrow> u32 \<Rightarrow> u32" where
  "lower_hint x ff = (if x < ff then x else ff)"

lemma freed_simps [simp]: "freed [] L = L" "freed ys (L(y := CLUSTER_FREE)) = freed (y # ys) L"
  by (auto simp: freed_def fun_eq_iff)

context disc_device begin

lemma clearLinks_step:
  assumes "finv p" "fstep p ff L p'" "chain L (lastCluster (fat p)) x cs e"
  shows "\<exists>p''. clearLinks_loop x p' = Some p'' \<and> fstep p ff (freed cs L) p''"
  using assms(2,3)
proof (induction cs arbitrary: x p' L)
  case Nil
  then show ?case
    by (subst clearLinks_loop.simps) (auto simp: chain_Nil)
next
  case (Cons y ys)
  then have x: "x = y" "CLUSTER_FIRST \<le> x" "x \<le> lastCluster (fat p)" "y \<notin> set ys"
    "chain L (lastCluster (fat p)) (L x) ys e"
    by (auto simp: chain_Cons)
  obtain p1 where p1: "FAT_fat_nextCluster p' x = Some (L x, p1)" "fstep p ff L p1"
    by (rule next_step [OF assms(1) Cons.prems(1) x(2,3)])
  obtain p2 where p2: "FAT_fat_writeFatEntry p1 x CLUSTER_FREE = Some (True, p2)"
    "fstep p ff (L(x := CLUSTER_FREE)) p2"
    by (rule write_step [OF assms(1) p1(2) x(2,3), of CLUSTER_FREE]) (simp_all add: known_type [OF assms(1)])
  have "chain (L(x := CLUSTER_FREE)) (lastCluster (fat p)) (L x) ys e"
    by (rule chain_cong [OF x(5)]) (use x in auto)
  moreover have "freed ys (L(x := CLUSTER_FREE)) = freed (y # ys) L" using x(1) by simp
  ultimately obtain p3 where "clearLinks_loop (L x) p2 = Some p3" "fstep p ff (freed (y # ys) L) p3"
    using Cons.IH [OF p2(2)] by metis
  then show ?case
    using p1(1) p2(1) x(2,3) first_not_mark not_mark [OF assms(1)]
    by (subst clearLinks_loop.simps) simp
qed

lemma clearLinks_from:
  assumes "finv p" "fstep p ff L p'" "chain L (lastCluster (fat p)) x cs e" "cs \<noteq> []"
  obtains p'' where "FAT_fat_clearLinks p' x = Some (True, p'')"
    "fstep p (lower_hint x ff) (freed cs L) p''"
proof -
  have x: "CLUSTER_FIRST \<le> x" "x \<le> lastCluster (fat p)"
    using assms(3,4) by (cases cs; auto simp: chain_Cons)+
  define p1 where "p1 = (if x < firstFree (fat p') then set_firstFree x p' else p')"
  note d = fat_stepD [OF assms(2)]
  have "fstep p (lower_hint x ff) L p1"
    using fat_step_hint [OF assms(2), of x] assms(2) d(5) by (simp add: p1_def lower_hint_def)
  from clearLinks_step [OF assms(1) this assms(3)] obtain p'' where
    "clearLinks_loop x p1 = Some p''" "fstep p (lower_hint x ff) (freed cs L) p''" by blast
  then show thesis
    using x d(6) by (intro that) (auto simp: FAT_fat_clearLinks_def p1_def)
qed

text \<open>\<open>FAT_fat_clearLinks\<close> frees the clusters of the chain and no others.\<close>

lemma clearLinks_ok:
  assumes "finv p" "chain (flink p) (lastCluster (fat p)) x cs e" "cs \<noteq> []"
  obtains p' where "FAT_fat_clearLinks p x = Some (True, p')"
    "fstep p (lower_hint x (firstFree (fat p))) (freed cs (flink p)) p'"
  using clearLinks_from [OF assms(1) fat_step_refl [OF assms(1)] assms(2,3)] by blast

text \<open>The loop of \<open>FAT_fat_trimChain\<close> walks \<open>n\<close> clusters on, or to the end of the chain.\<close>

lemma trimChain_step:
  assumes "finv p" "fstep p ff (flink p) p'" "chain (flink p) (lastCluster (fat p)) x (x # ys) e"
  shows "\<exists>p''. trimChain_loop n x (flink p x) p' =
      Some (last (x # take (unat n) ys), flink p (last (x # take (unat n) ys)), p'') \<and>
    fstep p ff (flink p) p''"
  using assms(2,3)
proof (induction ys arbitrary: x n p')
  case Nil
  then have "flink p x = e" "e = CLUSTER_FREE \<or> e = CLUSTER_EOF"
    by (auto simp: chain_Cons chain_Nil)
  then show ?case using Nil.prems(1) by (subst trimChain_loop.simps) auto
next
  case (Cons y ys)
  show ?case
  proof (cases "n = 0")
    case True
    then show ?thesis using Cons.prems(1) by (subst trimChain_loop.simps) simp
  next
    case False
    have y: "flink p x = y" "CLUSTER_FIRST \<le> y" "y \<le> lastCluster (fat p)"
      "chain (flink p) (lastCluster (fat p)) y (y # ys) e"
      using Cons.prems(2) by (auto simp: chain_Cons)
    obtain p1 where p1: "FAT_fat_nextCluster p' y = Some (flink p y, p1)" "fstep p ff (flink p) p1"
      by (rule next_step [OF assms(1) Cons.prems(1) y(2,3)])
    have "unat n = Suc (unat (n - 1))" using False
      by (metis unat_minus_one Suc_pred' unat_gt_0)
    then show ?thesis
      using Cons.IH [OF p1(2) y(4), of "n - 1"] p1(1) y(1-3) False first_not_mark [OF y(2)]
        not_mark(1) [OF assms(1) y(3)]
      by (subst trimChain_loop.simps) (auto simp: word_gt_0)
  qed
qed

text \<open>
  \<open>FAT_fat_trimChain\<close> keeps the first \<open>n\<close> clusters of the chain, ends it there, frees the
  others and returns the last cluster kept.
\<close>

lemma trimChain_ok:
  assumes inv: "finv p" and ch: "chain (flink p) (lastCluster (fat p)) x cs e" "cs \<noteq> []" and n: "n \<noteq> 0"
  defines "kept \<equiv> take (unat n) cs" and "dropped \<equiv> drop (unat n) cs"
  obtains ff p' where "FAT_fat_trimChain p x n = Some (last kept, p')"
    "fstep p ff ((freed dropped (flink p))(last kept := CLUSTER_EOF)) p'"
    "ff = (if dropped = [] then firstFree (fat p) else lower_hint (hd dropped) (firstFree (fat p)))"
proof -
  let ?lc = "lastCluster (fat p)"
  obtain ys where cs: "cs = x # ys" using ch by (cases cs) (auto simp: chain_Cons)
  have x: "CLUSTER_FIRST \<le> x" "x \<le> ?lc" using ch by (auto simp: cs chain_Cons)
  have un: "unat n = Suc (unat (n - 1))" using n by (metis unat_minus_one Suc_pred' unat_gt_0)
  have kept: "kept = x # take (unat (n - 1)) ys" by (simp add: kept_def cs un)
  have split: "cs = kept @ dropped" by (simp add: kept_def dropped_def)
  have l: "last kept \<in> set cs" using split kept by simp
  then have lr: "CLUSTER_FIRST \<le> last kept" "last kept \<le> ?lc" using ch by (auto simp: chain_def)
  obtain p1 where p1: "FAT_fat_nextCluster p x = Some (flink p x, p1)"
    "fstep p (firstFree (fat p)) (flink p) p1"
    by (rule next_step [OF inv fat_step_refl [OF inv] x])
  obtain p2 where p2: "trimChain_loop (n - 1) x (flink p x) p1 =
      Some (last kept, flink p (last kept), p2)" "fstep p (firstFree (fat p)) (flink p) p2"
    using trimChain_step [OF inv p1(2), of x ys e "n - 1"] ch kept by (auto simp: cs)
  have rest: "chain (flink p) ?lc (flink p (last kept)) dropped e"
    by (rule chain_drop) (use ch(1) split kept in auto)
  show thesis
  proof (cases "dropped = []")
    case True
    then have m: "flink p (last kept) = CLUSTER_FREE \<or> flink p (last kept) = CLUSTER_EOF"
      using rest by (auto simp: chain_Nil)
    obtain p3 where "FAT_fat_writeFatEntry p2 (last kept) CLUSTER_EOF = Some (True, p3)"
      "fstep p (firstFree (fat p)) ((flink p)(last kept := CLUSTER_EOF)) p3"
      by (rule write_step [OF inv p2(2) lr, of CLUSTER_EOF]) (simp_all add: known_type [OF inv])
    with True m n p1(1) p2(1) show thesis
      by (intro that [of p3 "firstFree (fat p)"]) (auto simp: FAT_fat_trimChain_def)
  next
    case False
    then obtain d ds where ds: "dropped = d # ds" by (cases dropped) auto
    with rest have d: "flink p (last kept) = d" by (simp add: chain_Cons)
    obtain p3 where p3: "FAT_fat_clearLinks p2 d = Some (True, p3)"
      "fstep p (lower_hint d (firstFree (fat p))) (freed dropped (flink p)) p3"
      by (rule clearLinks_from [OF inv p2(2) rest [unfolded d] False])
    obtain p4 where p4: "FAT_fat_writeFatEntry p3 (last kept) CLUSTER_EOF = Some (True, p4)"
      "fstep p (lower_hint d (firstFree (fat p))) ((freed dropped (flink p))(last kept := CLUSTER_EOF)) p4"
      by (rule write_step [OF inv p3(2) lr, of CLUSTER_EOF]) (simp_all add: known_type [OF inv])
    have "d \<noteq> CLUSTER_FREE" "d \<noteq> CLUSTER_EOF"
      using rest d ds first_not_mark not_mark(1) [OF inv] by (auto simp: chain_Cons)
    with ds d n p1(1) p2(1) p3(1) p4 show thesis
      by (intro that [of p4 "lower_hint d (firstFree (fat p))"]) (auto simp: FAT_fat_trimChain_def)
  qed
qed

lemma trimChain_all:
  assumes "finv p" "chain (flink p) (lastCluster (fat p)) x cs e" "cs \<noteq> []"
  obtains p' where "FAT_fat_trimChain p x 0 = Some (CLUSTER_FREE, p')"
    "fstep p (lower_hint x (firstFree (fat p))) (freed cs (flink p)) p'"
  by (rule clearLinks_ok [OF assms]) (auto simp: FAT_fat_trimChain_def)

end


section \<open>Counting free clusters\<close>

definition free_clusters :: "(u32 \<Rightarrow> u32) \<Rightarrow> u32 \<Rightarrow> u32 \<Rightarrow> u32 set" where
  "free_clusters nx lo hi = {y. lo \<le> y \<and> y \<le> hi \<and> nx y = CLUSTER_FREE}"

lemma finite_free [simp]: "finite (free_clusters nx lo hi)"
  by simp

lemma unat_next: "unat (x :: u32) < 2 ^ 32 - 1 \<Longrightarrow> unat (x + 1) = unat x + 1"
  using unat_add_u32 [of x 1] by simp

lemma free_clusters_step:
  assumes "lo \<le> hi" "unat hi < 2 ^ 32 - 1"
  shows "free_clusters nx lo hi =
    (if nx lo = CLUSTER_FREE then insert lo (free_clusters nx (lo + 1) hi) else free_clusters nx (lo + 1) hi)"
    and "lo \<notin> free_clusters nx (lo + 1) hi"
proof -
  have lo: "unat (lo + 1) = unat lo + 1"
    using assms by (intro unat_next) (simp add: word_le_nat_alt)
  have *: "lo + 1 \<le> y \<longleftrightarrow> lo \<le> y \<and> y \<noteq> lo" for y
    unfolding word_le_nat_alt lo by (auto simp: word_unat_eq_iff)
  then show "lo \<notin> free_clusters nx (lo + 1) hi" by (simp add: free_clusters_def)
  show "free_clusters nx lo hi =
    (if nx lo = CLUSTER_FREE then insert lo (free_clusters nx (lo + 1) hi) else free_clusters nx (lo + 1) hi)"
    using assms(1) * by (auto simp: free_clusters_def)
qed

context disc_device begin

lemma last_bound: "finv p \<Longrightarrow> unat (lastCluster (fat p)) < 0x0FFFFFF7"
  using cluster_bound(2) [OF entry_ok_le] by blast

lemma freeClusterCount_step:
  assumes inv: "finv p"
  shows "fstep p ff (flink p) p' \<Longrightarrow> CLUSTER_FIRST \<le> x \<Longrightarrow> unat x \<le> unat (lastCluster (fat p)) + 1 \<Longrightarrow>
    \<exists>p''. freeClusterCount_loop x cnt p' =
      Some (cnt + of_nat (card (free_clusters (flink p) x (lastCluster (fat p)))), p'') \<and>
    fstep p ff (flink p) p''"
proof (induction "unat (lastCluster (fat p)) + 1 - unat x" arbitrary: x cnt p')
  case 0
  then have "\<not> x \<le> lastCluster (fat p)" by (simp add: word_le_nat_alt)
  moreover from this have "free_clusters (flink p) x (lastCluster (fat p)) = {}"
    by (auto simp: free_clusters_def)
  ultimately show ?case
    using 0(2) fat_stepD(6) [OF 0(2)] by (subst freeClusterCount_loop.simps) simp
next
  case (Suc k)
  note b = last_bound [OF inv]
  have x: "x \<le> lastCluster (fat p)" using Suc.hyps(2) by (simp add: word_le_nat_alt)
  then have x1: "unat (x + 1) = unat x + 1"
    using b by (intro unat_next) (simp add: word_le_nat_alt)
  obtain p1 where p1: "FAT_fat_nextCluster p' x = Some (flink p x, p1)" "fstep p ff (flink p) p1"
    by (rule next_step [OF inv Suc.prems(1,2) x])
  let ?cnt = "if flink p x = CLUSTER_FREE then cnt + 1 else cnt"
  have "k = unat (lastCluster (fat p)) + 1 - unat (x + 1)" "CLUSTER_FIRST \<le> x + 1"
    "unat (x + 1) \<le> unat (lastCluster (fat p)) + 1"
    using Suc.hyps(2) Suc.prems(2) x x1 by (simp_all add: word_le_nat_alt)
  from Suc.hyps(1) [OF this(1) p1(2) this(2,3), of ?cnt] obtain p2 where p2:
    "freeClusterCount_loop (x + 1) ?cnt p1 =
      Some (?cnt + of_nat (card (free_clusters (flink p) (x + 1) (lastCluster (fat p)))), p2)"
    "fstep p ff (flink p) p2" by blast
  have "?cnt + of_nat (card (free_clusters (flink p) (x + 1) (lastCluster (fat p)))) =
      cnt + of_nat (card (free_clusters (flink p) x (lastCluster (fat p))))"
    using free_clusters_step [OF x, of "flink p"] b by simp
  then show ?case
    using p1(1) p2 x fat_stepD(6) [OF Suc.prems(1)] by (subst freeClusterCount_loop.simps) simp
qed

text \<open>The count is exact: a volume has fewer than \<open>2 ^ 32\<close> clusters.\<close>

lemma freeClusterCount_ok:
  assumes inv: "finv p"
  obtains r p' where "FAT_fat_freeClusterCount p = Some (r, p')"
    "unat r = card (free_clusters (flink p) CLUSTER_FIRST (lastCluster (fat p)))"
    "fstep p (firstFree (fat p)) (flink p) p'"
proof -
  let ?F = "free_clusters (flink p) CLUSTER_FIRST (lastCluster (fat p))"
  have "CLUSTER_FIRST \<le> lastCluster (fat p)" "2 \<le> lastCluster (fat p)"
    using inv by (simp_all add: fat_inv_def fat_geometry_def CLUSTER_FIRST_def)
  with freeClusterCount_step [OF inv fat_step_refl [OF inv], of CLUSTER_FIRST 0] obtain p' where
    p': "FAT_fat_freeClusterCount p = Some (of_nat (card ?F), p')" "fstep p (firstFree (fat p)) (flink p) p'"
    by (auto simp: FAT_fat_freeClusterCount_def word_le_nat_alt)
  have "unat ` ?F \<subseteq> {..unat (lastCluster (fat p))}"
    by (auto simp: free_clusters_def word_le_nat_alt)
  then have "card (unat ` ?F) \<le> unat (lastCluster (fat p)) + 1"
    using card_mono [of "{..unat (lastCluster (fat p))}"] by fastforce
  moreover have "card (unat ` ?F) = card ?F" by (rule card_image) (auto simp: inj_on_def word_unat_eq_iff)
  ultimately have "card ?F < 2 ^ 32" using last_bound [OF inv] by simp
  then have "unat (of_nat (card ?F) :: u32) = card ?F" by (intro of_nat_inverse [OF refl]) simp
  then show thesis using p' by (intro that)
qed

section \<open>Allocating a cluster\<close>

text \<open>The search from \<open>x\<close> on finds a free cluster, or has seen that there is none.\<close>

lemma findFree_second:
  assumes inv: "finv p"
  shows "fstep p ff (flink p) p' \<Longrightarrow> CLUSTER_FIRST \<le> x \<Longrightarrow> x \<le> lastCluster (fat p) \<Longrightarrow>
    (\<exists>y p''. findFree_loop x True p' = Some (True, y, p'') \<and> x \<le> y \<and> y \<le> lastCluster (fat p) \<and>
      flink p y = CLUSTER_FREE \<and> fstep p ff (flink p) p'') \<or>
    (\<exists>p''. findFree_loop x True p' = Some (False, lastCluster (fat p) + 1, p'') \<and>
      free_clusters (flink p) x (lastCluster (fat p)) = {} \<and>
      fstep p (lastCluster (fat p) + 1) (flink p) p'')"
proof (induction "unat (lastCluster (fat p)) - unat x" arbitrary: x p' rule: less_induct)
  case less
  note b = last_bound [OF inv]
  have x1: "unat (x + 1) = unat x + 1"
    using b less.prems(3) by (intro unat_next) (simp add: word_le_nat_alt)
  obtain p1 where p1: "FAT_fat_nextCluster p' x = Some (flink p x, p1)" "fstep p ff (flink p) p1"
    by (rule next_step [OF inv less.prems])
  note l = fat_stepD(6) [OF p1(2)]
  note step = free_clusters_step(1) [OF less.prems(3), of "flink p"]
  show ?case
  proof (cases "flink p x = CLUSTER_FREE")
    case True
    then have "findFree_loop x True p' = Some (True, x, p1)"
      using p1(1) by (subst findFree_loop.simps) simp
    with True p1(2) less.prems(3) show ?thesis by blast
  next
    case nf: False
    show ?thesis
    proof (cases "x = lastCluster (fat p)")
      case True
      have "free_clusters (flink p) x x = {}" using nf by (auto simp: free_clusters_def)
      moreover have "x < x + 1" using x1 by (simp add: word_less_nat_alt)
      then have "findFree_loop x True p' = Some (False, x + 1, set_firstFree (x + 1) p1)"
        using p1(1) nf True l by (subst findFree_loop.simps) (simp add: Let_def)
      ultimately show ?thesis using fat_step_hint [OF p1(2), of "x + 1"] True by blast
    next
      case False
      then have "unat x < unat (lastCluster (fat p))"
        using less.prems(3) by (metis le_neq_trans word_less_nat_alt)
      then have n: "unat (lastCluster (fat p)) - unat (x + 1) < unat (lastCluster (fat p)) - unat x"
        "CLUSTER_FIRST \<le> x + 1" "x + 1 \<le> lastCluster (fat p)" "x \<le> x + 1"
        using less.prems(2) x1 by (simp_all add: word_le_nat_alt)
      have "findFree_loop x True p' = findFree_loop (x + 1) True p1"
        using p1(1) nf n(3) l by (subst findFree_loop.simps) (auto simp: Let_def)
      moreover have "x \<le> y" if "x + 1 \<le> y" for y using that n(4) by simp
      ultimately show ?thesis
        using less.hyps [OF n(1) p1(2) n(2,3)] step nf b by auto
    qed
  qed
qed

lemma findFree_first:
  assumes inv: "finv p"
  shows "fstep p ff (flink p) p' \<Longrightarrow> CLUSTER_FIRST \<le> x \<Longrightarrow> x \<le> lastCluster (fat p) \<Longrightarrow>
    (\<exists>y p''. findFree_loop x False p' = Some (True, y, p'') \<and> CLUSTER_FIRST \<le> y \<and>
      y \<le> lastCluster (fat p) \<and> flink p y = CLUSTER_FREE \<and> fstep p ff (flink p) p'') \<or>
    (\<exists>p''. findFree_loop x False p' = Some (False, lastCluster (fat p) + 1, p'') \<and>
      free_clusters (flink p) CLUSTER_FIRST (lastCluster (fat p)) = {} \<and>
      fstep p (lastCluster (fat p) + 1) (flink p) p'')"
proof (induction "unat (lastCluster (fat p)) - unat x" arbitrary: x p' rule: less_induct)
  case less
  note b = last_bound [OF inv]
  have x1: "unat (x + 1) = unat x + 1"
    using b less.prems(3) by (intro unat_next) (simp add: word_le_nat_alt)
  obtain p1 where p1: "FAT_fat_nextCluster p' x = Some (flink p x, p1)" "fstep p ff (flink p) p1"
    by (rule next_step [OF inv less.prems])
  note l = fat_stepD(6) [OF p1(2)]
  consider "flink p x = CLUSTER_FREE" | "flink p x \<noteq> CLUSTER_FREE" "x = lastCluster (fat p)"
    | "flink p x \<noteq> CLUSTER_FREE" "x < lastCluster (fat p)"
    using less.prems(3) by fastforce
  then show ?case
  proof cases
    case 1
    then have "findFree_loop x False p' = Some (True, x, p1)"
      using p1(1) by (subst findFree_loop.simps) simp
    with 1 p1(2) less.prems show ?thesis by blast
  next
    case 2
    have "x < x + 1" using x1 by (simp add: word_less_nat_alt)
    then have "findFree_loop x False p' = findFree_loop CLUSTER_FIRST True p1"
      using p1(1) 2 l by (subst findFree_loop.simps) (simp add: Let_def)
    moreover have "CLUSTER_FIRST \<le> lastCluster (fat p)" using less.prems(2,3) by simp
    ultimately show ?thesis using findFree_second [OF inv p1(2) order_refl] by auto
  next
    case 3
    then have n: "unat (lastCluster (fat p)) - unat (x + 1) < unat (lastCluster (fat p)) - unat x"
      "CLUSTER_FIRST \<le> x + 1" "x + 1 \<le> lastCluster (fat p)"
      using less.prems(2) x1 by (simp_all add: word_le_nat_alt word_less_nat_alt)
    have "findFree_loop x False p' = findFree_loop (x + 1) False p1"
      using p1(1) 3 n(3) l by (subst findFree_loop.simps) (auto simp: Let_def)
    then show ?thesis using less.hyps [OF n(1) p1(2) n(2,3)] by simp
  qed
qed

end

text \<open>
  The links after cluster \<open>y\<close> has been allocated behind \<open>x\<close>: as it is meant, \<open>linked_behind\<close>, and as the code
  does it, which leaves out the link of the last cluster of the volume (\<open>cluster < lastCluster\<close>).
\<close>

definition linked_behind :: "u32 \<Rightarrow> u32 \<Rightarrow> (u32 \<Rightarrow> u32) \<Rightarrow> u32 \<Rightarrow> u32" where
  "linked_behind x y L =
     (if CLUSTER_FIRST \<le> x then (L(x := y))(y := CLUSTER_EOF) else L(y := CLUSTER_EOF))"

definition allocated :: "u32 \<Rightarrow> u32 \<Rightarrow> u32 \<Rightarrow> (u32 \<Rightarrow> u32) \<Rightarrow> u32 \<Rightarrow> u32" where
  "allocated lc x y L =
     (if CLUSTER_FIRST \<le> x \<and> x < lc then (L(x := y))(y := CLUSTER_EOF) else L(y := CLUSTER_EOF))"

lemma allocated_linked:
  "x < lc \<Longrightarrow> allocated lc x y L = linked_behind x y L"
  "allocated lc lc y L = L(y := CLUSTER_EOF)"
  by (simp_all add: allocated_def linked_behind_def)

context disc_device begin

lemma linkFree_existing:
  assumes inv: "finv p" and x: "x \<le> lastCluster (fat p)" "x \<noteq> CLUSTER_FREE"
    and link: "CLUSTER_FIRST \<le> flink p x" "flink p x \<le> lastCluster (fat p)"
  obtains p' where "FAT_fat_linkFreeCluster p x = Some (flink p x, p')"
    "fstep p (firstFree (fat p)) (flink p) p'"
proof -
  obtain p1 where p1: "FAT_fat_nextCluster p x = Some (flink p x, p1)"
    "fstep p (firstFree (fat p)) (flink p) p1"
    by (rule nextCluster_ok [OF inv entry_ok_le [OF inv x(1)] x(2)])
  then show thesis using x link by (intro that) (auto simp: FAT_fat_linkFreeCluster_def Let_def)
qed

text \<open>The link that the code looks at first, whatever its argument is.\<close>

lemma curLink_step:
  assumes inv: "finv p" and x: "x \<le> lastCluster (fat p)"
  obtains p' where "FAT_fat_nextCluster p x = Some (if x = CLUSTER_FREE then CLUSTER_FREE else flink p x, p')"
    "fstep p (firstFree (fat p)) (flink p) p'"
proof (cases "x = CLUSTER_FREE")
  case True
  then show thesis using fat_step_refl [OF inv] by (intro that [of p]) (simp_all add: FAT_fat_nextCluster_def)
next
  case False
  then show thesis using that nextCluster_ok [OF inv entry_ok_le [OF inv x] False] by auto
qed

end


context disc_device begin

lemma linkFree_tail:
  assumes inv: "finv p" and x: "x \<le> lastCluster (fat p)"
    and link: "x = CLUSTER_FREE \<or> \<not> (CLUSTER_FIRST \<le> flink p x \<and> flink p x \<le> lastCluster (fat p))"
  obtains p1 where "fstep p (firstFree (fat p)) (flink p) p1"
    "FAT_fat_linkFreeCluster p x = do {
       (found, free, p) \<leftarrow> findFree_loop (if firstFree (fat p) < CLUSTER_FIRST then CLUSTER_FIRST
         else firstFree (fat p)) False p1;
       if \<not> found then Some (CLUSTER_ERROR, p)
       else do {
         let p = set_firstFree free p;
         (b, p) \<leftarrow> (if x \<ge> CLUSTER_FIRST \<and> x < lastCluster (fat p1)
                     then FAT_fat_writeFatEntry p x free else Some (True, p));
         (b, p) \<leftarrow> FAT_fat_writeFatEntry p free CLUSTER_EOF;
         Some (free, p) } }"
proof -
  obtain p1 where p1: "FAT_fat_nextCluster p x = Some (if x = CLUSTER_FREE then CLUSTER_FREE else flink p x, p1)"
    "fstep p (firstFree (fat p)) (flink p) p1"
    by (rule curLink_step [OF inv x])
  define l where "l = (if x = CLUSTER_FREE then CLUSTER_FREE else flink p x)"
  have "\<not> (CLUSTER_FIRST \<le> CLUSTER_FREE)" by (simp add: cluster_consts)
  then have neg: "\<not> (CLUSTER_FIRST \<le> l \<and> l \<le> lastCluster (fat p))"
    using link by (auto simp: l_def)
  have "\<not> lastCluster (fat p) < x" using x by simp
  then show thesis
    using p1(1) fat_stepD(5,6) [OF p1(2)]
    by (intro that [OF p1(2)])
      (simp add: FAT_fat_linkFreeCluster_def Let_def if_not_P [OF neg] flip: l_def split del: if_split cong del: if_weak_cong)
qed

lemma link_writes:
  assumes inv: "finv p" and st: "fstep p ff (flink p) p'"
    and y: "CLUSTER_FIRST \<le> y" "y \<le> lastCluster (fat p)"
  obtains p'' where
    "do { let p = set_firstFree y p';
          (b, p) \<leftarrow> (if x \<ge> CLUSTER_FIRST \<and> x < lastCluster (fat p')
                      then FAT_fat_writeFatEntry p x y else Some (True, p));
          (b, p) \<leftarrow> FAT_fat_writeFatEntry p y CLUSTER_EOF;
          Some (y, p) } = Some (y, p'')"
    "fstep p y (allocated (lastCluster (fat p)) x y (flink p)) p''"
proof -
  note h = fat_step_hint [OF st, of y]
  have sy: "stored_link (filesysType p) y = y"
    by (rule stored_link_cluster [OF cluster_bound(1) [OF entry_ok_le [OF inv y(2)]]])
  have se: "stored_link (filesysType p) CLUSTER_EOF = CLUSTER_EOF"
    by (rule stored_link_EOF [OF known_type [OF inv]])
  have lc: "lastCluster (fat p') = lastCluster (fat p)" by (rule fat_stepD(6) [OF st])
  show thesis
  proof (cases "CLUSTER_FIRST \<le> x \<and> x < lastCluster (fat p)")
    case True
    then have "x \<le> lastCluster (fat p)" by (auto intro: less_imp_le)
    then obtain p1 where p1: "FAT_fat_writeFatEntry (set_firstFree y p') x y = Some (True, p1)"
      "fstep p y ((flink p)(x := y)) p1"
      by (rule write_step [OF inv h conjunct1 [OF True] _ sy]) auto
    obtain p2 where p2: "FAT_fat_writeFatEntry p1 y CLUSTER_EOF = Some (True, p2)"
      "fstep p y (((flink p)(x := y))(y := CLUSTER_EOF)) p2"
      by (rule write_step [OF inv p1(2) y se])
    show thesis
      by (rule that [of p2]) (use p1(1) p2 True lc in \<open>simp_all add: allocated_def Let_def\<close>)
  next
    case False
    obtain p2 where p2: "FAT_fat_writeFatEntry (set_firstFree y p') y CLUSTER_EOF = Some (True, p2)"
      "fstep p y ((flink p)(y := CLUSTER_EOF)) p2"
      by (rule write_step [OF inv h y se])
    show thesis
      by (rule that [of p2]) (use p2 False lc in \<open>auto simp: allocated_def Let_def\<close>)
  qed
qed

text \<open>
  \<open>FAT_fat_linkFreeCluster\<close> for a cluster without a link: a free cluster is found, ended and
  linked, or there is none.
\<close>

lemma linkFree_new:
  assumes inv: "finv p" and x: "x \<le> lastCluster (fat p)"
    and link: "x = CLUSTER_FREE \<or> \<not> (CLUSTER_FIRST \<le> flink p x \<and> flink p x \<le> lastCluster (fat p))"
    and hint: "firstFree (fat p) \<le> lastCluster (fat p)"
  obtains (found) y p' where "FAT_fat_linkFreeCluster p x = Some (y, p')"
    "CLUSTER_FIRST \<le> y" "y \<le> lastCluster (fat p)" "flink p y = CLUSTER_FREE"
    "fstep p y (allocated (lastCluster (fat p)) x y (flink p)) p'"
  | (full) p' where "FAT_fat_linkFreeCluster p x = Some (CLUSTER_ERROR, p')"
    "free_clusters (flink p) CLUSTER_FIRST (lastCluster (fat p)) = {}"
    "fstep p (lastCluster (fat p) + 1) (flink p) p'"
proof -
  let ?s = "if firstFree (fat p) < CLUSTER_FIRST then CLUSTER_FIRST else firstFree (fat p)"
  obtain p1 where p1: "fstep p (firstFree (fat p)) (flink p) p1"
    "FAT_fat_linkFreeCluster p x = do {
       (found, free, p) \<leftarrow> findFree_loop ?s False p1;
       if \<not> found then Some (CLUSTER_ERROR, p)
       else do {
         let p = set_firstFree free p;
         (b, p) \<leftarrow> (if x \<ge> CLUSTER_FIRST \<and> x < lastCluster (fat p1)
                     then FAT_fat_writeFatEntry p x free else Some (True, p));
         (b, p) \<leftarrow> FAT_fat_writeFatEntry p free CLUSTER_EOF;
         Some (free, p) } }"
    by (rule linkFree_tail [OF inv x link])
  have "CLUSTER_FIRST \<le> ?s" "?s \<le> lastCluster (fat p)"
    using hint inv by (auto simp: fat_inv_def fat_geometry_def CLUSTER_FIRST_def)
  from findFree_first [OF inv p1(1) this] show thesis
  proof (elim disjE exE conjE)
    fix y p2
    assume y: "findFree_loop ?s False p1 = Some (True, y, p2)" "CLUSTER_FIRST \<le> y"
      "y \<le> lastCluster (fat p)" "flink p y = CLUSTER_FREE" "fstep p (firstFree (fat p)) (flink p) p2"
    have lc: "lastCluster (fat p2) = lastCluster (fat p1)"
      using fat_stepD(6) [OF y(5)] fat_stepD(6) [OF p1(1)] by simp
    obtain p3 where p3:
      "do { let p = set_firstFree y p2;
          (b, p) \<leftarrow> (if x \<ge> CLUSTER_FIRST \<and> x < lastCluster (fat p2)
                      then FAT_fat_writeFatEntry p x y else Some (True, p));
          (b, p) \<leftarrow> FAT_fat_writeFatEntry p y CLUSTER_EOF;
          Some (y, p) } = Some (y, p3)"
      "fstep p y (allocated (lastCluster (fat p)) x y (flink p)) p3"
      by (rule link_writes [OF inv y(5,2,3)])
    show thesis
      by (rule found [OF _ y(2-4) p3(2)])
        (use p1(2) y(1) p3(1) in \<open>simp add: lc split del: if_split\<close>)
  next
    fix p2
    assume "findFree_loop ?s False p1 = Some (False, lastCluster (fat p) + 1, p2)"
      "free_clusters (flink p) CLUSTER_FIRST (lastCluster (fat p)) = {}"
      "fstep p (lastCluster (fat p) + 1) (flink p) p2"
    then show thesis using p1(2) by (intro full [of p2]) simp_all
  qed
qed

text \<open>
  After a failed search the hint is one past the last cluster. When the table has room for
  one more entry and that entry is zero, the next allocation takes it: it returns a cluster
  that the volume does not have.
\<close>

lemma linkFree_stale:
  assumes inv: "finv p" and hint: "firstFree (fat p) = lastCluster (fat p) + 1"
    and slack: "entry_ok p (firstFree (fat p))" "flink p (firstFree (fat p)) = CLUSTER_FREE"
  obtains p' where "FAT_fat_linkFreeCluster p CLUSTER_FREE = Some (lastCluster (fat p) + 1, p')"
    "\<not> FAT_fat_isValidCluster p (lastCluster (fat p) + 1)"
proof -
  let ?y = "lastCluster (fat p) + 1"
  have y: "unat ?y = unat (lastCluster (fat p)) + 1"
    using last_bound [OF inv] by (intro unat_next) simp
  have "2 \<le> lastCluster (fat p)" using inv by (simp add: fat_inv_def fat_geometry_def)
  then have big: "lastCluster (fat p) < ?y" "\<not> ?y < CLUSTER_FIRST" "?y \<noteq> CLUSTER_FREE"
    "\<not> CLUSTER_FIRST \<le> CLUSTER_FREE" "\<not> lastCluster (fat p) < CLUSTER_FREE"
    using y by (auto simp: word_less_nat_alt word_le_nat_alt word_unat_eq_iff cluster_consts)
  obtain p1 where p1: "FAT_fat_nextCluster p ?y = Some (CLUSTER_FREE, p1)"
    "fstep p (firstFree (fat p)) (flink p) p1"
    using nextCluster_ok [OF inv slack(1)] big(3) slack(2) hint by metis
  have "findFree_loop ?y False p = Some (True, ?y, p1)"
    using p1(1) by (subst findFree_loop.simps) simp
  then have "FAT_fat_linkFreeCluster p CLUSTER_FREE = Some (?y, set_firstFree ?y p1)"
    using big hint fat_stepD(6) [OF p1(2)]
    by (simp add: FAT_fat_linkFreeCluster_def FAT_fat_nextCluster_def FAT_fat_writeFatEntry_def Let_def)
  then show thesis using big(1) by (intro that) (auto simp: FAT_fat_isValidCluster_def)
qed

end


section \<open>Allocating a cleared cluster\<close>

definition data_geometry :: "'d PARTITION \<Rightarrow> bool" where
  "data_geometry p \<longleftrightarrow> unat (fatStart (fat p)) + table_sectors p \<le> unat (dataStart p) \<and>
     unat (dataStart p) + (unat (lastCluster (fat p)) - 1) * unat (sectorsPerCluster p)
       \<le> unat (endOfPartition (cache p))"

definition cluster_sector :: "'d PARTITION \<Rightarrow> u32 \<Rightarrow> nat" where
  "cluster_sector p x = unat (dataStart p) + (unat x - 2) * unat (sectorsPerCluster p)"

text \<open>The sectors of a cluster lie in the partition and behind the table.\<close>

lemma cluster_sector_bounds:
  assumes "data_geometry p" "FAT_fat_isValidCluster p x"
  shows "unat (FAT_fat_clusterToSector p x) = cluster_sector p x"
    "cluster_sector p x + unat (sectorsPerCluster p) \<le> unat (endOfPartition (cache p))"
    "cluster_sector p x \<le> t \<Longrightarrow> \<not> in_fat p t"
proof -
  have x: "2 \<le> unat x" "unat x \<le> unat (lastCluster (fat p))" "CLUSTER_FIRST \<le> x"
    using assms(2) by (simp_all add: FAT_fat_isValidCluster_def word_le_nat_alt CLUSTER_FIRST_def)
  let ?m = "unat (sectorsPerCluster p)"
  have "(unat x - 2) * ?m + ?m = (unat x - 1) * ?m"
    using x(1) by (metis Suc_diff_Suc Suc_1 less_eq_Suc_le mult_Suc add.commute)
  moreover have "(unat x - 1) * ?m \<le> (unat (lastCluster (fat p)) - 1) * ?m"
    using x(2) by (intro mult_le_mono1) simp
  ultimately have le: "(unat x - 2) * ?m + ?m \<le> (unat (lastCluster (fat p)) - 1) * ?m" by simp
  with assms(1) show *: "cluster_sector p x + ?m \<le> unat (endOfPartition (cache p))"
    by (simp add: data_geometry_def cluster_sector_def)
  then have lt: "cluster_sector p x < 2 ^ 32 \<or> ?m = 0"
    using unat_lt_u32 [of "endOfPartition (cache p)"] by auto
  have d: "unat (x - CLUSTER_FIRST) = unat x - 2"
    using x(1) by (simp add: unat_sub_u32 CLUSTER_FIRST_def)
  have "unat ((x - CLUSTER_FIRST) * sectorsPerCluster p) = (unat x - 2) * ?m"
    using * unat_lt_u32 [of "endOfPartition (cache p)"]
    by (simp only: cluster_sector_def d [symmetric]) (rule unat_mult_u32, simp)
  then show "unat (FAT_fat_clusterToSector p x) = cluster_sector p x"
    using * x(3) unat_lt_u32 [of "endOfPartition (cache p)"]
    by (simp add: FAT_fat_clusterToSector_def cluster_sector_def unat_add_u32 add.commute)
  show "\<not> in_fat p t" if "cluster_sector p x \<le> t"
    using assms(1) that by (simp add: data_geometry_def cluster_sector_def in_fat_def)
qed

context disc_device begin

lemma clearCluster_ok:
  assumes "cinv (cache p)" "unat (FAT_fat_clusterToSector p x) + unat i + n \<le> unat (endOfPartition (cache p))"
  shows "\<exists>c. clearCluster_loop n i x p = Some (set_cache c p) \<and> cinv c \<and> same_frame nsec (cache p) c \<and>
    (\<forall>t < nsec (medium (cache p)). cview c t =
      (if unat (FAT_fat_clusterToSector p x) + unat i \<le> t \<and> t < unat (FAT_fat_clusterToSector p x) + unat i + n
       then replicate 512 0 else cview (cache p) t))"
  using assms
proof (induction n arbitrary: i p)
  case 0
  then show ?case by (intro exI [of _ "cache p"]) auto
next
  case (Suc n)
  let ?s = "FAT_fat_clusterToSector p x"
  note b = unat_lt_u32 [of "endOfPartition (cache p)"]
  have s: "unat (?s + i) = unat ?s + unat i" and i1: "unat (i + 1) = unat i + 1"
    using Suc.prems(2) b by (simp_all add: unat_add_u32 unat_next)
  have one: "unat (1 :: u32) = 1" by simp
  obtain c1 where c1: "FAT_cache_writeSectors (cache p) (?s + i) 1 (replicate BYTES_PER_READ 0) = Some (True, c1)"
    "cinv c1" "same_frame nsec (cache p) c1"
    "\<And>t. t < nsec (medium (cache p)) \<Longrightarrow> cview c1 t = (if unat (?s + i) \<le> t \<and> t < unat (?s + i) + 1
      then bslice (replicate BYTES_PER_READ 0) (512 * (t - unat (?s + i))) 512 else cview (cache p) t)"
    using writeSectors_loop_ok [OF Suc.prems(1), of "?s + i" 1 "replicate BYTES_PER_READ 0"] Suc.prems(2) s
    by (auto simp: FAT_cache_writeSectors_def BYTES_PER_READ_def)
  have cs: "FAT_fat_clusterToSector (set_cache c1 p) x = ?s"
    by (simp add: FAT_fat_clusterToSector_def)
  have e: "endOfPartition c1 = endOfPartition (cache p)" using c1(3) by (simp add: same_frame_def)
  have "unat (FAT_fat_clusterToSector (set_cache c1 p) x) + unat (i + 1) + n \<le>
      unat (endOfPartition (cache (set_cache c1 p)))"
    using Suc.prems(2) i1 cs e by simp
  with Suc.IH [of "set_cache c1 p" "i + 1"] c1(2) obtain c where
    c: "clearCluster_loop n (i + 1) x (set_cache c1 p) = Some (set_cache c p)" "cinv c" "same_frame nsec c1 c"
    "\<And>t. t < nsec (medium c1) \<Longrightarrow> cview c t = (if unat ?s + (unat i + 1) \<le> t \<and> t < unat ?s + (unat i + 1) + n
       then replicate 512 0 else cview c1 t)"
    by (auto simp: cs i1)
  have "cview c t = (if unat ?s + unat i \<le> t \<and> t < unat ?s + unat i + Suc n
      then replicate 512 0 else cview (cache p) t)" if t: "t < nsec (medium (cache p))" for t
  proof -
    have "bslice (replicate BYTES_PER_READ 0) 0 512 = (replicate 512 0 :: byte list)"
      by (simp add: bslice_def BYTES_PER_READ_def)
    then have "cview c1 t = (if t = unat ?s + unat i then replicate 512 0 else cview (cache p) t)"
      using c1(4) [OF t] by (auto simp: s)
    moreover have "t < nsec (medium c1)" using t c1(3) by (simp add: same_frame_def)
    ultimately show ?thesis using c(4) by auto
  qed
  then show ?case
    using c1(1) c(1,2) same_frame_trans [OF c1(3) c(3)] by (intro exI [of _ c]) simp
qed

text \<open>The links do not notice a change of other sectors.\<close>

lemma link_outside:
  assumes "\<And>t. in_fat p t \<Longrightarrow> cview c t = cview (cache p) t" "finv p" "x \<le> lastCluster (fat p)"
  shows "flink (set_cache c p) x = flink p x"
proof -
  have "raw_entry (filesysType p) (fbyte (set_cache c p)) (unat x) =
      raw_entry (filesysType p) (fbyte p) (unat x)"
  proof (rule raw_entry_cong)
    fix k
    assume "k < entry_pos (filesysType p) (unat x) + entry_len (filesysType p)"
    then have "in_fat p (unat (fatStart (fat p)) + k div 512)"
      using entry_room [OF assms(2,3)] by (simp add: in_fat_def)
    then show "fbyte (set_cache c p) k = fbyte p k"
      using assms(1) by (simp add: fat_view_def fat_bytes_def)
  qed
  then show ?thesis by (simp add: fat_link_def entry_link_def)
qed

lemma in_fat_room: "finv p \<Longrightarrow> in_fat p t \<Longrightarrow> t < nsec (medium (cache p))"
  using cinvD(2) [of "cache p"] by (auto simp: fat_inv_def fat_geometry_def in_fat_def)

lemma linkFreeClusterCleared_ok:
  assumes inv: "finv p" and geo: "data_geometry p" and x: "x \<le> lastCluster (fat p)"
    and link: "x = CLUSTER_FREE \<or> \<not> (CLUSTER_FIRST \<le> flink p x \<and> flink p x \<le> lastCluster (fat p))"
    and hint: "firstFree (fat p) \<le> lastCluster (fat p)"
  obtains (found) y p' where "FAT_fat_linkFreeClusterCleared p x = Some (y, p')"
    "FAT_fat_isValidCluster p y" "flink p y = CLUSTER_FREE" "finv p'"
    "\<And>z. z \<le> lastCluster (fat p) \<Longrightarrow> flink p' z = allocated (lastCluster (fat p)) x y (flink p) z"
    "\<And>t. t < nsec (medium (cache p)) \<Longrightarrow> \<not> in_fat p t \<Longrightarrow> cview (cache p') t =
      (if cluster_sector p y \<le> t \<and> t < cluster_sector p y + unat (sectorsPerCluster p)
       then replicate 512 0 else cview (cache p) t)"
  | (full) p' where "FAT_fat_linkFreeClusterCleared p x = Some (CLUSTER_ERROR, p')"
    "free_clusters (flink p) CLUSTER_FIRST (lastCluster (fat p)) = {}"
    "fstep p (lastCluster (fat p) + 1) (flink p) p'"
proof (cases rule: linkFree_new [OF inv x link hint, case_names found full])
  case (full p')
  then show thesis by (intro that(2)) (simp_all add: FAT_fat_linkFreeClusterCleared_def)
next
  case (found y p1)
  let ?n = "unat (sectorsPerCluster p)"
  have y: "FAT_fat_isValidCluster p y" using found by (simp add: FAT_fat_isValidCluster_def)
  note b = cluster_sector_bounds [OF geo y] and d = fat_stepD [OF found(5)]
  obtain c0 where c0: "p1 = set_firstFree y (set_cache c0 p)"
    using found(5) unfolding fat_step_def by blast
  have same: "FAT_fat_clusterToSector p1 y = FAT_fat_clusterToSector p y"
    "sectorsPerCluster p1 = sectorsPerCluster p"
    by (simp_all add: c0 FAT_fat_clusterToSector_def)
  have inv1: "finv p1" by (rule fat_step_inv [OF found(5) inv])
  have e: "endOfPartition (cache p1) = endOfPartition (cache p)" using d(9) by (simp add: same_frame_def)
  obtain c where c: "clearCluster_loop ?n 0 y p1 = Some (set_cache c p1)" "cinv c" "same_frame nsec (cache p1) c"
    "\<And>t. t < nsec (medium (cache p1)) \<Longrightarrow> cview c t =
      (if cluster_sector p y \<le> t \<and> t < cluster_sector p y + ?n then replicate 512 0 else cview (cache p1) t)"
  proof -
    have "cinv (cache p1)" using inv1 by (simp add: fat_inv_def)
    moreover have "unat (FAT_fat_clusterToSector p1 y) + unat (0 :: u32) + ?n \<le> unat (endOfPartition (cache p1))"
      using b(1,2) same(1) e by simp
    ultimately show thesis
      using clearCluster_ok [of p1 y 0 ?n] that b(1) same(1) by auto
  qed
  have inside: "cview c t = cview (cache p1) t" if "in_fat p1 t" for t
  proof -
    have "\<not> cluster_sector p y \<le> t" using b(3) [of t] that unfolding d(4) by blast
    moreover have "t < nsec (medium (cache p1))" by (rule in_fat_room [OF inv1 that])
    ultimately show ?thesis using c(4) by simp
  qed
  have ne: "y \<noteq> CLUSTER_ERROR" "y \<noteq> CLUSTER_FREE"
    using found(2,3) not_mark [OF inv] first_not_mark by blast+
  show thesis
  proof (rule that(1))
    show "FAT_fat_linkFreeClusterCleared p x = Some (y, set_cache c p1)"
      using found(1) c(1) ne same(2) by (simp add: FAT_fat_linkFreeClusterCleared_def)
    show "finv (set_cache c p1)"
      using inv1 c(2,3) by (simp add: fat_inv_def fat_geometry_def same_frame_def table_sectors_def)
    show "flink (set_cache c p1) z = allocated (lastCluster (fat p)) x y (flink p) z"
      if "z \<le> lastCluster (fat p)" for z
      using link_outside [OF inside inv1, of z] that d(6,8) by simp
    show "cview (cache (set_cache c p1)) t =
        (if cluster_sector p y \<le> t \<and> t < cluster_sector p y + ?n then replicate 512 0 else cview (cache p) t)"
      if "t < nsec (medium (cache p))" "\<not> in_fat p t" for t
      using c(4) d(10) d(11) [OF that(2,1)] that(1) by simp
  qed (rule y found(4))+
qed

end


end
