(* ===== verification/Image.thy ===== *)
theory Image
  imports FatChain
begin

text \<open>
  The cache and the table on the memory image of \<^verbatim>\<open>libfat_public_api.c\<close>: a new cache satisfies
  the invariant and shows the image, and a small FAT12 volume on which the properties are
  applied.
\<close>

section \<open>A new cache\<close>

context disc_device begin

lemma constructor_ok:
  fixes pages spp endPart :: u32 and junk :: byte and count :: u32
  assumes "ok m" "unat endPart \<le> nsec m" "unat endPart + max 8 (unat spp) < 2 ^ 32" "512 * max 8 (unat spp) < 2 ^ 32"
  defines "c \<equiv> FAT_cache_constructor pages spp D endPart junk count m"
  shows "cinv c" "cview c = sec m" "medium c = m" "endOfPartition c = endPart"
proof -
  let ?spp = "if spp < 8 then 8 else spp" and ?pages = "if pages < 2 then 2 else pages"
  have spp: "unat ?spp = max 8 (unat spp)" by (auto simp: word_less_nat_alt max_def)
  have pages: "2 \<le> unat ?pages" by (auto simp: word_less_nat_alt)
  have len: "unat (?spp * SECTOR_BYTES) = 512 * unat ?spp"
    using assms(4) spp by (subst unat_mult_u32) (simp_all add: SECTOR_BYTES_def)
  let ?e = "\<lparr>ce_sector = CACHE_FREE, ce_count = 0, ce_last_access = 0, ce_dirty = False,
               ce_cache = replicate (unat (?spp * SECTOR_BYTES)) junk\<rparr>"
  have c: "cacheEntries c = replicate (unat ?pages) ?e" "medium c = m" "endOfPartition c = endPart"
    "disc c = D" "sectorsPerPage c = ?spp" "numberOfPages c = ?pages"
    by (simp_all add: c_def FAT_cache_constructor_def Let_def)
  have "page_ok (unat ?spp) (unat endPart) ?e" by (simp add: page_ok_def len)
  moreover have "clean_ok f ?e" "\<not> covers ?e t" for f t
    by (auto simp: clean_ok_def covers_def)
  ultimately show "cview c = sec m" and "cinv c"
    using assms pages spp c
    by (auto simp: cache_inv_def pages_ok_def no_overlap_def cache_view_def fun_eq_iff intro!: view_none)
  show "medium c = m" "endOfPartition c = endPart" by (fact c)+
qed

end

abbreviation image_cache_inv :: "Instance CACHE \<Rightarrow> bool" where
  "image_cache_inv \<equiv> cache_inv discio image_ok image_nsec image_sec"

abbreviation image_view :: "Instance CACHE \<Rightarrow> nat \<Rightarrow> byte list" where
  "image_view \<equiv> cache_view image_sec"

abbreviation image_volume_inv :: "Instance PARTITION \<Rightarrow> bool" where
  "image_volume_inv \<equiv> fat_inv discio image_ok image_nsec image_sec"

abbreviation image_link :: "Instance PARTITION \<Rightarrow> u32 \<Rightarrow> u32" where
  "image_link \<equiv> fat_link image_sec"

section \<open>A small volume\<close>

text \<open>
  Sixteen sectors: the table in sector 1, the root directory in sectors 2 and 3, eight clusters
  of one sector from sector 4 on. Cluster 2 is linked to cluster 3, which ends the chain; the last
  cluster 9 is a chain of its own.
\<close>

definition example_image :: Instance where
  "example_image = \<lparr>buffer = replicate 512 0 @ [0xF8, 0xFF, 0xFF, 0x03, 0xF0, 0xFF, 0, 0, 0, 0, 0, 0, 0, 0xF0, 0xFF] @
       replicate 7665 0,
     size_bytes = 8192\<rparr>"

definition example_cache :: "Instance CACHE" where
  "example_cache = FAT_cache_constructor 4 8 discio 16 0 0 example_image"

definition example_volume :: "Instance PARTITION" where
  "example_volume = \<lparr>cache = example_cache, filesysType = FS_FAT12, totalSize = 6144, rootDirStart = 2,
     rootDirCluster = 0, numberOfSectors = 16, dataStart = 4, bytesPerSector = 512,
     sectorsPerCluster = 1, bytesPerCluster = 512,
     fat = \<lparr>fatStart = 1, sectorsPerFat = 1, lastCluster = 9, firstFree = 2\<rparr>,
     cwdCluster = 0, openFileCount = 0, firstOpenFile = None, readOnly = False, label = []\<rparr>"

lemma example_image_ok: "image_ok example_image" "image_nsec example_image = 16"
  by (simp_all add: image_ok_def image_nsec_def example_image_def)

lemma example_cache_ok:
  "image_cache_inv example_cache" "image_view example_cache = image_sec example_image"
  "medium example_cache = example_image" "endOfPartition example_cache = 16"
  unfolding example_cache_def
  by (rule image.constructor_ok; simp add: example_image_ok)+

lemma example_volume_ok: "image_volume_inv example_volume" "data_geometry example_volume"
  using example_cache_ok
  by (simp_all add: fat_inv_def fat_geometry_def data_geometry_def table_sectors_def fat_sectors_def
      example_volume_def)

lemma example_byte:
  assumes "k < 512"
  shows "fat_view image_sec example_volume k =
    (if k < 15 then [0xF8, 0xFF, 0xFF, 0x03, 0xF0, 0xFF, 0, 0, 0, 0, 0, 0, 0, 0xF0, 0xFF] ! k else 0)"
proof -
  have len: "length (buffer example_image) = 8192" by (simp add: example_image_def)
  have "fat_view image_sec example_volume k = bslice (buffer example_image) 512 512 ! k"
    using assms example_cache_ok(2)
    by (simp add: fat_view_def fat_bytes_def image_sec_def example_volume_def)
  also have "\<dots> = buffer example_image ! (512 + k)" using assms len by (intro nth_slice) simp_all
  also have "\<dots> = ([0xF8, 0xFF, 0xFF, 0x03, 0xF0, 0xFF, 0, 0, 0, 0, 0, 0, 0, 0xF0, 0xFF] @
      replicate 7665 0) ! k"
    by (simp add: example_image_def nth_append)
  finally show ?thesis using assms by (simp add: nth_append del: append.simps)
qed

lemma example_simps [simp]:
  "filesysType example_volume = FS_FAT12" "lastCluster (fat example_volume) = 9"
  "firstFree (fat example_volume) = 2" "cache example_volume = example_cache" "sectorsPerCluster example_volume = 1"
  by (simp_all add: example_volume_def)

lemma example_links:
  "image_link example_volume 2 = 3" "image_link example_volume 3 = CLUSTER_EOF"
  "image_link example_volume 4 = CLUSTER_FREE" "image_link example_volume 9 = CLUSTER_EOF"
  "image_link example_volume 10 = CLUSTER_FREE"
  by (simp_all add: fat_link_def entry_link_def raw_entry_def Let_def example_byte CLUSTER_EOF_def
      CLUSTER_FREE_def)

end
