(* ===== verification/CacheProperties.thy ===== *)
theory CacheProperties
  imports Image
begin

text \<open>
  What the sector cache promises, over the memory image: each operation acts on the sectors
  seen through the cache as it would on a plain disc, any sequence of operations is a run of the
  plain disc, and a flush brings the image up to date.
\<close>

section \<open>A disc without a cache\<close>

text \<open>The calls of the cache as data, and what each does to a plain array of sectors.\<close>

datatype disc_call =
    ReadSectors u32 u32
  | ReadPartial u32 u32 nat
  | WriteSectors u32 u32 "byte list"
  | WritePartial "byte list" u32 u32 nat
  | EraseWritePartial "byte list" u32 u32 nat
  | Flush

fun call_ok :: "nat \<Rightarrow> disc_call \<Rightarrow> bool" where
  "call_ok endp (ReadSectors s n) = (unat s + unat n \<le> endp)"
| "call_ok endp (ReadPartial s i n) = (unat s < endp \<and> unat i + n \<le> 512)"
| "call_ok endp (WriteSectors s n src) =
     (unat s + unat n \<le> endp \<and> 512 * unat n \<le> length src \<and> 512 * unat n < 2 ^ 32)"
| "call_ok endp (WritePartial src s i n) = (unat s < endp \<and> unat i + n \<le> 512 \<and> n \<le> length src)"
| "call_ok endp (EraseWritePartial src s i n) = (unat s < endp \<and> unat i + n \<le> 512 \<and> n \<le> length src)"
| "call_ok endp Flush = True"

fun plain_call :: "disc_call \<Rightarrow> (nat \<Rightarrow> byte list) \<Rightarrow> byte list \<times> (nat \<Rightarrow> byte list)" where
  "plain_call (ReadSectors s n) f = (sectors f (unat s) (unat n), f)"
| "plain_call (ReadPartial s i n) f = (bslice (f (unat s)) (unat i) n, f)"
| "plain_call (WriteSectors s n src) f = ([], \<lambda>t.
     if unat s \<le> t \<and> t < unat s + unat n then bslice src (512 * (t - unat s)) 512 else f t)"
| "plain_call (WritePartial src s i n) f =
     ([], f(unat s := overwrite (f (unat s)) (unat i) (take n src)))"
| "plain_call (EraseWritePartial src s i n) f =
     ([], f(unat s := overwrite (replicate 512 0) (unat i) (take n src)))"
| "plain_call Flush f = ([], f)"

fun cached_call :: "disc_call \<Rightarrow> 'd CACHE \<Rightarrow> (bool \<times> byte list \<times> 'd CACHE) option" where
  "cached_call (ReadSectors s n) c = FAT_cache_readSectors c s n"
| "cached_call (ReadPartial s i n) c = FAT_cache_readPartialSector c s i n"
| "cached_call (WriteSectors s n src) c =
     do { (b, c) \<leftarrow> FAT_cache_writeSectors c s n src; Some (b, [], c) }"
| "cached_call (WritePartial src s i n) c =
     do { (b, c) \<leftarrow> FAT_cache_writePartialSector c src s i n; Some (b, [], c) }"
| "cached_call (EraseWritePartial src s i n) c =
     do { (b, c) \<leftarrow> FAT_cache_eraseWritePartialSector c src s i n; Some (b, [], c) }"
| "cached_call Flush c = do { (b, c) \<leftarrow> FAT_cache_flush c; Some (b, [], c) }"

fun plain_run :: "disc_call list \<Rightarrow> (nat \<Rightarrow> byte list) \<Rightarrow> byte list list \<times> (nat \<Rightarrow> byte list)" where
  "plain_run [] f = ([], f)"
| "plain_run (a # as) f =
     (let (d, f) = plain_call a f; (ds, f) = plain_run as f in (d # ds, f))"

fun cache_run :: "disc_call list \<Rightarrow> 'd CACHE \<Rightarrow> (byte list list \<times> 'd CACHE) option" where
  "cache_run [] c = Some ([], c)"
| "cache_run (a # as) c = do {
     (b, d, c) \<leftarrow> cached_call a c;
     if \<not> b then None else do {
     (ds, c) \<leftarrow> cache_run as c;
     Some (d # ds, c) } }"

section \<open>The simulation\<close>

definition shows_disc ::
  "('d \<Rightarrow> nat) \<Rightarrow> ('d \<Rightarrow> nat \<Rightarrow> byte list) \<Rightarrow> 'd CACHE \<Rightarrow> (nat \<Rightarrow> byte list) \<Rightarrow> bool" where
  "shows_disc nsec sec c f \<longleftrightarrow> (\<forall>t < nsec (medium c). cache_view sec c t = f t)"

context disc_device begin

lemma shows_same:
  assumes "cinv c" "shows_disc nsec sec c f" "sview c c'" "same_frame nsec c c'"
  shows "shows_disc nsec sec c' f"
  using assms by (simp add: shows_disc_def same_view_def same_frame_def)

lemma inside: "cinv c \<Longrightarrow> t < unat (endOfPartition c) \<Longrightarrow> t < nsec (medium c)"
  using cinvD(2) [of c] by simp

lemma call_simulation:
  assumes inv: "cinv c" and sh: "shows_disc nsec sec c f" and op: "call_ok (unat (endOfPartition c)) a"
  obtains c' where "cached_call a c = Some (True, fst (plain_call a f), c')" "cinv c'"
    "same_frame nsec c c'" "shows_disc nsec sec c' (snd (plain_call a f))"
proof (cases a)
  case (ReadSectors s n)
  obtain c' where c': "readSectors_loop s n [] c = Some (True, sectors (cview c) (unat s) (unat n), c')"
    "cinv c'" "sview c c'" "same_frame nsec c c'"
    using readSectors_loop_ok [OF inv, of s n "[]"] op ReadSectors by auto
  have "sectors (cview c) (unat s) (unat n) = sectors f (unat s) (unat n)"
    by (rule sectors_cong) (use op ReadSectors inside [OF inv] sh in \<open>auto simp: shows_disc_def\<close>)
  with c' shows_same [OF inv sh c'(3,4)] ReadSectors show thesis
    by (intro that) (simp_all add: FAT_cache_readSectors_def)
next
  case (ReadPartial s i n)
  then have s: "unat s < unat (endOfPartition c)" "unat i + n \<le> 512" using op by auto
  obtain c' where c': "FAT_cache_readPartialSector c s i n =
      Some (True, bslice (cview c (unat s)) (unat i) n, c')" "cinv c'" "sview c c'" "same_frame nsec c c'"
    by (rule readPartialSector_ok [OF inv s])
  with shows_same [OF inv sh c'(3,4)] ReadPartial sh inside [OF inv s(1)] show thesis
    by (intro that) (simp_all add: shows_disc_def)
next
  case (WriteSectors s n src)
  then obtain c' where "writeSectors_loop s n src c = Some (True, c')" "cinv c'" "same_frame nsec c c'"
    "\<forall>t < nsec (medium c). cview c' t =
      (if unat s \<le> t \<and> t < unat s + unat n then bslice src (512 * (t - unat s)) 512 else cview c t)"
    using writeSectors_loop_ok [OF inv, of s n src] op by auto
  with WriteSectors sh show thesis
    by (intro that) (auto simp: FAT_cache_writeSectors_def shows_disc_def same_frame_def)
next
  case (WritePartial src s i n)
  then have s: "unat s < unat (endOfPartition c)" "unat i + n \<le> 512" "n \<le> length src" using op by auto
  obtain c' where "FAT_cache_writePartialSector c src s i n = Some (True, c')" "cinv c'" "same_frame nsec c c'"
    "\<And>t. t < nsec (medium c) \<Longrightarrow>
      cview c' t = (if t = unat s then overwrite (cview c t) (unat i) (take n src) else cview c t)"
    by (rule writePartialSector_ok [OF inv s]) blast
  with WritePartial sh show thesis
    by (intro that) (auto simp: shows_disc_def same_frame_def)
next
  case (EraseWritePartial src s i n)
  then have s: "unat s < unat (endOfPartition c)" "unat i + n \<le> 512" "n \<le> length src" using op by auto
  obtain c' where "FAT_cache_eraseWritePartialSector c src s i n = Some (True, c')" "cinv c'" "same_frame nsec c c'"
    "\<And>t. t < nsec (medium c) \<Longrightarrow>
      cview c' t = (if t = unat s then overwrite (replicate 512 0) (unat i) (take n src) else cview c t)"
    by (rule eraseWritePartialSector_ok [OF inv s]) blast
  with EraseWritePartial sh show thesis
    by (intro that) (auto simp: shows_disc_def same_frame_def)
next
  case Flush
  obtain c' where c': "FAT_cache_flush c = Some (True, c')" "cinv c'" "sview c c'" "same_frame nsec c c'"
    by (rule flush_ok [OF inv]) blast
  with shows_same [OF inv sh c'(3,4)] Flush show thesis by (intro that) simp_all
qed

lemma run_simulation:
  assumes "cinv c" "shows_disc nsec sec c f" "\<forall>a \<in> set as. call_ok (unat (endOfPartition c)) a"
  shows "\<exists>c'. cache_run as c = Some (fst (plain_run as f), c') \<and> cinv c' \<and> same_frame nsec c c' \<and>
    shows_disc nsec sec c' (snd (plain_run as f))"
  using assms
proof (induction as arbitrary: c f)
  case (Cons a as)
  then obtain c1 where c1: "cached_call a c = Some (True, fst (plain_call a f), c1)" "cinv c1"
    "same_frame nsec c c1" "shows_disc nsec sec c1 (snd (plain_call a f))"
    by (auto elim: call_simulation)
  then have "\<forall>a \<in> set as. call_ok (unat (endOfPartition c1)) a"
    using Cons.prems(3) by (simp add: same_frame_def)
  from Cons.IH [OF c1(2,4) this] obtain c2 where
    "cache_run as c1 = Some (fst (plain_run as (snd (plain_call a f))), c2)" "cinv c2"
    "same_frame nsec c1 c2" "shows_disc nsec sec c2 (snd (plain_run as (snd (plain_call a f))))" by blast
  with c1 show ?case
    using same_frame_trans by (fastforce simp: Let_def case_prod_beta)
qed simp

end

section \<open>The page to replace\<close>

definition victim :: "CACHE_ENTRY list \<Rightarrow> nat \<Rightarrow> bool \<Rightarrow> nat \<Rightarrow> u32 \<Rightarrow> bool" where
  "victim es i ff old acc \<longleftrightarrow>
     (if ff then old < i \<and> ce_sector (es ! old) = CACHE_FREE \<and> (\<forall>j < old. ce_sector (es ! j) \<noteq> CACHE_FREE)
      else (\<forall>j < i. ce_sector (es ! j) \<noteq> CACHE_FREE \<and> acc \<le> ce_last_access (es ! j)) \<and>
        (acc = -1 \<and> old = 0 \<or> old < i \<and> acc = ce_last_access (es ! old)))"

lemma victim_step:
  assumes "victim es i ff old acc"
  defines "better \<equiv> \<not> ff \<and> (ce_sector (es ! i) = CACHE_FREE \<or> ce_last_access (es ! i) < acc)"
  shows "better \<Longrightarrow> victim es (i + 1) (ce_sector (es ! i) = CACHE_FREE) i (ce_last_access (es ! i))"
    and "\<not> better \<Longrightarrow> victim es (i + 1) ff old acc"
  using assms(1) unfolding victim_def better_def
  by (auto simp: less_Suc_eq not_less intro: order_trans less_imp_le split: if_splits)

lemma search_victim:
  "getPage_search es i s ff old acc = Miss ff' k \<Longrightarrow> es = drop i full \<Longrightarrow> i \<le> length full \<Longrightarrow>
   victim full i ff old acc \<Longrightarrow> \<exists>acc'. victim full (length full) ff' k acc'"
proof (induction es arbitrary: i ff old acc)
  case (Cons e es)
  note d = drop_eq_ConsD [OF Cons.prems(2) [symmetric]]
  have i: "i + 1 \<le> length full" using d by simp
  note st = getPage_search_step [of e s] and v = victim_step [OF Cons.prems(4)]
  have miss: "\<not> (ce_sector e \<le> s \<and> s < ce_sector e + ce_count e)"
    using Cons.prems(1) st(1) by auto
  show ?case
  proof (cases "\<not> ff \<and> (ce_sector e = CACHE_FREE \<or> ce_last_access e < acc)")
    case True
    with Cons.prems(1) st(2) [OF miss] Cons.IH [OF _ _ i] v(1) d show ?thesis by auto
  next
    case False
    with Cons.prems(1) st(3) [OF miss] Cons.IH [OF _ _ i] v(2) d show ?thesis by auto
  qed
qed auto

section \<open>Properties\<close>

text \<open>
  C1. The cache is transparent: any sequence of reads, writes, partial writes and flushes inside
  the partition succeeds, returns the data a plain disc would return, and leaves the sectors it
  shows as the plain disc would hold them. The invariant of the cache holds again at the end.
\<close>

theorem cache_transparent:
  assumes "image_cache_inv c" "\<forall>a \<in> set as. call_ok (unat (endOfPartition c)) a"
  shows "\<exists>c'. cache_run as c = Some (fst (plain_run as (image_view c)), c') \<and> image_cache_inv c' \<and>
    (\<forall>t < image_nsec (medium c). image_view c' t = snd (plain_run as (image_view c)) t)"
proof -
  obtain c' where "cache_run as c = Some (fst (plain_run as (image_view c)), c')" "image_cache_inv c'"
    "same_frame image_nsec c c'" "shows_disc image_nsec image_sec c' (snd (plain_run as (image_view c)))"
    using image.run_simulation [OF assms(1) _ assms(2), of "image_view c"] by (auto simp: shows_disc_def)
  then show ?thesis by (auto simp: shows_disc_def same_frame_def)
qed

definition example_calls :: "disc_call list" where
  "example_calls = [WriteSectors 3 1 (replicate 512 7), ReadPartial 3 10 2, ReadSectors 1 2, Flush]"

lemma example_calls_ok: "\<forall>a \<in> set example_calls. call_ok 16 a"
  by (simp add: example_calls_def)

theorem cache_transparent_witness:
  "\<exists>c'. cache_run example_calls example_cache =
     Some (fst (plain_run example_calls (image_sec example_image)), c')"
  using cache_transparent [OF example_cache_ok(1), of example_calls] example_calls_ok example_cache_ok
  by auto

text \<open>
  C11. Nothing is lost: a session on a new cache, closed by the destructor, leaves the memory image
  with exactly the sectors that the same calls leave on a plain disc.
\<close>

theorem cache_session:
  fixes endPart spp pages :: u32
  assumes "image_ok m" "unat endPart \<le> image_nsec m" "unat endPart + max 8 (unat spp) < 2 ^ 32"
    "512 * max 8 (unat spp) < 2 ^ 32" "\<forall>a \<in> set as. call_ok (unat endPart) a"
  shows "\<exists>ds c m'. cache_run as (FAT_cache_constructor pages spp discio endPart junk count m) = Some (ds, c) \<and>
    FAT_cache_destructor c = Some m' \<and> image_nsec m' = image_nsec m \<and>
    ds = fst (plain_run as (image_sec m)) \<and>
    (\<forall>t < image_nsec m. image_sec m' t = snd (plain_run as (image_sec m)) t)"
proof -
  let ?c0 = "FAT_cache_constructor pages spp discio endPart junk count m"
  note c0 = image.constructor_ok [OF assms(1-4), of pages junk count]
  obtain c where c: "cache_run as ?c0 = Some (fst (plain_run as (image_sec m)), c)" "image_cache_inv c"
    "same_frame image_nsec ?c0 c" "shows_disc image_nsec image_sec c (snd (plain_run as (image_sec m)))"
    using image.run_simulation [OF c0(1), of "image_sec m" as] c0 assms(5) by (auto simp: shows_disc_def)
  obtain c' where c': "FAT_cache_flush c = Some (True, c')" "same_frame image_nsec c c'"
    "\<And>t. t < image_nsec (medium c) \<Longrightarrow> image_sec (medium c') t = image_view c t"
    by (rule image.flush_ok [OF c(2)]) blast
  have "image_nsec (medium c) = image_nsec m" using c(3) c0(3) by (simp add: same_frame_def)
  then show ?thesis
    using c c' by (intro exI [of _ "medium c'"] exI [of _ c] exI conjI)
      (auto simp: FAT_cache_destructor_def same_frame_def shows_disc_def)
qed

theorem cache_session_witness:
  "\<exists>c m'. cache_run example_calls (FAT_cache_constructor 4 8 discio 16 0 0 example_image) =
     Some (fst (plain_run example_calls (image_sec example_image)), c) \<and> FAT_cache_destructor c = Some m' \<and>
     image_sec m' 3 = replicate 512 7"
  using cache_session [of example_image 16 8 example_calls 4 0 0] example_calls_ok
  by (auto simp: example_image_ok example_calls_def bslice_def Let_def)

text \<open>
  Reading back: sectors that have been written are read back as they were written, wherever
  they lie in the pages of the cache.
\<close>

theorem cache_read_written:
  assumes "image_cache_inv c" "unat s + unat n \<le> unat (endOfPartition c)" "512 * unat n < 2 ^ 32"
    "512 * unat n \<le> length src"
  shows "\<exists>c1 c2. FAT_cache_writeSectors c s n src = Some (True, c1) \<and>
    FAT_cache_readSectors c1 s n = Some (True, take (512 * unat n) src, c2) \<and> image_cache_inv c2"
proof -
  let ?f = "image_view c" and ?as = "[WriteSectors s n src, ReadSectors s n]"
  have sh: "shows_disc image_nsec image_sec c ?f" by (simp add: shows_disc_def)
  obtain c' where c': "cache_run ?as c = Some (fst (plain_run ?as ?f), c')" "image_cache_inv c'"
    using image.run_simulation [OF assms(1) sh, of ?as] assms(2-4) by auto
  let ?g = "\<lambda>t. if unat s \<le> t \<and> t < unat s + unat n then bslice src (512 * (t - unat s)) 512 else ?f t"
  have "sectors ?g (unat s) (unat n) = sectors (\<lambda>t. bslice src (512 * (t - unat s)) 512) (unat s + 0) (unat n)"
    by (auto intro: sectors_cong)
  also have "\<dots> = bslice src (512 * 0) (512 * unat n)" by (rule sectors_of_slices) (use assms(4) in simp)
  finally have "fst (plain_run ?as ?f) = [[], take (512 * unat n) src]"
    by (simp add: Let_def bslice_def)
  with c' show ?thesis by (auto split: bind_splits if_splits)
qed

theorem cache_read_written_witness:
  "\<exists>c1 c2. FAT_cache_writeSectors example_cache 7 2 (replicate 1024 5) = Some (True, c1) \<and>
    FAT_cache_readSectors c1 7 2 = Some (True, replicate 1024 5, c2)"
  using cache_read_written [OF example_cache_ok(1), of 7 2 "replicate 1024 5"] example_cache_ok by auto

text \<open>
  The page that \<open>FAT_cache_getPage\<close> gives up is the first free page or, when no page is free,
  one that no other page has been unused for longer than.
\<close>

theorem cache_victim:
  assumes "getPage_search es 0 s False 0 (-1) = Miss ff k" "es \<noteq> []"
  shows "k < length es \<and>
    (if ff then ce_sector (es ! k) = CACHE_FREE \<and> (\<forall>j < k. ce_sector (es ! j) \<noteq> CACHE_FREE)
     else \<forall>j < length es. ce_sector (es ! j) \<noteq> CACHE_FREE \<and> ce_last_access (es ! k) \<le> ce_last_access (es ! j))"
proof -
  have "victim es 0 False 0 (-1)" by (simp add: victim_def)
  then obtain acc where v: "victim es (length es) ff k acc"
    using search_victim [OF assms(1), of es] by auto
  have "ce_last_access (es ! k) \<le> ce_last_access (es ! j)" if "\<not> ff" "j < length es" for j
    using v that by (auto simp: victim_def intro: order_trans)
  then show ?thesis using v assms(2) by (auto simp: victim_def)
qed

theorem cache_victim_witness:
  "\<exists>k. getPage_search (cacheEntries example_cache) 0 3 False 0 (-1) = Miss True k \<and>
    ce_sector (cacheEntries example_cache ! k) = CACHE_FREE"
proof -
  have r: "replicate 4 e = [e, e, e, e]" for e :: CACHE_ENTRY by (simp add: numeral_eq_Suc)
  have "\<not> (-1 :: u32) \<le> 3" by code_simp
  then have "getPage_search (cacheEntries example_cache) 0 3 False 0 (-1) = Miss True 0"
    "cacheEntries example_cache \<noteq> []"
    by (simp_all add: example_cache_def FAT_cache_constructor_def Let_def r getPage_search.simps
        CACHE_FREE_def)
  with cache_victim [OF this] show ?thesis by auto
qed

text \<open>
  A partial write changes the bytes it names and no others: a later partial read of any bytes of
  any sector returns the new bytes where they were written and the old ones elsewhere.
\<close>

theorem cache_partial_write:
  assumes "image_cache_inv c" "unat s < unat (endOfPartition c)" "unat i + n \<le> 512" "n \<le> length src"
    "unat s' < unat (endOfPartition c)" "unat i' + n' \<le> 512"
  shows "\<exists>c1 c2. FAT_cache_writePartialSector c src s i n = Some (True, c1) \<and>
    FAT_cache_readPartialSector c1 s' i' n' = Some (True,
      bslice (if s' = s then overwrite (image_view c (unat s)) (unat i) (take n src)
              else image_view c (unat s')) (unat i') n', c2) \<and> image_cache_inv c2"
proof -
  obtain c1 where c1: "FAT_cache_writePartialSector c src s i n = Some (True, c1)" "image_cache_inv c1"
    "same_frame image_nsec c c1"
    "\<And>t. t < image_nsec (medium c) \<Longrightarrow> image_view c1 t =
      (if t = unat s then overwrite (image_view c t) (unat i) (take n src) else image_view c t)"
    by (rule image.writePartialSector_ok [OF assms(1-4)]) blast
  have s': "unat s' < unat (endOfPartition c1)" using c1(3) assms(5) by (simp add: same_frame_def)
  obtain c2 where c2: "FAT_cache_readPartialSector c1 s' i' n' =
      Some (True, bslice (image_view c1 (unat s')) (unat i') n', c2)" "image_cache_inv c2"
    by (rule image.readPartialSector_ok [OF c1(2) s' assms(6)])
  show ?thesis
    using c1(1) c2 c1(4) [OF image.inside [OF assms(1,5)]] by (auto simp: word_unat_eq_iff)
qed

theorem cache_partial_write_witness:
  "\<exists>c1 c2. FAT_cache_writePartialSector example_cache [1, 2, 3] 5 100 3 = Some (True, c1) \<and>
    FAT_cache_readPartialSector c1 5 101 2 = Some (True, [2, 3], c2)"
proof -
  have len: "length (image_sec example_image 5) = 512"
    by (simp add: image_sec_def example_image_def)
  have "bslice (overwrite (image_sec example_image 5) 100 [1, 2, 3]) 101 2 = [2, 3]"
    by (subst slice_overwrite_outer) (simp_all add: len, simp add: bslice_def)
  then show ?thesis
    using cache_partial_write [OF example_cache_ok(1), of 5 100 3 "[1, 2, 3]" 5 101 2] example_cache_ok
    by auto
qed

text \<open>
  \<open>FAT_cache_writeSectors\<close> reports success even when the disc refuses to write: with a disc
  that fails every write, sectors that no page holds are lost and the result is still true.
\<close>

theorem cache_write_error_lost:
  assumes "\<And>s n b m. writeSectors (disc c) s n b m = Some (False, m)"
    "FAT_cache_findPage c s n = None"
  shows "FAT_cache_writeSectors c s n src = Some (True, c)"
  using assms
  by (subst FAT_cache_writeSectors_def, subst writeSectors_loop.simps)
    (simp add: writeSectors_direct_def FAT_disc_writeSectors_def)

theorem cache_write_error_lost_witness:
  "let D = discio\<lparr>writeSectors := \<lambda>s n b m. Some (False, m)\<rparr>;
       c = FAT_cache_constructor 2 8 D 16 0 0 example_image
   in FAT_cache_writeSectors c 3 1 (replicate 512 7) = Some (True, c) \<and> medium c = example_image"
proof -
  let ?D = "discio\<lparr>writeSectors := \<lambda>s n b m. Some (False, m)\<rparr>"
  let ?c = "FAT_cache_constructor 2 8 ?D 16 0 0 example_image"
  have "replicate 2 e = [e, e]" for e :: CACHE_ENTRY by (simp add: numeral_eq_Suc)
  then have "FAT_cache_findPage ?c 3 1 = None"
    by (simp add: FAT_cache_findPage_def FAT_cache_constructor_def Let_def)
  moreover have "writeSectors (disc ?c) s n b m = Some (False, m)" "medium ?c = example_image" for s n b m
    by (simp_all add: FAT_cache_constructor_def Let_def)
  ultimately show ?thesis using cache_write_error_lost [of ?c 3 1 "replicate 512 7"] by simp
qed


end
