(* ===== verification/FatProperties.thy ===== *)
theory FatProperties
  imports Image
begin

text \<open>
  What the operations on the file allocation table promise, for a volume on the memory image.
  \<open>image_link p x\<close> is the link of cluster \<open>x\<close> as the bytes of the table encode it, and
  \<open>image_step p ff L p'\<close> says that \<open>p'\<close> is \<open>p\<close> with the hint \<open>ff\<close> for the first free cluster and
  the links \<open>L\<close>, with no sector outside the table changed and the invariant kept.
\<close>

abbreviation image_step where
  "image_step \<equiv> fat_step discio image_ok image_nsec image_sec"

lemma example_chain: "chain (image_link example_volume) 9 2 [2, 3] CLUSTER_EOF"
  by (simp add: chain_def example_links CLUSTER_FIRST_def)

lemma example_some_free: "free_clusters (image_link example_volume) CLUSTER_FIRST 9 \<noteq> {}"
proof -
  have "4 \<in> free_clusters (image_link example_volume) CLUSTER_FIRST 9"
    by (simp add: free_clusters_def example_links CLUSTER_FIRST_def)
  then show ?thesis by blast
qed

text \<open>
  Reading the link of a cluster returns what the bytes of the table encode, in the 12-, 16-
  and 32-bit formats, and changes nothing.
\<close>

theorem fat_next_cluster:
  assumes "image_volume_inv p" "x \<le> lastCluster (fat p)" "x \<noteq> CLUSTER_FREE"
  shows "\<exists>p'. FAT_fat_nextCluster p x = Some (image_link p x, p') \<and>
    image_step p (firstFree (fat p)) (image_link p) p'"
  by (rule image.nextCluster_ok [OF assms(1) entry_ok_le [OF assms(1,2)] assms(3)]) blast

theorem fat_next_cluster_witness: "\<exists>p'. FAT_fat_nextCluster example_volume 2 = Some (3, p')"
  using fat_next_cluster [OF example_volume_ok(1), of 2] by (auto simp: example_links CLUSTER_FREE_def)

text \<open>
  C12. Writing the entry of a cluster gives that cluster the new link and leaves the links of all
  other clusters and every sector outside the table as they were; in the 12-bit format this
  includes the neighbour that shares a byte with it.
\<close>

theorem fat_write_entry:
  assumes "image_volume_inv p" "CLUSTER_FIRST \<le> x" "x \<le> lastCluster (fat p)"
    "v = CLUSTER_EOF \<or> v < end_mark (filesysType p)"
  shows "\<exists>p'. FAT_fat_writeFatEntry p x v = Some (True, p') \<and>
    image_step p (firstFree (fat p)) ((image_link p)(x := v)) p'"
proof -
  have "stored_link (filesysType p) v = v"
    using assms(4) stored_link_cluster stored_link_EOF [OF image.known_type [OF assms(1)]] by blast
  then show ?thesis using image.writeFatEntry_ok [OF assms(1-3), of v] by metis
qed

theorem fat_write_entry_witness:
  "\<exists>p'. FAT_fat_writeFatEntry example_volume 4 5 = Some (True, p') \<and> image_link p' 4 = 5 \<and> image_link p' 3 = CLUSTER_EOF"
proof -
  obtain p' where p': "FAT_fat_writeFatEntry example_volume 4 5 = Some (True, p')"
    "image_step example_volume 2 ((image_link example_volume)(4 := 5)) p'"
    using fat_write_entry [OF example_volume_ok(1), of 4 5] by (auto simp: CLUSTER_FIRST_def)
  show ?thesis
    using p'(1) fat_stepD(8) [OF p'(2), of 4] fat_stepD(8) [OF p'(2), of 3] by (auto simp: example_links)
qed

text \<open>
  C17. Allocation behind a cluster without a link, from a hint inside the volume: either a free
  cluster is found, marked as the end of a chain and linked behind the given cluster, or no cluster is
  free and the result is the error mark. Every other link and every sector outside the table is kept.
  Behind the last cluster of the volume the code deviates from its comment: the new cluster is marked as the end
  of a chain, but the last cluster is not linked to it, so that it belongs to no chain.
\<close>
theorem fat_link_free:
  assumes "image_volume_inv p" "x \<le> lastCluster (fat p)" "firstFree (fat p) \<le> lastCluster (fat p)"
    "x = CLUSTER_FREE \<or> \<not> FAT_fat_isValidCluster p (image_link p x)"
  shows "\<exists>y p'. FAT_fat_linkFreeCluster p x = Some (y, p') \<and>
    (if free_clusters (image_link p) CLUSTER_FIRST (lastCluster (fat p)) = {}
     then y = CLUSTER_ERROR \<and> image_step p (lastCluster (fat p) + 1) (image_link p) p'
     else FAT_fat_isValidCluster p y \<and> image_link p y = CLUSTER_FREE \<and>
       (if x < lastCluster (fat p) then image_step p y (linked_behind x y (image_link p)) p'
        else image_step p y ((image_link p)(y := CLUSTER_EOF)) p'))"
proof -
  have *: "x = CLUSTER_FREE \<or> \<not> (CLUSTER_FIRST \<le> image_link p x \<and> image_link p x \<le> lastCluster (fat p))"
    using assms(4) by (simp add: FAT_fat_isValidCluster_def)
  have x: "\<not> x < lastCluster (fat p) \<Longrightarrow> x = lastCluster (fat p)" using assms(2) by simp
  show ?thesis
  proof (cases rule: image.linkFree_new [OF assms(1,2) * assms(3), case_names found full])
    case (found y p')
    then have "y \<in> free_clusters (image_link p) CLUSTER_FIRST (lastCluster (fat p))"
      by (simp add: free_clusters_def)
    with found x show ?thesis
      by (cases "x < lastCluster (fat p)") (auto simp: FAT_fat_isValidCluster_def allocated_linked)
  next
    case (full p')
    then show ?thesis by auto
  qed
qed

theorem fat_link_free_witness:
  "\<exists>y p'. FAT_fat_linkFreeCluster example_volume 3 = Some (y, p') \<and> image_link p' 3 = y \<and> y \<noteq> 3"
proof -
  have e: "\<not> FAT_fat_isValidCluster example_volume (image_link example_volume 3)"
    by (simp add: example_links FAT_fat_isValidCluster_def CLUSTER_EOF_def)
  obtain y p' where y: "FAT_fat_linkFreeCluster example_volume 3 = Some (y, p')"
    "image_link example_volume y = CLUSTER_FREE"
    "image_step example_volume y (linked_behind 3 y (image_link example_volume)) p'"
    using fat_link_free [OF example_volume_ok(1), of 3] example_some_free e by auto
  have "y \<noteq> 3" using y(2) example_links by (auto simp: cluster_consts)
  moreover have "image_link p' 3 = y"
    using fat_stepD(8) [OF y(3), of 3] calculation by (simp add: linked_behind_def CLUSTER_FIRST_def)
  ultimately show ?thesis using y(1) by blast
qed

text \<open>A cluster that has a link already keeps it: allocation behind it returns that link.\<close>

theorem fat_link_existing:
  assumes "image_volume_inv p" "x \<le> lastCluster (fat p)" "x \<noteq> CLUSTER_FREE"
    "FAT_fat_isValidCluster p (image_link p x)"
  shows "\<exists>p'. FAT_fat_linkFreeCluster p x = Some (image_link p x, p') \<and>
    image_step p (firstFree (fat p)) (image_link p) p'"
  using image.linkFree_existing [OF assms(1-3)] assms(4) by (auto simp: FAT_fat_isValidCluster_def)

theorem fat_link_existing_witness: "\<exists>p'. FAT_fat_linkFreeCluster example_volume 2 = Some (3, p')"
  using fat_link_existing [OF example_volume_ok(1), of 2]
  by (auto simp: example_links FAT_fat_isValidCluster_def CLUSTER_FIRST_def CLUSTER_FREE_def)

text \<open>
  Allocation behind the last cluster of the volume loses the new cluster: the comparison
  \<open>cluster < lastCluster\<close> leaves the link of that cluster out, so the chain still ends there while
  the new cluster is marked as used.
\<close>

theorem fat_link_last_lost:
  assumes "image_volume_inv p" "firstFree (fat p) \<le> lastCluster (fat p)"
    "image_link p (lastCluster (fat p)) = CLUSTER_EOF"
    "free_clusters (image_link p) CLUSTER_FIRST (lastCluster (fat p)) \<noteq> {}"
  shows "\<exists>y p'. FAT_fat_linkFreeCluster p (lastCluster (fat p)) = Some (y, p') \<and>
    FAT_fat_isValidCluster p y \<and> image_link p y = CLUSTER_FREE \<and> image_link p' y = CLUSTER_EOF \<and>
    image_link p' (lastCluster (fat p)) = CLUSTER_EOF"
proof -
  let ?lc = "lastCluster (fat p)"
  have "\<not> CLUSTER_EOF \<le> ?lc"
    using image.last_bound [OF assms(1)] by (simp add: word_le_nat_alt CLUSTER_EOF_def)
  then have link: "?lc = CLUSTER_FREE \<or> \<not> (CLUSTER_FIRST \<le> image_link p ?lc \<and> image_link p ?lc \<le> ?lc)"
    using assms(3) by simp
  show ?thesis
  proof (cases rule: image.linkFree_new [OF assms(1) order_refl link assms(2), case_names found full])
    case (found y p')
    then have "image_link p' y = CLUSTER_EOF" "image_link p' ?lc = CLUSTER_EOF"
      using fat_stepD(8) [OF found(5)] assms(3) by (simp_all add: allocated_def)
    with found show ?thesis by (auto simp: FAT_fat_isValidCluster_def)
  next
    case (full p')
    then show ?thesis using assms(4) by simp
  qed
qed

theorem fat_link_last_lost_witness:
  "\<exists>y p'. FAT_fat_linkFreeCluster example_volume 9 = Some (y, p') \<and> y \<noteq> 9 \<and>
    image_link p' 9 = CLUSTER_EOF"
  using fat_link_last_lost [OF example_volume_ok(1)] example_some_free
  by (fastforce simp: example_links cluster_consts)

text \<open>
  After a failed search the hint is one past the last cluster. When the sectors of the table have
  room for one more entry and it is zero, the next allocation of a new chain returns that number,
  which is not a cluster of the volume.
\<close>

theorem fat_link_past_end:
  assumes "image_volume_inv p" "firstFree (fat p) = lastCluster (fat p) + 1"
    "entry_ok p (firstFree (fat p))" "image_link p (firstFree (fat p)) = CLUSTER_FREE"
  shows "\<exists>y p'. FAT_fat_linkFreeCluster p CLUSTER_FREE = Some (y, p') \<and> \<not> FAT_fat_isValidCluster p y"
  using image.linkFree_stale [OF assms] by metis

theorem fat_link_past_end_witness:
  "\<exists>y p'. FAT_fat_linkFreeCluster (set_firstFree 10 example_volume) CLUSTER_FREE = Some (y, p') \<and>
    \<not> FAT_fat_isValidCluster (set_firstFree 10 example_volume) y"
proof (rule fat_link_past_end)
  show "image_volume_inv (set_firstFree 10 example_volume)"
    using example_volume_ok(1) by (simp add: fat_inv_def fat_geometry_def table_sectors_def)
  show "entry_ok (set_firstFree 10 example_volume) (firstFree (fat (set_firstFree 10 example_volume)))"
    by (auto simp: entry_ok_def table_sectors_def fat_sectors_def)
  have "image_link (set_firstFree 10 example_volume) 10 = image_link example_volume 10"
    by (simp add: fat_link_def fat_view_def)
  then show "image_link (set_firstFree 10 example_volume) (firstFree (fat (set_firstFree 10 example_volume))) =
      CLUSTER_FREE" by (simp add: example_links)
qed simp

text \<open>
  Freeing a chain frees its clusters and no others, and moves the hint of the first free cluster
  down to the start of the chain.
\<close>

theorem fat_clear_links:
  assumes "image_volume_inv p" "chain (image_link p) (lastCluster (fat p)) x cs e" "cs \<noteq> []"
  shows "\<exists>p'. FAT_fat_clearLinks p x = Some (True, p') \<and>
    image_step p (lower_hint x (firstFree (fat p))) (freed cs (image_link p)) p'"
  by (rule image.clearLinks_ok [OF assms]) blast

theorem fat_clear_links_witness:
  "\<exists>p'. FAT_fat_clearLinks example_volume 2 = Some (True, p') \<and> image_link p' 2 = CLUSTER_FREE \<and>
    image_link p' 3 = CLUSTER_FREE"
proof -
  obtain p' where p': "FAT_fat_clearLinks example_volume 2 = Some (True, p')"
    "image_step example_volume (lower_hint 2 2) (freed [2, 3] (image_link example_volume)) p'"
    using fat_clear_links [OF example_volume_ok(1), of 2 "[2, 3]" CLUSTER_EOF] example_chain by auto
  then show ?thesis
    using fat_stepD(8) [OF p'(2), of 2] fat_stepD(8) [OF p'(2), of 3] by (auto simp: freed_def)
qed

text \<open>
  C24. Trimming a chain to \<open>n\<close> clusters keeps its first \<open>n\<close> clusters in order, ends the chain at the
  last of them, frees the rest and returns that last cluster.
\<close>

theorem fat_trim_chain:
  assumes "image_volume_inv p" "chain (image_link p) (lastCluster (fat p)) x cs e" "cs \<noteq> []" "n \<noteq> 0"
  shows "\<exists>ff p'. FAT_fat_trimChain p x n = Some (last (take (unat n) cs), p') \<and>
    image_step p ff ((freed (drop (unat n) cs) (image_link p))(last (take (unat n) cs) := CLUSTER_EOF)) p'"
  by (rule image.trimChain_ok [OF assms]) blast

theorem fat_trim_chain_witness:
  "\<exists>p'. FAT_fat_trimChain example_volume 2 1 = Some (2, p') \<and> image_link p' 2 = CLUSTER_EOF \<and>
    image_link p' 3 = CLUSTER_FREE"
proof -
  obtain ff p' where p': "FAT_fat_trimChain example_volume 2 1 = Some (2, p')"
    "image_step example_volume ff ((freed [3] (image_link example_volume))(2 := CLUSTER_EOF)) p'"
    using fat_trim_chain [OF example_volume_ok(1), of 2 "[2, 3]" CLUSTER_EOF 1] example_chain by auto
  then show ?thesis
    using fat_stepD(8) [OF p'(2), of 2] fat_stepD(8) [OF p'(2), of 3] by (auto simp: freed_def)
qed

text \<open>C36. Following a chain returns its last cluster and changes nothing.\<close>

theorem fat_last_cluster:
  assumes "image_volume_inv p" "chain (image_link p) (lastCluster (fat p)) x cs e" "cs \<noteq> []"
  shows "\<exists>p'. FAT_fat_lastCluster p x = Some (last cs, p') \<and>
    image_step p (firstFree (fat p)) (image_link p) p'"
  by (rule image.lastCluster_ok [OF assms]) blast

theorem fat_last_cluster_witness: "\<exists>p'. FAT_fat_lastCluster example_volume 2 = Some (3, p')"
  using fat_last_cluster [OF example_volume_ok(1), of 2 "[2, 3]" CLUSTER_EOF] example_chain by auto

text \<open>The number of free clusters is exact, and counting changes nothing.\<close>

theorem fat_free_count:
  assumes "image_volume_inv p"
  shows "\<exists>r p'. FAT_fat_freeClusterCount p = Some (r, p') \<and>
    unat r = card (free_clusters (image_link p) CLUSTER_FIRST (lastCluster (fat p))) \<and>
    image_step p (firstFree (fat p)) (image_link p) p'"
  by (rule image.freeClusterCount_ok [OF assms]) blast

theorem fat_free_count_witness:
  "\<exists>r p'. FAT_fat_freeClusterCount example_volume = Some (r, p') \<and>
    unat r = card (free_clusters (image_link example_volume) 2 9)"
  using fat_free_count [OF example_volume_ok(1)] by (auto simp: CLUSTER_FIRST_def)

text \<open>
  A cluster allocated cleared reads as zeros in all its sectors; no sector outside the table
  and the cluster changes, and the links are those of a plain allocation.
\<close>

theorem fat_link_cleared:
  assumes "image_volume_inv p" "data_geometry p" "x \<le> lastCluster (fat p)"
    "x = CLUSTER_FREE \<or> \<not> FAT_fat_isValidCluster p (image_link p x)"
    "firstFree (fat p) \<le> lastCluster (fat p)"
    "free_clusters (image_link p) CLUSTER_FIRST (lastCluster (fat p)) \<noteq> {}"
  shows "\<exists>y p'. FAT_fat_linkFreeClusterCleared p x = Some (y, p') \<and> FAT_fat_isValidCluster p y \<and>
    image_link p y = CLUSTER_FREE \<and> image_volume_inv p' \<and>
    (\<forall>z \<le> lastCluster (fat p). image_link p' z = allocated (lastCluster (fat p)) x y (image_link p) z) \<and>
    (\<forall>t < image_nsec (medium (cache p)). \<not> in_fat p t \<longrightarrow> image_view (cache p') t =
      (if cluster_sector p y \<le> t \<and> t < cluster_sector p y + unat (sectorsPerCluster p)
       then replicate 512 0 else image_view (cache p) t))"
proof -
  have *: "x = CLUSTER_FREE \<or> \<not> (CLUSTER_FIRST \<le> image_link p x \<and> image_link p x \<le> lastCluster (fat p))"
    using assms(4) by (simp add: FAT_fat_isValidCluster_def)
  show ?thesis
  proof (cases rule: image.linkFreeClusterCleared_ok [OF assms(1-3) * assms(5), case_names found full])
    case (found y p')
    then show ?thesis by blast
  next
    case (full p')
    then show ?thesis using assms(6) by simp
  qed
qed

theorem fat_link_cleared_witness:
  "\<exists>y p'. FAT_fat_linkFreeClusterCleared example_volume 0 = Some (y, p') \<and>
    image_view (cache p') (cluster_sector example_volume y) = replicate 512 0"
proof -
  obtain y p' where y: "FAT_fat_linkFreeClusterCleared example_volume 0 = Some (y, p')"
    "FAT_fat_isValidCluster example_volume y"
    "\<forall>t < 16. \<not> in_fat example_volume t \<longrightarrow> image_view (cache p') t =
      (if cluster_sector example_volume y \<le> t \<and> t < cluster_sector example_volume y + 1
       then replicate 512 0 else image_view example_cache t)"
    using fat_link_cleared [OF example_volume_ok(1,2), of 0, unfolded example_simps example_cache_ok(3)
        example_image_ok(2)] example_some_free
    by (auto simp: CLUSTER_FREE_def)
  note b = cluster_sector_bounds [OF example_volume_ok(2) y(2)]
  have "cluster_sector example_volume y < 16"
    using b(2) example_cache_ok(4) by simp
  then show ?thesis using y(1,3) b(3) by auto
qed


end
