(* ===== verification/Partition.thy ===== *)
theory Partition
  imports Volume
begin

text \<open>
  Mounting a volume: \<open>FindFirstValidPartition\<close> and \<open>FAT_partition_constructor\<close> of
  \<^verbatim>\<open>utils/libfat/partition.c\<close>. The state threaded through is that of the disc's medium. The
  outer option is \<open>None\<close> for an execution without a result: an access outside the sector buffer
  or a division by zero.
\<close>

section \<open>The boot sector\<close>

definition BPB_bytesPerSector :: nat where "BPB_bytesPerSector = 0x0B"
definition BPB_sectorsPerCluster :: nat where "BPB_sectorsPerCluster = 0x0D"
definition BPB_reservedSectors :: nat where "BPB_reservedSectors = 0x0E"
definition BPB_numFATs :: nat where "BPB_numFATs = 0x10"
definition BPB_rootEntries :: nat where "BPB_rootEntries = 0x11"
definition BPB_numSectorsSmall :: nat where "BPB_numSectorsSmall = 0x13"
definition BPB_sectorsPerFAT :: nat where "BPB_sectorsPerFAT = 0x16"
definition BPB_numSectors :: nat where "BPB_numSectors = 0x20"
definition BPB_FAT16_volumeLabel :: nat where "BPB_FAT16_volumeLabel = 0x2B"
definition BPB_FAT16_fileSysType :: nat where "BPB_FAT16_fileSysType = 0x36"
definition BPB_FAT32_sectorsPerFAT32 :: nat where "BPB_FAT32_sectorsPerFAT32 = 0x24"
definition BPB_FAT32_extFlags :: nat where "BPB_FAT32_extFlags = 0x28"
definition BPB_FAT32_rootClus :: nat where "BPB_FAT32_rootClus = 0x2C"
definition BPB_FAT32_volumeLabel :: nat where "BPB_FAT32_volumeLabel = 0x47"
definition BPB_FAT32_fileSysType :: nat where "BPB_FAT32_fileSysType = 0x52"
definition BPB_bootSig_55 :: nat where "BPB_bootSig_55 = 0x1FE"
definition BPB_bootSig_AA :: nat where "BPB_bootSig_AA = 0x1FF"

lemmas BPB_defs = BPB_bytesPerSector_def BPB_sectorsPerCluster_def BPB_reservedSectors_def
  BPB_numFATs_def BPB_rootEntries_def BPB_numSectorsSmall_def BPB_sectorsPerFAT_def
  BPB_numSectors_def BPB_FAT16_volumeLabel_def BPB_FAT16_fileSysType_def
  BPB_FAT32_sectorsPerFAT32_def BPB_FAT32_extFlags_def BPB_FAT32_rootClus_def
  BPB_FAT32_volumeLabel_def BPB_FAT32_fileSysType_def BPB_bootSig_55_def BPB_bootSig_AA_def

definition FAT_SIG :: "byte list" where "FAT_SIG = [0x46, 0x41, 0x54]"

definition DIR_ENTRY_DATA_SIZE :: nat where "DIR_ENTRY_DATA_SIZE = 0x20"
definition FAT16_ROOT_DIR_CLUSTER :: u32 where "FAT16_ROOT_DIR_CLUSTER = 0"

text \<open>\<open>memcmp\<close> of the buffer at an offset with the signature.\<close>

definition sig_at :: "byte list \<Rightarrow> nat \<Rightarrow> bool option" where
  "sig_at buf off = do { d \<leftarrow> mem_read buf off 3; Some (d = FAT_SIG) }"

definition has_fat_sig :: "byte list \<Rightarrow> bool option" where
  "has_fat_sig buf = do {
     a \<leftarrow> sig_at buf BPB_FAT16_fileSysType;
     if a then Some True else sig_at buf BPB_FAT32_fileSysType }"

section \<open>Finding a partition\<close>

text \<open>The chain of logical partitions: a result to return, or the sector buffer to go on with.\<close>

datatype scan = Return u32 | Continue "byte list"

fun logical_loop ::
  "nat \<Rightarrow> 'd DISC_INTERFACE \<Rightarrow> u32 \<Rightarrow> u32 \<Rightarrow> byte list \<Rightarrow> 'd \<Rightarrow> (scan \<times> 'd) option" where
  "logical_loop 0 D part_lba next_lba2 buf m = Some (Continue buf, m)"
| "logical_loop (Suc n) D part_lba next_lba2 buf m = do {
     (ok, buf, m) \<leftarrow> FAT_disc_readSectors D (part_lba + next_lba2) 1 buf m;
     if \<not> ok then Some (Return 0, m)
     else do {
       a \<leftarrow> u8array_to_u32 buf 0x1C6;
       let part_lba2 = part_lba + next_lba2 + a;
       next_lba2 \<leftarrow> u8array_to_u32 buf 0x1D6;
       (ok, buf, m) \<leftarrow> FAT_disc_readSectors D part_lba2 1 buf m;
       if \<not> ok then Some (Return 0, m)
       else do {
         sig \<leftarrow> has_fat_sig buf;
         if sig then Some (Return part_lba2, m)
         else if next_lba2 = 0 then Some (Continue buf, m)
         else logical_loop n D part_lba next_lba2 buf m } } }"

text \<open>The four entries of the partition table, \<open>ptr\<close> being the current one.\<close>

fun table_loop ::
  "nat \<Rightarrow> 'd DISC_INTERFACE \<Rightarrow> byte list \<Rightarrow> nat \<Rightarrow> byte list \<Rightarrow> 'd \<Rightarrow> (u32 \<times> 'd) option" where
  "table_loop 0 D part_table ptr buf m = Some (0, m)"
| "table_loop (Suc i) D part_table ptr buf m = do {
     part_lba \<leftarrow> u8array_to_u32 part_table (ptr + 0x8);
     sig \<leftarrow> has_fat_sig buf;
     if sig then Some (part_lba, m)
     else do {
       kind \<leftarrow> mem_get part_table (ptr + 4);
       if kind = 0 then table_loop i D part_table (ptr + 16) buf m
       else if kind = 0x0F then do {
         (r, m) \<leftarrow> logical_loop 8 D part_lba 0 buf m;
         case r of Return s \<Rightarrow> Some (s, m)
         | Continue buf \<Rightarrow> table_loop i D part_table (ptr + 16) buf m }
       else do {
         (ok, buf, m) \<leftarrow> FAT_disc_readSectors D part_lba 1 buf m;
         if \<not> ok then Some (0, m)
         else do {
           sig \<leftarrow> has_fat_sig buf;
           if sig then Some (part_lba, m)
           else table_loop i D part_table (ptr + 16) buf m } } } }"

definition FindFirstValidPartition :: "'d DISC_INTERFACE \<Rightarrow> 'd \<Rightarrow> (u32 \<times> 'd) option" where
  "FindFirstValidPartition D m = do {
     (ok, buf, m) \<leftarrow> FAT_disc_readSectors D 0 1 (replicate BYTES_PER_READ 0) m;
     if \<not> ok then Some (0, m)
     else do {
       part_table \<leftarrow> mem_read buf 0x1BE 64;
       table_loop 4 D part_table 0 buf m } }"

section \<open>Mounting\<close>

text \<open>\<open>strncpy\<close> of at most \<open>n\<close> bytes into \<open>n\<close> bytes: what follows the first NUL is zero.\<close>

definition strncpy_bytes :: "nat \<Rightarrow> byte list \<Rightarrow> byte list" where
  "strncpy_bytes n src =
     (let s = takeWhile (\<lambda>b. b \<noteq> 0) (take n src) in s @ replicate (n - length s) 0)"

text \<open>The fields that are computed from the boot sector \<open>buf\<close> of a volume at \<open>startSector\<close>.\<close>

definition partition_label :: "byte list \<Rightarrow> byte list option" where
  "partition_label buf = do {
     a \<leftarrow> sig_at buf BPB_FAT16_fileSysType;
     src \<leftarrow> mem_read buf (if a then BPB_FAT16_volumeLabel else BPB_FAT32_volumeLabel) 11;
     Some (strncpy_bytes 11 src @ [0]) }"

definition partition_params ::
  "'d DISC_INTERFACE \<Rightarrow> u32 \<Rightarrow> u32 \<Rightarrow> u32 \<Rightarrow> byte list \<Rightarrow> byte \<Rightarrow> u32 \<Rightarrow> 'd \<Rightarrow> 'd PARTITION option" where
  "partition_params D cacheSize pageSectors startSector buf junk count m = do {
     lbl \<leftarrow> partition_label buf;
     spf16 \<leftarrow> u8array_to_u16 buf BPB_sectorsPerFAT;
     spf32 \<leftarrow> u8array_to_u32 buf BPB_FAT32_sectorsPerFAT32;
     let spf = (if spf16 = 0 then spf32 else ucast spf16);
     ns16 \<leftarrow> u8array_to_u16 buf BPB_numSectorsSmall;
     ns32 \<leftarrow> u8array_to_u32 buf BPB_numSectors;
     let ns = (if ns16 = 0 then ns32 else ucast ns16);
     spcByte \<leftarrow> mem_get buf BPB_sectorsPerCluster;
     bps \<leftarrow> u8array_to_u16 buf BPB_bytesPerSector;
     let bytesPerSec = (512 :: u32);
     let spc = (ucast spcByte * ucast bps) div (512 :: u32);
     reserved \<leftarrow> u8array_to_u16 buf BPB_reservedSectors;
     let start = startSector + ucast reserved;
     nf \<leftarrow> mem_get buf BPB_numFATs;
     let rootStart = start + ucast nf * spf;
     re \<leftarrow> u8array_to_u16 buf BPB_rootEntries;
     let data = rootStart + (ucast re * of_nat DIR_ENTRY_DATA_SIZE) div bytesPerSec;
     let total = (ucast ns - ucast (data - startSector)) * ucast bytesPerSec;
     if spc = 0 then None
     else do {
       let clusterCount = (ns - (data - startSector)) div spc;
       let fs = (if clusterCount < CLUSTERS_PER_FAT12 then FS_FAT12
                 else if clusterCount < CLUSTERS_PER_FAT16 then FS_FAT16 else FS_FAT32);
       root32 \<leftarrow> u8array_to_u32 buf BPB_FAT32_rootClus;
       ext \<leftarrow> mem_get buf BPB_FAT32_extFlags;
       let root = (if fs \<noteq> FS_FAT32 then FAT16_ROOT_DIR_CLUSTER else root32);
       let fatStart' = (if fs = FS_FAT32 \<and> ext AND 0x80 = 0
                        then start + spf * ucast (ext AND 0x0F) else start);
       Some \<lparr>cache = FAT_cache_constructor cacheSize pageSectors D (startSector + ns) junk count m,
         filesysType = fs, totalSize = total, rootDirStart = rootStart, rootDirCluster = root,
         numberOfSectors = ns, dataStart = data, bytesPerSector = bytesPerSec,
         sectorsPerCluster = spc, bytesPerCluster = bytesPerSec * spc,
         fat = \<lparr>fatStart = fatStart', sectorsPerFat = spf,
           lastCluster = clusterCount + CLUSTER_FIRST - 1, firstFree = CLUSTER_FIRST\<rparr>,
         cwdCluster = root, openFileCount = 0, firstOpenFile = None,
         readOnly = (FAT_disc_features D AND FEATURE_MEDIUM_CANWRITE = 0), label = lbl\<rparr> } }"

text \<open>
  \<open>FAT_partition_constructor\<close> returns no partition when the disc cannot be read or does not
  hold a FAT boot sector. The allocation is taken to succeed.
\<close>

definition FAT_partition_constructor ::
  "'d DISC_INTERFACE \<Rightarrow> u32 \<Rightarrow> u32 \<Rightarrow> u32 \<Rightarrow> byte \<Rightarrow> u32 \<Rightarrow> 'd \<Rightarrow> ('d PARTITION option \<times> 'd) option" where
  "FAT_partition_constructor D cacheSize pageSectors startSector junk count m = do {
     (ok, buf, m) \<leftarrow> FAT_disc_readSectors D startSector 1 (replicate BYTES_PER_READ 0) m;
     if \<not> ok then Some (None, m)
     else do {
       b55 \<leftarrow> mem_get buf BPB_bootSig_55;
       bAA \<leftarrow> mem_get buf BPB_bootSig_AA;
       if b55 \<noteq> 0x55 \<or> bAA \<noteq> 0xAA then Some (None, m)
       else do {
         sig \<leftarrow> has_fat_sig buf;
         (ok, startSector, buf, m) \<leftarrow>
           (if startSector \<noteq> 0 then Some (True, startSector, buf, m)
            else if sig then Some (True, 0, buf, m)
            else do {
              (s, m) \<leftarrow> FindFirstValidPartition D m;
              (ok, buf, m) \<leftarrow> FAT_disc_readSectors D s 1 buf m;
              Some (ok, s, buf, m) });
         if \<not> ok then Some (None, m)
         else do {
           sig \<leftarrow> has_fat_sig buf;
           if \<not> sig then Some (None, m)
           else do {
             p \<leftarrow> partition_params D cacheSize pageSectors startSector buf junk count m;
             Some (Some p, m) } } } } }"

end
