(* ===== verification/PartitionCorrect.thy ===== *)
theory PartitionCorrect
  imports Partition Image
begin

text \<open>
  Mounting: for a well-formed boot sector the constructor returns a volume that satisfies the
  invariants of the cache and of the table, with the geometry the boot sector describes.
\<close>

section \<open>The geometry a boot sector describes\<close>

definition boot_u8 :: "byte list \<Rightarrow> nat \<Rightarrow> nat" where "boot_u8 buf off = unat (buf ! off)"
definition boot_u16 :: "byte list \<Rightarrow> nat \<Rightarrow> nat" where "boot_u16 buf off = unat (le16 (bslice buf off 2))"
definition boot_u32 :: "byte list \<Rightarrow> nat \<Rightarrow> nat" where "boot_u32 buf off = unat (le32 (bslice buf off 4))"

definition boot_spf :: "byte list \<Rightarrow> nat" where
  "boot_spf buf = (if boot_u16 buf BPB_sectorsPerFAT = 0 then boot_u32 buf BPB_FAT32_sectorsPerFAT32
     else boot_u16 buf BPB_sectorsPerFAT)"

definition boot_ns :: "byte list \<Rightarrow> nat" where
  "boot_ns buf = (if boot_u16 buf BPB_numSectorsSmall = 0 then boot_u32 buf BPB_numSectors
     else boot_u16 buf BPB_numSectorsSmall)"

definition boot_spc :: "byte list \<Rightarrow> nat" where
  "boot_spc buf = boot_u8 buf BPB_sectorsPerCluster * boot_u16 buf BPB_bytesPerSector div 512"

definition boot_root :: "byte list \<Rightarrow> nat" where
  "boot_root buf = boot_u16 buf BPB_reservedSectors + boot_u8 buf BPB_numFATs * boot_spf buf"

definition boot_data :: "byte list \<Rightarrow> nat" where
  "boot_data buf = boot_root buf + boot_u16 buf BPB_rootEntries * 32 div 512"

definition boot_clusters :: "byte list \<Rightarrow> nat" where
  "boot_clusters buf = (boot_ns buf - boot_data buf) div boot_spc buf"

definition boot_type :: "byte list \<Rightarrow> FS_TYPE" where
  "boot_type buf = (if boot_clusters buf < 4085 then FS_FAT12
     else if boot_clusters buf < 65525 then FS_FAT16 else FS_FAT32)"

definition boot_fat :: "byte list \<Rightarrow> nat" where
  "boot_fat buf = boot_u16 buf BPB_reservedSectors +
     (if boot_type buf = FS_FAT32 \<and> buf ! BPB_FAT32_extFlags AND 0x80 = 0
      then boot_spf buf * unat (buf ! BPB_FAT32_extFlags AND 0x0F) else 0)"

text \<open>The clusters fit into the volume, and the table in use holds an entry for each of them.\<close>

definition wf_boot :: "byte list \<Rightarrow> bool" where
  "wf_boot buf \<longleftrightarrow> length buf = 512 \<and> 0 < boot_spc buf \<and> boot_data buf \<le> boot_ns buf \<and>
     1 \<le> boot_clusters buf \<and> boot_clusters buf + 1 < unat (end_mark (boot_type buf)) \<and>
     boot_fat buf + fat_sectors (boot_type buf) (boot_clusters buf + 1) \<le> boot_root buf"

section \<open>The computed fields\<close>

lemma unat_lt_u8: "unat (b :: byte) < 256" and unat_lt_u16: "unat (h :: u16) < 65536"
  using unsigned_less [of b, where ?'a = nat] unsigned_less [of h, where ?'a = nat] by simp_all

lemma unat_ucast_u8: "unat (ucast (b :: byte) :: u32) = unat b"
  using unat_lt_u8 [of b] by (simp add: unsigned_ucast_eq take_bit_word_eq_self take_bit_nat_eq_self)

lemma unat_ucast_u16: "unat (ucast (h :: u16) :: u32) = unat h"
  using unat_lt_u16 [of h] by (simp add: unsigned_ucast_eq take_bit_word_eq_self take_bit_nat_eq_self)

lemma boot_reads:
  assumes "length buf = 512" "off + 4 \<le> 512"
  shows "u8array_to_u16 buf off = Some (le16 (bslice buf off 2))"
    "u8array_to_u32 buf off = Some (le32 (bslice buf off 4))"
    "mem_get buf off = Some (buf ! off)"
  using assms by (simp_all add: u8array_to_u16_eq u8array_to_u32_eq)

definition boot_word :: "byte list \<Rightarrow> nat \<Rightarrow> nat \<Rightarrow> u32" where
  "boot_word buf small large = (if le16 (bslice buf small 2) = 0 then le32 (bslice buf large 4)
     else ucast (le16 (bslice buf small 2)))"

lemma boot_word:
  "unat (boot_word buf BPB_sectorsPerFAT BPB_FAT32_sectorsPerFAT32) = boot_spf buf"
  "unat (boot_word buf BPB_numSectorsSmall BPB_numSectors) = boot_ns buf"
  by (auto simp: boot_word_def boot_spf_def boot_ns_def boot_u16_def boot_u32_def unat_ucast_u16
      unat_eq_zero)

lemma boot_spc_exact:
  "unat ((ucast (buf ! BPB_sectorsPerCluster) * ucast (le16 (bslice buf BPB_bytesPerSector 2))) div (512 :: u32)) =
   boot_spc buf"
proof -
  have "boot_u8 buf BPB_sectorsPerCluster * boot_u16 buf BPB_bytesPerSector \<le> 256 * 65536"
    unfolding boot_u8_def boot_u16_def
    by (rule mult_le_mono) (use unat_lt_u8 unat_lt_u16 less_imp_le in blast)+
  then show ?thesis
    by (simp add: boot_spc_def unat_div unat_mult_u32 unat_ucast_u8 unat_ucast_u16 boot_u8_def boot_u16_def)
qed

text \<open>The word arithmetic of the constructor is exact for a well-formed boot sector.\<close>

lemma boot_exact:
  assumes wf: "wf_boot buf"
  defines "spf \<equiv> boot_word buf BPB_sectorsPerFAT BPB_FAT32_sectorsPerFAT32"
    and "ns \<equiv> boot_word buf BPB_numSectorsSmall BPB_numSectors"
    and "spc \<equiv> (ucast (buf ! BPB_sectorsPerCluster) * ucast (le16 (bslice buf BPB_bytesPerSector 2))) div (512 :: u32)"
    and "res \<equiv> (ucast (le16 (bslice buf BPB_reservedSectors 2)) :: u32)"
  defines "root \<equiv> res + ucast (buf ! BPB_numFATs) * spf"
  defines "data \<equiv> root + (ucast (le16 (bslice buf BPB_rootEntries 2)) * of_nat DIR_ENTRY_DATA_SIZE) div 512"
  shows "unat spc = boot_spc buf" "unat root = boot_root buf" "unat data = boot_data buf"
    "unat ((ns - data) div spc) = boot_clusters buf" "unat res = boot_u16 buf BPB_reservedSectors"
proof -
  note w = wf [unfolded wf_boot_def]
  have ns: "unat ns = boot_ns buf" and spf: "unat spf = boot_spf buf"
    by (simp_all add: ns_def spf_def boot_word)
  have lt: "boot_ns buf < 2 ^ 32" using unat_lt_u32 [of ns] ns by simp
  have le: "boot_root buf \<le> boot_data buf" "boot_data buf \<le> boot_ns buf"
    "boot_u8 buf BPB_numFATs * boot_spf buf \<le> boot_root buf"
    using w by (simp_all add: boot_data_def boot_root_def)
  show spc: "unat spc = boot_spc buf" unfolding spc_def by (rule boot_spc_exact)
  show res: "unat res = boot_u16 buf BPB_reservedSectors"
    by (simp add: res_def boot_u16_def unat_ucast_u16)
  have m: "unat (ucast (buf ! BPB_numFATs) * spf) = boot_u8 buf BPB_numFATs * boot_spf buf"
    using le lt by (subst unat_mult_u32) (simp_all add: unat_ucast_u8 spf boot_u8_def)
  show root: "unat root = boot_root buf"
    using le lt m res unfolding root_def by (subst unat_add_u32) (simp_all add: boot_root_def)
  have "boot_u16 buf BPB_rootEntries < 65536" by (simp add: boot_u16_def unat_lt_u16)
  then have "unat ((ucast (le16 (bslice buf BPB_rootEntries 2)) * of_nat DIR_ENTRY_DATA_SIZE) div (512 :: u32)) =
      boot_u16 buf BPB_rootEntries * 32 div 512"
    unfolding unat_div
    by (subst unat_mult_u32) (simp_all add: unat_ucast_u16 boot_u16_def DIR_ENTRY_DATA_SIZE_def)
  then show data: "unat data = boot_data buf"
    using le lt root unfolding data_def by (subst unat_add_u32) (simp_all add: boot_data_def)
  show "unat ((ns - data) div spc) = boot_clusters buf"
    unfolding unat_div spc boot_clusters_def
    using le(2) ns data by (subst unat_sub_u32) simp_all
qed

text \<open>The number of the last cluster, and the sector of the table in use.\<close>

lemma last_exact:
  fixes n :: u32
  assumes "unat n = boot_clusters buf" "wf_boot buf"
  shows "unat (n + CLUSTER_FIRST - 1) = boot_clusters buf + 1" "2 \<le> n + CLUSTER_FIRST - 1"
    "n + CLUSTER_FIRST - 1 < end_mark (boot_type buf)"
proof -
  have b: "1 \<le> boot_clusters buf" "boot_clusters buf + 1 < unat (end_mark (boot_type buf))"
    using assms(2) by (simp_all add: wf_boot_def)
  have "n + CLUSTER_FIRST - 1 = n + 1" by (simp add: CLUSTER_FIRST_def)
  moreover have "unat (n + 1) = boot_clusters buf + 1"
    using assms(1) b(2) unat_lt_u32 [of "end_mark (boot_type buf)"] by (subst unat_next) simp_all
  ultimately show u: "unat (n + CLUSTER_FIRST - 1) = boot_clusters buf + 1" by metis
  show "2 \<le> n + CLUSTER_FIRST - 1" "n + CLUSTER_FIRST - 1 < end_mark (boot_type buf)"
    unfolding word_le_nat_alt word_less_nat_alt u using b by simp_all
qed

lemma type_exact:
  fixes n :: u32
  assumes "unat n = boot_clusters buf"
  shows "(if n < CLUSTERS_PER_FAT12 then FS_FAT12 else if n < CLUSTERS_PER_FAT16 then FS_FAT16 else FS_FAT32) =
    boot_type buf"
  by (simp add: word_less_nat_alt assms boot_type_def CLUSTERS_PER_FAT12_def CLUSTERS_PER_FAT16_def)

lemma table_exact:
  fixes spf res :: u32
  assumes "wf_boot buf" "unat spf = boot_spf buf" "unat res = boot_u16 buf BPB_reservedSectors"
  shows "unat (if boot_type buf = FS_FAT32 \<and> buf ! BPB_FAT32_extFlags AND 0x80 = 0
     then res + spf * ucast (buf ! BPB_FAT32_extFlags AND 0x0F) else res) = boot_fat buf"
proof (cases "boot_type buf = FS_FAT32 \<and> buf ! BPB_FAT32_extFlags AND 0x80 = 0")
  case True
  have le: "boot_fat buf \<le> boot_root buf" "boot_root buf \<le> boot_ns buf"
    using assms(1) by (simp_all add: wf_boot_def boot_data_def)
  have lt: "boot_ns buf < 2 ^ 32"
    using unat_lt_u32 [of "boot_word buf BPB_numSectorsSmall BPB_numSectors"] boot_word by simp
  have f: "boot_fat buf = boot_u16 buf BPB_reservedSectors + boot_spf buf * unat (buf ! BPB_FAT32_extFlags AND 0x0F)"
    using True by (simp add: boot_fat_def)
  let ?e = "buf ! BPB_FAT32_extFlags AND 0x0F"
  have u: "unat (ucast ?e :: u32) = unat ?e" by (rule unat_ucast_u8)
  have "boot_spf buf * unat ?e < 2 ^ 32" using f le lt by linarith
  then have p: "unat (spf * ucast ?e) = boot_spf buf * unat ?e"
    using unat_mult_u32 [of spf "ucast ?e"] unfolding u assms(2) by blast
  have "unat res + unat (spf * ucast ?e) < 2 ^ 32" using f le lt assms(3) p by linarith
  then show ?thesis
    using unat_add_u32 [of res "spf * ucast ?e"] True f assms(3) p by simp
next
  case False
  show ?thesis unfolding boot_fat_def if_not_P [OF False] using assms(3) by simp
qed

section \<open>Mounting a well-formed volume\<close>

lemma boot_offsets:
  "BPB_bytesPerSector + 4 \<le> 512" "BPB_sectorsPerCluster + 4 \<le> 512" "BPB_reservedSectors + 4 \<le> 512"
  "BPB_numFATs + 4 \<le> 512" "BPB_rootEntries + 4 \<le> 512" "BPB_numSectorsSmall + 4 \<le> 512"
  "BPB_sectorsPerFAT + 4 \<le> 512" "BPB_numSectors + 4 \<le> 512" "BPB_FAT32_sectorsPerFAT32 + 4 \<le> 512"
  "BPB_FAT32_extFlags + 4 \<le> 512" "BPB_FAT32_rootClus + 4 \<le> 512"
  by (simp_all add: BPB_defs)

definition mounted :: "byte list \<Rightarrow> Instance \<Rightarrow> Instance PARTITION \<Rightarrow> bool" where
  "mounted buf m p \<longleftrightarrow> image_volume_inv p \<and> data_geometry p \<and> image_view (cache p) = image_sec m \<and>
     filesysType p = boot_type buf \<and> unat (lastCluster (fat p)) = boot_clusters buf + 1 \<and>
     unat (sectorsPerCluster p) = boot_spc buf \<and> unat (dataStart p) = boot_data buf \<and>
     unat (fatStart (fat p)) = boot_fat buf \<and> firstFree (fat p) = CLUSTER_FIRST \<and>
     bytesPerCluster p = 512 * sectorsPerCluster p \<and> \<not> readOnly p"

lemma params_mounted:
  assumes wf: "wf_boot buf" and m: "image_ok m" "boot_ns buf \<le> image_nsec m"
    "boot_ns buf + max 8 (unat pageSectors) < 2 ^ 32" "512 * max 8 (unat pageSectors) < 2 ^ 32"
  obtains p where "partition_params discio cacheSize pageSectors 0 buf junk count m = Some p" "mounted buf m p"
proof -
  let ?spf = "boot_word buf BPB_sectorsPerFAT BPB_FAT32_sectorsPerFAT32"
  let ?ns = "boot_word buf BPB_numSectorsSmall BPB_numSectors"
  let ?spc = "(ucast (buf ! BPB_sectorsPerCluster) * ucast (le16 (bslice buf BPB_bytesPerSector 2))) div (512 :: u32)"
  let ?res = "ucast (le16 (bslice buf BPB_reservedSectors 2)) :: u32"
  let ?root = "?res + ucast (buf ! BPB_numFATs) * ?spf"
  let ?data = "?root + (ucast (le16 (bslice buf BPB_rootEntries 2)) * of_nat DIR_ENTRY_DATA_SIZE) div 512"
  let ?n = "(?ns - ?data) div ?spc"
  note e = boot_exact [OF wf] and l = last_exact [OF boot_exact(4) [OF wf] wf]
  have len: "length buf = 512" and w: "0 < boot_spc buf" "boot_data buf \<le> boot_ns buf"
    "boot_fat buf + fat_sectors (boot_type buf) (boot_clusters buf + 1) \<le> boot_root buf"
    using wf by (simp_all add: wf_boot_def)
  have spc: "?spc \<noteq> 0" using e(1) w(1) by (auto simp: word_unat_eq_iff)
  note c = image.constructor_ok [of m ?ns pageSectors cacheSize junk count, unfolded boot_word, OF m]
  note t = table_exact [OF wf boot_word(1) e(5)]
  obtain lbl where lbl: "partition_label buf = Some lbl"
    using len by (simp add: partition_label_def sig_at_def BPB_defs)
  let ?fs = "boot_type buf"
  let ?start = "if ?fs = FS_FAT32 \<and> buf ! BPB_FAT32_extFlags AND 0x80 = 0
     then ?res + ?spf * ucast (buf ! BPB_FAT32_extFlags AND 0x0F) else ?res"
  define root where "root = (if ?fs \<noteq> FS_FAT32 then FAT16_ROOT_DIR_CLUSTER else le32 (bslice buf BPB_FAT32_rootClus 4))"
  define p where "p = \<lparr>cache = FAT_cache_constructor cacheSize pageSectors discio (0 + ?ns) junk count m,
     filesysType = ?fs, totalSize = (ucast ?ns - ucast (?data - 0)) * ucast (512 :: u32), rootDirStart = ?root,
     rootDirCluster = root, numberOfSectors = ?ns, dataStart = ?data, bytesPerSector = 512,
     sectorsPerCluster = ?spc, bytesPerCluster = 512 * ?spc,
     fat = \<lparr>fatStart = ?start, sectorsPerFat = ?spf, lastCluster = ?n + CLUSTER_FIRST - 1, firstFree = CLUSTER_FIRST\<rparr>,
     cwdCluster = root, openFileCount = 0, firstOpenFile = None,
     readOnly = (FAT_disc_features discio AND FEATURE_MEDIUM_CANWRITE = 0), label = lbl\<rparr>"
  have s: "sectorsPerFat (fat p) = ?spf" "filesysType p = ?fs" "lastCluster (fat p) = ?n + CLUSTER_FIRST - 1"
    "fatStart (fat p) = ?start" "dataStart p = ?data" "sectorsPerCluster p = ?spc"
    "cache p = FAT_cache_constructor cacheSize pageSectors discio ?ns junk count m" "firstFree (fat p) = CLUSTER_FIRST"
    "bytesPerCluster p = 512 * ?spc"
    by (simp_all add: p_def)
  have ro: "\<not> readOnly p"
    by (simp add: p_def FAT_disc_features_def discio_def FEATURE_MEDIUM_CANWRITE_def FEATURE_MEDIUM_CANREAD_def)
  have run: "partition_params discio cacheSize pageSectors 0 buf junk count m = Some p"
    using lbl type_exact [OF e(4)] spc
    by (simp add: partition_params_def boot_reads [OF len] boot_offsets Let_def p_def root_def
        flip: boot_word_def split del: if_split cong del: if_weak_cong)
  have geo: "image_volume_inv p" "data_geometry p"
  proof -
    have ts: "table_sectors p = fat_sectors ?fs (boot_clusters buf + 1)"
      by (simp add: table_sectors_def s(2,3) l(1))
    have le: "boot_root buf \<le> boot_data buf" by (simp add: boot_data_def)
    have en: "unat (endOfPartition (cache p)) = boot_ns buf" using c(4) s(7) boot_word(2) by simp
    have "?fs \<noteq> FS_UNKNOWN" by (simp add: boot_type_def)
    then show "image_volume_inv p"
      using c(1) s l(2,3) ts t w le en by (simp add: fat_inv_def fat_geometry_def)
    have "boot_clusters buf * boot_spc buf \<le> boot_ns buf - boot_data buf"
      by (simp add: boot_clusters_def)
    then show "data_geometry p"
      using s l(1) ts t w le en e by (simp add: data_geometry_def)
  qed
  have "mounted buf m p"
    unfolding mounted_def using geo s c(2) e t l(1) ro by simp
  with run that show thesis by blast
qed

section \<open>The first sector of the disc\<close>

lemma read_one:
  assumes "image_ok m" "unat s < image_nsec m" "length buf = 512"
  shows "FAT_disc_readSectors discio s 1 buf m = Some (True, image_sec m (unat s), m)"
proof -
  have "length (image_sec m (unat s)) = 512" by (rule image.sec_length [OF assms(1,2)])
  then have "overwrite buf 0 (sectors (image_sec m) (unat s) (unat (1 :: u32))) = image_sec m (unat s)"
    using assms(3) sectors_Suc [of "image_sec m" "unat s" 0] by simp
  then show ?thesis
    using image.read_sectors [OF assms(1), of s 1 buf] assms(2,3) by (simp add: FAT_disc_readSectors_def)
qed

definition fat_sector :: "byte list \<Rightarrow> bool" where
  "fat_sector buf \<longleftrightarrow> bslice buf 0x36 3 = FAT_SIG \<or> bslice buf 0x52 3 = FAT_SIG"

lemma has_fat_sig_eq: "length buf = 512 \<Longrightarrow> has_fat_sig buf = Some (fat_sector buf)"
  by (auto simp: has_fat_sig_def sig_at_def fat_sector_def BPB_defs)

lemma sec_length: "image_ok m \<Longrightarrow> t < image_nsec m \<Longrightarrow> length (image_sec m t) = 512"
  by (rule image.sec_length)

text \<open>What the constructor does once it has read a boot sector with a signature in sector 0.\<close>

lemma constructor_boot:
  assumes "image_ok m" "0 < image_nsec m" "fat_sector (image_sec m 0)"
    and "image_sec m 0 ! 0x1FE = 0x55" "image_sec m 0 ! 0x1FF = 0xAA"
  shows "FAT_partition_constructor discio cacheSize pageSectors 0 junk count m =
    do { p \<leftarrow> partition_params discio cacheSize pageSectors 0 (image_sec m 0) junk count m; Some (Some p, m) }"
proof -
  have l: "length (image_sec m 0) = 512" by (rule sec_length [OF assms(1,2)])
  then show ?thesis
    using read_one [of m 0 "replicate BYTES_PER_READ 0"] assms has_fat_sig_eq [OF l]
    by (simp add: FAT_partition_constructor_def BYTES_PER_READ_def BPB_defs)
qed

text \<open>The scan of the partition table skips empty entries.\<close>

lemma table_skip:
  "length tab = 64 \<Longrightarrow> length buf = 512 \<Longrightarrow> \<not> fat_sector buf \<Longrightarrow> k \<le> n \<Longrightarrow> q + 16 * n \<le> 64 \<Longrightarrow>
   (\<And>j. j < k \<Longrightarrow> tab ! (q + 16 * j + 4) = 0) \<Longrightarrow>
   table_loop n D tab q buf m = table_loop (n - k) D tab (q + 16 * k) buf m"
proof (induction k arbitrary: n q)
  case (Suc k)
  then obtain n' where n: "n = Suc n'" "k \<le> n'" by (cases n) auto
  have "table_loop n D tab q buf m = table_loop n' D tab (q + 16) buf m"
    using Suc.prems n Suc.prems(6) [of 0] by (simp add: u8array_to_u32_eq has_fat_sig_eq)
  also have "\<dots> = table_loop (n' - k) D tab (q + 16 + 16 * k) buf m"
    by (rule Suc.IH) (use Suc.prems n Suc.prems(6) [of "Suc j" for j] in \<open>auto simp: algebra_simps\<close>)
  finally show ?case using n by (simp add: add.assoc)
qed simp

lemma find_first:
  assumes m: "image_ok m" "0 < image_nsec m" "\<not> fat_sector (image_sec m 0)"
    and i: "i < 4" "\<And>j. j < i \<Longrightarrow> image_sec m 0 ! (0x1BE + 16 * j + 4) = 0"
    and k: "image_sec m 0 ! (0x1BE + 16 * i + 4) \<notin> {0, 0x0F}"
    and s: "unat (le32 (bslice (image_sec m 0) (0x1BE + 16 * i + 8) 4)) < image_nsec m"
      "fat_sector (image_sec m (unat (le32 (bslice (image_sec m 0) (0x1BE + 16 * i + 8) 4))))"
  shows "FindFirstValidPartition discio m = Some (le32 (bslice (image_sec m 0) (0x1BE + 16 * i + 8) 4), m)"
proof -
  let ?b = "image_sec m 0"
  let ?t = "bslice ?b 0x1BE 64"
  let ?s = "le32 (bslice ?b (0x1BE + 16 * i + 8) 4)"
  have l: "length ?b = 512" by (rule sec_length [OF m(1,2)])
  then have lt: "length ?t = 64" by simp
  have nth: "?t ! j = ?b ! (0x1BE + j)" if "j < 64" for j using that l by (intro nth_slice) simp_all
  have lba: "u8array_to_u32 ?t (16 * i + 8) = Some ?s"
    using lt i(1) l by (subst u8array_to_u32_eq) (simp_all add: slice_slice add.assoc)
  obtain n where n: "4 - i = Suc n" using i(1) by (cases "4 - i") auto
  have "table_loop 4 discio ?t 0 ?b m = table_loop (4 - i) discio ?t (0 + 16 * i) ?b m"
    by (rule table_skip) (use lt l m(3) i nth in auto)
  also have "\<dots> = Some (?s, m)"
    using n lba nth [of "16 * i + 4"] i(1) k lt l m(3) s read_one [OF m(1) s(1) l]
      has_fat_sig_eq [OF l] has_fat_sig_eq [OF sec_length [OF m(1) s(1)]]
    by (simp add: add.assoc)
  finally show ?thesis
    using read_one [of m 0 "replicate BYTES_PER_READ 0"] m(1,2) l
    by (simp add: FindFirstValidPartition_def BYTES_PER_READ_def)
qed

end
