(* ===== verification/PartitionProperties.thy ===== *)
theory PartitionProperties
  imports PartitionCorrect
begin

text \<open>
  What mounting promises, with a small boot sector on which the properties are applied.
\<close>

definition example_boot :: "byte list" where
  "example_boot = replicate 11 0 @ [0, 2, 1, 1, 0, 1, 32, 0, 16, 0, 0xF8, 1, 0] @ replicate 30 0 @
     [0x46, 0x41, 0x54] @ replicate 453 0 @ [0x55, 0xAA]"

definition boot_image :: Instance where
  "boot_image = \<lparr>buffer = example_boot @ replicate 7680 0, size_bytes = 8192\<rparr>"

lemma example_boot_bytes:
  "length example_boot = 512" "example_boot ! 0x0D = 1" "example_boot ! 0x10 = 1"
  "example_boot ! 0x28 = 0" "example_boot ! 0x1FE = 0x55" "example_boot ! 0x1FF = 0xAA"
  "bslice example_boot 0x0B 2 = [0, 2]" "bslice example_boot 0x0E 2 = [1, 0]"
  "bslice example_boot 0x11 2 = [32, 0]" "bslice example_boot 0x13 2 = [16, 0]"
  "bslice example_boot 0x16 2 = [1, 0]" "bslice example_boot 0x36 3 = FAT_SIG"
  by (simp_all add: example_boot_def bslice_def FAT_SIG_def nth_append)

lemma boot_image_ok: "image_ok boot_image" "image_nsec boot_image = 16" "image_sec boot_image 0 = example_boot"
proof -
  show "image_ok boot_image" "image_nsec boot_image = 16"
    by (simp_all add: image_ok_def image_nsec_def boot_image_def example_boot_bytes)
  show "image_sec boot_image 0 = example_boot"
    by (simp add: image_sec_def boot_image_def bslice_def example_boot_bytes)
qed

lemma example_boot_fields:
  "boot_spc example_boot = 1" "boot_root example_boot = 2" "boot_data example_boot = 4"
  "boot_ns example_boot = 16" "boot_clusters example_boot = 12" "boot_type example_boot = FS_FAT12"
  "boot_fat example_boot = 1"
proof -
  note b = BPB_defs boot_u8_def boot_u16_def example_boot_bytes le16_def
  show s: "boot_spc example_boot = 1" by (simp add: boot_spc_def b)
  show r: "boot_root example_boot = 2" by (simp add: boot_root_def boot_spf_def b)
  show d: "boot_data example_boot = 4" by (simp add: boot_data_def r b)
  show n: "boot_ns example_boot = 16" by (simp add: boot_ns_def b)
  show c: "boot_clusters example_boot = 12" by (simp add: boot_clusters_def s d n)
  show t: "boot_type example_boot = FS_FAT12" by (simp add: boot_type_def c)
  show "boot_fat example_boot = 1" by (simp add: boot_fat_def t b)
qed

lemma example_wf: "wf_boot example_boot" "fat_sector example_boot"
  by (simp_all add: wf_boot_def example_boot_fields example_boot_bytes fat_sectors_def fat_sector_def)

text \<open>
  C35. Mounting a well-formed boot sector in sector 0 succeeds and returns a volume that satisfies
  the invariants of the cache, of the table and of the data region, with the type, the clusters
  and the regions the boot sector describes, and that shows the sectors of the disc.
\<close>

theorem mount_volume:
  assumes "image_ok m" "0 < image_nsec m" "wf_boot (image_sec m 0)" "fat_sector (image_sec m 0)"
    "image_sec m 0 ! 0x1FE = 0x55" "image_sec m 0 ! 0x1FF = 0xAA" "boot_ns (image_sec m 0) \<le> image_nsec m"
    "boot_ns (image_sec m 0) + max 8 (unat pageSectors) < 2 ^ 32" "512 * max 8 (unat pageSectors) < 2 ^ 32"
  shows "\<exists>p. FAT_partition_constructor discio cacheSize pageSectors 0 junk count m = Some (Some p, m) \<and>
    mounted (image_sec m 0) m p"
proof -
  obtain p where "partition_params discio cacheSize pageSectors 0 (image_sec m 0) junk count m = Some p"
    "mounted (image_sec m 0) m p"
    by (rule params_mounted [OF assms(3,1,7-9)])
  then show ?thesis using constructor_boot [OF assms(1,2,4-6)] by simp
qed

theorem mount_volume_witness:
  "\<exists>p. FAT_partition_constructor discio 4 8 0 0 0 boot_image = Some (Some p, boot_image) \<and>
    filesysType p = FS_FAT12 \<and> unat (lastCluster (fat p)) = 13"
  using mount_volume [of boot_image 8 4 0] example_wf
  by (auto simp: boot_image_ok example_boot_fields example_boot_bytes mounted_def)

text \<open>
  The number of sectors in a cluster is not checked: a boot sector with the signature of a FAT
  volume and clusters of less than one sector makes the constructor divide by zero.
\<close>

theorem mount_divides_by_zero:
  assumes "image_ok m" "0 < image_nsec m" "fat_sector (image_sec m 0)"
    "image_sec m 0 ! 0x1FE = 0x55" "image_sec m 0 ! 0x1FF = 0xAA" "boot_spc (image_sec m 0) = 0"
  shows "FAT_partition_constructor discio cacheSize pageSectors 0 junk count m = None"
proof -
  let ?b = "image_sec m 0"
  have l: "length ?b = 512" by (rule sec_length [OF assms(1,2)])
  have "unat ((ucast (?b ! BPB_sectorsPerCluster) * ucast (le16 (bslice ?b BPB_bytesPerSector 2))) div (512 :: u32)) = 0"
    using assms(6) boot_spc_exact by simp
  then have "partition_params discio cacheSize pageSectors 0 ?b junk count m = None"
    by (auto simp: partition_params_def boot_reads [OF l] boot_offsets Let_def unat_eq_zero split: bind_splits)
  then show ?thesis using constructor_boot [OF assms(1-5)] by simp
qed

definition zero_image :: Instance where
  "zero_image = \<lparr>buffer = replicate 54 0 @ [0x46, 0x41, 0x54] @ replicate 453 0 @ [0x55, 0xAA], size_bytes = 512\<rparr>"

theorem mount_divides_by_zero_witness:
  "FAT_partition_constructor discio 4 8 0 0 0 zero_image = None"
proof (rule mount_divides_by_zero)
  have b: "image_sec zero_image 0 = replicate 54 0 @ [0x46, 0x41, 0x54] @ replicate 453 0 @ [0x55, 0xAA]"
    by (simp add: image_sec_def zero_image_def bslice_def)
  show "image_ok zero_image" "0 < image_nsec zero_image"
    by (simp_all add: image_ok_def image_nsec_def zero_image_def)
  show "fat_sector (image_sec zero_image 0)" "image_sec zero_image 0 ! 0x1FE = 0x55"
    "image_sec zero_image 0 ! 0x1FF = 0xAA" "boot_spc (image_sec zero_image 0) = 0"
    by (simp_all add: b fat_sector_def bslice_def FAT_SIG_def nth_append boot_spc_def boot_u8_def BPB_defs)
qed

text \<open>
  When sector 0 is a partition table, the first entry that is not empty and not an extended
  partition gives the start of the volume, if that sector has the signature of a FAT volume.
\<close>

theorem find_first_partition:
  assumes "image_ok m" "0 < image_nsec m" "\<not> fat_sector (image_sec m 0)" "i < 4"
    "\<And>j. j < i \<Longrightarrow> image_sec m 0 ! (0x1BE + 16 * j + 4) = 0"
    "image_sec m 0 ! (0x1BE + 16 * i + 4) \<notin> {0, 0x0F}"
    "unat (le32 (bslice (image_sec m 0) (0x1BE + 16 * i + 8) 4)) < image_nsec m"
    "fat_sector (image_sec m (unat (le32 (bslice (image_sec m 0) (0x1BE + 16 * i + 8) 4))))"
  shows "FindFirstValidPartition discio m = Some (le32 (bslice (image_sec m 0) (0x1BE + 16 * i + 8) 4), m)"
  using find_first [OF assms] .

definition table_image :: Instance where
  "table_image = \<lparr>buffer = replicate 466 0 @ [6, 0, 0, 0, 2] @ replicate 39 0 @ [0x55, 0xAA] @ replicate 512 0 @
     example_boot @ replicate 6656 0, size_bytes = 8192\<rparr>"

theorem find_first_partition_witness: "FindFirstValidPartition discio table_image = Some (2, table_image)"
proof -
  have s0: "image_sec table_image 0 = replicate 466 0 @ [6, 0, 0, 0, 2] @ replicate 39 0 @ [0x55, 0xAA]"
    by (simp add: image_sec_def table_image_def bslice_def)
  have s2: "image_sec table_image 2 = example_boot"
    by (simp add: image_sec_def table_image_def bslice_def example_boot_bytes)
  have lba: "le32 (bslice (image_sec table_image 0) (0x1BE + 16 * 1 + 8) 4) = 2"
    by (simp add: s0 bslice_def le32_def)
  have "image_ok table_image" "image_nsec table_image = 16"
    by (simp_all add: image_ok_def image_nsec_def table_image_def example_boot_bytes)
  moreover have "replicate 3 0 = [0, 0, 0 :: byte]" by (simp add: numeral_eq_Suc)
  then have "\<not> fat_sector (image_sec table_image 0)"
    by (simp add: s0 fat_sector_def bslice_def FAT_SIG_def)
  moreover have "image_sec table_image 0 ! (0x1BE + 16 * j + 4) = 0" if "j < 1" for j
    using that by (simp add: s0 nth_append)
  moreover have "image_sec table_image 0 ! (0x1BE + 16 * 1 + 4) \<notin> {0, 0x0F}"
    by (simp add: s0 nth_append)
  ultimately have "FindFirstValidPartition discio table_image =
      Some (le32 (bslice (image_sec table_image 0) (0x1BE + 16 * 1 + 8) 4), table_image)"
    by (intro find_first_partition) (simp_all add: lba [simplified] s2 example_wf)
  then show ?thesis unfolding lba .
qed

end
