(* ===== verification/FatFile.thy ===== *)
theory FatFile
  imports FatTable
begin

text \<open>
  Open files: \<^verbatim>\<open>utils/libfat/fatfile.c\<close> without the operations on paths. A file structure lives at
  an address; \<open>VOLUME\<close> is a mounted partition with its open files and the error number of the last
  call. All files belong to that partition, so the field \<open>partition\<close> of the C structure is left out.
  Reading and writing are split into the steps of the C functions, which work on the record \<open>XFER\<close>:
  the partition, the position, the bytes that remain, the caller's buffer and the place in it.

  The field \<open>byte\<close> of a position is never negative; its 32 bits are read as unsigned.
\<close>

section \<open>State\<close>

datatype Errno = EBADF | EOVERFLOW | EIO | ENOSPC | EINVAL | EFBIG | EROFS | EACCES | ENODEV | EEXIST
  | EISDIR | ENOTDIR | ENOENT

record FILE_POSITION =
  fp_cluster :: u32
  fp_sector :: u32
  fp_byte :: u32

record DIR_ENTRY_POSITION =
  dp_cluster :: u32
  dp_sector :: u32
  dp_offset :: int

record FILE_STRUCT =
  filesize :: u32
  startCluster :: u32
  currentPosition :: u32
  rwPosition :: FILE_POSITION
  appendPosition :: FILE_POSITION
  dirEntryStart :: DIR_ENTRY_POSITION
  dirEntryEnd :: DIR_ENTRY_POSITION
  prevOpenFile :: "nat option"
  nextOpenFile :: "nat option"
  f_read :: bool
  f_write :: bool
  f_append :: bool
  inUse :: bool
  modified :: bool

record 'd VOLUME =
  vol :: "'d PARTITION"
  files :: "nat \<Rightarrow> FILE_STRUCT option"
  errno :: "Errno option"

definition FILE_MAX_SIZE :: nat where "FILE_MAX_SIZE = 0xFFFFFFFF"

text \<open>The state of a transfer: \<open>x_ptr\<close> is the place of \<open>ptr\<close> in the caller's buffer \<open>x_buf\<close>.\<close>

record 'd XFER =
  x_part :: "'d PARTITION"
  x_pos :: FILE_POSITION
  x_remain :: nat
  x_buf :: "byte list"
  x_ptr :: nat
  x_ok :: bool
  x_errno :: "Errno option"

definition fail :: "Errno \<Rightarrow> 'd XFER \<Rightarrow> 'd XFER" where
  "fail e x = x\<lparr>x_ok := False, x_errno := Some e\<rparr>"

definition pos_sector :: "'d PARTITION \<Rightarrow> FILE_POSITION \<Rightarrow> u32" where
  "pos_sector p q = FAT_fat_clusterToSector p (fp_cluster q) + fp_sector q"

section \<open>Reading\<close>

text \<open>The bytes a cache read stores; a failed read stores what it had read so far.\<close>

definition read_partial_at :: "u32 \<Rightarrow> u32 \<Rightarrow> nat \<Rightarrow> 'd XFER \<Rightarrow> 'd XFER option" where
  "read_partial_at sector off n x = do {
     (b, d, c) \<leftarrow> FAT_cache_readPartialSector (cache (x_part x)) sector off n;
     buf \<leftarrow> mem_write (x_buf x) (x_ptr x) d;
     Some (x\<lparr>x_part := set_cache c (x_part x), x_buf := buf\<rparr>) }"

definition read_sectors_at :: "u32 \<Rightarrow> u32 \<Rightarrow> 'd XFER \<Rightarrow> (bool \<times> 'd XFER) option" where
  "read_sectors_at sector n x = do {
     (b, d, c) \<leftarrow> FAT_cache_readSectors (cache (x_part x)) sector n;
     buf \<leftarrow> mem_write (x_buf x) (x_ptr x) d;
     Some (b, x\<lparr>x_part := set_cache c (x_part x), x_buf := buf\<rparr>) }"

text \<open>\<open>ptr\<close> and \<open>remain\<close> move on by \<open>n\<close> bytes.\<close>

definition advance :: "nat \<Rightarrow> 'd XFER \<Rightarrow> 'd XFER" where
  "advance n x = x\<lparr>x_ptr := x_ptr x + n, x_remain := x_remain x - n\<rparr>"

definition add_byte :: "u32 \<Rightarrow> FILE_POSITION \<Rightarrow> FILE_POSITION" where
  "add_byte n q =
     (let q = q\<lparr>fp_byte := fp_byte q + n\<rparr> in
      if fp_byte q \<ge> 512 then q\<lparr>fp_byte := 0, fp_sector := fp_sector q + 1\<rparr> else q)"

text \<open>The number of bytes up to the end of the sector, or to the end of the data.\<close>

definition sector_rest :: "'d XFER \<Rightarrow> u32" where
  "sector_rest x =
     (let tempVar = 512 - fp_byte (x_pos x) in
      if unat tempVar > x_remain x then of_nat (x_remain x) else tempVar)"

definition read_align_sector :: "'d XFER \<Rightarrow> 'd XFER option" where
  "read_align_sector x =
     (let tempVar = sector_rest x in
      if tempVar < 512 \<and> x_ok x then do {
        x \<leftarrow> read_partial_at (pos_sector (x_part x) (x_pos x)) (fp_byte (x_pos x)) (unat tempVar) x;
        let x = advance (unat tempVar) x;
        Some (x\<lparr>x_pos := add_byte tempVar (x_pos x)\<rparr>) }
      else Some x)"

text \<open>The number of sectors up to the end of the cluster, or to the end of the data.\<close>

definition cluster_rest :: "'d XFER \<Rightarrow> u32" where
  "cluster_rest x =
     (let left = sectorsPerCluster (x_part x) - fp_sector (x_pos x) in
      if x_remain x > unat (left * 512) then left else of_nat (x_remain x div 512))"

definition read_align_cluster :: "'d XFER \<Rightarrow> 'd XFER option" where
  "read_align_cluster x =
     (let tempVar = cluster_rest x in
      if tempVar > 0 \<and> x_ok x then do {
        (b, x) \<leftarrow> read_sectors_at (pos_sector (x_part x) (x_pos x)) tempVar x;
        if \<not> b then Some (fail EIO x)
        else Some ((advance (unat (tempVar * 512)) x)\<lparr>x_pos :=
          (x_pos x)\<lparr>fp_sector := fp_sector (x_pos x) + tempVar\<rparr>\<rparr>) }
      else Some x)"

definition read_next_cluster :: "'d XFER \<Rightarrow> 'd XFER option" where
  "read_next_cluster x =
     (if fp_sector (x_pos x) \<ge> sectorsPerCluster (x_part x) \<and> x_ok x then do {
        (tempNextCluster, p) \<leftarrow> FAT_fat_nextCluster (x_part x) (fp_cluster (x_pos x));
        let x = x\<lparr>x_part := p\<rparr>;
        Some (if x_remain x = 0 \<and> tempNextCluster = CLUSTER_EOF
              then x\<lparr>x_pos := (x_pos x)\<lparr>fp_sector := sectorsPerCluster p\<rparr>\<rparr>
              else if \<not> FAT_fat_isValidCluster p tempNextCluster then fail EIO x
              else x\<lparr>x_pos := (x_pos x)\<lparr>fp_sector := 0, fp_cluster := tempNextCluster\<rparr>\<rparr>) }
      else Some x)"

text \<open>
  The \<open>do\<close> loop that gathers clusters with consecutive numbers; it returns \<open>chunkEnd\<close>,
  \<open>nextChunkStart\<close> and \<open>chunkSize\<close>.
\<close>

partial_function (option) read_chunk ::
  "'d PARTITION \<Rightarrow> nat \<Rightarrow> u32 \<Rightarrow> nat \<Rightarrow> (u32 \<times> u32 \<times> nat \<times> 'd PARTITION) option" where
  [code]: "read_chunk p remain nextChunkStart chunkSize = do {
     let chunkEnd = nextChunkStart;
     (nextChunkStart, p) \<leftarrow> FAT_fat_nextCluster p chunkEnd;
     let chunkSize = chunkSize + unat (bytesPerCluster p);
     if nextChunkStart = chunkEnd + 1 \<and> chunkSize + unat (bytesPerCluster p) \<le> remain
     then read_chunk p remain nextChunkStart chunkSize
     else Some (chunkEnd, nextChunkStart, chunkSize, p) }"

partial_function (option) read_clusters :: "'d XFER \<Rightarrow> 'd XFER option" where
  [code]: "read_clusters x =
     (if x_remain x \<ge> unat (bytesPerCluster (x_part x)) \<and> x_ok x then do {
        (chunkEnd, nextChunkStart, chunkSize, p) \<leftarrow>
          read_chunk (x_part x) (x_remain x) (fp_cluster (x_pos x)) 0;
        let x = x\<lparr>x_part := p\<rparr>;
        (b, x) \<leftarrow> read_sectors_at (FAT_fat_clusterToSector p (fp_cluster (x_pos x)))
          (of_nat (chunkSize div 512)) x;
        if \<not> b then Some (fail EIO x)
        else do {
          let x = advance chunkSize x;
          let p = x_part x;
          read_clusters
            (if x_remain x = 0 \<and> nextChunkStart = CLUSTER_EOF
             then x\<lparr>x_pos := (x_pos x)\<lparr>fp_sector := sectorsPerCluster p, fp_cluster := chunkEnd\<rparr>\<rparr>
             else if \<not> FAT_fat_isValidCluster p nextChunkStart then fail EIO x
             else x\<lparr>x_pos := (x_pos x)\<lparr>fp_sector := 0, fp_cluster := nextChunkStart\<rparr>\<rparr>) } }
      else Some x)"

definition read_rest :: "'d XFER \<Rightarrow> 'd XFER option" where
  "read_rest x =
     (let tempVar = (of_nat (x_remain x div 512) :: u32) in
      if tempVar > 0 \<and> x_ok x then do {
        (b, x) \<leftarrow> read_sectors_at (FAT_fat_clusterToSector (x_part x) (fp_cluster (x_pos x))) tempVar x;
        if \<not> b then Some (fail EIO x)
        else Some ((advance (unat (tempVar * 512)) x)\<lparr>x_pos :=
          (x_pos x)\<lparr>fp_sector := fp_sector (x_pos x) + tempVar\<rparr>\<rparr>) }
      else Some x)"

definition read_last :: "'d XFER \<Rightarrow> 'd XFER option" where
  "read_last x =
     (if x_remain x > 0 \<and> x_ok x then do {
        x \<leftarrow> read_partial_at (pos_sector (x_part x) (x_pos x)) 0 (x_remain x) x;
        Some (x\<lparr>x_pos := (x_pos x)\<lparr>fp_byte := fp_byte (x_pos x) + of_nat (x_remain x)\<rparr>,
          x_remain := 0\<rparr>) }
      else Some x)"

definition read_steps :: "'d XFER \<Rightarrow> 'd XFER option" where
  "read_steps x = do {
     x \<leftarrow> read_align_sector x;
     x \<leftarrow> read_align_cluster x;
     x \<leftarrow> read_next_cluster x;
     x \<leftarrow> read_clusters x;
     x \<leftarrow> read_rest x;
     read_last x }"

definition set_file :: "nat \<Rightarrow> FILE_STRUCT \<Rightarrow> 'd VOLUME \<Rightarrow> 'd VOLUME" where
  "set_file fd f s = s\<lparr>files := (files s)(fd \<mapsto> f)\<rparr>"

text \<open>
  \<open>FAT_read_r fd buf len s\<close> returns the result of the call, the caller's buffer and the new state.
  Address 0 is the null pointer; an address without a file has no defined result.
\<close>

definition FAT_read_r ::
  "nat \<Rightarrow> byte list \<Rightarrow> nat \<Rightarrow> 'd VOLUME \<Rightarrow> (int \<times> byte list \<times> 'd VOLUME) option" where
  "FAT_read_r fd ptr len s =
     (if len = 0 then Some (0, ptr, s)
      else if fd = 0 then Some (-1, ptr, s\<lparr>errno := Some EBADF\<rparr>)
      else do {
        f \<leftarrow> files s fd;
        if \<not> inUse f \<or> \<not> f_read f then Some (-1, ptr, s\<lparr>errno := Some EBADF\<rparr>)
        else if currentPosition f \<ge> filesize f \<or> startCluster f = CLUSTER_FREE
        then Some (0, ptr, s\<lparr>errno := Some EOVERFLOW\<rparr>)
        else do {
          let over = (len + unat (currentPosition f)) mod 2 ^ 64 > unat (filesize f);
          let len = (if over then unat (filesize f - currentPosition f) else len);
          x \<leftarrow> read_steps \<lparr>x_part = vol s, x_pos = rwPosition f, x_remain = len, x_buf = ptr, x_ptr = 0,
            x_ok = True, x_errno = (if over then Some EOVERFLOW else errno s)\<rparr>;
          let len = len - x_remain x;
          let f = f\<lparr>rwPosition := x_pos x, currentPosition := currentPosition f + of_nat len\<rparr>;
          Some (int len, x_buf x, set_file fd f (s\<lparr>vol := x_part x, errno := x_errno x\<rparr>)) } })"

section \<open>The next cluster of a position\<close>

text \<open>
  \<open>FAT_check_position_for_next_cluster\<close>; \<open>flag\<close> is \<open>None\<close> for a null \<open>flagNoError\<close> pointer. The
  result is the C result, the position, the partition, the flag and the error number.
\<close>

definition FAT_check_position_for_next_cluster ::
  "FILE_POSITION \<Rightarrow> 'd PARTITION \<Rightarrow> nat \<Rightarrow> bool option \<Rightarrow> Errno option \<Rightarrow>
     (bool \<times> FILE_POSITION \<times> 'd PARTITION \<times> bool option \<times> Errno option) option" where
  "FAT_check_position_for_next_cluster position p remain flag err =
     (let failed = map_option (\<lambda>_. False) flag in
      if remain = 0 then Some (True, position, p, flag, err)
      else if flag = Some False then Some (False, position, p, flag, err)
      else if fp_sector position > sectorsPerCluster p then Some (False, position, p, failed, Some EINVAL)
      else if fp_sector position = sectorsPerCluster p then do {
        (tempNextCluster, p) \<leftarrow> FAT_fat_nextCluster p (fp_cluster position);
        (tempNextCluster, p) \<leftarrow>
          (if tempNextCluster = CLUSTER_EOF \<or> tempNextCluster = CLUSTER_FREE
           then FAT_fat_linkFreeCluster p (fp_cluster position) else Some (tempNextCluster, p));
        if \<not> FAT_fat_isValidCluster p tempNextCluster then Some (False, position, p, failed, Some ENOSPC)
        else Some (True, position\<lparr>fp_sector := 0, fp_cluster := tempNextCluster\<rparr>, p, flag, err) }
      else Some (True, position, p, flag, err))"

text \<open>The same on the state of a transfer, whose flag is \<open>x_ok\<close>, for \<open>remain\<close> bytes.\<close>

definition check_position :: "nat \<Rightarrow> 'd XFER \<Rightarrow> 'd XFER option" where
  "check_position remain x = do {
     (b, q, p, flag, e) \<leftarrow>
       FAT_check_position_for_next_cluster (x_pos x) (x_part x) remain (Some (x_ok x)) (x_errno x);
     Some (x\<lparr>x_pos := q, x_part := p, x_ok := (flag = Some True), x_errno := e\<rparr>) }"

section \<open>Extending\<close>

definition zeroBuffer :: "byte list" where "zeroBuffer = replicate BYTES_PER_READ 0"

text \<open>
  The loop over whole sectors of \<open>FAT_file_extend_r\<close>: \<open>None\<close> in the first component is the error
  return.
\<close>

partial_function (option) extend_loop ::
  "u32 \<Rightarrow> FILE_POSITION \<Rightarrow> 'd PARTITION \<Rightarrow> ((u32 \<times> FILE_POSITION) option \<times> 'd PARTITION) option" where
  [code]: "extend_loop remain q p =
     (if remain \<ge> 512 then do {
        (r, p) \<leftarrow>
          (if fp_sector q \<ge> sectorsPerCluster p then do {
             (tempNextCluster, p) \<leftarrow> FAT_fat_linkFreeCluster p (fp_cluster q);
             if \<not> FAT_fat_isValidCluster p tempNextCluster then Some (None, p)
             else Some (Some (q\<lparr>fp_sector := 0, fp_cluster := tempNextCluster\<rparr>), p) }
           else Some (Some q, p));
        case r of None \<Rightarrow> Some (None, p)
        | Some q \<Rightarrow> do {
            (b, c) \<leftarrow> FAT_cache_writeSectors (cache p) (pos_sector p q) 1 zeroBuffer;
            extend_loop (remain - 512) (q\<lparr>fp_sector := fp_sector q + 1\<rparr>) (set_cache c p) } }
      else Some (Some (remain, q), p))"

text \<open>The part of \<open>FAT_file_extend_r\<close> after the start cluster of the extension has been found.\<close>

definition extend_zero ::
  "u32 \<Rightarrow> FILE_POSITION \<Rightarrow> 'd PARTITION \<Rightarrow> Errno option \<Rightarrow>
     (FILE_POSITION option \<times> 'd PARTITION \<times> Errno option) option" where
  "extend_zero remain q p err =
     (if remain + fp_byte q < 512 then do {
        (b, c) \<leftarrow> FAT_cache_writePartialSector (cache p) zeroBuffer (pos_sector p q) (fp_byte q) (unat remain);
        Some (Some (q\<lparr>fp_byte := fp_byte q + remain\<rparr>), set_cache c p, err) }
      else do {
        (remain, q, p) \<leftarrow>
          (if fp_byte q > 0 then do {
             (b, c) \<leftarrow> FAT_cache_writePartialSector (cache p) zeroBuffer (pos_sector p q) (fp_byte q)
               (unat (512 - fp_byte q));
             Some (remain - (512 - fp_byte q), q\<lparr>fp_byte := 0, fp_sector := fp_sector q + 1\<rparr>, set_cache c p) }
           else Some (remain, q, p));
        (r, p) \<leftarrow> extend_loop remain q p;
        case r of None \<Rightarrow> Some (None, p, Some ENOSPC)
        | Some (remain, q) \<Rightarrow> do {
            (b, q, p, flag, err) \<leftarrow> FAT_check_position_for_next_cluster q p (unat remain) None err;
            if \<not> b then Some (None, p, err)
            else if remain > 0 then do {
              (b, c) \<leftarrow> FAT_cache_writePartialSector (cache p) zeroBuffer (pos_sector p q) 0 (unat remain);
              Some (Some (q\<lparr>fp_byte := remain\<rparr>), set_cache c p, err) }
            else Some (Some q, p, err) } })"

definition FAT_file_extend_r ::
  "FILE_STRUCT \<Rightarrow> 'd PARTITION \<Rightarrow> Errno option \<Rightarrow> (bool \<times> FILE_STRUCT \<times> 'd PARTITION \<times> Errno option) option" where
  "FAT_file_extend_r f p err =
     (if bytesPerCluster p = 0 then None else do {
     let byte = filesize f mod 512;
     let sector = (filesize f mod bytesPerCluster p) div 512;
     (cluster, p) \<leftarrow> FAT_fat_lastCluster p (startCluster f);
     let remain = currentPosition f - filesize f;
     let q = \<lparr>fp_cluster = cluster, fp_sector = sector, fp_byte = byte\<rparr>;
     (r, p) \<leftarrow>
       (if remain > 0 \<and> filesize f > 0 \<and> sector = 0 \<and> byte = 0 then do {
          (tempNextCluster, p) \<leftarrow> FAT_fat_linkFreeCluster p cluster;
          if \<not> FAT_fat_isValidCluster p tempNextCluster then Some (None, p)
          else Some (Some (q\<lparr>fp_cluster := tempNextCluster, fp_sector := 0\<rparr>), p) }
        else Some (Some q, p));
     case r of None \<Rightarrow> Some (False, f, p, Some ENOSPC)
     | Some q \<Rightarrow> do {
         (r, p, err) \<leftarrow> extend_zero remain q p err;
         case r of None \<Rightarrow> Some (False, f, p, err)
         | Some q \<Rightarrow> Some (True, f\<lparr>rwPosition := q, filesize := currentPosition f\<rparr>, p, err) } })"

section \<open>Writing\<close>

text \<open>The data still to be written is \<open>drop (x_ptr x) (x_buf x)\<close>.\<close>

definition write_partial_at :: "bool \<Rightarrow> u32 \<Rightarrow> u32 \<Rightarrow> nat \<Rightarrow> 'd XFER \<Rightarrow> 'd XFER option" where
  "write_partial_at erase sector off n x = do {
     (b, c) \<leftarrow> (if erase then FAT_cache_eraseWritePartialSector else FAT_cache_writePartialSector)
       (cache (x_part x)) (drop (x_ptr x) (x_buf x)) sector off n;
     Some (x\<lparr>x_part := set_cache c (x_part x)\<rparr>) }"

definition write_sectors_at :: "u32 \<Rightarrow> u32 \<Rightarrow> 'd XFER \<Rightarrow> (bool \<times> 'd XFER) option" where
  "write_sectors_at sector n x = do {
     (b, c) \<leftarrow> FAT_cache_writeSectors (cache (x_part x)) sector n (drop (x_ptr x) (x_buf x));
     Some (b, x\<lparr>x_part := set_cache c (x_part x)\<rparr>) }"

definition write_align_sector :: "'d XFER \<Rightarrow> 'd XFER option" where
  "write_align_sector x =
     (let tempVar = sector_rest x in
      if tempVar < 512 \<and> x_ok x then do {
        x \<leftarrow> write_partial_at False (pos_sector (x_part x) (x_pos x)) (fp_byte (x_pos x)) (unat tempVar) x;
        let x = advance (unat tempVar) x;
        Some (x\<lparr>x_pos := add_byte tempVar (x_pos x)\<rparr>) }
      else Some x)"

definition write_align_cluster :: "'d XFER \<Rightarrow> 'd XFER option" where
  "write_align_cluster x =
     (let tempVar = cluster_rest x in
      if tempVar > 0 \<and> tempVar < sectorsPerCluster (x_part x) \<and> x_ok x then do {
        (b, x) \<leftarrow> write_sectors_at (pos_sector (x_part x) (x_pos x)) tempVar x;
        if \<not> b then Some (fail EIO x)
        else Some ((advance (unat (tempVar * 512)) x)\<lparr>x_pos :=
          (x_pos x)\<lparr>fp_sector := fp_sector (x_pos x) + tempVar\<rparr>\<rparr>) }
      else Some x)"

text \<open>
  The inner loop that groups consecutive clusters: \<open>next_position\<close> is the position of \<open>x\<close>, and the
  result is \<open>chunkEnd\<close>, \<open>nextChunkStart\<close>, \<open>chunkSize\<close> and the state.
\<close>

partial_function (option) write_group ::
  "u32 \<Rightarrow> u32 \<Rightarrow> nat \<Rightarrow> 'd XFER \<Rightarrow> (u32 \<times> u32 \<times> nat \<times> 'd XFER) option" where
  [code]: "write_group chunkEnd nextChunkStart chunkSize x =
     (if x_ok x \<and> chunkSize + unat (bytesPerCluster (x_part x)) < x_remain x then do {
        let x = x\<lparr>x_pos := (x_pos x)\<lparr>fp_sector := sectorsPerCluster (x_part x)\<rparr>\<rparr>;
        x \<leftarrow> check_position (x_remain x - chunkSize) x;
        if \<not> x_ok x then Some (chunkEnd, nextChunkStart, chunkSize, x)
        else do {
          let nextChunkStart = fp_cluster (x_pos x);
          if nextChunkStart \<noteq> chunkEnd + 1 then Some (chunkEnd, nextChunkStart, chunkSize, x)
          else write_group nextChunkStart nextChunkStart (chunkSize + unat (bytesPerCluster (x_part x))) x } }
      else Some (chunkEnd, nextChunkStart, chunkSize, x))"

partial_function (option) write_clusters :: "'d XFER \<Rightarrow> 'd XFER option" where
  [code]: "write_clusters x =
     (if x_remain x \<ge> unat (bytesPerCluster (x_part x)) \<and> x_ok x then do {
        x \<leftarrow> check_position (x_remain x) x;
        if \<not> x_ok x then Some x
        else do {
          let start = fp_cluster (x_pos x);
          let position = x_pos x;
          (chunkEnd, nextChunkStart, chunkSize, x) \<leftarrow>
            write_group start start (unat (bytesPerCluster (x_part x))) x;
          (b, x) \<leftarrow> write_sectors_at (FAT_fat_clusterToSector (x_part x) start) (of_nat (chunkSize div 512)) x;
          if \<not> b then Some (fail EIO (x\<lparr>x_pos := position\<rparr>))
          else do {
            let x = advance chunkSize x;
            write_clusters
              (if chunkEnd \<noteq> nextChunkStart \<and> FAT_fat_isValidCluster (x_part x) nextChunkStart
               then x\<lparr>x_pos := position\<lparr>fp_cluster := nextChunkStart, fp_sector := 0\<rparr>\<rparr>
               else x\<lparr>x_pos := position\<lparr>fp_cluster := chunkEnd, fp_sector := sectorsPerCluster (x_part x)\<rparr>\<rparr>) } } }
      else Some x)"

definition write_rest :: "'d XFER \<Rightarrow> 'd XFER option" where
  "write_rest x =
     (let tempVar = (of_nat (x_remain x div 512) :: u32) in
      if tempVar > 0 \<and> x_ok x then do {
        (b, x) \<leftarrow> write_sectors_at (FAT_fat_clusterToSector (x_part x) (fp_cluster (x_pos x))) tempVar x;
        if \<not> b then Some (fail EIO x)
        else Some ((advance (unat (tempVar * 512)) x)\<lparr>x_pos :=
          (x_pos x)\<lparr>fp_sector := fp_sector (x_pos x) + tempVar\<rparr>\<rparr>) }
      else Some x)"

definition write_last :: "bool \<Rightarrow> 'd XFER \<Rightarrow> 'd XFER option" where
  "write_last flagAppending x =
     (if x_remain x > 0 \<and> x_ok x then do {
        x \<leftarrow> write_partial_at flagAppending (pos_sector (x_part x) (x_pos x)) 0 (x_remain x) x;
        Some (x\<lparr>x_pos := (x_pos x)\<lparr>fp_byte := fp_byte (x_pos x) + of_nat (x_remain x)\<rparr>,
          x_remain := 0\<rparr>) }
      else Some x)"

definition write_steps :: "bool \<Rightarrow> 'd XFER \<Rightarrow> 'd XFER option" where
  "write_steps flagAppending x = do {
     x \<leftarrow> check_position (x_remain x) x;
     x \<leftarrow> write_align_sector x;
     x \<leftarrow> write_align_cluster x;
     x \<leftarrow> write_clusters x;
     x \<leftarrow> check_position (x_remain x) x;
     x \<leftarrow> write_rest x;
     write_last flagAppending x }"

text \<open>The start of a file without a cluster; \<open>False\<close> when no cluster is free.\<close>

definition write_start ::
  "FILE_STRUCT \<Rightarrow> 'd PARTITION \<Rightarrow> (bool \<times> FILE_STRUCT \<times> 'd PARTITION) option" where
  "write_start f p =
     (if startCluster f = CLUSTER_FREE then do {
        (tempNextCluster, p) \<leftarrow> FAT_fat_linkFreeCluster p CLUSTER_FREE;
        if \<not> FAT_fat_isValidCluster p tempNextCluster then Some (False, f, p)
        else let q = \<lparr>fp_cluster = tempNextCluster, fp_sector = 0, fp_byte = 0\<rparr>
          in Some (True, f\<lparr>startCluster := tempNextCluster, appendPosition := q, rwPosition := q\<rparr>, p) }
      else Some (True, f, p))"


definition FAT_write_r ::
  "nat \<Rightarrow> byte list \<Rightarrow> nat \<Rightarrow> 'd VOLUME \<Rightarrow> (int \<times> 'd VOLUME) option" where
  "FAT_write_r fd ptr len s =
     (if fd = 0 then Some (-1, s\<lparr>errno := Some EBADF\<rparr>)
      else do {
        f \<leftarrow> files s fd;
        if \<not> inUse f \<or> \<not> f_write f then Some (-1, s\<lparr>errno := Some EBADF\<rparr>)
        else do {
          let total = (len + unat (filesize f)) mod 2 ^ 64;
          let len = (if total > FILE_MAX_SIZE \<or> total < unat (filesize f)
                     then FILE_MAX_SIZE - unat (filesize f) else len);
          if len = 0 then Some (0, s)
          else do {
            (ok, f, p) \<leftarrow> write_start f (vol s);
            if \<not> ok then Some (-1, s\<lparr>vol := p, errno := Some ENOSPC\<rparr>)
            else do {
              (ok, f, p, err) \<leftarrow>
                (if \<not> f_append f \<and> currentPosition f > filesize f
                 then FAT_file_extend_r f p (errno s) else Some (True, f, p, errno s));
              if \<not> ok then Some (-1, set_file fd f (s\<lparr>vol := p, errno := err\<rparr>))
              else do {
                let flagAppending = (f_append f \<or>
                  (len + unat (currentPosition f)) mod 2 ^ 64 > unat (filesize f));
                x \<leftarrow> write_steps flagAppending \<lparr>x_part = p,
                  x_pos = (if f_append f then appendPosition f else rwPosition f), x_remain = len,
                  x_buf = ptr, x_ptr = 0, x_ok = True, x_errno = err\<rparr>;
                let len = len - x_remain x;
                let f = f\<lparr>modified := True\<rparr>;
                let f = (if f_append f
                         then f\<lparr>appendPosition := x_pos x, filesize := filesize f + of_nat len\<rparr>
                         else let cur = currentPosition f + of_nat len in
                           f\<lparr>rwPosition := x_pos x, currentPosition := cur,
                             filesize := (if filesize f < cur then cur else filesize f)\<rparr>);
                Some (int len, set_file fd f (s\<lparr>vol := x_part x, errno := x_errno x\<rparr>)) } } } } })"

section \<open>Seeking\<close>

datatype Whence = SEEK_SET | SEEK_CUR | SEEK_END | SEEK_OTHER

text \<open>
  Following \<open>clusCount\<close> links, or to the end of the chain; the result is the cluster reached and
  the links that were missing. The count is of type \<open>int\<close>.
\<close>

partial_function (option) seek_loop ::
  "int \<Rightarrow> u32 \<Rightarrow> u32 \<Rightarrow> 'd PARTITION \<Rightarrow> (int \<times> u32 \<times> 'd PARTITION) option" where
  [code]: "seek_loop clusCount cluster nextCluster p =
     (if clusCount > 0 \<and> nextCluster \<noteq> CLUSTER_FREE \<and> nextCluster \<noteq> CLUSTER_EOF then do {
        (n, p) \<leftarrow> FAT_fat_nextCluster p nextCluster;
        seek_loop (clusCount - 1) nextCluster n p }
      else Some (clusCount, cluster, p))"

text \<open>Moving the read and write position to \<open>position\<close>, inside the file or at its end.\<close>

definition seek_position ::
  "u32 \<Rightarrow> FILE_STRUCT \<Rightarrow> 'd PARTITION \<Rightarrow> (bool \<times> FILE_STRUCT \<times> 'd PARTITION) option" where
  "seek_position position f p =
     (if bytesPerCluster p = 0 then None else do {
     let bpc = bytesPerCluster p;
     let forward = (position \<ge> currentPosition f);
     let count = sint (position div bpc);
     let currentCount = sint (currentPosition f div bpc);
     let currentCount = (if fp_sector (rwPosition f) = sectorsPerCluster p then currentCount - 1 else currentCount);
     clusCount \<leftarrow> cint (if forward then count - currentCount else count);
     let cluster = (if forward then fp_cluster (rwPosition f) else startCluster f);
     let q = (rwPosition f)\<lparr>fp_sector := (position mod bpc) div 512, fp_byte := position mod 512\<rparr>;
     (nextCluster, p) \<leftarrow> FAT_fat_nextCluster p cluster;
     (clusCount, cluster, p) \<leftarrow> seek_loop clusCount cluster nextCluster p;
     if clusCount > 0 then
       (if clusCount = 1 \<and> filesize f = position \<and> fp_sector q = 0
        then Some (True, f\<lparr>rwPosition := q\<lparr>fp_sector := sectorsPerCluster p, fp_byte := 0,
          fp_cluster := cluster\<rparr>\<rparr>, p)
        else Some (False, f\<lparr>rwPosition := q\<rparr>, p))
     else Some (True, f\<lparr>rwPosition := q\<lparr>fp_cluster := cluster\<rparr>\<rparr>, p) })"

text \<open>The type \<open>off_t\<close> has 64 bits; the sum with \<open>pos\<close> must be representable.\<close>

definition coff :: "int \<Rightarrow> int option" where
  "coff i = (if - (2 ^ 63) \<le> i \<and> i < 2 ^ 63 then Some i else None)"

definition FAT_seek_r :: "nat \<Rightarrow> int \<Rightarrow> Whence \<Rightarrow> 'd VOLUME \<Rightarrow> (int \<times> 'd VOLUME) option" where
  "FAT_seek_r fd pos dir s =
     (if fd = 0 then Some (-1, s\<lparr>errno := Some EBADF\<rparr>)
      else do {
        f \<leftarrow> files s fd;
        if \<not> inUse f then Some (-1, s\<lparr>errno := Some EBADF\<rparr>)
        else if dir = SEEK_OTHER then Some (-1, s\<lparr>errno := Some EINVAL\<rparr>)
        else do {
          newPosition \<leftarrow> coff (case dir of SEEK_CUR \<Rightarrow> uint (currentPosition f) + pos
            | SEEK_END \<Rightarrow> uint (filesize f) + pos | _ \<Rightarrow> pos);
          if pos > 0 \<and> newPosition < 0 then Some (-1, s\<lparr>errno := Some EOVERFLOW\<rparr>)
          else if newPosition < 0 \<or> newPosition > int FILE_MAX_SIZE then Some (-1, s\<lparr>errno := Some EINVAL\<rparr>)
          else do {
            let position = (of_int newPosition :: u32);
            (ok, f, p) \<leftarrow>
              (if position \<le> filesize f \<and> startCluster f \<noteq> CLUSTER_FREE
               then seek_position position f (vol s) else Some (True, f, vol s));
            if \<not> ok then Some (-1, set_file fd f (s\<lparr>vol := p, errno := Some EINVAL\<rparr>))
            else Some (uint position, set_file fd (f\<lparr>currentPosition := position\<rparr>) (s\<lparr>vol := p\<rparr>)) } } })"

section \<open>Truncating\<close>

definition truncate_expand ::
  "u32 \<Rightarrow> FILE_STRUCT \<Rightarrow> 'd PARTITION \<Rightarrow> Errno option \<Rightarrow>
     (bool \<times> FILE_STRUCT \<times> 'd PARTITION \<times> Errno option) option" where
  "truncate_expand newSize f p err = do {
     let savedPosition = rwPosition f;
     let savedOffset = currentPosition f;
     (b, f, p, err) \<leftarrow> FAT_file_extend_r (f\<lparr>currentPosition := newSize\<rparr>) p err;
     let f = (if f_append f then f\<lparr>appendPosition := rwPosition f\<rparr> else f);
     Some (b, f\<lparr>rwPosition := savedPosition, currentPosition := savedOffset\<rparr>, p, err) }"

definition truncate_shrink ::
  "u32 \<Rightarrow> FILE_STRUCT \<Rightarrow> 'd PARTITION \<Rightarrow> (FILE_STRUCT \<times> 'd PARTITION) option" where
  "truncate_shrink newSize f p =
     (if newSize = 0 then do {
        (b, p) \<leftarrow> FAT_fat_clearLinks p (startCluster f);
        Some (f\<lparr>startCluster := CLUSTER_FREE,
          appendPosition := \<lparr>fp_cluster = CLUSTER_FREE, fp_sector = 0, fp_byte = 0\<rparr>\<rparr>, p) }
      else if bytesPerCluster p = 0 then None
      else do {
        let chainLength = (newSize - 1) div bytesPerCluster p + 1;
        (lc, p) \<leftarrow> FAT_fat_trimChain p (startCluster f) chainLength;
        Some (if f_append f
          then f\<lparr>appendPosition := \<lparr>fp_cluster = lc,
            fp_sector = (if newSize mod bytesPerCluster p = 0 then sectorsPerCluster p
              else (newSize mod bytesPerCluster p) div 512), fp_byte = newSize mod 512\<rparr>\<rparr>
          else f, p) })"

definition FAT_ftruncate_r :: "nat \<Rightarrow> int \<Rightarrow> 'd VOLUME \<Rightarrow> (int \<times> 'd VOLUME) option" where
  "FAT_ftruncate_r fd len s =
     (if len < 0 then Some (-1, s\<lparr>errno := Some EINVAL\<rparr>)
      else if len > int FILE_MAX_SIZE then Some (-1, s\<lparr>errno := Some EFBIG\<rparr>)
      else if fd = 0 then Some (-1, s\<lparr>errno := Some EBADF\<rparr>)
      else do {
        let newSize = (of_int len :: u32);
        f \<leftarrow> files s fd;
        if \<not> inUse f then Some (-1, s\<lparr>errno := Some EBADF\<rparr>)
        else if \<not> f_write f then Some (-1, s\<lparr>errno := Some EINVAL\<rparr>)
        else if newSize > filesize f then do {
          (ok, f, p) \<leftarrow>
            (if startCluster f = CLUSTER_FREE then do {
               (tempNextCluster, p) \<leftarrow> FAT_fat_linkFreeCluster (vol s) CLUSTER_FREE;
               if \<not> FAT_fat_isValidCluster p tempNextCluster then Some (False, f, p)
               else Some (True, f\<lparr>startCluster := tempNextCluster,
                 rwPosition := \<lparr>fp_cluster = tempNextCluster, fp_sector = 0, fp_byte = 0\<rparr>\<rparr>, p) }
             else Some (True, f, vol s));
          if \<not> ok then Some (-1, s\<lparr>vol := p, errno := Some ENOSPC\<rparr>)
          else do {
            (b, f, p, err) \<leftarrow> truncate_expand newSize f p (errno s);
            Some (if b then 0 else -1,
              set_file fd (f\<lparr>filesize := newSize, modified := True\<rparr>) (s\<lparr>vol := p, errno := err\<rparr>)) } }
        else do {
          (f, p) \<leftarrow> (if newSize < filesize f then truncate_shrink newSize f (vol s) else Some (f, vol s));
          Some (0, set_file fd (f\<lparr>filesize := newSize, modified := True\<rparr>) (s\<lparr>vol := p\<rparr>)) } })"

section \<open>Synchronising and closing\<close>

definition DIR_ENTRY_attributes :: nat where "DIR_ENTRY_attributes = 0x0B"
definition DIR_ENTRY_aDate :: nat where "DIR_ENTRY_aDate = 0x12"
definition DIR_ENTRY_clusterHigh :: nat where "DIR_ENTRY_clusterHigh = 0x14"
definition DIR_ENTRY_mTime :: nat where "DIR_ENTRY_mTime = 0x16"
definition DIR_ENTRY_mDate :: nat where "DIR_ENTRY_mDate = 0x18"
definition DIR_ENTRY_cluster :: nat where "DIR_ENTRY_cluster = 0x1A"
definition DIR_ENTRY_fileSize :: nat where "DIR_ENTRY_fileSize = 0x1C"
definition ATTRIB_ARCH :: byte where "ATTRIB_ARCH = 0x20"

text \<open>Without \<open>USE_RTC_TIME\<close>, as on the PC build, there is no time stamp.\<close>

definition FAT_filetime_getTimeFromRTC :: u16 where "FAT_filetime_getTimeFromRTC = 0"
definition FAT_filetime_getDateFromRTC :: u16 where "FAT_filetime_getDateFromRTC = 0"

text \<open>The directory entry \<open>d\<close> of a file brought up to date.\<close>

definition sync_entry :: "FILE_STRUCT \<Rightarrow> byte list \<Rightarrow> byte list option" where
  "sync_entry f d = do {
     d \<leftarrow> u32_to_u8array d DIR_ENTRY_fileSize (filesize f);
     d \<leftarrow> u16_to_u8array d DIR_ENTRY_cluster (ucast (startCluster f));
     d \<leftarrow> u16_to_u8array d DIR_ENTRY_clusterHigh (ucast (drop_bit 16 (startCluster f)));
     d \<leftarrow> u16_to_u8array d DIR_ENTRY_mTime FAT_filetime_getTimeFromRTC;
     d \<leftarrow> u16_to_u8array d DIR_ENTRY_mDate FAT_filetime_getDateFromRTC;
     d \<leftarrow> u16_to_u8array d DIR_ENTRY_aDate FAT_filetime_getDateFromRTC;
     a \<leftarrow> mem_get d DIR_ENTRY_attributes;
     mem_set d DIR_ENTRY_attributes (a OR ATTRIB_ARCH) }"

text \<open>
  \<open>FAT_syncToDisc\<close> ignores a failed read of the old entry, whose bytes are then not defined: the
  model has no result in that case. The result is the error number, \<open>None\<close> for 0.
\<close>

definition FAT_syncToDisc ::
  "FILE_STRUCT \<Rightarrow> 'd PARTITION \<Rightarrow> (Errno option \<times> FILE_STRUCT \<times> 'd PARTITION) option" where
  "FAT_syncToDisc f p =
     (if \<not> inUse f then Some (Some EBADF, f, p)
      else if f_write f \<and> modified f then do {
        let sector = FAT_fat_clusterToSector p (dp_cluster (dirEntryEnd f)) + dp_sector (dirEntryEnd f);
        let off = (of_int (dp_offset (dirEntryEnd f) * 32) :: u32);
        (b, d, c) \<leftarrow> FAT_cache_readPartialSector (cache p) sector off 32;
        if \<not> b then None
        else do {
          d \<leftarrow> sync_entry f d;
          (b, c) \<leftarrow> FAT_cache_writePartialSector c d sector off 32;
          (b, c) \<leftarrow> FAT_cache_flush c;
          if \<not> b then Some (Some EIO, f, set_cache c p)
          else Some (None, f\<lparr>modified := False\<rparr>, set_cache c p) } }
      else Some (None, f\<lparr>modified := False\<rparr>, p))"

text \<open>Unlinking a file from the list of open files.\<close>

definition unlink_open :: "FILE_STRUCT \<Rightarrow> 'd VOLUME \<Rightarrow> 'd VOLUME option" where
  "unlink_open f s = do {
     let p = (vol s)\<lparr>openFileCount := openFileCount (vol s) - 1\<rparr>;
     fs \<leftarrow> (case nextOpenFile f of None \<Rightarrow> Some (files s)
       | Some n \<Rightarrow> do { g \<leftarrow> files s n; Some ((files s)(n \<mapsto> g\<lparr>prevOpenFile := prevOpenFile f\<rparr>)) });
     case prevOpenFile f of
       None \<Rightarrow> Some (s\<lparr>vol := p\<lparr>firstOpenFile := nextOpenFile f\<rparr>, files := fs\<rparr>)
     | Some n \<Rightarrow> do { g \<leftarrow> fs n;
         Some (s\<lparr>vol := p, files := fs(n \<mapsto> g\<lparr>nextOpenFile := nextOpenFile f\<rparr>)\<rparr>) } }"

definition FAT_close_r :: "nat \<Rightarrow> 'd VOLUME \<Rightarrow> (int \<times> 'd VOLUME) option" where
  "FAT_close_r fd s = do {
     f \<leftarrow> files s fd;
     if \<not> inUse f then Some (-1, s\<lparr>errno := Some EBADF\<rparr>)
     else do {
       (e, f, p) \<leftarrow> (if f_write f then FAT_syncToDisc f (vol s) else Some (None, f, vol s));
       let f = f\<lparr>inUse := False\<rparr>;
       let s = set_file fd f (s\<lparr>vol := p, errno := (if e = None then errno s else e)\<rparr>);
       s \<leftarrow> unlink_open f s;
       Some (if e = None then 0 else -1, s) } }"

definition FAT_fsync_r :: "nat \<Rightarrow> 'd VOLUME \<Rightarrow> (int \<times> 'd VOLUME) option" where
  "FAT_fsync_r fd s = do {
     f \<leftarrow> files s fd;
     if \<not> inUse f then Some (-1, s\<lparr>errno := Some EBADF\<rparr>)
     else do {
       (e, f, p) \<leftarrow> FAT_syncToDisc f (vol s);
       Some (if e = None then 0 else -1,
         set_file fd f (s\<lparr>vol := p, errno := (if e = None then errno s else e)\<rparr>)) } }"

text \<open>
  The head of the list of open files, where \<open>FAT_open_r\<close> puts a new file, and the walk of
  \<open>FAT_partition_destructor\<close> over the list.
\<close>

definition link_open :: "nat \<Rightarrow> FILE_STRUCT \<Rightarrow> 'd VOLUME \<Rightarrow> 'd VOLUME option" where
  "link_open fd f s = do {
     let p = (vol s)\<lparr>openFileCount := openFileCount (vol s) + 1, firstOpenFile := Some fd\<rparr>;
     fs \<leftarrow> (case firstOpenFile (vol s) of None \<Rightarrow> Some (files s)
       | Some n \<Rightarrow> do { g \<leftarrow> files s n; Some ((files s)(n \<mapsto> g\<lparr>prevOpenFile := Some fd\<rparr>)) });
     Some (s\<lparr>vol := p, files := fs(fd \<mapsto> f\<lparr>nextOpenFile := firstOpenFile (vol s), prevOpenFile := None\<rparr>)\<rparr>) }"

partial_function (option) sync_open_files :: "nat option \<Rightarrow> 'd VOLUME \<Rightarrow> 'd VOLUME option" where
  [code]: "sync_open_files nextFile s =
     (case nextFile of None \<Rightarrow> Some s
      | Some fd \<Rightarrow> do {
          f \<leftarrow> files s fd;
          (e, f, p) \<leftarrow> FAT_syncToDisc f (vol s);
          sync_open_files (nextOpenFile f) (set_file fd f (s\<lparr>vol := p\<rparr>)) })"

definition FAT_partition_destructor :: "'d VOLUME \<Rightarrow> 'd option" where
  "FAT_partition_destructor s = do {
     s \<leftarrow> sync_open_files (firstOpenFile (vol s)) s;
     FAT_cache_destructor (cache (vol s)) }"


end
