(* ===== verification/FileCorrect.thy ===== *)
theory FileCorrect
  imports FatFile FatChain
begin

text \<open>
  Reading a file returns its content. The content of a chain of clusters \<open>cs\<close> is the sequence of
  the sectors of its clusters; \<open>pos_at\<close> relates a position of a file structure to an offset in it,
  and \<open>reading\<close> is the invariant of the steps of \<open>FAT_read_r\<close>.
\<close>

section \<open>The content of a chain\<close>

definition file_sector :: "('d \<Rightarrow> nat \<Rightarrow> byte list) \<Rightarrow> 'd PARTITION \<Rightarrow> u32 list \<Rightarrow> nat \<Rightarrow> byte list" where
  "file_sector sec p cs i = cache_view sec (cache p)
     (cluster_sector p (cs ! (i div unat (sectorsPerCluster p))) + i mod unat (sectorsPerCluster p))"

definition file_bytes :: "('d \<Rightarrow> nat \<Rightarrow> byte list) \<Rightarrow> 'd PARTITION \<Rightarrow> u32 list \<Rightarrow> byte list" where
  "file_bytes sec p cs = sectors (file_sector sec p cs) 0 (length cs * unat (sectorsPerCluster p))"

definition cluster_geometry :: "'d PARTITION \<Rightarrow> bool" where
  "cluster_geometry p \<longleftrightarrow> 0 < unat (sectorsPerCluster p) \<and>
     unat (bytesPerCluster p) = 512 * unat (sectorsPerCluster p)"

definition pos_at :: "'d PARTITION \<Rightarrow> u32 list \<Rightarrow> FILE_POSITION \<Rightarrow> nat \<Rightarrow> bool" where
  "pos_at p cs q off \<longleftrightarrow> (\<exists>k < length cs. fp_cluster q = cs ! k \<and>
     unat (fp_sector q) \<le> unat (sectorsPerCluster p) \<and> unat (fp_byte q) < 512 \<and>
     (fp_sector q = sectorsPerCluster p \<longrightarrow> fp_byte q = 0) \<and>
     off = 512 * (k * unat (sectorsPerCluster p) + unat (fp_sector q)) + unat (fp_byte q))"

lemma sectors_shift:
  "(\<And>j. j < n \<Longrightarrow> f (i + j) = g (s + j)) \<Longrightarrow> sectors f i n = sectors g s n"
  by (induction n) (simp_all add: sectors_Suc)

lemma overwrite_append:
  "length a + length b \<le> length buf \<Longrightarrow>
   overwrite (overwrite buf 0 a) (length a) b = overwrite buf 0 (a @ b)"
  by (simp add: overwrite_def add.commute)

lemma geometry_bytes:
  assumes "cluster_geometry p"
  shows "512 * unat (sectorsPerCluster p) < 2 ^ 32"
  using assms unat_lt_u32 [of "bytesPerCluster p"] by (simp add: cluster_geometry_def)

lemma run_position:
  assumes "0 < (m :: nat)" "s + j < m"
  shows "(k * m + s + j) div m = k" "(k * m + s + j) mod m = s + j"
proof -
  have *: "k * m + s + j = (s + j) + k * m" by simp
  show "(k * m + s + j) div m = k" unfolding * using assms by (subst div_mult_self1) simp_all
  show "(k * m + s + j) mod m = s + j" unfolding * using assms by (subst mod_mult_self1) simp_all
qed

context disc_device begin

abbreviation fsector where "fsector \<equiv> file_sector sec"
abbreviation fbytes where "fbytes \<equiv> file_bytes sec"

lemma valid_in_chain:
  assumes "chain nx (lastCluster (fat p)) x cs e" "k < length cs"
  shows "FAT_fat_isValidCluster p (cs ! k)"
  using assms by (auto simp: chain_def FAT_fat_isValidCluster_def)

text \<open>Sectors of the data region keep their content while the table is read.\<close>

lemma data_same:
  assumes "finv p0" "data_geometry p0" "fstep p0 ff L p" "FAT_fat_isValidCluster p0 x"
    and "t < unat (sectorsPerCluster p0)"
  shows "cview (cache p) (cluster_sector p0 x + t) = cview (cache p0) (cluster_sector p0 x + t)"
proof -
  note b = cluster_sector_bounds [OF assms(2,4)]
  have "cluster_sector p0 x + t < nsec (medium (cache p0))"
    using b(2) assms(1,5) cinvD(2) [of "cache p0"] by (simp add: fat_inv_def)
  then show ?thesis using fat_stepD(11) [OF assms(3)] b(3) by simp
qed

lemma length_fsector:
  assumes "finv p" "data_geometry p" "cluster_geometry p" "chain (flink p) (lastCluster (fat p)) x cs e"
    and "i < length cs * unat (sectorsPerCluster p)"
  shows "length (fsector p cs i) = 512"
proof -
  let ?m = "unat (sectorsPerCluster p)"
  have m: "0 < ?m" using assms(3) by (simp add: cluster_geometry_def)
  then have k: "i div ?m < length cs" using assms(5) by (simp add: less_mult_imp_div_less)
  note b = cluster_sector_bounds [OF assms(2) valid_in_chain [OF assms(4) k]]
  have "i mod ?m < ?m" using m by simp
  then have "cluster_sector p (cs ! (i div ?m)) + i mod ?m < unat (endOfPartition (cache p))"
    using b(2) by linarith
  then show ?thesis using assms(1) length_cview by (simp add: file_sector_def fat_inv_def)
qed

lemma length_fbytes:
  assumes "finv p" "data_geometry p" "cluster_geometry p" "chain (flink p) (lastCluster (fat p)) x cs e"
  shows "length (fbytes p cs) = length cs * unat (bytesPerCluster p)"
proof -
  have "length (fbytes p cs) = 512 * (length cs * unat (sectorsPerCluster p))"
    unfolding file_bytes_def by (rule length_sectors) (use length_fsector [OF assms] in simp)
  then show ?thesis using assms(3) by (simp add: cluster_geometry_def algebra_simps)
qed

text \<open>A run of sectors of the content.\<close>

lemma slice_fbytes:
  assumes "finv p" "data_geometry p" "cluster_geometry p" "chain (flink p) (lastCluster (fat p)) x cs e"
    and "i + n \<le> length cs * unat (sectorsPerCluster p)"
  shows "bslice (fbytes p cs) (512 * i) (512 * n) = sectors (fsector p cs) i n"
  unfolding file_bytes_def
  using slice_sectors_range [of 0 "length cs * unat (sectorsPerCluster p)" "fsector p cs" i n]
    length_fsector [OF assms(1-4)] assms(5) by simp

lemma slice_fbytes_part:
  assumes "finv p" "data_geometry p" "cluster_geometry p" "chain (flink p) (lastCluster (fat p)) x cs e"
    and "i < length cs * unat (sectorsPerCluster p)" "a + n \<le> 512"
  shows "bslice (fbytes p cs) (512 * i + a) n = bslice (fsector p cs i) a n"
proof -
  have "bslice (fbytes p cs) (512 * i) (512 * 1) = fsector p cs i"
    using slice_fbytes [OF assms(1-4), of i 1] assms(5) sectors_Suc [of "fsector p cs" i 0] by simp
  then show ?thesis using slice_slice [of a n 512 "fbytes p cs" "512 * i"] assms(6) by simp
qed

end

section \<open>The invariant of a read\<close>

definition file_chain ::
  "'d DISC_INTERFACE \<Rightarrow> ('d \<Rightarrow> bool) \<Rightarrow> ('d \<Rightarrow> nat) \<Rightarrow> ('d \<Rightarrow> nat \<Rightarrow> byte list) \<Rightarrow>
     'd PARTITION \<Rightarrow> u32 \<Rightarrow> u32 list \<Rightarrow> bool" where
  "file_chain D ok nsec sec p x cs \<longleftrightarrow> fat_inv D ok nsec sec p \<and> data_geometry p \<and> cluster_geometry p \<and>
     chain (fat_link sec p) (lastCluster (fat p)) x cs CLUSTER_EOF"

text \<open>
  After \<open>n\<close> of \<open>tot\<close> bytes: the buffer holds the content from \<open>off0\<close> on, and the position is
  that of the next byte.
\<close>

definition reading ::
  "'d DISC_INTERFACE \<Rightarrow> ('d \<Rightarrow> bool) \<Rightarrow> ('d \<Rightarrow> nat) \<Rightarrow> ('d \<Rightarrow> nat \<Rightarrow> byte list) \<Rightarrow>
     'd PARTITION \<Rightarrow> u32 list \<Rightarrow> byte list \<Rightarrow> nat \<Rightarrow> nat \<Rightarrow> Errno option \<Rightarrow> 'd XFER \<Rightarrow> bool" where
  "reading D ok nsec sec p cs buf off0 tot err x \<longleftrightarrow> x_ok x \<and> x_errno x = err \<and> x_remain x \<le> tot \<and>
     fat_step D ok nsec sec p (firstFree (fat p)) (fat_link sec p) (x_part x) \<and>
     pos_at p cs (x_pos x) (off0 + (tot - x_remain x)) \<and> x_ptr x = tot - x_remain x \<and>
     x_buf x = overwrite buf 0 (bslice (file_bytes sec p cs) off0 (tot - x_remain x))"

lemma same_params:
  assumes "fat_step D ok nsec sec p ff L p'"
  shows "sectorsPerCluster p' = sectorsPerCluster p" "bytesPerCluster p' = bytesPerCluster p"
    "FAT_fat_clusterToSector p' x = FAT_fat_clusterToSector p x"
    "endOfPartition (cache p') = endOfPartition (cache p)" "cache_inv D ok nsec sec (cache p')"
    "FAT_fat_isValidCluster p' x = FAT_fat_isValidCluster p x"
  using assms
  by (auto simp: fat_step_def set_firstFree_def set_cache_def FAT_fat_clusterToSector_def same_frame_def
      FAT_fat_isValidCluster_def)

context disc_device begin

abbreviation fchain where "fchain \<equiv> file_chain D ok nsec sec"
abbreviation freading where "freading \<equiv> reading D ok nsec sec"

lemma fchainD:
  assumes "fchain p x cs"
  shows "finv p" "data_geometry p" "cluster_geometry p" "chain (flink p) (lastCluster (fat p)) x cs CLUSTER_EOF"
  using assms by (simp_all add: file_chain_def)

text \<open>Where sector \<open>s\<close> of the \<open>k\<close>-th cluster lies on the disc.\<close>

lemma chain_sector:
  assumes fc: "fchain p x cs" and k: "k < length cs" and s: "unat s < unat (sectorsPerCluster p)"
  shows "unat (FAT_fat_clusterToSector p (cs ! k) + s) = cluster_sector p (cs ! k) + unat s"
    "cluster_sector p (cs ! k) + unat s < unat (endOfPartition (cache p))"
    "cview (cache p) (cluster_sector p (cs ! k) + unat s) = fsector p cs (k * unat (sectorsPerCluster p) + unat s)"
    "k * unat (sectorsPerCluster p) + unat s < length cs * unat (sectorsPerCluster p)"
proof -
  note f = fchainD [OF fc]
  note b = cluster_sector_bounds [OF f(2) valid_in_chain [OF f(4) k]]
  show lt: "cluster_sector p (cs ! k) + unat s < unat (endOfPartition (cache p))" using b(2) s by linarith
  then show "unat (FAT_fat_clusterToSector p (cs ! k) + s) = cluster_sector p (cs ! k) + unat s"
    using b(1) unat_lt_u32 [of "endOfPartition (cache p)"] by (simp add: unat_add_u32)
  have "(k * unat (sectorsPerCluster p) + unat s) div unat (sectorsPerCluster p) = k"
    "(k * unat (sectorsPerCluster p) + unat s) mod unat (sectorsPerCluster p) = unat s"
    using run_position [of "unat (sectorsPerCluster p)" "unat s" 0 k] s by simp_all
  then show "cview (cache p) (cluster_sector p (cs ! k) + unat s) =
      fsector p cs (k * unat (sectorsPerCluster p) + unat s)" by (simp add: file_sector_def)
  have "Suc k * unat (sectorsPerCluster p) \<le> length cs * unat (sectorsPerCluster p)"
    using k by (intro mult_le_mono1) simp
  then show "k * unat (sectorsPerCluster p) + unat s < length cs * unat (sectorsPerCluster p)"
    using s by simp
qed

text \<open>Bytes of the content that are stored behind those already read.\<close>

lemma store_next:
  assumes "x_buf x = overwrite buf 0 (bslice F off0 m)" "x_ptr x = m" "off0 + m + n \<le> length F" "m + n \<le> length buf"
  shows "mem_write (x_buf x) (x_ptr x) (bslice F (off0 + m) n) = Some (overwrite buf 0 (bslice F off0 (m + n)))"
proof -
  have l: "length (bslice F off0 m) = m" "length (bslice F (off0 + m) n) = n" using assms(3) by simp_all
  then have "mem_write (x_buf x) (x_ptr x) (bslice F (off0 + m) n) =
      Some (overwrite (overwrite buf 0 (bslice F off0 m)) m (bslice F (off0 + m) n))"
    using assms by simp
  also have "\<dots> = Some (overwrite buf 0 (bslice F off0 m @ bslice F (off0 + m) n))"
    using overwrite_append [of "bslice F off0 m" "bslice F (off0 + m) n" buf] l assms(4) by simp
  finally show ?thesis by (simp add: slice_append)
qed

lemma step_of_cache:
  assumes "fstep p ff L p1" "finv p" "cinv c" "sview (cache p1) c" "same_frame nsec (cache p1) c"
  shows "fstep p ff L (set_cache c p1)"
proof -
  have "fstep p1 (firstFree (fat p1)) (flink p1) (set_cache c p1)"
    by (rule read_step(1) [OF fat_step_inv [OF assms(1,2)] assms(3-5)])
  from fat_step_cong [OF fat_step_trans [OF assms(1) this], of L] show ?thesis
    using fat_stepD(5,8) [OF assms(1)] by simp
qed

text \<open>A run of sectors that lies together on the disc.\<close>

lemma read_run:
  assumes fc: "fchain p x0 cs" and r: "freading p cs buf off0 tot err x"
    and off: "off0 + (tot - x_remain x) = 512 * i"
    and n: "512 * unat n \<le> x_remain x" "off0 + tot \<le> length (fbytes p cs)" "tot \<le> length buf"
    and s: "unat s + unat n \<le> unat (endOfPartition (cache p))"
    and run: "\<And>j. j < unat n \<Longrightarrow> cview (cache (x_part x)) (unat s + j) = fsector p cs (i + j)"
  obtains p' where "read_sectors_at s n x = Some (True, x\<lparr>x_part := p',
      x_buf := overwrite buf 0 (bslice (fbytes p cs) off0 (tot - x_remain x + 512 * unat n))\<rparr>)"
    "fstep p (firstFree (fat p)) (flink p) p'"
proof -
  note f = fchainD [OF fc] and st = r [unfolded reading_def]
  let ?d = "tot - x_remain x"
  have fs: "fstep p (firstFree (fat p)) (flink p) (x_part x)" using st by blast
  have len: "length (fbytes p cs) = 512 * (length cs * unat (sectorsPerCluster p))"
    using length_fbytes [OF f] f(3) by (simp add: cluster_geometry_def algebra_simps)
  have room: "off0 + ?d + 512 * unat n \<le> length (fbytes p cs)" "?d + 512 * unat n \<le> length buf"
    using n st by linarith+
  then have i: "i + unat n \<le> length cs * unat (sectorsPerCluster p)" using off len by linarith
  obtain c where c: "FAT_cache_readSectors (cache (x_part x)) s n =
      Some (True, sectors (cview (cache (x_part x))) (unat s) (unat n), c)"
    "cinv c" "sview (cache (x_part x)) c" "same_frame nsec (cache (x_part x)) c"
    using readSectors_loop_ok [of "cache (x_part x)" s n "[]"] s same_params(4,5) [OF fs]
    by (auto simp: FAT_cache_readSectors_def)
  have "sectors (cview (cache (x_part x))) (unat s) (unat n) = sectors (fsector p cs) i (unat n)"
    by (rule sectors_shift) (rule run)
  also have "\<dots> = bslice (fbytes p cs) (off0 + ?d) (512 * unat n)"
    using slice_fbytes [OF f i] off by simp
  finally have d: "sectors (cview (cache (x_part x))) (unat s) (unat n) = \<dots>" .
  have "mem_write (x_buf x) (x_ptr x) (bslice (fbytes p cs) (off0 + ?d) (512 * unat n)) =
      Some (overwrite buf 0 (bslice (fbytes p cs) off0 (?d + 512 * unat n)))"
    by (rule store_next) (use st room in auto)
  with c d show thesis
    by (intro that [OF _ step_of_cache [OF fs f(1) c(2-4)]]) (simp add: read_sectors_at_def)
qed

text \<open>Bytes of one sector.\<close>

lemma read_part:
  assumes fc: "fchain p x0 cs" and r: "freading p cs buf off0 tot err x"
    and off: "off0 + (tot - x_remain x) = 512 * i + unat b"
    and n: "n \<le> x_remain x" "off0 + tot \<le> length (fbytes p cs)" "tot \<le> length buf" "unat b + n \<le> 512"
    and i: "i < length cs * unat (sectorsPerCluster p)"
    and s: "unat s < unat (endOfPartition (cache p))" "cview (cache (x_part x)) (unat s) = fsector p cs i"
  obtains p' where "read_partial_at s b n x = Some (x\<lparr>x_part := p',
      x_buf := overwrite buf 0 (bslice (fbytes p cs) off0 (tot - x_remain x + n))\<rparr>)"
    "fstep p (firstFree (fat p)) (flink p) p'"
proof -
  note f = fchainD [OF fc] and st = r [unfolded reading_def]
  let ?d = "tot - x_remain x"
  have fs: "fstep p (firstFree (fat p)) (flink p) (x_part x)" using st by blast
  have room: "off0 + ?d + n \<le> length (fbytes p cs)" "?d + n \<le> length buf" using n st by linarith+
  have e: "unat s < unat (endOfPartition (cache (x_part x)))" using s(1) same_params(4) [OF fs] by simp
  obtain c where c: "FAT_cache_readPartialSector (cache (x_part x)) s b n =
      Some (True, bslice (cview (cache (x_part x)) (unat s)) (unat b) n, c)"
    "cinv c" "sview (cache (x_part x)) c" "same_frame nsec (cache (x_part x)) c"
    by (rule readPartialSector_ok [OF same_params(5) [OF fs] e n(4)])
  have "bslice (cview (cache (x_part x)) (unat s)) (unat b) n = bslice (fbytes p cs) (off0 + ?d) n"
    using slice_fbytes_part [OF f i n(4)] off s(2) by simp
  moreover have "mem_write (x_buf x) (x_ptr x) (bslice (fbytes p cs) (off0 + ?d) n) =
      Some (overwrite buf 0 (bslice (fbytes p cs) off0 (?d + n)))"
    by (rule store_next) (use st room in auto)
  ultimately show thesis
    using c by (intro that [OF _ step_of_cache [OF fs f(1) c(2-4)]]) (simp add: read_partial_at_def)
qed

end


section \<open>The steps of a read\<close>

lemma chain_link:
  "chain nx lc x cs e \<Longrightarrow> k < length cs \<Longrightarrow> nx (cs ! k) = (if Suc k < length cs then cs ! Suc k else e)"
proof (induction cs arbitrary: x k)
  case (Cons y ys)
  then have r: "chain nx lc (nx y) ys e" by (simp add: chain_Cons)
  show ?case
  proof (cases k)
    case 0
    then show ?thesis using r by (cases ys) (auto simp: chain_Cons chain_Nil)
  next
    case (Suc j)
    then show ?thesis using Cons.IH [OF r, of j] Cons.prems(2) by simp
  qed
qed simp

lemma pos_atI:
  assumes "k < length cs" "fp_cluster q = cs ! k" "unat (fp_sector q) \<le> unat (sectorsPerCluster p)"
    "unat (fp_byte q) < 512" "fp_sector q = sectorsPerCluster p \<Longrightarrow> fp_byte q = 0"
    "off = 512 * (k * unat (sectorsPerCluster p) + unat (fp_sector q)) + unat (fp_byte q)"
  shows "pos_at p cs q off"
  using assms unfolding pos_at_def by blast

lemma unat_of_nat_u32: "n < 2 ^ 32 \<Longrightarrow> unat (of_nat n :: u32) = n"
  by (rule of_nat_inverse [OF refl]) simp

text \<open>What remains to be read is a multiple of whole sectors, or the last bytes.\<close>

definition aligned :: "'d XFER \<Rightarrow> bool" where
  "aligned x \<longleftrightarrow> fp_byte (x_pos x) = 0 \<or> x_remain x = 0"

lemma unat_sector_rest:
  assumes "unat (fp_byte (x_pos x)) < 512"
  shows "unat (sector_rest x) = min (512 - unat (fp_byte (x_pos x))) (x_remain x)"
proof -
  have u: "unat (512 - fp_byte (x_pos x)) = 512 - unat (fp_byte (x_pos x))"
    using assms by (subst unat_sub_u32) simp_all
  show ?thesis
  proof (cases "512 - unat (fp_byte (x_pos x)) > x_remain x")
    case True
    then have "unat (of_nat (x_remain x) :: u32) = x_remain x" by (intro unat_of_nat_u32) simp
    then show ?thesis using True u by (simp add: sector_rest_def Let_def)
  qed (use u in \<open>simp add: sector_rest_def Let_def\<close>)
qed

text \<open>The bounds under which a read is proved: \<open>tot\<close> bytes from \<open>off0\<close> on lie in the chain.\<close>

definition read_bounds ::
  "'d DISC_INTERFACE \<Rightarrow> ('d \<Rightarrow> bool) \<Rightarrow> ('d \<Rightarrow> nat) \<Rightarrow> ('d \<Rightarrow> nat \<Rightarrow> byte list) \<Rightarrow>
     'd PARTITION \<Rightarrow> u32 \<Rightarrow> u32 list \<Rightarrow> byte list \<Rightarrow> nat \<Rightarrow> nat \<Rightarrow> bool" where
  "read_bounds D ok nsec sec p x0 cs buf off0 tot \<longleftrightarrow> file_chain D ok nsec sec p x0 cs \<and>
     off0 + tot \<le> length (file_bytes sec p cs) \<and> tot \<le> length buf \<and> tot < 2 ^ 32"

context disc_device begin

abbreviation rbounds where "rbounds \<equiv> read_bounds D ok nsec sec"

lemma rboundsD:
  assumes "rbounds p x0 cs buf off0 tot"
  shows "fchain p x0 cs" "off0 + tot \<le> length (fbytes p cs)" "tot \<le> length buf" "tot < 2 ^ 32"
  using assms by (simp_all add: read_bounds_def)

lemma readingD:
  assumes "freading p cs buf off0 tot err x"
  shows "x_ok x" "x_errno x = err" "x_remain x \<le> tot" "fstep p (firstFree (fat p)) (flink p) (x_part x)"
    "pos_at p cs (x_pos x) (off0 + (tot - x_remain x))" "x_ptr x = tot - x_remain x"
    "x_buf x = overwrite buf 0 (bslice (fbytes p cs) off0 (tot - x_remain x))"
  using assms unfolding reading_def by blast+

text \<open>After \<open>n\<close> more bytes the invariant holds again.\<close>

lemma reading_advance:
  assumes r: "freading p cs buf off0 tot err x" and n: "n \<le> x_remain x"
    and p': "fstep p (firstFree (fat p)) (flink p) p'" and q: "pos_at p cs q (off0 + (tot - x_remain x) + n)"
  shows "freading p cs buf off0 tot err ((advance n (x\<lparr>x_part := p',
      x_buf := overwrite buf 0 (bslice (fbytes p cs) off0 (tot - x_remain x + n))\<rparr>))\<lparr>x_pos := q\<rparr>)"
proof -
  note d = readingD [OF r]
  have "tot - (x_remain x - n) = tot - x_remain x + n" using n d(3) by simp
  then show ?thesis
    using d n p' q unfolding reading_def by (simp add: advance_def add.assoc)
qed

lemma data_sector_same:
  fixes s :: u32
  assumes "rbounds p x0 cs buf off0 tot" "freading p cs buf off0 tot err x" "k < length cs"
    and "unat s < unat (sectorsPerCluster p)"
  shows "cview (cache (x_part x)) (cluster_sector p (cs ! k) + unat s) =
    fsector p cs (k * unat (sectorsPerCluster p) + unat s)"
proof -
  note fc = rboundsD(1) [OF assms(1)]
  note f = fchainD [OF fc]
  show ?thesis
    using data_same [OF f(1,2) readingD(4) [OF assms(2)] valid_in_chain [OF f(4) assms(3)] assms(4)]
      chain_sector(3) [OF fc assms(3,4)] by simp
qed

lemma read_align_sector_ok:
  assumes rb: "rbounds p x0 cs buf off0 tot" and r: "freading p cs buf off0 tot err x"
    and s: "unat (fp_sector (x_pos x)) < unat (sectorsPerCluster p)"
  obtains x' where "read_align_sector x = Some x'" "freading p cs buf off0 tot err x'" "aligned x'"
proof -
  note b = rboundsD [OF rb] and d = readingD [OF r]
  let ?m = "unat (sectorsPerCluster p)" and ?q = "x_pos x"
  obtain k where k: "k < length cs" "fp_cluster ?q = cs ! k" "unat (fp_byte ?q) < 512"
    "off0 + (tot - x_remain x) = 512 * (k * ?m + unat (fp_sector ?q)) + unat (fp_byte ?q)"
    using d(5) unfolding pos_at_def by blast
  define n where "n = sector_rest x"
  have n: "unat n = min (512 - unat (fp_byte ?q)) (x_remain x)"
    unfolding n_def by (rule unat_sector_rest [OF k(3)])
  show thesis
  proof (cases "n < 512")
    case False
    then have "unat (fp_byte ?q) = 0" using n by (simp add: word_less_nat_alt)
    then have "fp_byte ?q = 0" by (simp add: unat_eq_zero)
    with False show thesis
      using r by (intro that [of x]) (simp_all add: read_align_sector_def Let_def aligned_def n_def [symmetric])
  next
    case True
    note cs = chain_sector [OF b(1) k(1) s]
    have ps: "unat (pos_sector (x_part x) ?q) = cluster_sector p (cs ! k) + unat (fp_sector ?q)"
      using cs(1) by (simp add: pos_sector_def k(2) same_params(3) [OF d(4)])
    obtain p' where p': "read_partial_at (pos_sector (x_part x) ?q) (fp_byte ?q) (unat n) x =
        Some (x\<lparr>x_part := p', x_buf := overwrite buf 0 (bslice (fbytes p cs) off0 (tot - x_remain x + unat n))\<rparr>)"
      "fstep p (firstFree (fat p)) (flink p) p'"
    proof (rule read_part [OF b(1) r k(4) _ b(2,3) _ cs(4)])
      show "unat n \<le> x_remain x" "unat (fp_byte ?q) + unat n \<le> 512" using n k(3) by simp_all
      show "unat (pos_sector (x_part x) ?q) < unat (endOfPartition (cache p))" using cs(2) ps by simp
      show "cview (cache (x_part x)) (unat (pos_sector (x_part x) ?q)) =
          fsector p cs (k * ?m + unat (fp_sector ?q))"
        using data_sector_same [OF rb r k(1) s] ps by simp
    qed
    have bn: "unat (fp_byte ?q + n) = unat (fp_byte ?q) + unat n"
      using n k(3) by (subst unat_add_u32) auto
    have q: "pos_at p cs (add_byte n ?q) (off0 + (tot - x_remain x) + unat n)"
    proof (cases "unat (fp_byte ?q) + unat n = 512")
      case c: True
      then have "512 \<le> fp_byte ?q + n" by (simp add: word_le_nat_alt bn)
      moreover have "unat (fp_sector ?q + 1) = unat (fp_sector ?q) + 1"
        using s unat_lt_u32 [of "sectorsPerCluster p"] by (intro unat_next) simp
      ultimately show ?thesis
        using k s c by (intro pos_atI [of k]) (simp_all add: add_byte_def Let_def)
    next
      case c: False
      then have "unat (fp_byte ?q) + unat n < 512" using n k(3) by (simp add: min_def split: if_splits)
      moreover from this have "\<not> 512 \<le> fp_byte ?q + n" by (simp add: word_le_nat_alt bn)
      ultimately show ?thesis
        using k s bn by (intro pos_atI [of k]) (auto simp: add_byte_def Let_def)
    qed
    have al: "unat (fp_byte ?q) + unat n = 512 \<or> x_remain x = unat n"
      using n k(3) by (simp add: min_def split: if_splits)
    show thesis
    proof (rule that)
      show "read_align_sector x = Some ((advance (unat n) (x\<lparr>x_part := p',
          x_buf := overwrite buf 0 (bslice (fbytes p cs) off0 (tot - x_remain x + unat n))\<rparr>))\<lparr>x_pos := add_byte n ?q\<rparr>)"
        using True d(1) p'(1) by (simp add: read_align_sector_def Let_def n_def [symmetric] advance_def)
      show "freading p cs buf off0 tot err ((advance (unat n) (x\<lparr>x_part := p',
          x_buf := overwrite buf 0 (bslice (fbytes p cs) off0 (tot - x_remain x + unat n))\<rparr>))\<lparr>x_pos := add_byte n ?q\<rparr>)"
        by (rule reading_advance [OF r _ p'(2) q]) (use n in simp)
      have "512 \<le> fp_byte ?q + n" if "unat (fp_byte ?q) + unat n = 512"
        using that by (simp add: word_le_nat_alt bn)
      then show "aligned ((advance (unat n) (x\<lparr>x_part := p',
          x_buf := overwrite buf 0 (bslice (fbytes p cs) off0 (tot - x_remain x + unat n))\<rparr>))\<lparr>x_pos := add_byte n ?q\<rparr>)"
        using al by (auto simp: aligned_def advance_def add_byte_def Let_def)
    qed
  qed
qed

end


lemma unat_cluster_rest:
  assumes "unat (fp_sector (x_pos x)) \<le> unat (sectorsPerCluster (x_part x))"
    "512 * unat (sectorsPerCluster (x_part x)) < 2 ^ 32" "x_remain x < 2 ^ 32"
  defines "left \<equiv> unat (sectorsPerCluster (x_part x)) - unat (fp_sector (x_pos x))"
  shows "unat (cluster_rest x) = (if x_remain x > 512 * left then left else x_remain x div 512)"
proof -
  have l: "unat (sectorsPerCluster (x_part x) - fp_sector (x_pos x)) = left"
    unfolding left_def using assms(1) by (rule unat_sub_u32)
  have "left * 512 < 2 ^ 32" using assms(2) by (simp add: left_def)
  then have "unat ((sectorsPerCluster (x_part x) - fp_sector (x_pos x)) * 512) = 512 * left"
    using l by (subst unat_mult_u32) simp_all
  moreover have "unat (of_nat (x_remain x div 512) :: u32) = x_remain x div 512"
    using assms(3) by (intro unat_of_nat_u32) simp
  ultimately show ?thesis using l by (simp add: cluster_rest_def Let_def)
qed

lemma unat_mult_512: "unat (n :: u32) * 512 < 2 ^ 32 \<Longrightarrow> unat (n * 512) = 512 * unat n"
  by (subst unat_mult_u32) simp_all

text \<open>Either less than a sector remains, or the position is at the end of its cluster.\<close>

definition at_cluster_end :: "'d PARTITION \<Rightarrow> 'd XFER \<Rightarrow> bool" where
  "at_cluster_end p x \<longleftrightarrow> x_remain x < 512 \<or> fp_sector (x_pos x) = sectorsPerCluster p"

context disc_device begin

text \<open>A whole run of sectors from the current position, inside the cluster.\<close>

lemma read_cluster_run:
  fixes n :: u32
  assumes rb: "rbounds p x0 cs buf off0 tot" and r: "freading p cs buf off0 tot err x" and al: "aligned x"
    and n: "n \<noteq> 0" "512 * unat n \<le> x_remain x" "unat (fp_sector (x_pos x)) + unat n \<le> unat (sectorsPerCluster p)"
  defines "q \<equiv> (x_pos x)\<lparr>fp_sector := fp_sector (x_pos x) + n\<rparr>"
  obtains x1 where "read_sectors_at (pos_sector p (x_pos x)) n x = Some (True, x1)"
    "freading p cs buf off0 tot err ((advance (unat (n * 512)) x1)\<lparr>x_pos := q\<rparr>)"
    "x_pos x1 = x_pos x" "x_remain x1 = x_remain x" "aligned ((advance (unat (n * 512)) x1)\<lparr>x_pos := q\<rparr>)"
    "unat (fp_sector q) = unat (fp_sector (x_pos x)) + unat n"
proof -
  note b = rboundsD [OF rb] and d = readingD [OF r]
  let ?m = "unat (sectorsPerCluster p)" and ?q = "x_pos x"
  have un: "0 < unat n" using n(1) by (simp add: unat_gt_0)
  then have s: "unat (fp_sector ?q) < ?m" using n(3) by linarith
  have byte: "fp_byte ?q = 0" using al n(2) un by (auto simp: aligned_def)
  obtain k where k: "k < length cs" "fp_cluster ?q = cs ! k"
    "off0 + (tot - x_remain x) = 512 * (k * ?m + unat (fp_sector ?q))"
    using d(5) byte unfolding pos_at_def by auto
  note f = fchainD [OF b(1)]
  note c = chain_sector [OF b(1) k(1) s] and cb = cluster_sector_bounds [OF f(2) valid_in_chain [OF f(4) k(1)]]
  have ps: "unat (pos_sector p ?q) = cluster_sector p (cs ! k) + unat (fp_sector ?q)"
    using c(1) by (simp add: pos_sector_def k(2))
  have sn: "unat (fp_sector ?q + n) = unat (fp_sector ?q) + unat n"
    using n(3) unat_lt_u32 [of "sectorsPerCluster p"] by (intro unat_add_u32) simp
  obtain p' where p': "read_sectors_at (pos_sector p ?q) n x = Some (True, x\<lparr>x_part := p',
      x_buf := overwrite buf 0 (bslice (fbytes p cs) off0 (tot - x_remain x + 512 * unat n))\<rparr>)"
    "fstep p (firstFree (fat p)) (flink p) p'"
  proof (rule read_run [OF b(1) r k(3) n(2) b(2,3)])
    show "unat (pos_sector p ?q) + unat n \<le> unat (endOfPartition (cache p))"
      using cb(2) n(3) ps by linarith
    show "cview (cache (x_part x)) (unat (pos_sector p ?q) + j) = fsector p cs (k * ?m + unat (fp_sector ?q) + j)"
      if j: "j < unat n" for j
    proof -
      have u: "unat (of_nat (unat (fp_sector ?q) + j) :: u32) = unat (fp_sector ?q) + j"
        using j n(3) unat_lt_u32 [of "sectorsPerCluster p"] by (intro unat_of_nat_u32) simp
      show ?thesis
        using data_sector_same [OF rb r k(1), of "of_nat (unat (fp_sector ?q) + j)", unfolded u] j n(3) ps
        by (simp add: add.assoc)
    qed
  qed
  have n512: "unat (n * 512) = 512 * unat n"
    using n(2) d(3) b(4) by (intro unat_mult_512) simp
  show thesis
  proof (rule that [OF p'(1)])
    have "pos_at p cs q (off0 + (tot - x_remain x) + unat (n * 512))"
      unfolding q_def using k n(3) sn byte n512 by (intro pos_atI [of k]) simp_all
    from reading_advance [OF r _ p'(2) this] n(2) n512
    show "freading p cs buf off0 tot err ((advance (unat (n * 512)) (x\<lparr>x_part := p',
        x_buf := overwrite buf 0 (bslice (fbytes p cs) off0 (tot - x_remain x + 512 * unat n))\<rparr>))\<lparr>x_pos := q\<rparr>)"
      by simp
    show "unat (fp_sector q) = unat (fp_sector ?q) + unat n" by (simp add: q_def sn)
  qed (simp_all add: aligned_def q_def byte advance_def)
qed

lemma read_align_cluster_ok:
  assumes rb: "rbounds p x0 cs buf off0 tot" and r: "freading p cs buf off0 tot err x" and al: "aligned x"
  obtains x' where "read_align_cluster x = Some x'" "freading p cs buf off0 tot err x'" "aligned x'"
    "at_cluster_end p x'"
proof -
  note b = rboundsD [OF rb] and d = readingD [OF r]
  let ?m = "unat (sectorsPerCluster p)" and ?q = "x_pos x"
  have s: "unat (fp_sector ?q) \<le> ?m" using d(5) unfolding pos_at_def by blast
  have spc: "sectorsPerCluster (x_part x) = sectorsPerCluster p" by (rule same_params(1) [OF d(4)])
  define n where "n = cluster_rest x"
  have n: "unat n = (if x_remain x > 512 * (?m - unat (fp_sector ?q)) then ?m - unat (fp_sector ?q) else x_remain x div 512)"
    unfolding n_def
    using unat_cluster_rest [of x, unfolded spc] s d(3) b(4) geometry_bytes [OF fchainD(3) [OF b(1)]] by simp
  show thesis
  proof (cases "n = 0")
    case True
    then have "x_remain x < 512 \<or> unat (fp_sector ?q) = ?m"
      using n s by (auto split: if_splits)
    then have "at_cluster_end p x" by (auto simp: at_cluster_end_def word_unat_eq_iff)
    with True show thesis
      using r al by (intro that [of x]) (simp_all add: read_align_cluster_def Let_def n_def [symmetric])
  next
    case False
    have le: "512 * unat n \<le> x_remain x" "unat (fp_sector ?q) + unat n \<le> ?m"
      using n s by (auto split: if_splits)
    obtain x1 where x1: "read_sectors_at (pos_sector p ?q) n x = Some (True, x1)"
      "freading p cs buf off0 tot err ((advance (unat (n * 512)) x1)\<lparr>x_pos := ?q\<lparr>fp_sector := fp_sector ?q + n\<rparr>\<rparr>)"
      "x_pos x1 = ?q" "x_remain x1 = x_remain x"
      "aligned ((advance (unat (n * 512)) x1)\<lparr>x_pos := ?q\<lparr>fp_sector := fp_sector ?q + n\<rparr>\<rparr>)"
      "unat (fp_sector (?q\<lparr>fp_sector := fp_sector ?q + n\<rparr>)) = unat (fp_sector ?q) + unat n"
      by (rule read_cluster_run [OF rb r al False le])
    have n512: "unat (n * 512) = 512 * unat n"
      using le(1) d(3) b(4) by (intro unat_mult_512) simp
    have "x_remain x - 512 * unat n < 512 \<or> unat (fp_sector ?q) + unat n = ?m"
      using n s by (auto split: if_splits)
    then have "at_cluster_end p ((advance (unat (n * 512)) x1)\<lparr>x_pos := ?q\<lparr>fp_sector := fp_sector ?q + n\<rparr>\<rparr>)"
      using x1(4,6) n512 by (auto simp: at_cluster_end_def advance_def word_unat_eq_iff)
    moreover have "pos_sector (x_part x) ?q = pos_sector p ?q"
      by (simp add: pos_sector_def same_params(3) [OF d(4)])
    ultimately show thesis
      using x1 False d(1) by (intro that [OF _ x1(2,5)])
        (simp_all add: read_align_cluster_def Let_def word_gt_0 flip: n_def)
  qed
qed

end


text \<open>Behind the alignment the position is at the start of a cluster unless little remains.\<close>

definition at_cluster_start :: "'d PARTITION \<Rightarrow> 'd XFER \<Rightarrow> bool" where
  "at_cluster_start p x \<longleftrightarrow> (x_remain x = 0 \<or> unat (fp_sector (x_pos x)) < unat (sectorsPerCluster p)) \<and>
     (x_remain x < 512 \<or> fp_sector (x_pos x) = 0)"

context disc_device begin

lemma chain_not_end:
  assumes "fchain p x0 cs" "k < length cs" "fp_cluster q = cs ! k" "off = 512 * (Suc k * unat (sectorsPerCluster p))"
    and "0 < n" "off + n \<le> length (fbytes p cs)"
  shows "Suc k < length cs"
proof -
  note f = fchainD [OF assms(1)]
  have "length (fbytes p cs) = 512 * (length cs * unat (sectorsPerCluster p))"
    using length_fbytes [OF f] f(3) by (simp add: cluster_geometry_def algebra_simps)
  then have "Suc k * unat (sectorsPerCluster p) < length cs * unat (sectorsPerCluster p)"
    using assms(4-6) by linarith
  then show ?thesis using mult_less_cancel2 by blast
qed

lemma valid_not_EOF: "finv p \<Longrightarrow> FAT_fat_isValidCluster p y \<Longrightarrow> y \<noteq> CLUSTER_EOF"
  using not_mark(1) by (auto simp: FAT_fat_isValidCluster_def)

lemma EOF_not_valid: "finv p \<Longrightarrow> \<not> FAT_fat_isValidCluster p CLUSTER_EOF"
  using valid_not_EOF by blast

lemma next_of_chain:
  assumes "fchain p x0 cs" "fstep p ff (flink p) p'" "k < length cs"
  obtains p'' where "FAT_fat_nextCluster p' (cs ! k) =
      Some (if Suc k < length cs then cs ! Suc k else CLUSTER_EOF, p'')" "fstep p ff (flink p) p''"
proof -
  note f = fchainD [OF assms(1)]
  have v: "CLUSTER_FIRST \<le> cs ! k" "cs ! k \<le> lastCluster (fat p)"
    using valid_in_chain [OF f(4) assms(3)] by (simp_all add: FAT_fat_isValidCluster_def)
  show thesis
    by (rule next_step [OF f(1) assms(2) v])
      (use that chain_link [OF f(4) assms(3)] in simp)
qed

lemma reading_part:
  assumes "freading p cs buf off0 tot err x" "fstep p (firstFree (fat p)) (flink p) p'"
    and "pos_at p cs q (off0 + (tot - x_remain x))"
  shows "freading p cs buf off0 tot err (x\<lparr>x_part := p', x_pos := q\<rparr>)"
  using assms unfolding reading_def by simp

lemma read_next_cluster_ok:
  assumes rb: "rbounds p x0 cs buf off0 tot" and r: "freading p cs buf off0 tot err x" and al: "aligned x"
    and ce: "at_cluster_end p x"
  obtains x' where "read_next_cluster x = Some x'" "freading p cs buf off0 tot err x'" "aligned x'"
    "at_cluster_start p x'"
proof -
  note b = rboundsD [OF rb] and d = readingD [OF r]
  note f = fchainD [OF b(1)]
  let ?m = "unat (sectorsPerCluster p)" and ?q = "x_pos x"
  obtain k where k: "k < length cs" "fp_cluster ?q = cs ! k" "unat (fp_sector ?q) \<le> ?m" "unat (fp_byte ?q) < 512"
    "fp_sector ?q = sectorsPerCluster p \<longrightarrow> fp_byte ?q = 0"
    "off0 + (tot - x_remain x) = 512 * (k * ?m + unat (fp_sector ?q)) + unat (fp_byte ?q)"
    using d(5) unfolding pos_at_def by blast
  note sp = same_params [OF d(4)]
  show thesis
  proof (cases "sectorsPerCluster p \<le> fp_sector ?q")
    case False
    then show thesis
      using r al ce by (intro that [of x])
        (auto simp: read_next_cluster_def sp(1) at_cluster_start_def at_cluster_end_def word_le_nat_alt)
  next
    case True
    then have se: "fp_sector ?q = sectorsPerCluster p" using k(3) by (simp add: word_le_nat_alt word_unat_eq_iff)
    then have byte: "fp_byte ?q = 0" using k(5) by simp
    have off: "off0 + (tot - x_remain x) = 512 * (Suc k * ?m)" using k(6) se byte by simp
    obtain p' where p': "FAT_fat_nextCluster (x_part x) (cs ! k) =
        Some (if Suc k < length cs then cs ! Suc k else CLUSTER_EOF, p')"
      "fstep p (firstFree (fat p)) (flink p) p'"
      by (rule next_of_chain [OF b(1) d(4) k(1)])
    note sp' = same_params [OF p'(2)]
    show thesis
    proof (cases "Suc k < length cs")
      case more: True
      let ?y = "cs ! Suc k"
      have y: "FAT_fat_isValidCluster p ?y" by (rule valid_in_chain [OF f(4) more])
      then have ne: "?y \<noteq> CLUSTER_EOF" by (rule valid_not_EOF [OF f(1)])
      have m: "0 < ?m" using f(3) by (simp add: cluster_geometry_def)
      have "pos_at p cs (?q\<lparr>fp_sector := 0, fp_cluster := ?y\<rparr>) (off0 + (tot - x_remain x))"
        using more off byte m by (intro pos_atI [of "Suc k"]) simp_all
      from reading_part [OF r p'(2) this]
      have R: "freading p cs buf off0 tot err (x\<lparr>x_part := p', x_pos := ?q\<lparr>fp_sector := 0, fp_cluster := ?y\<rparr>\<rparr>)" .
      show thesis
      proof (rule that [OF _ R])
        show "read_next_cluster x = Some (x\<lparr>x_part := p', x_pos := ?q\<lparr>fp_sector := 0, fp_cluster := ?y\<rparr>\<rparr>)"
          using True d(1) p'(1) k(2) more y ne by (simp add: read_next_cluster_def sp(1) sp'(6))
      qed (simp_all add: at_cluster_start_def aligned_def m byte)
    next
      case last: False
      have "x_remain x = 0"
      proof (rule ccontr)
        assume "x_remain x \<noteq> 0"
        then have "Suc k < length cs"
          using chain_not_end [OF b(1) k(1,2) off, of "x_remain x"] b(2) d(3) by simp
        with last show False by simp
      qed
      moreover have "pos_at p cs (?q\<lparr>fp_sector := sectorsPerCluster p'\<rparr>) (off0 + (tot - x_remain x))"
        using k se sp'(1) by (intro pos_atI [of k]) simp_all
      ultimately have R: "x_remain x = 0"
        "freading p cs buf off0 tot err (x\<lparr>x_part := p', x_pos := ?q\<lparr>fp_sector := sectorsPerCluster p'\<rparr>\<rparr>)"
        using reading_part [OF r p'(2)] by simp_all
      show thesis
      proof (rule that [OF _ R(2)])
        show "read_next_cluster x = Some (x\<lparr>x_part := p', x_pos := ?q\<lparr>fp_sector := sectorsPerCluster p'\<rparr>\<rparr>)"
          using True d(1) p'(1) k(2) last R(1) by (simp add: read_next_cluster_def sp(1))
      qed (simp_all add: at_cluster_start_def aligned_def R(1) byte)
    qed
  qed
qed

end


section \<open>Whole clusters\<close>

text \<open>Clusters \<open>k\<close> to \<open>k + m - 1\<close> of the chain have consecutive numbers.\<close>

definition run_of :: "u32 list \<Rightarrow> nat \<Rightarrow> nat \<Rightarrow> bool" where
  "run_of cs k m \<longleftrightarrow> (\<forall>j < m. unat (cs ! (k + j)) = unat (cs ! k) + j)"

lemma run_of_1: "run_of cs k 1"
  by (simp add: run_of_def)

lemma run_of_Suc:
  assumes "run_of cs (Suc k) m" "unat (cs ! Suc k) = Suc (unat (cs ! k))"
  shows "run_of cs k (Suc m)"
  unfolding run_of_def
proof (intro allI impI)
  fix j assume j: "j < Suc m"
  show "unat (cs ! (k + j)) = unat (cs ! k) + j"
  proof (cases j)
    case (Suc i)
    then show ?thesis using assms j by (simp add: run_of_def)
  qed simp
qed

context disc_device begin

text \<open>The link behind cluster \<open>k\<close>.\<close>

abbreviation link_of where "link_of cs k \<equiv> (if k < length cs then cs ! k else CLUSTER_EOF)"

lemma chain_bound:
  assumes "fchain p x0 cs" "k < length cs"
  shows "unat (cs ! k) < 0x0FFFFFF7" "unat (cs ! k + 1) = Suc (unat (cs ! k))" "cs ! k + 1 \<noteq> CLUSTER_EOF"
proof -
  note f = fchainD [OF assms(1)]
  have "cs ! k \<le> lastCluster (fat p)"
    using valid_in_chain [OF f(4) assms(2)] by (simp add: FAT_fat_isValidCluster_def)
  then show *: "unat (cs ! k) < 0x0FFFFFF7" by (rule cluster_bound(2) [OF entry_ok_le [OF f(1)]])
  then show u: "unat (cs ! k + 1) = Suc (unat (cs ! k))" using unat_next [of "cs ! k"] by simp
  show "cs ! k + 1 \<noteq> CLUSTER_EOF"
  proof
    assume "cs ! k + 1 = CLUSTER_EOF"
    then have "unat (cs ! k + 1) = 0x0FFFFFFF" by (simp add: cluster_consts)
    with u * show False by simp
  qed
qed

lemma read_chunk_ok:
  assumes fc: "fchain p x0 cs"
  shows "k < length cs \<Longrightarrow> fstep p ff (flink p) p1 \<Longrightarrow> sz + unat (bytesPerCluster p) \<le> remain \<Longrightarrow>
    \<exists>m p2. read_chunk p1 remain (cs ! k) sz =
        Some (cs ! (k + m - 1), link_of cs (k + m), sz + m * unat (bytesPerCluster p), p2) \<and>
      fstep p ff (flink p) p2 \<and> 1 \<le> m \<and> k + m \<le> length cs \<and> run_of cs k m \<and>
      sz + m * unat (bytesPerCluster p) \<le> remain"
proof (induction "length cs - k" arbitrary: k p1 sz)
  case (Suc n)
  let ?b = "unat (bytesPerCluster p)"
  obtain p2 where p2: "FAT_fat_nextCluster p1 (cs ! k) = Some (link_of cs (Suc k), p2)" "fstep p ff (flink p) p2"
    by (rule next_of_chain [OF fc Suc.prems(2,1)])
  note sp = same_params [OF p2(2)] and bd = chain_bound [OF fc Suc.prems(1)]
  show ?case
  proof (cases "link_of cs (Suc k) = cs ! k + 1 \<and> sz + ?b + ?b \<le> remain")
    case True
    then have k: "Suc k < length cs" "cs ! Suc k = cs ! k + 1" using bd(3) by (auto split: if_splits)
    have n: "n = length cs - Suc k" using Suc.hyps(2) by simp
    have le: "sz + ?b + ?b \<le> remain" using True by simp
    obtain m p3 where m: "read_chunk p2 remain (cs ! Suc k) (sz + ?b) =
        Some (cs ! (Suc k + m - 1), link_of cs (Suc k + m), sz + ?b + m * ?b, p3)"
      "fstep p ff (flink p) p3" "1 \<le> m" "Suc k + m \<le> length cs" "run_of cs (Suc k) m" "sz + ?b + m * ?b \<le> remain"
      using Suc.hyps(1) [OF n k(1) p2(2) le] by blast
    have r: "run_of cs k (Suc m)" by (rule run_of_Suc [OF m(5)]) (simp add: k(2) bd(2))
    have "read_chunk p1 remain (cs ! k) sz = read_chunk p2 remain (cs ! Suc k) (sz + ?b)"
      using p2(1) True k by (subst read_chunk.simps) (simp add: sp(2) Let_def)
    with m r show ?thesis by (intro exI [of _ "Suc m"] exI [of _ p3]) (simp add: algebra_simps)
  next
    case False
    then have "read_chunk p1 remain (cs ! k) sz = Some (cs ! k, link_of cs (Suc k), sz + ?b, p2)"
      using p2(1) by (subst read_chunk.simps) (auto simp: sp(2) Let_def)
    with p2(2) Suc.prems run_of_1 show ?thesis by (intro exI [of _ 1] exI [of _ p2]) simp
  qed
qed simp

text \<open>A run of clusters is a run of sectors.\<close>

lemma run_sectors:
  assumes rb: "rbounds p x0 cs buf off0 tot" and r: "freading p cs buf off0 tot err x"
    and k: "k + m \<le> length cs" "run_of cs k m" "j < m * unat (sectorsPerCluster p)"
  shows "cview (cache (x_part x)) (cluster_sector p (cs ! k) + j) =
      fsector p cs (k * unat (sectorsPerCluster p) + j)"
    "cluster_sector p (cs ! k) + j < unat (endOfPartition (cache p))"
proof -
  note b = rboundsD [OF rb]
  let ?m = "unat (sectorsPerCluster p)"
  note f = fchainD [OF b(1)]
  have m0: "0 < ?m" using f(3) by (simp add: cluster_geometry_def)
  define i t where "i = j div ?m" "t = j mod ?m"
  have t: "t < ?m" "j = i * ?m + t" using m0 by (simp_all add: i_t_def)
  have i: "i < m" using k(3) by (simp add: i_t_def less_mult_imp_div_less)
  then have ki: "k + i < length cs" using k(1) by simp
  have u: "unat (of_nat t :: u32) = t"
    using t(1) unat_lt_u32 [of "sectorsPerCluster p"] by (intro unat_of_nat_u32) simp
  have "2 \<le> unat (cs ! k)"
    using valid_in_chain [OF f(4), of k] ki
    by (simp add: FAT_fat_isValidCluster_def word_le_nat_alt CLUSTER_FIRST_def)
  then have c: "cluster_sector p (cs ! (k + i)) = cluster_sector p (cs ! k) + i * ?m"
  proof -
    assume "2 \<le> unat (cs ! k)"
    then have "unat (cs ! (k + i)) - 2 = unat (cs ! k) - 2 + i" using k(2) i by (simp add: run_of_def)
    then show ?thesis by (simp add: cluster_sector_def add_mult_distrib)
  qed
  note cc = chain_sector [OF b(1) ki, of "of_nat t", unfolded u]
  have e: "k * ?m + j = (k + i) * ?m + t" "cluster_sector p (cs ! k) + j = cluster_sector p (cs ! (k + i)) + t"
    unfolding c by (simp_all add: t(2) add_mult_distrib)
  show "cview (cache (x_part x)) (cluster_sector p (cs ! k) + j) = fsector p cs (k * ?m + j)"
    using data_sector_same [OF rb r ki, of "of_nat t", unfolded u] t(1) by (simp only: e)
  show "cluster_sector p (cs ! k) + j < unat (endOfPartition (cache p))"
    using cc(2) [OF t(1)] by (simp only: e)
qed

end

context disc_device begin

lemma length_content:
  assumes "fchain p x0 cs"
  shows "length (fbytes p cs) = 512 * (length cs * unat (sectorsPerCluster p))"
  using length_fbytes [OF fchainD [OF assms]] fchainD(3) [OF assms]
  by (simp add: cluster_geometry_def algebra_simps)

text \<open>Reading a run of whole clusters from the start of the \<open>k\<close>-th one.\<close>

lemma read_cluster_chunk:
  assumes rb: "rbounds p x0 cs buf off0 tot" and r: "freading p cs buf off0 tot err x"
    and k: "k + m \<le> length cs" "run_of cs k m" "1 \<le> m"
    and off: "off0 + (tot - x_remain x) = 512 * (k * unat (sectorsPerCluster p))"
    and le: "m * unat (bytesPerCluster p) \<le> x_remain x"
  obtains p' where "read_sectors_at (FAT_fat_clusterToSector p (cs ! k))
      (of_nat (m * unat (bytesPerCluster p) div 512)) x = Some (True, x\<lparr>x_part := p',
        x_buf := overwrite buf 0 (bslice (fbytes p cs) off0 (tot - x_remain x + m * unat (bytesPerCluster p)))\<rparr>)"
    "fstep p (firstFree (fat p)) (flink p) p'"
proof -
  note b = rboundsD [OF rb] and d = readingD [OF r]
  note f = fchainD [OF b(1)]
  let ?m = "unat (sectorsPerCluster p)"
  have bpc: "unat (bytesPerCluster p) = 512 * ?m" and m0: "0 < ?m" using f(3) by (simp_all add: cluster_geometry_def)
  define n where "n = (of_nat (m * unat (bytesPerCluster p) div 512) :: u32)"
  have "m * unat (bytesPerCluster p) div 512 = m * ?m" by (simp add: bpc)
  moreover have "m * ?m < 2 ^ 32" using le bpc d(3) b(4) by simp
  ultimately have n: "unat n = m * ?m" unfolding n_def by (metis unat_of_nat_u32)
  have k1: "k < length cs" using k by simp
  note cb = cluster_sector_bounds [OF f(2) valid_in_chain [OF f(4) k1]]
  have sz: "512 * unat n = m * unat (bytesPerCluster p)" by (simp add: n bpc)
  show thesis
  proof (rule read_run [OF b(1) r off, of n "FAT_fat_clusterToSector p (cs ! k)"])
    show "512 * unat n \<le> x_remain x" using le sz by simp
    show "off0 + tot \<le> length (fbytes p cs)" "tot \<le> length buf" by (rule b)+
    have "m * ?m - 1 < m * ?m" using m0 k(3) by simp
    from run_sectors(2) [OF rb r k(1,2) this]
    show "unat (FAT_fat_clusterToSector p (cs ! k)) + unat n \<le> unat (endOfPartition (cache p))"
      using m0 k(3) by (simp add: cb(1) n)
    show "cview (cache (x_part x)) (unat (FAT_fat_clusterToSector p (cs ! k)) + j) = fsector p cs (k * ?m + j)"
      if "j < unat n" for j
      using run_sectors(1) [OF rb r k(1,2)] that by (simp only: cb(1) n)
    fix p' assume p': "read_sectors_at (FAT_fat_clusterToSector p (cs ! k)) n x = Some (True, x\<lparr>x_part := p',
        x_buf := overwrite buf 0 (bslice (fbytes p cs) off0 (tot - x_remain x + 512 * unat n))\<rparr>)"
      "fstep p (firstFree (fat p)) (flink p) p'"
    show thesis by (rule that [OF _ p'(2)]) (use p'(1) [unfolded sz] in \<open>simp only: n_def\<close>)
  qed
qed

text \<open>One round of the loop.\<close>

lemma read_clusters_round:
  assumes rb: "rbounds p x0 cs buf off0 tot" and r: "freading p cs buf off0 tot err x" and al: "aligned x"
    and st: "at_cluster_start p x" and le: "unat (bytesPerCluster p) \<le> x_remain x"
  obtains x' where "read_clusters x = read_clusters x'" "freading p cs buf off0 tot err x'" "aligned x'"
    "at_cluster_start p x'" "x_remain x' < x_remain x"
proof -
  note b = rboundsD [OF rb] and d = readingD [OF r]
  note f = fchainD [OF b(1)] and sp = same_params [OF d(4)]
  let ?m = "unat (sectorsPerCluster p)" and ?b = "unat (bytesPerCluster p)" and ?q = "x_pos x"
  have bpc: "?b = 512 * ?m" and m0: "0 < ?m" using f(3) by (simp_all add: cluster_geometry_def)
  have z: "fp_sector ?q = 0" "fp_byte ?q = 0"
    using st al le bpc m0 by (auto simp: at_cluster_start_def aligned_def)
  obtain k where k: "k < length cs" "fp_cluster ?q = cs ! k" "off0 + (tot - x_remain x) = 512 * (k * ?m)"
    using d(5) z unfolding pos_at_def by auto
  obtain m p2 where m: "read_chunk (x_part x) (x_remain x) (cs ! k) 0 =
      Some (cs ! (k + m - 1), link_of cs (k + m), m * ?b, p2)"
    "fstep p (firstFree (fat p)) (flink p) p2" "1 \<le> m" "k + m \<le> length cs" "run_of cs k m" "m * ?b \<le> x_remain x"
    using read_chunk_ok [OF b(1) k(1) d(4), of 0] le by (simp only: add_0) blast
  note sp2 = same_params [OF m(2)]
  define x2 where "x2 = x\<lparr>x_part := p2\<rparr>"
  have r2: "freading p cs buf off0 tot err x2" using r m(2) unfolding x2_def reading_def by (simp del: Nat.add_diff_assoc)
  obtain p' where p': "read_sectors_at (FAT_fat_clusterToSector p (cs ! k)) (of_nat (m * ?b div 512)) x2 =
      Some (True, x2\<lparr>x_part := p',
        x_buf := overwrite buf 0 (bslice (fbytes p cs) off0 (tot - x_remain x2 + m * ?b))\<rparr>)"
    "fstep p (firstFree (fat p)) (flink p) p'"
    by (rule read_cluster_chunk [OF rb r2 m(4,5,3)]) (use k(3) m(6) in \<open>auto simp: x2_def\<close>)
  note sp' = same_params [OF p'(2)]
  define x3 where "x3 = advance (m * ?b) (x2\<lparr>x_part := p',
      x_buf := overwrite buf 0 (bslice (fbytes p cs) off0 (tot - x_remain x2 + m * ?b))\<rparr>)"
  have x3: "x_part x3 = p'" "x_pos x3 = ?q" "x_remain x3 = x_remain x - m * ?b"
    by (simp_all add: x3_def x2_def advance_def)
  have off: "off0 + (tot - x_remain x2) + m * ?b = 512 * ((k + m) * ?m)"
    using k(3) by (simp add: x2_def bpc algebra_simps)
  have less: "x_remain x - m * ?b < x_remain x" using m(3) bpc m0 m(6) le by simp
  have rd: "freading p cs buf off0 tot err (x3\<lparr>x_pos := q\<rparr>)" if "pos_at p cs q (512 * ((k + m) * ?m))" for q
    unfolding x3_def by (rule reading_advance [OF r2 _ p'(2)]) (use m(6) that off in \<open>simp_all add: x2_def\<close>)
  have step: "read_clusters x = read_clusters
      (if x_remain x3 = 0 \<and> link_of cs (k + m) = CLUSTER_EOF
       then x3\<lparr>x_pos := ?q\<lparr>fp_sector := sectorsPerCluster p', fp_cluster := cs ! (k + m - 1)\<rparr>\<rparr>
       else if \<not> FAT_fat_isValidCluster p' (link_of cs (k + m)) then fail EIO x3
       else x3\<lparr>x_pos := ?q\<lparr>fp_sector := 0, fp_cluster := link_of cs (k + m)\<rparr>\<rparr>)"
    by (subst read_clusters.simps)
      (use d(1) le m(1) p'(1) in \<open>simp add: sp(2) k(2) sp2(3) Let_def x3_def x2_def advance_def
        del: One_nat_def split del: if_split cong del: if_weak_cong\<close>)
  show thesis
  proof (cases "k + m < length cs")
    case True
    have y: "FAT_fat_isValidCluster p (cs ! (k + m))" by (rule valid_in_chain [OF f(4) True])
    have "pos_at p cs (?q\<lparr>fp_sector := 0, fp_cluster := cs ! (k + m)\<rparr>) (512 * ((k + m) * ?m))"
      using True m0 z by (intro pos_atI [of "k + m"]) simp_all
    from rd [OF this] show thesis
      using True y valid_not_EOF [OF f(1) y] m0 z less
      by (intro that [of "x3\<lparr>x_pos := ?q\<lparr>fp_sector := 0, fp_cluster := cs ! (k + m)\<rparr>\<rparr>"])
        (simp_all add: step sp'(6) aligned_def at_cluster_start_def x3)
  next
    case False
    then have km: "k + m = length cs" using m(4) by simp
    have "512 * (length cs * ?m) = length (fbytes p cs)" by (simp only: length_content [OF b(1)])
    then have z3: "x_remain x3 = 0"
      using off km b(2) d(3) m(6) x3(3) by (simp add: x2_def)
    have "pos_at p cs (?q\<lparr>fp_sector := sectorsPerCluster p', fp_cluster := cs ! (k + m - 1)\<rparr>) (512 * ((k + m) * ?m))"
      using m(3) km z sp'(1) by (intro pos_atI [of "k + m - 1"]) (auto simp: algebra_simps diff_mult_distrib)
    from rd [OF this] show thesis
      using False z3 z less
      by (intro that [of "x3\<lparr>x_pos := ?q\<lparr>fp_sector := sectorsPerCluster p', fp_cluster := cs ! (k + m - 1)\<rparr>\<rparr>"])
        (simp_all add: step aligned_def at_cluster_start_def x3)
  qed
qed

lemma read_clusters_ok:
  assumes rb: "rbounds p x0 cs buf off0 tot"
  shows "freading p cs buf off0 tot err x \<Longrightarrow> aligned x \<Longrightarrow> at_cluster_start p x \<Longrightarrow>
    \<exists>x'. read_clusters x = Some x' \<and> freading p cs buf off0 tot err x' \<and> aligned x' \<and>
      at_cluster_start p x' \<and> x_remain x' < unat (bytesPerCluster p)"
proof (induction "x_remain x" arbitrary: x rule: less_induct)
  case less
  show ?case
  proof (cases "unat (bytesPerCluster p) \<le> x_remain x")
    case True
    obtain x' where "read_clusters x = read_clusters x'" "freading p cs buf off0 tot err x'" "aligned x'"
      "at_cluster_start p x'" "x_remain x' < x_remain x"
      by (rule read_clusters_round [OF rb less.prems True])
    with less.hyps [of x'] show ?thesis by simp
  next
    case False
    have "bytesPerCluster (x_part x) = bytesPerCluster p"
      by (rule same_params(2) [OF readingD(4) [OF less.prems(1)]])
    then have "read_clusters x = Some x" using False by (subst read_clusters.simps) simp
    then show ?thesis using less.prems False by auto
  qed
qed

end

section \<open>The last bytes\<close>

context disc_device begin

lemma read_rest_ok:
  assumes rb: "rbounds p x0 cs buf off0 tot" and r: "freading p cs buf off0 tot err x" and al: "aligned x"
    and st: "at_cluster_start p x" and le: "x_remain x < unat (bytesPerCluster p)"
  obtains x' where "read_rest x = Some x'" "freading p cs buf off0 tot err x'" "aligned x'"
    "x_remain x' < 512" "x_remain x' = 0 \<or> unat (fp_sector (x_pos x')) < unat (sectorsPerCluster p)"
proof -
  note b = rboundsD [OF rb] and d = readingD [OF r]
  note f = fchainD [OF b(1)] and sp = same_params [OF d(4)]
  let ?q = "x_pos x" and ?m = "unat (sectorsPerCluster p)"
  define n where "n = (of_nat (x_remain x div 512) :: u32)"
  have n: "unat n = x_remain x div 512"
    unfolding n_def using d(3) b(4) by (intro unat_of_nat_u32) simp
  show thesis
  proof (cases "n = 0")
    case True
    then have "x_remain x < 512" using n by (simp add: div_eq_0_iff)
    with True show thesis
      using r al st by (intro that [of x]) (auto simp: read_rest_def Let_def at_cluster_start_def simp flip: n_def)
  next
    case False
    then have "0 < unat n" by (simp add: unat_gt_0)
    then have "512 \<le> x_remain x" using n by (simp add: div_greater_zero_iff)
    then have z: "fp_sector ?q = 0" using st by (simp add: at_cluster_start_def)
    have le1: "512 * unat n \<le> x_remain x" using n by simp
    have "unat n < ?m" using n le f(3) by (simp add: cluster_geometry_def less_mult_imp_div_less)
    then have le2: "unat (fp_sector ?q) + unat n \<le> ?m" using z by simp
    obtain x1 where x1: "read_sectors_at (pos_sector p ?q) n x = Some (True, x1)"
      "freading p cs buf off0 tot err ((advance (unat (n * 512)) x1)\<lparr>x_pos := ?q\<lparr>fp_sector := fp_sector ?q + n\<rparr>\<rparr>)"
      "x_pos x1 = ?q" "x_remain x1 = x_remain x"
      "aligned ((advance (unat (n * 512)) x1)\<lparr>x_pos := ?q\<lparr>fp_sector := fp_sector ?q + n\<rparr>\<rparr>)"
      "unat (fp_sector (?q\<lparr>fp_sector := fp_sector ?q + n\<rparr>)) = unat (fp_sector ?q) + unat n"
      by (rule read_cluster_run [OF rb r al False le1 le2])
    have n512: "unat (n * 512) = 512 * unat n" using le1 d(3) b(4) by (intro unat_mult_512) simp
    have ps: "pos_sector p ?q = FAT_fat_clusterToSector (x_part x) (fp_cluster ?q)"
      by (simp add: pos_sector_def z sp(3))
    show thesis
    proof (rule that [OF _ x1(2,5)])
      show "read_rest x = Some ((advance (unat (n * 512)) x1)\<lparr>x_pos := ?q\<lparr>fp_sector := fp_sector ?q + n\<rparr>\<rparr>)"
        using x1(1,3) False d(1) by (simp add: read_rest_def Let_def word_gt_0 ps flip: n_def)
      have "x_remain x - 512 * (x_remain x div 512) < 512" by (simp add: minus_mult_div_eq_mod)
      then show "x_remain ((advance (unat (n * 512)) x1)\<lparr>x_pos := ?q\<lparr>fp_sector := fp_sector ?q + n\<rparr>\<rparr>) < 512"
        using x1(4) n512 n by (simp add: advance_def)
      show "x_remain ((advance (unat (n * 512)) x1)\<lparr>x_pos := ?q\<lparr>fp_sector := fp_sector ?q + n\<rparr>\<rparr>) = 0 \<or>
          unat (fp_sector (x_pos ((advance (unat (n * 512)) x1)\<lparr>x_pos := ?q\<lparr>fp_sector := fp_sector ?q + n\<rparr>\<rparr>))) < ?m"
        using x1(6) z \<open>unat n < ?m\<close> by simp
    qed
  qed
qed

text \<open>At the end nothing remains.\<close>

definition read_done where
  "read_done p cs buf off0 tot err x \<longleftrightarrow> x_remain x = 0 \<and> x_errno x = err \<and>
     fstep p (firstFree (fat p)) (flink p) (x_part x) \<and> pos_at p cs (x_pos x) (off0 + tot) \<and>
     x_buf x = overwrite buf 0 (bslice (fbytes p cs) off0 tot)"

lemma read_last_ok:
  assumes rb: "rbounds p x0 cs buf off0 tot" and r: "freading p cs buf off0 tot err x" and al: "aligned x"
    and le: "x_remain x < 512" "x_remain x = 0 \<or> unat (fp_sector (x_pos x)) < unat (sectorsPerCluster p)"
  obtains x' where "read_last x = Some x'" "read_done p cs buf off0 tot err x'"
proof -
  note b = rboundsD [OF rb] and d = readingD [OF r]
  let ?q = "x_pos x" and ?m = "unat (sectorsPerCluster p)"
  show thesis
  proof (cases "x_remain x = 0")
    case True
    then show thesis using d by (intro that [of x]) (simp_all add: read_last_def read_done_def)
  next
    case False
    then have s: "unat (fp_sector ?q) < ?m" and z: "fp_byte ?q = 0" using le(2) al by (auto simp: aligned_def)
    obtain k where k: "k < length cs" "fp_cluster ?q = cs ! k"
      "off0 + (tot - x_remain x) = 512 * (k * ?m + unat (fp_sector ?q))"
      using d(5) z unfolding pos_at_def by auto
    note cs = chain_sector [OF b(1) k(1) s]
    have ps: "unat (pos_sector (x_part x) ?q) = cluster_sector p (cs ! k) + unat (fp_sector ?q)"
      using cs(1) by (simp add: pos_sector_def k(2) same_params(3) [OF d(4)])
    obtain p' where p': "read_partial_at (pos_sector (x_part x) ?q) 0 (x_remain x) x =
        Some (x\<lparr>x_part := p', x_buf := overwrite buf 0 (bslice (fbytes p cs) off0 (tot - x_remain x + x_remain x))\<rparr>)"
      "fstep p (firstFree (fat p)) (flink p) p'"
    proof (rule read_part [OF b(1) r _ _ b(2,3) _ cs(4)])
      show "off0 + (tot - x_remain x) = 512 * (k * ?m + unat (fp_sector ?q)) + unat (0 :: u32)" by (simp add: k(3))
      show "x_remain x \<le> x_remain x" "unat (0 :: u32) + x_remain x \<le> 512" using le(1) by simp_all
      show "unat (pos_sector (x_part x) ?q) < unat (endOfPartition (cache p))" using cs(2) ps by simp
      show "cview (cache (x_part x)) (unat (pos_sector (x_part x) ?q)) = fsector p cs (k * ?m + unat (fp_sector ?q))"
        using data_sector_same [OF rb r k(1) s] ps by simp
    qed
    have u: "unat (of_nat (x_remain x) :: u32) = x_remain x" using le(1) by (intro unat_of_nat_u32) simp
    have off: "off0 + tot = 512 * (k * ?m + unat (fp_sector ?q)) + x_remain x" using k(3) d(3) by simp
    have q: "pos_at p cs (?q\<lparr>fp_byte := fp_byte ?q + of_nat (x_remain x)\<rparr>) (off0 + tot)"
      using k s z le(1) by (intro pos_atI [of k]) (auto simp: off u)
    show thesis
      by (rule that [of "x\<lparr>x_part := p', x_buf := overwrite buf 0 (bslice (fbytes p cs) off0 (tot - x_remain x + x_remain x)),
            x_pos := ?q\<lparr>fp_byte := fp_byte ?q + of_nat (x_remain x)\<rparr>, x_remain := 0\<rparr>"])
        (use p' q d False in \<open>simp_all add: read_last_def read_done_def\<close>)
  qed
qed

lemma read_steps_ok:
  assumes rb: "rbounds p x0 cs buf off0 tot" and r: "freading p cs buf off0 tot err x"
    and s: "unat (fp_sector (x_pos x)) < unat (sectorsPerCluster p) \<or> 512 \<le> x_remain x"
  obtains x' where "read_steps x = Some x'" "read_done p cs buf off0 tot err x'"
proof -
  obtain x1 where x1: "read_align_sector x = Some x1" "freading p cs buf off0 tot err x1" "aligned x1"
  proof (cases "unat (fp_sector (x_pos x)) < unat (sectorsPerCluster p)")
    case True
    then show thesis using read_align_sector_ok [OF rb r] that by blast
  next
    case False
    then have "fp_byte (x_pos x) = 0" using readingD(5) [OF r] by (auto simp: pos_at_def word_unat_eq_iff)
    then show thesis
      using r s False by (intro that [of x]) (simp_all add: read_align_sector_def sector_rest_def aligned_def Let_def)
  qed
  obtain x2 where x2: "read_align_cluster x1 = Some x2" "freading p cs buf off0 tot err x2" "aligned x2"
    "at_cluster_end p x2"
    by (rule read_align_cluster_ok [OF rb x1(2,3)])
  obtain x3 where x3: "read_next_cluster x2 = Some x3" "freading p cs buf off0 tot err x3" "aligned x3"
    "at_cluster_start p x3"
    by (rule read_next_cluster_ok [OF rb x2(2-4)])
  obtain x4 where x4: "read_clusters x3 = Some x4" "freading p cs buf off0 tot err x4" "aligned x4"
    "at_cluster_start p x4" "x_remain x4 < unat (bytesPerCluster p)"
    using read_clusters_ok [OF rb x3(2-4)] by blast
  obtain x5 where x5: "read_rest x4 = Some x5" "freading p cs buf off0 tot err x5" "aligned x5"
    "x_remain x5 < 512" "x_remain x5 = 0 \<or> unat (fp_sector (x_pos x5)) < unat (sectorsPerCluster p)"
    by (rule read_rest_ok [OF rb x4(2-5)])
  obtain x6 where x6: "read_last x5 = Some x6" "read_done p cs buf off0 tot err x6"
    by (rule read_last_ok [OF rb x5(2-5)])
  show thesis by (rule that [OF _ x6(2)]) (simp add: read_steps_def x1(1) x2(1) x3(1) x4(1) x5(1) x6(1))
qed

end

end
