(* ===== verification/FileProperties.thy ===== *)
theory FileProperties
  imports FileCorrect FatProperties
begin

text \<open>
  Reading an open file returns the bytes of its chain of clusters. \<open>image_file_bytes p cs\<close> is the
  content of the clusters \<open>cs\<close>, \<open>image_chain p x cs\<close> says that they are the chain from \<open>x\<close> on in a volume
  that satisfies the invariants, and \<open>open_file\<close> is the invariant of a file structure.
\<close>

abbreviation image_file_bytes :: "Instance PARTITION \<Rightarrow> u32 list \<Rightarrow> byte list" where
  "image_file_bytes \<equiv> file_bytes image_sec"

abbreviation image_chain :: "Instance PARTITION \<Rightarrow> u32 \<Rightarrow> u32 list \<Rightarrow> bool" where
  "image_chain \<equiv> file_chain discio image_ok image_nsec image_sec"

definition open_file :: "Instance PARTITION \<Rightarrow> FILE_STRUCT \<Rightarrow> u32 list \<Rightarrow> bool" where
  "open_file p f cs \<longleftrightarrow> inUse f \<and> f_read f \<and> startCluster f \<noteq> CLUSTER_FREE \<and>
     image_chain p (startCluster f) cs \<and> unat (filesize f) \<le> length (image_file_bytes p cs) \<and>
     pos_at p cs (rwPosition f) (unat (currentPosition f))"

text \<open>What a read leaves: the file with its new position, and a volume with the same links and content.\<close>

definition after_read ::
  "nat \<Rightarrow> FILE_STRUCT \<Rightarrow> u32 list \<Rightarrow> nat \<Rightarrow> Instance VOLUME \<Rightarrow> Instance VOLUME \<Rightarrow> bool" where
  "after_read fd f cs n s s' \<longleftrightarrow> (\<exists>q. pos_at (vol s) cs q (unat (currentPosition f) + n) \<and>
     files s' = (files s)(fd \<mapsto> f\<lparr>rwPosition := q, currentPosition := currentPosition f + of_nat n\<rparr>)) \<and>
     fat_step discio image_ok image_nsec image_sec (vol s) (firstFree (fat (vol s))) (image_link (vol s)) (vol s')"

lemma read_length:
  assumes "c < filesize f" "n + unat c < 2 ^ 64"
  shows "(if unat (filesize f) < (n + unat c) mod 2 ^ 64 then unat (filesize f - c) else n) =
    min n (unat (filesize f) - unat c)"
proof -
  have "unat (filesize f - c) = unat (filesize f) - unat c"
    using assms(1) by (intro unat_sub_u32) (simp add: word_less_nat_alt)
  moreover have "unat c < unat (filesize f)" using assms(1) by (simp add: word_less_nat_alt)
  ultimately show ?thesis using assms(2) by (simp add: min_def) linarith
qed

text \<open>
  C34. A read of \<open>len\<close> bytes at a position inside the file returns the bytes of the file's chain from
  that position on, as many as the file still has, in the caller's buffer; the position moves behind
  them, and neither the links nor the content of the volume change. The position must not be at the
  very end of a cluster unless a whole sector is left to read.
\<close>

theorem file_read:
  assumes "0 < fd" "files s fd = Some f" "open_file (vol s) f cs" "currentPosition f < filesize f" "0 < len"
    and "len + unat (currentPosition f) < 2 ^ 64"
    and "n = min len (unat (filesize f) - unat (currentPosition f))" "n \<le> length buf"
    and "fp_sector (rwPosition f) < sectorsPerCluster (vol s) \<or> 512 \<le> n"
  shows "\<exists>s'. FAT_read_r fd buf len s =
      Some (int n, overwrite buf 0 (bslice (image_file_bytes (vol s) cs) (unat (currentPosition f)) n), s') \<and>
    after_read fd f cs n s s'"
proof -
  let ?c = "unat (currentPosition f)" and ?p = "vol s"
  note o = assms(3) [unfolded open_file_def]
  let ?over = "(len + ?c) mod 2 ^ 64 > unat (filesize f)"
  define err where "err = (if ?over then Some EOVERFLOW else errno s)"
  define x where "x = \<lparr>x_part = ?p, x_pos = rwPosition f, x_remain = n, x_buf = buf, x_ptr = 0,
    x_ok = True, x_errno = err\<rparr>"
  have lt: "?c < unat (filesize f)" using assms(4) by (simp add: word_less_nat_alt)
  have n32: "n < 2 ^ 32" using assms(7) unat_lt_u32 [of "filesize f"] by simp
  have rb: "image.rbounds ?p (startCluster f) cs buf ?c n"
  proof -
    have "?c + n \<le> length (image_file_bytes ?p cs)" using o assms(7) lt by linarith
    then show ?thesis using o assms(8) n32 by (simp add: read_bounds_def)
  qed
  have "image.fstep ?p (firstFree (fat ?p)) (image_link ?p) ?p"
    using o by (intro fat_step_refl) (simp add: file_chain_def)
  then have r: "image.freading ?p cs buf ?c n err x"
    using o by (simp add: reading_def x_def overwrite_def)
  obtain x' where x': "read_steps x = Some x'" "image.read_done ?p cs buf ?c n err x'"
    by (rule image.read_steps_ok [OF rb r]) (use assms(9) in \<open>simp_all add: x_def word_less_nat_alt\<close>)
  define f' where "f' = f\<lparr>rwPosition := x_pos x', currentPosition := currentPosition f + of_nat n\<rparr>"
  have over: "(if ?over then unat (filesize f - currentPosition f) else len) = n"
    using read_length [OF assms(4,6)] by (simp add: assms(7))
  have run: "FAT_read_r fd buf len s = Some (int n, x_buf x', set_file fd f' (s\<lparr>vol := x_part x', errno := x_errno x'\<rparr>))"
  proof -
    have "\<not> filesize f \<le> currentPosition f" using assms(4) by simp
    then show ?thesis
      using assms(1,2,5) o x' [unfolded x_def err_def] over
      by (simp add: FAT_read_r_def Let_def f'_def image.read_done_def split del: if_split)
  qed
  have "after_read fd f cs n s (set_file fd f' (s\<lparr>vol := x_part x', errno := x_errno x'\<rparr>))"
    using x'(2) by (auto simp: after_read_def set_file_def f'_def image.read_done_def)
  with run x'(2) show ?thesis by (auto simp: image.read_done_def)
qed

definition example_file :: FILE_STRUCT where
  "example_file = \<lparr>filesize = 700, startCluster = 2, currentPosition = 0,
     rwPosition = \<lparr>fp_cluster = 2, fp_sector = 0, fp_byte = 0\<rparr>,
     appendPosition = \<lparr>fp_cluster = 3, fp_sector = 0, fp_byte = 188\<rparr>,
     dirEntryStart = \<lparr>dp_cluster = 0, dp_sector = 0, dp_offset = 0\<rparr>,
     dirEntryEnd = \<lparr>dp_cluster = 0, dp_sector = 0, dp_offset = 0\<rparr>, prevOpenFile = None, nextOpenFile = None,
     f_read = True, f_write = False, f_append = False, inUse = True, modified = False\<rparr>"

definition example_files :: "Instance VOLUME" where
  "example_files = \<lparr>vol = example_volume\<lparr>openFileCount := 1, firstOpenFile := Some 1\<rparr>,
     files = [1 \<mapsto> example_file], errno = None\<rparr>"

lemma example_files_open: "open_file (vol example_files) example_file [2, 3]"
proof -
  let ?p = "vol example_files"
  have inv: "image_volume_inv ?p" "data_geometry ?p"
    using example_volume_ok by (simp_all add: example_files_def fat_inv_def fat_geometry_def data_geometry_def
        table_sectors_def)
  have l: "image_link ?p = image_link example_volume"
    by (simp add: example_files_def fat_link_def fat_view_def fat_bytes_def fun_eq_iff)
  have g: "cluster_geometry ?p" by (simp add: cluster_geometry_def example_files_def example_volume_def)
  have c: "image_chain ?p 2 [2, 3]"
    using inv g example_chain by (simp add: file_chain_def l) (simp add: example_files_def)
  then have "length (image_file_bytes ?p [2, 3]) = 1024"
    using image.length_content [OF c] by (simp add: example_files_def)
  with c show ?thesis
    by (simp add: open_file_def example_file_def pos_at_def CLUSTER_FREE_def) (simp add: example_files_def)
qed

lemma example_content: "bslice (image_file_bytes (vol example_files) [2, 3]) 0 700 = replicate 700 0"
proof -
  have s: "image_sec example_image 4 = replicate 512 0" "image_sec example_image 5 = replicate 512 0"
    by (simp_all add: image_sec_def bslice_def example_image_def drop_replicate take_replicate)
  have "file_sector image_sec (vol example_files) [2, 3] 0 = replicate 512 0"
    "file_sector image_sec (vol example_files) [2, 3] 1 = replicate 512 0"
    using s example_cache_ok(2)
    by (simp_all add: file_sector_def cluster_sector_def example_files_def) (simp_all add: example_volume_def)
  then have "image_file_bytes (vol example_files) [2, 3] = replicate 1024 0"
    by (simp add: file_bytes_def sectors_def numeral_2_eq_2 flip: replicate_add) (simp add: example_files_def flip: replicate_add)
  then show ?thesis by (simp add: bslice_def)
qed

theorem file_read_witness:
  "\<exists>s'. FAT_read_r 1 (replicate 800 1) 800 example_files = Some (700, replicate 700 0 @ replicate 100 1, s')"
proof -
  have p: "unat (currentPosition example_file) = 0" "unat (filesize example_file) = 700" "currentPosition example_file < filesize example_file"
    by (simp_all add: example_file_def)
  obtain s' where "FAT_read_r 1 (replicate 800 1) 800 example_files =
      Some (int 700, overwrite (replicate 800 1) 0 (bslice (image_file_bytes (vol example_files) [2, 3]) 0 700), s')"
    using file_read [OF _ _ example_files_open p(3), of 1 800 700 "replicate 800 1"] p(1,2)
    by (auto simp: example_files_def)
  then show ?thesis by (simp add: example_content overwrite_def)
qed

end
