(* ===== verification/ArmState.thy ===== *)
theory ArmState
  imports Prelude
begin

text \<open>
  The state of an ARM processor: \<^verbatim>\<open>armcpu.h\<close>, the bit macros of \<^verbatim>\<open>utils/bits.h\<close>, and the
  control interface and the banked registers of \<^verbatim>\<open>armcpu.cpp\<close>.

  A status register is the union of a word and its bit fields: it is modelled as the word, and a
  field is read with \<open>bit\<close> or \<open>psr_mode\<close> and written with \<open>put_bit\<close> or \<open>put_mode\<close>. The register file
  \<open>R\<close> is a function; it is only read and written below index 16. The memory and control interfaces
  of the structure, its callback and its copy of the condition table are left out.

  The code is compiled once per processor (template parameter \<open>PROCNUM\<close>, 0 for the ARM9 and 1 for the
  ARM7). \<open>CORE\<close> is the state one processor works on: \<open>cpu\<close> is the processor itself (\<open>ARMPROC\<close>),
  \<open>peer\<close> the other one, \<open>mmu\<close> the memory system, \<open>reschedule\<close> the flag that \<open>NDS_Reschedule\<close> sets and
  \<open>execute\<close> the flag that \<open>emu_halt\<close> clears.
\<close>

section \<open>Bits\<close>

definition BIT_N :: "u32 \<Rightarrow> nat \<Rightarrow> u32" where "BIT_N i n = drop_bit n i AND 1"
definition BIT31 :: "u32 \<Rightarrow> u32" where "BIT31 i = drop_bit 31 i"
definition REG_POS :: "u32 \<Rightarrow> nat \<Rightarrow> nat" where "REG_POS i n = unat (drop_bit n i AND 0xF)"
definition CONDITION :: "u32 \<Rightarrow> u32" where "CONDITION i = drop_bit 28 i"
definition CODE :: "u32 \<Rightarrow> u32" where "CODE i = drop_bit 25 i AND 0x7"
definition INSTRUCTION_INDEX :: "u32 \<Rightarrow> u32" where
  "INSTRUCTION_INDEX i = (drop_bit 16 i AND 0xFF0) OR (drop_bit 4 i AND 0xF)"

text \<open>
  Rotation. For \<open>j = 0\<close> the C expression shifts by 32, which is not defined; with the left part taken
  as 0, or as \<open>i\<close> as on a PC, the result is \<open>i\<close>.
\<close>

definition ROR :: "u32 \<Rightarrow> nat \<Rightarrow> u32" where "ROR i j = drop_bit j i OR push_bit (32 - j) i"

definition SIGNED_OVERFLOW :: "u32 \<Rightarrow> u32 \<Rightarrow> u32 \<Rightarrow> u32" where
  "SIGNED_OVERFLOW a b c = BIT31 ((a AND b AND NOT c) OR (NOT a AND NOT b AND c))"
definition SIGNED_UNDERFLOW :: "u32 \<Rightarrow> u32 \<Rightarrow> u32 \<Rightarrow> u32" where
  "SIGNED_UNDERFLOW a b c = BIT31 ((a AND NOT b AND NOT c) OR (NOT a AND b AND c))"

section \<open>Carry and overflow\<close>

definition CarryFrom :: "u32 \<Rightarrow> u32 \<Rightarrow> bool" where
  "CarryFrom l r = (r > 0xFFFFFFFF - l)"
definition BorrowFrom :: "u32 \<Rightarrow> u32 \<Rightarrow> bool" where
  "BorrowFrom l r = (r > l)"
definition OverflowFromADD :: "u32 \<Rightarrow> u32 \<Rightarrow> u32 \<Rightarrow> bool" where
  "OverflowFromADD alu_out l r =
     (((0 \<le>s l \<and> 0 \<le>s r) \<or> (l <s 0 \<and> r <s 0)) \<and>
      ((l <s 0 \<and> 0 \<le>s alu_out) \<or> (0 \<le>s l \<and> alu_out <s 0)))"
definition OverflowFromSUB :: "u32 \<Rightarrow> u32 \<Rightarrow> u32 \<Rightarrow> bool" where
  "OverflowFromSUB alu_out l r =
     (((l <s 0 \<and> 0 \<le>s r) \<or> (0 \<le>s l \<and> r <s 0)) \<and>
      ((l <s 0 \<and> 0 \<le>s alu_out) \<or> (0 \<le>s l \<and> alu_out <s 0)))"

section \<open>Status registers\<close>

type_synonym Status_Reg = u32

text \<open>The bit fields of \<open>Status_Reg\<close>.\<close>

definition N_bit :: nat where "N_bit = 31"
definition Z_bit :: nat where "Z_bit = 30"
definition C_bit :: nat where "C_bit = 29"
definition V_bit :: nat where "V_bit = 28"
definition Q_bit :: nat where "Q_bit = 27"
definition I_bit :: nat where "I_bit = 7"
definition F_bit :: nat where "F_bit = 6"
definition T_bit :: nat where "T_bit = 5"

definition psr_mode :: "Status_Reg \<Rightarrow> u32" where "psr_mode s = s AND 0x1F"
definition put_mode :: "u32 \<Rightarrow> Status_Reg \<Rightarrow> Status_Reg" where
  "put_mode v s = (s AND NOT 0x1F) OR (v AND 0x1F)"
definition put_bit :: "nat \<Rightarrow> bool \<Rightarrow> Status_Reg \<Rightarrow> Status_Reg" where
  "put_bit n b s = (if b then set_bit n s else unset_bit n s)"

definition USR :: u32 where "USR = 0x10"
definition FIQ :: u32 where "FIQ = 0x11"
definition IRQ :: u32 where "IRQ = 0x12"
definition SVC :: u32 where "SVC = 0x13"
definition ABT :: u32 where "ABT = 0x17"
definition UND :: u32 where "UND = 0x1B"
definition SYS :: u32 where "SYS = 0x1F"

lemmas mode_defs = USR_def FIQ_def IRQ_def SVC_def ABT_def UND_def SYS_def
lemmas flag_defs = N_bit_def Z_bit_def C_bit_def V_bit_def Q_bit_def I_bit_def F_bit_def T_bit_def

section \<open>Processor\<close>

record armcpu_t =
  proc_ID :: u32
  instruction :: u32
  instruct_adr :: u32
  next_instruction :: u32
  R :: "nat \<Rightarrow> u32"
  CPSR :: Status_Reg
  SPSR :: Status_Reg
  R13_usr :: u32  R14_usr :: u32
  R13_svc :: u32  R14_svc :: u32
  R13_abt :: u32  R14_abt :: u32
  R13_und :: u32  R14_und :: u32
  R13_irq :: u32  R14_irq :: u32
  R8_fiq :: u32   R9_fiq :: u32
  R10_fiq :: u32  R11_fiq :: u32
  R12_fiq :: u32  R13_fiq :: u32
  R14_fiq :: u32
  SPSR_svc :: Status_Reg
  SPSR_abt :: Status_Reg
  SPSR_und :: Status_Reg
  SPSR_irq :: Status_Reg
  SPSR_fiq :: Status_Reg
  intVector :: u32
  LDTBit :: bool
  waitIRQ :: bool
  halt_IE_and_IF :: bool
  intrWaitARM_state :: byte
  stalled :: bool

record 'm CORE =
  cpu :: armcpu_t
  peer :: armcpu_t
  mmu :: 'm
  reschedule :: bool
  execute :: bool

definition ARMCPU_ARM9 :: u32 where "ARMCPU_ARM9 = 0"
definition ARMCPU_ARM7 :: u32 where "ARMCPU_ARM7 = 1"

text \<open>A change of the current processor, and of one of its registers.\<close>

definition upd_cpu :: "(armcpu_t \<Rightarrow> armcpu_t) \<Rightarrow> 'm CORE \<Rightarrow> 'm CORE" where
  "upd_cpu f s = s\<lparr>cpu := f (cpu s)\<rparr>"

definition setR :: "nat \<Rightarrow> u32 \<Rightarrow> armcpu_t \<Rightarrow> armcpu_t" where
  "setR n v c = c\<lparr>R := (R c)(n := v)\<rparr>"

definition put_flag :: "nat \<Rightarrow> bool \<Rightarrow> armcpu_t \<Rightarrow> armcpu_t" where
  "put_flag n b c = c\<lparr>CPSR := put_bit n b (CPSR c)\<rparr>"

definition flag :: "nat \<Rightarrow> armcpu_t \<Rightarrow> bool" where
  "flag n c = bit (CPSR c) n"

text \<open>\<open>NDS_Reschedule\<close>, \<open>armcpu_t::changeCPSR\<close> and \<open>emu_halt\<close>.\<close>

definition NDS_Reschedule :: "'m CORE \<Rightarrow> 'm CORE" where
  "NDS_Reschedule s = s\<lparr>reschedule := True\<rparr>"

definition changeCPSR :: "'m CORE \<Rightarrow> 'm CORE" where
  "changeCPSR s = NDS_Reschedule s"

definition emu_halt :: "'m CORE \<Rightarrow> 'm CORE" where
  "emu_halt s = s\<lparr>execute := False\<rparr>"

section \<open>The control interface\<close>

definition stall_cpu :: "armcpu_t \<Rightarrow> armcpu_t" where
  "stall_cpu c = c\<lparr>stalled := True\<rparr>"

definition unstall_cpu :: "armcpu_t \<Rightarrow> armcpu_t" where
  "unstall_cpu c = c\<lparr>stalled := False\<rparr>"

definition read_cpu_reg :: "u32 \<Rightarrow> armcpu_t \<Rightarrow> u32" where
  "read_cpu_reg reg_num c =
     (if reg_num \<le> 14 then R c (unat reg_num)
      else if reg_num = 15 then instruct_adr c
      else if reg_num = 16 then CPSR c
      else 0)"

definition set_cpu_reg :: "u32 \<Rightarrow> u32 \<Rightarrow> armcpu_t \<Rightarrow> armcpu_t" where
  "set_cpu_reg reg_num value c =
     (if reg_num \<le> 14 then setR (unat reg_num) value c
      else if reg_num = 15 then c\<lparr>next_instruction := value\<rparr>
      else c)"

section \<open>Switching between the banks\<close>

text \<open>
  The two \<open>switch\<close> statements of \<open>armcpu_switchMode\<close>: the visible registers are stored in the bank of
  the old mode, and those of the new mode are loaded. \<open>SWAP\<close> exchanges a register with its bank.
\<close>

definition swap_fiq :: "armcpu_t \<Rightarrow> armcpu_t" where
  "swap_fiq c = c\<lparr>R := (R c)(8 := R8_fiq c, 9 := R9_fiq c, 10 := R10_fiq c, 11 := R11_fiq c, 12 := R12_fiq c),
     R8_fiq := R c 8, R9_fiq := R c 9, R10_fiq := R c 10, R11_fiq := R c 11, R12_fiq := R c 12\<rparr>"

definition save_bank :: "u32 \<Rightarrow> armcpu_t \<Rightarrow> armcpu_t" where
  "save_bank oldmode c =
     (if oldmode = USR \<or> oldmode = SYS then c\<lparr>R13_usr := R c 13, R14_usr := R c 14\<rparr>
      else if oldmode = FIQ then
        (let c = swap_fiq c in c\<lparr>R13_fiq := R c 13, R14_fiq := R c 14, SPSR_fiq := SPSR c\<rparr>)
      else if oldmode = IRQ then c\<lparr>R13_irq := R c 13, R14_irq := R c 14, SPSR_irq := SPSR c\<rparr>
      else if oldmode = SVC then c\<lparr>R13_svc := R c 13, R14_svc := R c 14, SPSR_svc := SPSR c\<rparr>
      else if oldmode = ABT then c\<lparr>R13_abt := R c 13, R14_abt := R c 14, SPSR_abt := SPSR c\<rparr>
      else if oldmode = UND then c\<lparr>R13_und := R c 13, R14_und := R c 14, SPSR_und := SPSR c\<rparr>
      else c)"

definition load_bank :: "u32 \<Rightarrow> armcpu_t \<Rightarrow> armcpu_t" where
  "load_bank mode c =
     (if mode = USR \<or> mode = SYS then c\<lparr>R := (R c)(13 := R13_usr c, 14 := R14_usr c)\<rparr>
      else if mode = FIQ then
        (let c = swap_fiq c in c\<lparr>R := (R c)(13 := R13_fiq c, 14 := R14_fiq c), SPSR := SPSR_fiq c\<rparr>)
      else if mode = IRQ then c\<lparr>R := (R c)(13 := R13_irq c, 14 := R14_irq c), SPSR := SPSR_irq c\<rparr>
      else if mode = SVC then c\<lparr>R := (R c)(13 := R13_svc c, 14 := R14_svc c), SPSR := SPSR_svc c\<rparr>
      else if mode = ABT then c\<lparr>R := (R c)(13 := R13_abt c, 14 := R14_abt c), SPSR := SPSR_abt c\<rparr>
      else if mode = UND then c\<lparr>R := (R c)(13 := R13_und c, 14 := R14_und c), SPSR := SPSR_und c\<rparr>
      else c)"

definition switch_cpu :: "u32 \<Rightarrow> armcpu_t \<Rightarrow> armcpu_t" where
  "switch_cpu mode c =
     (let c = load_bank mode (save_bank (psr_mode (CPSR c)) c) in
      c\<lparr>CPSR := put_mode (mode AND 0x1F) (CPSR c)\<rparr>)"

definition armcpu_switchMode :: "u32 \<Rightarrow> 'm CORE \<Rightarrow> u32 \<times> 'm CORE" where
  "armcpu_switchMode mode s =
     (psr_mode (CPSR (cpu s)), changeCPSR (upd_cpu (switch_cpu mode) s))"

end
