(* ===== verification/ArmAlu.thy ===== *)
theory ArmAlu
  imports ArmState
begin

text \<open>
  The data-processing instructions of \<^verbatim>\<open>arm_instructions.cpp\<close>. Each instruction has one C function
  per form of its operand (\<open>OP_AND_LSL_IMM\<close>, \dots, \<open>OP_AND_S_IMM_VAL\<close>), which computes the operand with a
  macro and expands the macro of the instruction. Here the form is an argument: \<open>OP_AND\<close> and
  \<open>OP_ANDS\<close> are the macros, \<open>AND_fn m\<close> and \<open>AND_S_fn m\<close> the functions for the form \<open>m\<close>. The numbers
  \<open>a\<close> and \<open>b\<close> are the cycles without and with a write to the program counter.
\<close>

section \<open>The operand\<close>

datatype shifter = LSL_IMM | LSL_REG | LSR_IMM | LSR_REG | ASR_IMM | ASR_REG | ROR_IMM | ROR_REG | IMM_VALUE

definition by_reg :: "shifter \<Rightarrow> bool" where
  "by_reg m = (m = LSL_REG \<or> m = LSR_REG \<or> m = ASR_REG \<or> m = ROR_REG)"

text \<open>The amount of an immediate shift and of a shift by a register.\<close>

definition shift_imm :: "u32 \<Rightarrow> nat" where
  "shift_imm i = unat (drop_bit 7 i AND 0x1F)"

definition shift_reg :: "u32 \<Rightarrow> armcpu_t \<Rightarrow> nat" where
  "shift_reg i c = unat (R c (REG_POS i 8) AND 0xFF)"

definition sign_fill :: "u32 \<Rightarrow> u32" where
  "sign_fill x = BIT31 x * 0xFFFFFFFF"

definition imm_rotate :: "u32 \<Rightarrow> u32" where
  "imm_rotate i = ROR (i AND 0xFF) (unat (drop_bit 7 i AND 0x1E))"

text \<open>The operand without the carry: the macros \<open>LSL_IMM\<close> to \<open>IMM_VALUE\<close>.\<close>

fun shift_op :: "shifter \<Rightarrow> u32 \<Rightarrow> armcpu_t \<Rightarrow> u32" where
  "shift_op LSL_IMM i c = push_bit (shift_imm i) (R c (REG_POS i 0))"
| "shift_op LSL_REG i c =
     (let n = shift_reg i c in if n \<ge> 32 then 0 else push_bit n (R c (REG_POS i 0)))"
| "shift_op LSR_IMM i c =
     (let n = shift_imm i in if n \<noteq> 0 then drop_bit n (R c (REG_POS i 0)) else 0)"
| "shift_op LSR_REG i c =
     (let n = shift_reg i c in if n \<ge> 32 then 0 else drop_bit n (R c (REG_POS i 0)))"
| "shift_op ASR_IMM i c =
     (let n = shift_imm i; x = R c (REG_POS i 0) in
      if n = 0 then sign_fill x else signed_drop_bit n x)"
| "shift_op ASR_REG i c =
     (let n = shift_reg i c; x = R c (REG_POS i 0) in
      if n = 0 then x else if n < 32 then signed_drop_bit n x else sign_fill x)"
| "shift_op ROR_IMM i c =
     (let n = shift_imm i; x = R c (REG_POS i 0) in
      if n = 0 then push_bit 31 (if flag C_bit c then 1 else 0) OR drop_bit 1 x else ROR x n)"
| "shift_op ROR_REG i c =
     (let n = shift_reg i c; x = R c (REG_POS i 0) in
      if n = 0 \<or> n mod 32 = 0 then x else ROR x (n mod 32))"
| "shift_op IMM_VALUE i c = imm_rotate i"

text \<open>The operand and the carry: the macros \<open>S_LSL_IMM\<close> to \<open>S_IMM_VALUE\<close>.\<close>

fun S_shift_op :: "shifter \<Rightarrow> u32 \<Rightarrow> armcpu_t \<Rightarrow> u32 \<times> bool" where
  "S_shift_op LSL_IMM i c =
     (let n = shift_imm i; x = R c (REG_POS i 0) in
      if n = 0 then (x, flag C_bit c) else (push_bit n x, bit x (32 - n)))"
| "S_shift_op LSL_REG i c =
     (let n = shift_reg i c; x = R c (REG_POS i 0) in
      if n = 0 then (x, flag C_bit c)
      else if n < 32 then (push_bit n x, bit x (32 - n))
      else if n = 32 then (0, bit x 0)
      else (0, False))"
| "S_shift_op LSR_IMM i c =
     (let n = shift_imm i; x = R c (REG_POS i 0) in
      if n = 0 then (0, bit x 31) else (drop_bit n x, bit x (n - 1)))"
| "S_shift_op LSR_REG i c =
     (let n = shift_reg i c; x = R c (REG_POS i 0) in
      if n = 0 then (x, flag C_bit c)
      else if n < 32 then (drop_bit n x, bit x (n - 1))
      else if n = 32 then (0, bit x 31)
      else (0, False))"
| "S_shift_op ASR_IMM i c =
     (let n = shift_imm i; x = R c (REG_POS i 0) in
      if n = 0 then (sign_fill x, bit x 31) else (signed_drop_bit n x, bit x (n - 1)))"
| "S_shift_op ASR_REG i c =
     (let n = shift_reg i c; x = R c (REG_POS i 0) in
      if n = 0 then (x, flag C_bit c)
      else if n < 32 then (signed_drop_bit n x, bit x (n - 1))
      else (sign_fill x, bit x 31))"
| "S_shift_op ROR_IMM i c =
     (let n = shift_imm i; x = R c (REG_POS i 0) in
      if n = 0 then (push_bit 31 (if flag C_bit c then 1 else 0) OR drop_bit 1 x, bit x 0)
      else (ROR x n, bit x (n - 1)))"
| "S_shift_op ROR_REG i c =
     (let n = shift_reg i c; x = R c (REG_POS i 0) in
      if n = 0 then (x, flag C_bit c)
      else (let n = n mod 32 in
        if n = 0 then (x, bit x 31) else (ROR x n, bit x (n - 1))))"
| "S_shift_op IMM_VALUE i c =
     (let v = imm_rotate i in
      (v, if drop_bit 8 i AND 0xF \<noteq> 0 then bit v 31 else flag C_bit c))"

section \<open>Results\<close>

text \<open>
  The end of every macro: the result goes to the register at bits 12 to 15, and a write to register 15 is
  a jump. With the flags, it also restores the saved status register.
\<close>

definition write_rd :: "u32 \<Rightarrow> u32 \<Rightarrow> u32 \<Rightarrow> u32 \<Rightarrow> 'm CORE \<Rightarrow> u32 \<times> 'm CORE" where
  "write_rd i a b v s =
     (let s = upd_cpu (setR (REG_POS i 12) v) s in
      if REG_POS i 12 = 15
      then (b, upd_cpu (\<lambda>c. c\<lparr>next_instruction := R c 15\<rparr>) s)
      else (a, s))"

definition restore_spsr :: "'m CORE \<Rightarrow> 'm CORE" where
  "restore_spsr s =
     (let spsr = SPSR (cpu s);
          (_, s) = armcpu_switchMode (psr_mode spsr) s;
          s = changeCPSR (upd_cpu (\<lambda>c. c\<lparr>CPSR := spsr\<rparr>) s);
          s = upd_cpu (\<lambda>c. setR 15 (R c 15 AND (0xFFFFFFFC OR push_bit 1 (if flag T_bit c then 1 else 0))) c) s in
      upd_cpu (\<lambda>c. c\<lparr>next_instruction := R c 15\<rparr>) s)"

definition put_NZ :: "u32 \<Rightarrow> armcpu_t \<Rightarrow> armcpu_t" where
  "put_NZ v c = put_flag Z_bit (v = 0) (put_flag N_bit (bit v 31) c)"

text \<open>The flags of the logical and of the arithmetic instructions.\<close>

definition put_NZC :: "u32 \<Rightarrow> bool \<Rightarrow> armcpu_t \<Rightarrow> armcpu_t" where
  "put_NZC v carry c = put_NZ v (put_flag C_bit carry c)"

definition put_NZCV :: "u32 \<Rightarrow> bool \<Rightarrow> bool \<Rightarrow> armcpu_t \<Rightarrow> armcpu_t" where
  "put_NZCV v carry over c = put_flag V_bit over (put_flag C_bit carry (put_NZ v c))"

definition write_rd_S ::
  "u32 \<Rightarrow> u32 \<Rightarrow> u32 \<Rightarrow> u32 \<Rightarrow> (armcpu_t \<Rightarrow> armcpu_t) \<Rightarrow> 'm CORE \<Rightarrow> u32 \<times> 'm CORE" where
  "write_rd_S i a b v flags s =
     (let s = upd_cpu (setR (REG_POS i 12) v) s in
      if REG_POS i 12 = 15 then (b, restore_spsr s) else (a, upd_cpu flags s))"

text \<open>The cycles of a function: one more for a shift by a register.\<close>

definition cyc :: "shifter \<Rightarrow> u32 \<Rightarrow> u32" where
  "cyc m n = (if by_reg m then n + 1 else n)"

text \<open>The register at bits 16 to 19.\<close>

definition Rn :: "u32 \<Rightarrow> 'm CORE \<Rightarrow> u32" where
  "Rn i s = R (cpu s) (REG_POS i 16)"

definition carry_in :: "'m CORE \<Rightarrow> u32" where
  "carry_in s = (if flag C_bit (cpu s) then 1 else 0)"

section \<open>AND\<close>

definition OP_AND :: "u32 \<Rightarrow> u32 \<Rightarrow> u32 \<Rightarrow> u32 \<Rightarrow> 'm CORE \<Rightarrow> u32 \<times> 'm CORE" where
  "OP_AND a b i x s = write_rd i a b (Rn i s AND x) s"

definition OP_ANDS :: "u32 \<Rightarrow> u32 \<Rightarrow> u32 \<Rightarrow> u32 \<times> bool \<Rightarrow> 'm CORE \<Rightarrow> u32 \<times> 'm CORE" where
  "OP_ANDS a b i xc s =
     (let (x, carry) = xc; v = Rn i s AND x in write_rd_S i a b v (put_NZC v carry) s)"

definition AND_fn :: "shifter \<Rightarrow> u32 \<Rightarrow> 'm CORE \<Rightarrow> u32 \<times> 'm CORE" where
  "AND_fn m i s = OP_AND (cyc m 1) (cyc m 3) i (shift_op m i (cpu s)) s"

definition AND_S_fn :: "shifter \<Rightarrow> u32 \<Rightarrow> 'm CORE \<Rightarrow> u32 \<times> 'm CORE" where
  "AND_S_fn m i s = OP_ANDS (cyc m 1) (cyc m 3) i (S_shift_op m i (cpu s)) s"

section \<open>EOR\<close>

definition OP_EOR :: "u32 \<Rightarrow> u32 \<Rightarrow> u32 \<Rightarrow> u32 \<Rightarrow> 'm CORE \<Rightarrow> u32 \<times> 'm CORE" where
  "OP_EOR a b i x s = write_rd i a b (Rn i s XOR x) s"

definition OP_EORS :: "u32 \<Rightarrow> u32 \<Rightarrow> u32 \<Rightarrow> u32 \<times> bool \<Rightarrow> 'm CORE \<Rightarrow> u32 \<times> 'm CORE" where
  "OP_EORS a b i xc s =
     (let (x, carry) = xc; v = Rn i s XOR x in write_rd_S i a b v (put_NZC v carry) s)"

definition EOR_fn :: "shifter \<Rightarrow> u32 \<Rightarrow> 'm CORE \<Rightarrow> u32 \<times> 'm CORE" where
  "EOR_fn m i s = OP_EOR (cyc m 1) (cyc m 3) i (shift_op m i (cpu s)) s"

definition EOR_S_fn :: "shifter \<Rightarrow> u32 \<Rightarrow> 'm CORE \<Rightarrow> u32 \<times> 'm CORE" where
  "EOR_S_fn m i s = OP_EORS (cyc m 1) (cyc m 3) i (S_shift_op m i (cpu s)) s"

section \<open>SUB\<close>

definition OP_SUB :: "u32 \<Rightarrow> u32 \<Rightarrow> u32 \<Rightarrow> u32 \<Rightarrow> 'm CORE \<Rightarrow> u32 \<times> 'm CORE" where
  "OP_SUB a b i x s = write_rd i a b (Rn i s - x) s"

definition OP_SUBS :: "u32 \<Rightarrow> u32 \<Rightarrow> u32 \<Rightarrow> u32 \<Rightarrow> u32 \<Rightarrow> 'm CORE \<Rightarrow> u32 \<times> 'm CORE" where
  "OP_SUBS a b i v x s =
     (let r = v - x in write_rd_S i a b r (put_NZCV r (\<not> BorrowFrom v x) (OverflowFromSUB r v x)) s)"

definition SUB_fn :: "shifter \<Rightarrow> u32 \<Rightarrow> 'm CORE \<Rightarrow> u32 \<times> 'm CORE" where
  "SUB_fn m i s = OP_SUB (cyc m 1) (cyc m 3) i (shift_op m i (cpu s)) s"

definition SUB_S_fn :: "shifter \<Rightarrow> u32 \<Rightarrow> 'm CORE \<Rightarrow> u32 \<times> 'm CORE" where
  "SUB_S_fn m i s = OP_SUBS (cyc m 1) (cyc m 3) i (Rn i s) (shift_op m i (cpu s)) s"

section \<open>RSB\<close>

definition OP_RSB :: "u32 \<Rightarrow> u32 \<Rightarrow> u32 \<Rightarrow> u32 \<Rightarrow> 'm CORE \<Rightarrow> u32 \<times> 'm CORE" where
  "OP_RSB a b i x s = write_rd i a b (x - Rn i s) s"

definition OP_RSBS :: "u32 \<Rightarrow> u32 \<Rightarrow> u32 \<Rightarrow> u32 \<Rightarrow> u32 \<Rightarrow> 'm CORE \<Rightarrow> u32 \<times> 'm CORE" where
  "OP_RSBS a b i v x s =
     (let r = x - v in write_rd_S i a b r (put_NZCV r (\<not> BorrowFrom x v) (OverflowFromSUB r x v)) s)"

definition RSB_fn :: "shifter \<Rightarrow> u32 \<Rightarrow> 'm CORE \<Rightarrow> u32 \<times> 'm CORE" where
  "RSB_fn m i s = OP_RSB (cyc m 1) (cyc m 3) i (shift_op m i (cpu s)) s"

definition RSB_S_fn :: "shifter \<Rightarrow> u32 \<Rightarrow> 'm CORE \<Rightarrow> u32 \<times> 'm CORE" where
  "RSB_S_fn m i s = OP_RSBS (cyc m 1) (cyc m 3) i (Rn i s) (shift_op m i (cpu s)) s"

section \<open>ADD\<close>

definition OP_ADD :: "u32 \<Rightarrow> u32 \<Rightarrow> u32 \<Rightarrow> u32 \<Rightarrow> 'm CORE \<Rightarrow> u32 \<times> 'm CORE" where
  "OP_ADD a b i x s = write_rd i a b (Rn i s + x) s"

definition OP_ADDS :: "u32 \<Rightarrow> u32 \<Rightarrow> u32 \<Rightarrow> u32 \<Rightarrow> u32 \<Rightarrow> 'm CORE \<Rightarrow> u32 \<times> 'm CORE" where
  "OP_ADDS a b i v x s =
     (let r = v + x in write_rd_S i a b r (put_NZCV r (CarryFrom v x) (OverflowFromADD r v x)) s)"

definition ADD_fn :: "shifter \<Rightarrow> u32 \<Rightarrow> 'm CORE \<Rightarrow> u32 \<times> 'm CORE" where
  "ADD_fn m i s = OP_ADD (cyc m 1) (cyc m 3) i (shift_op m i (cpu s)) s"

definition ADD_S_fn :: "shifter \<Rightarrow> u32 \<Rightarrow> 'm CORE \<Rightarrow> u32 \<times> 'm CORE" where
  "ADD_S_fn m i s = OP_ADDS (cyc m 1) (cyc m 3) i (Rn i s) (shift_op m i (cpu s)) s"

section \<open>ADC\<close>

definition OP_ADC :: "u32 \<Rightarrow> u32 \<Rightarrow> u32 \<Rightarrow> u32 \<Rightarrow> 'm CORE \<Rightarrow> u32 \<times> 'm CORE" where
  "OP_ADC a b i x s = write_rd i a b (Rn i s + x + carry_in s) s"

definition OP_ADCS :: "u32 \<Rightarrow> u32 \<Rightarrow> u32 \<Rightarrow> u32 \<Rightarrow> u32 \<Rightarrow> 'm CORE \<Rightarrow> u32 \<times> 'm CORE" where
  "OP_ADCS a b i v x s =
     (if REG_POS i 12 = 15
      then (b, restore_spsr (upd_cpu (setR 15 (v + x + carry_in s)) s))
      else (let (r, carry) =
          (if \<not> flag C_bit (cpu s) then (let r = v + x in (r, r < v)) else (let r = v + x + 1 in (r, r \<le> v))) in
        (a, upd_cpu (\<lambda>c. put_flag V_bit (bit ((v XOR x XOR - 1) AND (v XOR r)) 31)
          (put_NZ r (put_flag C_bit carry (setR (REG_POS i 12) r c)))) s)))"

definition ADC_fn :: "shifter \<Rightarrow> u32 \<Rightarrow> 'm CORE \<Rightarrow> u32 \<times> 'm CORE" where
  "ADC_fn m i s = OP_ADC (cyc m 1) (cyc m 3) i (shift_op m i (cpu s)) s"

definition ADC_S_fn :: "shifter \<Rightarrow> u32 \<Rightarrow> 'm CORE \<Rightarrow> u32 \<times> 'm CORE" where
  "ADC_S_fn m i s = OP_ADCS (cyc m 1) (cyc m 3) i (Rn i s) (shift_op m i (cpu s)) s"

section \<open>SBC\<close>

definition OP_SBC :: "u32 \<Rightarrow> u32 \<Rightarrow> u32 \<Rightarrow> u32 \<Rightarrow> 'm CORE \<Rightarrow> u32 \<times> 'm CORE" where
  "OP_SBC a b i x s = write_rd i a b (Rn i s - x - (1 - carry_in s)) s"

definition OP_SBCS :: "u32 \<Rightarrow> u32 \<Rightarrow> u32 \<Rightarrow> u32 \<Rightarrow> u32 \<Rightarrow> 'm CORE \<Rightarrow> u32 \<times> 'm CORE" where
  "OP_SBCS a b i v x s =
     (if REG_POS i 12 = 15
      then (b, restore_spsr (upd_cpu (setR 15 (v - x - (1 - carry_in s))) s))
      else (let (r, carry) =
          (if \<not> flag C_bit (cpu s) then (let r = v - x - 1 in (r, v > x)) else (let r = v - x in (r, v \<ge> x))) in
        (a, upd_cpu (\<lambda>c. put_flag V_bit (bit ((v XOR x) AND (v XOR r)) 31)
          (put_NZ r (put_flag C_bit carry (setR (REG_POS i 12) r c)))) s)))"

definition SBC_fn :: "shifter \<Rightarrow> u32 \<Rightarrow> 'm CORE \<Rightarrow> u32 \<times> 'm CORE" where
  "SBC_fn m i s = OP_SBC (cyc m 1) (cyc m 3) i (shift_op m i (cpu s)) s"

definition SBC_S_fn :: "shifter \<Rightarrow> u32 \<Rightarrow> 'm CORE \<Rightarrow> u32 \<times> 'm CORE" where
  "SBC_S_fn m i s = OP_SBCS (cyc m 1) (cyc m 3) i (Rn i s) (shift_op m i (cpu s)) s"

section \<open>RSC\<close>

definition OP_RSC :: "u32 \<Rightarrow> u32 \<Rightarrow> u32 \<Rightarrow> u32 \<Rightarrow> 'm CORE \<Rightarrow> u32 \<times> 'm CORE" where
  "OP_RSC a b i x s = write_rd i a b (x - Rn i s + carry_in s - 1) s"

definition OP_RSCS :: "u32 \<Rightarrow> u32 \<Rightarrow> u32 \<Rightarrow> u32 \<Rightarrow> u32 \<Rightarrow> 'm CORE \<Rightarrow> u32 \<times> 'm CORE" where
  "OP_RSCS a b i v x s =
     (if REG_POS i 12 = 15
      then (b, restore_spsr (upd_cpu (setR 15 (x - v - (1 - carry_in s))) s))
      else (let (r, carry) =
          (if \<not> flag C_bit (cpu s) then (let r = x - v - 1 in (r, x > v)) else (let r = x - v in (r, x \<ge> v))) in
        (a, upd_cpu (\<lambda>c. put_flag V_bit (bit ((x XOR v) AND (x XOR r)) 31)
          (put_NZ r (put_flag C_bit carry (setR (REG_POS i 12) r c)))) s)))"

definition RSC_fn :: "shifter \<Rightarrow> u32 \<Rightarrow> 'm CORE \<Rightarrow> u32 \<times> 'm CORE" where
  "RSC_fn m i s = OP_RSC (cyc m 1) (cyc m 3) i (shift_op m i (cpu s)) s"

definition RSC_S_fn :: "shifter \<Rightarrow> u32 \<Rightarrow> 'm CORE \<Rightarrow> u32 \<times> 'm CORE" where
  "RSC_S_fn m i s = OP_RSCS (cyc m 1) (cyc m 3) i (Rn i s) (shift_op m i (cpu s)) s"

section \<open>TST\<close>

definition OP_TST :: "u32 \<Rightarrow> u32 \<Rightarrow> u32 \<times> bool \<Rightarrow> 'm CORE \<Rightarrow> u32 \<times> 'm CORE" where
  "OP_TST a i xc s = (let (x, carry) = xc in (a, upd_cpu (put_NZC (Rn i s AND x) carry) s))"

definition TST_fn :: "shifter \<Rightarrow> u32 \<Rightarrow> 'm CORE \<Rightarrow> u32 \<times> 'm CORE" where
  "TST_fn m i s = OP_TST (cyc m 1) i (S_shift_op m i (cpu s)) s"

section \<open>TEQ\<close>

definition OP_TEQ :: "u32 \<Rightarrow> u32 \<Rightarrow> u32 \<times> bool \<Rightarrow> 'm CORE \<Rightarrow> u32 \<times> 'm CORE" where
  "OP_TEQ a i xc s = (let (x, carry) = xc in (a, upd_cpu (put_NZC (Rn i s XOR x) carry) s))"

definition TEQ_fn :: "shifter \<Rightarrow> u32 \<Rightarrow> 'm CORE \<Rightarrow> u32 \<times> 'm CORE" where
  "TEQ_fn m i s = OP_TEQ (cyc m 1) i (S_shift_op m i (cpu s)) s"

section \<open>CMP\<close>

definition OP_CMP :: "u32 \<Rightarrow> u32 \<Rightarrow> u32 \<Rightarrow> 'm CORE \<Rightarrow> u32 \<times> 'm CORE" where
  "OP_CMP a i x s = (let tmp = Rn i s - x in (a, upd_cpu (put_NZCV tmp (\<not> BorrowFrom (Rn i s) x) (OverflowFromSUB tmp (Rn i s) x)) s))"

definition CMP_fn :: "shifter \<Rightarrow> u32 \<Rightarrow> 'm CORE \<Rightarrow> u32 \<times> 'm CORE" where
  "CMP_fn m i s = OP_CMP (cyc m 1) i (shift_op m i (cpu s)) s"

section \<open>CMN\<close>

definition OP_CMN :: "u32 \<Rightarrow> u32 \<Rightarrow> u32 \<Rightarrow> 'm CORE \<Rightarrow> u32 \<times> 'm CORE" where
  "OP_CMN a i x s = (let tmp = Rn i s + x in (a, upd_cpu (put_NZCV tmp (CarryFrom (Rn i s) x) (OverflowFromADD tmp (Rn i s) x)) s))"

definition CMN_fn :: "shifter \<Rightarrow> u32 \<Rightarrow> 'm CORE \<Rightarrow> u32 \<times> 'm CORE" where
  "CMN_fn m i s = OP_CMN (cyc m 1) i (shift_op m i (cpu s)) s"

section \<open>ORR\<close>

definition OP_ORR :: "u32 \<Rightarrow> u32 \<Rightarrow> u32 \<Rightarrow> u32 \<Rightarrow> 'm CORE \<Rightarrow> u32 \<times> 'm CORE" where
  "OP_ORR a b i x s = write_rd i a b (Rn i s OR x) s"

definition OP_ORRS :: "u32 \<Rightarrow> u32 \<Rightarrow> u32 \<Rightarrow> u32 \<times> bool \<Rightarrow> 'm CORE \<Rightarrow> u32 \<times> 'm CORE" where
  "OP_ORRS a b i xc s =
     (let (x, carry) = xc; v = Rn i s OR x in write_rd_S i a b v (put_NZC v carry) s)"

definition ORR_fn :: "shifter \<Rightarrow> u32 \<Rightarrow> 'm CORE \<Rightarrow> u32 \<times> 'm CORE" where
  "ORR_fn m i s = OP_ORR (cyc m 1) (cyc m 3) i (shift_op m i (cpu s)) s"

definition ORR_S_fn :: "shifter \<Rightarrow> u32 \<Rightarrow> 'm CORE \<Rightarrow> u32 \<times> 'm CORE" where
  "ORR_S_fn m i s = OP_ORRS (cyc m 1) (cyc m 3) i (S_shift_op m i (cpu s)) s"

section \<open>MOV\<close>

text \<open>
  When the shifted register is the program counter, the functions for \<open>LSL\<close> and \<open>LSR\<close> by a register add 4
  to the operand; those for \<open>ASR\<close> and \<open>ROR\<close> do not. The one for \<open>LSL\<close> by an immediate has a shortcut
  for the instruction \<open>MOV R0, R0\<close>.
\<close>

definition OP_MOV :: "u32 \<Rightarrow> u32 \<Rightarrow> u32 \<Rightarrow> u32 \<Rightarrow> 'm CORE \<Rightarrow> u32 \<times> 'm CORE" where
  "OP_MOV a b i x s =
     (let s = upd_cpu (setR (REG_POS i 12) x) s in
      if REG_POS i 12 = 15 then (b, upd_cpu (\<lambda>c. c\<lparr>next_instruction := x\<rparr>) s) else (a, s))"

definition OP_MOVS :: "u32 \<Rightarrow> u32 \<Rightarrow> u32 \<Rightarrow> u32 \<times> bool \<Rightarrow> 'm CORE \<Rightarrow> u32 \<times> 'm CORE" where
  "OP_MOVS a b i xc s = (let (x, carry) = xc in write_rd_S i a b x (put_NZC x carry) s)"

definition mov_pc :: "shifter \<Rightarrow> u32 \<Rightarrow> u32 \<Rightarrow> u32" where
  "mov_pc m i x = (if (m = LSL_REG \<or> m = LSR_REG) \<and> REG_POS i 0 = 15 then x + 4 else x)"

definition MOV_fn :: "shifter \<Rightarrow> u32 \<Rightarrow> 'm CORE \<Rightarrow> u32 \<times> 'm CORE" where
  "MOV_fn m i s =
     (if m = LSL_IMM \<and> i = 0xE1A00000 then (1, s)
      else OP_MOV (cyc m 1) (cyc m 3) i (mov_pc m i (shift_op m i (cpu s))) s)"

definition MOV_S_fn :: "shifter \<Rightarrow> u32 \<Rightarrow> 'm CORE \<Rightarrow> u32 \<times> 'm CORE" where
  "MOV_S_fn m i s =
     (let (x, carry) = S_shift_op m i (cpu s) in OP_MOVS (cyc m 1) (cyc m 3) i (mov_pc m i x, carry) s)"

section \<open>BIC\<close>

definition OP_BIC :: "u32 \<Rightarrow> u32 \<Rightarrow> u32 \<Rightarrow> u32 \<Rightarrow> 'm CORE \<Rightarrow> u32 \<times> 'm CORE" where
  "OP_BIC a b i x s = write_rd i a b (Rn i s AND NOT x) s"

definition OP_BICS :: "u32 \<Rightarrow> u32 \<Rightarrow> u32 \<Rightarrow> u32 \<times> bool \<Rightarrow> 'm CORE \<Rightarrow> u32 \<times> 'm CORE" where
  "OP_BICS a b i xc s =
     (let (x, carry) = xc; v = Rn i s AND NOT x in write_rd_S i a b v (put_NZC v carry) s)"

definition BIC_fn :: "shifter \<Rightarrow> u32 \<Rightarrow> 'm CORE \<Rightarrow> u32 \<times> 'm CORE" where
  "BIC_fn m i s = OP_BIC (cyc m 1) (cyc m 3) i (shift_op m i (cpu s)) s"

definition BIC_S_fn :: "shifter \<Rightarrow> u32 \<Rightarrow> 'm CORE \<Rightarrow> u32 \<times> 'm CORE" where
  "BIC_S_fn m i s = OP_BICS (cyc m 1) (cyc m 3) i (S_shift_op m i (cpu s)) s"

section \<open>MVN\<close>

definition OP_MVN :: "u32 \<Rightarrow> u32 \<Rightarrow> u32 \<Rightarrow> u32 \<Rightarrow> 'm CORE \<Rightarrow> u32 \<times> 'm CORE" where
  "OP_MVN a b i x s = write_rd i a b (NOT x) s"

definition OP_MVNS :: "u32 \<Rightarrow> u32 \<Rightarrow> u32 \<Rightarrow> u32 \<times> bool \<Rightarrow> 'm CORE \<Rightarrow> u32 \<times> 'm CORE" where
  "OP_MVNS a b i xc s =
     (let (x, carry) = xc; v = NOT x in write_rd_S i a b v (put_NZC v carry) s)"

definition MVN_fn :: "shifter \<Rightarrow> u32 \<Rightarrow> 'm CORE \<Rightarrow> u32 \<times> 'm CORE" where
  "MVN_fn m i s = OP_MVN (cyc m 1) (cyc m 3) i (shift_op m i (cpu s)) s"

definition MVN_S_fn :: "shifter \<Rightarrow> u32 \<Rightarrow> 'm CORE \<Rightarrow> u32 \<times> 'm CORE" where
  "MVN_S_fn m i s = OP_MVNS (cyc m 1) (cyc m 3) i (S_shift_op m i (cpu s)) s"

end
