(* ===== verification/ArmArith.thy ===== *)
theory ArmArith
  imports ArmAlu
begin

text \<open>
  The arithmetic of the data-processing instructions against the reference of the ARM architecture:
  \<open>add_with_carry x y c\<close> is the sum of two words and a carry bit, with the carry out and the signed
  overflow read off the exact sums. The lemmas say that each C computation of a result and its flags is
  an addition with carry.
\<close>

section \<open>Addition with carry\<close>

definition add_with_carry :: "u32 \<Rightarrow> u32 \<Rightarrow> bool \<Rightarrow> u32 \<times> bool \<times> bool" where
  "add_with_carry x y carry =
     (let r = x + y + of_bool carry in
      (r, uint x + uint y + of_bool carry \<noteq> uint r, sint x + sint y + of_bool carry \<noteq> sint r))"

lemma uint_bound: "0 \<le> uint (x :: u32)" "uint x < 4294967296"
  using uint_lt2p [of x] by simp_all

lemma uint_obtain:
  obtains X where "uint (x :: u32) = X" "0 \<le> X" "X < 4294967296"
  using uint_bound [of x] by blast

lemma sint_cases: "sint (x :: u32) = (if uint x < 2147483648 then uint x else uint x - 4294967296)"
proof -
  have "sint x = signed_take_bit 31 (uint x)" by (simp add: sint_uint)
  also have "\<dots> = (if uint x < 2147483648 then uint x else uint x - 4294967296)"
  proof (cases "uint x < 2147483648")
    case True
    then have "signed_take_bit 31 (uint x) = uint x"
      by (intro signed_take_bit_int_eq_self) (rule order.trans [OF _ uint_bound(1)], simp_all)
    then show ?thesis using True by simp
  next
    case False
    then have "signed_take_bit 31 (uint x - 4294967296) = uint x - 4294967296"
      using uint_bound [of x] by (intro signed_take_bit_int_eq_self) simp_all
    moreover have "signed_take_bit 31 (uint x - 4294967296) = signed_take_bit 31 (uint x)"
      by (simp add: signed_take_bit_eq_iff_take_bit_eq take_bit_eq_mod)
    ultimately show ?thesis using False by simp
  qed
  finally show ?thesis .
qed

lemma bit31_iff: "bit (x :: u32) 31 \<longleftrightarrow> 2147483648 \<le> uint x"
proof -
  have "bit x 31 \<longleftrightarrow> sint x < 0" using bit_last_iff [of x] by simp
  then show ?thesis using sint_cases [of x] uint_bound [of x] by (auto split: if_splits)
qed

lemma uint_plus:
  "uint (x + y :: u32) = (if uint x + uint y < 4294967296 then uint x + uint y else uint x + uint y - 4294967296)"
  using uint_plus_if' [of x y] by simp

lemma uint_minus:
  "uint (x - y :: u32) = (if uint y \<le> uint x then uint x - uint y else uint x - uint y + 4294967296)"
  using uint_sub_if' [of x y] by simp

lemma uint_not: "uint (NOT x :: u32) = 4294967295 - uint x"
proof -
  have "NOT x = - 1 - x" by (simp add: not_eq_complement)
  moreover have "uint (- 1 :: u32) = 4294967295" by (simp add: unsigned_minus_1_eq_mask mask_eq_exp_minus_1)
  ultimately show ?thesis using uint_minus [of "- 1" x] uint_bound [of x] by simp
qed

lemma uint_inc: "uint (x + 1 :: u32) = (if uint x = 4294967295 then 0 else uint x + 1)"
  using uint_plus [of x 1] uint_bound [of x] by auto

lemma uint_dec: "uint (x - 1 :: u32) = (if uint x = 0 then 4294967295 else uint x - 1)"
proof (cases "uint x = 0")
  case False
  then have "1 \<le> uint x" using uint_bound(1) [of x] by linarith
  then show ?thesis using False by (simp add: uint_minus)
qed (simp add: uint_minus)

lemmas uint_arith_simps = uint_plus uint_minus uint_not uint_inc uint_dec

text \<open>The comparisons of the C code.\<close>

lemma CarryFrom_iff: "CarryFrom x y \<longleftrightarrow> 4294967296 \<le> uint x + uint y"
  using uint_bound [of x] by (auto simp: CarryFrom_def word_less_def uint_minus)

lemma BorrowFrom_iff: "BorrowFrom x y \<longleftrightarrow> uint x < uint y"
  by (simp add: BorrowFrom_def word_less_def)

lemma OverflowFromADD_iff: "OverflowFromADD (x + y) x y \<longleftrightarrow> sint x + sint y \<noteq> sint (x + y)"
  by (rule uint_obtain [of x], rule uint_obtain [of y])
    (auto simp: OverflowFromADD_def word_sless_alt word_sle_eq sint_cases uint_plus)

lemma OverflowFromSUB_iff: "OverflowFromSUB (x - y) x y \<longleftrightarrow> sint x - sint y \<noteq> sint (x - y)"
  by (rule uint_obtain [of x], rule uint_obtain [of y])
    (auto simp: OverflowFromSUB_def word_sless_alt word_sle_eq sint_cases uint_minus)

lemma bit31_sint: "bit (x :: u32) 31 \<longleftrightarrow> sint x < 0"
  using bit31_iff [of x] sint_cases [of x] uint_bound [of x] by auto

text \<open>The tests of the sign bit that the instructions with carry use for the overflow.\<close>

lemma overflow_add_bits:
  fixes x y r :: u32
  assumes "r = x + y + of_bool carry"
  shows "bit ((x XOR y XOR - 1) AND (x XOR r)) 31 \<longleftrightarrow> sint x + sint y + of_bool carry \<noteq> sint r"
proof -
  have *: "bit ((x XOR y XOR - 1) AND (x XOR r)) 31 \<longleftrightarrow> bit x 31 = bit y 31 \<and> bit x 31 \<noteq> bit r 31"
    by (auto simp: bit_simps)
  show ?thesis unfolding *
    by (rule uint_obtain [of x], rule uint_obtain [of y], cases carry)
      (auto simp: assms bit31_iff sint_cases uint_plus uint_inc)
qed

lemma overflow_sub_bits:
  fixes x y r :: u32
  assumes "r = x - y - of_bool borrow"
  shows "bit ((x XOR y) AND (x XOR r)) 31 \<longleftrightarrow> sint x - sint y - of_bool borrow \<noteq> sint r"
proof -
  have *: "bit ((x XOR y) AND (x XOR r)) 31 \<longleftrightarrow> bit x 31 \<noteq> bit y 31 \<and> bit x 31 \<noteq> bit r 31"
    by (auto simp: bit_simps)
  show ?thesis unfolding *
    by (rule uint_obtain [of x], rule uint_obtain [of y], cases borrow)
      (auto simp: assms bit31_iff sint_cases uint_minus uint_dec)
qed

section \<open>The instructions\<close>

text \<open>Subtraction is the addition of the complement.\<close>

lemma add_with_carry_sub:
  "add_with_carry x (NOT y) (\<not> borrow) =
    (x - y - of_bool borrow, uint y + of_bool borrow \<le> uint x,
     sint x - sint y - of_bool borrow \<noteq> sint (x - y - of_bool borrow))"
proof -
  have r: "x + NOT y + of_bool (\<not> borrow) = x - y - of_bool borrow"
    by (cases borrow) (simp_all add: not_eq_complement)
  have c: "uint x + uint (NOT y) + of_bool (\<not> borrow) \<noteq> uint (x - y - of_bool borrow) \<longleftrightarrow>
      uint y + of_bool borrow \<le> uint x"
    by (rule uint_obtain [of x], rule uint_obtain [of y], cases borrow) (auto simp: uint_minus uint_dec uint_not)
  have n: "sint (NOT y) = - 1 - sint y"
    by (rule uint_obtain [of y]) (auto simp: sint_cases uint_not)
  have v: "sint x + sint (NOT y) + of_bool (\<not> borrow) = sint x - sint y - of_bool borrow"
    by (cases borrow) (simp_all add: n)
  show ?thesis unfolding add_with_carry_def Let_def r c v ..
qed

lemma put_bit_commute: "m \<noteq> n \<Longrightarrow> put_bit m a (put_bit n b w) = put_bit n b (put_bit m a w)"
  by (rule bit_eqI) (auto simp: put_bit_def bit_simps)

lemma flag_put_bit: "n < 32 \<Longrightarrow> bit (put_bit m b w) n = (if n = m then b else bit w n)"
  by (auto simp: put_bit_def bit_simps)

lemma put_NZ_C: "put_NZ r (put_flag C_bit b c) = put_flag C_bit b (put_NZ r c)"
  by (simp add: put_NZ_def put_flag_def put_bit_commute flag_defs)

text \<open>The six instructions with flags, and the addition each stands for.\<close>

datatype arith = ADD | ADC | SUB | SBC | RSB | RSC

definition arith_S_fn :: "arith \<Rightarrow> shifter \<Rightarrow> u32 \<Rightarrow> 'm CORE \<Rightarrow> u32 \<times> 'm CORE" where
  "arith_S_fn k = (case k of ADD \<Rightarrow> ADD_S_fn | ADC \<Rightarrow> ADC_S_fn | SUB \<Rightarrow> SUB_S_fn | SBC \<Rightarrow> SBC_S_fn
     | RSB \<Rightarrow> RSB_S_fn | RSC \<Rightarrow> RSC_S_fn)"

definition arith_fn :: "arith \<Rightarrow> shifter \<Rightarrow> u32 \<Rightarrow> 'm CORE \<Rightarrow> u32 \<times> 'm CORE" where
  "arith_fn k = (case k of ADD \<Rightarrow> ADD_fn | ADC \<Rightarrow> ADC_fn | SUB \<Rightarrow> SUB_fn | SBC \<Rightarrow> SBC_fn
     | RSB \<Rightarrow> RSB_fn | RSC \<Rightarrow> RSC_fn)"

definition arith_ref :: "arith \<Rightarrow> u32 \<Rightarrow> u32 \<Rightarrow> bool \<Rightarrow> u32 \<times> bool \<times> bool" where
  "arith_ref k v x carry = (case k of
       ADD \<Rightarrow> add_with_carry v x False | ADC \<Rightarrow> add_with_carry v x carry
     | SUB \<Rightarrow> add_with_carry v (NOT x) True | SBC \<Rightarrow> add_with_carry v (NOT x) carry
     | RSB \<Rightarrow> add_with_carry x (NOT v) True | RSC \<Rightarrow> add_with_carry x (NOT v) carry)"

text \<open>The results and flags of the macros.\<close>

lemma ref_add: "add_with_carry v x False = (v + x, CarryFrom v x, OverflowFromADD (v + x) v x)"
  by (rule uint_obtain [of v], rule uint_obtain [of x])
    (auto simp: add_with_carry_def Let_def CarryFrom_iff OverflowFromADD_iff uint_plus)

lemma ref_sub: "add_with_carry v (NOT x) True = (v - x, \<not> BorrowFrom v x, OverflowFromSUB (v - x) v x)"
  using add_with_carry_sub [of v x False] by (simp add: BorrowFrom_iff OverflowFromSUB_iff linorder_not_less)

lemma ref_adc:
  "add_with_carry v x carry =
    (let r = v + x + of_bool carry in
     (r, if carry then r \<le> v else r < v, bit ((v XOR x XOR - 1) AND (v XOR r)) 31))"
proof -
  let ?r = "v + x + of_bool carry"
  have c: "uint v + uint x + of_bool carry \<noteq> uint ?r \<longleftrightarrow> (if carry then ?r \<le> v else ?r < v)"
    by (rule uint_obtain [of v], rule uint_obtain [of x], cases carry)
      (auto simp: uint_plus uint_inc word_le_def word_less_def)
  show ?thesis unfolding add_with_carry_def Let_def c overflow_add_bits [OF refl] ..
qed

lemma ref_sbc:
  "add_with_carry v (NOT x) carry =
    (let r = (if carry then v - x else v - x - 1) in
     (r, if carry then x \<le> v else x < v, bit ((v XOR x) AND (v XOR r)) 31))"
proof -
  let ?r = "v - x - of_bool (\<not> carry)"
  have r: "(if carry then v - x else v - x - 1) = ?r" by simp
  have c: "uint x + of_bool (\<not> carry) \<le> uint v \<longleftrightarrow> (if carry then x \<le> v else x < v)"
    by (cases carry) (auto simp: word_le_def word_less_def)
  show ?thesis
    using add_with_carry_sub [of v x "\<not> carry"] unfolding r Let_def overflow_sub_bits [OF refl] c by simp
qed

text \<open>The steps every instruction ends with.\<close>

lemma upd_cpu_upd_cpu: "upd_cpu f (upd_cpu g s) = upd_cpu (\<lambda>c. f (g c)) s"
  by (simp add: upd_cpu_def)

lemma cpu_upd_cpu [simp]: "cpu (upd_cpu f s) = f (cpu s)"
  by (simp add: upd_cpu_def)

lemma mmu_upd_cpu [simp]: "mmu (upd_cpu f s) = mmu s"
  by (simp add: upd_cpu_def)

lemma setR_put_flag: "setR n v (put_flag m b c) = put_flag m b (setR n v c)"
  by (simp add: setR_def put_flag_def)

lemma write_rd_other:
  "REG_POS i 12 \<noteq> 15 \<Longrightarrow> write_rd i a b v s = (a, upd_cpu (setR (REG_POS i 12) v) s)"
  by (simp add: write_rd_def)

lemma write_rd_S_other:
  "REG_POS i 12 \<noteq> 15 \<Longrightarrow>
    write_rd_S i a b v f s = (a, upd_cpu (\<lambda>c. f (setR (REG_POS i 12) v c)) s)"
  by (simp add: write_rd_S_def upd_cpu_upd_cpu)

lemma put_NZCV_order: "put_flag V_bit v (put_NZ r (put_flag C_bit c p)) = put_NZCV r c v p"
  by (simp add: put_NZCV_def put_NZ_C)

text \<open>The status word after the flags are set, and what an instruction with flags leaves.\<close>

definition nzcv :: "u32 \<Rightarrow> bool \<Rightarrow> bool \<Rightarrow> Status_Reg \<Rightarrow> Status_Reg" where
  "nzcv r c v w = put_bit V_bit v (put_bit C_bit c (put_bit Z_bit (r = 0) (put_bit N_bit (bit r 31) w)))"

lemma put_NZCV_nzcv: "put_NZCV r c v p = p\<lparr>CPSR := nzcv r c v (CPSR p)\<rparr>"
  by (simp add: put_NZCV_def put_NZ_def put_flag_def nzcv_def)

lemma nzcv_bit:
  "n < 32 \<Longrightarrow> bit (nzcv r c v w) n =
    (if n = 31 then sint r < 0 else if n = 30 then r = 0 else if n = 29 then c else if n = 28 then v
     else bit w n)"
  by (auto simp: nzcv_def flag_put_bit flag_defs bit31_sint [of r])

lemmas arith_state = write_rd_other write_rd_S_other upd_cpu_upd_cpu put_NZCV_order

lemma arith_S_state:
  assumes rd: "REG_POS i 12 \<noteq> 15"
    and ref: "arith_ref k (Rn i s) (shift_op m i (cpu s)) (flag C_bit (cpu s)) = (r, c, v)"
  shows "arith_S_fn k m i s = (cyc m 1, upd_cpu (\<lambda>p. put_NZCV r c v (setR (REG_POS i 12) r p)) s)"
proof (cases k)
  case ADD
  then show ?thesis using ref rd
    by (auto simp: arith_S_fn_def arith_ref_def ADD_S_fn_def OP_ADDS_def ref_add Let_def arith_state)
next
  case SUB
  then show ?thesis using ref rd
    by (auto simp: arith_S_fn_def arith_ref_def SUB_S_fn_def OP_SUBS_def ref_sub Let_def arith_state)
next
  case RSB
  then show ?thesis using ref rd
    by (auto simp: arith_S_fn_def arith_ref_def RSB_S_fn_def OP_RSBS_def ref_sub Let_def arith_state)
next
  case ADC
  then show ?thesis using ref rd
    by (cases "flag C_bit (cpu s)")
      (auto simp: arith_S_fn_def arith_ref_def ADC_S_fn_def OP_ADCS_def ref_adc Let_def arith_state add.assoc)
next
  case SBC
  then show ?thesis using ref rd
    by (cases "flag C_bit (cpu s)")
      (auto simp: arith_S_fn_def arith_ref_def SBC_S_fn_def OP_SBCS_def ref_sbc Let_def arith_state)
next
  case RSC
  then show ?thesis using ref rd
    by (cases "flag C_bit (cpu s)")
      (auto simp: arith_S_fn_def arith_ref_def RSC_S_fn_def OP_RSCS_def ref_sbc Let_def arith_state)
qed

lemma arith_result:
  "fst (arith_ref k v x carry) = (case k of ADD \<Rightarrow> v + x | ADC \<Rightarrow> v + x + of_bool carry | SUB \<Rightarrow> v - x
     | SBC \<Rightarrow> v - x - of_bool (\<not> carry) | RSB \<Rightarrow> x - v | RSC \<Rightarrow> x - v - of_bool (\<not> carry))"
  by (cases k) (simp_all add: arith_ref_def add_with_carry_def Let_def not_eq_complement)

lemma arith_state_plain:
  assumes "REG_POS i 12 \<noteq> 15"
  shows "arith_fn k m i s = (cyc m 1,
    upd_cpu (setR (REG_POS i 12) (fst (arith_ref k (Rn i s) (shift_op m i (cpu s)) (flag C_bit (cpu s))))) s)"
  using assms
  by (cases k)
    (auto simp: arith_fn_def arith_result ADD_fn_def OP_ADD_def ADC_fn_def OP_ADC_def SUB_fn_def OP_SUB_def
      SBC_fn_def OP_SBC_def RSB_fn_def OP_RSB_def RSC_fn_def OP_RSC_def carry_in_def write_rd_other)


end
