(* ===== verification/ArmShift.thy ===== *)
theory ArmShift
  imports ArmArith
begin

text \<open>
  The barrel shifter against the reference of the ARM architecture: shifts are multiplications and
  divisions by powers of two of the unsigned or signed value, the carry is the last bit shifted out, and an
  immediate shift by 0 to the right stands for a shift by 32, or for a rotation through the carry.
\<close>

section \<open>The reference\<close>

definition lsl_ref :: "u32 \<Rightarrow> nat \<Rightarrow> bool \<Rightarrow> u32 \<times> bool" where
  "lsl_ref x n carry = (if n = 0 then (x, carry)
     else (word_of_int (uint x * 2 ^ n), odd (uint x * 2 ^ n div 2 ^ 32)))"

definition lsr_ref :: "u32 \<Rightarrow> nat \<Rightarrow> bool \<Rightarrow> u32 \<times> bool" where
  "lsr_ref x n carry = (if n = 0 then (x, carry)
     else (word_of_int (uint x div 2 ^ n), odd (uint x div 2 ^ (n - 1))))"

definition asr_ref :: "u32 \<Rightarrow> nat \<Rightarrow> bool \<Rightarrow> u32 \<times> bool" where
  "asr_ref x n carry = (if n = 0 then (x, carry)
     else (word_of_int (sint x div 2 ^ n), odd (sint x div 2 ^ (n - 1))))"

definition ror_ref :: "u32 \<Rightarrow> nat \<Rightarrow> bool \<Rightarrow> u32 \<times> bool" where
  "ror_ref x n carry = (if n = 0 then (x, carry) else (word_rotr n x, bit (word_rotr n x) 31))"

definition rrx_ref :: "u32 \<Rightarrow> bool \<Rightarrow> u32 \<times> bool" where
  "rrx_ref x carry = (word_of_int (uint x div 2 + (if carry then 2 ^ 31 else 0)), odd (uint x))"

definition barrel :: "shifter \<Rightarrow> u32 \<Rightarrow> armcpu_t \<Rightarrow> u32 \<times> bool" where
  "barrel m i c =
     (let x = R c (REG_POS i 0); n = shift_imm i; k = shift_reg i c; carry = flag C_bit c in
      case m of
        LSL_IMM \<Rightarrow> lsl_ref x n carry
      | LSR_IMM \<Rightarrow> lsr_ref x (if n = 0 then 32 else n) carry
      | ASR_IMM \<Rightarrow> asr_ref x (if n = 0 then 32 else n) carry
      | ROR_IMM \<Rightarrow> (if n = 0 then rrx_ref x carry else ror_ref x n carry)
      | LSL_REG \<Rightarrow> lsl_ref x k carry
      | LSR_REG \<Rightarrow> lsr_ref x k carry
      | ASR_REG \<Rightarrow> asr_ref x k carry
      | ROR_REG \<Rightarrow> ror_ref x k carry
      | IMM_VALUE \<Rightarrow> ror_ref (i AND 0xFF) (2 * unat (drop_bit 8 i AND 0xF)) carry)"

section \<open>The shifts\<close>

lemma odd_div_bit: "odd ((x :: int) div 2 ^ n) \<longleftrightarrow> bit x n"
  by (simp add: bit_iff_odd)

lemma bit_lt: "bit (x :: u32) n \<Longrightarrow> n < 32"
  using bit_imp_le_length [of x n] by simp

lemma lsl_word: "word_of_int (uint (x :: u32) * 2 ^ n) = push_bit n x"
  by (simp add: push_bit_eq_mult)

lemma lsl_carry: "0 < n \<Longrightarrow> odd (uint (x :: u32) * 2 ^ n div 2 ^ 32) \<longleftrightarrow> n \<le> 32 \<and> bit x (32 - n)"
  by (simp only: odd_div_bit flip: push_bit_eq_mult) (auto simp: bit_push_bit_iff bit_uint_iff)

lemma lsr_word: "word_of_int (uint (x :: u32) div 2 ^ n) = drop_bit n x"
  by (rule bit_word_eqI) (simp add: bit_word_of_int_iff bit_simps flip: drop_bit_eq_div)

lemma lsr_carry: "odd (uint (x :: u32) div 2 ^ n) \<longleftrightarrow> bit x n"
  by (auto simp: odd_div_bit bit_uint_iff dest: bit_lt)

lemma asr_word: "word_of_int (sint (x :: u32) div 2 ^ n) = signed_drop_bit n x"
  by (rule bit_word_eqI)
    (auto simp: bit_word_of_int_iff bit_signed_drop_bit_iff bit_drop_bit_eq bit_sint_iff min_def
      simp flip: drop_bit_eq_div dest: bit_lt)

lemma asr_carry: "odd (sint (x :: u32) div 2 ^ n) \<longleftrightarrow> bit x (if n < 32 then n else 31)"
  by (auto simp: odd_div_bit bit_sint_iff min_def dest: bit_lt)

lemma BIT31_if: "BIT31 x = (if bit x 31 then 1 else 0)"
proof (rule bit_word_eqI)
  fix n show "bit (BIT31 x) n = bit (if bit x 31 then 1 else 0) n"
    by (cases "n = 0") (auto simp: BIT31_def bit_simps dest: bit_lt)
qed

lemma sign_fill_bits: "sign_fill x = (if bit x 31 then - 1 else 0)"
  by (simp add: sign_fill_def BIT31_if)

lemma asr_far: "32 \<le> n \<Longrightarrow> signed_drop_bit n x = sign_fill (x :: u32)"
  by (rule bit_word_eqI) (auto simp: sign_fill_bits bit_signed_drop_bit_iff)

lemma lsl_far: "32 \<le> n \<Longrightarrow> push_bit n (x :: u32) = 0"
  by (rule bit_word_eqI) (simp add: bit_push_bit_iff)

lemma lsr_far: "32 \<le> n \<Longrightarrow> drop_bit n (x :: u32) = 0"
  by (rule bit_word_eqI) (auto simp: bit_drop_bit_eq dest: bit_lt)

lemma mod32_cases: "a < 64 \<Longrightarrow> a mod 32 = (if a < 32 then a else a - (32 :: nat))"
  by (simp add: mod_if)

lemma ROR_rotr: "n < 32 \<Longrightarrow> ROR x n = word_rotr n x"
  by (rule bit_word_eqI) (auto simp: ROR_def bit_simps bit_word_rotr_iff mod32_cases add.commute dest: bit_lt)

lemma rotr_mod: "word_rotr (n mod 32) (x :: u32) = word_rotr n x"
  by (rule bit_word_eqI) (simp add: bit_word_rotr_iff mod_simps)

lemma rotr_carry:
  assumes "0 < n" shows "bit (word_rotr n (x :: u32)) 31 \<longleftrightarrow> bit x ((n - 1) mod 32)"
proof -
  have "31 + n = (n - 1) + 32" using assms by simp
  then have "(31 + n) mod 32 = (n - 1) mod 32" by (metis mod_add_self2)
  then show ?thesis by (simp add: bit_word_rotr_iff)
qed

lemma rrx_word:
  "word_of_int (uint (x :: u32) div 2 + (if carry then 2 ^ 31 else 0)) =
    push_bit 31 (if carry then 1 else 0) OR drop_bit 1 x"
proof -
  have "word_of_int (uint x div 2) = drop_bit 1 x" using lsr_word [of x 1] by simp
  moreover have high: "drop_bit 1 x AND 2147483648 = 0"
  proof (rule bit_word_eqI)
    fix n assume "n < LENGTH(32)"
    have "(2147483648 :: u32) = push_bit 31 1" by simp
    then show "bit (drop_bit 1 x AND 2147483648) n = bit 0 n"
      by (auto simp only: bit_simps) (auto dest: bit_lt)
  qed
  moreover have "drop_bit 1 x + 2147483648 = 2147483648 OR drop_bit 1 x"
    using disjunctive_add_eq_or [OF high] by (simp add: or.commute)
  ultimately show ?thesis by (simp add: wi_hom_add [symmetric])
qed

section \<open>The operand\<close>

lemma unat_and_le: "unat (x AND y :: u32) \<le> unat y"
  unfolding word_le_nat_alt [symmetric] by (rule word_and_le1)

lemma shift_imm_lt: "shift_imm i < 32"
  using unat_and_le [of "drop_bit 7 i" "0x1F"] by (simp add: shift_imm_def)

lemma rot_amount: "unat (drop_bit 7 i AND 0x1E) = 2 * unat (drop_bit 8 i AND 0xF :: u32)"
proof -
  let ?k = "drop_bit 8 i AND 0xF :: u32"
  have "drop_bit 7 i AND 0x1E = push_bit 1 ?k"
  proof (rule bit_word_eqI)
    fix n :: nat assume "n < LENGTH(32)"
    have "drop_bit 7 i AND 0x1E = drop_bit 7 i AND push_bit 1 (0xF :: u32)" by simp
    then show "bit (drop_bit 7 i AND 0x1E) n = bit (push_bit 1 ?k) n"
      by (cases n) (simp_all only: bit_simps, auto simp: bit_simps)
  qed
  moreover have "unat ?k \<le> 15"
    using unat_and_le [of "drop_bit 8 i" "0xF"] by simp
  ultimately show ?thesis by (simp add: push_bit_eq_mult unat_word_ariths)
qed

lemma rot_lt: "2 * unat (drop_bit 8 i AND 0xF :: u32) < 32"
  using unat_and_le [of "drop_bit 8 i" "0xF"] by simp

text \<open>The references on bits.\<close>

lemma lsl_bits: "lsl_ref x n carry = (if n = 0 then (x, carry) else (push_bit n x, n \<le> 32 \<and> bit x (32 - n)))"
  using lsl_carry [of n x] lsl_word [of x n] by (simp only: lsl_ref_def) simp

lemma lsr_bits: "lsr_ref x n carry = (if n = 0 then (x, carry) else (drop_bit n x, bit x (n - 1)))"
  by (simp only: lsr_ref_def lsr_word lsr_carry)

lemma asr_bits: "asr_ref x n carry = (if n = 0 then (x, carry)
    else (signed_drop_bit n x, bit x (if n - 1 < 32 then n - 1 else 31)))"
  by (simp only: asr_ref_def asr_word asr_carry)

lemma ror_bits: "ror_ref x n carry = (if n = 0 then (x, carry) else (word_rotr n x, bit x ((n - 1) mod 32)))"
  using rotr_carry [of n x] by (simp only: ror_ref_def) simp

lemma rrx_bits: "rrx_ref x carry = (push_bit 31 (if carry then 1 else 0) OR drop_bit 1 x, bit x 0)"
  using lsr_carry [of x 0] by (simp only: rrx_ref_def rrx_word) simp

lemmas ref_bits = lsl_bits lsr_bits asr_bits ror_bits rrx_bits

lemma rotr_zero: "n mod 32 = 0 \<Longrightarrow> word_rotr n (x :: u32) = x"
  using rotr_mod [of n x] using ROR_rotr [of 0 x] by (simp add: ROR_def)

lemma pred_mod:
  assumes "0 < (n :: nat)"
  shows "(n - 1) mod 32 = (if n mod 32 = 0 then 31 else n mod 32 - 1)"
proof (cases "n mod 32 = 0")
  case True
  then obtain k where k: "n = 32 * k" by (metis mod_0_imp_dvd dvdE)
  then have "n - 1 = 31 + 32 * (k - 1)" using assms by (cases k) simp_all
  then have "(n - 1) mod 32 = 31 mod 32" by (simp only: mod_mult_self2)
  then show ?thesis using True by simp
next
  case False
  have "n = n mod 32 + 32 * (n div 32)" by simp
  then have "n - 1 = (n mod 32 - 1) + 32 * (n div 32)" using False by linarith
  moreover have "n mod 32 - 1 < 32" by (simp add: less_imp_diff_less)
  ultimately show ?thesis using False by (metis mod_mult_self2 mod_less)
qed

lemma ror_reg_bits:
  "ror_ref x n carry = (if n = 0 then (x, carry)
    else if n mod 32 = 0 then (x, bit x 31) else (ROR x (n mod 32), bit x (n mod 32 - 1)))"
  using pred_mod [of n] ROR_rotr [of "n mod 32" x] rotr_mod [of n x] rotr_zero [of n x]
  by (simp only: ror_bits) (simp del: One_nat_def)

lemma asr_imm_bits:
  "n < 32 \<Longrightarrow> asr_ref x (if n = 0 then 32 else n) carry =
    (if n = 0 then (sign_fill x, bit x 31) else (signed_drop_bit n x, bit x (n - 1)))"
  by (auto simp: asr_bits asr_far)

lemma S_shift_barrel: "S_shift_op m i c = barrel m i c"
proof (cases m)
  case LSL_IMM
  then show ?thesis using shift_imm_lt [of i] by (simp add: barrel_def Let_def lsl_bits)
next
  case LSR_IMM
  then show ?thesis using shift_imm_lt [of i] by (simp add: barrel_def Let_def lsr_bits lsr_far)
next
  case ASR_IMM
  then show ?thesis using shift_imm_lt [of i] by (simp add: barrel_def Let_def asr_imm_bits cong: if_cong)
next
  case ROR_IMM
  then show ?thesis using shift_imm_lt [of i] by (simp add: barrel_def Let_def ror_bits rrx_bits ROR_rotr)
next
  case LSL_REG
  then show ?thesis by (simp add: barrel_def Let_def lsl_bits lsl_far)
next
  case LSR_REG
  then show ?thesis by (auto simp: barrel_def Let_def lsr_bits lsr_far dest: bit_lt)
next
  case ASR_REG
  moreover have "bit x (n - 1) = bit x 31" if "n - 1 < 32" "\<not> n < 32" for x :: u32 and n
  proof -
    have "n = 32" using that by linarith
    then show ?thesis by simp
  qed
  ultimately show ?thesis by (auto simp: barrel_def Let_def asr_bits asr_far)
next
  case ROR_REG
  then show ?thesis by (simp add: barrel_def Let_def ror_reg_bits cong: if_cong)
next
  case IMM_VALUE
  then show ?thesis using rot_lt [of i] rotr_zero [of 0 "i AND 0xFF"]
    by (auto simp: barrel_def Let_def ror_ref_def ROR_rotr imm_rotate_def rot_amount unat_eq_zero)
qed

lemma shift_barrel: "shift_op m i c = fst (S_shift_op m i c)"
  using shift_imm_lt [of i]
  by (cases m) (auto simp: Let_def lsl_far lsr_far ROR_def)

text \<open>Aligned addresses.\<close>

lemma aligned_id: "x AND 3 = 0 \<Longrightarrow> x AND 0xFFFFFFFC = (x :: u32)" "x AND 1 = 0 \<Longrightarrow> x AND 0xFFFFFFFE = (x :: u32)"
proof -
  have *: "x AND m = x AND (m OR n)" if "x AND n = 0" for m n :: u32
    using that by (simp add: bit.conj_disj_distrib)
  have "(0xFFFFFFFF :: u32) = - 1" by simp
  then have 1: "x AND 0xFFFFFFFF = x" by (simp only: and.right_neutral)
  show "x AND 3 = 0 \<Longrightarrow> x AND 0xFFFFFFFC = x" using * [of 3 "0xFFFFFFFC"] 1 by simp
  show "x AND 1 = 0 \<Longrightarrow> x AND 0xFFFFFFFE = x" using * [of 1 "0xFFFFFFFE"] 1 by simp
qed

end
