(* ===== verification/ArmLogic.thy ===== *)
theory ArmLogic
  imports ArmShift
begin

text \<open>
  The logical instructions and the comparisons of \<^verbatim>\<open>arm_instructions.cpp\<close> against the reference: the
  result of the operation, its sign and zero flags, and the carry of the barrel shifter.
\<close>

section \<open>Logical instructions\<close>

datatype logic = L_AND | L_EOR | L_ORR | L_MOV | L_BIC | L_MVN

definition logic_fn :: "logic \<Rightarrow> shifter \<Rightarrow> u32 \<Rightarrow> 'm CORE \<Rightarrow> u32 \<times> 'm CORE" where
  "logic_fn k = (case k of L_AND \<Rightarrow> AND_fn | L_EOR \<Rightarrow> EOR_fn | L_ORR \<Rightarrow> ORR_fn | L_MOV \<Rightarrow> MOV_fn
     | L_BIC \<Rightarrow> BIC_fn | L_MVN \<Rightarrow> MVN_fn)"

definition logic_S_fn :: "logic \<Rightarrow> shifter \<Rightarrow> u32 \<Rightarrow> 'm CORE \<Rightarrow> u32 \<times> 'm CORE" where
  "logic_S_fn k = (case k of L_AND \<Rightarrow> AND_S_fn | L_EOR \<Rightarrow> EOR_S_fn | L_ORR \<Rightarrow> ORR_S_fn | L_MOV \<Rightarrow> MOV_S_fn
     | L_BIC \<Rightarrow> BIC_S_fn | L_MVN \<Rightarrow> MVN_S_fn)"

definition logic_ref :: "logic \<Rightarrow> u32 \<Rightarrow> u32 \<Rightarrow> u32" where
  "logic_ref k v x = (case k of L_AND \<Rightarrow> v AND x | L_EOR \<Rightarrow> v XOR x | L_ORR \<Rightarrow> v OR x | L_MOV \<Rightarrow> x
     | L_BIC \<Rightarrow> v AND NOT x | L_MVN \<Rightarrow> NOT x)"

text \<open>The two forms of \<open>MOV\<close> that add 4 to the program counter as operand.\<close>

definition mov_pc_form :: "logic \<Rightarrow> shifter \<Rightarrow> u32 \<Rightarrow> bool" where
  "mov_pc_form k m i = (k = L_MOV \<and> (m = LSL_REG \<or> m = LSR_REG) \<and> REG_POS i 0 = 15)"

lemma put_bit_id: "put_bit n (bit w n) w = w"
  by (rule bit_eqI) (auto simp: put_bit_def bit_simps)

lemma put_NZC_eq: "put_NZC r c p = put_NZCV r c (flag V_bit p) p"
proof -
  let ?w = "put_bit C_bit c (put_bit Z_bit (r = 0) (put_bit N_bit (bit r 31) (CPSR p)))"
  have "bit ?w V_bit = flag V_bit p"
    by (simp add: flag_def flag_put_bit flag_defs)
  then have "put_bit V_bit (flag V_bit p) ?w = ?w" using put_bit_id [of V_bit ?w] by simp
  then show ?thesis by (simp add: put_NZC_def put_NZ_C put_NZCV_def) (simp add: put_NZ_def put_flag_def)
qed

text \<open>\<open>MOV R0, R0\<close> has no effect, so its shortcut is right.\<close>

lemma MOV_R0_R0:
  "REG_POS 0xE1A00000 12 = 0" "shift_op LSL_IMM 0xE1A00000 c = R c 0"
  by (simp_all add: REG_POS_def shift_imm_def)

lemma setR_id: "setR n (R c n) c = c"
  by (simp add: setR_def)

lemma upd_cpu_id: "f (cpu s) = cpu s \<Longrightarrow> upd_cpu f s = s"
  by (simp add: upd_cpu_def)

lemma logic_state:
  assumes "REG_POS i 12 \<noteq> 15" "\<not> mov_pc_form k m i"
  shows "logic_fn k m i s = (cyc m 1, upd_cpu (setR (REG_POS i 12)
    (logic_ref k (Rn i s) (shift_op m i (cpu s)))) s)"
proof (cases "k = L_MOV \<and> m = LSL_IMM \<and> i = 0xE1A00000")
  case True
  have "upd_cpu (setR 0 (R (cpu s) 0)) s = s" by (simp add: upd_cpu_id setR_id)
  then show ?thesis using True
    by (simp add: logic_fn_def logic_ref_def MOV_fn_def MOV_R0_R0 cyc_def by_reg_def del: shift_op.simps)
next
  case False
  then show ?thesis using assms
    by (cases k) (auto simp: logic_fn_def logic_ref_def AND_fn_def OP_AND_def EOR_fn_def OP_EOR_def ORR_fn_def
      OP_ORR_def BIC_fn_def OP_BIC_def MVN_fn_def OP_MVN_def MOV_fn_def OP_MOV_def write_rd_other
      mov_pc_def mov_pc_form_def Let_def simp del: shift_op.simps)
qed

lemma logic_S_state:
  assumes "REG_POS i 12 \<noteq> 15" "\<not> mov_pc_form k m i" "barrel m i (cpu s) = (x, c)"
  shows "logic_S_fn k m i s = (cyc m 1, upd_cpu (\<lambda>p. let r = logic_ref k (Rn i s) x in
    put_NZC r c (setR (REG_POS i 12) r p)) s)"
  using assms
  by (cases k) (auto simp: logic_S_fn_def logic_ref_def AND_S_fn_def OP_ANDS_def EOR_S_fn_def OP_EORS_def
    ORR_S_fn_def OP_ORRS_def BIC_S_fn_def OP_BICS_def MVN_S_fn_def OP_MVNS_def MOV_S_fn_def OP_MOVS_def
    write_rd_S_other mov_pc_def mov_pc_form_def Let_def S_shift_barrel simp del: S_shift_op.simps)

section \<open>Comparisons\<close>

lemma TST_state: "barrel m i (cpu s) = (x, c) \<Longrightarrow> TST_fn m i s = (cyc m 1, upd_cpu (put_NZC (Rn i s AND x) c) s)"
  by (simp add: TST_fn_def OP_TST_def S_shift_barrel)

lemma TEQ_state: "barrel m i (cpu s) = (x, c) \<Longrightarrow> TEQ_fn m i s = (cyc m 1, upd_cpu (put_NZC (Rn i s XOR x) c) s)"
  by (simp add: TEQ_fn_def OP_TEQ_def S_shift_barrel)

lemma CMP_state:
  "add_with_carry (Rn i s) (NOT (shift_op m i (cpu s))) True = (r, c, v) \<Longrightarrow>
    CMP_fn m i s = (cyc m 1, upd_cpu (put_NZCV r c v) s)"
  by (auto simp: CMP_fn_def OP_CMP_def ref_sub Let_def simp del: shift_op.simps)

lemma CMN_state:
  "add_with_carry (Rn i s) (shift_op m i (cpu s)) False = (r, c, v) \<Longrightarrow>
    CMN_fn m i s = (cyc m 1, upd_cpu (put_NZCV r c v) s)"
  by (auto simp: CMN_fn_def OP_CMN_def ref_add Let_def simp del: shift_op.simps)

end
