(* ===== verification/Mmu.thy ===== *)
theory Mmu
  imports Prelude
begin

text \<open>
  The memory accesses of the processors: the byte array accessors of \<^verbatim>\<open>mem.h\<close> and the dispatch of
  \<^verbatim>\<open>MMU.h\<close> between the tightly coupled memories, the main memory and everything else. The build is
  the one without a JIT compiler and without \<open>DEBUG\<close>, on a little-endian host.

  An array of the structure \<open>MMU\<close> is a function from indices to bytes; the masks keep the indices
  inside the array (\<open>main_memory_bounds\<close>). What \<open>_MMU_ARM9_read08\<close> and its companions do for
  the other addresses (I/O registers, video memory, the BIOS) is the parameter \<open>BUS\<close>, whose operations
  may change the whole memory system; \<open>rest\<close> is the state only they use.
\<close>

section \<open>Byte arrays\<close>

type_synonym array = "nat \<Rightarrow> byte"

definition T1ReadByte :: "array \<Rightarrow> u32 \<Rightarrow> byte" where
  "T1ReadByte mem addr = mem (unat addr)"

definition T1ReadWord_guaranteedAligned :: "array \<Rightarrow> u32 \<Rightarrow> u16" where
  "T1ReadWord_guaranteedAligned mem addr =
     push_bit 8 (ucast (mem (unat addr + 1))) OR ucast (mem (unat addr))"

definition T1ReadLong_guaranteedAligned :: "array \<Rightarrow> u32 \<Rightarrow> u32" where
  "T1ReadLong_guaranteedAligned mem addr =
     push_bit 24 (ucast (mem (unat addr + 3))) OR push_bit 16 (ucast (mem (unat addr + 2))) OR
     push_bit 8 (ucast (mem (unat addr + 1))) OR ucast (mem (unat addr))"

definition T1WriteByte :: "array \<Rightarrow> u32 \<Rightarrow> byte \<Rightarrow> array" where
  "T1WriteByte mem addr val = mem(unat addr := val)"

definition T1WriteWord :: "array \<Rightarrow> u32 \<Rightarrow> u16 \<Rightarrow> array" where
  "T1WriteWord mem addr val =
     mem(unat addr + 1 := ucast (drop_bit 8 val), unat addr := ucast (val AND 0xFF))"

definition T1WriteLong :: "array \<Rightarrow> u32 \<Rightarrow> u32 \<Rightarrow> array" where
  "T1WriteLong mem addr val =
     mem(unat addr + 3 := ucast (drop_bit 24 val), unat addr + 2 := ucast (drop_bit 16 val AND 0xFF),
       unat addr + 1 := ucast (drop_bit 8 val AND 0xFF), unat addr := ucast (val AND 0xFF))"

section \<open>The memory system\<close>

datatype MMU_ACCESS_TYPE = MMU_AT_CODE | MMU_AT_DATA | MMU_AT_GPU | MMU_AT_DMA | MMU_AT_DEBUG

record 'b MMU =
  MAIN_MEM :: array
  ARM9_DTCM :: array
  ARM9_ITCM :: array
  ARM7_BIOS :: array
  DTCMRegion :: u32
  MAIN_MEM_MASK :: u32
  MAIN_MEM_MASK16 :: u32
  MAIN_MEM_MASK32 :: u32
  rest :: 'b

text \<open>The first argument of each operation of the bus is \<open>PROCNUM\<close>.\<close>

record 'b BUS =
  bus_read08 :: "u32 \<Rightarrow> u32 \<Rightarrow> 'b MMU \<Rightarrow> byte \<times> 'b MMU"
  bus_read16 :: "u32 \<Rightarrow> u32 \<Rightarrow> 'b MMU \<Rightarrow> u16 \<times> 'b MMU"
  bus_read32 :: "u32 \<Rightarrow> u32 \<Rightarrow> 'b MMU \<Rightarrow> u32 \<times> 'b MMU"
  bus_write08 :: "u32 \<Rightarrow> u32 \<Rightarrow> byte \<Rightarrow> 'b MMU \<Rightarrow> 'b MMU"
  bus_write16 :: "u32 \<Rightarrow> u32 \<Rightarrow> u16 \<Rightarrow> 'b MMU \<Rightarrow> 'b MMU"
  bus_write32 :: "u32 \<Rightarrow> u32 \<Rightarrow> u32 \<Rightarrow> 'b MMU \<Rightarrow> 'b MMU"

definition SetupMMU :: "bool \<Rightarrow> bool \<Rightarrow> 'b MMU \<Rightarrow> 'b MMU" where
  "SetupMMU debugConsole dsi m =
     (let k = (if debugConsole then 0x7FFFFF else 0x3FFFFF);
          k = (if dsi then 0xFFFFFF else k) in
      m\<lparr>MAIN_MEM_MASK := k, MAIN_MEM_MASK16 := k AND NOT 1, MAIN_MEM_MASK32 := k AND NOT 3\<rparr>)"

definition in_dtcm :: "u32 \<Rightarrow> 'b MMU \<Rightarrow> bool" where
  "in_dtcm addr m = (addr AND NOT 0x3FFF = DTCMRegion m)"

definition in_main :: "u32 \<Rightarrow> bool" where
  "in_main addr = (addr AND 0x0F000000 = 0x02000000)"

section \<open>Reading\<close>

definition MMU_read08 :: "'b BUS \<Rightarrow> u32 \<Rightarrow> MMU_ACCESS_TYPE \<Rightarrow> u32 \<Rightarrow> 'b MMU \<Rightarrow> byte \<times> 'b MMU" where
  "MMU_read08 B PROCNUM AT addr m =
     (if PROCNUM = 1 \<and> AT = MMU_AT_DEBUG \<and> addr < 0x00004000 then (T1ReadByte (ARM7_BIOS m) addr, m)
      else if PROCNUM = 0 \<and> AT = MMU_AT_DMA \<and> (addr < 0x02000000 \<or> in_dtcm addr m) then (0, m)
      else if PROCNUM = 0 \<and> in_dtcm addr m then (T1ReadByte (ARM9_DTCM m) (addr AND 0x3FFF), m)
      else if in_main addr then (T1ReadByte (MAIN_MEM m) (addr AND MAIN_MEM_MASK m), m)
      else bus_read08 B PROCNUM addr m)"

definition MMU_read16 :: "'b BUS \<Rightarrow> u32 \<Rightarrow> MMU_ACCESS_TYPE \<Rightarrow> u32 \<Rightarrow> 'b MMU \<Rightarrow> u16 \<times> 'b MMU" where
  "MMU_read16 B PROCNUM AT addr m =
     (if PROCNUM = 1 \<and> AT = MMU_AT_DEBUG \<and> addr < 0x00004000
      then (T1ReadWord_guaranteedAligned (ARM7_BIOS m) addr, m)
      else if PROCNUM = 0 \<and> AT = MMU_AT_DMA \<and> (addr < 0x02000000 \<or> in_dtcm addr m) then (0, m)
      else if PROCNUM = 0 \<and> AT = MMU_AT_CODE then
        (if in_main addr
         then (T1ReadWord_guaranteedAligned (MAIN_MEM m) (addr AND MAIN_MEM_MASK16 m), m)
         else if addr < 0x02000000
         then (T1ReadWord_guaranteedAligned (ARM9_ITCM m) (addr AND 0x7FFE), m)
         else bus_read16 B PROCNUM addr m)
      else if PROCNUM = 0 \<and> in_dtcm addr m
      then (T1ReadWord_guaranteedAligned (ARM9_DTCM m) (addr AND 0x3FFE), m)
      else if in_main addr
      then (T1ReadWord_guaranteedAligned (MAIN_MEM m) (addr AND MAIN_MEM_MASK16 m), m)
      else bus_read16 B PROCNUM addr m)"

definition MMU_read32 :: "'b BUS \<Rightarrow> u32 \<Rightarrow> MMU_ACCESS_TYPE \<Rightarrow> u32 \<Rightarrow> 'b MMU \<Rightarrow> u32 \<times> 'b MMU" where
  "MMU_read32 B PROCNUM AT addr m =
     (if PROCNUM = 1 \<and> AT = MMU_AT_DEBUG \<and> addr < 0x00004000
      then (T1ReadLong_guaranteedAligned (ARM7_BIOS m) addr, m)
      else if PROCNUM = 0 \<and> AT = MMU_AT_DMA \<and> (addr < 0x02000000 \<or> in_dtcm addr m) then (0, m)
      else if PROCNUM = 0 \<and> AT = MMU_AT_CODE then
        (if in_main addr
         then (T1ReadLong_guaranteedAligned (MAIN_MEM m) (addr AND MAIN_MEM_MASK32 m), m)
         else if addr < 0x02000000
         then (T1ReadLong_guaranteedAligned (ARM9_ITCM m) (addr AND 0x7FFC), m)
         else bus_read32 B PROCNUM addr m)
      else if PROCNUM = 1 \<and> in_main addr
      then (T1ReadLong_guaranteedAligned (MAIN_MEM m) (addr AND MAIN_MEM_MASK32 m), m)
      else if PROCNUM = 0 \<and> in_dtcm addr m
      then (T1ReadLong_guaranteedAligned (ARM9_DTCM m) (addr AND 0x3FFC), m)
      else if PROCNUM = 0 \<and> in_main addr
      then (T1ReadLong_guaranteedAligned (MAIN_MEM m) (addr AND MAIN_MEM_MASK32 m), m)
      else bus_read32 B PROCNUM addr m)"

section \<open>Writing\<close>

definition MMU_write08 :: "'b BUS \<Rightarrow> u32 \<Rightarrow> MMU_ACCESS_TYPE \<Rightarrow> u32 \<Rightarrow> byte \<Rightarrow> 'b MMU \<Rightarrow> 'b MMU" where
  "MMU_write08 B PROCNUM AT addr val m =
     (if PROCNUM = 0 \<and> AT = MMU_AT_DMA \<and> (addr < 0x02000000 \<or> in_dtcm addr m) then m
      else if PROCNUM = 0 \<and> in_dtcm addr m
      then m\<lparr>ARM9_DTCM := T1WriteByte (ARM9_DTCM m) (addr AND 0x3FFF) val\<rparr>
      else if in_main addr then m\<lparr>MAIN_MEM := T1WriteByte (MAIN_MEM m) (addr AND MAIN_MEM_MASK m) val\<rparr>
      else bus_write08 B PROCNUM addr val m)"

definition MMU_write16 :: "'b BUS \<Rightarrow> u32 \<Rightarrow> MMU_ACCESS_TYPE \<Rightarrow> u32 \<Rightarrow> u16 \<Rightarrow> 'b MMU \<Rightarrow> 'b MMU" where
  "MMU_write16 B PROCNUM AT addr val m =
     (if PROCNUM = 0 \<and> AT = MMU_AT_DMA \<and> (addr < 0x02000000 \<or> in_dtcm addr m) then m
      else if PROCNUM = 0 \<and> in_dtcm addr m
      then m\<lparr>ARM9_DTCM := T1WriteWord (ARM9_DTCM m) (addr AND 0x3FFE) val\<rparr>
      else if in_main addr then m\<lparr>MAIN_MEM := T1WriteWord (MAIN_MEM m) (addr AND MAIN_MEM_MASK16 m) val\<rparr>
      else bus_write16 B PROCNUM addr val m)"

definition MMU_write32 :: "'b BUS \<Rightarrow> u32 \<Rightarrow> MMU_ACCESS_TYPE \<Rightarrow> u32 \<Rightarrow> u32 \<Rightarrow> 'b MMU \<Rightarrow> 'b MMU" where
  "MMU_write32 B PROCNUM AT addr val m =
     (if PROCNUM = 0 \<and> AT = MMU_AT_DMA \<and> (addr < 0x02000000 \<or> in_dtcm addr m) then m
      else if PROCNUM = 0 \<and> in_dtcm addr m
      then m\<lparr>ARM9_DTCM := T1WriteLong (ARM9_DTCM m) (addr AND 0x3FFC) val\<rparr>
      else if in_main addr then m\<lparr>MAIN_MEM := T1WriteLong (MAIN_MEM m) (addr AND MAIN_MEM_MASK32 m) val\<rparr>
      else bus_write32 B PROCNUM addr val m)"

end
