(* ===== verification/Timing.thy ===== *)
theory Timing
  imports Mmu
begin

text \<open>
  The access times of \<^verbatim>\<open>MMU_timing.h\<close>, with advanced timing and every option of the file enabled
  (\<open>TIMING\<close> is the run-time setting \<open>advanced_timing\<close>).

  A cache controller keeps tags but no contents: \<open>cc_tag\<close> maps a block index and a way to a tag.
  The template parameters of the two controllers are arguments: 2 to the power \<open>sizeShift\<close> bytes,
  4 ways (\<open>ASSOCIATIVESHIFT = 2\<close>) and blocks of 32 bytes (\<open>BLOCKSIZESHIFT = 5\<close>).
\<close>

section \<open>Cache controller\<close>

datatype MMU_ACCESS_DIRECTION = MMU_AD_READ | MMU_AD_WRITE

record CacheController =
  m_cacheCache :: u32
  cc_tag :: "u32 \<Rightarrow> nat \<Rightarrow> u32"
  cc_nextWay :: "u32 \<Rightarrow> nat"

definition ASSOCIATIVITY :: nat where "ASSOCIATIVITY = 4"

definition TAGMASK :: "nat \<Rightarrow> u32" where
  "TAGMASK sizeShift = push_bit (sizeShift - 2) (- 1)"

definition BLOCKMASK :: "nat \<Rightarrow> u32" where
  "BLOCKMASK sizeShift = drop_bit (32 - (sizeShift - 2)) (- 1) AND push_bit 5 (- 1)"

definition CacheController_Reset :: CacheController where
  "CacheController_Reset = \<lparr>m_cacheCache = - 1, cc_tag = (\<lambda>_ _. 0), cc_nextWay = (\<lambda>_. 0)\<rparr>"

text \<open>The search of \<open>CachedInternal\<close> through the ways of a block.\<close>

definition tag_in_block :: "CacheController \<Rightarrow> u32 \<Rightarrow> u32 \<Rightarrow> bool" where
  "tag_in_block c blockIndex tag = list_ex (\<lambda>way. cc_tag c blockIndex way = tag) [0..<ASSOCIATIVITY]"

definition CachedInternal ::
  "nat \<Rightarrow> MMU_ACCESS_DIRECTION \<Rightarrow> u32 \<Rightarrow> u32 \<Rightarrow> CacheController \<Rightarrow> bool \<times> CacheController" where
  "CachedInternal sizeShift DIR addr blockMasked c =
     (let blockIndex = drop_bit 5 blockMasked; tag = addr AND TAGMASK sizeShift in
      if tag_in_block c blockIndex tag then (True, c\<lparr>m_cacheCache := blockMasked\<rparr>)
      else if DIR = MMU_AD_READ then
        (False, c\<lparr>cc_tag := (cc_tag c)(blockIndex := (cc_tag c blockIndex)(cc_nextWay c blockIndex := tag)),
           cc_nextWay := (cc_nextWay c)(blockIndex := (cc_nextWay c blockIndex + 1) mod ASSOCIATIVITY),
           m_cacheCache := blockMasked\<rparr>)
      else (False, c))"

definition Cached :: "nat \<Rightarrow> MMU_ACCESS_DIRECTION \<Rightarrow> u32 \<Rightarrow> CacheController \<Rightarrow> bool \<times> CacheController" where
  "Cached sizeShift DIR addr c =
     (let blockMasked = addr AND BLOCKMASK sizeShift in
      if blockMasked = m_cacheCache c then (True, c)
      else CachedInternal sizeShift DIR addr blockMasked c)"

section \<open>The time of an access\<close>

record TIMING =
  arm9codeCache :: CacheController
  arm9dataCache :: CacheController
  codeFetch_lastAddress :: "u32 \<Rightarrow> u32"
  dataFetch_lastAddress :: "u32 \<Rightarrow> u32"
  advanced_timing :: bool

text \<open>\<open>MMU_WAIT\<close> by the top four bits of the region number; the C table repeats its 16 entries.\<close>

definition MMU_WAIT :: "u32 \<Rightarrow> u32 \<Rightarrow> u32 \<Rightarrow> u32 \<Rightarrow> u32 list" where
  "MMU_WAIT MC M32 M16 MSLW =
     [MC, MC, M16, M32, M32, M16, M16, M32, MSLW, MSLW, MSLW, M32, M32, M32, M32, M32]"

definition MMU_accesstime ::
  "u32 \<Rightarrow> MMU_ACCESS_TYPE \<Rightarrow> nat \<Rightarrow> MMU_ACCESS_DIRECTION \<Rightarrow> u32 \<Rightarrow> u32 \<Rightarrow> bool \<Rightarrow> TIMING \<Rightarrow> u32 \<times> TIMING" where
  "MMU_accesstime PROCNUM AT READSIZE DIRECTION region addr sequential t =
     (let MC = 1;
          M32 = (if PROCNUM = 0 then 2 else 1);
          M16 = M32 * (if READSIZE > 16 then 2 else 1);
          MSLW = M16 * 8 in
      if PROCNUM = 0 \<and> AT = MMU_AT_CODE \<and> addr < 0x02000000 then (MC, t)
      else if advanced_timing t \<and> PROCNUM = 0 \<and> AT = MMU_AT_DATA \<and> addr AND NOT 0x3FFF = region then (MC, t)
      else if AT \<noteq> MMU_AT_DMA \<and> advanced_timing t \<and> PROCNUM = 0 \<and> in_main addr then
        (let (cached, t) =
           (if AT = MMU_AT_CODE then
              (let (b, c) = Cached 13 DIRECTION addr (arm9codeCache t) in (b, t\<lparr>arm9codeCache := c\<rparr>))
            else if AT = MMU_AT_DATA then
              (let (b, c) = Cached 12 DIRECTION addr (arm9dataCache t) in (b, t\<lparr>arm9dataCache := c\<rparr>))
            else (False, t)) in
         if cached then (MC, t)
         else (let c = (if sequential \<and> AT = MMU_AT_DATA then M16
                        else if DIRECTION = MMU_AD_READ then M16 * 5 else M16 * 2) in
           (if DIRECTION = MMU_AD_READ then c + 8 * M32 * 2 else c, t)))
      else (let c = MMU_WAIT MC M32 M16 MSLW ! (unat (drop_bit 24 addr) mod 16) in
        (if advanced_timing t \<and> \<not> sequential then c + (if PROCNUM = 0 then 3 * 2 else 1) else c, t)))"

text \<open>\<open>FetchAccessUnit::Fetch\<close> of the code and of the data unit of a processor.\<close>

definition Fetch_code ::
  "u32 \<Rightarrow> nat \<Rightarrow> MMU_ACCESS_DIRECTION \<Rightarrow> u32 \<Rightarrow> u32 \<Rightarrow> TIMING \<Rightarrow> u32 \<times> TIMING" where
  "Fetch_code PROCNUM READSIZE DIRECTION region address t =
     (if \<not> advanced_timing t then (1, t)
      else (let (time, t) = MMU_accesstime PROCNUM MMU_AT_CODE READSIZE DIRECTION region address
              (address = codeFetch_lastAddress t PROCNUM + of_nat (READSIZE div 8)) t in
        (time, t\<lparr>codeFetch_lastAddress := (codeFetch_lastAddress t)(PROCNUM := address)\<rparr>)))"

definition Fetch_data ::
  "u32 \<Rightarrow> nat \<Rightarrow> MMU_ACCESS_DIRECTION \<Rightarrow> u32 \<Rightarrow> u32 \<Rightarrow> TIMING \<Rightarrow> u32 \<times> TIMING" where
  "Fetch_data PROCNUM READSIZE DIRECTION region address t =
     (let (time, t) = MMU_accesstime PROCNUM MMU_AT_DATA READSIZE DIRECTION region address
        (if advanced_timing t then address = dataFetch_lastAddress t PROCNUM + of_nat (READSIZE div 8) else True) t in
      (time, t\<lparr>dataFetch_lastAddress := (dataFetch_lastAddress t)(PROCNUM := address)\<rparr>))"

text \<open>The address of an access, aligned to its size.\<close>

definition align_access :: "nat \<Rightarrow> u32 \<Rightarrow> u32" where
  "align_access READSIZE addr = addr AND NOT (of_nat (READSIZE div 8) - 1)"

definition MMU_memAccessCycles_timing where
  "MMU_memAccessCycles_timing PROCNUM READSIZE DIRECTION region addr t =
     Fetch_data PROCNUM READSIZE DIRECTION region (align_access READSIZE addr) t"

definition MMU_codeFetchCycles_timing where
  "MMU_codeFetchCycles_timing PROCNUM READSIZE region addr t =
     Fetch_code PROCNUM READSIZE MMU_AD_READ region (align_access READSIZE addr) t"

section \<open>Stages of the pipeline\<close>

definition MMU_aluMemCycles :: "u32 \<Rightarrow> u32 \<Rightarrow> u32 \<Rightarrow> u32" where
  "MMU_aluMemCycles PROCNUM aluCycles memCycles =
     (if PROCNUM = 0 then max aluCycles memCycles else aluCycles + memCycles)"

definition MMU_fetchExecuteCycles :: "bool \<Rightarrow> u32 \<Rightarrow> u32 \<Rightarrow> u32" where
  "MMU_fetchExecuteCycles advanced executeCycles fetchCycles =
     (if advanced then max executeCycles fetchCycles else executeCycles)"

end
