(* ===== verification/ArmExec.thy ===== *)
theory ArmExec
  imports ArmState Timing
begin

text \<open>
  Prefetching, exceptions, conditions and the execution of one instruction: \<^verbatim>\<open>armcpu.cpp\<close>, with
  the table of conditions of \<^verbatim>\<open>armcpu.h\<close>.

  The memory system of a processor is the record \<open>MEM\<close> of operations, all with the number of the
  processor as first argument; \<open>nds_mem\<close> is the one of the program. Messages on the console are left
  out.
\<close>

section \<open>Memory as the processor sees it\<close>

record 'm MEM =
  rd08 :: "u32 \<Rightarrow> MMU_ACCESS_TYPE \<Rightarrow> u32 \<Rightarrow> 'm \<Rightarrow> byte \<times> 'm"
  rd16 :: "u32 \<Rightarrow> MMU_ACCESS_TYPE \<Rightarrow> u32 \<Rightarrow> 'm \<Rightarrow> u16 \<times> 'm"
  rd32 :: "u32 \<Rightarrow> MMU_ACCESS_TYPE \<Rightarrow> u32 \<Rightarrow> 'm \<Rightarrow> u32 \<times> 'm"
  wr08 :: "u32 \<Rightarrow> u32 \<Rightarrow> byte \<Rightarrow> 'm \<Rightarrow> 'm"
  wr16 :: "u32 \<Rightarrow> u32 \<Rightarrow> u16 \<Rightarrow> 'm \<Rightarrow> 'm"
  wr32 :: "u32 \<Rightarrow> u32 \<Rightarrow> u32 \<Rightarrow> 'm \<Rightarrow> 'm"
  code_cycles :: "u32 \<Rightarrow> nat \<Rightarrow> u32 \<Rightarrow> 'm \<Rightarrow> u32 \<times> 'm"
  data_cycles :: "u32 \<Rightarrow> nat \<Rightarrow> MMU_ACCESS_DIRECTION \<Rightarrow> u32 \<Rightarrow> 'm \<Rightarrow> u32 \<times> 'm"
  use_timing :: "'m \<Rightarrow> bool"

definition nds_mem :: "'b BUS \<Rightarrow> ('b MMU \<times> TIMING) MEM" where
  "nds_mem B = \<lparr>
     rd08 = (\<lambda>P AT a (m, t). let (v, m) = MMU_read08 B P AT a m in (v, m, t)),
     rd16 = (\<lambda>P AT a (m, t). let (v, m) = MMU_read16 B P AT a m in (v, m, t)),
     rd32 = (\<lambda>P AT a (m, t). let (v, m) = MMU_read32 B P AT a m in (v, m, t)),
     wr08 = (\<lambda>P a v (m, t). (MMU_write08 B P MMU_AT_DATA a v m, t)),
     wr16 = (\<lambda>P a v (m, t). (MMU_write16 B P MMU_AT_DATA a v m, t)),
     wr32 = (\<lambda>P a v (m, t). (MMU_write32 B P MMU_AT_DATA a v m, t)),
     code_cycles = (\<lambda>P n a (m, t). let (c, t) = MMU_codeFetchCycles_timing P n (DTCMRegion m) a t in (c, m, t)),
     data_cycles = (\<lambda>P n d a (m, t). let (c, t) = MMU_memAccessCycles_timing P n d (DTCMRegion m) a t in (c, m, t)),
     use_timing = (\<lambda>(m, t). advanced_timing t)\<rparr>"

section \<open>Prefetching\<close>

text \<open>
  \<open>armcpu_prefetch\<close>. In the Thumb branch the C code tests \<open>curInstruction == instruct_adr + 2\<close> after
  it has set \<open>instruct_adr\<close> to \<open>curInstruction\<close>, so the test never holds.
\<close>

definition prefetch_arm :: "'m MEM \<Rightarrow> 'm CORE \<Rightarrow> u32 \<times> 'm CORE" where
  "prefetch_arm M s =
     (let P = proc_ID (cpu s);
          curInstruction = next_instruction (cpu s) AND 0xFFFFFFFC;
          s = upd_cpu (\<lambda>c. (setR 15 (curInstruction + 8) c)\<lparr>instruct_adr := curInstruction,
                next_instruction := curInstruction + 4\<rparr>) s;
          (v, m) = rd32 M P MMU_AT_CODE curInstruction (mmu s);
          s = upd_cpu (\<lambda>c. c\<lparr>instruction := v\<rparr>) (s\<lparr>mmu := m\<rparr>);
          (cyc, m) = code_cycles M P 32 curInstruction (mmu s) in
      (cyc, s\<lparr>mmu := m\<rparr>))"

definition prefetch_thumb :: "'m MEM \<Rightarrow> 'm CORE \<Rightarrow> u32 \<times> 'm CORE" where
  "prefetch_thumb M s =
     (let P = proc_ID (cpu s);
          curInstruction = next_instruction (cpu s) AND 0xFFFFFFFE;
          s = upd_cpu (\<lambda>c. (setR 15 (curInstruction + 4) c)\<lparr>instruct_adr := curInstruction,
                next_instruction := curInstruction + 2\<rparr>) s;
          (v, m) = rd16 M P MMU_AT_CODE curInstruction (mmu s);
          s = upd_cpu (\<lambda>c. c\<lparr>instruction := ucast v\<rparr>) (s\<lparr>mmu := m\<rparr>) in
      if P = 0 then
        (if \<not> (curInstruction = instruct_adr (cpu s) + 2 \<and> curInstruction AND 2 \<noteq> 0)
         then (let (cyc, m) = code_cycles M P 32 curInstruction (mmu s) in (cyc, s\<lparr>mmu := m\<rparr>))
         else (0, s))
      else (let (cyc, m) = code_cycles M P 16 curInstruction (mmu s) in (cyc, s\<lparr>mmu := m\<rparr>)))"

definition armcpu_prefetch :: "'m MEM \<Rightarrow> 'm CORE \<Rightarrow> u32 \<times> 'm CORE" where
  "armcpu_prefetch M s = (if \<not> flag T_bit (cpu s) then prefetch_arm M s else prefetch_thumb M s)"

section \<open>Reset\<close>

text \<open>The registers \<open>armcpu_init\<close> sets, and the call; \<open>armcpu_new\<close> without its interfaces.\<close>

definition init_regs :: "u32 \<Rightarrow> armcpu_t \<Rightarrow> armcpu_t" where
  "init_regs adr c = c\<lparr>
     LDTBit := (proc_ID c = 0), intVector := 0xFFFF0000 * (if proc_ID c = 0 then 1 else 0),
     waitIRQ := False, halt_IE_and_IF := False, intrWaitARM_state := 0,
     R := (\<lambda>n. if n < 16 then 0 else R c n), CPSR := put_bit T_bit (bit adr 0) SYS, SPSR := SYS,
     R13_usr := 0, R14_usr := 0, R13_svc := 0, R14_svc := 0, R13_abt := 0, R14_abt := 0,
     R13_und := 0, R14_und := 0, R13_irq := 0, R14_irq := 0, R8_fiq := 0, R9_fiq := 0, R10_fiq := 0,
     R11_fiq := 0, R12_fiq := 0, R13_fiq := 0, R14_fiq := 0,
     SPSR_svc := 0, SPSR_abt := 0, SPSR_und := 0, SPSR_irq := 0, SPSR_fiq := 0,
     next_instruction := adr AND NOT 1\<rparr>"

definition armcpu_init :: "'m MEM \<Rightarrow> u32 \<Rightarrow> 'm CORE \<Rightarrow> 'm CORE" where
  "armcpu_init M adr s = snd (armcpu_prefetch M (upd_cpu (init_regs adr) s))"

definition armcpu_new :: "'m MEM \<Rightarrow> u32 \<Rightarrow> 'm CORE \<Rightarrow> 'm CORE" where
  "armcpu_new M ident s = armcpu_init M 0 (upd_cpu (\<lambda>c. c\<lparr>proc_ID := ident, stalled := False\<rparr>) s)"

definition armcpu_Wait4IRQ :: "armcpu_t \<Rightarrow> u32 \<times> armcpu_t" where
  "armcpu_Wait4IRQ c = (1, c\<lparr>waitIRQ := True, halt_IE_and_IF := True\<rparr>)"

section \<open>Exceptions\<close>

definition EXCEPTION_RESET :: u32 where "EXCEPTION_RESET = 0x00"
definition EXCEPTION_UNDEFINED_INSTRUCTION :: u32 where "EXCEPTION_UNDEFINED_INSTRUCTION = 0x04"
definition EXCEPTION_SWI :: u32 where "EXCEPTION_SWI = 0x08"
definition EXCEPTION_PREFETCH_ABORT :: u32 where "EXCEPTION_PREFETCH_ABORT = 0x0C"
definition EXCEPTION_DATA_ABORT :: u32 where "EXCEPTION_DATA_ABORT = 0x10"
definition EXCEPTION_RESERVED_0x14 :: u32 where "EXCEPTION_RESERVED_0x14 = 0x14"
definition EXCEPTION_IRQ :: u32 where "EXCEPTION_IRQ = 0x18"
definition EXCEPTION_FAST_IRQ :: u32 where "EXCEPTION_FAST_IRQ = 0x1C"

definition exception_mode :: "u32 \<Rightarrow> u32" where
  "exception_mode number =
     (if number = EXCEPTION_RESET then SVC
      else if number = EXCEPTION_UNDEFINED_INSTRUCTION then UND
      else if number = EXCEPTION_SWI then SVC
      else if number = EXCEPTION_PREFETCH_ABORT then ABT
      else if number = EXCEPTION_DATA_ABORT then ABT
      else if number = EXCEPTION_IRQ then IRQ
      else if number = EXCEPTION_FAST_IRQ then FIQ
      else USR)"

definition armcpu_exception :: "u32 \<Rightarrow> 'm CORE \<Rightarrow> 'm CORE" where
  "armcpu_exception number s =
     (let s = (if number = EXCEPTION_RESERVED_0x14 then emu_halt s else s);
          tmp = CPSR (cpu s);
          (_, s) = armcpu_switchMode (exception_mode number) s;
          s = upd_cpu (\<lambda>c. (setR 14 (next_instruction c) c)\<lparr>SPSR := tmp\<rparr>) s;
          s = upd_cpu (\<lambda>c. put_flag I_bit True (put_flag T_bit False c)) s;
          s = changeCPSR s in
      upd_cpu (\<lambda>c. (setR 15 (intVector c + number) c)\<lparr>next_instruction := intVector c + number\<rparr>) s)"

definition armcpu_irqException :: "'m MEM \<Rightarrow> 'm CORE \<Rightarrow> 'm CORE" where
  "armcpu_irqException M s =
     (let tmp = CPSR (cpu s);
          (_, s) = armcpu_switchMode IRQ s;
          s = upd_cpu (\<lambda>c. (setR 14 (instruct_adr c + 4) c)\<lparr>SPSR := tmp\<rparr>) s;
          s = upd_cpu (\<lambda>c. (put_flag I_bit True (put_flag T_bit False c))
            \<lparr>next_instruction := intVector c + 0x18, waitIRQ := False\<rparr>) s in
      snd (armcpu_prefetch M s))"

text \<open>
  \<open>TRAPUNDEF\<close> raises the exception on the ARM9, whichever processor met the undefined
  instruction.
\<close>

definition on_arm9 :: "('m CORE \<Rightarrow> 'm CORE) \<Rightarrow> 'm CORE \<Rightarrow> 'm CORE" where
  "on_arm9 f s =
     (if proc_ID (cpu s) = ARMCPU_ARM9 then f s
      else (let s' = f (s\<lparr>cpu := peer s, peer := cpu s\<rparr>) in s'\<lparr>cpu := peer s', peer := cpu s'\<rparr>))"

definition TRAPUNDEF :: "'m CORE \<Rightarrow> u32 \<times> 'm CORE" where
  "TRAPUNDEF s =
     (if (intVector (cpu s) \<noteq> 0) \<noteq> (proc_ID (cpu s) = ARMCPU_ARM9)
      then (4, on_arm9 (armcpu_exception EXCEPTION_UNDEFINED_INSTRUCTION) s)
      else (4, emu_halt s))"

section \<open>Conditions\<close>

definition arm_cond_table :: "u32 list" where
  "arm_cond_table = [
     0x00,0xFF,0x00,0xFF,0x00,0xFF,0x00,0xFF, 0x00,0xFF,0xFF,0x00,0xFF,0x00,0xFF,0x20,
     0x00,0xFF,0x00,0xFF,0x00,0xFF,0xFF,0x00, 0x00,0xFF,0x00,0xFF,0x00,0xFF,0xFF,0x20,
     0x00,0xFF,0xFF,0x00,0x00,0xFF,0x00,0xFF, 0xFF,0x00,0xFF,0x00,0xFF,0x00,0xFF,0x20,
     0x00,0xFF,0xFF,0x00,0x00,0xFF,0xFF,0x00, 0xFF,0x00,0x00,0xFF,0x00,0xFF,0xFF,0x20,
     0xFF,0x00,0x00,0xFF,0x00,0xFF,0x00,0xFF, 0x00,0xFF,0xFF,0x00,0x00,0xFF,0xFF,0x20,
     0xFF,0x00,0x00,0xFF,0x00,0xFF,0xFF,0x00, 0x00,0xFF,0x00,0xFF,0x00,0xFF,0xFF,0x20,
     0xFF,0x00,0xFF,0x00,0x00,0xFF,0x00,0xFF, 0x00,0xFF,0xFF,0x00,0x00,0xFF,0xFF,0x20,
     0xFF,0x00,0xFF,0x00,0x00,0xFF,0xFF,0x00, 0x00,0xFF,0x00,0xFF,0x00,0xFF,0xFF,0x20,
     0x00,0xFF,0x00,0xFF,0xFF,0x00,0x00,0xFF, 0x00,0xFF,0x00,0xFF,0x00,0xFF,0xFF,0x20,
     0x00,0xFF,0x00,0xFF,0xFF,0x00,0xFF,0x00, 0x00,0xFF,0xFF,0x00,0xFF,0x00,0xFF,0x20,
     0x00,0xFF,0xFF,0x00,0xFF,0x00,0x00,0xFF, 0xFF,0x00,0x00,0xFF,0x00,0xFF,0xFF,0x20,
     0x00,0xFF,0xFF,0x00,0xFF,0x00,0xFF,0x00, 0xFF,0x00,0xFF,0x00,0xFF,0x00,0xFF,0x20,
     0xFF,0x00,0x00,0xFF,0xFF,0x00,0x00,0xFF, 0x00,0xFF,0x00,0xFF,0x00,0xFF,0xFF,0x20,
     0xFF,0x00,0x00,0xFF,0xFF,0x00,0xFF,0x00, 0x00,0xFF,0xFF,0x00,0x00,0xFF,0xFF,0x20,
     0xFF,0x00,0xFF,0x00,0xFF,0x00,0x00,0xFF, 0x00,0xFF,0x00,0xFF,0x00,0xFF,0xFF,0x20,
     0xFF,0x00,0xFF,0x00,0xFF,0x00,0xFF,0x00, 0x00,0xFF,0xFF,0x00,0x00,0xFF,0xFF,0x20]"

definition TEST_COND :: "u32 \<Rightarrow> u32 \<Rightarrow> Status_Reg \<Rightarrow> bool" where
  "TEST_COND cond inst psr =
     (arm_cond_table ! unat ((drop_bit 24 psr AND 0xF0) OR cond) AND push_bit (unat inst) 1 \<noteq> 0)"

section \<open>One instruction\<close>

text \<open>
  \<open>arm_set\<close> and \<open>thumb_set\<close> are the tables of instruction functions, which get the instruction;
  the result of one is the number of cycles.
\<close>

type_synonym 'm op = "u32 \<Rightarrow> 'm CORE \<Rightarrow> u32 \<times> 'm CORE"

definition armcpu_exec :: "'m MEM \<Rightarrow> (u32 \<Rightarrow> 'm op) \<Rightarrow> (u32 \<Rightarrow> 'm op) \<Rightarrow> 'm CORE \<Rightarrow> u32 \<times> 'm CORE" where
  "armcpu_exec M arm_set thumb_set s =
     (let i = instruction (cpu s);
          (cExecute, s) =
            (if \<not> flag T_bit (cpu s) then
               (if CONDITION i = 0x0E \<or> TEST_COND (CONDITION i) (CODE i) (CPSR (cpu s))
                then arm_set (INSTRUCTION_INDEX i) i s
                else (1, s))
             else thumb_set (drop_bit 6 i) i s);
          (cFetch, s) = armcpu_prefetch M s in
      (MMU_fetchExecuteCycles (use_timing M (mmu s)) cExecute cFetch, s))"

end
