(* ===== verification/ArmCond.thy ===== *)
theory ArmCond
  imports ArmExec ArmShift
begin

text \<open>
  The table of conditions of \<^verbatim>\<open>armcpu.h\<close> against the conditions of the ARM architecture.
\<close>

section \<open>The conditions\<close>

definition cond_flags :: "nat \<Rightarrow> bool \<Rightarrow> bool \<Rightarrow> bool \<Rightarrow> bool \<Rightarrow> bool" where
  "cond_flags cond n z c v =
     (if cond = 0 then z else if cond = 1 then \<not> z
      else if cond = 2 then c else if cond = 3 then \<not> c
      else if cond = 4 then n else if cond = 5 then \<not> n
      else if cond = 6 then v else if cond = 7 then \<not> v
      else if cond = 8 then c \<and> \<not> z else if cond = 9 then \<not> c \<or> z
      else if cond = 10 then n = v else if cond = 11 then n \<noteq> v
      else if cond = 12 then \<not> z \<and> n = v else if cond = 13 then z \<or> n \<noteq> v
      else cond = 14)"

definition cond_holds :: "u32 \<Rightarrow> Status_Reg \<Rightarrow> bool" where
  "cond_holds cond psr = cond_flags (unat cond) (bit psr N_bit) (bit psr Z_bit) (bit psr C_bit) (bit psr V_bit)"

section \<open>The table\<close>

definition cond_entry :: "nat \<Rightarrow> u32" where
  "cond_entry k =
     (if k mod 16 = 15 then 0x20
      else if cond_flags (k mod 16) (odd (k div 128)) (odd (k div 64)) (odd (k div 32)) (odd (k div 16))
      then 0xFF else 0)"

lemma cond_table_entries: "arm_cond_table = map cond_entry [0..<256]"
  by code_simp

lemma cond_table_nth: "k < 256 \<Longrightarrow> arm_cond_table ! k = cond_entry k"
  by (simp add: cond_table_entries)

text \<open>The index is made of the flags and the condition.\<close>

lemma unat_take_bit_eq: "take_bit n (x :: u32) = y \<Longrightarrow> unat y = unat x mod 2 ^ n"
  using unsigned_take_bit_eq [of n x, where 'a = nat] by (simp add: take_bit_eq_mod [of n "unat x"])

lemma odd_unat_div: "odd (unat (x :: u32) div 2 ^ n) \<longleftrightarrow> bit x n"
  by (auto simp: bit_unsigned_iff simp flip: bit_iff_odd dest: bit_lt)

lemma index_bit:
  fixes psr cond :: u32
  assumes "take_bit 4 cond = cond"
  shows "bit ((drop_bit 24 psr AND 0xF0) OR cond) n \<longleftrightarrow>
    (if n < 4 then bit cond n else n < 8 \<and> bit psr (24 + n))"
proof -
  have m: "(0xF0 :: u32) = push_bit 4 (mask 4)" by (simp add: mask_eq_exp_minus_1)
  have c: "\<not> bit cond n" if "4 \<le> n"
    using assms(1) that by (metis bit_take_bit_iff leD)
  show ?thesis unfolding m using c by (auto simp: bit_simps dest: bit_lt)
qed

lemma cond_index:
  fixes psr cond :: u32
  assumes c: "take_bit 4 cond = cond"
  defines "k \<equiv> unat ((drop_bit 24 psr AND 0xF0) OR cond)"
  shows "k < 256" "k mod 16 = unat cond"
    "odd (k div 128) = bit psr 31" "odd (k div 64) = bit psr 30"
    "odd (k div 32) = bit psr 29" "odd (k div 16) = bit psr 28"
proof -
  let ?x = "(drop_bit 24 psr AND 0xF0) OR cond"
  have "take_bit 8 ?x = ?x"
    by (rule bit_word_eqI) (simp only: bit_take_bit_iff index_bit [OF c], auto)
  from unat_take_bit_eq [OF this] have "unat ?x = unat ?x mod 256" by simp
  moreover have "unat ?x mod 256 < 256" by simp
  ultimately show "k < 256" unfolding k_def by linarith
  have "bit cond n \<Longrightarrow> n < 4" for n
    using c by (metis bit_take_bit_iff)
  then have "take_bit 4 ?x = cond"
    by (intro bit_word_eqI) (simp only: bit_take_bit_iff index_bit [OF c], auto)
  from unat_take_bit_eq [OF this] show "k mod 16 = unat cond" unfolding k_def by simp
  note b = index_bit [OF c, of psr]
  have k: "odd (k div 2 ^ n) \<longleftrightarrow> bit ?x n" for n
    unfolding k_def by (rule odd_unat_div)
  show "odd (k div 128) = bit psr 31" using k [of 7] b [of 7] by simp
  show "odd (k div 64) = bit psr 30" using k [of 6] b [of 6] by simp
  show "odd (k div 32) = bit psr 29" using k [of 5] b [of 5] by simp
  show "odd (k div 16) = bit psr 28" using k [of 4] b [of 4] by simp
qed

lemma and_shifted_one: "e AND push_bit n 1 \<noteq> 0 \<longleftrightarrow> bit (e :: u32) n"
  by (simp add: bit_iff_and_push_bit_not_eq_0)

lemma entry_bit:
  assumes "n < 8"
  shows "bit (0xFF :: u32) n" "\<not> bit (0 :: u32) n" "bit (0x20 :: u32) n \<longleftrightarrow> n = 5"
  using assms by (auto simp: numeral_eq_Suc less_Suc_eq)

lemma TEST_COND_flags:
  assumes "take_bit 4 cond = cond" "unat inst < 8"
  shows "TEST_COND cond inst psr \<longleftrightarrow> (if cond = 15 then inst = 5 else cond_holds cond psr)"
proof -
  have 15: "unat cond = 15 \<longleftrightarrow> cond = 15" "unat inst = 5 \<longleftrightarrow> inst = 5" by (simp_all add: word_unat_eq_iff)
  show ?thesis
    unfolding TEST_COND_def and_shifted_one cond_table_nth [OF cond_index(1) [OF assms(1)]]
      cond_entry_def cond_index(2-) [OF assms(1)] 15 cond_holds_def flag_defs
    by (simp only: if_distrib [of "\<lambda>e. bit e (unat inst)"] entry_bit [OF assms(2)] 15(2)) simp
qed

lemma CONDITION_4: "take_bit 4 (CONDITION i) = CONDITION i"
  by (rule bit_word_eqI) (auto simp: CONDITION_def bit_simps dest: bit_lt)

lemma CODE_8: "unat (CODE i) < 8"
  using unat_and_le [of "drop_bit 25 i" 7] by (simp add: CODE_def)

end
