(* ===== verification/ArmMisc.thy ===== *)
theory ArmMisc
  imports ArmExec ArmAlu
begin

text \<open>
  Multiplication, saturating arithmetic, the status registers, branches and swaps:
  \<^verbatim>\<open>arm_instructions.cpp\<close>. A signed 64-bit variable of the C code is an \<open>int\<close>; none of the
  computations here leaves its range.
\<close>

section \<open>Data accesses of the processor\<close>

definition READ32 :: "'m MEM \<Rightarrow> u32 \<Rightarrow> 'm CORE \<Rightarrow> u32 \<times> 'm CORE" where
  "READ32 M adr s =
     (let (v, m) = rd32 M (proc_ID (cpu s)) MMU_AT_DATA (adr AND 0xFFFFFFFC) (mmu s) in (v, s\<lparr>mmu := m\<rparr>))"

definition READ16 :: "'m MEM \<Rightarrow> u32 \<Rightarrow> 'm CORE \<Rightarrow> u16 \<times> 'm CORE" where
  "READ16 M adr s =
     (let (v, m) = rd16 M (proc_ID (cpu s)) MMU_AT_DATA (adr AND 0xFFFFFFFE) (mmu s) in (v, s\<lparr>mmu := m\<rparr>))"

definition READ8 :: "'m MEM \<Rightarrow> u32 \<Rightarrow> 'm CORE \<Rightarrow> byte \<times> 'm CORE" where
  "READ8 M adr s =
     (let (v, m) = rd08 M (proc_ID (cpu s)) MMU_AT_DATA adr (mmu s) in (v, s\<lparr>mmu := m\<rparr>))"

definition WRITE32 :: "'m MEM \<Rightarrow> u32 \<Rightarrow> u32 \<Rightarrow> 'm CORE \<Rightarrow> 'm CORE" where
  "WRITE32 M adr v s = s\<lparr>mmu := wr32 M (proc_ID (cpu s)) (adr AND 0xFFFFFFFC) v (mmu s)\<rparr>"

definition WRITE16 :: "'m MEM \<Rightarrow> u32 \<Rightarrow> u16 \<Rightarrow> 'm CORE \<Rightarrow> 'm CORE" where
  "WRITE16 M adr v s = s\<lparr>mmu := wr16 M (proc_ID (cpu s)) (adr AND 0xFFFFFFFE) v (mmu s)\<rparr>"

definition WRITE8 :: "'m MEM \<Rightarrow> u32 \<Rightarrow> byte \<Rightarrow> 'm CORE \<Rightarrow> 'm CORE" where
  "WRITE8 M adr v s = s\<lparr>mmu := wr08 M (proc_ID (cpu s)) adr v (mmu s)\<rparr>"

definition MMU_memAccessCycles ::
  "'m MEM \<Rightarrow> nat \<Rightarrow> MMU_ACCESS_DIRECTION \<Rightarrow> u32 \<Rightarrow> 'm CORE \<Rightarrow> u32 \<times> 'm CORE" where
  "MMU_memAccessCycles M READSIZE DIRECTION adr s =
     (let (c, m) = data_cycles M (proc_ID (cpu s)) READSIZE DIRECTION adr (mmu s) in (c, s\<lparr>mmu := m\<rparr>))"

definition MMU_aluMemAccessCycles ::
  "'m MEM \<Rightarrow> nat \<Rightarrow> MMU_ACCESS_DIRECTION \<Rightarrow> u32 \<Rightarrow> u32 \<Rightarrow> 'm CORE \<Rightarrow> u32 \<times> 'm CORE" where
  "MMU_aluMemAccessCycles M READSIZE DIRECTION aluCycles adr s =
     (let (c, s) = MMU_memAccessCycles M READSIZE DIRECTION adr s in
      (MMU_aluMemCycles (proc_ID (cpu s)) aluCycles c, s))"

text \<open>The registers an instruction names, by the position of the number.\<close>

definition reg :: "u32 \<Rightarrow> nat \<Rightarrow> 'm CORE \<Rightarrow> u32" where
  "reg i n s = R (cpu s) (REG_POS i n)"

definition set_reg :: "u32 \<Rightarrow> nat \<Rightarrow> u32 \<Rightarrow> 'm CORE \<Rightarrow> 'm CORE" where
  "set_reg i n v s = upd_cpu (setR (REG_POS i n) v) s"

definition OP_UND :: "u32 \<Rightarrow> 'm CORE \<Rightarrow> u32 \<times> 'm CORE" where
  "OP_UND i s = (1, snd (TRAPUNDEF s))"

section \<open>MUL and MLA\<close>

text \<open>The cycles by the size of the multiplier.\<close>

definition MUL_Mxx_END :: "u32 \<Rightarrow> u32 \<Rightarrow> u32" where
  "MUL_Mxx_END v c =
     (let v = drop_bit 8 v in if v = 0 \<or> v = 0xFFFFFF then c + 1
      else let v = drop_bit 8 v in if v = 0 \<or> v = 0xFFFF then c + 2
      else let v = drop_bit 8 v in if v = 0 \<or> v = 0xFF then c + 3
      else c + 4)"

definition OP_MUL :: "u32 \<Rightarrow> 'm CORE \<Rightarrow> u32 \<times> 'm CORE" where
  "OP_MUL i s = (let v = reg i 8 s in (MUL_Mxx_END v 1, set_reg i 16 (reg i 0 s * v) s))"

definition OP_MLA :: "u32 \<Rightarrow> 'm CORE \<Rightarrow> u32 \<times> 'm CORE" where
  "OP_MLA i s = (let v = reg i 8 s in (MUL_Mxx_END v 2, set_reg i 16 (reg i 0 s * v + reg i 12 s) s))"

definition OP_MUL_S :: "u32 \<Rightarrow> 'm CORE \<Rightarrow> u32 \<times> 'm CORE" where
  "OP_MUL_S i s =
     (let v = reg i 8 s; r = reg i 0 s * v in
      (MUL_Mxx_END v 1, upd_cpu (put_NZ r) (set_reg i 16 r s)))"

definition OP_MLA_S :: "u32 \<Rightarrow> 'm CORE \<Rightarrow> u32 \<times> 'm CORE" where
  "OP_MLA_S i s =
     (let v = reg i 8 s; r = reg i 0 s * v + reg i 12 s in
      (MUL_Mxx_END v 2, upd_cpu (put_NZ r) (set_reg i 16 r s)))"

section \<open>Long multiplication\<close>

definition MUL_UMxxL_END :: "u32 \<Rightarrow> u32 \<Rightarrow> u32" where
  "MUL_UMxxL_END v c =
     (let v = drop_bit 8 v in if v = 0 then c + 1
      else let v = drop_bit 8 v in if v = 0 then c + 2
      else let v = drop_bit 8 v in if v = 0 then c + 3
      else c + 4)"

text \<open>The signed multiplier is masked to its 32 bits first.\<close>

definition MUL_SMxxL_END :: "u64 \<Rightarrow> u32 \<Rightarrow> u32" where
  "MUL_SMxxL_END v c =
     (let v = v AND 0xFFFFFFFF; v = drop_bit 8 v in if v = 0 \<or> v = 0xFFFFFF then c + 1
      else let v = drop_bit 8 v in if v = 0 \<or> v = 0xFFFF then c + 2
      else let v = drop_bit 8 v in if v = 0 \<or> v = 0xFF then c + 3
      else c + 4)"

definition umul :: "u32 \<Rightarrow> u32 \<Rightarrow> u64" where "umul a b = ucast a * ucast b"
definition smul :: "u32 \<Rightarrow> u32 \<Rightarrow> u64" where "smul a b = scast a * scast b"

text \<open>The low half is written before the high half.\<close>

definition store_long :: "u32 \<Rightarrow> u64 \<Rightarrow> 'm CORE \<Rightarrow> 'm CORE" where
  "store_long i res s = set_reg i 16 (ucast (drop_bit 32 res)) (set_reg i 12 (ucast res) s)"

definition accumulate_long :: "u32 \<Rightarrow> u64 \<Rightarrow> 'm CORE \<Rightarrow> 'm CORE" where
  "accumulate_long i res s =
     (let tmp = ucast res;
          s = set_reg i 16 (ucast (drop_bit 32 res) + reg i 16 s +
                (if CarryFrom tmp (reg i 12 s) then 1 else 0)) s in
      set_reg i 12 (reg i 12 s + tmp) s)"

definition put_NZ_long :: "u32 \<Rightarrow> 'm CORE \<Rightarrow> 'm CORE" where
  "put_NZ_long i s =
     upd_cpu (put_flag Z_bit (reg i 16 s = 0 \<and> reg i 12 s = 0))
       (upd_cpu (put_flag N_bit (bit (reg i 16 s) 31)) s)"

definition OP_UMULL :: "u32 \<Rightarrow> 'm CORE \<Rightarrow> u32 \<times> 'm CORE" where
  "OP_UMULL i s = (let v = reg i 8 s in (MUL_UMxxL_END v 2, store_long i (umul (reg i 0 s) v) s))"

definition OP_UMLAL :: "u32 \<Rightarrow> 'm CORE \<Rightarrow> u32 \<times> 'm CORE" where
  "OP_UMLAL i s = (let v = reg i 8 s in (MUL_UMxxL_END v 3, accumulate_long i (umul (reg i 0 s) v) s))"

definition OP_UMULL_S :: "u32 \<Rightarrow> 'm CORE \<Rightarrow> u32 \<times> 'm CORE" where
  "OP_UMULL_S i s =
     (let v = reg i 8 s in (MUL_UMxxL_END v 2, put_NZ_long i (store_long i (umul (reg i 0 s) v) s)))"

definition OP_UMLAL_S :: "u32 \<Rightarrow> 'm CORE \<Rightarrow> u32 \<times> 'm CORE" where
  "OP_UMLAL_S i s =
     (let v = reg i 8 s in (MUL_UMxxL_END v 3, put_NZ_long i (accumulate_long i (umul (reg i 0 s) v) s)))"

definition OP_SMULL :: "u32 \<Rightarrow> 'm CORE \<Rightarrow> u32 \<times> 'm CORE" where
  "OP_SMULL i s =
     (let v = reg i 8 s in (MUL_SMxxL_END (scast v) 2, store_long i (smul v (reg i 0 s)) s))"

definition OP_SMLAL :: "u32 \<Rightarrow> 'm CORE \<Rightarrow> u32 \<times> 'm CORE" where
  "OP_SMLAL i s =
     (let v = reg i 8 s in (MUL_SMxxL_END (scast v) 3, accumulate_long i (smul v (reg i 0 s)) s))"

definition OP_SMULL_S :: "u32 \<Rightarrow> 'm CORE \<Rightarrow> u32 \<times> 'm CORE" where
  "OP_SMULL_S i s =
     (let v = reg i 8 s in
      (MUL_SMxxL_END (scast v) 2, put_NZ_long i (store_long i (smul v (reg i 0 s)) s)))"

definition OP_SMLAL_S :: "u32 \<Rightarrow> 'm CORE \<Rightarrow> u32 \<times> 'm CORE" where
  "OP_SMLAL_S i s =
     (let v = reg i 8 s in
      (MUL_SMxxL_END (scast v) 3, put_NZ_long i (accumulate_long i (smul v (reg i 0 s)) s)))"

section \<open>Swaps\<close>

definition OP_SWP :: "'m MEM \<Rightarrow> u32 \<Rightarrow> 'm CORE \<Rightarrow> u32 \<times> 'm CORE" where
  "OP_SWP M i s =
     (let adr = reg i 16 s;
          (v, s) = READ32 M adr s;
          tmp = ROR v (unat (push_bit 3 (adr AND 3)));
          s = WRITE32 M adr (reg i 0 s) s;
          s = set_reg i 12 tmp s;
          (c, s) = MMU_memAccessCycles M 32 MMU_AD_READ adr s;
          (d, s) = MMU_memAccessCycles M 32 MMU_AD_WRITE adr s in
      (MMU_aluMemCycles (proc_ID (cpu s)) 4 (c + d), s))"

definition OP_SWPB :: "'m MEM \<Rightarrow> u32 \<Rightarrow> 'm CORE \<Rightarrow> u32 \<times> 'm CORE" where
  "OP_SWPB M i s =
     (let adr = reg i 16 s;
          (tmp, s) = READ8 M adr s;
          s = WRITE8 M adr (ucast (reg i 0 s AND 0xFF)) s;
          s = set_reg i 12 (ucast tmp) s;
          (c, s) = MMU_memAccessCycles M 8 MMU_AD_READ adr s;
          (d, s) = MMU_memAccessCycles M 8 MMU_AD_WRITE adr s in
      (MMU_aluMemCycles (proc_ID (cpu s)) 4 (c + d), s))"

section \<open>Status registers\<close>

definition OP_MRS_CPSR :: "u32 \<Rightarrow> 'm CORE \<Rightarrow> u32 \<times> 'm CORE" where
  "OP_MRS_CPSR i s = (1, set_reg i 12 (CPSR (cpu s)) s)"

definition OP_MRS_SPSR :: "u32 \<Rightarrow> 'm CORE \<Rightarrow> u32 \<times> 'm CORE" where
  "OP_MRS_SPSR i s = (1, set_reg i 12 (SPSR (cpu s)) s)"

definition field_mask :: "u32 \<Rightarrow> u32" where
  "field_mask i =
     (if bit i 16 then 0x000000FF else 0) OR (if bit i 17 then 0x0000FF00 else 0) OR
     (if bit i 18 then 0x00FF0000 else 0) OR (if bit i 19 then 0xFF000000 else 0)"

definition merge_psr :: "u32 \<Rightarrow> u32 \<Rightarrow> Status_Reg \<Rightarrow> Status_Reg" where
  "merge_psr byte_mask operand psr = (psr AND NOT byte_mask) OR (operand AND byte_mask)"

text \<open>The macros \<open>OP_MSR_CPSR_\<close> and \<open>OP_MSR_SPSR_\<close>; the second returns early in two modes.\<close>

definition MSR_CPSR_macro :: "u32 \<Rightarrow> u32 \<Rightarrow> 'm CORE \<Rightarrow> 'm CORE" where
  "MSR_CPSR_macro operand i s =
     (let user = (psr_mode (CPSR (cpu s)) = USR);
          byte_mask = (if user then (if bit i 19 then 0xFF000000 else 0) else field_mask i);
          s = (if \<not> user \<and> bit i 16 then snd (armcpu_switchMode (operand AND 0x1F) s) else s) in
      changeCPSR (upd_cpu (\<lambda>c. c\<lparr>CPSR := merge_psr byte_mask operand (CPSR c)\<rparr>) s))"

definition MSR_SPSR_macro :: "u32 \<Rightarrow> u32 \<Rightarrow> 'm CORE \<Rightarrow> 'm CORE" where
  "MSR_SPSR_macro operand i s =
     (if psr_mode (CPSR (cpu s)) = USR \<or> psr_mode (CPSR (cpu s)) = SYS then s
      else changeCPSR (upd_cpu (\<lambda>c. c\<lparr>SPSR := merge_psr (field_mask i) operand (SPSR c)\<rparr>) s))"

definition OP_MSR_CPSR :: "u32 \<Rightarrow> 'm CORE \<Rightarrow> u32 \<times> 'm CORE" where
  "OP_MSR_CPSR i s = (1, MSR_CPSR_macro (reg i 0 s) i s)"

definition OP_MSR_SPSR :: "u32 \<Rightarrow> 'm CORE \<Rightarrow> u32 \<times> 'm CORE" where
  "OP_MSR_SPSR i s = (1, MSR_SPSR_macro (reg i 0 s) i s)"

definition OP_MSR_CPSR_IMM_VAL :: "u32 \<Rightarrow> 'm CORE \<Rightarrow> u32 \<times> 'm CORE" where
  "OP_MSR_CPSR_IMM_VAL i s = (1, MSR_CPSR_macro (shift_op IMM_VALUE i (cpu s)) i s)"

definition OP_MSR_SPSR_IMM_VAL :: "u32 \<Rightarrow> 'm CORE \<Rightarrow> u32 \<times> 'm CORE" where
  "OP_MSR_SPSR_IMM_VAL i s = (1, MSR_SPSR_macro (shift_op IMM_VALUE i (cpu s)) i s)"

section \<open>Branches\<close>

definition thumb_mask :: "armcpu_t \<Rightarrow> u32" where
  "thumb_mask c = 0xFFFFFFFC OR push_bit 1 (if flag T_bit c then 1 else 0)"

text \<open>A jump to \<open>v\<close>, aligned for the current state.\<close>

definition jump :: "u32 \<Rightarrow> armcpu_t \<Rightarrow> armcpu_t" where
  "jump v c = (setR 15 (v AND thumb_mask c) c)\<lparr>next_instruction := v AND thumb_mask c\<rparr>"

definition OP_BX :: "u32 \<Rightarrow> 'm CORE \<Rightarrow> u32 \<times> 'm CORE" where
  "OP_BX i s =
     (let tmp = reg i 0 s in (3, upd_cpu (\<lambda>c. jump tmp (put_flag T_bit (bit tmp 0) c)) s))"

definition OP_BLX_REG :: "u32 \<Rightarrow> 'm CORE \<Rightarrow> u32 \<times> 'm CORE" where
  "OP_BLX_REG i s =
     (let tmp = reg i 0 s in
      (3, upd_cpu (\<lambda>c. jump tmp (put_flag T_bit (bit tmp 0) (setR 14 (next_instruction c) c))) s))"

definition SIGNEXTEND_24 :: "u32 \<Rightarrow> u32" where
  "SIGNEXTEND_24 i = signed_drop_bit 8 (push_bit 8 i)"

definition OP_B :: "u32 \<Rightarrow> 'm CORE \<Rightarrow> u32 \<times> 'm CORE" where
  "OP_B i s =
     (let off = SIGNEXTEND_24 i;
          s = (if CONDITION i = 0xF
               then upd_cpu (\<lambda>c. put_flag T_bit True (setR 14 (next_instruction c) c)) s else s) in
      (3, upd_cpu (\<lambda>c. jump (R c 15 + push_bit 2 off) c) s))"

definition OP_BL :: "u32 \<Rightarrow> 'm CORE \<Rightarrow> u32 \<times> 'm CORE" where
  "OP_BL i s =
     (let off = SIGNEXTEND_24 i;
          s = (if CONDITION i = 0xF
               then upd_cpu (\<lambda>c. setR 15 (R c 15 + 2) (put_flag T_bit True c)) s else s) in
      (3, upd_cpu (\<lambda>c. jump (R c 15 + push_bit 2 off) (setR 14 (next_instruction c) c)) s))"

section \<open>CLZ\<close>

definition CLZ_TAB :: "u32 list" where
  "CLZ_TAB = [0, 1, 2, 2, 3, 3, 3, 3, 4, 4, 4, 4, 4, 4, 4, 4]"

definition clz_nibble :: "u32 \<Rightarrow> nat \<Rightarrow> u32" where
  "clz_nibble Rm n = CLZ_TAB ! unat (drop_bit n Rm AND 0xF)"

definition clz_smear :: "u32 \<Rightarrow> u32" where
  "clz_smear Rm =
     (let Rm = Rm OR drop_bit 1 Rm; Rm = Rm OR drop_bit 2 Rm; Rm = Rm OR drop_bit 4 Rm;
          Rm = Rm OR drop_bit 8 Rm in
      Rm OR drop_bit 16 Rm)"

definition OP_CLZ :: "u32 \<Rightarrow> 'm CORE \<Rightarrow> u32 \<times> 'm CORE" where
  "OP_CLZ i s =
     (let Rm = reg i 0 s in
      if Rm = 0 then (2, set_reg i 12 32 s)
      else (let Rm = clz_smear Rm;
                pos = clz_nibble Rm 0 + clz_nibble Rm 4 + clz_nibble Rm 8 + clz_nibble Rm 12 +
                      clz_nibble Rm 16 + clz_nibble Rm 20 + clz_nibble Rm 24 + clz_nibble Rm 28 in
        (2, set_reg i 12 (32 - pos) s)))"

section \<open>Saturating arithmetic\<close>

text \<open>The end of the four instructions; \<open>over\<close> is the overflow of \<open>res\<close>.\<close>

definition saturate :: "u32 \<Rightarrow> u32" where "saturate res = 0x80000000 - BIT31 res"

definition write_saturated :: "u32 \<Rightarrow> u32 \<Rightarrow> u32 \<Rightarrow> 'm CORE \<Rightarrow> u32 \<times> 'm CORE" where
  "write_saturated i over res s =
     (if over \<noteq> 0 then (2, set_reg i 12 (saturate res) (upd_cpu (put_flag Q_bit True) s))
      else (let s = set_reg i 12 res s in
        if REG_POS i 12 = 15
        then (3, upd_cpu (\<lambda>c. (setR 15 (R c 15 AND 0xFFFFFFFC) c)\<lparr>next_instruction := R c 15 AND 0xFFFFFFFC\<rparr>) s)
        else (2, s)))"

definition OP_QADD :: "u32 \<Rightarrow> 'm CORE \<Rightarrow> u32 \<times> 'm CORE" where
  "OP_QADD i s =
     (let res = reg i 16 s + reg i 0 s in
      write_saturated i (SIGNED_OVERFLOW (reg i 16 s) (reg i 0 s) res) res s)"

definition OP_QSUB :: "u32 \<Rightarrow> 'm CORE \<Rightarrow> u32 \<times> 'm CORE" where
  "OP_QSUB i s =
     (let res = reg i 0 s - reg i 16 s in
      write_saturated i (SIGNED_UNDERFLOW (reg i 0 s) (reg i 16 s) res) res s)"

text \<open>Twice the register at bits 16 to 19, saturated.\<close>

definition saturated_double :: "u32 \<Rightarrow> 'm CORE \<Rightarrow> u32 \<times> 'm CORE" where
  "saturated_double i s =
     (let mul = push_bit 1 (reg i 16 s) in
      if BIT31 (reg i 16 s) \<noteq> BIT31 mul then (saturate mul, upd_cpu (put_flag Q_bit True) s) else (mul, s))"

definition OP_QDADD :: "u32 \<Rightarrow> 'm CORE \<Rightarrow> u32 \<times> 'm CORE" where
  "OP_QDADD i s =
     (let (mul, s) = saturated_double i s; res = mul + reg i 0 s in
      write_saturated i (SIGNED_OVERFLOW (reg i 0 s) mul res) res s)"

definition OP_QDSUB :: "u32 \<Rightarrow> 'm CORE \<Rightarrow> u32 \<times> 'm CORE" where
  "OP_QDSUB i s =
     (let (mul, s) = saturated_double i s; res = reg i 0 s - mul in
      write_saturated i (SIGNED_UNDERFLOW (reg i 0 s) mul res) res s)"

section \<open>Multiplication of halves\<close>

definition HWORD :: "u32 \<Rightarrow> int" where "HWORD i = sint (signed_drop_bit 16 i)"
definition LWORD :: "u32 \<Rightarrow> int" where "LWORD i = sint (signed_drop_bit 16 (push_bit 16 i))"

definition set_Q :: "bool \<Rightarrow> 'm CORE \<Rightarrow> 'm CORE" where
  "set_Q b s = (if b then upd_cpu (put_flag Q_bit True) s else s)"

definition OP_SMUL_B_B :: "u32 \<Rightarrow> 'm CORE \<Rightarrow> u32 \<times> 'm CORE" where
  "OP_SMUL_B_B i s = (2, set_reg i 16 (of_int (LWORD (reg i 0 s) * LWORD (reg i 8 s))) s)"

definition OP_SMUL_B_T :: "u32 \<Rightarrow> 'm CORE \<Rightarrow> u32 \<times> 'm CORE" where
  "OP_SMUL_B_T i s = (2, set_reg i 16 (of_int (LWORD (reg i 0 s) * HWORD (reg i 8 s))) s)"

definition OP_SMUL_T_B :: "u32 \<Rightarrow> 'm CORE \<Rightarrow> u32 \<times> 'm CORE" where
  "OP_SMUL_T_B i s = (2, set_reg i 16 (of_int (HWORD (reg i 0 s) * LWORD (reg i 8 s))) s)"

definition OP_SMUL_T_T :: "u32 \<Rightarrow> 'm CORE \<Rightarrow> u32 \<times> 'm CORE" where
  "OP_SMUL_T_T i s = (2, set_reg i 16 (of_int (HWORD (reg i 0 s) * HWORD (reg i 8 s))) s)"

text \<open>
  \<open>OP_SMLA_B_B\<close> tests the overflow with the register at bits 12 to 15 after it has written the
  result, the other three with the value before.
\<close>

definition OP_SMLA_B_B :: "u32 \<Rightarrow> 'm CORE \<Rightarrow> u32 \<times> 'm CORE" where
  "OP_SMLA_B_B i s =
     (let tmp = of_int (sint (ucast (reg i 0 s) :: u16) * sint (ucast (reg i 8 s) :: u16));
          s = set_reg i 16 (tmp + reg i 12 s) s in
      (2, set_Q (OverflowFromADD (reg i 16 s) tmp (reg i 12 s)) s))"

definition OP_SMLA_B_T :: "u32 \<Rightarrow> 'm CORE \<Rightarrow> u32 \<times> 'm CORE" where
  "OP_SMLA_B_T i s =
     (let tmp = of_int (LWORD (reg i 0 s) * HWORD (reg i 8 s)); a = reg i 12 s;
          s = set_reg i 16 (tmp + a) s in
      (2, set_Q (SIGNED_OVERFLOW tmp a (reg i 16 s) \<noteq> 0) s))"

definition OP_SMLA_T_B :: "u32 \<Rightarrow> 'm CORE \<Rightarrow> u32 \<times> 'm CORE" where
  "OP_SMLA_T_B i s =
     (let tmp = of_int (HWORD (reg i 0 s) * LWORD (reg i 8 s)); a = reg i 12 s;
          s = set_reg i 16 (tmp + a) s in
      (2, set_Q (SIGNED_OVERFLOW tmp a (reg i 16 s) \<noteq> 0) s))"

definition OP_SMLA_T_T :: "u32 \<Rightarrow> 'm CORE \<Rightarrow> u32 \<times> 'm CORE" where
  "OP_SMLA_T_T i s =
     (let tmp = of_int (HWORD (reg i 0 s) * HWORD (reg i 8 s)); a = reg i 12 s;
          s = set_reg i 16 (tmp + a) s in
      (2, set_Q (SIGNED_OVERFLOW tmp a (reg i 16 s) \<noteq> 0) s))"

text \<open>
  The accumulation of the four \<open>SMLAL\<close> instructions: the whole 64-bit sum, not its upper half, is
  added to the register for the upper half.
\<close>

definition smlal_half :: "u32 \<Rightarrow> int \<Rightarrow> 'm CORE \<Rightarrow> u32 \<times> 'm CORE" where
  "smlal_half i tmp s =
     (let res = (of_int tmp :: u64) + ucast (reg i 12 s);
          s = set_reg i 12 (ucast res) s in
      (2, set_reg i 16 (ucast ((ucast (reg i 16 s) :: u64) + (res + (if tmp < 0 then 0xFFFFFFFF else 0)))) s))"

definition OP_SMLAL_B_B :: "u32 \<Rightarrow> 'm CORE \<Rightarrow> u32 \<times> 'm CORE" where
  "OP_SMLAL_B_B i s = smlal_half i (LWORD (reg i 0 s) * LWORD (reg i 8 s)) s"

definition OP_SMLAL_B_T :: "u32 \<Rightarrow> 'm CORE \<Rightarrow> u32 \<times> 'm CORE" where
  "OP_SMLAL_B_T i s = smlal_half i (LWORD (reg i 0 s) * HWORD (reg i 8 s)) s"

definition OP_SMLAL_T_B :: "u32 \<Rightarrow> 'm CORE \<Rightarrow> u32 \<times> 'm CORE" where
  "OP_SMLAL_T_B i s = smlal_half i (HWORD (reg i 0 s) * LWORD (reg i 8 s)) s"

definition OP_SMLAL_T_T :: "u32 \<Rightarrow> 'm CORE \<Rightarrow> u32 \<times> 'm CORE" where
  "OP_SMLAL_T_T i s = smlal_half i (HWORD (reg i 0 s) * HWORD (reg i 8 s)) s"

definition OP_SMULW_B :: "u32 \<Rightarrow> 'm CORE \<Rightarrow> u32 \<times> 'm CORE" where
  "OP_SMULW_B i s =
     (let tmp = LWORD (reg i 8 s) * sint (reg i 0 s) in (2, set_reg i 16 (of_int (tmp div 2 ^ 16)) s))"

definition OP_SMULW_T :: "u32 \<Rightarrow> 'm CORE \<Rightarrow> u32 \<times> 'm CORE" where
  "OP_SMULW_T i s =
     (let tmp = HWORD (reg i 8 s) * sint (reg i 0 s) in (2, set_reg i 16 (of_int (tmp div 2 ^ 16)) s))"

definition OP_SMLAW_B :: "u32 \<Rightarrow> 'm CORE \<Rightarrow> u32 \<times> 'm CORE" where
  "OP_SMLAW_B i s =
     (let tmp = (LWORD (reg i 8 s) * sint (reg i 0 s)) div 2 ^ 16; a = reg i 12 s;
          s = set_reg i 16 (of_int tmp + a) s in
      (2, set_Q (SIGNED_OVERFLOW (of_int tmp) a (reg i 16 s) \<noteq> 0) s))"

definition OP_SMLAW_T :: "u32 \<Rightarrow> 'm CORE \<Rightarrow> u32 \<times> 'm CORE" where
  "OP_SMLAW_T i s =
     (let tmp = (HWORD (reg i 8 s) * sint (reg i 0 s)) div 2 ^ 16; a = reg i 12 s;
          s = set_reg i 16 (of_int tmp + a) s in
      (2, set_Q (SIGNED_OVERFLOW (of_int tmp) a (reg i 16 s) \<noteq> 0) s))"

end
