(* ===== verification/ArmExample.thy ===== *)
theory ArmExample
  imports ArmMisc
begin

text \<open>
  A processor and a memory system for the concrete instances: the registers are zero, the mode is the
  system mode, the data TCM is at 0x027C0000 and the bus answers every read with zero, except for one
  instruction in the BIOS.
\<close>

definition example_cpu :: armcpu_t where
  "example_cpu = \<lparr>proc_ID = 0, instruction = 0, instruct_adr = 0x02000000, next_instruction = 0x02000004,
     R = (\<lambda>n. if n = 15 then 0x02000008 else 0), CPSR = 0x1F, SPSR = 0,
     R13_usr = 0, R14_usr = 0, R13_svc = 0, R14_svc = 0, R13_abt = 0, R14_abt = 0, R13_und = 0, R14_und = 0,
     R13_irq = 0, R14_irq = 0, R8_fiq = 0, R9_fiq = 0, R10_fiq = 0, R11_fiq = 0, R12_fiq = 0, R13_fiq = 0,
     R14_fiq = 0, SPSR_svc = 0, SPSR_abt = 0, SPSR_und = 0, SPSR_irq = 0, SPSR_fiq = 0,
     intVector = 0xFFFF0000, LDTBit = True, waitIRQ = False, halt_IE_and_IF = False, intrWaitARM_state = 0,
     stalled = False\<rparr>"

definition with_regs :: "(nat \<Rightarrow> u32) \<Rightarrow> armcpu_t" where
  "with_regs f = example_cpu\<lparr>R := f\<rparr>"

definition core_of :: "armcpu_t \<Rightarrow> 'm \<Rightarrow> 'm CORE" where
  "core_of c m = \<lparr>cpu = c, peer = example_cpu, mmu = m, reschedule = False, execute = True\<rparr>"

definition example_bus :: "unit BUS" where
  "example_bus = \<lparr>bus_read08 = (\<lambda>P a m. (0, m)), bus_read16 = (\<lambda>P a m. (0, m)),
     bus_read32 = (\<lambda>P a m. (if a = 0xFFFF0018 then 0xE25EF004 else 0, m)),
     bus_write08 = (\<lambda>P a v m. m), bus_write16 = (\<lambda>P a v m. m), bus_write32 = (\<lambda>P a v m. m)\<rparr>"

definition example_mmu :: "unit MMU" where
  "example_mmu = SetupMMU False False \<lparr>MAIN_MEM = (\<lambda>_. 0), ARM9_DTCM = (\<lambda>_. 0), ARM9_ITCM = (\<lambda>_. 0),
     ARM7_BIOS = (\<lambda>_. 0), DTCMRegion = 0x027C0000, MAIN_MEM_MASK = 0, MAIN_MEM_MASK16 = 0,
     MAIN_MEM_MASK32 = 0, rest = ()\<rparr>"

definition example_timing :: TIMING where
  "example_timing = \<lparr>arm9codeCache = CacheController_Reset, arm9dataCache = CacheController_Reset,
     codeFetch_lastAddress = (\<lambda>_. - 1), dataFetch_lastAddress = (\<lambda>_. - 1), advanced_timing = True\<rparr>"

definition example_core :: "(unit MMU \<times> TIMING) CORE" where
  "example_core = core_of example_cpu (example_mmu, example_timing)"

lemmas example_defs = example_cpu_def with_regs_def core_of_def example_bus_def example_mmu_def
  example_timing_def example_core_def

end
