(* ===== verification/ArmDataProperties.thy ===== *)
theory ArmDataProperties
  imports ArmLogic ArmCond ArmExample
begin

text \<open>
  The properties of the data-processing instructions and of the conditions.
\<close>

lemma upd_cpu_fields:
  "upd_cpu (\<lambda>p. p\<lparr>CPSR := w\<rparr>) s = s\<lparr>cpu := (cpu s)\<lparr>CPSR := w\<rparr>\<rparr>"
  "upd_cpu (setR n v) s = s\<lparr>cpu := (cpu s)\<lparr>R := (R (cpu s))(n := v)\<rparr>\<rparr>"
  by (simp_all add: upd_cpu_def setR_def)

text \<open>
  C2. The twelve arithmetic instructions with a destination other than the program counter compute an
  addition with carry, subtraction being the addition of the complement: the sum of the unsigned values
  gives the carry, the sum of the signed values the overflow. With the flags they change the four flags and
  no other bit of the status register, without them only the destination.
\<close>
theorem arith_instruction:
  fixes s :: "'m CORE"
  assumes "REG_POS i 12 \<noteq> 15"
    and "arith_ref k (Rn i s) (fst (barrel m i (cpu s))) (flag C_bit (cpu s)) = (r, c, v)"
  shows "(\<exists>w. arith_S_fn k m i s =
        (cyc m 1, s\<lparr>cpu := (cpu s)\<lparr>R := (R (cpu s))(REG_POS i 12 := r), CPSR := w\<rparr>\<rparr>) \<and>
      (\<forall>n<32. bit w n = (if n = 31 then sint r < 0 else if n = 30 then r = 0 else if n = 29 then c
         else if n = 28 then v else bit (CPSR (cpu s)) n))) \<and>
    arith_fn k m i s = (cyc m 1, s\<lparr>cpu := (cpu s)\<lparr>R := (R (cpu s))(REG_POS i 12 := r)\<rparr>\<rparr>)"
proof (intro conjI exI [of _ "nzcv r c v (CPSR (cpu s))"])
  have ref: "arith_ref k (Rn i s) (shift_op m i (cpu s)) (flag C_bit (cpu s)) = (r, c, v)"
    using assms(2) by (simp add: shift_barrel S_shift_barrel)
  show "arith_S_fn k m i s = (cyc m 1, s\<lparr>cpu := (cpu s)\<lparr>R := (R (cpu s))(REG_POS i 12 := r),
      CPSR := nzcv r c v (CPSR (cpu s))\<rparr>\<rparr>)"
    by (simp add: arith_S_state [OF assms(1) ref] put_NZCV_nzcv upd_cpu_def setR_def)
  show "arith_fn k m i s = (cyc m 1, s\<lparr>cpu := (cpu s)\<lparr>R := (R (cpu s))(REG_POS i 12 := r)\<rparr>\<rparr>)"
    by (simp add: arith_state_plain [OF assms(1)] ref upd_cpu_fields)
qed (simp add: nzcv_bit)

text \<open>\<open>ADDS R0, R1, R2\<close> of 0x7FFFFFFF and 1 overflows.\<close>

theorem arith_instruction_witness:
  "\<exists>w. arith_S_fn ADD LSL_IMM 0xE0910002 (core_of (with_regs ((\<lambda>_. 1)(1 := 0x7FFFFFFF))) ()) =
     (1, core_of ((with_regs ((\<lambda>_. 1)(1 := 0x7FFFFFFF, 0 := 0x80000000)))\<lparr>CPSR := w\<rparr>) ()) \<and> bit w 31 \<and> bit w 28"
proof -
  let ?s = "core_of (with_regs ((\<lambda>_. 1)(1 := 0x7FFFFFFF))) ()"
  have "REG_POS 0xE0910002 12 \<noteq> 15" by (simp add: REG_POS_def)
  moreover have "arith_ref ADD (Rn 0xE0910002 ?s) (fst (barrel LSL_IMM 0xE0910002 (cpu ?s))) (flag C_bit (cpu ?s)) =
      (0x80000000, False, True)"
    by (simp add: arith_ref_def add_with_carry_def Rn_def barrel_def REG_POS_def example_defs lsl_ref_def shift_imm_def)
  ultimately show ?thesis
    using arith_instruction [of "0xE0910002" ADD ?s LSL_IMM "0x80000000" False True]
    by (auto simp: cyc_def by_reg_def example_defs REG_POS_def)
qed


text \<open>
  The twelve logical instructions with a destination other than the program counter compute the bitwise
  operation of the register and the operand of the barrel shifter. With the flags, the carry is the one
  of the shifter and the overflow flag is kept. The two forms of \<open>MOV\<close> that read the program counter shifted
  by a register are excluded: they add 4 to it.
\<close>
theorem logic_instruction:
  fixes s :: "'m CORE"
  assumes "REG_POS i 12 \<noteq> 15" "\<not> mov_pc_form k m i"
    and "barrel m i (cpu s) = (x, c)" "logic_ref k (Rn i s) x = r"
  shows "(\<exists>w. logic_S_fn k m i s =
        (cyc m 1, s\<lparr>cpu := (cpu s)\<lparr>R := (R (cpu s))(REG_POS i 12 := r), CPSR := w\<rparr>\<rparr>) \<and>
      (\<forall>n<32. bit w n = (if n = 31 then sint r < 0 else if n = 30 then r = 0 else if n = 29 then c
         else bit (CPSR (cpu s)) n))) \<and>
    logic_fn k m i s = (cyc m 1, s\<lparr>cpu := (cpu s)\<lparr>R := (R (cpu s))(REG_POS i 12 := r)\<rparr>\<rparr>)"
proof (intro conjI exI [of _ "nzcv r c (bit (CPSR (cpu s)) 28) (CPSR (cpu s))"])
  show "logic_S_fn k m i s = (cyc m 1, s\<lparr>cpu := (cpu s)\<lparr>R := (R (cpu s))(REG_POS i 12 := r),
      CPSR := nzcv r c (bit (CPSR (cpu s)) 28) (CPSR (cpu s))\<rparr>\<rparr>)"
    by (simp add: logic_S_state [OF assms(1-3)] assms(4) put_NZC_eq put_NZCV_nzcv upd_cpu_def setR_def
        flag_def flag_defs)
  show "logic_fn k m i s = (cyc m 1, s\<lparr>cpu := (cpu s)\<lparr>R := (R (cpu s))(REG_POS i 12 := r)\<rparr>\<rparr>)"
    by (simp add: logic_state [OF assms(1,2)] shift_barrel S_shift_barrel assms(3,4) upd_cpu_fields)
qed (simp add: nzcv_bit)

text \<open>\<open>MOVS R0, R1, LSR #1\<close> of 3 shifts a one into the carry.\<close>

theorem logic_instruction_witness:
  "\<exists>w. logic_S_fn L_MOV LSR_IMM 0xE1B000A1 (core_of (with_regs (\<lambda>_. 3)) ()) =
     (1, core_of ((with_regs ((\<lambda>_. 3)(0 := 1)))\<lparr>CPSR := w\<rparr>) ()) \<and> bit w 29"
proof -
  let ?s = "core_of (with_regs (\<lambda>_. 3)) ()"
  have "REG_POS 0xE1B000A1 12 \<noteq> 15" by (simp add: REG_POS_def)
  moreover have "\<not> mov_pc_form L_MOV LSR_IMM 0xE1B000A1" by (simp add: mov_pc_form_def)
  moreover have "barrel LSR_IMM 0xE1B000A1 (cpu ?s) = (1, True)"
    by (simp add: barrel_def REG_POS_def example_defs lsr_ref_def shift_imm_def)
  moreover have "logic_ref L_MOV (Rn 0xE1B000A1 ?s) 1 = 1" by (simp add: logic_ref_def)
  ultimately show ?thesis
    using logic_instruction [of "0xE1B000A1" L_MOV LSR_IMM ?s 1 True 1]
    by (auto simp: cyc_def by_reg_def example_defs REG_POS_def)
qed

text \<open>
  The four comparisons change the flags only: \<open>TST\<close> and \<open>TEQ\<close> to the sign and zero of the
  conjunction and of the difference of the bits with the carry of the shifter, \<open>CMP\<close> and \<open>CMN\<close> to the flags
  of the subtraction and of the addition.
\<close>
theorem compare_instruction:
  fixes s :: "'m CORE"
  assumes "barrel m i (cpu s) = (x, c)"
    and "add_with_carry (Rn i s) (NOT x) True = (d, dc, dv)"
    and "add_with_carry (Rn i s) x False = (a, ac, av)"
  shows "TST_fn m i s = (cyc m 1, s\<lparr>cpu := put_NZC (Rn i s AND x) c (cpu s)\<rparr>) \<and>
    TEQ_fn m i s = (cyc m 1, s\<lparr>cpu := put_NZC (Rn i s XOR x) c (cpu s)\<rparr>) \<and>
    CMP_fn m i s = (cyc m 1, s\<lparr>cpu := put_NZCV d dc dv (cpu s)\<rparr>) \<and>
    CMN_fn m i s = (cyc m 1, s\<lparr>cpu := put_NZCV a ac av (cpu s)\<rparr>)"
proof -
  have x: "shift_op m i (cpu s) = x" using assms(1) by (simp add: shift_barrel S_shift_barrel)
  show ?thesis
    using TST_state [OF assms(1)] TEQ_state [OF assms(1)] CMP_state [of i s m d dc dv]
      CMN_state [of i s m a ac av] assms(2,3)
    by (simp add: x upd_cpu_def)
qed

theorem compare_instruction_witness:
  "CMP_fn IMM_VALUE 0xE3510005 (core_of (with_regs (\<lambda>_. 4)) ()) =
    (1, core_of (put_NZCV (- 1) False False (with_regs (\<lambda>_. 4))) ())"
proof -
  let ?s = "core_of (with_regs (\<lambda>_. 4)) ()"
  have r: "Rn 0xE3510005 ?s = 4" by (simp add: Rn_def REG_POS_def example_defs)
  have "barrel IMM_VALUE 0xE3510005 (cpu ?s) = (5, False)"
    by (simp add: barrel_def example_defs ror_ref_def flag_def flag_defs)
  moreover have "add_with_carry 4 (NOT 5) True = (- 1, False, False)" by code_simp
  moreover have "add_with_carry 4 5 False = (9, False, False)" by (simp add: add_with_carry_def)
  ultimately show ?thesis
    using compare_instruction [of IMM_VALUE "0xE3510005" ?s 5 False "- 1" False False 9 False False] r
    by (simp add: cyc_def by_reg_def core_of_def)
qed

text \<open>
  C18. The operand macros are the barrel shifter of the architecture, for all nine forms and every amount:
  multiplication or division by a power of two, or rotation, with the last bit shifted out as carry.
\<close>
theorem barrel_shifter:
  "S_shift_op m i c = barrel m i c \<and> shift_op m i c = fst (barrel m i c)"
  by (simp add: S_shift_barrel shift_barrel)

text \<open>
  C19. The table of conditions is right: an instruction is executed when its condition holds of the
  flags, and the condition 15 is reserved for the branches of code 5.
\<close>
theorem condition_codes:
  "TEST_COND (CONDITION i) (CODE i) psr \<longleftrightarrow>
    (if CONDITION i = 15 then CODE i = 5 else cond_holds (CONDITION i) psr)"
  by (rule TEST_COND_flags [OF CONDITION_4 CODE_8])

end
