(* ===== verification/ArmMode.thy ===== *)
theory ArmMode
  imports ArmExec ArmShift
begin

text \<open>
  The banked registers. \<open>banked m n\<close> is register \<open>n\<close> of mode \<open>m\<close> wherever the processor keeps it at the
  moment, and \<open>saved_psr m\<close> the saved status register of the mode: the state of the architecture, which
  a change of mode leaves as it is.
\<close>

section \<open>Registers of a mode\<close>

definition valid_mode :: "u32 \<Rightarrow> bool" where
  "valid_mode m = (m \<in> {USR, FIQ, IRQ, SVC, ABT, UND, SYS})"

text \<open>User and system mode share their registers.\<close>

definition bank :: "u32 \<Rightarrow> u32" where
  "bank m = (if m = SYS then USR else m)"

definition bank13 :: "u32 \<Rightarrow> armcpu_t \<Rightarrow> u32" where
  "bank13 b c = (if b = USR then R13_usr c else if b = FIQ then R13_fiq c else if b = IRQ then R13_irq c
     else if b = SVC then R13_svc c else if b = ABT then R13_abt c else R13_und c)"

definition bank14 :: "u32 \<Rightarrow> armcpu_t \<Rightarrow> u32" where
  "bank14 b c = (if b = USR then R14_usr c else if b = FIQ then R14_fiq c else if b = IRQ then R14_irq c
     else if b = SVC then R14_svc c else if b = ABT then R14_abt c else R14_und c)"

definition bank_psr :: "u32 \<Rightarrow> armcpu_t \<Rightarrow> u32" where
  "bank_psr b c = (if b = FIQ then SPSR_fiq c else if b = IRQ then SPSR_irq c
     else if b = SVC then SPSR_svc c else if b = ABT then SPSR_abt c else SPSR_und c)"

definition bank_fiq :: "nat \<Rightarrow> armcpu_t \<Rightarrow> u32" where
  "bank_fiq n c = (if n = 8 then R8_fiq c else if n = 9 then R9_fiq c else if n = 10 then R10_fiq c
     else if n = 11 then R11_fiq c else R12_fiq c)"

definition cur_mode :: "armcpu_t \<Rightarrow> u32" where
  "cur_mode c = psr_mode (CPSR c)"

definition banked :: "u32 \<Rightarrow> nat \<Rightarrow> armcpu_t \<Rightarrow> u32" where
  "banked m n c =
     (if n \<in> {8..12} then (if (m = FIQ) = (cur_mode c = FIQ) then R c n else bank_fiq n c)
      else if n = 13 then (if bank m = bank (cur_mode c) then R c 13 else bank13 (bank m) c)
      else if n = 14 then (if bank m = bank (cur_mode c) then R c 14 else bank14 (bank m) c)
      else R c n)"

definition saved_psr :: "u32 \<Rightarrow> armcpu_t \<Rightarrow> u32" where
  "saved_psr m c = (if m = cur_mode c then SPSR c else bank_psr m c)"

section \<open>Changing the mode\<close>

lemma mode_numbers:
  "USR \<noteq> FIQ" "USR \<noteq> IRQ" "USR \<noteq> SVC" "USR \<noteq> ABT" "USR \<noteq> UND" "USR \<noteq> SYS"
  "FIQ \<noteq> IRQ" "FIQ \<noteq> SVC" "FIQ \<noteq> ABT" "FIQ \<noteq> UND" "FIQ \<noteq> SYS" "IRQ \<noteq> SVC" "IRQ \<noteq> ABT"
  "IRQ \<noteq> UND" "IRQ \<noteq> SYS" "SVC \<noteq> ABT" "SVC \<noteq> UND" "SVC \<noteq> SYS" "ABT \<noteq> UND" "ABT \<noteq> SYS" "UND \<noteq> SYS"
  by (simp_all add: mode_defs)

lemmas mode_neq = mode_numbers mode_numbers [symmetric]

lemma valid_modeE:
  assumes "valid_mode m"
  obtains "m = USR" | "m = FIQ" | "m = IRQ" | "m = SVC" | "m = ABT" | "m = UND" | "m = SYS"
  using assms by (auto simp: valid_mode_def)

lemma mode_5: "valid_mode m \<Longrightarrow> m AND 0x1F = m"
  by (auto simp: valid_mode_def mode_defs)

lemma psr_mode_put_mode: "psr_mode (put_mode v w) = v AND 0x1F"
  by (rule bit_word_eqI) (auto simp: psr_mode_def put_mode_def bit_simps)

lemma put_mode_rest: "put_mode v w AND NOT 0x1F = w AND NOT 0x1F"
  by (rule bit_word_eqI) (auto simp: put_mode_def bit_simps)

lemma mask_1F: "(0x1F :: u32) = mask 5"
  by (simp add: mask_eq_exp_minus_1)

lemma put_mode_bit: "5 \<le> n \<Longrightarrow> bit (put_mode v w) n = bit w n"
  unfolding put_mode_def mask_1F by (auto simp: bit_simps dest: bit_lt)

lemma cur_mode_switch: "valid_mode m \<Longrightarrow> cur_mode (switch_cpu m c) = m"
  by (simp add: cur_mode_def switch_cpu_def psr_mode_put_mode Let_def mode_5)

text \<open>The two halves of the change, for the bank of one mode.\<close>

lemmas bank_defs = save_bank_def load_bank_def swap_fiq_def Let_def bank13_def bank14_def bank_psr_def
  bank_fiq_def bank_def mode_neq

lemma switch_R:
  assumes "valid_mode m" "valid_mode (cur_mode c)"
  shows "R (switch_cpu m c) n = banked m n c"
  using assms(2,1)
  by (elim valid_modeE) (simp_all add: switch_cpu_def banked_def bank_defs cur_mode_def)

text \<open>What the two \<open>switch\<close> statements do to the banks.\<close>

lemma load_banks:
  "bank13 b (load_bank m c) = bank13 b c" "bank14 b (load_bank m c) = bank14 b c"
  "bank_psr b (load_bank m c) = bank_psr b c" "CPSR (load_bank m c) = CPSR c"
  by (simp_all add: bank_defs)

lemma load_bank_fiq:
  "n \<in> {8..12} \<Longrightarrow> bank_fiq n (load_bank m c) = (if m = FIQ then R c n else bank_fiq n c)"
  by (auto simp: bank_defs numeral_eq_Suc le_Suc_eq)

lemma save_bank13:
  "valid_mode (bank b) \<Longrightarrow> valid_mode m \<Longrightarrow>
    bank13 (bank b) (save_bank m c) = (if bank b = bank m then R c 13 else bank13 (bank b) c)"
  by (elim valid_modeE) (simp_all add: bank_defs split: if_splits)

lemma save_bank14:
  "valid_mode (bank b) \<Longrightarrow> valid_mode m \<Longrightarrow>
    bank14 (bank b) (save_bank m c) = (if bank b = bank m then R c 14 else bank14 (bank b) c)"
  by (elim valid_modeE) (simp_all add: bank_defs split: if_splits)

definition has_spsr :: "u32 \<Rightarrow> bool" where
  "has_spsr m = (valid_mode m \<and> m \<noteq> USR \<and> m \<noteq> SYS)"

lemma save_bank_psr:
  "has_spsr b \<Longrightarrow> valid_mode m \<Longrightarrow>
    bank_psr b (save_bank m c) = (if b = m then SPSR c else bank_psr b c)"
  by (elim valid_modeE) (auto simp: has_spsr_def valid_mode_def bank_defs)

lemma save_bank_fiq:
  "n \<in> {8..12} \<Longrightarrow> bank_fiq n (save_bank m c) = (if m = FIQ then R c n else bank_fiq n c)"
  by (auto simp: bank_defs numeral_eq_Suc le_Suc_eq)

lemma save_R_fiq:
  "n \<in> {8..12} \<Longrightarrow> R (save_bank m c) n = (if m = FIQ then bank_fiq n c else R c n)"
  by (auto simp: bank_defs numeral_eq_Suc le_Suc_eq)

section \<open>A change of mode keeps the registers of all modes\<close>

lemma bank_CPSR:
  "bank13 b (c\<lparr>CPSR := w\<rparr>) = bank13 b c" "bank14 b (c\<lparr>CPSR := w\<rparr>) = bank14 b c"
  "bank_psr b (c\<lparr>CPSR := w\<rparr>) = bank_psr b c" "bank_fiq n (c\<lparr>CPSR := w\<rparr>) = bank_fiq n c"
  by (simp_all add: bank13_def bank14_def bank_psr_def bank_fiq_def)

lemma switch_cpu_eq:
  "switch_cpu m c = (load_bank m (save_bank (cur_mode c) c))\<lparr>CPSR := CPSR (switch_cpu m c)\<rparr>"
  by (simp add: switch_cpu_def Let_def cur_mode_def)

lemma valid_bank: "valid_mode m \<Longrightarrow> valid_mode (bank m)"
  by (auto simp: valid_mode_def bank_def)

lemma switch_bank13:
  "valid_mode k \<Longrightarrow> valid_mode (cur_mode c) \<Longrightarrow>
    bank13 (bank k) (switch_cpu m c) = (if bank k = bank (cur_mode c) then R c 13 else bank13 (bank k) c)"
  by (subst switch_cpu_eq) (simp add: bank_CPSR load_banks save_bank13 valid_bank)

lemma switch_bank14:
  "valid_mode k \<Longrightarrow> valid_mode (cur_mode c) \<Longrightarrow>
    bank14 (bank k) (switch_cpu m c) = (if bank k = bank (cur_mode c) then R c 14 else bank14 (bank k) c)"
  by (subst switch_cpu_eq) (simp add: bank_CPSR load_banks save_bank14 valid_bank)

lemma switch_bank_psr:
  "has_spsr k \<Longrightarrow> valid_mode (cur_mode c) \<Longrightarrow>
    bank_psr k (switch_cpu m c) = (if k = cur_mode c then SPSR c else bank_psr k c)"
  by (subst switch_cpu_eq) (simp add: bank_CPSR load_banks save_bank_psr)

lemma switch_bank_fiq:
  "n \<in> {8..12} \<Longrightarrow> bank_fiq n (switch_cpu m c) =
    (if (m = FIQ) = (cur_mode c = FIQ) then bank_fiq n c else R c n)"
  by (subst switch_cpu_eq) (simp add: bank_CPSR load_bank_fiq save_bank_fiq save_R_fiq del: atLeastAtMost_iff)

lemma switch_banked:
  assumes k: "valid_mode k" and m: "valid_mode m" and c: "valid_mode (cur_mode c)"
  shows "banked k n (switch_cpu m c) = banked k n c"
proof -
  have b: "bank k = bank m \<Longrightarrow> n \<in> {13, 14} \<Longrightarrow> banked m n c = banked k n c"
    "(k = FIQ) = (m = FIQ) \<Longrightarrow> n \<in> {8..12} \<Longrightarrow> banked m n c = banked k n c" for n
    by (auto simp: banked_def)
  consider "n \<in> {8..12}" | "n = 13" | "n = 14" | "n \<notin> {8..12}" "n \<noteq> 13" "n \<noteq> 14" by blast
  then show ?thesis
  proof cases
    case 1
    show ?thesis
    proof (cases "(k = FIQ) = (m = FIQ)")
      case True
      then have "banked k n (switch_cpu m c) = R (switch_cpu m c) n"
        using 1 by (simp add: banked_def cur_mode_switch m)
      then show ?thesis using b(2) [OF True 1] by (simp add: switch_R m c)
    next
      case False
      then have "banked k n (switch_cpu m c) = bank_fiq n (switch_cpu m c)"
        using 1 by (simp add: banked_def cur_mode_switch m)
      then show ?thesis using False 1 by (auto simp: switch_bank_fiq banked_def)
    qed
  next
    case 2
    then show ?thesis using b(1) [of 13]
      by (cases "bank k = bank m")
        (simp_all add: banked_def [of k _ "switch_cpu m c"] cur_mode_switch switch_R switch_bank13 k m c,
          simp add: banked_def)
  next
    case 3
    then show ?thesis using b(1) [of 14]
      by (cases "bank k = bank m")
        (simp_all add: banked_def [of k _ "switch_cpu m c"] cur_mode_switch switch_R switch_bank14 k m c,
          simp add: banked_def)
  next
    case 4
    then have "banked j n d = R d n" for j d by (simp add: banked_def del: atLeastAtMost_iff)
    then show ?thesis using switch_R [OF m c, of n] by simp
  qed
qed

lemma load_bank_spsr: "has_spsr m \<Longrightarrow> SPSR (load_bank m c) = bank_psr m c"
  by (auto simp: has_spsr_def bank_defs elim!: valid_modeE)

lemma switch_SPSR:
  "has_spsr m \<Longrightarrow> valid_mode (cur_mode c) \<Longrightarrow> SPSR (switch_cpu m c) = saved_psr m c"
  by (subst switch_cpu_eq) (simp add: load_bank_spsr save_bank_psr saved_psr_def)

lemma switch_saved:
  "has_spsr k \<Longrightarrow> valid_mode m \<Longrightarrow> valid_mode (cur_mode c) \<Longrightarrow> saved_psr k (switch_cpu m c) = saved_psr k c"
  by (auto simp: saved_psr_def [of k "switch_cpu m c"] cur_mode_switch switch_SPSR switch_bank_psr)
    (auto simp: saved_psr_def)

lemma switch_CPSR: "valid_mode m \<Longrightarrow> CPSR (switch_cpu m c) = put_mode m (CPSR c)"
proof -
  have "CPSR (save_bank k c) = CPSR c" for k by (simp add: save_bank_def swap_fiq_def Let_def)
  then show "valid_mode m \<Longrightarrow> ?thesis"
    by (simp add: switch_cpu_def Let_def load_banks mode_5)
qed

text \<open>The rest of the processor.\<close>

lemma switch_other:
  "instruct_adr (switch_cpu m c) = instruct_adr c" "next_instruction (switch_cpu m c) = next_instruction c"
  "instruction (switch_cpu m c) = instruction c" "proc_ID (switch_cpu m c) = proc_ID c"
  "intVector (switch_cpu m c) = intVector c" "waitIRQ (switch_cpu m c) = waitIRQ c"
  by (simp_all add: switch_cpu_def load_bank_def save_bank_def swap_fiq_def Let_def)


end
