(* ===== verification/ArmPipe.thy ===== *)
theory ArmPipe
  imports ArmMode ArmMisc ArmArith
begin

text \<open>
  The pipeline of a processor: between two instructions the next one is prefetched, and the program
  counter is two instructions ahead of it. \<open>arm_step\<close> are the steps of a processor as the program takes
  them, one instruction or an interrupt (\<^verbatim>\<open>NDSSystem.cpp\<close>), and \<open>pipeline\<close> is the invariant. The
  last section follows an interrupt and the return from it.
\<close>

section \<open>Interrupts\<close>

text \<open>
  \<open>execHardware_interrupts_core\<close>. The pending and enabled interrupts and the master enable are read
  from the memory system; they are arguments here.
\<close>

definition execHardware_interrupts_core :: "'m MEM \<Rightarrow> u32 \<Rightarrow> u32 \<Rightarrow> u32 \<Rightarrow> 'm CORE \<Rightarrow> 'm CORE" where
  "execHardware_interrupts_core M IF IE IME s =
     (let masked = IF AND IE;
          s = (if halt_IE_and_IF (cpu s) \<and> masked \<noteq> 0
               then upd_cpu (\<lambda>c. c\<lparr>halt_IE_and_IF := False, waitIRQ := False\<rparr>) s else s) in
      if masked \<noteq> 0 \<and> IME \<noteq> 0 \<and> \<not> flag I_bit (cpu s) then armcpu_irqException M s else s)"

section \<open>The invariant of the pipeline\<close>

definition instr_size :: "armcpu_t \<Rightarrow> u32" where
  "instr_size c = (if flag T_bit c then 2 else 4)"

definition pipeline :: "'m CORE \<Rightarrow> bool" where
  "pipeline s =
     (let c = cpu s in
      instruct_adr c AND (instr_size c - 1) = 0 \<and>
      next_instruction c = instruct_adr c + instr_size c \<and>
      R c 15 = instruct_adr c + 2 * instr_size c)"

text \<open>The steps: a reset, an instruction and the test for interrupts.\<close>

inductive arm_step ::
  "'m MEM \<Rightarrow> (u32 \<Rightarrow> 'm op) \<Rightarrow> (u32 \<Rightarrow> 'm op) \<Rightarrow> 'm CORE \<Rightarrow> 'm CORE \<Rightarrow> bool"
  for M arm_set thumb_set where
  reset: "arm_step M arm_set thumb_set s (armcpu_init M adr s)"
| instr: "arm_step M arm_set thumb_set s (snd (armcpu_exec M arm_set thumb_set s))"
| interrupt: "arm_step M arm_set thumb_set s (execHardware_interrupts_core M IF IE IME s)"

inductive_simps arm_step_simps: "arm_step M arm_set thumb_set s s'"

inductive arm_reachable ::
  "'m MEM \<Rightarrow> (u32 \<Rightarrow> 'm op) \<Rightarrow> (u32 \<Rightarrow> 'm op) \<Rightarrow> 'm CORE \<Rightarrow> bool"
  for M arm_set thumb_set where
  power_on: "arm_reachable M arm_set thumb_set (armcpu_new M ident s)"
| step: "arm_reachable M arm_set thumb_set s \<Longrightarrow> arm_step M arm_set thumb_set s s' \<Longrightarrow>
    arm_reachable M arm_set thumb_set s'"

lemma aligned: "(x AND 0xFFFFFFFC) AND 3 = (0 :: u32)" "(x AND 0xFFFFFFFE) AND 1 = (0 :: u32)"
  by (simp_all add: and.assoc)

text \<open>What a prefetch does to the processor.\<close>

lemma prefetch_arm_cpu:
  "cpu (snd (prefetch_arm M s)) =
    (let a = next_instruction (cpu s) AND 0xFFFFFFFC in
     (setR 15 (a + 8) (cpu s))\<lparr>instruct_adr := a, next_instruction := a + 4,
       instruction := fst (rd32 M (proc_ID (cpu s)) MMU_AT_CODE a (mmu s))\<rparr>)"
  by (simp add: prefetch_arm_def Let_def split_beta setR_def)

lemma prefetch_thumb_cpu:
  "cpu (snd (prefetch_thumb M s)) =
    (let a = next_instruction (cpu s) AND 0xFFFFFFFE in
     (setR 15 (a + 4) (cpu s))\<lparr>instruct_adr := a, next_instruction := a + 2,
       instruction := ucast (fst (rd16 M (proc_ID (cpu s)) MMU_AT_CODE a (mmu s)))\<rparr>)"
  by (simp add: prefetch_thumb_def Let_def split_beta setR_def)

lemma prefetch_peer:
  "peer (snd (armcpu_prefetch M s)) = peer s"
  by (simp add: armcpu_prefetch_def prefetch_arm_def prefetch_thumb_def Let_def split_beta upd_cpu_def)

lemmas prefetch_cpu = armcpu_prefetch_def prefetch_arm_cpu prefetch_thumb_cpu

lemma prefetch_pipeline: "pipeline (snd (armcpu_prefetch M s))"
  by (auto simp: pipeline_def prefetch_cpu Let_def instr_size_def flag_def setR_def aligned)

lemma irq_pipeline: "pipeline (armcpu_irqException M s)"
  by (simp add: armcpu_irqException_def Let_def split_beta prefetch_pipeline)

lemma pipeline_upd:
  "pipeline (upd_cpu (\<lambda>c. c\<lparr>halt_IE_and_IF := b, waitIRQ := w\<rparr>) s) = pipeline s"
  by (simp add: pipeline_def instr_size_def flag_def Let_def)

lemma interrupts_pipeline: "pipeline s \<Longrightarrow> pipeline (execHardware_interrupts_core M IF IE IME s)"
  by (simp add: execHardware_interrupts_core_def Let_def irq_pipeline pipeline_upd)

lemma exec_pipeline: "pipeline (snd (armcpu_exec M arm_set thumb_set s))"
  by (simp add: armcpu_exec_def Let_def split_beta prefetch_pipeline)

lemma init_pipeline: "pipeline (armcpu_init M adr s)"
  by (simp add: armcpu_init_def prefetch_pipeline)

lemma step_pipeline: "arm_step M A T s s' \<Longrightarrow> pipeline s \<Longrightarrow> pipeline s'"
  by (auto simp: arm_step_simps init_pipeline exec_pipeline interrupts_pipeline)

section \<open>An interrupt and the return from it\<close>

text \<open>Changes of the processor that keep the registers of the modes.\<close>

lemmas banked_unfold = banked_def bank13_def bank14_def bank_fiq_def cur_mode_def

text \<open>
  Register \<open>n\<close> of mode \<open>k\<close> is the visible one in mode \<open>m\<close>.
\<close>

definition shared :: "u32 \<Rightarrow> u32 \<Rightarrow> nat \<Rightarrow> bool" where
  "shared k m n = (if n \<in> {8..12} then (k = FIQ) = (m = FIQ) else n \<in> {13, 14} \<longrightarrow> bank k = bank m)"

lemma banked_R:
  "banked k n (c\<lparr>R := f\<rparr>) = (if shared k (cur_mode c) n then f n else banked k n c)"
  by (auto simp: banked_unfold shared_def)

lemma banked_shared: "shared k (cur_mode c) n \<Longrightarrow> banked k n c = R c n"
  by (auto simp: banked_unfold shared_def)

lemma banked_upd [simp]:
  "banked k n (c\<lparr>SPSR := w\<rparr>) = banked k n c"
  "banked k n (c\<lparr>next_instruction := a\<rparr>) = banked k n c"
  "banked k n (c\<lparr>instruct_adr := a\<rparr>) = banked k n c"
  "banked k n (c\<lparr>instruction := v\<rparr>) = banked k n c"
  "banked k n (c\<lparr>waitIRQ := b\<rparr>) = banked k n c"
  by (simp_all add: banked_unfold)

lemma banked_setR:
  assumes "13 \<le> m"
  shows "banked k n (setR m v c) =
    (if n = m \<and> (15 \<le> n \<or> bank k = bank (cur_mode c)) then v else banked k n c)"
proof (cases "n = m")
  case True
  then show ?thesis using assms by (auto simp: setR_def banked_R shared_def)
next
  case False
  then show ?thesis by (simp add: setR_def banked_R banked_shared)
qed

lemma psr_mode_put_bit: "5 \<le> n \<Longrightarrow> psr_mode (put_bit n b w) = psr_mode w"
  unfolding psr_mode_def mask_1F put_bit_def by (rule bit_word_eqI) (auto simp: bit_simps)

lemma cur_mode_put_flag: "5 \<le> n \<Longrightarrow> cur_mode (put_flag n b c) = cur_mode c"
  by (simp add: cur_mode_def put_flag_def psr_mode_put_bit)

lemma banked_put_flag: "5 \<le> j \<Longrightarrow> banked k n (put_flag j b c) = banked k n c"
  by (simp add: banked_unfold put_flag_def psr_mode_put_bit)

lemma saved_upd [simp]:
  "saved_psr k (c\<lparr>next_instruction := a\<rparr>) = saved_psr k c"
  "saved_psr k (c\<lparr>instruct_adr := a\<rparr>) = saved_psr k c"
  "saved_psr k (c\<lparr>instruction := v\<rparr>) = saved_psr k c"
  "saved_psr k (c\<lparr>waitIRQ := b\<rparr>) = saved_psr k c"
  "saved_psr k (setR n v c) = saved_psr k c"
  by (simp_all add: saved_psr_def bank_psr_def cur_mode_def setR_def)

lemma saved_SPSR: "saved_psr k (c\<lparr>SPSR := w\<rparr>) = (if k = cur_mode c then w else saved_psr k c)"
  by (simp add: saved_psr_def bank_psr_def cur_mode_def)

lemma saved_put_flag: "5 \<le> j \<Longrightarrow> saved_psr k (put_flag j b c) = saved_psr k c"
  by (simp add: saved_psr_def bank_psr_def cur_mode_def put_flag_def psr_mode_put_bit)

lemma cur_mode_upd [simp]:
  "cur_mode (c\<lparr>SPSR := w\<rparr>) = cur_mode c" "cur_mode (c\<lparr>next_instruction := a\<rparr>) = cur_mode c"
  "cur_mode (c\<lparr>instruct_adr := a\<rparr>) = cur_mode c" "cur_mode (c\<lparr>instruction := v\<rparr>) = cur_mode c"
  "cur_mode (c\<lparr>waitIRQ := b\<rparr>) = cur_mode c" "cur_mode (setR n v c) = cur_mode c"
  by (simp_all add: cur_mode_def setR_def)

lemma flag_put_flag: "n < 32 \<Longrightarrow> flag n (put_flag m b c) = (if n = m then b else flag n c)"
  by (simp add: flag_def put_flag_def flag_put_bit)

lemma flag_upd [simp]:
  "flag j (c\<lparr>SPSR := w\<rparr>) = flag j c" "flag j (c\<lparr>next_instruction := a\<rparr>) = flag j c"
  "flag j (c\<lparr>instruct_adr := a\<rparr>) = flag j c" "flag j (c\<lparr>instruction := v\<rparr>) = flag j c"
  "flag j (c\<lparr>waitIRQ := b\<rparr>) = flag j c" "flag j (setR n v c) = flag j c"
  by (simp_all add: flag_def setR_def)

text \<open>The processor an interrupt leaves, before the prefetch.\<close>

definition irq_cpu :: "armcpu_t \<Rightarrow> armcpu_t" where
  "irq_cpu c = (put_flag I_bit True (put_flag T_bit False
     ((setR 14 (instruct_adr c + 4) (switch_cpu IRQ c))\<lparr>SPSR := CPSR c\<rparr>)))
       \<lparr>next_instruction := intVector c + 0x18, waitIRQ := False\<rparr>"

lemma irq_exception_eq:
  "armcpu_irqException M s =
    snd (armcpu_prefetch M (s\<lparr>reschedule := True, cpu := irq_cpu (cpu s)\<rparr>))"
  by (simp add: armcpu_irqException_def armcpu_switchMode_def irq_cpu_def upd_cpu_def changeCPSR_def
      NDS_Reschedule_def switch_other put_flag_def setR_def Let_def)

lemma valid_IRQ: "valid_mode IRQ" "has_spsr IRQ"
  by (simp_all add: has_spsr_def valid_mode_def mode_neq)

lemma irq_cpu_mode: "cur_mode (irq_cpu c) = IRQ"
  by (simp add: irq_cpu_def cur_mode_put_flag cur_mode_switch valid_IRQ flag_defs)

lemma irq_cpu_banked:
  assumes "valid_mode (cur_mode c)" "valid_mode k"
  shows "banked k n (irq_cpu c) = (if n = 14 \<and> k = IRQ then instruct_adr c + 4 else banked k n c)"
  using assms
  by (simp add: irq_cpu_def banked_put_flag banked_setR switch_banked cur_mode_switch valid_IRQ flag_defs)
    (auto simp: bank_def mode_neq)

lemma irq_cpu_saved:
  assumes "valid_mode (cur_mode c)" "has_spsr k"
  shows "saved_psr k (irq_cpu c) = (if k = IRQ then CPSR c else saved_psr k c)"
  using assms
  by (simp add: irq_cpu_def saved_put_flag saved_SPSR switch_saved cur_mode_switch valid_IRQ flag_defs)

lemma irq_cpu_flags: "flag I_bit (irq_cpu c)" "\<not> flag T_bit (irq_cpu c)"
  by (simp_all add: irq_cpu_def flag_put_flag flag_defs)


text \<open>The return from an exception: the saved status register and the mode it names come back.\<close>

definition return_cpu :: "armcpu_t \<Rightarrow> armcpu_t" where
  "return_cpu c = (let d = (switch_cpu (psr_mode (SPSR c)) c)\<lparr>CPSR := SPSR c\<rparr> in jump (R d 15) d)"

lemma restore_spsr_eq: "restore_spsr s = s\<lparr>reschedule := True, cpu := return_cpu (cpu s)\<rparr>"
  by (simp add: restore_spsr_def armcpu_switchMode_def upd_cpu_def changeCPSR_def NDS_Reschedule_def
      return_cpu_def jump_def thumb_mask_def flag_def setR_def Let_def)

lemma arith_S_pc:
  assumes "REG_POS i 12 = 15"
  shows "arith_S_fn k m i s = (cyc m 3, restore_spsr (upd_cpu (setR 15
    (fst (arith_ref k (Rn i s) (shift_op m i (cpu s)) (flag C_bit (cpu s))))) s))"
  using assms
  by (cases k)
    (simp_all add: arith_S_fn_def arith_result ADD_S_fn_def OP_ADDS_def ADC_S_fn_def OP_ADCS_def SUB_S_fn_def
      OP_SUBS_def SBC_S_fn_def OP_SBCS_def RSB_S_fn_def OP_RSBS_def RSC_S_fn_def OP_RSCS_def carry_in_def
      write_rd_S_def)

lemma return_cpu_CPSR: "CPSR (return_cpu c) = SPSR c"
  by (simp add: return_cpu_def jump_def setR_def Let_def)

lemma return_cpu_next:
  assumes "valid_mode (psr_mode (SPSR c))" "valid_mode (cur_mode c)"
  shows "next_instruction (return_cpu c) =
    R c 15 AND (0xFFFFFFFC OR push_bit 1 (if bit (SPSR c) T_bit then 1 else 0))"
  using switch_R [OF assms, of 15]
  by (simp add: return_cpu_def jump_def thumb_mask_def flag_def Let_def banked_def)

lemma banked_CPSR: "psr_mode w = cur_mode c \<Longrightarrow> banked k n (c\<lparr>CPSR := w\<rparr>) = banked k n c"
  by (simp add: banked_unfold)

lemma return_cpu_banked:
  assumes "valid_mode (psr_mode (SPSR c))" "valid_mode (cur_mode c)" "valid_mode k" "n < 15"
  shows "banked k n (return_cpu c) = banked k n c"
  using assms
  by (simp add: return_cpu_def jump_def Let_def banked_setR banked_CPSR switch_banked cur_mode_switch)

lemma return_cpu_other:
  "proc_ID (return_cpu c) = proc_ID c" "intVector (return_cpu c) = intVector c"
  by (simp_all add: return_cpu_def jump_def setR_def switch_other Let_def)


section \<open>The round trip\<close>

lemma prefetch_CPSR: "CPSR (cpu (snd (armcpu_prefetch M s))) = CPSR (cpu s)"
  by (simp add: prefetch_cpu Let_def setR_def)

lemma prefetch_flag: "flag n (cpu (snd (armcpu_prefetch M s))) = flag n (cpu s)"
  by (simp add: flag_def prefetch_CPSR)

lemma prefetch_banked: "n < 15 \<Longrightarrow> banked k n (cpu (snd (armcpu_prefetch M s))) = banked k n (cpu s)"
  by (simp add: prefetch_cpu Let_def banked_setR)

lemma prefetch_saved: "saved_psr k (cpu (snd (armcpu_prefetch M s))) = saved_psr k (cpu s)"
  by (simp add: prefetch_cpu Let_def)

lemma prefetch_mode: "cur_mode (cpu (snd (armcpu_prefetch M s))) = cur_mode (cpu s)"
  by (simp add: cur_mode_def prefetch_CPSR)

lemma banked_current: "banked (cur_mode c) n c = R c n"
  by (auto simp: banked_def)

lemma saved_current: "saved_psr (cur_mode c) c = SPSR c"
  by (simp add: saved_psr_def)

text \<open>The instruction \<open>SUBS PC, LR, #4\<close>.\<close>

lemma SUBS_PC_LR_4:
  "REG_POS 0xE25EF004 12 = 15" "REG_POS 0xE25EF004 16 = 14" "CONDITION 0xE25EF004 = 0xE"
  "imm_rotate 0xE25EF004 = 4"
  by (simp_all add: REG_POS_def CONDITION_def imm_rotate_def ROR_def)

lemma SUBS_PC_LR_4_effect:
  "SUB_S_fn IMM_VALUE 0xE25EF004 s =
    (3, s\<lparr>reschedule := True, cpu := return_cpu (setR 15 (R (cpu s) 14 - 4) (cpu s))\<rparr>)"
  using arith_S_pc [OF SUBS_PC_LR_4(1), of SUB IMM_VALUE s]
  by (simp add: arith_S_fn_def arith_result SUBS_PC_LR_4 Rn_def restore_spsr_eq cyc_def by_reg_def upd_cpu_def)

lemma irq_fetched:
  "instruction (cpu (armcpu_irqException M s)) =
    fst (rd32 M (proc_ID (cpu s)) MMU_AT_CODE ((intVector (cpu s) + 0x18) AND 0xFFFFFFFC) (mmu s))"
  by (simp add: irq_exception_eq prefetch_cpu irq_cpu_flags Let_def)
    (simp add: irq_cpu_def put_flag_def setR_def switch_other)

lemma exec_ARM:
  assumes "\<not> flag T_bit (cpu s)" "CONDITION (instruction (cpu s)) = 0xE"
  shows "snd (armcpu_exec M arm_set thumb_set s) = snd (armcpu_prefetch M
    (snd (arm_set (INSTRUCTION_INDEX (instruction (cpu s))) (instruction (cpu s)) s)))"
  using assms by (simp add: armcpu_exec_def Let_def split_beta)

lemma irq_cpu_after:
  fixes M :: "'m MEM" and s :: "'m CORE"
  assumes "valid_mode (cur_mode (cpu s))"
  defines "d \<equiv> cpu (armcpu_irqException M s)"
  shows "cur_mode d = IRQ" "\<not> flag T_bit d" "flag I_bit d" "R d 14 = instruct_adr (cpu s) + 4"
    "SPSR d = CPSR (cpu s)" "valid_mode k \<Longrightarrow> n < 15 \<Longrightarrow>
      banked k n d = (if n = 14 \<and> k = IRQ then instruct_adr (cpu s) + 4 else banked k n (cpu s))"
proof -
  show m: "cur_mode d = IRQ"
    by (simp add: d_def irq_exception_eq prefetch_mode irq_cpu_mode)
  show "\<not> flag T_bit d" "flag I_bit d"
    by (simp_all add: d_def irq_exception_eq prefetch_flag irq_cpu_flags)
  show b: "banked k n d = (if n = 14 \<and> k = IRQ then instruct_adr (cpu s) + 4 else banked k n (cpu s))"
    if "valid_mode k" "n < 15" for k n
    using that by (simp add: d_def irq_exception_eq prefetch_banked irq_cpu_banked assms(1))
  show "R d 14 = instruct_adr (cpu s) + 4"
    using b [of IRQ 14] banked_current [of d 14] by (simp add: m valid_IRQ)
  have "saved_psr IRQ d = CPSR (cpu s)"
    by (simp add: d_def irq_exception_eq prefetch_saved irq_cpu_saved assms(1) valid_IRQ)
  then show "SPSR d = CPSR (cpu s)" using saved_current [of d] by (simp add: m)
qed

lemma interrupt_return:
  fixes M :: "'m MEM" and s :: "'m CORE" and arm_set thumb_set :: "u32 \<Rightarrow> 'm op"
  assumes p: "pipeline s" and m: "valid_mode (cur_mode (cpu s))"
    and f: "fst (rd32 M (proc_ID (cpu s)) MMU_AT_CODE ((intVector (cpu s) + 0x18) AND 0xFFFFFFFC) (mmu s)) = 0xE25EF004"
    and t: "arm_set (INSTRUCTION_INDEX 0xE25EF004) = SUB_S_fn IMM_VALUE"
  defines "c \<equiv> cpu (snd (armcpu_exec M arm_set thumb_set (armcpu_irqException M s)))"
  shows "CPSR c = CPSR (cpu s)" "instruct_adr c = instruct_adr (cpu s)"
    "valid_mode k \<Longrightarrow> n < 15 \<Longrightarrow> (k, n) \<noteq> (IRQ, 14) \<Longrightarrow> banked k n c = banked k n (cpu s)"
proof -
  let ?s = "armcpu_irqException M s"
  note a = irq_cpu_after [OF m, where M = M]
  have i: "instruction (cpu ?s) = 0xE25EF004" using irq_fetched [of M s] f by simp
  define e where "e = return_cpu (setR 15 (instruct_adr (cpu s)) (cpu ?s))"
  have c: "c = cpu (snd (armcpu_prefetch M (?s\<lparr>reschedule := True, cpu := e\<rparr>)))"
    unfolding c_def e_def
    by (subst exec_ARM) (simp_all add: a(2,4) i SUBS_PC_LR_4 t SUBS_PC_LR_4_effect)
  have sp: "SPSR (setR 15 v (cpu ?s)) = CPSR (cpu s)" for v by (simp add: setR_def a(5))
  have eC: "CPSR e = CPSR (cpu s)" by (simp add: e_def return_cpu_CPSR sp)
  show "CPSR c = CPSR (cpu s)" by (simp add: c prefetch_CPSR eC)
  have vm: "valid_mode (psr_mode (CPSR (cpu s)))" using m by (simp add: cur_mode_def)
  have "next_instruction e = instruct_adr (cpu s)
      AND (0xFFFFFFFC OR push_bit 1 (if flag T_bit (cpu s) then 1 else 0))"
    unfolding e_def
    by (subst return_cpu_next) (simp_all add: sp a(1) valid_IRQ vm flag_def, simp_all add: setR_def)
  also have "\<dots> = instruct_adr (cpu s)"
    using p by (simp add: pipeline_def Let_def instr_size_def aligned_id split: if_splits)
  finally have eN: "next_instruction e = instruct_adr (cpu s)" .
  then show "instruct_adr c = instruct_adr (cpu s)"
    using p by (simp add: c prefetch_cpu flag_def eC Let_def pipeline_def instr_size_def aligned_id split: if_splits)
  show "banked k n c = banked k n (cpu s)" if "valid_mode k" "n < 15" "(k, n) \<noteq> (IRQ, 14)"
    using that a(6) [of k n]
    by (auto simp: c e_def prefetch_banked return_cpu_banked banked_setR sp a(1) valid_IRQ vm)
qed

section \<open>The fetched instruction\<close>

text \<open>
  The prefetched instruction is the one in memory at its address, for an address of the main memory, and on the
  ARM9 for one below it, in the instruction TCM: a word in ARM state, a halfword in Thumb state. What is at
  other addresses the bus decides.
\<close>

definition code_at :: "bool \<Rightarrow> array \<Rightarrow> u32 \<Rightarrow> u32" where
  "code_at thumb mem a = (if thumb then ucast (T1ReadWord_guaranteedAligned mem a) else T1ReadLong_guaranteedAligned mem a)"

definition fetched :: "('b MMU \<times> TIMING) CORE \<Rightarrow> bool" where
  "fetched s =
     (let c = cpu s; m = fst (mmu s); a = instruct_adr c; thumb = flag T_bit c in
      (proc_ID c = 0 \<or> proc_ID c = 1 \<longrightarrow> in_main a \<longrightarrow>
         instruction c = code_at thumb (MAIN_MEM m) (a AND (if thumb then MAIN_MEM_MASK16 m else MAIN_MEM_MASK32 m))) \<and>
      (proc_ID c = 0 \<longrightarrow> a < 0x02000000 \<longrightarrow>
         instruction c = code_at thumb (ARM9_ITCM m) (a AND (if thumb then 0x7FFE else 0x7FFC))))"

lemma not_both: "in_main a \<Longrightarrow> \<not> a < 0x02000000"
proof -
  assume "in_main a"
  then have "unat (a AND 0x0F000000) = 0x02000000" by (simp add: in_main_def)
  then have "0x02000000 \<le> unat a" using word_and_le2 [of a "0x0F000000"] unfolding word_le_nat_alt by simp
  then show "\<not> a < 0x02000000" by (simp add: word_less_nat_alt)
qed

lemma nds_rd:
  "rd32 (nds_mem B) P AT a mt = (fst (MMU_read32 B P AT a (fst mt)), snd (MMU_read32 B P AT a (fst mt)), snd mt)"
  "rd16 (nds_mem B) P AT a mt = (fst (MMU_read16 B P AT a (fst mt)), snd (MMU_read16 B P AT a (fst mt)), snd mt)"
  "fst (snd (code_cycles (nds_mem B) P n a mt)) = fst mt"
  by (simp_all add: nds_mem_def split_beta)

lemma prefetch_memory:
  "fst (mmu (snd (prefetch_arm (nds_mem B) s))) =
    snd (MMU_read32 B (proc_ID (cpu s)) MMU_AT_CODE (next_instruction (cpu s) AND 0xFFFFFFFC) (fst (mmu s)))"
  "fst (mmu (snd (prefetch_thumb (nds_mem B) s))) =
    snd (MMU_read16 B (proc_ID (cpu s)) MMU_AT_CODE (next_instruction (cpu s) AND 0xFFFFFFFE) (fst (mmu s)))"
  by (simp_all add: prefetch_arm_def prefetch_thumb_def nds_rd Let_def split_beta)

text \<open>A code fetch from the two memories.\<close>

lemma fetch_main:
  assumes "in_main a" "P = 0 \<or> P = 1"
  shows "MMU_read32 B P MMU_AT_CODE a m = (code_at False (MAIN_MEM m) (a AND MAIN_MEM_MASK32 m), m)"
    "MMU_read16 B P MMU_AT_CODE a m = (T1ReadWord_guaranteedAligned (MAIN_MEM m) (a AND MAIN_MEM_MASK16 m), m)"
  using assms by (auto simp: MMU_read32_def MMU_read16_def code_at_def)

lemma fetch_itcm:
  assumes "a < 0x02000000"
  shows "MMU_read32 B 0 MMU_AT_CODE a m = (code_at False (ARM9_ITCM m) (a AND 0x7FFC), m)"
    "MMU_read16 B 0 MMU_AT_CODE a m = (T1ReadWord_guaranteedAligned (ARM9_ITCM m) (a AND 0x7FFE), m)"
  using assms not_both by (auto simp: MMU_read32_def MMU_read16_def code_at_def)

lemma prefetch_fetched: "fetched (snd (armcpu_prefetch (nds_mem B) s))"
proof (cases "flag T_bit (cpu s)")
  case True
  then have "snd (armcpu_prefetch (nds_mem B) s) = snd (prefetch_thumb (nds_mem B) s)" by (simp add: armcpu_prefetch_def)
  moreover have "bit (CPSR (cpu s)) T_bit" using True by (simp add: flag_def)
  ultimately show ?thesis
    by (auto simp: fetched_def Let_def prefetch_memory prefetch_thumb_cpu nds_rd setR_def flag_def code_at_def
        fetch_main fetch_itcm)
next
  case False
  then have "snd (armcpu_prefetch (nds_mem B) s) = snd (prefetch_arm (nds_mem B) s)" by (simp add: armcpu_prefetch_def)
  moreover have "\<not> bit (CPSR (cpu s)) T_bit" using False by (simp add: flag_def)
  ultimately show ?thesis
    by (auto simp: fetched_def Let_def prefetch_memory prefetch_arm_cpu nds_rd setR_def flag_def fetch_main fetch_itcm)
qed

lemma fetched_upd: "fetched (upd_cpu (\<lambda>c. c\<lparr>halt_IE_and_IF := b, waitIRQ := w\<rparr>) s) = fetched s"
  by (simp add: fetched_def flag_def Let_def)

lemma step_fetched: "arm_step (nds_mem B) A T s s' \<Longrightarrow> fetched s \<Longrightarrow> fetched s'"
  by (auto simp: arm_step_simps armcpu_init_def armcpu_exec_def armcpu_irqException_def execHardware_interrupts_core_def
      Let_def split_beta prefetch_fetched fetched_upd)

end
