(* ===== verification/ArmModeProperties.thy ===== *)
theory ArmModeProperties
  imports ArmPipe ArmExample
begin

text \<open>
  The properties of the modes, the pipeline and the exceptions.
\<close>

text \<open>
  C5. Changing the mode is invisible in the registers: each register of each mode, wherever it is kept, has
  the same value before and after, and so has each saved status register. Afterwards the sixteen visible
  registers are those of the new mode and only the mode field of the status register has changed.
\<close>
theorem mode_switch:
  fixes s :: "'m CORE"
  assumes "valid_mode m" "valid_mode (cur_mode (cpu s))"
  shows "let c = cpu (snd (armcpu_switchMode m s)) in
    cur_mode c = m \<and> CPSR c AND NOT 0x1F = CPSR (cpu s) AND NOT 0x1F \<and>
    (\<forall>n. R c n = banked m n (cpu s)) \<and>
    (\<forall>k n. valid_mode k \<longrightarrow> banked k n c = banked k n (cpu s)) \<and>
    (\<forall>k. has_spsr k \<longrightarrow> saved_psr k c = saved_psr k (cpu s))"
  using assms
  by (simp add: armcpu_switchMode_def changeCPSR_def NDS_Reschedule_def Let_def cur_mode_switch switch_R
      switch_banked switch_saved switch_CPSR put_mode_rest [simplified])

theorem mode_switch_witness:
  "R (cpu (snd (armcpu_switchMode FIQ (core_of (with_regs (\<lambda>n. of_nat n)) ())))) 8 = 0 \<and>
   banked SYS 8 (cpu (snd (armcpu_switchMode FIQ (core_of (with_regs (\<lambda>n. of_nat n)) ())))) = 8"
proof -
  have m: "valid_mode FIQ" "valid_mode SYS" "cur_mode (with_regs f) = SYS" for f
    by (simp_all add: valid_mode_def cur_mode_def psr_mode_def example_defs SYS_def)
  then have "banked FIQ 8 (with_regs f) = 0" "banked SYS 8 (with_regs f) = f 8" for f
    by (simp_all add: banked_def mode_neq example_defs bank_fiq_def)
  then show ?thesis
    using mode_switch [of FIQ "core_of (with_regs (\<lambda>n. of_nat n)) ()"] m
    by (simp add: core_of_def Let_def)
qed

text \<open>
  C6. From power-on, whatever the instruction functions do, between two steps of a processor the
  next instruction has been fetched: it is the word or halfword in memory at an aligned address, the address
  after it is the one to go on at, and the program counter is two instructions ahead of it.
\<close>
theorem pipeline_invariant:
  assumes "arm_reachable (nds_mem B) arm_set thumb_set s"
  shows "pipeline s \<and> fetched s"
  using assms
  by (induction rule: arm_reachable.induct)
    (auto simp: armcpu_new_def armcpu_init_def prefetch_pipeline prefetch_fetched dest: step_pipeline step_fetched)

text \<open>A jump by reset to the start of a main memory whose first word is 0xE2000000.\<close>

definition code_core :: "(unit MMU \<times> TIMING) CORE" where
  "code_core = core_of example_cpu (example_mmu\<lparr>MAIN_MEM := (\<lambda>n. if n = 3 then 0xE2 else 0)\<rparr>, example_timing)"

theorem pipeline_invariant_witness:
  "instruction (cpu (armcpu_init (nds_mem example_bus) 0x02000000 (armcpu_new (nds_mem example_bus) 0 code_core))) =
     0xE2000000"
proof -
  let ?M = "nds_mem example_bus" and ?s = "armcpu_new (nds_mem example_bus) 0 code_core"
  let ?t = "armcpu_init ?M 0x02000000 ?s"
  have "arm_reachable ?M (\<lambda>_ _ s. (1, s)) (\<lambda>_ _ s. (1, s)) ?t"
    using step [OF power_on reset [of ?M _ _ ?s "0x02000000"]] by simp
  then have f: "fetched ?t" by (rule pipeline_invariant [THEN conjunct2])
  have T: "\<not> bit (CPSR (cpu ?t)) T_bit" "instruct_adr (cpu ?t) = 0x02000000"
    by (simp_all add: armcpu_init_def armcpu_prefetch_def init_regs_def prefetch_arm_cpu prefetch_thumb_cpu Let_def
        flag_def put_bit_def flag_defs SYS_def setR_def bit_simps)
  have r: "\<not> flag T_bit (init_regs 0 c)" "\<not> flag T_bit (init_regs 0x02000000 c)" for c
    by (simp_all add: init_regs_def flag_def put_bit_def flag_defs SYS_def bit_simps)
  have i: "proc_ID (init_regs a c) = proc_ID c" "next_instruction (init_regs a c) = a AND NOT 1" for a c
    by (simp_all add: init_regs_def)
  note arm = armcpu_new_def armcpu_init_def armcpu_prefetch_def r i
  have s: "proc_ID (cpu ?s) = 0" "fst (mmu ?s) = fst (mmu code_core)"
    by (simp_all add: arm prefetch_arm_cpu Let_def setR_def prefetch_memory)
      (simp_all add: fetch_itcm upd_cpu_def)
  have "proc_ID (cpu ?t) = 0" "fst (mmu ?t) = fst (mmu ?s)"
    by (simp_all add: arm prefetch_arm_cpu Let_def setR_def prefetch_memory)
      (simp_all add: fetch_main in_main_def upd_cpu_def)
  then show ?thesis using f T s
    by (simp add: fetched_def flag_def Let_def in_main_def code_at_def code_core_def core_of_def example_mmu_def
      SetupMMU_def T1ReadLong_guaranteedAligned_def)
qed

text \<open>
  An interrupt enters the IRQ mode in ARM state with interrupts disabled, at the vector 0x18. The
  address of the interrupted instruction plus 4 is in the link register, the old status register is saved,
  and no other register of any mode has changed.
\<close>
theorem interrupt_entry:
  fixes M :: "'m MEM" and s :: "'m CORE"
  assumes "valid_mode (cur_mode (cpu s))"
  shows "let c = cpu (armcpu_irqException M s) in
    cur_mode c = IRQ \<and> flag I_bit c \<and> \<not> flag T_bit c \<and>
    instruct_adr c = (intVector (cpu s) + 0x18) AND 0xFFFFFFFC \<and>
    R c 14 = instruct_adr (cpu s) + 4 \<and> SPSR c = CPSR (cpu s) \<and>
    (\<forall>k n. valid_mode k \<longrightarrow> n < 15 \<longrightarrow> (k, n) \<noteq> (IRQ, 14) \<longrightarrow> banked k n c = banked k n (cpu s)) \<and>
    (\<forall>k. has_spsr k \<longrightarrow> k \<noteq> IRQ \<longrightarrow> saved_psr k c = saved_psr k (cpu s))"
proof -
  have "instruct_adr (cpu (armcpu_irqException M s)) = (intVector (cpu s) + 0x18) AND 0xFFFFFFFC"
    by (simp add: irq_exception_eq prefetch_cpu irq_cpu_flags Let_def) (simp add: irq_cpu_def)
  moreover have "saved_psr k (cpu (armcpu_irqException M s)) = saved_psr k (cpu s)"
    if "has_spsr k" "k \<noteq> IRQ" for k
    using that assms by (simp add: irq_exception_eq prefetch_saved irq_cpu_saved)
  ultimately show ?thesis using irq_cpu_after [OF assms, where M = M] by (simp add: Let_def)
qed

lemma example_valid: "valid_mode (cur_mode (cpu example_core))"
  by (simp add: valid_mode_def cur_mode_def psr_mode_def example_defs SYS_def)

theorem interrupt_entry_witness:
  "R (cpu (armcpu_irqException (nds_mem example_bus) example_core)) 14 = 0x02000004 \<and>
   instruct_adr (cpu (armcpu_irqException (nds_mem example_bus) example_core)) = 0xFFFF0018"
  using interrupt_entry [OF example_valid, of "nds_mem example_bus"]
  by (simp add: Let_def) (simp add: example_defs)

text \<open>
  C3. An interrupt whose handler is \<open>SUBS PC, LR, #4\<close> returns to the interrupted instruction: after the
  interrupt and one instruction the status register, the address of the next instruction, the program counter
  and every register of every mode are what they were, except for the link register of the IRQ mode.
\<close>
theorem interrupt_round_trip:
  fixes M :: "'m MEM" and s :: "'m CORE" and arm_set thumb_set :: "u32 \<Rightarrow> 'm op"
  assumes "pipeline s" "valid_mode (cur_mode (cpu s))"
    and "fst (rd32 M (proc_ID (cpu s)) MMU_AT_CODE ((intVector (cpu s) + 0x18) AND 0xFFFFFFFC) (mmu s)) = 0xE25EF004"
    and "arm_set (INSTRUCTION_INDEX 0xE25EF004) = SUB_S_fn IMM_VALUE"
  shows "let c = cpu (snd (armcpu_exec M arm_set thumb_set (armcpu_irqException M s))) in
    CPSR c = CPSR (cpu s) \<and> instruct_adr c = instruct_adr (cpu s) \<and>
    next_instruction c = next_instruction (cpu s) \<and> R c 15 = R (cpu s) 15 \<and>
    (\<forall>k n. valid_mode k \<longrightarrow> n < 15 \<longrightarrow> (k, n) \<noteq> (IRQ, 14) \<longrightarrow> banked k n c = banked k n (cpu s))"
proof -
  note r = interrupt_return [where arm_set = arm_set and thumb_set = thumb_set and M = M and s = s, OF assms]
  moreover have "pipeline (snd (armcpu_exec M arm_set thumb_set (armcpu_irqException M s)))"
    by (rule exec_pipeline)
  ultimately show ?thesis using assms(1) by (simp add: pipeline_def Let_def instr_size_def flag_def)
qed

theorem interrupt_round_trip_witness:
  "instruct_adr (cpu (snd (armcpu_exec (nds_mem example_bus) (\<lambda>_. SUB_S_fn IMM_VALUE) (\<lambda>_ _ s. (1, s))
     (armcpu_irqException (nds_mem example_bus) example_core)))) = 0x02000000"
proof -
  have "pipeline example_core"
    by (simp add: pipeline_def example_defs instr_size_def flag_def flag_defs)
  moreover have "fst (rd32 (nds_mem example_bus) (proc_ID (cpu example_core)) MMU_AT_CODE
      ((intVector (cpu example_core) + 0x18) AND 0xFFFFFFFC) (mmu example_core)) = 0xE25EF004"
    by (simp add: nds_mem_def MMU_read32_def in_main_def example_defs)
  ultimately show ?thesis
    using interrupt_round_trip [OF _ example_valid, of "nds_mem example_bus" "\<lambda>_. SUB_S_fn IMM_VALUE" "\<lambda>_ _ s. (1, s)"]
    by (simp add: Let_def) (simp add: example_defs)
qed

text \<open>
  C27. A program in user mode cannot leave it or mask interrupts with \<open>MSR\<close>: whatever the operand and the
  field mask, in both forms of the instruction, the low 24 bits of the status register and all registers
  stay as they are.
\<close>
theorem msr_user_mode:
  fixes s :: "'m CORE"
  assumes "cur_mode (cpu s) = USR" and "t = snd (OP_MSR_CPSR i s) \<or> t = snd (OP_MSR_CPSR_IMM_VAL i s)"
  shows "CPSR (cpu t) AND 0x00FFFFFF = CPSR (cpu s) AND 0x00FFFFFF \<and>
    cpu t = (cpu s)\<lparr>CPSR := CPSR (cpu t)\<rparr> \<and> mmu t = mmu s"
proof -
  have m: "merge_psr (if b then 0xFF000000 else 0) v w AND 0x00FFFFFF = w AND 0x00FFFFFF" for b v w
  proof -
    have "(NOT 0xFF000000 :: u32) = 0x00FFFFFF" by simp
    then show ?thesis
      by (simp add: merge_psr_def bit.conj_disj_distrib2 and.assoc)
  qed
  show ?thesis using assms
    by (auto simp: OP_MSR_CPSR_def OP_MSR_CPSR_IMM_VAL_def MSR_CPSR_macro_def cur_mode_def changeCPSR_def
        NDS_Reschedule_def upd_cpu_def Let_def m simp del: if_cancel)
qed

theorem msr_user_mode_witness:
  "CPSR (cpu (snd (OP_MSR_CPSR 0xE129F000 (core_of ((with_regs (\<lambda>_. - 1))\<lparr>CPSR := 0x10\<rparr>) ()))))
    AND 0x00FFFFFF = 0x10"
  using msr_user_mode [of "core_of ((with_regs (\<lambda>_. - 1))\<lparr>CPSR := 0x10\<rparr>) ()" _ "0xE129F000", OF _ disjI1 [OF refl]]
  by (simp add: core_of_def cur_mode_def psr_mode_def USR_def)

end
