(* ===== verification/ArmNumbers.thy ===== *)
theory ArmNumbers
  imports ArmMisc ArmShift
begin

text \<open>
  The results of the multiplications, of the saturating instructions and of \<open>CLZ\<close> as numbers.
\<close>

section \<open>Pairs of registers\<close>

definition long_of :: "u32 \<Rightarrow> u32 \<Rightarrow> u64" where
  "long_of hi lo = word_of_int (uint hi * 2 ^ 32 + uint lo)"

definition reg_long :: "u32 \<Rightarrow> 'm CORE \<Rightarrow> u64" where
  "reg_long i s = long_of (reg i 16 s) (reg i 12 s)"

lemma reg_set_reg [simp]:
  "reg i m (set_reg i n v s) = (if REG_POS i m = REG_POS i n then v else reg i m s)"
  by (simp add: reg_def set_reg_def setR_def)

lemma uint_long_of: "uint (long_of h l) = uint h * 4294967296 + uint l"
proof -
  have "0 \<le> uint h * 4294967296 + uint l" "uint h * 4294967296 + uint l < 18446744073709551616"
    using uint_bound [of h] uint_bound [of l] by linarith+
  moreover have "uint (long_of h l) = take_bit 64 (uint h * 4294967296 + uint l)"
    unfolding long_of_def by (simp only: unsigned_of_int) simp
  ultimately show ?thesis by (simp add: take_bit_eq_mod)
qed

lemma long_of_cat: "long_of h l = word_cat h l"
  by (simp add: long_of_def word_cat_eq push_bit_eq_mult mult.commute)

lemma long_of_halves: "long_of (ucast (drop_bit 32 w)) (ucast w) = w"
  unfolding long_of_cat by (rule bit_word_eqI) (auto simp: bit_simps)

lemma word_of_int_wrap: "word_of_int (a + b * 18446744073709551616) = (word_of_int a :: u64)"
proof -
  have "(word_of_int 18446744073709551616 :: u64) = 0" by simp
  then show ?thesis by (simp only: wi_hom_syms mult_zero_right add_0_right)
qed

lemma uint_plus_wrap:
  obtains q where "uint (x + y :: u32) = uint x + uint y - q * 4294967296"
  using that [of 0] that [of 1] uint_plus [of x y] by (simp split: if_splits)

lemma long_of_add:
  "long_of (h + k + (if CarryFrom m l then 1 else 0)) (l + m) = long_of h l + long_of k m"
proof -
  define c :: u32 where "c = (if CarryFrom m l then 1 else 0)"
  obtain q where q: "uint (h + k) = uint h + uint k - q * 4294967296" by (rule uint_plus_wrap)
  obtain r where r: "uint (h + k + c) = uint (h + k) + uint c - r * 4294967296" by (rule uint_plus_wrap)
  have l: "uint (l + m) = uint l + uint m - uint c * 4294967296"
    by (auto simp: uint_plus c_def CarryFrom_iff)
  have "uint (h + k + c) * 2 ^ 32 + uint (l + m) =
      (uint h * 2 ^ 32 + uint l + (uint k * 2 ^ 32 + uint m)) + (- q - r) * 18446744073709551616"
    unfolding r q l by (simp add: algebra_simps)
  then show ?thesis
    unfolding c_def [symmetric] long_of_def wi_hom_add by (simp only: word_of_int_wrap)
qed

lemma store_long_value:
  "REG_POS i 12 \<noteq> REG_POS i 16 \<Longrightarrow> reg_long i (store_long i w s) = w"
  by (simp add: reg_long_def store_long_def long_of_halves)

lemma accumulate_long_value:
  assumes "REG_POS i 12 \<noteq> REG_POS i 16"
  shows "reg_long i (accumulate_long i w s) = reg_long i s + w"
proof -
  have "reg_long i (accumulate_long i w s) =
      long_of (reg i 16 s + ucast (drop_bit 32 w) + (if CarryFrom (ucast w) (reg i 12 s) then 1 else 0))
        (reg i 12 s + ucast w)"
    using assms by (simp add: reg_long_def accumulate_long_def Let_def add.commute)
  also have "\<dots> = reg_long i s + w"
    by (simp only: long_of_add long_of_halves reg_long_def)
  finally show ?thesis .
qed

lemma long_flags:
  "reg i 16 s = 0 \<and> reg i 12 s = 0 \<longleftrightarrow> reg_long i s = 0" "bit (reg i 16 s) 31 \<longleftrightarrow> bit (reg_long i s) 63"
proof -
  have "uint (reg_long i s) = uint (reg i 16 s) * 4294967296 + uint (reg i 12 s)"
    by (simp add: reg_long_def uint_long_of)
  then show "reg i 16 s = 0 \<and> reg i 12 s = 0 \<longleftrightarrow> reg_long i s = 0"
    using uint_bound [of "reg i 16 s"] uint_bound [of "reg i 12 s"]
    by (simp flip: uint_0_iff) (auto simp: add_nonneg_eq_0_iff)
  show "bit (reg i 16 s) 31 \<longleftrightarrow> bit (reg_long i s) 63"
    by (simp add: reg_long_def long_of_cat bit_word_cat_iff)
qed

section \<open>Saturation\<close>

definition clamp :: "int \<Rightarrow> int" where
  "clamp x = max (- (2 ^ 31)) (min (2 ^ 31 - 1) x)"

lemma BIT31_neq: "BIT31 x \<noteq> 0 \<longleftrightarrow> sint x < 0"
  by (simp add: BIT31_if bit31_sint)

lemma SIGNED_OVERFLOW_iff: "SIGNED_OVERFLOW a b (a + b) \<noteq> 0 \<longleftrightarrow> sint a + sint b \<noteq> sint (a + b)"
proof -
  have "SIGNED_OVERFLOW a b r \<noteq> 0 \<longleftrightarrow> bit a 31 = bit b 31 \<and> bit a 31 \<noteq> bit r 31" for r
    by (auto simp: SIGNED_OVERFLOW_def BIT31_if bit_simps)
  then show ?thesis
    by (simp only: bit31_iff, rule_tac uint_obtain [of a], rule_tac uint_obtain [of b])
      (auto simp: sint_cases uint_plus)
qed

lemma SIGNED_UNDERFLOW_iff: "SIGNED_UNDERFLOW a b (a - b) \<noteq> 0 \<longleftrightarrow> sint a - sint b \<noteq> sint (a - b)"
proof -
  have "SIGNED_UNDERFLOW a b r \<noteq> 0 \<longleftrightarrow> bit a 31 \<noteq> bit b 31 \<and> bit a 31 \<noteq> bit r 31" for r
    by (auto simp: SIGNED_UNDERFLOW_def BIT31_if bit_simps)
  then show ?thesis
    by (simp only: bit31_iff, rule_tac uint_obtain [of a], rule_tac uint_obtain [of b])
      (auto simp: sint_cases uint_minus)
qed

lemma sint_bound: "- 2147483648 \<le> sint (x :: u32)" "sint x \<le> 2147483647"
  by (rule uint_obtain [of x], auto simp: sint_cases)+

lemma clamp_id: "clamp (sint (x :: u32)) = sint x"
  using sint_bound [of x] by (simp add: clamp_def max_def min_def)

lemma clamp_out: "2147483647 < x \<Longrightarrow> clamp x = 2147483647" "x < - 2147483648 \<Longrightarrow> clamp x = - 2147483648"
  by (simp_all add: clamp_def max_def min_def)

lemma clamp_neq: "clamp x \<noteq> x \<longleftrightarrow> x < - 2147483648 \<or> 2147483647 < x"
  by (auto simp: clamp_def max_def min_def)

text \<open>A result that does not fit has the wrong sign, which picks the bound.\<close>

lemma saturate_clamp:
  assumes "word_of_int x = r" "sint r \<noteq> x" "- 4294967296 \<le> x" "x < 4294967296"
  shows "saturate r = word_of_int (clamp x)" "clamp x \<noteq> x"
proof -
  have s: "sint r = signed_take_bit 31 x" using assms(1) by (auto simp: signed_of_int)
  have out: "x < - 2147483648 \<or> 2147483647 < x"
  proof (rule ccontr)
    assume "\<not> ?thesis"
    then have "sint r = x" unfolding s by (intro signed_take_bit_int_eq_self) simp_all
    then show False using assms(2) by simp
  qed
  then show "clamp x \<noteq> x" using clamp_neq by blast
  show "saturate r = word_of_int (clamp x)"
  proof (cases "2147483647 < x")
    case True
    have "sint r = signed_take_bit 31 (x - 4294967296)"
      unfolding s by (simp add: signed_take_bit_eq_iff_take_bit_eq take_bit_eq_mod)
    also have "\<dots> = x - 4294967296"
      using True assms(4) by (intro signed_take_bit_int_eq_self) simp_all
    finally have "bit r 31" using assms(4) by (simp add: bit31_sint)
    then show ?thesis using True by (simp add: saturate_def BIT31_if clamp_out)
  next
    case False
    have "sint r = signed_take_bit 31 (x + 4294967296)"
      unfolding s by (simp add: signed_take_bit_eq_iff_take_bit_eq take_bit_eq_mod)
    also have "\<dots> = x + 4294967296"
      using False out assms(3) by (intro signed_take_bit_int_eq_self) simp_all
    finally have "\<not> bit r 31" using assms(3) by (simp add: bit31_sint)
    then show ?thesis using False out by (simp add: saturate_def BIT31_if clamp_out)
  qed
qed

lemma word_of_sints: "word_of_int (sint a + sint b) = (a + b :: u32)" "word_of_int (sint a - sint b) = (a - b :: u32)"
  by (simp_all add: wi_hom_syms)

lemma saturated_value:
  assumes "word_of_int x = r" "- 4294967296 \<le> x" "x < 4294967296"
  shows "(if x \<noteq> sint r then saturate r else r) = word_of_int (clamp x)" "x \<noteq> sint r \<longleftrightarrow> clamp x \<noteq> x"
  using saturate_clamp [OF assms(1) _ assms(2,3)] clamp_id [of r] by auto

lemma QADD_value:
  "(if SIGNED_OVERFLOW a b (a + b) \<noteq> 0 then saturate (a + b) else a + b) = word_of_int (clamp (sint a + sint b))"
  "SIGNED_OVERFLOW a b (a + b) \<noteq> 0 \<longleftrightarrow> clamp (sint a + sint b) \<noteq> sint a + sint b"
  unfolding SIGNED_OVERFLOW_iff
  using sint_bound [of a] sint_bound [of b] by (intro saturated_value word_of_sints; linarith)+

lemma QSUB_value:
  "(if SIGNED_UNDERFLOW a b (a - b) \<noteq> 0 then saturate (a - b) else a - b) = word_of_int (clamp (sint a - sint b))"
  "SIGNED_UNDERFLOW a b (a - b) \<noteq> 0 \<longleftrightarrow> clamp (sint a - sint b) \<noteq> sint a - sint b"
  unfolding SIGNED_UNDERFLOW_iff
  using sint_bound [of a] sint_bound [of b] by (intro saturated_value word_of_sints; linarith)+

lemma QADD_word: "SIGNED_OVERFLOW a b (a + b) \<noteq> 0 \<Longrightarrow> saturate (a + b) = word_of_int (clamp (sint a + sint b))"
  "SIGNED_OVERFLOW a b (a + b) = 0 \<Longrightarrow> a + b = word_of_int (clamp (sint a + sint b))"
  using QADD_value(1) [of a b] by auto

lemma QSUB_word: "SIGNED_UNDERFLOW a b (a - b) \<noteq> 0 \<Longrightarrow> saturate (a - b) = word_of_int (clamp (sint a - sint b))"
  "SIGNED_UNDERFLOW a b (a - b) = 0 \<Longrightarrow> a - b = word_of_int (clamp (sint a - sint b))"
  using QSUB_value(1) [of a b] by auto

text \<open>Reading registers and setting the sticky flag.\<close>

lemma reg_set_Q [simp]: "reg i n (set_Q b s) = reg i n s"
  by (simp add: set_Q_def reg_def put_flag_def)

lemma set_Q_set_Q: "set_Q a (set_Q b s) = set_Q (a \<or> b) s"
proof -
  have "put_bit n True (put_bit n True w) = put_bit n True w" for n w
    by (rule bit_eqI) (simp add: put_bit_def bit_simps)
  then show ?thesis by (simp add: set_Q_def upd_cpu_def put_flag_def)
qed

lemma write_saturated_other:
  "REG_POS i 12 \<noteq> 15 \<Longrightarrow> write_saturated i over res s =
    (2, set_reg i 12 (if over \<noteq> 0 then saturate res else res) (set_Q (over \<noteq> 0) s))"
  by (simp add: write_saturated_def set_Q_def)

lemma saturated_double_value:
  "saturated_double i s =
    (let x = 2 * sint (reg i 16 s) in (word_of_int (clamp x), set_Q (clamp x \<noteq> x) s))"
proof -
  let ?a = "reg i 16 s"
  have d: "push_bit 1 ?a = ?a + ?a" by (simp add: push_bit_eq_mult)
  have o: "BIT31 ?a \<noteq> BIT31 (?a + ?a) \<longleftrightarrow> SIGNED_OVERFLOW ?a ?a (?a + ?a) \<noteq> 0"
    by (auto simp: SIGNED_OVERFLOW_def BIT31_if bit_simps)
  show ?thesis
    using QADD_word [of ?a ?a] QADD_value(2) [of ?a ?a]
    unfolding saturated_double_def Let_def d o by (auto simp: set_Q_def)
qed

lemma QADD_effect:
  assumes "REG_POS i 12 \<noteq> 15"
  shows "OP_QADD i s = (let x = sint (reg i 16 s) + sint (reg i 0 s) in
    (2, set_reg i 12 (word_of_int (clamp x)) (set_Q (clamp x \<noteq> x) s)))"
  unfolding OP_QADD_def Let_def write_saturated_other [OF assms] QADD_value(1)
  unfolding QADD_value(2) ..

lemma QSUB_effect:
  assumes "REG_POS i 12 \<noteq> 15"
  shows "OP_QSUB i s = (let x = sint (reg i 0 s) - sint (reg i 16 s) in
    (2, set_reg i 12 (word_of_int (clamp x)) (set_Q (clamp x \<noteq> x) s)))"
  unfolding OP_QSUB_def Let_def write_saturated_other [OF assms] QSUB_value(1)
  unfolding QSUB_value(2) ..

lemma sint_clamp: "sint (word_of_int (clamp x) :: u32) = clamp x"
proof -
  have "- 2147483648 \<le> clamp x" "clamp x < 2147483648" by (simp_all add: clamp_def)
  then have "signed_take_bit 31 (clamp x) = clamp x" by (intro signed_take_bit_int_eq_self) simp_all
  then show ?thesis by (simp add: signed_of_int)
qed

lemma QDADD_effect:
  assumes "REG_POS i 12 \<noteq> 15"
  shows "OP_QDADD i s = (let d = 2 * sint (reg i 16 s); x = sint (reg i 0 s) + clamp d in
    (2, set_reg i 12 (word_of_int (clamp x)) (set_Q (clamp x \<noteq> x \<or> clamp d \<noteq> d) s)))"
  unfolding OP_QDADD_def Let_def saturated_double_value split_conv write_saturated_other [OF assms]
    reg_set_Q add.commute [of _ "reg i 0 s"] QADD_value(1) sint_clamp
  unfolding QADD_value(2) sint_clamp set_Q_set_Q ..

lemma QDSUB_effect:
  assumes "REG_POS i 12 \<noteq> 15"
  shows "OP_QDSUB i s = (let d = 2 * sint (reg i 16 s); x = sint (reg i 0 s) - clamp d in
    (2, set_reg i 12 (word_of_int (clamp x)) (set_Q (clamp x \<noteq> x \<or> clamp d \<noteq> d) s)))"
  unfolding OP_QDSUB_def Let_def saturated_double_value split_conv write_saturated_other [OF assms]
    reg_set_Q QSUB_value(1) sint_clamp
  unfolding QSUB_value(2) sint_clamp set_Q_set_Q ..

section \<open>Leading zeros\<close>

text \<open>After the shifts every bit below the highest one is set.\<close>

lemma ex_less_twice: "(\<exists>m<k + k. P (m :: nat)) \<longleftrightarrow> (\<exists>m<k. P m) \<or> (\<exists>m<k. P (k + m))"
proof (intro iffI)
  assume "\<exists>m<k + k. P m"
  then obtain m where m: "m < k + k" "P m" by blast
  show "(\<exists>m<k. P m) \<or> (\<exists>m<k. P (k + m))"
  proof (cases "m < k")
    case False
    then have "m - k < k" "P (k + (m - k))" using m by auto
    then show ?thesis by blast
  qed (use m in blast)
qed (auto intro: trans_less_add1 exI [of _ "k + _"])

lemma smear_step:
  fixes x y :: u32
  assumes "\<And>n. bit y n \<longleftrightarrow> (\<exists>m<k. bit x (n + m))" "j = k + k"
  shows "bit (y OR drop_bit k y) n \<longleftrightarrow> (\<exists>m<j. bit x (n + m))"
  by (simp add: assms(2) ex_less_twice bit_or_iff bit_drop_bit_eq assms add.assoc add.left_commute [of k])

lemma smear_bit: "bit (clz_smear x) n \<longleftrightarrow> (\<exists>m<32. bit x (n + m))"
proof -
  have 1: "bit x n \<longleftrightarrow> (\<exists>m<1. bit x (n + m))" for n by simp
  have k: "2 = 1 + (1 :: nat)" "4 = 2 + (2 :: nat)" "8 = 4 + (4 :: nat)" "16 = 8 + (8 :: nat)" "32 = 16 + (16 :: nat)"
    by simp_all
  note 2 = smear_step [of x 1 x, OF 1 k(1)]
  note 4 = smear_step [OF 2 k(2)]
  note 8 = smear_step [OF 4 k(3)]
  note 16 = smear_step [OF 8 k(4)]
  note 32 = smear_step [OF 16 k(5)]
  show ?thesis unfolding clz_smear_def Let_def by (rule 32)
qed

lemma smear_mask:
  assumes "bit x k" "\<And>n. k < n \<Longrightarrow> \<not> bit x n"
  shows "clz_smear x = mask (k + 1)"
proof (rule bit_word_eqI)
  fix n
  have "k < 32" using assms(1) by (rule bit_lt)
  have "(\<exists>m<32. bit x (n + m)) \<longleftrightarrow> n < k + 1"
  proof
    assume "\<exists>m<32. bit x (n + m)"
    then obtain m where "bit x (n + m)" by blast
    then have "n + m \<le> k" using assms(2) linorder_not_less by blast
    then show "n < k + 1" by simp
  next
    assume "n < k + 1"
    then have "bit x (n + (k - n))" "k - n < 32" using assms(1) \<open>k < 32\<close> by simp_all
    then show "\<exists>m<32. bit x (n + m)" by blast
  qed
  then show "bit (clz_smear x) n = bit (mask (k + 1) :: u32) n"
    using \<open>k < 32\<close> by (auto simp: smear_bit bit_mask_iff)
qed

text \<open>The sum over the nibbles, for the 32 possible values.\<close>

definition nibble_sum :: "u32 \<Rightarrow> u32" where
  "nibble_sum x = clz_nibble x 0 + clz_nibble x 4 + clz_nibble x 8 + clz_nibble x 12 +
     clz_nibble x 16 + clz_nibble x 20 + clz_nibble x 24 + clz_nibble x 28"

lemma nibble_sum_all: "list_all (\<lambda>k. nibble_sum (mask (k + 1)) = of_nat (k + 1)) [0..<32]"
  by code_simp

lemma nibble_sum_mask: "k < 32 \<Longrightarrow> nibble_sum (mask (k + 1)) = of_nat (k + 1)"
  using nibble_sum_all unfolding list_all_iff by (metis atLeastLessThan_iff set_upt zero_le)

lemma highest_bit:
  assumes "x \<noteq> 0"
  obtains k where "bit (x :: u32) k" "\<And>n. k < n \<Longrightarrow> \<not> bit x n" "k < 32"
proof -
  let ?S = "{n. bit x n}"
  have ne: "\<exists>n. bit x n" using assms by (auto simp: bit_eq_iff)
  have fin: "finite ?S" by (rule finite_subset [of _ "{..<32}"]) (auto dest: bit_lt)
  have "Max ?S \<in> ?S" using ne fin by (intro Max_in) auto
  moreover have "n \<le> Max ?S" if "bit x n" for n using fin that by (intro Max_ge) auto
  ultimately show ?thesis using that [of "Max ?S"] bit_lt [of x] by (metis leD mem_Collect_eq)
qed

lemma highest_bit_bounds:
  assumes "bit (x :: u32) k" "\<And>n. k < n \<Longrightarrow> \<not> bit x n"
  shows "2 ^ k \<le> uint x" "uint x < 2 ^ (k + 1)"
proof -
  have b: "bit (uint x) n \<longleftrightarrow> bit x n" for n by (auto simp: bit_uint_iff dest: bit_lt)
  have "take_bit (k + 1) (uint x) = uint x"
    by (rule bit_eqI) (use assms(2) in \<open>auto simp: bit_take_bit_iff b less_Suc_eq_le not_less [symmetric]\<close>)
  then show "uint x < 2 ^ (k + 1)" by (metis take_bit_int_less_exp)
  have "uint x div 2 ^ k \<noteq> 0" using assms(1) b [of k] by (auto simp: bit_iff_odd)
  then show "2 ^ k \<le> uint x" using uint_bound(1) [of x] by (metis div_pos_pos_trivial linorder_not_less)
qed

lemma CLZ_effect:
  "\<exists>n. OP_CLZ i s = (2, set_reg i 12 (of_nat n) s) \<and> n \<le> 32 \<and> uint (reg i 0 s) < 2 ^ (32 - n) \<and>
    (n = 32 \<or> 2 ^ (31 - n) \<le> uint (reg i 0 s))"
proof (cases "reg i 0 s = 0")
  case True
  then have "OP_CLZ i s = (2, set_reg i 12 (of_nat 32) s)" by (simp add: OP_CLZ_def Let_def)
  then show ?thesis using True by (intro exI [of _ 32]) simp
next
  case False
  then obtain k where k: "bit (reg i 0 s) k" "\<And>n. k < n \<Longrightarrow> \<not> bit (reg i 0 s) n" "k < 32"
    using highest_bit by blast
  have "clz_smear (reg i 0 s) = mask (k + 1)" using k(1,2) by (rule smear_mask)
  then have sum: "nibble_sum (clz_smear (reg i 0 s)) = of_nat (k + 1)"
    using nibble_sum_mask [OF k(3)] by (simp only:)
  have "32 - nibble_sum (clz_smear (reg i 0 s)) = of_nat (31 - k)"
    unfolding sum using k(3) by (simp add: of_nat_diff)
  then have "OP_CLZ i s = (2, set_reg i 12 (of_nat (31 - k)) s)"
    using False by (simp add: OP_CLZ_def Let_def flip: nibble_sum_def)
  moreover have "32 - (31 - k) = k + 1" "31 - (31 - k) = k" using k(3) by simp_all
  ultimately show ?thesis
    using highest_bit_bounds [OF k(1,2)] by (intro exI [of _ "31 - k"]) simp
qed

end
