(* ===== verification/ArmNumberProperties.thy ===== *)
theory ArmNumberProperties
  imports ArmNumbers ArmExample
begin

text \<open>
  The properties of the multiplications, of the saturating instructions and of \<open>CLZ\<close>.
\<close>

lemma reg_long_upd: "reg_long i (put_NZ_long i s) = reg_long i s"
  by (simp add: reg_long_def put_NZ_long_def reg_def put_flag_def)

text \<open>
  C25. The eight long multiplications with two different destination registers leave the 64-bit product in
  the pair of registers, or add it to the pair, unsigned and signed, modulo \<open>2 ^ 64\<close>; with the flags, they are
  the sign and zero of the 64-bit result.
\<close>
theorem long_multiply:
  fixes s :: "'m CORE"
  assumes "REG_POS i 12 \<noteq> REG_POS i 16"
  shows "reg_long i (snd (OP_UMULL i s)) = of_int (uint (reg i 0 s) * uint (reg i 8 s)) \<and>
    reg_long i (snd (OP_SMULL i s)) = of_int (sint (reg i 0 s) * sint (reg i 8 s)) \<and>
    reg_long i (snd (OP_UMLAL i s)) = reg_long i s + of_int (uint (reg i 0 s) * uint (reg i 8 s)) \<and>
    reg_long i (snd (OP_SMLAL i s)) = reg_long i s + of_int (sint (reg i 0 s) * sint (reg i 8 s)) \<and>
    (\<forall>op \<in> {OP_UMULL_S, OP_SMULL_S, OP_UMLAL_S, OP_SMLAL_S}.
      let t = snd (op i s) in
      flag N_bit (cpu t) = bit (reg_long i t) 63 \<and> flag Z_bit (cpu t) = (reg_long i t = 0)) \<and>
    reg_long i (snd (OP_UMULL_S i s)) = reg_long i (snd (OP_UMULL i s)) \<and>
    reg_long i (snd (OP_SMULL_S i s)) = reg_long i (snd (OP_SMULL i s)) \<and>
    reg_long i (snd (OP_UMLAL_S i s)) = reg_long i (snd (OP_UMLAL i s)) \<and>
    reg_long i (snd (OP_SMLAL_S i s)) = reg_long i (snd (OP_SMLAL i s))"
proof -
  have u: "umul a b = of_int (uint a * uint b)" "smul a b = of_int (sint b * sint a)" for a b
    by (simp_all add: umul_def smul_def mult.commute)
  have f: "flag N_bit (cpu (put_NZ_long i t)) = bit (reg_long i (put_NZ_long i t)) 63 \<and>
      flag Z_bit (cpu (put_NZ_long i t)) = (reg_long i (put_NZ_long i t) = 0)" for t :: "'m CORE"
  proof -
    have "flag N_bit (cpu (put_NZ_long i t)) = bit (reg i 16 t) 31"
      "flag Z_bit (cpu (put_NZ_long i t)) = (reg i 16 t = 0 \<and> reg i 12 t = 0)"
      by (simp_all add: put_NZ_long_def flag_def put_flag_def flag_put_bit flag_defs reg_def)
    then show ?thesis by (simp add: long_flags reg_long_upd)
  qed
  have ops: "OP_UMULL_S i s = (fst (OP_UMULL i s), put_NZ_long i (snd (OP_UMULL i s)))"
    "OP_SMULL_S i s = (fst (OP_SMULL i s), put_NZ_long i (snd (OP_SMULL i s)))"
    "OP_UMLAL_S i s = (fst (OP_UMLAL i s), put_NZ_long i (snd (OP_UMLAL i s)))"
    "OP_SMLAL_S i s = (fst (OP_SMLAL i s), put_NZ_long i (snd (OP_SMLAL i s)))"
    by (simp_all add: OP_UMULL_S_def OP_UMULL_def OP_SMULL_S_def OP_SMULL_def OP_UMLAL_S_def OP_UMLAL_def
        OP_SMLAL_S_def OP_SMLAL_def Let_def)
  have "reg_long i (snd (OP_UMULL i s)) = umul (reg i 0 s) (reg i 8 s)"
    "reg_long i (snd (OP_SMULL i s)) = smul (reg i 8 s) (reg i 0 s)"
    "reg_long i (snd (OP_UMLAL i s)) = reg_long i s + umul (reg i 0 s) (reg i 8 s)"
    "reg_long i (snd (OP_SMLAL i s)) = reg_long i s + smul (reg i 8 s) (reg i 0 s)"
    using assms by (simp_all add: OP_UMULL_def OP_SMULL_def OP_UMLAL_def OP_SMLAL_def Let_def
        store_long_value accumulate_long_value)
  then show ?thesis unfolding u by (simp add: ops f reg_long_upd)
qed

text \<open>\<open>UMLAL R1, R0, R2, R3\<close>, with a carry into the upper half.\<close>

theorem long_multiply_witness:
  "reg_long 0xE0A01392 (snd (OP_UMLAL 0xE0A01392 (core_of (with_regs (\<lambda>n. if n = 2 then 0xFFFFFFFF else 2)) ())))
    = 0x400000000"
  using long_multiply [of "0xE0A01392" "core_of (with_regs (\<lambda>n. if n = 2 then 0xFFFFFFFF else 2)) ()"]
  by (simp add: REG_POS_def reg_long_def reg_def example_defs long_of_def)

lemma ucast_add_32: "(ucast (x + y :: u64) :: u32) = ucast x + ucast y"
proof -
  have "take_bit 32 (take_bit 64 a + take_bit 64 b) = take_bit 32 (a + b)" for a b :: int
  proof -
    have "take_bit 32 (take_bit 64 a + take_bit 64 b) =
        take_bit 32 (take_bit 32 (take_bit 64 a) + take_bit 32 (take_bit 64 b))"
      by (simp only: take_bit_add)
    also have "\<dots> = take_bit 32 (take_bit 32 a + take_bit 32 b)" by simp
    also have "\<dots> = take_bit 32 (a + b)" by (simp only: take_bit_add)
    finally show ?thesis .
  qed
  then show ?thesis by transfer simp
qed

lemma ucast_32: "(ucast (word_of_int p :: u64) :: u32) = word_of_int p" "ucast (ucast w :: u64) = (w :: u32)"
proof -
  show "(ucast (word_of_int p :: u64) :: u32) = word_of_int p" by transfer simp
  show "ucast (ucast w :: u64) = (w :: u32)" by (rule bit_word_eqI) (auto simp: bit_simps)
qed

lemma long_of_inj:
  assumes "long_of h l = long_of k m"
  shows "h = k"
proof (rule bit_word_eqI)
  fix n :: nat assume n: "n < LENGTH(32)"
  have "bit h n = bit (long_of h l) (n + 32)" for h l :: u32
    using n by (simp add: long_of_cat bit_word_cat_iff)
  then show "bit h n = bit k n" using assms by metis
qed

lemma long_of_int:
  "long_of h l + word_of_int p = long_of (h + word_of_int ((p + uint l) div 2 ^ 32)) (word_of_int p + l)"
proof -
  define m k where "m = p + uint l" and "k = m div 2 ^ 32"
  obtain q where q: "uint (h + word_of_int k) = uint h + k - q * 4294967296"
  proof
    have "uint (h + word_of_int k) = (uint h + k) mod 4294967296"
      by (simp add: uint_word_ariths unsigned_of_int take_bit_eq_mod mod_simps)
    then show "uint (h + word_of_int k) = uint h + k - (uint h + k) div 4294967296 * 4294967296"
      by (simp add: minus_div_mult_eq_mod)
  qed
  have l: "uint (word_of_int p + l) = m mod 4294967296"
    by (simp add: uint_word_ariths unsigned_of_int take_bit_eq_mod mod_simps m_def)
  have m: "k * 4294967296 + m mod 4294967296 = m" by (simp add: k_def)
  have "uint (h + word_of_int k) * 4294967296 + uint (word_of_int p + l) =
      (uint h * 4294967296 + uint l + p) + (- q) * 18446744073709551616"
    using m unfolding q l by (simp add: m_def algebra_simps)
  then have "long_of (h + word_of_int k) (word_of_int p + l) = word_of_int (uint h * 4294967296 + uint l + p)"
    unfolding long_of_def using word_of_int_wrap [of "uint h * 4294967296 + uint l + p" "- q"] by simp
  also have "\<dots> = long_of h l + word_of_int p" by (simp add: long_of_def)
  finally show ?thesis by (simp add: k_def m_def)
qed

lemma half_product:
  "\<bar>LWORD a * LWORD b\<bar> \<le> 2 ^ 30" "\<bar>LWORD a * HWORD b\<bar> \<le> 2 ^ 30" "\<bar>HWORD a * LWORD b\<bar> \<le> 2 ^ 30" "\<bar>HWORD a * HWORD b\<bar> \<le> 2 ^ 30"
proof -
  have h: "\<bar>HWORD a\<bar> \<le> 2 ^ 15" for a
  proof -
    have "HWORD a = sint a div 2 ^ 16" by (simp add: HWORD_def sint_signed_drop_bit_eq drop_bit_eq_div)
    moreover have "- (2 ^ 31) \<le> sint a" "sint a < 2 ^ 31" using sint_bound [of a] by simp_all
    ultimately show ?thesis by (simp add: abs_le_iff) linarith
  qed
  have l: "\<bar>LWORD a\<bar> \<le> 2 ^ 15" for a using h [of "push_bit 16 a"] by (simp add: LWORD_def HWORD_def)
  have "\<bar>x * y\<bar> \<le> 2 ^ 30" if "\<bar>x\<bar> \<le> 2 ^ 15" "\<bar>y\<bar> \<le> 2 ^ 15" for x y :: int
    using mult_mono [OF that] by (simp add: abs_mult)
  then show "\<bar>LWORD a * LWORD b\<bar> \<le> 2 ^ 30" "\<bar>LWORD a * HWORD b\<bar> \<le> 2 ^ 30" "\<bar>HWORD a * LWORD b\<bar> \<le> 2 ^ 30" "\<bar>HWORD a * HWORD b\<bar> \<le> 2 ^ 30"
    using h l by blast+
qed

text \<open>The effect of the accumulation on the pair of registers, and when it is the sum.\<close>

definition smlal_spec :: "u32 \<Rightarrow> int \<Rightarrow> 'm CORE \<Rightarrow> 'm CORE \<Rightarrow> bool" where
  "smlal_spec i p s t \<longleftrightarrow>
     (let lo = word_of_int p + reg i 12 s in
      reg i 12 t = lo \<and> reg i 16 t = reg i 16 s + lo - (if p < 0 then 1 else 0) \<and>
      (reg_long i t = reg_long i s + word_of_int p \<longleftrightarrow>
        lo = (if (if p < 0 then 0 else 2 ^ 32) \<le> p + uint (reg i 12 s) then 1 else 0)))"

lemma smlal_half_effect:
  assumes "REG_POS i 12 \<noteq> REG_POS i 16" "\<bar>p\<bar> \<le> 2 ^ 30"
  shows "smlal_spec i p s (snd (smlal_half i p s))"
proof -
  define t where "t = snd (smlal_half i p s)"
  define lo where "lo = word_of_int p + reg i 12 s"
  define n :: u32 where "n = (if p < 0 then 1 else 0)"
  have l: "reg i 12 t = lo" and h: "reg i 16 t = reg i 16 s + lo - n"
    using assms(1) by (simp_all add: t_def smlal_half_def Let_def ucast_add_32 ucast_32 lo_def n_def)
  define k where "k = (p + uint (reg i 12 s)) div 2 ^ 32"
  have b: "0 \<le> uint (reg i 12 s)" "uint (reg i 12 s) < 4294967296" using uint_bound [of "reg i 12 s"] by simp_all
  have d: "m div 4294967296 = q" if "q * 4294967296 \<le> m" "m < (q + 1) * 4294967296" for m q :: int
    by (rule int_div_pos_eq [where r = "m - q * 4294967296"]) (use that in \<open>simp_all add: algebra_simps\<close>)
  have k: "k = (if p < 0 then if 0 \<le> p + uint (reg i 12 s) then 0 else - 1
      else if 2 ^ 32 \<le> p + uint (reg i 12 s) then 1 else 0)"
    using assms(2) b unfolding k_def by (auto intro!: d simp: abs_le_iff) (use b in linarith)
  have e: "reg_long i s + word_of_int p = long_of (reg i 16 s + word_of_int k) lo"
    unfolding reg_long_def long_of_int by (simp add: k_def lo_def)
  have inj: "long_of x lo = long_of y lo \<longleftrightarrow> x = y" for x y by (auto dest: long_of_inj)
  have "reg_long i t = reg_long i s + word_of_int p \<longleftrightarrow> reg i 16 s + lo - n = reg i 16 s + word_of_int k"
    unfolding e by (simp only: reg_long_def l h inj)
  also have "\<dots> \<longleftrightarrow> lo = word_of_int k + n" by (auto simp: algebra_simps)
  also have "word_of_int k + n = (if (if p < 0 then 0 else 2 ^ 32) \<le> p + uint (reg i 12 s) then 1 else 0)"
    by (simp add: k n_def)
  finally show ?thesis using l h by (simp add: smlal_spec_def Let_def t_def lo_def n_def)
qed

text \<open>
  C37. The four halfword multiplications with 64-bit accumulation add the low half of the sum to the upper
  register, where its upper half belongs. So the lower register is right, the upper one is increased by the new
  lower one (less one for a negative product), and the pair of registers holds the sum of the pair and the product
  only if the new lower register is the carry: 1 if the low half overflows or if it reaches 0 from a negative
  product, and 0 otherwise.
\<close>
theorem smlal_upper_half:
  fixes s :: "'m CORE"
  assumes "REG_POS i 12 \<noteq> REG_POS i 16"
  shows "list_all (\<lambda>(f, p). let t = snd (f i s); lo = word_of_int p + reg i 12 s in
      reg i 12 t = lo \<and> reg i 16 t = reg i 16 s + lo - (if p < 0 then 1 else 0) \<and>
      (reg_long i t = reg_long i s + word_of_int p \<longleftrightarrow>
        lo = (if (if p < 0 then 0 else 2 ^ 32) \<le> p + uint (reg i 12 s) then 1 else 0)))
    [(OP_SMLAL_B_B, LWORD (reg i 0 s) * LWORD (reg i 8 s)), (OP_SMLAL_B_T, LWORD (reg i 0 s) * HWORD (reg i 8 s)),
     (OP_SMLAL_T_B, HWORD (reg i 0 s) * LWORD (reg i 8 s)), (OP_SMLAL_T_T, HWORD (reg i 0 s) * HWORD (reg i 8 s))]"
  using half_product [of "reg i 0 s" "reg i 8 s", THEN smlal_half_effect [OF assms, where s = s]]
  unfolding smlal_spec_def
  by (simp add: OP_SMLAL_B_B_def OP_SMLAL_B_T_def OP_SMLAL_T_B_def OP_SMLAL_T_T_def Let_def)

text \<open>\<open>SMLALBB R0, R1, R2, R3\<close> of 1 and 1 into an empty pair.\<close>

theorem smlal_upper_half_witness:
  "reg 0xE1410382 16 (snd (OP_SMLAL_B_B 0xE1410382
     (core_of (with_regs (\<lambda>n. if n = 2 \<or> n = 3 then 1 else 0)) ()))) = 1"
  using smlal_upper_half [of "0xE1410382" "core_of (with_regs (\<lambda>n. if n = 2 \<or> n = 3 then 1 else 0)) ()"]
  by (simp add: REG_POS_def reg_def example_defs LWORD_def Let_def)

text \<open>
  \<open>CLZ\<close> counts the leading zeros: the result is the number \<open>n\<close> up to 32 for which the operand has its
  highest bit at \<open>31 - n\<close>.
\<close>
theorem count_leading_zeros:
  "\<exists>n. OP_CLZ i s = (2, set_reg i 12 (of_nat n) s) \<and> n \<le> 32 \<and> uint (reg i 0 s) < 2 ^ (32 - n) \<and>
    (n = 32 \<or> 2 ^ (31 - n) \<le> uint (reg i 0 s))"
  by (rule CLZ_effect)

text \<open>
  C26. The four saturating instructions with a destination other than the program counter compute the sum or
  difference of the signed values, with the second operand doubled or not, limited to 32 bits at each
  step, and set the sticky flag exactly if a step was limited.
\<close>
theorem saturating_arithmetic:
  fixes s :: "'m CORE"
  assumes "REG_POS i 12 \<noteq> 15"
    and "a = sint (reg i 0 s)" "b = sint (reg i 16 s)" "d = clamp (2 * b)"
  shows "OP_QADD i s = (2, set_reg i 12 (of_int (clamp (b + a))) (set_Q (clamp (b + a) \<noteq> b + a) s)) \<and>
    OP_QSUB i s = (2, set_reg i 12 (of_int (clamp (a - b))) (set_Q (clamp (a - b) \<noteq> a - b) s)) \<and>
    OP_QDADD i s = (2, set_reg i 12 (of_int (clamp (a + d)))
      (set_Q (clamp (a + d) \<noteq> a + d \<or> d \<noteq> 2 * b) s)) \<and>
    OP_QDSUB i s = (2, set_reg i 12 (of_int (clamp (a - d)))
      (set_Q (clamp (a - d) \<noteq> a - d \<or> d \<noteq> 2 * b) s))"
  unfolding assms(2-4) QADD_effect [OF assms(1)] QSUB_effect [OF assms(1)] QDADD_effect [OF assms(1)]
    QDSUB_effect [OF assms(1)] Let_def by (intro conjI refl)

theorem saturating_arithmetic_witness:
  "OP_QADD 0xE1010052 (core_of (with_regs (\<lambda>_. 0x7FFFFFFF)) ()) =
    (2, set_reg 0xE1010052 12 0x7FFFFFFF (set_Q True (core_of (with_regs (\<lambda>_. 0x7FFFFFFF)) ())))"
proof -
  let ?s = "core_of (with_regs (\<lambda>_. 0x7FFFFFFF)) ()"
  have r: "REG_POS 0xE1010052 12 \<noteq> 15" by (simp add: REG_POS_def)
  have v: "sint (reg 0xE1010052 n ?s) = 0x7FFFFFFF" for n by (simp add: reg_def example_defs)
  have c: "clamp (0x7FFFFFFF + 0x7FFFFFFF) = 0x7FFFFFFF" by (simp add: clamp_def)
  show ?thesis
    using saturating_arithmetic [OF r refl refl refl, of ?s] unfolding v c by simp
qed

end
