(* ===== verification/MmuCorrect.thy ===== *)
theory MmuCorrect
  imports Mmu ArmShift ArmExample
begin

text \<open>
  The main memory behind \<open>MMU_read32\<close> and \<open>MMU_write32\<close> is a store of words: a read returns what
  was last written to the same cell, and no access leaves the array. The locale \<open>word_store\<close> is the
  interface; its client is a sequence of writes.
\<close>

section \<open>A store of words\<close>

locale word_store =
  fixes rd :: "u32 \<Rightarrow> 'm \<Rightarrow> u32"
    and wr :: "u32 \<Rightarrow> u32 \<Rightarrow> 'm \<Rightarrow> 'm"
    and ok :: "'m \<Rightarrow> bool"
    and valid :: "u32 \<Rightarrow> bool"
    and cell :: "u32 \<Rightarrow> u32"
  assumes wr_ok: "ok m \<Longrightarrow> valid a \<Longrightarrow> ok (wr a v m)"
    and rd_wr: "ok m \<Longrightarrow> valid a \<Longrightarrow> valid b \<Longrightarrow>
      rd b (wr a v m) = (if cell a = cell b then v else rd b m)"
begin

definition writes :: "(u32 \<times> u32) list \<Rightarrow> 'm \<Rightarrow> 'm" where
  "writes ws m = fold (\<lambda>(a, v). wr a v) ws m"

lemma writes_ok: "ok m \<Longrightarrow> list_all (\<lambda>(a, v). valid a) ws \<Longrightarrow> ok (writes ws m)"
  by (induction ws arbitrary: m) (auto simp: writes_def wr_ok)

lemma writes_snoc: "writes (ws @ [(a, v)]) m = wr a v (writes ws m)"
  by (simp add: writes_def)

text \<open>The last write to a cell wins.\<close>

lemma rd_writes:
  assumes "ok m" "list_all (\<lambda>(a, v). valid a) ws" "valid b"
  shows "rd b (writes ws m) =
    (case map_of (rev (map (\<lambda>(a, v). (cell a, v)) ws)) (cell b) of Some v \<Rightarrow> v | None \<Rightarrow> rd b m)"
  using assms(2)
proof (induction ws rule: rev_induct)
  case Nil
  then show ?case by (simp add: writes_def)
next
  case (snoc w ws)
  then show ?case using assms by (cases w) (simp add: writes_snoc rd_wr writes_ok)
qed

end

section \<open>Words in the byte array\<close>

lemma bytes_word:
  fixes v :: u32
  shows "push_bit 24 (ucast (ucast (drop_bit 24 v) :: byte)) OR push_bit 16 (ucast (ucast (drop_bit 16 v AND 0xFF) :: byte)) OR
    push_bit 8 (ucast (ucast (drop_bit 8 v AND 0xFF) :: byte)) OR ucast (ucast (v AND 0xFF) :: byte) = v"
proof -
  have m: "(0xFF :: u32) = mask 8" by (simp add: mask_eq_exp_minus_1)
  show ?thesis unfolding m
  proof (rule bit_word_eqI)
    fix n :: nat assume "n < LENGTH(32)"
    then consider "n < 8" | "8 \<le> n" "n < 16" | "16 \<le> n" "n < 24" | "24 \<le> n" "n < 32" by fastforce
    then show "bit (push_bit 24 (ucast (ucast (drop_bit 24 v) :: byte)) OR
        push_bit 16 (ucast (ucast (drop_bit 16 v AND mask 8) :: byte)) OR
        push_bit 8 (ucast (ucast (drop_bit 8 v AND mask 8) :: byte)) OR ucast (ucast (v AND mask 8) :: byte) :: u32) n = bit v n"
      by cases (auto simp: bit_simps)
  qed
qed

lemma read_write_long: "T1ReadLong_guaranteedAligned (T1WriteLong mem a v) a = v"
  using bytes_word [of v] by (simp add: T1ReadLong_guaranteedAligned_def T1WriteLong_def)

text \<open>Two cells with aligned indices are equal or disjoint.\<close>

lemma aligned_disjoint:
  fixes a b :: u32
  assumes "a AND 3 = 0" "b AND 3 = 0" "a \<noteq> b"
  shows "unat a + 3 < unat b \<or> unat b + 3 < unat a"
proof -
  have m: "(3 :: u32) = mask 2" by (simp add: mask_eq_exp_minus_1)
  have "unat x mod 4 = 0" if "x AND 3 = 0" for x :: u32
  proof -
    have "take_bit 2 x = 0" using that by (simp add: m take_bit_eq_mask)
    then have "take_bit 2 (unat x) = 0" by (metis unsigned_take_bit_eq unsigned_0)
    then show ?thesis by (simp add: take_bit_eq_mod)
  qed
  then have "unat a mod 4 = 0" "unat b mod 4 = 0" using assms by auto
  moreover have "unat a \<noteq> unat b" using assms(3) by (simp add: word_unat_eq_iff)
  ultimately show ?thesis by presburger
qed

lemma read_write_other:
  assumes "a AND 3 = 0" "b AND 3 = 0" "a \<noteq> b"
  shows "T1ReadLong_guaranteedAligned (T1WriteLong mem a v) b = T1ReadLong_guaranteedAligned mem b"
  using aligned_disjoint [OF assms] by (auto simp: T1ReadLong_guaranteedAligned_def T1WriteLong_def)

section \<open>The main memory\<close>

text \<open>The masks of one of the three sizes \<open>SetupMMU\<close> chooses from.\<close>

definition mem_size :: "bool \<Rightarrow> bool \<Rightarrow> nat" where
  "mem_size debugConsole dsi = (if dsi then 0x1000000 else if debugConsole then 0x800000 else 0x400000)"

lemma SetupMMU_masks:
  "MAIN_MEM_MASK (SetupMMU debugConsole dsi m) = of_nat (mem_size debugConsole dsi) - 1"
  "MAIN_MEM_MASK16 (SetupMMU debugConsole dsi m) = of_nat (mem_size debugConsole dsi) - 2"
  "MAIN_MEM_MASK32 (SetupMMU debugConsole dsi m) = of_nat (mem_size debugConsole dsi) - 4"
  by (simp_all add: SetupMMU_def mem_size_def Let_def)

lemma main_index_bounds:
  "unat (a AND MAIN_MEM_MASK (SetupMMU d e m)) < mem_size d e"
  "unat (a AND MAIN_MEM_MASK16 (SetupMMU d e m)) + 1 < mem_size d e"
  "unat (a AND MAIN_MEM_MASK32 (SetupMMU d e m)) + 3 < mem_size d e"
proof -
  have b: "unat (a AND k) \<le> unat k" for k :: u32 by (rule unat_and_le)
  show "unat (a AND MAIN_MEM_MASK (SetupMMU d e m)) < mem_size d e"
    using b [of "MAIN_MEM_MASK (SetupMMU d e m)"] by (auto simp: SetupMMU_masks mem_size_def split: if_splits)
  show "unat (a AND MAIN_MEM_MASK16 (SetupMMU d e m)) + 1 < mem_size d e"
    using b [of "MAIN_MEM_MASK16 (SetupMMU d e m)"] by (auto simp: SetupMMU_masks mem_size_def split: if_splits)
  show "unat (a AND MAIN_MEM_MASK32 (SetupMMU d e m)) + 3 < mem_size d e"
    using b [of "MAIN_MEM_MASK32 (SetupMMU d e m)"] by (auto simp: SetupMMU_masks mem_size_def split: if_splits)
qed

text \<open>
  An address of the main memory as processor \<open>P\<close> sees it, when the data TCM is at \<open>region\<close>, and
  the states in which the masks and the region are the given ones.
\<close>

definition main_word :: "u32 \<Rightarrow> u32 \<Rightarrow> u32 \<Rightarrow> bool" where
  "main_word P region a = (in_main a \<and> (P = 0 \<longrightarrow> a AND NOT 0x3FFF \<noteq> region))"

definition main_ok :: "u32 \<Rightarrow> u32 \<Rightarrow> 'b MMU \<Rightarrow> bool" where
  "main_ok k region m = (MAIN_MEM_MASK32 m = k \<and> k AND 3 = 0 \<and> DTCMRegion m = region)"

lemma main_read:
  assumes "P = 0 \<or> P = 1" "main_ok k region m" "main_word P region a"
  shows "MMU_read32 B P MMU_AT_DATA a m = (T1ReadLong_guaranteedAligned (MAIN_MEM m) (a AND k), m)"
  using assms by (auto simp: MMU_read32_def main_ok_def main_word_def in_dtcm_def)

lemma main_write:
  assumes "P = 0 \<or> P = 1" "main_ok k region m" "main_word P region a"
  shows "MMU_write32 B P MMU_AT_DATA a v m = m\<lparr>MAIN_MEM := T1WriteLong (MAIN_MEM m) (a AND k) v\<rparr>"
  using assms by (auto simp: MMU_write32_def main_ok_def main_word_def in_dtcm_def)

text \<open>The masks clear the two lowest address bits.\<close>

lemma align_mask: "k AND 3 = 0 \<Longrightarrow> (a AND 0xFFFFFFFC) AND k = a AND (k :: u32)"
proof -
  assume "k AND 3 = 0"
  then have "k = k AND 0xFFFFFFFC" by (simp add: aligned_id)
  then show "(a AND 0xFFFFFFFC) AND k = a AND k" by (metis and.assoc and.commute)
qed

interpretation main: word_store
  "\<lambda>a m. fst (MMU_read32 B P MMU_AT_DATA a m)" "MMU_write32 B P MMU_AT_DATA"
  "\<lambda>m. main_ok k region m \<and> (P = 0 \<or> P = 1)" "main_word P region" "\<lambda>a. a AND k"
  for B P k region
proof (unfold_locales, goal_cases)
  case (1 m a v)
  then show ?case by (auto simp: main_write main_ok_def)
next
  case (2 m a b v)
  then have m: "P = 0 \<or> P = 1" "main_ok k region m" "main_word P region a" "main_word P region b"
    by auto
  have ok: "main_ok k region (m\<lparr>MAIN_MEM := mem\<rparr>)" for mem using m(2) by (simp add: main_ok_def)
  have al: "(x AND k) AND 3 = 0" for x using m(2) by (simp add: main_ok_def and.assoc)
  show ?case unfolding main_write [OF m(1-3)] main_read [OF m(1) ok m(4)] main_read [OF m(1,2,4)]
    by (simp add: read_write_long read_write_other al)
qed

text \<open>The example is one of these states.\<close>

lemma example_main_ok: "main_ok 0x3FFFFC 0x027C0000 example_mmu"
  by (simp add: main_ok_def example_mmu_def SetupMMU_def Let_def)

end
