(* ===== verification/ArmTransfer.thy ===== *)
theory ArmTransfer
  imports ArmMisc
begin

text \<open>
  Loads and stores of one register: \<^verbatim>\<open>arm_instructions.cpp\<close>. The C code has one function per
  mnemonic, kind of offset, sign and indexing; here the offset and the sign (\<open>up\<close>) are arguments and
  there is one definition per mnemonic and indexing: \<open>OFF\<close> leaves the base register, \<open>PREIND\<close> writes the
  address back before the access and \<open>POSTIND\<close> uses the base as address and changes it.
\<close>

section \<open>Offsets\<close>

text \<open>The offset of a halfword transfer, and of a word or byte transfer.\<close>

datatype half_offset = IMM_OFF | REG_OFF

definition half_off :: "half_offset \<Rightarrow> u32 \<Rightarrow> armcpu_t \<Rightarrow> u32" where
  "half_off k i c = (case k of IMM_OFF \<Rightarrow> (drop_bit 4 i AND 0xF0) + (i AND 0xF) | REG_OFF \<Rightarrow> R c (REG_POS i 0))"

datatype word_offset = IMM_OFF_12 | LSL_IMM_OFF | LSR_IMM_OFF | ASR_IMM_OFF | ROR_IMM_OFF

definition word_off :: "word_offset \<Rightarrow> u32 \<Rightarrow> armcpu_t \<Rightarrow> u32" where
  "word_off k i c =
     (case k of IMM_OFF_12 \<Rightarrow> i AND 0xFFF
      | LSL_IMM_OFF \<Rightarrow> shift_op LSL_IMM i c | LSR_IMM_OFF \<Rightarrow> shift_op LSR_IMM i c
      | ASR_IMM_OFF \<Rightarrow> shift_op ASR_IMM i c | ROR_IMM_OFF \<Rightarrow> shift_op ROR_IMM i c)"

definition add_off :: "bool \<Rightarrow> u32 \<Rightarrow> u32 \<Rightarrow> u32" where
  "add_off up base off = (if up then base + off else base - off)"

definition half_adr :: "half_offset \<Rightarrow> bool \<Rightarrow> u32 \<Rightarrow> 'm CORE \<Rightarrow> u32" where
  "half_adr k up i s = add_off up (reg i 16 s) (half_off k i (cpu s))"

definition word_adr :: "word_offset \<Rightarrow> bool \<Rightarrow> u32 \<Rightarrow> 'm CORE \<Rightarrow> u32" where
  "word_adr k up i s = add_off up (reg i 16 s) (word_off k i (cpu s))"

section \<open>Accesses\<close>

text \<open>The access of each mnemonic to the register at bits 12 to 15, with its cycles.\<close>

definition load_half :: "'m MEM \<Rightarrow> u32 \<Rightarrow> u32 \<Rightarrow> 'm CORE \<Rightarrow> u32 \<times> 'm CORE" where
  "load_half M i adr s =
     (let (v, s) = READ16 M adr s in
      MMU_aluMemAccessCycles M 16 MMU_AD_READ 3 adr (set_reg i 12 (ucast v) s))"

definition load_shalf :: "'m MEM \<Rightarrow> u32 \<Rightarrow> u32 \<Rightarrow> 'm CORE \<Rightarrow> u32 \<times> 'm CORE" where
  "load_shalf M i adr s =
     (let (v, s) = READ16 M adr s in
      MMU_aluMemAccessCycles M 16 MMU_AD_READ 3 adr (set_reg i 12 (scast v) s))"

definition load_sbyte :: "'m MEM \<Rightarrow> u32 \<Rightarrow> u32 \<Rightarrow> 'm CORE \<Rightarrow> u32 \<times> 'm CORE" where
  "load_sbyte M i adr s =
     (let (v, s) = READ8 M adr s in
      MMU_aluMemAccessCycles M 8 MMU_AD_READ 3 adr (set_reg i 12 (scast v) s))"

definition load_byte :: "'m MEM \<Rightarrow> u32 \<Rightarrow> u32 \<Rightarrow> 'm CORE \<Rightarrow> u32 \<times> 'm CORE" where
  "load_byte M i adr s =
     (let (v, s) = READ8 M adr s in
      MMU_aluMemAccessCycles M 8 MMU_AD_READ 3 adr (set_reg i 12 (ucast v) s))"

text \<open>
  A word load rotates an unaligned word. A load of the program counter is a jump, which on the ARM9
  may change to Thumb state.
\<close>

definition load_pc :: "'m CORE \<Rightarrow> 'm CORE" where
  "load_pc s =
     (let s = (if proc_ID (cpu s) = 0
               then upd_cpu (\<lambda>c. setR 15 (R c 15 AND 0xFFFFFFFE) (put_flag T_bit (bit (R c 15) 0) c)) s
               else upd_cpu (\<lambda>c. setR 15 (R c 15 AND 0xFFFFFFFC) c) s) in
      upd_cpu (\<lambda>c. c\<lparr>next_instruction := R c 15\<rparr>) s)"

definition load_word :: "'m MEM \<Rightarrow> u32 \<Rightarrow> u32 \<Rightarrow> u32 \<Rightarrow> u32 \<Rightarrow> 'm CORE \<Rightarrow> u32 \<times> 'm CORE" where
  "load_word M a b i adr s =
     (let (v, s) = READ32 M adr s;
          s = set_reg i 12 (ROR v (unat (8 * (adr AND 3)))) s in
      if REG_POS i 12 = 15 then MMU_aluMemAccessCycles M 32 MMU_AD_READ b adr (load_pc s)
      else MMU_aluMemAccessCycles M 32 MMU_AD_READ a adr s)"

definition store_half :: "'m MEM \<Rightarrow> u32 \<Rightarrow> u32 \<Rightarrow> 'm CORE \<Rightarrow> 'm CORE" where
  "store_half M i adr s = WRITE16 M adr (ucast (reg i 12 s)) s"

definition store_word :: "'m MEM \<Rightarrow> u32 \<Rightarrow> u32 \<Rightarrow> 'm CORE \<Rightarrow> 'm CORE" where
  "store_word M i adr s = WRITE32 M adr (reg i 12 s) s"

definition store_byte :: "'m MEM \<Rightarrow> u32 \<Rightarrow> u32 \<Rightarrow> 'm CORE \<Rightarrow> 'm CORE" where
  "store_byte M i adr s = WRITE8 M adr (ucast (reg i 12 s)) s"

section \<open>LDRH\<close>

definition OP_LDRH_OFF :: "'m MEM \<Rightarrow> half_offset \<Rightarrow> bool \<Rightarrow> u32 \<Rightarrow> 'm CORE \<Rightarrow> u32 \<times> 'm CORE" where
  "OP_LDRH_OFF M k up i s = load_half M i (half_adr k up i s) s"

definition OP_LDRH_PREIND :: "'m MEM \<Rightarrow> half_offset \<Rightarrow> bool \<Rightarrow> u32 \<Rightarrow> 'm CORE \<Rightarrow> u32 \<times> 'm CORE" where
  "OP_LDRH_PREIND M k up i s =
     (let adr = half_adr k up i s in load_half M i adr (set_reg i 16 adr s))"

definition OP_LDRH_POSTIND :: "'m MEM \<Rightarrow> half_offset \<Rightarrow> bool \<Rightarrow> u32 \<Rightarrow> 'm CORE \<Rightarrow> u32 \<times> 'm CORE" where
  "OP_LDRH_POSTIND M k up i s =
     (let adr = reg i 16 s in load_half M i adr (set_reg i 16 (half_adr k up i s) s))"

section \<open>STRH\<close>

definition OP_STRH_OFF :: "'m MEM \<Rightarrow> half_offset \<Rightarrow> bool \<Rightarrow> u32 \<Rightarrow> 'm CORE \<Rightarrow> u32 \<times> 'm CORE" where
  "OP_STRH_OFF M k up i s =
     (let adr = half_adr k up i s in MMU_aluMemAccessCycles M 16 MMU_AD_WRITE 2 adr (store_half M i adr s))"

definition OP_STRH_PREIND :: "'m MEM \<Rightarrow> half_offset \<Rightarrow> bool \<Rightarrow> u32 \<Rightarrow> 'm CORE \<Rightarrow> u32 \<times> 'm CORE" where
  "OP_STRH_PREIND M k up i s =
     (let adr = half_adr k up i s; s = set_reg i 16 adr s in MMU_aluMemAccessCycles M 16 MMU_AD_WRITE 2 adr (store_half M i adr s))"

definition OP_STRH_POSTIND :: "'m MEM \<Rightarrow> half_offset \<Rightarrow> bool \<Rightarrow> u32 \<Rightarrow> 'm CORE \<Rightarrow> u32 \<times> 'm CORE" where
  "OP_STRH_POSTIND M k up i s =
     (let adr = reg i 16 s; next_base = half_adr k up i s in
      MMU_aluMemAccessCycles M 16 MMU_AD_WRITE 2 adr (set_reg i 16 next_base (store_half M i adr s)))"

section \<open>LDRSH\<close>

definition OP_LDRSH_OFF :: "'m MEM \<Rightarrow> half_offset \<Rightarrow> bool \<Rightarrow> u32 \<Rightarrow> 'm CORE \<Rightarrow> u32 \<times> 'm CORE" where
  "OP_LDRSH_OFF M k up i s = load_shalf M i (half_adr k up i s) s"

definition OP_LDRSH_PREIND :: "'m MEM \<Rightarrow> half_offset \<Rightarrow> bool \<Rightarrow> u32 \<Rightarrow> 'm CORE \<Rightarrow> u32 \<times> 'm CORE" where
  "OP_LDRSH_PREIND M k up i s =
     (let adr = half_adr k up i s in load_shalf M i adr (set_reg i 16 adr s))"

definition OP_LDRSH_POSTIND :: "'m MEM \<Rightarrow> half_offset \<Rightarrow> bool \<Rightarrow> u32 \<Rightarrow> 'm CORE \<Rightarrow> u32 \<times> 'm CORE" where
  "OP_LDRSH_POSTIND M k up i s =
     (let adr = reg i 16 s in load_shalf M i adr (set_reg i 16 (half_adr k up i s) s))"

section \<open>LDRSB\<close>

definition OP_LDRSB_OFF :: "'m MEM \<Rightarrow> half_offset \<Rightarrow> bool \<Rightarrow> u32 \<Rightarrow> 'm CORE \<Rightarrow> u32 \<times> 'm CORE" where
  "OP_LDRSB_OFF M k up i s = load_sbyte M i (half_adr k up i s) s"

definition OP_LDRSB_PREIND :: "'m MEM \<Rightarrow> half_offset \<Rightarrow> bool \<Rightarrow> u32 \<Rightarrow> 'm CORE \<Rightarrow> u32 \<times> 'm CORE" where
  "OP_LDRSB_PREIND M k up i s =
     (let adr = half_adr k up i s in load_sbyte M i adr (set_reg i 16 adr s))"

definition OP_LDRSB_POSTIND :: "'m MEM \<Rightarrow> half_offset \<Rightarrow> bool \<Rightarrow> u32 \<Rightarrow> 'm CORE \<Rightarrow> u32 \<times> 'm CORE" where
  "OP_LDRSB_POSTIND M k up i s =
     (let adr = reg i 16 s in load_sbyte M i adr (set_reg i 16 (half_adr k up i s) s))"

section \<open>LDR\<close>

definition OP_LDR_OFF :: "'m MEM \<Rightarrow> word_offset \<Rightarrow> bool \<Rightarrow> u32 \<Rightarrow> 'm CORE \<Rightarrow> u32 \<times> 'm CORE" where
  "OP_LDR_OFF M k up i s = load_word M 3 5 i (word_adr k up i s) s"

definition OP_LDR_PREIND :: "'m MEM \<Rightarrow> word_offset \<Rightarrow> bool \<Rightarrow> u32 \<Rightarrow> 'm CORE \<Rightarrow> u32 \<times> 'm CORE" where
  "OP_LDR_PREIND M k up i s =
     (let adr = word_adr k up i s in load_word M 3 5 i adr (set_reg i 16 adr s))"

definition OP_LDR_POSTIND :: "'m MEM \<Rightarrow> word_offset \<Rightarrow> bool \<Rightarrow> u32 \<Rightarrow> 'm CORE \<Rightarrow> u32 \<times> 'm CORE" where
  "OP_LDR_POSTIND M k up i s =
     (let adr = reg i 16 s in load_word M 3 5 i adr (set_reg i 16 (word_adr k up i s) s))"

definition OP_LDREX :: "'m MEM \<Rightarrow> u32 \<Rightarrow> 'm CORE \<Rightarrow> u32 \<times> 'm CORE" where
  "OP_LDREX M i s =
     (let adr = reg i 16 s; (v, s) = READ32 M adr s in
      MMU_aluMemAccessCycles M 32 MMU_AD_READ 3 adr (set_reg i 12 (ROR v (unat (8 * (adr AND 3)))) s))"

section \<open>LDRB\<close>

definition OP_LDRB_OFF :: "'m MEM \<Rightarrow> word_offset \<Rightarrow> bool \<Rightarrow> u32 \<Rightarrow> 'm CORE \<Rightarrow> u32 \<times> 'm CORE" where
  "OP_LDRB_OFF M k up i s = load_byte M i (word_adr k up i s) s"

definition OP_LDRB_PREIND :: "'m MEM \<Rightarrow> word_offset \<Rightarrow> bool \<Rightarrow> u32 \<Rightarrow> 'm CORE \<Rightarrow> u32 \<times> 'm CORE" where
  "OP_LDRB_PREIND M k up i s =
     (let adr = word_adr k up i s in load_byte M i adr (set_reg i 16 adr s))"

definition OP_LDRB_POSTIND :: "'m MEM \<Rightarrow> word_offset \<Rightarrow> bool \<Rightarrow> u32 \<Rightarrow> 'm CORE \<Rightarrow> u32 \<times> 'm CORE" where
  "OP_LDRB_POSTIND M k up i s =
     (let adr = reg i 16 s in load_byte M i adr (set_reg i 16 (word_adr k up i s) s))"

section \<open>STR\<close>

definition OP_STR_OFF :: "'m MEM \<Rightarrow> word_offset \<Rightarrow> bool \<Rightarrow> u32 \<Rightarrow> 'm CORE \<Rightarrow> u32 \<times> 'm CORE" where
  "OP_STR_OFF M k up i s =
     (let adr = word_adr k up i s in MMU_aluMemAccessCycles M 32 MMU_AD_WRITE 2 adr (store_word M i adr s))"

definition OP_STR_PREIND :: "'m MEM \<Rightarrow> word_offset \<Rightarrow> bool \<Rightarrow> u32 \<Rightarrow> 'm CORE \<Rightarrow> u32 \<times> 'm CORE" where
  "OP_STR_PREIND M k up i s =
     (let adr = word_adr k up i s; s = set_reg i 16 adr s in MMU_aluMemAccessCycles M 32 MMU_AD_WRITE 2 adr (store_word M i adr s))"

definition OP_STR_POSTIND :: "'m MEM \<Rightarrow> word_offset \<Rightarrow> bool \<Rightarrow> u32 \<Rightarrow> 'm CORE \<Rightarrow> u32 \<times> 'm CORE" where
  "OP_STR_POSTIND M k up i s =
     (let adr = reg i 16 s; next_base = word_adr k up i s in
      MMU_aluMemAccessCycles M 32 MMU_AD_WRITE 2 adr (set_reg i 16 next_base (store_word M i adr s)))"

definition OP_STREX :: "'m MEM \<Rightarrow> u32 \<Rightarrow> 'm CORE \<Rightarrow> u32 \<times> 'm CORE" where
  "OP_STREX M i s =
     (let adr = reg i 16 s; s = WRITE32 M adr (reg i 0 s) s in
      MMU_aluMemAccessCycles M 32 MMU_AD_WRITE 2 adr (set_reg i 12 0 s))"

section \<open>STRB\<close>

definition OP_STRB_OFF :: "'m MEM \<Rightarrow> word_offset \<Rightarrow> bool \<Rightarrow> u32 \<Rightarrow> 'm CORE \<Rightarrow> u32 \<times> 'm CORE" where
  "OP_STRB_OFF M k up i s =
     (let adr = word_adr k up i s in MMU_aluMemAccessCycles M 8 MMU_AD_WRITE 2 adr (store_byte M i adr s))"

definition OP_STRB_PREIND :: "'m MEM \<Rightarrow> word_offset \<Rightarrow> bool \<Rightarrow> u32 \<Rightarrow> 'm CORE \<Rightarrow> u32 \<times> 'm CORE" where
  "OP_STRB_PREIND M k up i s =
     (let adr = word_adr k up i s; s = set_reg i 16 adr s in MMU_aluMemAccessCycles M 8 MMU_AD_WRITE 2 adr (store_byte M i adr s))"

definition OP_STRB_POSTIND :: "'m MEM \<Rightarrow> word_offset \<Rightarrow> bool \<Rightarrow> u32 \<Rightarrow> 'm CORE \<Rightarrow> u32 \<times> 'm CORE" where
  "OP_STRB_POSTIND M k up i s =
     (let adr = reg i 16 s; next_base = word_adr k up i s in
      MMU_aluMemAccessCycles M 8 MMU_AD_WRITE 2 adr (set_reg i 16 next_base (store_byte M i adr s)))"

end
