(* ===== verification/MmuProperties.thy ===== *)
theory MmuProperties
  imports MmuCorrect ArmTransfer ArmExample
begin

text \<open>
  The properties of the memory accesses and of the transfers between registers and main memory.
\<close>

text \<open>
  After any sequence of word writes of a processor to its main memory, a read returns the last value
  written to the same cell of the array, or what the cell held before when there is none.
\<close>
theorem main_memory_last_write:
  assumes "P = 0 \<or> P = 1" and "main_ok k region m"
    and "list_all (\<lambda>(a, v). main_word P region a) ws" and "main_word P region b"
  shows "fst (MMU_read32 B P MMU_AT_DATA b (fold (\<lambda>(a, v). MMU_write32 B P MMU_AT_DATA a v) ws m)) =
    (case map_of (rev (map (\<lambda>(a, v). (a AND k, v)) ws)) (b AND k) of
       Some v \<Rightarrow> v | None \<Rightarrow> fst (MMU_read32 B P MMU_AT_DATA b m))"
  using main.rd_writes [of k region m P ws b B] assms by (simp add: main.writes_def)

lemma main_wordI: "in_main a \<Longrightarrow> a AND NOT 0x3FFF \<noteq> region \<Longrightarrow> main_word P region a"
  by (simp add: main_word_def)

text \<open>The mirror at 0x02400000 is the same cell.\<close>

theorem main_memory_last_write_witness:
  "fst (MMU_read32 example_bus 0 MMU_AT_DATA 0x02400010
     (fold (\<lambda>(a, v). MMU_write32 example_bus 0 MMU_AT_DATA a v)
       [(0x02000010, 1), (0x02000014, 2), (0x02000010, 3)] example_mmu)) = 3"
proof -
  have m: "main_word 0 0x027C0000 0x02400010" "main_word 0 0x027C0000 0x02000010" "main_word 0 0x027C0000 0x02000014"
    by (simp_all add: main_word_def in_main_def)
  show ?thesis
    using main_memory_last_write [OF _ example_main_ok, of 0
      "[(0x02000010, 1), (0x02000014, 2), (0x02000010, 3)]" "0x02400010" example_bus] m by simp
qed

text \<open>
  No access leaves the main memory: with the masks of any of the three memory sizes, the bytes a
  byte, halfword or word access to any address touches are inside the array.
\<close>
theorem main_memory_bounds:
  "unat (a AND MAIN_MEM_MASK (SetupMMU debugConsole dsi m)) < mem_size debugConsole dsi \<and>
   unat (a AND MAIN_MEM_MASK16 (SetupMMU debugConsole dsi m)) + 1 < mem_size debugConsole dsi \<and>
   unat (a AND MAIN_MEM_MASK32 (SetupMMU debugConsole dsi m)) + 3 < mem_size debugConsole dsi"
  by (intro conjI main_index_bounds)

section \<open>Loads and stores\<close>

text \<open>A word access of the program's memory system to the main memory.\<close>

lemma READ32_main:
  fixes s :: "('b MMU \<times> TIMING) CORE"
  assumes "proc_ID (cpu s) = 0 \<or> proc_ID (cpu s) = 1" "main_ok k region (fst (mmu s))"
    and "main_word (proc_ID (cpu s)) region (adr AND 0xFFFFFFFC)"
  shows "READ32 (nds_mem B) adr s = (T1ReadLong_guaranteedAligned (MAIN_MEM (fst (mmu s))) (adr AND k), s)"
proof -
  have "k AND 3 = 0" using assms(2) by (simp add: main_ok_def)
  then show ?thesis
    by (cases "mmu s") (use assms in \<open>simp add: READ32_def nds_mem_def main_read align_mask\<close>)
qed

lemma WRITE32_main:
  fixes s :: "('b MMU \<times> TIMING) CORE"
  assumes "proc_ID (cpu s) = 0 \<or> proc_ID (cpu s) = 1" "main_ok k region (fst (mmu s))"
    and "main_word (proc_ID (cpu s)) region (adr AND 0xFFFFFFFC)"
  shows "WRITE32 (nds_mem B) adr v s =
    s\<lparr>mmu := ((fst (mmu s))\<lparr>MAIN_MEM := T1WriteLong (MAIN_MEM (fst (mmu s))) (adr AND k) v\<rparr>, snd (mmu s))\<rparr>"
proof -
  have "k AND 3 = 0" using assms(2) by (simp add: main_ok_def)
  then show ?thesis
    by (cases "mmu s") (use assms in \<open>simp add: WRITE32_def nds_mem_def main_write align_mask\<close>)
qed

text \<open>The computation of the cycles changes the timing state only.\<close>

lemma cycles_cpu:
  fixes s :: "('b MMU \<times> TIMING) CORE"
  shows "cpu (snd (MMU_aluMemAccessCycles (nds_mem B) n d c adr s)) = cpu s"
    "fst (mmu (snd (MMU_aluMemAccessCycles (nds_mem B) n d c adr s))) = fst (mmu s)"
  by (cases "mmu s"; simp add: MMU_aluMemAccessCycles_def MMU_memAccessCycles_def nds_mem_def split_beta)+

lemma word_adr_cpu: "cpu s = cpu t \<Longrightarrow> word_adr k up i s = word_adr k up i t"
  by (simp add: word_adr_def reg_def)

text \<open>
  C20. A word stored with \<open>STR\<close> is loaded back with \<open>LDR\<close>: when both instructions compute the same address
  and it is in main memory, the loaded register gets the stored one, rotated by the offset of the address in
  its word, and the store changes no register.
\<close>
theorem store_load:
  fixes s :: "('b MMU \<times> TIMING) CORE"
  assumes "proc_ID (cpu s) = 0 \<or> proc_ID (cpu s) = 1" "main_ok k region (fst (mmu s))"
    and "main_word (proc_ID (cpu s)) region (adr AND 0xFFFFFFFC)"
    and "word_adr m up i s = adr" "word_adr m' up' j s = adr" "REG_POS j 12 \<noteq> 15"
  shows "let s1 = snd (OP_STR_OFF (nds_mem B) m up i s); s2 = snd (OP_LDR_OFF (nds_mem B) m' up' j s1) in
    cpu s1 = cpu s \<and>
    cpu s2 = setR (REG_POS j 12) (word_rotr (8 * unat (adr AND 3)) (reg i 12 s)) (cpu s)"
proof -
  define s1 where "s1 = snd (OP_STR_OFF (nds_mem B) m up i s)"
  have 3: "unat (adr AND 3) \<le> 3" using unat_and_le [of adr 3] by simp
  then have r: "unat (8 * (adr AND 3)) = 8 * unat (adr AND 3)" by (simp add: unat_mult_u32)
  have c: "cpu s1 = cpu s"
    by (simp add: s1_def OP_STR_OFF_def Let_def cycles_cpu store_word_def WRITE32_def)
  have m1: "fst (mmu s1) = (fst (mmu s))\<lparr>MAIN_MEM := T1WriteLong (MAIN_MEM (fst (mmu s))) (adr AND k) (reg i 12 s)\<rparr>"
    by (simp add: s1_def OP_STR_OFF_def Let_def cycles_cpu store_word_def WRITE32_main [OF assms(1-3)] assms(4))
  have "main_ok k region (fst (mmu s1))" using assms(2) by (simp add: m1 main_ok_def)
  then have rd: "READ32 (nds_mem B) adr s1 = (reg i 12 s, s1)"
    using READ32_main [of s1 k region adr B] assms(1,3) by (simp add: c m1 read_write_long)
  have "word_adr m' up' j s1 = adr" using word_adr_cpu [OF c] assms(5) by simp
  then have "cpu (snd (OP_LDR_OFF (nds_mem B) m' up' j s1)) =
      setR (REG_POS j 12) (word_rotr (8 * unat (adr AND 3)) (reg i 12 s)) (cpu s)"
    using 3 by (simp add: OP_LDR_OFF_def load_word_def rd assms(6) cycles_cpu set_reg_def c r ROR_rotr)
  then show ?thesis using c by (simp add: s1_def Let_def)
qed

text \<open>\<open>STR R1, [R2, #4]\<close> and \<open>LDR R3, [R2, #4]\<close>.\<close>

theorem store_load_witness:
  "R (cpu (snd (OP_LDR_OFF (nds_mem example_bus) IMM_OFF_12 True 0xE5923004
     (snd (OP_STR_OFF (nds_mem example_bus) IMM_OFF_12 True 0xE5821004
       (core_of (with_regs ((\<lambda>_. 0x02000000)(1 := 0x12345678))) (example_mmu, example_timing))))))) 3 = 0x12345678"
proof -
  define s where "s = core_of (with_regs ((\<lambda>_. 0x02000000)(1 := 0x12345678))) (example_mmu, example_timing)"
  have "word_adr IMM_OFF_12 True 0xE5821004 s = 0x02000004" "word_adr IMM_OFF_12 True 0xE5923004 s = 0x02000004"
    by (simp_all add: s_def word_adr_def add_off_def reg_def REG_POS_def word_off_def core_of_def with_regs_def)
  moreover have p: "proc_ID (cpu s) = 0" by (simp add: s_def core_of_def with_regs_def example_cpu_def)
  moreover have "main_word 0 0x027C0000 (0x02000004 AND 0xFFFFFFFC)"
    by (simp add: main_word_def in_main_def)
  moreover have "main_ok 0x3FFFFC 0x027C0000 (fst (mmu s))"
    using example_main_ok by (simp add: s_def core_of_def)
  moreover have "REG_POS 0xE5923004 12 = 3" "reg 0xE5821004 12 s = 0x12345678"
    by (simp_all add: REG_POS_def reg_def s_def core_of_def with_regs_def)
  ultimately have "R (cpu (snd (OP_LDR_OFF (nds_mem example_bus) IMM_OFF_12 True 0xE5923004
      (snd (OP_STR_OFF (nds_mem example_bus) IMM_OFF_12 True 0xE5821004 s))))) 3 = 0x12345678"
    using store_load [of s "0x3FFFFC" "0x027C0000" "0x02000004" IMM_OFF_12 True "0xE5821004" IMM_OFF_12 True
      "0xE5923004" example_bus]
    by (simp add: Let_def setR_def rotr_zero)
  then show ?thesis by (simp only: s_def)
qed

end
