(* ===== verification/TimingProperties.thy ===== *)
theory TimingProperties
  imports Timing
begin

text \<open>
  Properties of the access times: every access takes at least one cycle and at most 52, and the shortcut
  of the cache controller reports a hit whatever the tag.
\<close>

lemma wait_bounds:
  assumes "k < 16" "P = 1 \<or> P = (2 :: u32)" "q = 1 \<or> q = (2 :: u32)"
  shows "1 \<le> MMU_WAIT 1 P (P * q) (P * q * 8) ! k" "MMU_WAIT 1 P (P * q) (P * q * 8) ! k \<le> 32"
proof -
  have "list_all (\<lambda>x. 1 \<le> x \<and> x \<le> 32) (MMU_WAIT 1 P (P * q) (P * q * 8))"
    using assms(2,3) by (auto simp: MMU_WAIT_def)
  then have "1 \<le> x \<and> x \<le> 32" if "x \<in> set (MMU_WAIT 1 P (P * q) (P * q * 8))" for x
    using that by (auto simp: list_all_iff)
  moreover have "length (MMU_WAIT 1 P (P * q) (P * q * 8)) = 16" by (simp add: MMU_WAIT_def)
  ultimately show "1 \<le> MMU_WAIT 1 P (P * q) (P * q * 8) ! k" "MMU_WAIT 1 P (P * q) (P * q * 8) ! k \<le> 32"
    using assms(1) by simp_all
qed

lemma add_bound:
  fixes x y :: u32
  assumes "1 \<le> x" "x \<le> 32" "y \<le> 6"
  shows "1 \<le> x + y" "x + y \<le> 52"
  using assms by (simp_all add: word_le_nat_alt unat_add_u32)

text \<open>The bounds of every branch, as natural numbers.\<close>

lemma access_bounds:
  "1 \<le> unat (fst (MMU_accesstime P AT READSIZE DIRECTION region addr sequential t))"
  "unat (fst (MMU_accesstime P AT READSIZE DIRECTION region addr sequential t)) \<le> 52"
proof -
  define m32 where "m32 = (if P = 0 then 2 else 1 :: u32)"
  define q where "q = (if READSIZE > 16 then 2 else 1 :: u32)"
  have c: "m32 = 1 \<or> m32 = 2" "q = 1 \<or> q = 2" by (simp_all add: m32_def q_def)
  define w where "w = MMU_WAIT 1 m32 (m32 * q) (m32 * q * 8) ! (unat (drop_bit 24 addr) mod 16)"
  have w: "1 \<le> w" "w \<le> 32" unfolding w_def using wait_bounds [OF _ c] by simp_all
  have w': "w \<le> 52" using w(2) by (rule order.trans) simp
  note wy = add_bound [OF w]
  have n: "MMU_AT_CODE \<noteq> MMU_AT_DATA" by simp
  have "1 \<le> fst (MMU_accesstime P AT READSIZE DIRECTION region addr sequential t) \<and>
      fst (MMU_accesstime P AT READSIZE DIRECTION region addr sequential t) \<le> 52"
    unfolding MMU_accesstime_def Let_def m32_def [symmetric] q_def [symmetric] w_def [symmetric]
    using c w w' wy by (auto simp: split_beta)
  then show "1 \<le> unat (fst (MMU_accesstime P AT READSIZE DIRECTION region addr sequential t))"
    "unat (fst (MMU_accesstime P AT READSIZE DIRECTION region addr sequential t)) \<le> 52"
    by (simp_all add: word_le_nat_alt)
qed

text \<open>
  C28. The time of an access, of any processor to any address, with or without the advanced timing, is
  between 1 and 52 cycles.
\<close>
theorem access_time_bounds:
  "1 \<le> fst (MMU_accesstime P AT READSIZE DIRECTION region addr sequential t) \<and>
   fst (MMU_accesstime P AT READSIZE DIRECTION region addr sequential t) \<le> 52"
  using access_bounds [of P AT READSIZE DIRECTION region addr sequential t] by (simp add: word_le_nat_alt)

text \<open>
  C38. The shortcut of the cache controller compares the block only: after a read, an access to another
  address of the same block index is a hit although the tag of that address is not in the block.
\<close>
theorem cache_shortcut_ignores_tag:
  assumes "b AND BLOCKMASK sizeShift = a AND BLOCKMASK sizeShift"
    and "\<not> tag_in_block (snd (Cached sizeShift MMU_AD_READ a c))
      (drop_bit 5 (b AND BLOCKMASK sizeShift)) (b AND TAGMASK sizeShift)"
  shows "fst (Cached sizeShift DIR b (snd (Cached sizeShift MMU_AD_READ a c)))"
  using assms(1) by (auto simp: Cached_def CachedInternal_def Let_def)

theorem cache_shortcut_ignores_tag_witness:
  "fst (Cached 13 MMU_AD_READ 0x02001000 (snd (Cached 13 MMU_AD_READ 0x02000800 CacheController_Reset)))"
proof (rule cache_shortcut_ignores_tag)
  show "0x02001000 AND BLOCKMASK 13 = 0x02000800 AND BLOCKMASK 13"
    by code_simp
  show "\<not> tag_in_block (snd (Cached 13 MMU_AD_READ 0x02000800 CacheController_Reset))
      (drop_bit 5 (0x02001000 AND BLOCKMASK 13)) (0x02001000 AND TAGMASK 13)"
    by code_simp
qed

end
