(* ===== verification/ArmBlock.thy ===== *)
theory ArmBlock
  imports ArmTransfer
begin

text \<open>
  Block transfers and double-word transfers: the end of \<^verbatim>\<open>arm_instructions.cpp\<close>. The macros
  \<open>OP_L_IA\<close> to \<open>OP_L_DB\<close> and the bodies of the store loops are \<open>ldm_step\<close> and \<open>stm_step\<close>; their argument
  is the address, the cycles so far and the state, the local variables \<open>start\<close> and \<open>c\<close> of the C code. In the
  names, \<open>_W\<close> is the form that writes the base back and \<open>2\<close> the form on the user registers or, for loads of
  the program counter, the return from an exception.
\<close>

section \<open>Steps\<close>

datatype block_mode = IA | IB | DA | DB

definition before :: "block_mode \<Rightarrow> u32 \<Rightarrow> u32" where
  "before k start = (case k of IB \<Rightarrow> start + 4 | DB \<Rightarrow> start - 4 | _ \<Rightarrow> start)"

definition after :: "block_mode \<Rightarrow> u32 \<Rightarrow> u32" where
  "after k start = (case k of IA \<Rightarrow> start + 4 | DA \<Rightarrow> start - 4 | _ \<Rightarrow> start)"

definition ldm_step :: "'m MEM \<Rightarrow> block_mode \<Rightarrow> u32 \<Rightarrow> nat \<Rightarrow> u32 \<times> u32 \<times> 'm CORE \<Rightarrow> u32 \<times> u32 \<times> 'm CORE" where
  "ldm_step M k i n = (\<lambda>(start, c, s).
     if bit i n then
       (let start = before k start;
            (v, s) = READ32 M start s;
            s = upd_cpu (setR n v) s;
            (d, s) = MMU_memAccessCycles M 32 MMU_AD_READ start s in
        (after k start, c + d, s))
     else (start, c, s))"

definition stm_step :: "'m MEM \<Rightarrow> block_mode \<Rightarrow> u32 \<Rightarrow> nat \<Rightarrow> u32 \<times> u32 \<times> 'm CORE \<Rightarrow> u32 \<times> u32 \<times> 'm CORE" where
  "stm_step M k i n = (\<lambda>(start, c, s).
     if bit i n then
       (let start = before k start;
            s = WRITE32 M start (R (cpu s) n) s;
            (d, s) = MMU_memAccessCycles M 32 MMU_AD_WRITE start s in
        (after k start, c + d, s))
     else (start, c, s))"

text \<open>The registers below 15 upwards or downwards, and the loop over all sixteen.\<close>

definition upwards :: "block_mode \<Rightarrow> bool" where "upwards k = (k = IA \<or> k = IB)"

definition ldm_list :: "'m MEM \<Rightarrow> block_mode \<Rightarrow> u32 \<Rightarrow> u32 \<times> u32 \<times> 'm CORE \<Rightarrow> u32 \<times> u32 \<times> 'm CORE" where
  "ldm_list M k i = fold (ldm_step M k i) (if upwards k then [0..<15] else rev [0..<15])"

definition stm_loop :: "'m MEM \<Rightarrow> block_mode \<Rightarrow> u32 \<Rightarrow> u32 \<times> u32 \<times> 'm CORE \<Rightarrow> u32 \<times> u32 \<times> 'm CORE" where
  "stm_loop M k i = fold (stm_step M k i) (if upwards k then [0..<16] else rev [0..<16])"

text \<open>The loaded program counter: a change of state on the ARM9, and the mask of the exception return.\<close>

definition load_pc_word :: "u32 \<Rightarrow> armcpu_t \<Rightarrow> armcpu_t" where
  "load_pc_word tmp c =
     (if proc_ID c = 0 then setR 15 (tmp AND 0xFFFFFFFE) (put_flag T_bit (bit tmp 0) c)
      else setR 15 (tmp AND 0xFFFFFFFC) c)"

definition next_from_pc :: "armcpu_t \<Rightarrow> armcpu_t" where
  "next_from_pc c = c\<lparr>next_instruction := R c 15\<rparr>"

definition return_pc :: "u32 \<Rightarrow> armcpu_t \<Rightarrow> armcpu_t" where
  "return_pc tmp = setR 15 (tmp AND (0xFFFFFFFC OR push_bit 1 (tmp AND 1)))"

text \<open>The switch to the saved status register, and the copy of it that some functions make before.\<close>

definition switch_to_spsr :: "'m CORE \<Rightarrow> 'm CORE" where
  "switch_to_spsr s =
     (let spsr = SPSR (cpu s); (_, s) = armcpu_switchMode (psr_mode spsr) s in
      changeCPSR (upd_cpu (\<lambda>c. c\<lparr>CPSR := spsr\<rparr>) s))"

definition copy_spsr :: "'m CORE \<Rightarrow> 'm CORE" where
  "copy_spsr s = changeCPSR (upd_cpu (\<lambda>c. c\<lparr>CPSR := SPSR c\<rparr>) s)"

definition in_user :: "'m CORE \<Rightarrow> bool" where
  "in_user s = (psr_mode (CPSR (cpu s)) = USR \<or> psr_mode (CPSR (cpu s)) = SYS)"

section \<open>LDM\<close>

definition OP_LDMIA :: "'m MEM \<Rightarrow> u32 \<Rightarrow> 'm CORE \<Rightarrow> u32 \<times> 'm CORE" where
  "OP_LDMIA M i s =
     (let start = reg i 16 s;
          (start, c, s) = ldm_list M IA i (start, 0, s);
          (start, c, s) = (if bit i 15 then
          (let (tmp, s) = READ32 M start s;
               s = upd_cpu (load_pc_word tmp) s;
               s = upd_cpu next_from_pc s;
               (d, s) = MMU_memAccessCycles M 32 MMU_AD_READ start s in
           (start, c + d, s))
          else (start, c, s)) in
      (MMU_aluMemCycles (proc_ID (cpu s)) 2 c, s))"

definition OP_LDMIB :: "'m MEM \<Rightarrow> u32 \<Rightarrow> 'm CORE \<Rightarrow> u32 \<times> 'm CORE" where
  "OP_LDMIB M i s =
     (let start = reg i 16 s;
          (start, c, s) = ldm_list M IB i (start, 0, s);
          (start, c, s) = (if bit i 15 then
          (let start = start + 4;
               (d, s) = MMU_memAccessCycles M 32 MMU_AD_READ start s;
               (tmp, s) = READ32 M start s;
               s = upd_cpu (load_pc_word tmp) s;
               s = upd_cpu next_from_pc s in
           (start, c + d, s))
          else (start, c, s)) in
      (MMU_aluMemCycles (proc_ID (cpu s)) (if bit i 15 then 4 else 2) c, s))"

definition OP_LDMDA :: "'m MEM \<Rightarrow> u32 \<Rightarrow> 'm CORE \<Rightarrow> u32 \<times> 'm CORE" where
  "OP_LDMDA M i s =
     (let start = reg i 16 s;
          c = 0;
          (start, c, s) = (if bit i 15 then
          (let (tmp, s) = READ32 M start s;
               s = upd_cpu (load_pc_word tmp) s;
               (d, s) = MMU_memAccessCycles M 32 MMU_AD_READ start s;
               start = start - 4;
               s = upd_cpu next_from_pc s in
           (start, c + d, s))
          else (start, c, s));
          (start, c, s) = ldm_list M DA i (start, c, s) in
      (MMU_aluMemCycles (proc_ID (cpu s)) 2 c, s))"

definition OP_LDMDB :: "'m MEM \<Rightarrow> u32 \<Rightarrow> 'm CORE \<Rightarrow> u32 \<times> 'm CORE" where
  "OP_LDMDB M i s =
     (let start = reg i 16 s;
          c = 0;
          (start, c, s) = (if bit i 15 then
          (let start = start - 4;
               (tmp, s) = READ32 M start s;
               s = upd_cpu (load_pc_word tmp) s;
               s = upd_cpu next_from_pc s;
               (d, s) = MMU_memAccessCycles M 32 MMU_AD_READ start s in
           (start, c + d, s))
          else (start, c, s));
          (start, c, s) = ldm_list M DB i (start, c, s) in
      (MMU_aluMemCycles (proc_ID (cpu s)) 2 c, s))"

text \<open>
  The write-back: when the base is in the list, only if a higher register is in it too. \<open>bitList\<close> has the
  bits above the base.
\<close>

definition bitList :: "u32 \<Rightarrow> u32" where
  "bitList i = NOT (push_bit (REG_POS i 16) 2 - 1) AND 0xFFFF"

definition write_base :: "u32 \<Rightarrow> u32 \<Rightarrow> 'm CORE \<Rightarrow> 'm CORE" where
  "write_base i start s =
     (if bit i (REG_POS i 16) then (if i AND bitList i \<noteq> 0 then set_reg i 16 start s else s)
      else set_reg i 16 start s)"

definition OP_LDMIA_W :: "'m MEM \<Rightarrow> u32 \<Rightarrow> 'm CORE \<Rightarrow> u32 \<times> 'm CORE" where
  "OP_LDMIA_W M i s =
     (let start = reg i 16 s;
          (start, c, s) = ldm_list M IA i (start, 0, s);
          (start, c, s) = (if bit i 15 then
          (let (tmp, s) = READ32 M start s;
               s = upd_cpu (load_pc_word tmp) s;
               (d, s) = MMU_memAccessCycles M 32 MMU_AD_READ start s;
               start = start + 4;
               s = upd_cpu next_from_pc s in
           (start, c + d, s))
          else (start, c, s));
          s = write_base i start s in
      (MMU_aluMemCycles (proc_ID (cpu s)) (if bit i 15 then 4 else 2) c, s))"

definition OP_LDMIB_W :: "'m MEM \<Rightarrow> u32 \<Rightarrow> 'm CORE \<Rightarrow> u32 \<times> 'm CORE" where
  "OP_LDMIB_W M i s =
     (let start = reg i 16 s;
          (start, c, s) = ldm_list M IB i (start, 0, s);
          (start, c, s) = (if bit i 15 then
          (let start = start + 4;
               (d, s) = MMU_memAccessCycles M 32 MMU_AD_READ start s;
               (tmp, s) = READ32 M start s;
               s = upd_cpu (load_pc_word tmp) s;
               s = upd_cpu next_from_pc s in
           (start, c + d, s))
          else (start, c, s));
          s = write_base i start s in
      (MMU_aluMemCycles (proc_ID (cpu s)) (if bit i 15 then 4 else 2) c, s))"

definition OP_LDMDA_W :: "'m MEM \<Rightarrow> u32 \<Rightarrow> 'm CORE \<Rightarrow> u32 \<times> 'm CORE" where
  "OP_LDMDA_W M i s =
     (let start = reg i 16 s;
          c = 0;
          (start, c, s) = (if bit i 15 then
          (let (tmp, s) = READ32 M start s;
               s = upd_cpu (load_pc_word tmp) s;
               (d, s) = MMU_memAccessCycles M 32 MMU_AD_READ start s;
               start = start - 4;
               s = upd_cpu next_from_pc s in
           (start, c + d, s))
          else (start, c, s));
          (start, c, s) = ldm_list M DA i (start, c, s);
          s = write_base i start s in
      (MMU_aluMemCycles (proc_ID (cpu s)) 2 c, s))"

definition OP_LDMDB_W :: "'m MEM \<Rightarrow> u32 \<Rightarrow> 'm CORE \<Rightarrow> u32 \<times> 'm CORE" where
  "OP_LDMDB_W M i s =
     (let start = reg i 16 s;
          c = 0;
          (start, c, s) = (if bit i 15 then
          (let start = start - 4;
               (tmp, s) = READ32 M start s;
               s = upd_cpu (load_pc_word tmp) s;
               s = upd_cpu next_from_pc s;
               (d, s) = MMU_memAccessCycles M 32 MMU_AD_READ start s in
           (start, c + d, s))
          else (start, c, s));
          (start, c, s) = ldm_list M DB i (start, c, s);
          s = write_base i start s in
      (MMU_aluMemCycles (proc_ID (cpu s)) 2 c, s))"

section \<open>LDM of user registers and exception returns\<close>

text \<open>
  Without the program counter the user registers are loaded, which is refused in the modes that have no
  others. \<open>OP_LDMDA2\<close>, \<open>OP_LDMDB2\<close>, \<open>OP_LDMIB2_W\<close> and \<open>OP_LDMDB2_W\<close> copy the saved status register before
  they change the mode.
\<close>

definition OP_LDMIA2 :: "'m MEM \<Rightarrow> u32 \<Rightarrow> 'm CORE \<Rightarrow> u32 \<times> 'm CORE" where
  "OP_LDMIA2 M i s =
     (let start = reg i 16 s in
      if \<not> bit i 15 then
        (if in_user s then (1, s) else
          (let (oldmode, s) = armcpu_switchMode SYS s;
               (start, c, s) = ldm_list M IA i (start, 0, s);
               (_, s) = armcpu_switchMode oldmode s in
           (MMU_aluMemCycles (proc_ID (cpu s)) 2 c, s)))
      else
          (let (start, c, s) = ldm_list M IA i (start, 0, s);
               (tmp, s) = READ32 M start s;
               s = upd_cpu (return_pc tmp) s;
               s = switch_to_spsr s;
               s = upd_cpu next_from_pc s;
               (d, s) = MMU_memAccessCycles M 32 MMU_AD_READ start s in
           (MMU_aluMemCycles (proc_ID (cpu s)) 2 (c + d), s)))"

definition OP_LDMIB2 :: "'m MEM \<Rightarrow> u32 \<Rightarrow> 'm CORE \<Rightarrow> u32 \<times> 'm CORE" where
  "OP_LDMIB2 M i s =
     (let start = reg i 16 s in
      if \<not> bit i 15 then
        (if in_user s then (1, s) else
          (let (oldmode, s) = armcpu_switchMode SYS s;
               (start, c, s) = ldm_list M IB i (start, 0, s);
               (_, s) = armcpu_switchMode oldmode s in
           (MMU_aluMemCycles (proc_ID (cpu s)) 2 c, s)))
      else
          (let (start, c, s) = ldm_list M IB i (start, 0, s);
               start = start + 4;
               (tmp, s) = READ32 M start s;
               s = upd_cpu (return_pc tmp) s;
               s = switch_to_spsr s;
               s = upd_cpu next_from_pc s;
               (d, s) = MMU_memAccessCycles M 32 MMU_AD_READ start s in
           (MMU_aluMemCycles (proc_ID (cpu s)) 2 (c + d), s)))"

definition OP_LDMDA2 :: "'m MEM \<Rightarrow> u32 \<Rightarrow> 'm CORE \<Rightarrow> u32 \<times> 'm CORE" where
  "OP_LDMDA2 M i s =
     (let start = reg i 16 s in
      if \<not> bit i 15 then
        (if in_user s then (1, s) else
          (let (oldmode, s) = armcpu_switchMode SYS s;
               (start, c, s) = ldm_list M DA i (start, 0, s);
               (_, s) = armcpu_switchMode oldmode s in
           (MMU_aluMemCycles (proc_ID (cpu s)) 2 c, s)))
      else
          (let (tmp, s) = READ32 M start s;
               s = upd_cpu (return_pc tmp) s;
               s = copy_spsr s;
               (d, s) = MMU_memAccessCycles M 32 MMU_AD_READ start s;
               start = start - 4;
               s = upd_cpu next_from_pc s;
               (start, c, s) = ldm_list M DA i (start, d, s);
               s = switch_to_spsr s in
           (MMU_aluMemCycles (proc_ID (cpu s)) 2 c, s)))"

definition OP_LDMDB2 :: "'m MEM \<Rightarrow> u32 \<Rightarrow> 'm CORE \<Rightarrow> u32 \<times> 'm CORE" where
  "OP_LDMDB2 M i s =
     (let start = reg i 16 s in
      if \<not> bit i 15 then
        (if in_user s then (1, s) else
          (let (oldmode, s) = armcpu_switchMode SYS s;
               (start, c, s) = ldm_list M DB i (start, 0, s);
               (_, s) = armcpu_switchMode oldmode s in
           (MMU_aluMemCycles (proc_ID (cpu s)) 2 c, s)))
      else
          (let start = start - 4;
               (tmp, s) = READ32 M start s;
               s = upd_cpu (return_pc tmp) s;
               s = copy_spsr s;
               s = upd_cpu next_from_pc s;
               (d, s) = MMU_memAccessCycles M 32 MMU_AD_READ start s;
               (start, c, s) = ldm_list M DB i (start, d, s);
               s = switch_to_spsr s in
           (MMU_aluMemCycles (proc_ID (cpu s)) 2 c, s)))"

definition OP_LDMIA2_W :: "'m MEM \<Rightarrow> u32 \<Rightarrow> 'm CORE \<Rightarrow> u32 \<times> 'm CORE" where
  "OP_LDMIA2_W M i s =
     (let start = reg i 16 s in
      if \<not> bit i 15 then
        (if in_user s then (1, s) else
          (let (oldmode, s) = armcpu_switchMode SYS s;
               (start, c, s) = ldm_list M IA i (start, 0, s);
               s = (if \<not> bit i (REG_POS i 16) then set_reg i 16 start s else s);
               (_, s) = armcpu_switchMode oldmode s in
           (MMU_aluMemCycles (proc_ID (cpu s)) 2 c, s)))
      else
          (let (start, c, s) = ldm_list M IA i (start, 0, s);
               s = (if \<not> bit i (REG_POS i 16) then set_reg i 16 (start + 4) s else s);
               (tmp, s) = READ32 M start s;
               s = upd_cpu (return_pc tmp) s;
               s = switch_to_spsr s;
               s = upd_cpu next_from_pc s;
               (d, s) = MMU_memAccessCycles M 32 MMU_AD_READ start s in
           (MMU_aluMemCycles (proc_ID (cpu s)) 2 (c + d), s)))"

definition OP_LDMIB2_W :: "'m MEM \<Rightarrow> u32 \<Rightarrow> 'm CORE \<Rightarrow> u32 \<times> 'm CORE" where
  "OP_LDMIB2_W M i s =
     (let start = reg i 16 s in
      if \<not> bit i 15 then
        (if in_user s then (1, s) else
          (let (oldmode, s) = armcpu_switchMode SYS s;
               (start, c, s) = ldm_list M IB i (start, 0, s);
               s = (if \<not> bit i (REG_POS i 16) then set_reg i 16 start s else s);
               (_, s) = armcpu_switchMode oldmode s in
           (MMU_aluMemCycles (proc_ID (cpu s)) 2 c, s)))
      else
          (let (start, c, s) = ldm_list M IB i (start, 0, s);
               s = (if \<not> bit i (REG_POS i 16) then set_reg i 16 (start + 4) s else s);
               (tmp, s) = READ32 M (start + 4) s;
               s = upd_cpu (return_pc tmp) s;
               s = copy_spsr s;
               s = upd_cpu next_from_pc s;
               s = switch_to_spsr s;
               (d, s) = MMU_memAccessCycles M 32 MMU_AD_READ start s in
           (MMU_aluMemCycles (proc_ID (cpu s)) 2 (c + d), s)))"

definition OP_LDMDA2_W :: "'m MEM \<Rightarrow> u32 \<Rightarrow> 'm CORE \<Rightarrow> u32 \<times> 'm CORE" where
  "OP_LDMDA2_W M i s =
     (let start = reg i 16 s in
      if \<not> bit i 15 then
        (if in_user s then (1, s) else
          (let (oldmode, s) = armcpu_switchMode SYS s;
               (start, c, s) = ldm_list M DA i (start, 0, s);
               s = (if \<not> bit i (REG_POS i 16) then set_reg i 16 start s else s);
               (_, s) = armcpu_switchMode oldmode s in
           (MMU_aluMemCycles (proc_ID (cpu s)) 2 c, s)))
      else
          (let (tmp, s) = READ32 M start s;
               s = upd_cpu (return_pc tmp) s;
               (d, s) = MMU_memAccessCycles M 32 MMU_AD_READ start s;
               start = start - 4;
               s = upd_cpu next_from_pc s;
               (start, c, s) = ldm_list M DA i (start, d, s);
               s = (if \<not> bit i (REG_POS i 16) then set_reg i 16 start s else s);
               s = switch_to_spsr s in
           (MMU_aluMemCycles (proc_ID (cpu s)) 2 c, s)))"

definition OP_LDMDB2_W :: "'m MEM \<Rightarrow> u32 \<Rightarrow> 'm CORE \<Rightarrow> u32 \<times> 'm CORE" where
  "OP_LDMDB2_W M i s =
     (let start = reg i 16 s in
      if \<not> bit i 15 then
        (if in_user s then (1, s) else
          (let (oldmode, s) = armcpu_switchMode SYS s;
               (start, c, s) = ldm_list M DB i (start, 0, s);
               s = (if \<not> bit i (REG_POS i 16) then set_reg i 16 start s else s);
               (_, s) = armcpu_switchMode oldmode s in
           (MMU_aluMemCycles (proc_ID (cpu s)) 2 c, s)))
      else
          (let start = start - 4;
               (tmp, s) = READ32 M start s;
               (d, s) = MMU_memAccessCycles M 32 MMU_AD_READ start s;
               s = upd_cpu (return_pc tmp) s;
               s = copy_spsr s;
               s = upd_cpu next_from_pc s;
               (start, c, s) = ldm_list M DB i (start, d, s);
               s = (if \<not> bit i (REG_POS i 16) then set_reg i 16 start s else s);
               s = switch_to_spsr s in
           (MMU_aluMemCycles (proc_ID (cpu s)) 2 c, s)))"

section \<open>STM\<close>

definition OP_STMIA :: "'m MEM \<Rightarrow> u32 \<Rightarrow> 'm CORE \<Rightarrow> u32 \<times> 'm CORE" where
  "OP_STMIA M i s =
     (let (start, c, s) = stm_loop M IA i (reg i 16 s, 0, s) in
      (MMU_aluMemCycles (proc_ID (cpu s)) 1 c, s))"

definition OP_STMIB :: "'m MEM \<Rightarrow> u32 \<Rightarrow> 'm CORE \<Rightarrow> u32 \<times> 'm CORE" where
  "OP_STMIB M i s =
     (let (start, c, s) = stm_loop M IB i (reg i 16 s, 0, s) in
      (MMU_aluMemCycles (proc_ID (cpu s)) 1 c, s))"

definition OP_STMDA :: "'m MEM \<Rightarrow> u32 \<Rightarrow> 'm CORE \<Rightarrow> u32 \<times> 'm CORE" where
  "OP_STMDA M i s =
     (let (start, c, s) = stm_loop M DA i (reg i 16 s, 0, s) in
      (MMU_aluMemCycles (proc_ID (cpu s)) 1 c, s))"

definition OP_STMDB :: "'m MEM \<Rightarrow> u32 \<Rightarrow> 'm CORE \<Rightarrow> u32 \<times> 'm CORE" where
  "OP_STMDB M i s =
     (let (start, c, s) = stm_loop M DB i (reg i 16 s, 0, s) in
      (MMU_aluMemCycles (proc_ID (cpu s)) 1 c, s))"

definition OP_STMIA_W :: "'m MEM \<Rightarrow> u32 \<Rightarrow> 'm CORE \<Rightarrow> u32 \<times> 'm CORE" where
  "OP_STMIA_W M i s =
     (let (start, c, s) = stm_loop M IA i (reg i 16 s, 0, s); s = set_reg i 16 start s in
      (MMU_aluMemCycles (proc_ID (cpu s)) 1 c, s))"

definition OP_STMIB_W :: "'m MEM \<Rightarrow> u32 \<Rightarrow> 'm CORE \<Rightarrow> u32 \<times> 'm CORE" where
  "OP_STMIB_W M i s =
     (let (start, c, s) = stm_loop M IB i (reg i 16 s, 0, s); s = set_reg i 16 start s in
      (MMU_aluMemCycles (proc_ID (cpu s)) 1 c, s))"

definition OP_STMDA_W :: "'m MEM \<Rightarrow> u32 \<Rightarrow> 'm CORE \<Rightarrow> u32 \<times> 'm CORE" where
  "OP_STMDA_W M i s =
     (let (start, c, s) = stm_loop M DA i (reg i 16 s, 0, s); s = set_reg i 16 start s in
      (MMU_aluMemCycles (proc_ID (cpu s)) 1 c, s))"

definition OP_STMDB_W :: "'m MEM \<Rightarrow> u32 \<Rightarrow> 'm CORE \<Rightarrow> u32 \<times> 'm CORE" where
  "OP_STMDB_W M i s =
     (let (start, c, s) = stm_loop M DB i (reg i 16 s, 0, s); s = set_reg i 16 start s in
      (MMU_aluMemCycles (proc_ID (cpu s)) 1 c, s))"

text \<open>The forms on the user registers. \<open>OP_STMIB2_W\<close> writes the base after it has left the system mode.\<close>

definition OP_STMIA2 :: "'m MEM \<Rightarrow> u32 \<Rightarrow> 'm CORE \<Rightarrow> u32 \<times> 'm CORE" where
  "OP_STMIA2 M i s =
     (if psr_mode (CPSR (cpu s)) = USR then (2, s)
      else (let start = reg i 16 s;
           (oldmode, s) = armcpu_switchMode SYS s;
           (start, c, s) = stm_loop M IA i (start, 0, s);
           (_, s) = armcpu_switchMode oldmode s in
        (MMU_aluMemCycles (proc_ID (cpu s)) 1 c, s)))"

definition OP_STMIB2 :: "'m MEM \<Rightarrow> u32 \<Rightarrow> 'm CORE \<Rightarrow> u32 \<times> 'm CORE" where
  "OP_STMIB2 M i s =
     (if psr_mode (CPSR (cpu s)) = USR then (2, s)
      else (let start = reg i 16 s;
           (oldmode, s) = armcpu_switchMode SYS s;
           (start, c, s) = stm_loop M IB i (start, 0, s);
           (_, s) = armcpu_switchMode oldmode s in
        (MMU_aluMemCycles (proc_ID (cpu s)) 1 c, s)))"

definition OP_STMDA2 :: "'m MEM \<Rightarrow> u32 \<Rightarrow> 'm CORE \<Rightarrow> u32 \<times> 'm CORE" where
  "OP_STMDA2 M i s =
     (if psr_mode (CPSR (cpu s)) = USR then (2, s)
      else (let start = reg i 16 s;
           (oldmode, s) = armcpu_switchMode SYS s;
           (start, c, s) = stm_loop M DA i (start, 0, s);
           (_, s) = armcpu_switchMode oldmode s in
        (MMU_aluMemCycles (proc_ID (cpu s)) 1 c, s)))"

definition OP_STMDB2 :: "'m MEM \<Rightarrow> u32 \<Rightarrow> 'm CORE \<Rightarrow> u32 \<times> 'm CORE" where
  "OP_STMDB2 M i s =
     (if psr_mode (CPSR (cpu s)) = USR then (2, s)
      else (let start = reg i 16 s;
           (oldmode, s) = armcpu_switchMode SYS s;
           (start, c, s) = stm_loop M DB i (start, 0, s);
           (_, s) = armcpu_switchMode oldmode s in
        (MMU_aluMemCycles (proc_ID (cpu s)) 1 c, s)))"

definition OP_STMIA2_W :: "'m MEM \<Rightarrow> u32 \<Rightarrow> 'm CORE \<Rightarrow> u32 \<times> 'm CORE" where
  "OP_STMIA2_W M i s =
     (if psr_mode (CPSR (cpu s)) = USR then (2, s)
      else (let start = reg i 16 s;
           (oldmode, s) = armcpu_switchMode SYS s;
           (start, c, s) = stm_loop M IA i (start, 0, s);
           s = set_reg i 16 start s;
           (_, s) = armcpu_switchMode oldmode s in
        (MMU_aluMemCycles (proc_ID (cpu s)) 1 c, s)))"

definition OP_STMIB2_W :: "'m MEM \<Rightarrow> u32 \<Rightarrow> 'm CORE \<Rightarrow> u32 \<times> 'm CORE" where
  "OP_STMIB2_W M i s =
     (if psr_mode (CPSR (cpu s)) = USR then (2, s)
      else (let start = reg i 16 s;
           (oldmode, s) = armcpu_switchMode SYS s;
           (start, c, s) = stm_loop M IB i (start, 0, s);
           (_, s) = armcpu_switchMode oldmode s;
           s = set_reg i 16 start s in
        (MMU_aluMemCycles (proc_ID (cpu s)) 1 c, s)))"

definition OP_STMDA2_W :: "'m MEM \<Rightarrow> u32 \<Rightarrow> 'm CORE \<Rightarrow> u32 \<times> 'm CORE" where
  "OP_STMDA2_W M i s =
     (if psr_mode (CPSR (cpu s)) = USR then (2, s)
      else (let start = reg i 16 s;
           (oldmode, s) = armcpu_switchMode SYS s;
           (start, c, s) = stm_loop M DA i (start, 0, s);
           s = set_reg i 16 start s;
           (_, s) = armcpu_switchMode oldmode s in
        (MMU_aluMemCycles (proc_ID (cpu s)) 1 c, s)))"

definition OP_STMDB2_W :: "'m MEM \<Rightarrow> u32 \<Rightarrow> 'm CORE \<Rightarrow> u32 \<times> 'm CORE" where
  "OP_STMDB2_W M i s =
     (if psr_mode (CPSR (cpu s)) = USR then (2, s)
      else (let start = reg i 16 s;
           (oldmode, s) = armcpu_switchMode SYS s;
           (start, c, s) = stm_loop M DB i (start, 0, s);
           s = set_reg i 16 start s;
           (_, s) = armcpu_switchMode oldmode s in
        (MMU_aluMemCycles (proc_ID (cpu s)) 1 c, s)))"

section \<open>LDRD and STRD\<close>

definition double_index :: "u32 \<Rightarrow> 'm CORE \<Rightarrow> u32" where
  "double_index i s = (if bit i 22 then half_off IMM_OFF i (cpu s) else reg i 0 s)"

text \<open>The two accesses; nothing happens when the number of the first register is odd.\<close>

definition store_double :: "'m MEM \<Rightarrow> nat \<Rightarrow> u32 \<Rightarrow> 'm CORE \<Rightarrow> u32 \<times> 'm CORE" where
  "store_double M n addr s =
     (let s = WRITE32 M addr (R (cpu s) n) s;
          s = WRITE32 M (addr + 4) (R (cpu s) (n + 1)) s;
          (c, s) = MMU_memAccessCycles M 32 MMU_AD_WRITE addr s;
          (d, s) = MMU_memAccessCycles M 32 MMU_AD_WRITE (addr + 4) s in
      (c + d, s))"

definition load_double :: "'m MEM \<Rightarrow> nat \<Rightarrow> u32 \<Rightarrow> 'm CORE \<Rightarrow> u32 \<times> 'm CORE" where
  "load_double M n addr s =
     (let (v, s) = READ32 M addr s;
          s = upd_cpu (setR n v) s;
          (w, s) = READ32 M (addr + 4) s;
          s = upd_cpu (setR (n + 1) w) s;
          (c, s) = MMU_memAccessCycles M 32 MMU_AD_READ addr s;
          (d, s) = MMU_memAccessCycles M 32 MMU_AD_READ (addr + 4) s in
      (c + d, s))"

definition OP_LDRD_STRD_POST_INDEX :: "'m MEM \<Rightarrow> u32 \<Rightarrow> 'm CORE \<Rightarrow> u32 \<times> 'm CORE" where
  "OP_LDRD_STRD_POST_INDEX M i s =
     (let Rd_num = REG_POS i 12; addr = reg i 16 s; index = double_index i s;
          s = set_reg i 16 (add_off (bit i 23) (reg i 16 s) index) s;
          (c, s) = (if odd Rd_num then (0, s)
                    else if bit i 5 then store_double M Rd_num addr s
                    else load_double M Rd_num addr s) in
      (MMU_aluMemCycles (proc_ID (cpu s)) 3 c, s))"

definition OP_LDRD_STRD_OFFSET_PRE_INDEX :: "'m MEM \<Rightarrow> u32 \<Rightarrow> 'm CORE \<Rightarrow> u32 \<times> 'm CORE" where
  "OP_LDRD_STRD_OFFSET_PRE_INDEX M i s =
     (let Rd_num = REG_POS i 12; addr = add_off (bit i 23) (reg i 16 s) (double_index i s);
          writeback = (\<lambda>s. if bit i 21 then set_reg i 16 addr s else s);
          (c, s) = (if odd Rd_num then (0, s)
                    else if bit i 5 then (let (c, s) = store_double M Rd_num addr s in (c, writeback s))
                    else load_double M Rd_num addr (writeback s)) in
      (MMU_aluMemCycles (proc_ID (cpu s)) 3 c, s))"

section \<open>Coprocessor instructions and exceptions\<close>

text \<open>The fourteen functions for \<open>STC\<close> and \<open>LDC\<close>, and \<open>CDP\<close>.\<close>

definition OP_STC :: "u32 \<Rightarrow> 'm CORE \<Rightarrow> u32 \<times> 'm CORE" where "OP_STC i s = TRAPUNDEF s"
definition OP_LDC :: "u32 \<Rightarrow> 'm CORE \<Rightarrow> u32 \<times> 'm CORE" where "OP_LDC i s = TRAPUNDEF s"
definition OP_CDP :: "u32 \<Rightarrow> 'm CORE \<Rightarrow> u32 \<times> 'm CORE" where "OP_CDP i s = TRAPUNDEF s"

text \<open>
  The entry of an exception from an instruction. \<open>OP_SWI\<close> calls the function of the emulated BIOS when there is
  one: \<open>swi_tab\<close> is the table of those functions, \<open>None\<close> when the BIOS of the console is used.
\<close>

definition enter_exception :: "u32 \<Rightarrow> u32 \<Rightarrow> u32 \<Rightarrow> 'm CORE \<Rightarrow> 'm CORE" where
  "enter_exception mode lr vec s =
     (let tmp = CPSR (cpu s);
          (_, s) = armcpu_switchMode mode s;
          s = upd_cpu (\<lambda>c. (setR 14 lr c)\<lparr>SPSR := tmp\<rparr>) s;
          s = changeCPSR (upd_cpu (\<lambda>c. put_flag I_bit True (put_flag T_bit False c)) s) in
      upd_cpu (\<lambda>c. next_from_pc (setR 15 (intVector c + vec) c)) s)"

definition OP_SWI :: "(u32 \<Rightarrow> 'm CORE \<Rightarrow> u32 \<times> 'm CORE) option \<Rightarrow> u32 \<Rightarrow> 'm CORE \<Rightarrow> u32 \<times> 'm CORE" where
  "OP_SWI swi_tab i s =
     (let swinum = drop_bit 16 i AND 0xFF;
          bypassBuiltinSWI = (intVector (cpu s) = 0 \<and> proc_ID (cpu s) = 0 \<or>
                              intVector (cpu s) = 0xFFFF0000 \<and> proc_ID (cpu s) = 1) in
      if swinum = 0xFC then (0, s)
      else (case swi_tab of
          Some f \<Rightarrow>
            if \<not> bypassBuiltinSWI then (let (c, s) = f (swinum AND 0x1F) s in (c + 3, s))
            else (3, enter_exception SVC (next_instruction (cpu s)) 0x08 s)
        | None \<Rightarrow> (3, enter_exception SVC (next_instruction (cpu s)) 0x08 s)))"

definition OP_BKPT :: "u32 \<Rightarrow> 'm CORE \<Rightarrow> u32 \<times> 'm CORE" where
  "OP_BKPT i s = (4, enter_exception ABT (instruct_adr (cpu s) + 4) 0x0C s)"

end
