(* ===== verification/ArmBlockCorrect.thy ===== *)
theory ArmBlockCorrect
  imports ArmBlock MmuCorrect ArmMode
begin

text \<open>
  Block transfers over a memory of words. The locale \<open>core_memory\<close> is what the proofs need of the memory
  system of a processor: reads and writes of words in \<open>cell\<close>s and cycle counts that keep the words. It is
  interpreted on the memory system of the program, for the addresses of the main memory.
\<close>

section \<open>Addresses and lists\<close>

text \<open>
  The addresses of a descending and of an ascending transfer. A store loop writes the registers of the
  list to the former, a load loop reads them from the latter.
\<close>

definition down :: "u32 \<Rightarrow> nat \<Rightarrow> u32" where "down start j = start - 4 - 4 * of_nat j"
definition up :: "u32 \<Rightarrow> nat \<Rightarrow> u32" where "up start j = start + 4 * of_nat j"

lemma down_Suc: "down (start - 4) j = down start (Suc j)"
  by (simp add: down_def)

lemma up_Suc: "up (start + 4) j = up start (Suc j)"
  by (simp add: up_def)

text \<open>The registers of the list of an instruction, lowest first.\<close>

definition listed :: "u32 \<Rightarrow> nat list" where "listed i = filter (bit i) [0..<16]"

lemma listed_rev: "filter (bit i) (rev [0..<16]) = rev (listed i)"
  by (simp add: listed_def rev_filter)

lemma listed_15: "\<not> bit i 15 \<Longrightarrow> filter (bit i) [0..<15] = listed i"
  using upt_Suc_append [of 0 15] by (simp add: listed_def)

lemma listed_distinct: "distinct (listed i)"
  by (simp add: listed_def)

lemma up_down:
  "j < n \<Longrightarrow> up (start - 4 * of_nat n) j = down start (n - Suc j)"
  by (simp add: up_def down_def of_nat_diff algebra_simps)

section \<open>The interface\<close>

locale core_memory =
  fixes M :: "'m MEM"
    and P :: u32
    and ok :: "'m \<Rightarrow> bool"
    and valid :: "u32 \<Rightarrow> bool"
    and cell :: "u32 \<Rightarrow> u32"
    and word_at :: "'m \<Rightarrow> u32 \<Rightarrow> u32"
  assumes rd: "ok m \<Longrightarrow> valid a \<Longrightarrow> rd32 M P MMU_AT_DATA (a AND 0xFFFFFFFC) m = (word_at m (cell a), m)"
    and wr_ok: "ok m \<Longrightarrow> valid a \<Longrightarrow> ok (wr32 M P (a AND 0xFFFFFFFC) v m)"
    and wr: "ok m \<Longrightarrow> valid a \<Longrightarrow> valid b \<Longrightarrow>
      word_at (wr32 M P (a AND 0xFFFFFFFC) v m) (cell b) = (if cell a = cell b then v else word_at m (cell b))"
    and cycles_ok: "ok m \<Longrightarrow> ok (snd (data_cycles M P n d a m))"
    and cycles: "ok m \<Longrightarrow> word_at (snd (data_cycles M P n d a m)) = word_at m"
begin

text \<open>A state of the processor with a good memory.\<close>

definition good :: "'m CORE \<Rightarrow> bool" where
  "good s = (proc_ID (cpu s) = P \<and> ok (mmu s))"

lemma read_good:
  "good s \<Longrightarrow> valid a \<Longrightarrow> READ32 M a s = (word_at (mmu s) (cell a), s)"
  by (simp add: READ32_def good_def rd)

lemma cycles_good:
  assumes "good s"
  obtains d m where "MMU_memAccessCycles M n dir a s = (d, s\<lparr>mmu := m\<rparr>)" "ok m" "word_at m = word_at (mmu s)"
  using assms cycles_ok [of "mmu s" n dir a] cycles [of "mmu s" n dir a]
  by (auto simp: MMU_memAccessCycles_def good_def split_beta intro: that)

text \<open>One load and one store.\<close>

lemma ldm_IA_step:
  assumes "good s" "valid start"
  obtains c' m where
    "ldm_step M IA i n (start, c, s) = (if bit i n then (start + 4, c', (upd_cpu (setR n (word_at (mmu s) (cell start))) s)\<lparr>mmu := m\<rparr>)
      else (start, c, s))" "ok m" "word_at m = word_at (mmu s)"
proof -
  let ?s = "upd_cpu (setR n (word_at (mmu s) (cell start))) s"
  have "good ?s" using assms(1) by (simp add: good_def setR_def)
  then obtain d m where "MMU_memAccessCycles M 32 MMU_AD_READ start ?s = (d, ?s\<lparr>mmu := m\<rparr>)" "ok m"
      "word_at m = word_at (mmu ?s)" by (rule cycles_good)
  then show thesis using that [of "c + d" m] assms
    by (simp add: ldm_step_def Let_def before_def after_def read_good)
qed

lemma stm_DB_step:
  assumes "good s" "valid (start - 4)"
  obtains c' m where
    "stm_step M DB i n (start, c, s) = (if bit i n then (start - 4, c', s\<lparr>mmu := m\<rparr>) else (start, c, s))"
    "ok m"
    "\<And>b. valid b \<Longrightarrow> word_at m (cell b) =
      (if cell (start - 4) = cell b then R (cpu s) n else word_at (mmu s) (cell b))"
proof -
  let ?m = "wr32 M P ((start - 4) AND 0xFFFFFFFC) (R (cpu s) n) (mmu s)"
  let ?s = "s\<lparr>mmu := ?m\<rparr>"
  have "good ?s" using assms by (simp add: good_def wr_ok)
  then obtain d m where c: "MMU_memAccessCycles M 32 MMU_AD_WRITE (start - 4) ?s = (d, ?s\<lparr>mmu := m\<rparr>)"
    and m: "ok m" "word_at m = word_at (mmu ?s)" by (rule cycles_good)
  have "stm_step M DB i n (start, c, s) = (if bit i n then (start - 4, c + d, s\<lparr>mmu := m\<rparr>) else (start, c, s))"
    using assms(1) c by (simp add: stm_step_def Let_def before_def after_def WRITE32_def good_def)
  moreover have "word_at m (cell b) = (if cell (start - 4) = cell b then R (cpu s) n else word_at (mmu s) (cell b))"
    if "valid b" for b using assms m(2) that by (simp add: good_def wr)
  ultimately show thesis using that m(1) by blast
qed

lemma stm_DB_fold:
  assumes "good s" "rs = filter (bit i) ns" "\<And>j. j < length rs \<Longrightarrow> valid (down start j)"
    and "\<And>j k. j < length rs \<Longrightarrow> k < length rs \<Longrightarrow> cell (down start j) = cell (down start k) \<Longrightarrow> j = k"
  obtains c' m where "fold (stm_step M DB i) ns (start, c, s) = (start - 4 * of_nat (length rs), c', s\<lparr>mmu := m\<rparr>)"
    "ok m" "\<And>j. j < length rs \<Longrightarrow> word_at m (cell (down start j)) = R (cpu s) (rs ! j)"
    "\<And>b. valid b \<Longrightarrow> (\<And>j. j < length rs \<Longrightarrow> cell (down start j) \<noteq> cell b) \<Longrightarrow>
      word_at m (cell b) = word_at (mmu s) (cell b)"
  using assms
proof (induction ns arbitrary: start c s rs thesis)
  case Nil
  then show ?case by (intro Nil(1) [of c "mmu s"]) (auto simp: good_def)
next
  case (Cons n ns)
  show ?case
  proof (cases "bit i n")
    case False
    then have f: "fold (stm_step M DB i) (n # ns) (start, c, s) = fold (stm_step M DB i) ns (start, c, s)"
      and r: "rs = filter (bit i) ns" using Cons.prems(3) by (simp_all add: stm_step_def)
    show ?thesis using Cons.IH [where c = c, OF _ Cons.prems(2) r Cons.prems(4,5)] Cons.prems(1) unfolding f by blast
  next
    case True
    define qs where "qs = filter (bit i) ns"
    then have rs: "rs = n # qs" using True Cons.prems(3) by simp
    have v0: "valid (start - 4)" using Cons.prems(4) [of 0] by (simp add: rs down_def)
    obtain d m where st: "stm_step M DB i n (start, c, s) = (start - 4, d, s\<lparr>mmu := m\<rparr>)" "ok m"
        and w: "\<And>b. valid b \<Longrightarrow> word_at m (cell b) =
          (if cell (start - 4) = cell b then R (cpu s) n else word_at (mmu s) (cell b))"
      using stm_DB_step [OF Cons.prems(2) v0, of i n c] True by metis
    have g: "good (s\<lparr>mmu := m\<rparr>)" using Cons.prems(2) st(2) by (simp add: good_def)
    have v: "valid (down (start - 4) j)" if "j < length qs" for j
      using Cons.prems(4) [of "Suc j"] that by (simp add: rs down_Suc)
    have inj: "j = k" if "j < length qs" "k < length qs" "cell (down (start - 4) j) = cell (down (start - 4) k)" for j k
      using Cons.prems(5) [of "Suc j" "Suc k"] that by (simp add: rs down_Suc)
    obtain c' m' where f: "fold (stm_step M DB i) ns (start - 4, d, s\<lparr>mmu := m\<rparr>) =
          (start - 4 - 4 * of_nat (length qs), c', s\<lparr>mmu := m\<rparr>\<lparr>mmu := m'\<rparr>)" "ok m'"
        and h: "\<And>j. j < length qs \<Longrightarrow> word_at m' (cell (down (start - 4) j)) = R (cpu (s\<lparr>mmu := m\<rparr>)) (qs ! j)"
        and o: "\<And>b. valid b \<Longrightarrow> (\<And>j. j < length qs \<Longrightarrow> cell (down (start - 4) j) \<noteq> cell b) \<Longrightarrow>
          word_at m' (cell b) = word_at (mmu (s\<lparr>mmu := m\<rparr>)) (cell b)"
      using Cons.IH [OF _ g qs_def v inj, where c = d] by blast
    show ?thesis
    proof (rule Cons.prems(1) [of c' m'])
      show "fold (stm_step M DB i) (n # ns) (start, c, s) = (start - 4 * of_nat (length rs), c', s\<lparr>mmu := m'\<rparr>)"
        by (simp add: st(1) f(1) rs algebra_simps)
      show "ok m'" by (rule f(2))
      have 0: "word_at m' (cell (down start 0)) = R (cpu s) n"
      proof -
        have "cell (down (start - 4) j) \<noteq> cell (down start 0)" if "j < length qs" for j
          using Cons.prems(5) [of "Suc j" 0] that by (auto simp: rs down_Suc)
        then show ?thesis using o [of "down start 0"] w [of "down start 0"] v0 by (simp add: down_def)
      qed
      show "word_at m' (cell (down start j)) = R (cpu s) (rs ! j)" if "j < length rs" for j
        using that 0 h [of "j - 1"] by (cases j) (simp_all add: rs down_Suc)
      show "word_at m' (cell b) = word_at (mmu s) (cell b)"
        if v: "valid b" and b: "\<And>j. j < length rs \<Longrightarrow> cell (down start j) \<noteq> cell b" for b
      proof -
        have "cell (down (start - 4) j) \<noteq> cell b" if "j < length qs" for j
          using b [of "Suc j"] that by (simp add: rs down_Suc)
        then have "word_at m' (cell b) = word_at m (cell b)" using o [OF v] by simp
        then show ?thesis using w [OF v] b [of 0] by (simp add: rs down_def)
      qed
    qed
  qed
qed

lemma ldm_IA_fold:
  assumes "good s" "rs = filter (bit i) ns" "distinct rs" "\<And>j. j < length rs \<Longrightarrow> valid (up start j)"
  obtains c' m f where "fold (ldm_step M IA i) ns (start, c, s) =
      (start + 4 * of_nat (length rs), c', s\<lparr>cpu := (cpu s)\<lparr>R := f\<rparr>, mmu := m\<rparr>)"
    "ok m" "\<And>j. j < length rs \<Longrightarrow> f (rs ! j) = word_at (mmu s) (cell (up start j))"
    "\<And>n. n \<notin> set rs \<Longrightarrow> f n = R (cpu s) n"
  using assms
proof (induction ns arbitrary: start c s rs thesis)
  case Nil
  then show ?case by (intro Nil(1) [of c "mmu s" "R (cpu s)"]) (auto simp: good_def)
next
  case (Cons n ns)
  show ?case
  proof (cases "bit i n")
    case False
    then have f: "fold (ldm_step M IA i) (n # ns) (start, c, s) = fold (ldm_step M IA i) ns (start, c, s)"
      and r: "rs = filter (bit i) ns" using Cons.prems(3) by (simp_all add: ldm_step_def)
    show ?thesis using Cons.IH [where c = c, OF _ Cons.prems(2) r Cons.prems(4,5)] Cons.prems(1) unfolding f by blast
  next
    case True
    define qs where "qs = filter (bit i) ns"
    then have rs: "rs = n # qs" using True Cons.prems(3) by simp
    have v0: "valid start" using Cons.prems(5) [of 0] by (simp add: rs up_def)
    let ?s = "upd_cpu (setR n (word_at (mmu s) (cell start))) s"
    obtain d m where st: "ldm_step M IA i n (start, c, s) = (start + 4, d, ?s\<lparr>mmu := m\<rparr>)" "ok m"
        "word_at m = word_at (mmu s)"
      using ldm_IA_step [OF Cons.prems(2) v0, of i n c] True by metis
    have g: "good (?s\<lparr>mmu := m\<rparr>)" using Cons.prems(2) st(2) by (simp add: good_def setR_def)
    have v: "valid (up (start + 4) j)" if "j < length qs" for j
      using Cons.prems(5) [of "Suc j"] that by (simp add: rs up_Suc)
    have d: "distinct qs" using Cons.prems(4) by (simp add: rs)
    obtain c' m' f where f: "fold (ldm_step M IA i) ns (start + 4, d, ?s\<lparr>mmu := m\<rparr>) =
          (start + 4 + 4 * of_nat (length qs), c', ?s\<lparr>mmu := m\<rparr>\<lparr>cpu := (cpu (?s\<lparr>mmu := m\<rparr>))\<lparr>R := f\<rparr>, mmu := m'\<rparr>)" "ok m'"
        and h: "\<And>j. j < length qs \<Longrightarrow> f (qs ! j) = word_at (mmu (?s\<lparr>mmu := m\<rparr>)) (cell (up (start + 4) j))"
        and o: "\<And>k. k \<notin> set qs \<Longrightarrow> f k = R (cpu (?s\<lparr>mmu := m\<rparr>)) k"
      using Cons.IH [OF _ g qs_def d v, where c = d] by blast
    show ?thesis
    proof (rule Cons.prems(1) [of c' m' f])
      show "fold (ldm_step M IA i) (n # ns) (start, c, s) =
          (start + 4 * of_nat (length rs), c', s\<lparr>cpu := (cpu s)\<lparr>R := f\<rparr>, mmu := m'\<rparr>)"
        using f(1) by (simp add: st(1) rs upd_cpu_def setR_def algebra_simps)
      show "ok m'" by (rule f(2))
      have n: "n \<notin> set qs" using Cons.prems(4) by (simp add: rs)
      show "f (rs ! j) = word_at (mmu s) (cell (up start j))" if "j < length rs" for j
        using that h [of "j - 1"] o [OF n] st(3)
        by (cases j) (simp_all add: rs up_Suc, simp add: up_def setR_def)
      show "f k = R (cpu s) k" if "k \<notin> set rs" for k
        using that o [of k] by (simp add: rs setR_def)
    qed
  qed
qed

text \<open>The two loops on the registers of the list.\<close>

lemma push_loop:
  assumes "good s" "\<And>j. j < length (listed i) \<Longrightarrow> valid (down start j)"
    and "\<And>j k. j < length (listed i) \<Longrightarrow> k < length (listed i) \<Longrightarrow>
      cell (down start j) = cell (down start k) \<Longrightarrow> j = k"
  obtains c m where "stm_loop M DB i (start, 0, s) = (start - 4 * of_nat (length (listed i)), c, s\<lparr>mmu := m\<rparr>)" "ok m"
    "\<And>j. j < length (listed i) \<Longrightarrow> word_at m (cell (down start j)) = R (cpu s) (rev (listed i) ! j)"
proof (rule stm_DB_fold [OF assms(1) listed_rev [symmetric], of i start 0])
  fix c m
  assume "fold (stm_step M DB i) (rev [0..<16]) (start, 0, s) =
      (start - 4 * of_nat (length (rev (listed i))), c, s\<lparr>mmu := m\<rparr>)" "ok m"
    and "\<And>j. j < length (rev (listed i)) \<Longrightarrow> word_at m (cell (down start j)) = R (cpu s) (rev (listed i) ! j)"
  then show thesis using that [of c m] by (simp add: stm_loop_def upwards_def)
qed (use assms in simp_all)

lemma pop_loop:
  assumes "good s" "\<not> bit i 15" "\<And>j. j < length (listed i) \<Longrightarrow> valid (up start j)"
  obtains c m f where "ldm_list M IA i (start, 0, s) =
      (start + 4 * of_nat (length (listed i)), c, s\<lparr>cpu := (cpu s)\<lparr>R := f\<rparr>, mmu := m\<rparr>)"
    "\<And>j. j < length (listed i) \<Longrightarrow> f (listed i ! j) = word_at (mmu s) (cell (up start j))"
    "\<And>n. n \<notin> set (listed i) \<Longrightarrow> f n = R (cpu s) n"
proof (rule ldm_IA_fold [OF assms(1) listed_15 [OF assms(2), symmetric] listed_distinct assms(3), of 0])
  fix c m f
  assume "fold (ldm_step M IA i) [0..<15] (start, 0, s) =
      (start + 4 * of_nat (length (listed i)), c, s\<lparr>cpu := (cpu s)\<lparr>R := f\<rparr>, mmu := m\<rparr>)"
    and "\<And>j. j < length (listed i) \<Longrightarrow> f (listed i ! j) = word_at (mmu s) (cell (up start j))"
    and "\<And>n. n \<notin> set (listed i) \<Longrightarrow> f n = R (cpu s) n"
  then show thesis using that [of c m f] by (simp add: ldm_list_def upwards_def)
qed

lemma push_good:
  assumes "good s" "\<And>j. j < length (listed i) \<Longrightarrow> valid (down (reg i 16 s) j)"
    and "\<And>j k. j < length (listed i) \<Longrightarrow> k < length (listed i) \<Longrightarrow>
      cell (down (reg i 16 s) j) = cell (down (reg i 16 s) k) \<Longrightarrow> j = k"
  shows "good (snd (OP_STMDB_W M i s))"
proof (rule push_loop [OF assms])
  fix c m
  assume "stm_loop M DB i (reg i 16 s, 0, s) = (reg i 16 s - 4 * of_nat (length (listed i)), c, s\<lparr>mmu := m\<rparr>)" "ok m"
  then show ?thesis using assms(1) by (simp add: OP_STMDB_W_def Let_def good_def set_reg_def upd_cpu_def setR_def)
qed

text \<open>
  A push and, in a later state with the same memory and the same value of the base register, the pop: the
  registers of the list get the values they had, the others keep the ones of the later state.
\<close>

lemma push_pop:
  assumes g: "good s" and r: "\<not> bit i 15" "\<not> bit i (REG_POS i 16)"
    and v: "\<And>j. j < length (listed i) \<Longrightarrow> valid (down (reg i 16 s) j)"
    and inj: "\<And>j k. j < length (listed i) \<Longrightarrow> k < length (listed i) \<Longrightarrow>
      cell (down (reg i 16 s) j) = cell (down (reg i 16 s) k) \<Longrightarrow> j = k"
    and i': "listed i' = listed i" "REG_POS i' 16 = REG_POS i 16" "\<not> bit i' 15" "\<not> bit i' (REG_POS i 16)"
    and t: "good t" "word_at (mmu t) = word_at (mmu (snd (OP_STMDB_W M i s)))"
      "reg i 16 t = reg i 16 (snd (OP_STMDB_W M i s))"
  shows "R (cpu (snd (OP_LDMIA_W M i' t))) n =
    (if n \<in> set (listed i) \<or> n = REG_POS i 16 then R (cpu s) n else R (cpu t) n)"
proof -
  let ?rs = "listed i" let ?start = "reg i 16 s" let ?low = "?start - 4 * of_nat (length ?rs)"
  obtain c m where st: "stm_loop M DB i (?start, 0, s) = (?low, c, s\<lparr>mmu := m\<rparr>)"
    and w: "\<And>j. j < length ?rs \<Longrightarrow> word_at m (cell (down ?start j)) = R (cpu s) (rev ?rs ! j)"
    using push_loop [OF g v inj] by blast
  have push: "snd (OP_STMDB_W M i s) = set_reg i 16 ?low (s\<lparr>mmu := m\<rparr>)"
    by (simp add: OP_STMDB_W_def st Let_def)
  have base: "reg i' 16 t = ?low" "word_at (mmu t) = word_at m"
    using t(2,3) by (simp_all add: push reg_def set_reg_def setR_def i'(2))
  have vt: "valid (up ?low j)" if "j < length (listed i')" for j using v that by (simp add: up_down i'(1))
  obtain d m' f where ld: "ldm_list M IA i' (?low, 0, t) =
        (?low + 4 * of_nat (length (listed i')), d, t\<lparr>cpu := (cpu t)\<lparr>R := f\<rparr>, mmu := m'\<rparr>)"
    and h: "\<And>j. j < length (listed i') \<Longrightarrow> f (listed i' ! j) = word_at (mmu t) (cell (up ?low j))"
    and o: "\<And>n. n \<notin> set (listed i') \<Longrightarrow> f n = R (cpu t) n"
    using pop_loop [OF t(1) i'(3) vt] by blast
  have pop: "R (cpu (snd (OP_LDMIA_W M i' t))) = f(REG_POS i 16 := ?start)"
    using i'(3,4) by (simp add: OP_LDMIA_W_def base(1) ld write_base_def set_reg_def setR_def i'(1,2))
  have "f n = R (cpu s) n" if n: "n \<in> set ?rs"
  proof -
    obtain j where j: "j < length ?rs" "?rs ! j = n" using n by (auto simp: in_set_conv_nth)
    have "word_at m (cell (up ?low j)) = R (cpu s) (rev ?rs ! (length ?rs - Suc j))"
      using w [of "length ?rs - Suc j"] j(1) by (simp add: up_down)
    then show ?thesis using h [of j] j by (simp add: rev_nth i'(1) base(2))
  qed
  moreover have "REG_POS i 16 \<notin> set ?rs" using r(2) by (simp add: listed_def)
  ultimately show ?thesis using o [of n] by (simp add: pop i'(1)) (simp add: reg_def)
qed

end

section \<open>The main memory\<close>

text \<open>
  Sixteen words in a row are sixteen different cells of the main memory, whose masks have the address bits
  2 to 5.
\<close>

lemma and_3C: "unat (a AND 0x3C :: u32) = unat a div 4 mod 16 * 4"
proof -
  have k: "(0x3C :: u32) = push_bit 2 (mask 4)" by (simp add: mask_eq_exp_minus_1 push_bit_eq_mult)
  have n: "2 \<le> n \<Longrightarrow> Suc (Suc (n - 2)) = n" for n :: nat by simp
  have "a AND 0x3C = push_bit 2 (take_bit 4 (drop_bit 2 a))"
    unfolding k by (rule bit_word_eqI) (auto simp: bit_simps n)
  then have "a AND 0x3C = a div 4 mod 16 * 4"
    by (simp add: push_bit_eq_mult take_bit_eq_mod drop_bit_eq_div)
  moreover have "unat (a div 4 mod 16) = unat a div 4 mod 16" by (simp add: unat_div_distrib unat_mod_distrib)
  moreover have "unat a div 4 mod 16 < 16" by simp
  ultimately show ?thesis by (simp add: unat_mult_u32)
qed

lemma mod_shift:
  fixes u v :: nat
  assumes "u mod 16 = v mod 16" "(u + i) mod 16 = (v + j) mod 16" "i < 16" "j < 16"
  shows "i = j"
proof -
  have e: "(w + n) mod 16 = (if w mod 16 + n < 16 then w mod 16 + n else w mod 16 + n - 16)" if "n < 16" for w n :: nat
    using that by (subst mod_add_left_eq [symmetric]) (auto simp: mod_if [of "_ + _"])
  show ?thesis using assms(2) unfolding e [OF assms(3)] e [OF assms(4)] assms(1) using assms(3,4)
    by (auto split: if_splits)
qed

lemma down_cells:
  assumes "k AND 0x3C = 0x3C" "i < 16" "j < 16" "down start i AND k = down start j AND k"
  shows "i = j"
proof -
  have "down start n AND 0x3C = (down start n AND k) AND 0x3C" for n
    using assms(1) by (simp add: and.assoc)
  then have m: "unat (down start i) div 4 mod 16 = unat (down start j) div 4 mod 16"
    using assms(4) and_3C [of "down start i"] and_3C [of "down start j"] by simp
  have "(unat (down start n) div 4 + n) mod 16 = unat (start - 4) mod 64 div 4" for n
  proof -
    have "unat (down start n + of_nat (4 * n)) = (unat (down start n) + 4 * n) mod 2 ^ LENGTH(32)"
      by (simp only: unat_word_ariths(1) unat_of_nat mod_add_right_eq)
    then have "unat (start - 4) = (unat (down start n) + 4 * n) mod 4294967296" by (simp add: down_def)
    then have "unat (start - 4) mod 64 = (unat (down start n) + 4 * n) mod 64"
      by (simp add: mod_mod_cancel)
    then have "unat (start - 4) mod 64 div 4 = (unat (down start n) + 4 * n) mod 64 div 4" by simp
    also have "\<dots> = (unat (down start n) + 4 * n) div 4 mod 16"
      by (simp add: mod_mult2_eq [of _ 4 16, simplified])
    finally show ?thesis by (simp add: add.commute)
  qed
  then have "(unat (down start i) div 4 + i) mod 16 = (unat (down start j) div 4 + j) mod 16" by simp
  then show ?thesis using mod_shift [OF m] assms(2,3) by blast
qed

text \<open>The memory system of the program is such a memory.\<close>

interpretation main_core: core_memory
  "nds_mem B" P "\<lambda>m. main_ok k region (fst m) \<and> (P = 0 \<or> P = 1)"
  "\<lambda>a. main_word P region (a AND 0xFFFFFFFC)" "\<lambda>a. a AND k" "\<lambda>m. T1ReadLong_guaranteedAligned (MAIN_MEM (fst m))"
  for B P k region
proof (unfold_locales, goal_cases)
  case (1 m a)
  then show ?case
    by (cases m) (auto simp: nds_mem_def main_read align_mask main_ok_def)
next
  case (2 m a v)
  then show ?case by (cases m) (auto simp: nds_mem_def main_write main_ok_def)
next
  case (3 m a b v)
  then have k: "k AND 3 = 0" by (simp add: main_ok_def)
  then have al: "(x AND k) AND 3 = 0" for x by (simp add: and.assoc)
  from 3 show ?case
    by (cases m) (auto simp: nds_mem_def main_write align_mask k read_write_long read_write_other al)
next
  case (4 m n d a)
  then show ?case by (cases m) (auto simp: nds_mem_def split_beta)
next
  case (5 m n d a)
  then show ?case by (cases m) (auto simp: nds_mem_def split_beta)
qed

end
