(* ===== verification/ArmBlockProperties.thy ===== *)
theory ArmBlockProperties
  imports ArmBlockCorrect ArmPipe ArmExample
begin

text \<open>
  The properties of the block transfers.
\<close>

section \<open>Push and pop\<close>

text \<open>
  C13. What \<open>STMDB Rn!\<close> pushes, \<open>LDMIA Rn!\<close> pops: in any later state with the same main memory and the base
  register as the push left it, the pop gives every register of the list and the base register the values they
  had before the push and leaves the other registers.
\<close>
theorem push_pop_round_trip:
  fixes s t :: "('b MMU \<times> TIMING) CORE"
  assumes "proc_ID (cpu s) = 0 \<or> proc_ID (cpu s) = 1" "main_ok k region (fst (mmu s))" "k AND 0x3C = 0x3C"
    and "\<not> bit i 15" "\<not> bit i (REG_POS i 16)"
    and "\<And>j. j < length (listed i) \<Longrightarrow>
      main_word (proc_ID (cpu s)) region (down (reg i 16 s) j AND 0xFFFFFFFC)"
    and "listed i' = listed i" "REG_POS i' 16 = REG_POS i 16"
    and "proc_ID (cpu t) = proc_ID (cpu s)" "main_ok k region (fst (mmu t))"
    and "MAIN_MEM (fst (mmu t)) = MAIN_MEM (fst (mmu (snd (OP_STMDB_W (nds_mem B) i s))))"
    and "reg i 16 t = reg i 16 (snd (OP_STMDB_W (nds_mem B) i s))"
  shows "R (cpu (snd (OP_LDMIA_W (nds_mem B) i' t))) n =
    (if n \<in> set (listed i) \<or> n = REG_POS i 16 then R (cpu s) n else R (cpu t) n)"
proof (rule main_core.push_pop)
  have l: "length (listed i) \<le> 16"
    using length_filter_le [of "bit i" "[0..<16]"] by (simp add: listed_def)
  show "j = j'" if "j < length (listed i)" "j' < length (listed i)"
      "down (reg i 16 s) j AND k = down (reg i 16 s) j' AND k" for j j'
    using down_cells [OF assms(3) _ _ that(3)] that l by simp
  have b: "n \<in> set (listed x) \<longleftrightarrow> n < 16 \<and> bit x n" for n x by (auto simp: listed_def)
  show "\<not> bit i' 15" using assms(4,7) b [of 15 i] b [of 15 i'] by simp
  have "REG_POS i 16 < 16"
    using unat_and_le [of "drop_bit 16 i" 15] by (simp add: REG_POS_def)
  then show "\<not> bit i' (REG_POS i 16)"
    using assms(5,7) b [of "REG_POS i 16" i] b [of "REG_POS i 16" i'] by simp
  have "main_core.good (proc_ID (cpu s)) k region x" if "x = s \<or> x = t" for x
    unfolding main_core.good_def using assms(1,2,9,10) that by auto
  then show "main_core.good (proc_ID (cpu s)) k region s" "main_core.good (proc_ID (cpu s)) k region t"
    by simp_all
qed (use assms in \<open>simp_all\<close>)


text \<open>\<open>STMDB SP!, {R4, R5, LR}\<close> and \<open>LDMIA SP!, {R4, R5, LR}\<close>, with \<open>R4\<close> overwritten in between.\<close>

theorem push_pop_round_trip_witness:
  "let s = core_of (with_regs ((\<lambda>_. 0x02001000)(4 := 7))) (example_mmu, example_timing);
       t = upd_cpu (setR 4 0) (snd (OP_STMDB_W (nds_mem example_bus) 0xE92D4030 s)) in
     R (cpu (snd (OP_LDMIA_W (nds_mem example_bus) 0xE8BD4030 t))) 4 = 7"
proof -
  define s where "s = core_of (with_regs ((\<lambda>_. 0x02001000)(4 := 7))) (example_mmu, example_timing)"
  define p where "p = snd (OP_STMDB_W (nds_mem example_bus) 0xE92D4030 s)"
  have l: "listed 0xE92D4030 = [4, 5, 14]" "listed 0xE8BD4030 = [4, 5, 14]" by code_simp+
  have r: "REG_POS 0xE92D4030 16 = 13" "REG_POS 0xE8BD4030 16 = 13" by (simp_all add: REG_POS_def)
  have base: "reg 0xE92D4030 16 s = 0x02001000" by (simp add: reg_def r s_def core_of_def with_regs_def)
  have id: "proc_ID (cpu s) = 0" by (simp add: s_def core_of_def with_regs_def example_cpu_def)
  have ok: "main_ok 0x3FFFFC 0x027C0000 (fst (mmu s))" using example_main_ok by (simp add: s_def core_of_def)
  have adr: "main_word 0 0x027C0000 (down 0x02001000 j AND 0xFFFFFFFC)" if "j < 3" for j
    using that by (auto simp: numeral_3_eq_3 less_Suc_eq down_def main_word_def in_main_def)
  have "main_core.good 0 0x3FFFFC 0x027C0000 p" unfolding p_def
  proof (rule main_core.push_good)
    show "main_core.good 0 0x3FFFFC 0x027C0000 s" unfolding main_core.good_def using id ok by simp
    show "j = k" if "j < length (listed 0xE92D4030)" "k < length (listed 0xE92D4030)"
        "down (reg 0xE92D4030 16 s) j AND 0x3FFFFC = down (reg 0xE92D4030 16 s) k AND 0x3FFFFC" for j k
      using down_cells [OF _ _ _ that(3)] that(1,2) by (simp add: l)
  qed (use adr in \<open>simp add: l base\<close>)
  then have g: "proc_ID (cpu p) = 0" "main_ok 0x3FFFFC 0x027C0000 (fst (mmu p))"
    unfolding main_core.good_def by auto
  have "R (cpu (snd (OP_LDMIA_W (nds_mem example_bus) 0xE8BD4030 (upd_cpu (setR 4 0) p)))) 4 = R (cpu s) 4"
    using push_pop_round_trip [of s "0x3FFFFC" "0x027C0000" "0xE92D4030" "0xE8BD4030" "upd_cpu (setR 4 0) p" example_bus 4]
      g id ok adr by (simp add: l r base flip: p_def) (simp add: upd_cpu_def setR_def reg_def r)
  then show ?thesis by (simp add: p_def s_def Let_def) (simp add: core_of_def with_regs_def)
qed

section \<open>Transfers of user registers\<close>

lemma cur_mode_R: "cur_mode (c\<lparr>R := f\<rparr>) = cur_mode c"
  by (simp add: cur_mode_def)

lemma valid_SYS: "valid_mode SYS" by (simp add: valid_mode_def)

lemma in_user_cases: "in_user s \<longleftrightarrow> cur_mode (cpu s) = USR \<or> cur_mode (cpu s) = SYS"
  by (simp add: in_user_def cur_mode_def)

text \<open>
  \<open>LDMIA Rn, {..}^\<close> without the program counter loads the registers of the user mode from a privileged
  mode: it stays in its mode, the user registers of the list get the words at the base address upwards, and
  every other register of every mode keeps its value, the own registers of the mode among them.
\<close>
theorem load_user_registers:
  fixes s :: "('b MMU \<times> TIMING) CORE"
  assumes "proc_ID (cpu s) = 0 \<or> proc_ID (cpu s) = 1" "main_ok k region (fst (mmu s))"
    and "\<not> bit i 15" "valid_mode (cur_mode (cpu s))" "\<not> in_user s"
    and "\<And>j. j < length (listed i) \<Longrightarrow>
      main_word (proc_ID (cpu s)) region (up (reg i 16 s) j AND 0xFFFFFFFC)"
  shows "let c = cpu (snd (OP_LDMIA2 (nds_mem B) i s)) in
    cur_mode c = cur_mode (cpu s) \<and>
    (\<forall>j < length (listed i). banked USR (listed i ! j) c =
       T1ReadLong_guaranteedAligned (MAIN_MEM (fst (mmu s))) (up (reg i 16 s) j AND k)) \<and>
    (\<forall>m n. valid_mode m \<longrightarrow> n \<notin> set (listed i) \<or> \<not> shared m USR n \<longrightarrow> banked m n c = banked m n (cpu s))"
proof -
  let ?c = "cpu s" and ?old = "cur_mode (cpu s)" and ?start = "reg i 16 s"
  define s1 where "s1 = snd (armcpu_switchMode SYS s)"
  have s1: "cpu s1 = switch_cpu SYS ?c" "mmu s1 = mmu s" "armcpu_switchMode SYS s = (?old, s1)"
    by (simp_all add: s1_def armcpu_switchMode_def changeCPSR_def NDS_Reschedule_def upd_cpu_def cur_mode_def)
  have g: "main_core.good (proc_ID ?c) k region s1"
    unfolding main_core.good_def using assms(1,2) by (simp add: s1 switch_other)
  obtain c m f where ld: "ldm_list (nds_mem B) IA i (?start, 0, s1) =
        (?start + 4 * of_nat (length (listed i)), c, s1\<lparr>cpu := (cpu s1)\<lparr>R := f\<rparr>, mmu := m\<rparr>)"
    and f: "\<And>j. j < length (listed i) \<Longrightarrow>
        f (listed i ! j) = T1ReadLong_guaranteedAligned (MAIN_MEM (fst (mmu s1))) (up ?start j AND k)"
    and o: "\<And>n. n \<notin> set (listed i) \<Longrightarrow> f n = R (cpu s1) n"
    using main_core.pop_loop [OF g assms(3) assms(6)] by blast
  have fin: "cpu (snd (OP_LDMIA2 (nds_mem B) i s)) = switch_cpu ?old ((switch_cpu SYS ?c)\<lparr>R := f\<rparr>)"
    using assms(3,5) by (simp add: OP_LDMIA2_def Let_def s1 ld)
      (simp add: armcpu_switchMode_def changeCPSR_def NDS_Reschedule_def upd_cpu_def)
  have v: "valid_mode ?old" by (rule assms(4))
  have b: "banked m n (cpu (snd (OP_LDMIA2 (nds_mem B) i s))) =
      (if shared m SYS n then f n else banked m n ?c)" if "valid_mode m" for m n
    using that v by (simp add: fin switch_banked valid_SYS cur_mode_switch banked_R cur_mode_R)
  have u: "shared m SYS n = shared m USR n" "shared USR SYS n" "shared USR USR n" for m n
    by (auto simp: shared_def bank_def mode_neq)
  have "f n = banked m n ?c" if "n \<notin> set (listed i)" "shared m USR n" "valid_mode m" for m n
    using o [OF that(1)] that(2,3) v switch_banked [of m SYS ?c n]
    by (simp add: s1 valid_SYS banked_shared cur_mode_switch u)
  moreover have "cur_mode (cpu (snd (OP_LDMIA2 (nds_mem B) i s))) = ?old"
    by (simp add: fin cur_mode_switch v)
  ultimately show ?thesis using f by (auto simp: Let_def b u s1 valid_mode_def)
qed


text \<open>\<open>LDMIA R0, {R13}^\<close> in IRQ mode: the stack pointer of the user mode is loaded, the own one is kept.\<close>

theorem load_user_registers_witness:
  "let s = core_of ((with_regs ((\<lambda>_. 0x02001000)(13 := 7)))\<lparr>CPSR := 0x12\<rparr>) (example_mmu, example_timing);
       c = cpu (snd (OP_LDMIA2 (nds_mem example_bus) 0xE8D02000 s)) in
     banked USR 13 c = 0 \<and> R c 13 = 7"
proof -
  define s where "s = core_of ((with_regs ((\<lambda>_. 0x02001000)(13 := 7)))\<lparr>CPSR := 0x12\<rparr>) (example_mmu, example_timing)"
  have l: "listed 0xE8D02000 = [13]" by code_simp
  have m: "cur_mode (cpu s) = IRQ" by (simp add: s_def core_of_def cur_mode_def psr_mode_def IRQ_def)
  have ok: "main_ok 0x3FFFFC 0x027C0000 (fst (mmu s))" using example_main_ok by (simp add: s_def core_of_def)
  have base: "reg 0xE8D02000 16 s = 0x02001000"
    by (simp add: reg_def REG_POS_def s_def core_of_def with_regs_def)
  have id: "proc_ID (cpu s) = 0" by (simp add: s_def core_of_def with_regs_def example_cpu_def)
  have adr: "main_word 0 0x027C0000 (up 0x02001000 0 AND 0xFFFFFFFC)"
    by (simp add: up_def main_word_def in_main_def)
  define c where "c = cpu (snd (OP_LDMIA2 (nds_mem example_bus) 0xE8D02000 s))"
  have "cur_mode c = IRQ" "banked USR 13 c = 0" "banked IRQ 13 c = banked IRQ 13 (cpu s)"
    using load_user_registers [of s "0x3FFFFC" "0x027C0000" "0xE8D02000" example_bus] ok adr id m
    by (simp_all add: c_def l base Let_def in_user_cases mode_neq valid_IRQ shared_def bank_def)
      (simp add: s_def core_of_def example_mmu_def T1ReadLong_guaranteedAligned_def SetupMMU_def Let_def)
  then show ?thesis using banked_current [of c 13] banked_current [of "cpu s" 13] m
    by (simp add: c_def s_def Let_def) (simp add: core_of_def with_regs_def)
qed

section \<open>Returns from exceptions\<close>

text \<open>
  Whatever the memory does, the load of a list changes the listed registers and the program counter only.
\<close>

definition keeps13 :: "armcpu_t \<Rightarrow> armcpu_t \<Rightarrow> bool" where
  "keeps13 c d = (R d 13 = R c 13 \<and> CPSR d = CPSR c \<and> SPSR d = SPSR c \<and> (\<forall>b. bank13 b d = bank13 b c))"

lemma keeps13_refl: "keeps13 c c"
  by (simp add: keeps13_def)

lemma keeps13_trans: "keeps13 c d \<Longrightarrow> keeps13 d e \<Longrightarrow> keeps13 c e"
  by (simp add: keeps13_def)

lemma keeps13_setR: "n \<noteq> 13 \<Longrightarrow> keeps13 c (setR n v c)"
  by (simp add: keeps13_def setR_def bank13_def)

lemma keeps13_next: "keeps13 c (next_from_pc c)"
  by (simp add: keeps13_def next_from_pc_def bank13_def)

lemma keeps13_banked: "keeps13 c d \<Longrightarrow> banked m 13 d = banked m 13 c"
  by (simp add: keeps13_def banked_def cur_mode_def)

lemma access_cpu:
  "cpu (snd (READ32 M a s)) = cpu s" "cpu (snd (MMU_memAccessCycles M n d a s)) = cpu s"
  by (simp_all add: READ32_def MMU_memAccessCycles_def split_beta)

lemma keeps13_step:
  "n \<noteq> 13 \<or> \<not> bit i 13 \<Longrightarrow> keeps13 (cpu s) (cpu (snd (snd (ldm_step M k i n (start, c, s)))))"
  by (auto simp: ldm_step_def Let_def split_beta access_cpu upd_cpu_def keeps13_refl
      intro!: keeps13_setR)

lemma keeps13_fold:
  "\<not> bit i 13 \<Longrightarrow> keeps13 (cpu (snd (snd q))) (cpu (snd (snd (fold (ldm_step M k i) ns q))))"
proof (induction ns arbitrary: q)
  case Nil
  then show ?case by (simp add: keeps13_refl)
next
  case (Cons n ns)
  then have "keeps13 (cpu (snd (snd q))) (cpu (snd (snd (ldm_step M k i n q))))"
    by (cases q) (simp add: keeps13_step)
  then show ?case using Cons.IH [OF Cons.prems, of "ldm_step M k i n q"] by (auto intro: keeps13_trans)
qed

lemma keeps13_list:
  "\<not> bit i 13 \<Longrightarrow> keeps13 (cpu s) (cpu (snd (snd (ldm_list M k i (start, c, s)))))"
  using keeps13_fold [of i "(start, c, s)"] by (simp add: ldm_list_def)


text \<open>The two ways to restore the status register.\<close>

lemma switch_to_spsr_R13:
  assumes "valid_mode (psr_mode (SPSR (cpu s)))" "valid_mode (cur_mode (cpu s))"
  shows "R (cpu (switch_to_spsr s)) 13 = banked (psr_mode (SPSR (cpu s))) 13 (cpu s)"
  using switch_R [OF assms, of 13]
  by (simp add: switch_to_spsr_def armcpu_switchMode_def changeCPSR_def NDS_Reschedule_def upd_cpu_def Let_def)

lemma good_return:
  assumes "keeps13 (cpu s) (cpu t)" "valid_mode (psr_mode (SPSR (cpu s)))" "valid_mode (cur_mode (cpu s))"
  shows "R (cpu (switch_to_spsr t)) 13 = banked (psr_mode (SPSR (cpu s))) 13 (cpu s)"
  using assms switch_to_spsr_R13 [of t] keeps13_banked [OF assms(1)]
  by (simp add: keeps13_def cur_mode_def)

lemma early_copy:
  assumes "keeps13 (cpu (copy_spsr t)) (cpu u)" "keeps13 (cpu s) (cpu t)" "valid_mode (psr_mode (SPSR (cpu s)))"
  shows "R (cpu (switch_to_spsr u)) 13 = R (cpu s) 13"
proof -
  have "SPSR (cpu u) = SPSR (cpu s)" "CPSR (cpu u) = SPSR (cpu s)" "R (cpu u) 13 = R (cpu s) 13"
    using assms(1,2) by (simp_all add: keeps13_def copy_spsr_def changeCPSR_def NDS_Reschedule_def upd_cpu_def)
  then show ?thesis
    using switch_to_spsr_R13 [of u] assms(3) by (simp add: cur_mode_def banked_def)
qed

text \<open>Chains of operations that keep it, for the states of the functions.\<close>

lemma keeps13_chain:
  "keeps13 (cpu s) (cpu t) \<Longrightarrow> keeps13 (cpu s) (cpu (snd (READ32 M a t)))"
  "keeps13 (cpu s) (cpu t) \<Longrightarrow> keeps13 (cpu s) (cpu (snd (MMU_memAccessCycles M n d a t)))"
  "keeps13 (cpu s) (cpu t) \<Longrightarrow> keeps13 (cpu s) (cpu (upd_cpu (return_pc v) t))"
  "keeps13 (cpu s) (cpu t) \<Longrightarrow> keeps13 (cpu s) (cpu (upd_cpu next_from_pc t))"
  "keeps13 (cpu s) (cpu t) \<Longrightarrow> REG_POS i 16 \<noteq> 13 \<Longrightarrow> keeps13 (cpu s) (cpu (set_reg i 16 v t))"
  "keeps13 (cpu s) (cpu t) \<Longrightarrow> \<not> bit i 13 \<Longrightarrow>
    keeps13 (cpu s) (cpu (snd (snd (ldm_list M k i (start, c, t)))))"
  "keeps13 (cpu s) (cpu t) \<Longrightarrow> keeps13 (cpu s) (cpu u) \<Longrightarrow> keeps13 (cpu s) (cpu (if b then t else u))"
  by (simp_all add: access_cpu upd_cpu_def set_reg_def return_pc_def keeps13_trans [OF _ keeps13_setR]
      keeps13_trans [OF _ keeps13_next] keeps13_trans [OF _ keeps13_list])

lemma keeps13_pair:
  "keeps13 (cpu s) (cpu (snd q)) \<Longrightarrow> \<not> bit i 13 \<Longrightarrow>
    keeps13 (cpu s) (cpu (snd (snd (ldm_list M k i (start, q)))))"
  by (cases q) (simp add: keeps13_trans [OF _ keeps13_list])

lemma R13_next: "R (next_from_pc c) 13 = R c 13"
  by (simp add: next_from_pc_def)

lemmas return_simps = Let_def split_beta access_cpu R13_next

text \<open>
  C39. Returns from exceptions with \<open>LDM {.., PC}^\<close>. After \<open>OP_LDMIA2\<close>, \<open>OP_LDMIB2\<close>, \<open>OP_LDMIA2_W\<close> and
  \<open>OP_LDMDA2_W\<close> the stack pointer is the one of the mode returned to. The other four functions copy the saved
  status register before they change the mode, so the change is from the new mode to itself, and the program
  returned to goes on with the stack pointer of the exception mode.
\<close>
theorem exception_return_stack:
  fixes M :: "'m MEM" and s :: "'m CORE"
  assumes "bit i 15" "\<not> bit i 13" "REG_POS i 16 \<noteq> 13"
    and "valid_mode (psr_mode (SPSR (cpu s)))" "valid_mode (cur_mode (cpu s))"
  shows "(\<forall>op \<in> {OP_LDMIA2, OP_LDMIB2, OP_LDMIA2_W, OP_LDMDA2_W}.
      R (cpu (snd (op M i s))) 13 = banked (psr_mode (SPSR (cpu s))) 13 (cpu s)) \<and>
    (\<forall>op \<in> {OP_LDMDA2, OP_LDMDB2, OP_LDMIB2_W, OP_LDMDB2_W}.
      R (cpu (snd (op M i s))) 13 = R (cpu s) 13)"
proof -
  note good = good_return [OF _ assms(4,5)] and early = early_copy [OF _ _ assms(4)]
  note rules = keeps13_chain keeps13_pair assms(2,3) keeps13_refl
  have "R (cpu (snd (OP_LDMIA2 M i s))) 13 = banked (psr_mode (SPSR (cpu s))) 13 (cpu s)"
    by (simp add: OP_LDMIA2_def assms(1) return_simps) (intro conjI impI good rules)
  moreover have "R (cpu (snd (OP_LDMIB2 M i s))) 13 = banked (psr_mode (SPSR (cpu s))) 13 (cpu s)"
    by (simp add: OP_LDMIB2_def assms(1) return_simps) (intro conjI impI good rules)
  moreover have "R (cpu (snd (OP_LDMIA2_W M i s))) 13 = banked (psr_mode (SPSR (cpu s))) 13 (cpu s)"
    by (simp add: OP_LDMIA2_W_def assms(1) return_simps) (intro conjI impI good rules)
  moreover have "R (cpu (snd (OP_LDMDA2_W M i s))) 13 = banked (psr_mode (SPSR (cpu s))) 13 (cpu s)"
    by (simp add: OP_LDMDA2_W_def assms(1) return_simps) (intro conjI impI good rules)
  moreover have "R (cpu (snd (OP_LDMDA2 M i s))) 13 = R (cpu s) 13"
    by (simp add: OP_LDMDA2_def assms(1) return_simps) (rule early, (rule rules)+)
  moreover have "R (cpu (snd (OP_LDMDB2 M i s))) 13 = R (cpu s) 13"
    by (simp add: OP_LDMDB2_def assms(1) return_simps) (rule early, (rule rules)+)
  moreover have "R (cpu (snd (OP_LDMIB2_W M i s))) 13 = R (cpu s) 13"
    by (simp add: OP_LDMIB2_W_def assms(1) return_simps) ((intro conjI impI; rule early), (rule rules)+)
  moreover have "R (cpu (snd (OP_LDMDB2_W M i s))) 13 = R (cpu s) 13"
    by (simp add: OP_LDMDB2_W_def assms(1) return_simps) ((intro conjI impI; rule early), (rule rules)+)
  ultimately show ?thesis by simp
qed

text \<open>
  A return from SVC mode, with stack pointer 5, to system mode, with stack pointer 7, by \<open>LDMIA R0, {PC}^\<close> and
  by \<open>LDMDB R0, {PC}^\<close>.
\<close>

theorem exception_return_stack_witness:
  "let s = core_of ((with_regs ((\<lambda>_. 0x02001000)(13 := 5)))\<lparr>CPSR := 0x13, SPSR := 0x1F, R13_usr := 7\<rparr>)
         (example_mmu, example_timing) in
   R (cpu (snd (OP_LDMIA2 (nds_mem example_bus) 0xE8D08000 s))) 13 = 7 \<and>
   R (cpu (snd (OP_LDMDB2 (nds_mem example_bus) 0xE8D08000 s))) 13 = 5"
proof -
  define s where "s = core_of ((with_regs ((\<lambda>_. 0x02001000)(13 := 5)))\<lparr>CPSR := 0x13, SPSR := 0x1F, R13_usr := 7\<rparr>)
         (example_mmu, example_timing)"
  have c: "psr_mode (SPSR (cpu s)) = SYS" "cur_mode (cpu s) = SVC"
    by (simp_all add: s_def core_of_def cur_mode_def psr_mode_def SYS_def SVC_def)
  have "banked SYS 13 (cpu s) = 7" "R (cpu s) 13 = 5"
    using c by (simp_all add: banked_def bank_def mode_neq bank13_def) (simp_all add: s_def core_of_def with_regs_def)
  moreover have "REG_POS 0xE8D08000 16 = 0" by (simp add: REG_POS_def)
  ultimately show ?thesis
    using exception_return_stack [of "0xE8D08000" s "nds_mem example_bus"] c
    by (simp add: Let_def valid_mode_def flip: s_def) 
qed

end
