(* ===== verification/Thumb.thy ===== *)
theory Thumb
  imports ArmBlock
begin

text \<open>
  The Thumb instructions: \<^verbatim>\<open>thumb_instructions.cpp\<close>, and the table \<^verbatim>\<open>thumb_tabdef.inc\<close> that
  selects the function by the upper ten bits. The name of a function that also names an ARM instruction has
  the suffix \<open>_THUMB\<close>. The loops of the block transfers are folds over the steps of the ARM ones.
\<close>

section \<open>Registers and flags\<close>

definition REG_NUM :: "u32 \<Rightarrow> nat \<Rightarrow> nat" where "REG_NUM i n = unat (drop_bit n i AND 0x7)"

definition lo :: "u32 \<Rightarrow> nat \<Rightarrow> 'm CORE \<Rightarrow> u32" where "lo i n s = R (cpu s) (REG_NUM i n)"

text \<open>A result with its sign and zero flags, and with all four flags.\<close>

definition result_NZ :: "nat \<Rightarrow> u32 \<Rightarrow> armcpu_t \<Rightarrow> armcpu_t" where
  "result_NZ n v c = put_NZ v (setR n v c)"

definition result_NZCV :: "nat \<Rightarrow> u32 \<Rightarrow> bool \<Rightarrow> bool \<Rightarrow> armcpu_t \<Rightarrow> armcpu_t" where
  "result_NZCV n v carry over c = put_NZCV v carry over (setR n v c)"

definition OP_UND_THUMB :: "u32 \<Rightarrow> 'm CORE \<Rightarrow> u32 \<times> 'm CORE" where
  "OP_UND_THUMB i s = (1, snd (TRAPUNDEF s))"

section \<open>LSL\<close>

definition imm5 :: "u32 \<Rightarrow> nat" where "imm5 i = unat (drop_bit 6 i AND 0x1F)"
definition amount :: "u32 \<Rightarrow> 'm CORE \<Rightarrow> nat" where "amount i s = unat (lo i 3 s AND 0xFF)"

definition OP_LSL_0 :: "u32 \<Rightarrow> 'm CORE \<Rightarrow> u32 \<times> 'm CORE" where
  "OP_LSL_0 i s = (1, upd_cpu (result_NZ (REG_NUM i 0) (lo i 3 s)) s)"

definition OP_LSL :: "u32 \<Rightarrow> 'm CORE \<Rightarrow> u32 \<times> 'm CORE" where
  "OP_LSL i s =
     (let v = imm5 i; x = lo i 3 s in
      (1, upd_cpu (result_NZ (REG_NUM i 0) (push_bit v x) \<circ> put_flag C_bit (bit x (32 - v))) s))"

definition OP_LSL_REG :: "u32 \<Rightarrow> 'm CORE \<Rightarrow> u32 \<times> 'm CORE" where
  "OP_LSL_REG i s =
     (let v = amount i s; n = REG_NUM i 0; x = R (cpu s) n in
      if v = 0 then (2, upd_cpu (put_NZ x) s)
      else if v < 32 then (2, upd_cpu (result_NZ n (push_bit v x) \<circ> put_flag C_bit (bit x (32 - v))) s)
      else (2, upd_cpu (result_NZ n 0 \<circ> put_flag C_bit (v = 32 \<and> bit x 0)) s))"

section \<open>LSR\<close>

definition OP_LSR_0 :: "u32 \<Rightarrow> 'm CORE \<Rightarrow> u32 \<times> 'm CORE" where
  "OP_LSR_0 i s = (1, upd_cpu (result_NZ (REG_NUM i 0) 0 \<circ> put_flag C_bit (bit (lo i 3 s) 31)) s)"

definition OP_LSR :: "u32 \<Rightarrow> 'm CORE \<Rightarrow> u32 \<times> 'm CORE" where
  "OP_LSR i s =
     (let v = imm5 i; x = lo i 3 s in
      (1, upd_cpu (result_NZ (REG_NUM i 0) (drop_bit v x) \<circ> put_flag C_bit (bit x (v - 1))) s))"

definition OP_LSR_REG :: "u32 \<Rightarrow> 'm CORE \<Rightarrow> u32 \<times> 'm CORE" where
  "OP_LSR_REG i s =
     (let v = amount i s; n = REG_NUM i 0; x = R (cpu s) n in
      if v = 0 then (2, upd_cpu (put_NZ x) s)
      else if v < 32 then (2, upd_cpu (result_NZ n (drop_bit v x) \<circ> put_flag C_bit (bit x (v - 1))) s)
      else (2, upd_cpu (result_NZ n 0 \<circ> put_flag C_bit (v = 32 \<and> bit x 31)) s))"

section \<open>ASR\<close>

definition OP_ASR_0 :: "u32 \<Rightarrow> 'm CORE \<Rightarrow> u32 \<times> 'm CORE" where
  "OP_ASR_0 i s =
     (let x = lo i 3 s in
      (1, upd_cpu (result_NZ (REG_NUM i 0) (sign_fill x) \<circ> put_flag C_bit (bit x 31)) s))"

definition OP_ASR :: "u32 \<Rightarrow> 'm CORE \<Rightarrow> u32 \<times> 'm CORE" where
  "OP_ASR i s =
     (let v = imm5 i; x = lo i 3 s in
      (1, upd_cpu (result_NZ (REG_NUM i 0) (signed_drop_bit v x) \<circ> put_flag C_bit (bit x (v - 1))) s))"

definition OP_ASR_REG :: "u32 \<Rightarrow> 'm CORE \<Rightarrow> u32 \<times> 'm CORE" where
  "OP_ASR_REG i s =
     (let v = amount i s; n = REG_NUM i 0; x = R (cpu s) n in
      if v = 0 then (2, upd_cpu (put_NZ x) s)
      else if v < 32 then (2, upd_cpu (result_NZ n (signed_drop_bit v x) \<circ> put_flag C_bit (bit x (v - 1))) s)
      else (2, upd_cpu (result_NZ n (sign_fill x) \<circ> put_flag C_bit (bit x 31)) s))"

section \<open>ADD\<close>

definition OP_ADD_IMM3 :: "u32 \<Rightarrow> 'm CORE \<Rightarrow> u32 \<times> 'm CORE" where
  "OP_ADD_IMM3 i s =
     (let imm3 = drop_bit 6 i AND 0x07; Rn = lo i 3 s; n = REG_NUM i 0 in
      if imm3 = 0 then (1, upd_cpu (result_NZCV n Rn False False) s)
      else (1, upd_cpu (result_NZCV n (Rn + imm3) (CarryFrom Rn imm3) (OverflowFromADD (Rn + imm3) Rn imm3)) s))"

definition OP_ADD_IMM8 :: "u32 \<Rightarrow> 'm CORE \<Rightarrow> u32 \<times> 'm CORE" where
  "OP_ADD_IMM8 i s =
     (let imm8 = i AND 0xFF; Rd = lo i 8 s in
      (1, upd_cpu (result_NZCV (REG_NUM i 8) (Rd + imm8) (CarryFrom Rd imm8) (OverflowFromADD (Rd + imm8) Rd imm8)) s))"

definition OP_ADD_REG :: "u32 \<Rightarrow> 'm CORE \<Rightarrow> u32 \<times> 'm CORE" where
  "OP_ADD_REG i s =
     (let Rn = lo i 3 s; Rm = lo i 6 s in
      (1, upd_cpu (result_NZCV (REG_NUM i 0) (Rn + Rm) (CarryFrom Rn Rm) (OverflowFromADD (Rn + Rm) Rn Rm)) s))"

text \<open>The register with the fourth bit of its number at bit 7, and a write to it.\<close>

definition Rd_SPE :: "u32 \<Rightarrow> nat" where
  "Rd_SPE i = unat ((i AND 0x7) OR (drop_bit 4 i AND 8))"

definition write_SPE :: "u32 \<Rightarrow> u32 \<Rightarrow> 'm CORE \<Rightarrow> u32 \<times> 'm CORE" where
  "write_SPE i v s =
     (let s = upd_cpu (setR (Rd_SPE i) v) s in
      if Rd_SPE i = 15 then (3, upd_cpu next_from_pc s) else (1, s))"

definition OP_ADD_SPE :: "u32 \<Rightarrow> 'm CORE \<Rightarrow> u32 \<times> 'm CORE" where
  "OP_ADD_SPE i s = write_SPE i (R (cpu s) (Rd_SPE i) + reg i 3 s) s"

definition OP_ADD_2PC :: "u32 \<Rightarrow> 'm CORE \<Rightarrow> u32 \<times> 'm CORE" where
  "OP_ADD_2PC i s =
     (1, upd_cpu (\<lambda>c. setR (REG_NUM i 8) ((R c 15 AND 0xFFFFFFFC) + push_bit 2 (i AND 0xFF)) c) s)"

definition OP_ADD_2SP :: "u32 \<Rightarrow> 'm CORE \<Rightarrow> u32 \<times> 'm CORE" where
  "OP_ADD_2SP i s = (1, upd_cpu (\<lambda>c. setR (REG_NUM i 8) (R c 13 + push_bit 2 (i AND 0xFF)) c) s)"

section \<open>SUB\<close>

text \<open>The flags of a subtraction, with the result in a register.\<close>

definition result_SUB :: "nat \<Rightarrow> u32 \<Rightarrow> u32 \<Rightarrow> armcpu_t \<Rightarrow> armcpu_t" where
  "result_SUB n a b c = result_NZCV n (a - b) (\<not> BorrowFrom a b) (OverflowFromSUB (a - b) a b) c"

definition flags_SUB :: "u32 \<Rightarrow> u32 \<Rightarrow> armcpu_t \<Rightarrow> armcpu_t" where
  "flags_SUB a b c = put_NZCV (a - b) (\<not> BorrowFrom a b) (OverflowFromSUB (a - b) a b) c"

definition OP_SUB_IMM3 :: "u32 \<Rightarrow> 'm CORE \<Rightarrow> u32 \<times> 'm CORE" where
  "OP_SUB_IMM3 i s = (1, upd_cpu (result_SUB (REG_NUM i 0) (lo i 3 s) (drop_bit 6 i AND 0x07)) s)"

definition OP_SUB_IMM8 :: "u32 \<Rightarrow> 'm CORE \<Rightarrow> u32 \<times> 'm CORE" where
  "OP_SUB_IMM8 i s = (1, upd_cpu (result_SUB (REG_NUM i 8) (lo i 8 s) (i AND 0xFF)) s)"

definition OP_SUB_REG :: "u32 \<Rightarrow> 'm CORE \<Rightarrow> u32 \<times> 'm CORE" where
  "OP_SUB_REG i s = (1, upd_cpu (result_SUB (REG_NUM i 0) (lo i 3 s) (lo i 6 s)) s)"

section \<open>MOV and CMP\<close>

definition OP_MOV_IMM8 :: "u32 \<Rightarrow> 'm CORE \<Rightarrow> u32 \<times> 'm CORE" where
  "OP_MOV_IMM8 i s = (1, upd_cpu (result_NZ (REG_NUM i 8) (i AND 0xFF)) s)"

definition OP_MOV_SPE :: "u32 \<Rightarrow> 'm CORE \<Rightarrow> u32 \<times> 'm CORE" where
  "OP_MOV_SPE i s = write_SPE i (reg i 3 s) s"

definition OP_CMP_IMM8 :: "u32 \<Rightarrow> 'm CORE \<Rightarrow> u32 \<times> 'm CORE" where
  "OP_CMP_IMM8 i s = (1, upd_cpu (flags_SUB (lo i 8 s) (i AND 0xFF)) s)"

definition OP_CMP_THUMB :: "u32 \<Rightarrow> 'm CORE \<Rightarrow> u32 \<times> 'm CORE" where
  "OP_CMP_THUMB i s = (1, upd_cpu (flags_SUB (lo i 0 s) (lo i 3 s)) s)"

definition OP_CMP_SPE :: "u32 \<Rightarrow> 'm CORE \<Rightarrow> u32 \<times> 'm CORE" where
  "OP_CMP_SPE i s = (1, upd_cpu (flags_SUB (R (cpu s) (Rd_SPE i)) (reg i 3 s)) s)"

section \<open>Operations on two low registers\<close>

definition OP_AND_THUMB :: "u32 \<Rightarrow> 'm CORE \<Rightarrow> u32 \<times> 'm CORE" where
  "OP_AND_THUMB i s = (1, upd_cpu (result_NZ (REG_NUM i 0) (lo i 0 s AND lo i 3 s)) s)"

definition OP_EOR_THUMB :: "u32 \<Rightarrow> 'm CORE \<Rightarrow> u32 \<times> 'm CORE" where
  "OP_EOR_THUMB i s = (1, upd_cpu (result_NZ (REG_NUM i 0) (lo i 0 s XOR lo i 3 s)) s)"

definition OP_ADC_REG :: "u32 \<Rightarrow> 'm CORE \<Rightarrow> u32 \<times> 'm CORE" where
  "OP_ADC_REG i s =
     (let Rd = lo i 0 s; Rm = lo i 3 s;
          (r, carry) = (if \<not> flag C_bit (cpu s) then (let r = Rd + Rm in (r, r < Rm))
                        else (let r = Rd + Rm + 1 in (r, r \<le> Rm))) in
      (1, upd_cpu (\<lambda>c. put_flag V_bit (bit ((Rd XOR Rm XOR - 1) AND (Rd XOR r)) 31)
         (put_NZ r (put_flag C_bit carry (setR (REG_NUM i 0) r c)))) s))"

definition OP_SBC_REG :: "u32 \<Rightarrow> 'm CORE \<Rightarrow> u32 \<times> 'm CORE" where
  "OP_SBC_REG i s =
     (let Rd = lo i 0 s; Rm = lo i 3 s;
          (r, carry) = (if \<not> flag C_bit (cpu s) then (Rd - Rm - 1, Rd > Rm) else (Rd - Rm, Rd \<ge> Rm)) in
      (1, upd_cpu (\<lambda>c. put_flag V_bit (bit ((Rd XOR Rm) AND (Rd XOR r)) 31)
         (put_NZ r (put_flag C_bit carry (setR (REG_NUM i 0) r c)))) s))"

definition OP_ROR_REG :: "u32 \<Rightarrow> 'm CORE \<Rightarrow> u32 \<times> 'm CORE" where
  "OP_ROR_REG i s =
     (let v = amount i s; n = REG_NUM i 0; x = R (cpu s) n in
      if v = 0 then (2, upd_cpu (put_NZ x) s)
      else (let v = v mod 32 in
        if v = 0 then (2, upd_cpu (put_NZ x \<circ> put_flag C_bit (bit x 31)) s)
        else (2, upd_cpu (result_NZ n (ROR x v) \<circ> put_flag C_bit (bit x (v - 1))) s)))"

definition OP_TST_THUMB :: "u32 \<Rightarrow> 'm CORE \<Rightarrow> u32 \<times> 'm CORE" where
  "OP_TST_THUMB i s = (1, upd_cpu (put_NZ (lo i 0 s AND lo i 3 s)) s)"

definition OP_NEG :: "u32 \<Rightarrow> 'm CORE \<Rightarrow> u32 \<times> 'm CORE" where
  "OP_NEG i s = (1, upd_cpu (result_SUB (REG_NUM i 0) 0 (lo i 3 s)) s)"

definition OP_CMN_THUMB :: "u32 \<Rightarrow> 'm CORE \<Rightarrow> u32 \<times> 'm CORE" where
  "OP_CMN_THUMB i s =
     (let a = lo i 0 s; b = lo i 3 s; tmp = a + b in
      (1, upd_cpu (put_NZCV tmp (CarryFrom a b) (OverflowFromADD tmp a b)) s))"

definition OP_ORR_THUMB :: "u32 \<Rightarrow> 'm CORE \<Rightarrow> u32 \<times> 'm CORE" where
  "OP_ORR_THUMB i s = (1, upd_cpu (result_NZ (REG_NUM i 0) (lo i 0 s OR lo i 3 s)) s)"

definition OP_BIC_THUMB :: "u32 \<Rightarrow> 'm CORE \<Rightarrow> u32 \<times> 'm CORE" where
  "OP_BIC_THUMB i s = (1, upd_cpu (result_NZ (REG_NUM i 0) (lo i 0 s AND NOT (lo i 3 s))) s)"

definition OP_MVN_THUMB :: "u32 \<Rightarrow> 'm CORE \<Rightarrow> u32 \<times> 'm CORE" where
  "OP_MVN_THUMB i s = (1, upd_cpu (result_NZ (REG_NUM i 0) (NOT (lo i 3 s))) s)"

definition MUL_Mxx_END_THUMB :: "u32 \<Rightarrow> u32 \<Rightarrow> u32" where
  "MUL_Mxx_END_THUMB v c =
     (let v = drop_bit 8 v in if v = 0 \<or> v = 0xFFFFFF then c + 1
      else let v = drop_bit 8 v in if v = 0 \<or> v = 0xFFFF then c + 2
      else let v = drop_bit 8 v in if v = 0 \<or> v = 0xFF then c + 3
      else c + 4)"

definition OP_MUL_REG :: "u32 \<Rightarrow> 'm CORE \<Rightarrow> u32 \<times> 'm CORE" where
  "OP_MUL_REG i s =
     (let v = lo i 3 s; s' = upd_cpu (result_NZ (REG_NUM i 0) (lo i 0 s * v)) s in
      if proc_ID (cpu s) = 1 then (4, s') else (MUL_Mxx_END_THUMB v 1, s'))"

section \<open>Transfers of one register\<close>

text \<open>The addresses and the accesses to the register \<open>n\<close>.\<close>

definition adr_REG :: "u32 \<Rightarrow> 'm CORE \<Rightarrow> u32" where "adr_REG i s = lo i 3 s + lo i 6 s"
definition adr_SP :: "u32 \<Rightarrow> 'm CORE \<Rightarrow> u32" where "adr_SP i s = R (cpu s) 13 + push_bit 2 (i AND 0xFF)"

definition store8 :: "'m MEM \<Rightarrow> nat \<Rightarrow> u32 \<Rightarrow> 'm CORE \<Rightarrow> u32 \<times> 'm CORE" where
  "store8 M n adr s = MMU_aluMemAccessCycles M 8 MMU_AD_WRITE 2 adr (WRITE8 M adr (ucast (R (cpu s) n)) s)"
definition store16 :: "'m MEM \<Rightarrow> nat \<Rightarrow> u32 \<Rightarrow> 'm CORE \<Rightarrow> u32 \<times> 'm CORE" where
  "store16 M n adr s = MMU_aluMemAccessCycles M 16 MMU_AD_WRITE 2 adr (WRITE16 M adr (ucast (R (cpu s) n)) s)"
definition store32 :: "'m MEM \<Rightarrow> nat \<Rightarrow> u32 \<Rightarrow> 'm CORE \<Rightarrow> u32 \<times> 'm CORE" where
  "store32 M n adr s = MMU_aluMemAccessCycles M 32 MMU_AD_WRITE 2 adr (WRITE32 M adr (R (cpu s) n) s)"

definition load8 :: "'m MEM \<Rightarrow> (byte \<Rightarrow> u32) \<Rightarrow> nat \<Rightarrow> u32 \<Rightarrow> 'm CORE \<Rightarrow> u32 \<times> 'm CORE" where
  "load8 M ext n adr s =
     (let (v, s) = READ8 M adr s in MMU_aluMemAccessCycles M 8 MMU_AD_READ 3 adr (upd_cpu (setR n (ext v)) s))"
definition load16 :: "'m MEM \<Rightarrow> (u16 \<Rightarrow> u32) \<Rightarrow> nat \<Rightarrow> u32 \<Rightarrow> 'm CORE \<Rightarrow> u32 \<times> 'm CORE" where
  "load16 M ext n adr s =
     (let (v, s) = READ16 M adr s in MMU_aluMemAccessCycles M 16 MMU_AD_READ 3 adr (upd_cpu (setR n (ext v)) s))"

text \<open>
  A word load through a low register rotates an unaligned word, one relative to the stack pointer or the
  program counter does not. The rotating loads compute the cycles at the bit offset, since they reuse the
  variable \<open>adr\<close> for it.
\<close>

definition load32_rot :: "'m MEM \<Rightarrow> nat \<Rightarrow> u32 \<Rightarrow> 'm CORE \<Rightarrow> u32 \<times> 'm CORE" where
  "load32_rot M n adr s =
     (let (tempValue, s) = READ32 M adr s; adr = (adr AND 3) * 8 in
      MMU_aluMemAccessCycles M 32 MMU_AD_READ 3 adr (upd_cpu (setR n (ROR tempValue (unat adr))) s))"
definition load32 :: "'m MEM \<Rightarrow> nat \<Rightarrow> u32 \<Rightarrow> 'm CORE \<Rightarrow> u32 \<times> 'm CORE" where
  "load32 M n adr s =
     (let (v, s) = READ32 M adr s in MMU_aluMemAccessCycles M 32 MMU_AD_READ 3 adr (upd_cpu (setR n v) s))"

definition OP_STRB_IMM_OFF :: "'m MEM \<Rightarrow> u32 \<Rightarrow> 'm CORE \<Rightarrow> u32 \<times> 'm CORE" where
  "OP_STRB_IMM_OFF M i s = store8 M (REG_NUM i 0) (lo i 3 s + (drop_bit 6 i AND 0x1F)) s"
definition OP_LDRB_IMM_OFF :: "'m MEM \<Rightarrow> u32 \<Rightarrow> 'm CORE \<Rightarrow> u32 \<times> 'm CORE" where
  "OP_LDRB_IMM_OFF M i s = load8 M ucast (REG_NUM i 0) (lo i 3 s + (drop_bit 6 i AND 0x1F)) s"
definition OP_STRB_REG_OFF :: "'m MEM \<Rightarrow> u32 \<Rightarrow> 'm CORE \<Rightarrow> u32 \<times> 'm CORE" where
  "OP_STRB_REG_OFF M i s = store8 M (REG_NUM i 0) (adr_REG i s) s"
definition OP_LDRB_REG_OFF :: "'m MEM \<Rightarrow> u32 \<Rightarrow> 'm CORE \<Rightarrow> u32 \<times> 'm CORE" where
  "OP_LDRB_REG_OFF M i s = load8 M ucast (REG_NUM i 0) (adr_REG i s) s"
definition OP_LDRSB_REG_OFF :: "'m MEM \<Rightarrow> u32 \<Rightarrow> 'm CORE \<Rightarrow> u32 \<times> 'm CORE" where
  "OP_LDRSB_REG_OFF M i s = load8 M scast (REG_NUM i 0) (adr_REG i s) s"
definition OP_STRH_IMM_OFF :: "'m MEM \<Rightarrow> u32 \<Rightarrow> 'm CORE \<Rightarrow> u32 \<times> 'm CORE" where
  "OP_STRH_IMM_OFF M i s = store16 M (REG_NUM i 0) (lo i 3 s + (drop_bit 5 i AND 0x3E)) s"
definition OP_LDRH_IMM_OFF :: "'m MEM \<Rightarrow> u32 \<Rightarrow> 'm CORE \<Rightarrow> u32 \<times> 'm CORE" where
  "OP_LDRH_IMM_OFF M i s = load16 M ucast (REG_NUM i 0) (lo i 3 s + (drop_bit 5 i AND 0x3E)) s"
definition OP_STRH_REG_OFF :: "'m MEM \<Rightarrow> u32 \<Rightarrow> 'm CORE \<Rightarrow> u32 \<times> 'm CORE" where
  "OP_STRH_REG_OFF M i s = store16 M (REG_NUM i 0) (adr_REG i s) s"
definition OP_LDRH_REG_OFF :: "'m MEM \<Rightarrow> u32 \<Rightarrow> 'm CORE \<Rightarrow> u32 \<times> 'm CORE" where
  "OP_LDRH_REG_OFF M i s = load16 M ucast (REG_NUM i 0) (adr_REG i s) s"
definition OP_LDRSH_REG_OFF :: "'m MEM \<Rightarrow> u32 \<Rightarrow> 'm CORE \<Rightarrow> u32 \<times> 'm CORE" where
  "OP_LDRSH_REG_OFF M i s = load16 M scast (REG_NUM i 0) (adr_REG i s) s"
definition OP_STR_IMM_OFF :: "'m MEM \<Rightarrow> u32 \<Rightarrow> 'm CORE \<Rightarrow> u32 \<times> 'm CORE" where
  "OP_STR_IMM_OFF M i s = store32 M (REG_NUM i 0) (lo i 3 s + (drop_bit 4 i AND 0x7C)) s"
definition OP_LDR_IMM_OFF :: "'m MEM \<Rightarrow> u32 \<Rightarrow> 'm CORE \<Rightarrow> u32 \<times> 'm CORE" where
  "OP_LDR_IMM_OFF M i s = load32_rot M (REG_NUM i 0) (lo i 3 s + (drop_bit 4 i AND 0x7C)) s"
definition OP_STR_REG_OFF :: "'m MEM \<Rightarrow> u32 \<Rightarrow> 'm CORE \<Rightarrow> u32 \<times> 'm CORE" where
  "OP_STR_REG_OFF M i s = store32 M (REG_NUM i 0) (lo i 6 s + lo i 3 s) s"
definition OP_LDR_REG_OFF :: "'m MEM \<Rightarrow> u32 \<Rightarrow> 'm CORE \<Rightarrow> u32 \<times> 'm CORE" where
  "OP_LDR_REG_OFF M i s = load32_rot M (REG_NUM i 0) (adr_REG i s) s"
definition OP_STR_SPREL :: "'m MEM \<Rightarrow> u32 \<Rightarrow> 'm CORE \<Rightarrow> u32 \<times> 'm CORE" where
  "OP_STR_SPREL M i s = store32 M (REG_NUM i 8) (adr_SP i s) s"
definition OP_LDR_SPREL :: "'m MEM \<Rightarrow> u32 \<Rightarrow> 'm CORE \<Rightarrow> u32 \<times> 'm CORE" where
  "OP_LDR_SPREL M i s = load32 M (REG_NUM i 8) (adr_SP i s) s"
definition OP_LDR_PCREL :: "'m MEM \<Rightarrow> u32 \<Rightarrow> 'm CORE \<Rightarrow> u32 \<times> 'm CORE" where
  "OP_LDR_PCREL M i s = load32 M (REG_NUM i 8) ((R (cpu s) 15 AND 0xFFFFFFFC) + push_bit 2 (i AND 0xFF)) s"

definition OP_ADJUST_P_SP :: "u32 \<Rightarrow> 'm CORE \<Rightarrow> u32 \<times> 'm CORE" where
  "OP_ADJUST_P_SP i s = (1, upd_cpu (\<lambda>c. setR 13 (R c 13 + push_bit 2 (i AND 0x7F)) c) s)"
definition OP_ADJUST_M_SP :: "u32 \<Rightarrow> 'm CORE \<Rightarrow> u32 \<times> 'm CORE" where
  "OP_ADJUST_M_SP i s = (1, upd_cpu (\<lambda>c. setR 13 (R c 13 - push_bit 2 (i AND 0x7F)) c) s)"

section \<open>Block transfers\<close>

definition thumb_push :: "'m MEM \<Rightarrow> u32 \<Rightarrow> u32 \<times> u32 \<times> 'm CORE \<Rightarrow> u32 \<times> u32 \<times> 'm CORE" where
  "thumb_push M i = fold (stm_step M DA i) (rev [0..<8])"

definition thumb_pop :: "'m MEM \<Rightarrow> u32 \<Rightarrow> u32 \<times> u32 \<times> 'm CORE \<Rightarrow> u32 \<times> u32 \<times> 'm CORE" where
  "thumb_pop M i = fold (ldm_step M IA i) [0..<8]"

definition OP_PUSH :: "'m MEM \<Rightarrow> u32 \<Rightarrow> 'm CORE \<Rightarrow> u32 \<times> 'm CORE" where
  "OP_PUSH M i s =
     (let (adr, c, s) = thumb_push M i (R (cpu s) 13 - 4, 0, s);
          s = upd_cpu (setR 13 (adr + 4)) s in
      (MMU_aluMemCycles (proc_ID (cpu s)) 3 c, s))"

definition OP_PUSH_LR :: "'m MEM \<Rightarrow> u32 \<Rightarrow> 'm CORE \<Rightarrow> u32 \<times> 'm CORE" where
  "OP_PUSH_LR M i s =
     (let adr = R (cpu s) 13 - 4;
          s = WRITE32 M adr (R (cpu s) 14) s;
          (d, s) = MMU_memAccessCycles M 32 MMU_AD_WRITE adr s;
          (adr, c, s) = thumb_push M i (adr - 4, d, s);
          s = upd_cpu (setR 13 (adr + 4)) s in
      (MMU_aluMemCycles (proc_ID (cpu s)) 4 c, s))"

definition OP_POP :: "'m MEM \<Rightarrow> u32 \<Rightarrow> 'm CORE \<Rightarrow> u32 \<times> 'm CORE" where
  "OP_POP M i s =
     (let (adr, c, s) = thumb_pop M i (R (cpu s) 13, 0, s);
          s = upd_cpu (setR 13 adr) s in
      (MMU_aluMemCycles (proc_ID (cpu s)) 2 c, s))"

definition OP_POP_PC :: "'m MEM \<Rightarrow> u32 \<Rightarrow> 'm CORE \<Rightarrow> u32 \<times> 'm CORE" where
  "OP_POP_PC M i s =
     (let (adr, c, s) = thumb_pop M i (R (cpu s) 13, 0, s);
          (v, s) = READ32 M adr s;
          (d, s) = MMU_memAccessCycles M 32 MMU_AD_READ adr s;
          s = (if proc_ID (cpu s) = 0 then upd_cpu (put_flag T_bit (bit v 0)) s else s);
          s = upd_cpu (\<lambda>c. next_from_pc (setR 15 (v AND 0xFFFFFFFE) c)) s;
          s = upd_cpu (setR 13 (adr + 4)) s in
      (MMU_aluMemCycles (proc_ID (cpu s)) 5 (c + d), s))"

definition OP_STMIA_THUMB :: "'m MEM \<Rightarrow> u32 \<Rightarrow> 'm CORE \<Rightarrow> u32 \<times> 'm CORE" where
  "OP_STMIA_THUMB M i s =
     (let (adr, c, s) = fold (stm_step M IA i) [0..<8] (lo i 8 s, 0, s);
          s = upd_cpu (setR (REG_NUM i 8) adr) s in
      (MMU_aluMemCycles (proc_ID (cpu s)) 2 c, s))"

definition OP_LDMIA_THUMB :: "'m MEM \<Rightarrow> u32 \<Rightarrow> 'm CORE \<Rightarrow> u32 \<times> 'm CORE" where
  "OP_LDMIA_THUMB M i s =
     (let (adr, c, s) = thumb_pop M i (lo i 8 s, 0, s);
          s = (if \<not> bit i (REG_NUM i 8) then upd_cpu (setR (REG_NUM i 8) adr) s else s) in
      (MMU_aluMemCycles (proc_ID (cpu s)) 3 c, s))"

section \<open>Exceptions\<close>

definition OP_BKPT_THUMB :: "u32 \<Rightarrow> 'm CORE \<Rightarrow> u32 \<times> 'm CORE" where
  "OP_BKPT_THUMB i s = (1, enter_exception ABT (instruct_adr (cpu s) + 4) 0x0C s)"

definition OP_SWI_THUMB :: "(u32 \<Rightarrow> 'm CORE \<Rightarrow> u32 \<times> 'm CORE) option \<Rightarrow> u32 \<Rightarrow> 'm CORE \<Rightarrow> u32 \<times> 'm CORE" where
  "OP_SWI_THUMB swi_tab i s =
     (let swinum = i AND 0xFF;
          bypassBuiltinSWI = (intVector (cpu s) = 0 \<and> proc_ID (cpu s) = 0 \<or>
                              intVector (cpu s) = 0xFFFF0000 \<and> proc_ID (cpu s) = 1) in
      if swinum = 0xFC then (0, s)
      else (case swi_tab of
          Some f \<Rightarrow>
            if \<not> bypassBuiltinSWI then (let (c, s) = f (swinum AND 0x1F) s in (c + 3, s))
            else (3, enter_exception SVC (next_instruction (cpu s)) 0x08 s)
        | None \<Rightarrow> (3, enter_exception SVC (next_instruction (cpu s)) 0x08 s)))"

section \<open>Branches\<close>

definition SIGNEEXT_IMM11 :: "u32 \<Rightarrow> u32" where
  "SIGNEEXT_IMM11 i = (i AND 0x7FF) OR (BIT_N i 10 * 0xFFFFF800)"
definition SIGNEXTEND_11 :: "u32 \<Rightarrow> u32" where
  "SIGNEXTEND_11 i = signed_drop_bit 21 (push_bit 21 i)"

definition OP_B_COND :: "u32 \<Rightarrow> 'm CORE \<Rightarrow> u32 \<times> 'm CORE" where
  "OP_B_COND i s =
     (if \<not> TEST_COND (drop_bit 8 i AND 0xF) 0 (CPSR (cpu s)) then (1, s)
      else (3, upd_cpu (\<lambda>c. next_from_pc (setR 15 (R c 15 + push_bit 1 (scast (ucast i :: byte))) c)) s))"

definition OP_B_UNCOND :: "u32 \<Rightarrow> 'm CORE \<Rightarrow> u32 \<times> 'm CORE" where
  "OP_B_UNCOND i s = (1, upd_cpu (\<lambda>c. next_from_pc (setR 15 (R c 15 + push_bit 1 (SIGNEEXT_IMM11 i)) c)) s)"

text \<open>The two halves of a long branch with link.\<close>

definition OP_BLX :: "u32 \<Rightarrow> 'm CORE \<Rightarrow> u32 \<times> 'm CORE" where
  "OP_BLX i s =
     (3, upd_cpu (\<lambda>c.
        let c = setR 15 ((R c 14 + push_bit 1 (i AND 0x7FF)) AND 0xFFFFFFFC) c;
            c = setR 14 (next_instruction c OR 1) c in
        put_flag T_bit False (next_from_pc c)) s)"

definition OP_BL_10 :: "u32 \<Rightarrow> 'm CORE \<Rightarrow> u32 \<times> 'm CORE" where
  "OP_BL_10 i s = (1, upd_cpu (\<lambda>c. setR 14 (R c 15 + push_bit 12 (SIGNEXTEND_11 i)) c) s)"

definition OP_BL_11 :: "u32 \<Rightarrow> 'm CORE \<Rightarrow> u32 \<times> 'm CORE" where
  "OP_BL_11 i s =
     (4, upd_cpu (\<lambda>c.
        let c = setR 15 (R c 14 + push_bit 1 (i AND 0x7FF)) c;
            c = setR 14 (next_instruction c OR 1) c in
        next_from_pc c) s)"

definition OP_BX_THUMB :: "u32 \<Rightarrow> 'm CORE \<Rightarrow> u32 \<times> 'm CORE" where
  "OP_BX_THUMB i s =
     (let Rm = reg i 3 s; t = bit Rm 0 in
      (3, upd_cpu (\<lambda>c. next_from_pc (setR 15 (Rm AND (0xFFFFFFFC OR push_bit (if t then 1 else 0) 1))
         (put_flag T_bit t c))) s))"

definition OP_BLX_THUMB :: "u32 \<Rightarrow> 'm CORE \<Rightarrow> u32 \<times> 'm CORE" where
  "OP_BLX_THUMB i s =
     (let Rm = reg i 3 s in
      (4, upd_cpu (\<lambda>c.
        let c = setR 15 (Rm AND 0xFFFFFFFE) (put_flag T_bit (bit Rm 0) c);
            c = setR 14 (next_instruction c OR 1) c in
        next_from_pc c) s))"

section \<open>The table\<close>

text \<open>
  The functions of \<^verbatim>\<open>thumb_tabdef.inc\<close>, by the last index of each run of equal entries. \<open>swi_tab\<close> is the table of
  functions of the emulated BIOS.
\<close>

definition thumb_instructions_set ::
  "'m MEM \<Rightarrow> (u32 \<Rightarrow> 'm CORE \<Rightarrow> u32 \<times> 'm CORE) option \<Rightarrow> u32 \<Rightarrow> 'm op" where
  "thumb_instructions_set M swi_tab n =
     (if n \<le> 0x0 then OP_LSL_0
      else if n \<le> 0x1F then OP_LSL
      else if n \<le> 0x20 then OP_LSR_0
      else if n \<le> 0x3F then OP_LSR
      else if n \<le> 0x40 then OP_ASR_0
      else if n \<le> 0x5F then OP_ASR
      else if n \<le> 0x67 then OP_ADD_REG
      else if n \<le> 0x6F then OP_SUB_REG
      else if n \<le> 0x77 then OP_ADD_IMM3
      else if n \<le> 0x7F then OP_SUB_IMM3
      else if n \<le> 0x9F then OP_MOV_IMM8
      else if n \<le> 0xBF then OP_CMP_IMM8
      else if n \<le> 0xDF then OP_ADD_IMM8
      else if n \<le> 0xFF then OP_SUB_IMM8
      else if n \<le> 0x100 then OP_AND_THUMB
      else if n \<le> 0x101 then OP_EOR_THUMB
      else if n \<le> 0x102 then OP_LSL_REG
      else if n \<le> 0x103 then OP_LSR_REG
      else if n \<le> 0x104 then OP_ASR_REG
      else if n \<le> 0x105 then OP_ADC_REG
      else if n \<le> 0x106 then OP_SBC_REG
      else if n \<le> 0x107 then OP_ROR_REG
      else if n \<le> 0x108 then OP_TST_THUMB
      else if n \<le> 0x109 then OP_NEG
      else if n \<le> 0x10A then OP_CMP_THUMB
      else if n \<le> 0x10B then OP_CMN_THUMB
      else if n \<le> 0x10C then OP_ORR_THUMB
      else if n \<le> 0x10D then OP_MUL_REG
      else if n \<le> 0x10E then OP_BIC_THUMB
      else if n \<le> 0x10F then OP_MVN_THUMB
      else if n \<le> 0x113 then OP_ADD_SPE
      else if n \<le> 0x117 then OP_CMP_SPE
      else if n \<le> 0x11B then OP_MOV_SPE
      else if n \<le> 0x11D then OP_BX_THUMB
      else if n \<le> 0x11F then OP_BLX_THUMB
      else if n \<le> 0x13F then OP_LDR_PCREL M
      else if n \<le> 0x147 then OP_STR_REG_OFF M
      else if n \<le> 0x14F then OP_STRH_REG_OFF M
      else if n \<le> 0x157 then OP_STRB_REG_OFF M
      else if n \<le> 0x15F then OP_LDRSB_REG_OFF M
      else if n \<le> 0x167 then OP_LDR_REG_OFF M
      else if n \<le> 0x16F then OP_LDRH_REG_OFF M
      else if n \<le> 0x177 then OP_LDRB_REG_OFF M
      else if n \<le> 0x17F then OP_LDRSH_REG_OFF M
      else if n \<le> 0x19F then OP_STR_IMM_OFF M
      else if n \<le> 0x1BF then OP_LDR_IMM_OFF M
      else if n \<le> 0x1DF then OP_STRB_IMM_OFF M
      else if n \<le> 0x1FF then OP_LDRB_IMM_OFF M
      else if n \<le> 0x21F then OP_STRH_IMM_OFF M
      else if n \<le> 0x23F then OP_LDRH_IMM_OFF M
      else if n \<le> 0x25F then OP_STR_SPREL M
      else if n \<le> 0x27F then OP_LDR_SPREL M
      else if n \<le> 0x29F then OP_ADD_2PC
      else if n \<le> 0x2BF then OP_ADD_2SP
      else if n \<le> 0x2C1 then OP_ADJUST_P_SP
      else if n \<le> 0x2C3 then OP_ADJUST_M_SP
      else if n \<le> 0x2CF then OP_UND_THUMB
      else if n \<le> 0x2D3 then OP_PUSH M
      else if n \<le> 0x2D7 then OP_PUSH_LR M
      else if n \<le> 0x2EF then OP_UND_THUMB
      else if n \<le> 0x2F3 then OP_POP M
      else if n \<le> 0x2F7 then OP_POP_PC M
      else if n \<le> 0x2FB then OP_BKPT_THUMB
      else if n \<le> 0x2FF then OP_UND_THUMB
      else if n \<le> 0x31F then OP_STMIA_THUMB M
      else if n \<le> 0x33F then OP_LDMIA_THUMB M
      else if n \<le> 0x37B then OP_B_COND
      else if n \<le> 0x37F then OP_SWI_THUMB swi_tab
      else if n \<le> 0x39F then OP_B_UNCOND
      else if n \<le> 0x3BF then OP_BLX
      else if n \<le> 0x3DF then OP_BL_10
      else OP_BL_11)"

end
