(* ===== verification/ThumbCorrect.thy ===== *)
theory ThumbCorrect
  imports Thumb ArmLogic
begin

text \<open>
  The Thumb instructions as ARM instructions: \<open>arm_word\<close> builds the ARM instruction with the same registers
  and operand, and the function of the Thumb instruction has the effect of the function of that one.
\<close>

section \<open>Encodings\<close>

definition field3 :: "u32 \<Rightarrow> nat \<Rightarrow> u32" where "field3 i n = drop_bit n i AND 0x7"

definition arm_word :: "u32 \<Rightarrow> u32 \<Rightarrow> u32 \<Rightarrow> u32 \<Rightarrow> u32" where
  "arm_word op n d x = op OR push_bit 16 n OR push_bit 12 d OR x"

lemma unat_field3: "unat (field3 i n) = REG_NUM i n"
  by (simp add: field3_def REG_NUM_def)

lemma take_bit_self_u32:
  assumes "k < 32"
  shows "take_bit k x = x \<longleftrightarrow> (x :: u32) < 2 ^ k"
proof -
  have "(2 :: nat) ^ k < 2 ^ 32" using assms by (rule power_strict_increasing) simp
  then have "unat (of_nat (2 ^ k) :: u32) = 2 ^ k" by (simp only: unat_of_nat) simp
  then have "unat (2 ^ k :: u32) = 2 ^ k" by simp
  then have "x < 2 ^ k \<longleftrightarrow> unat x < 2 ^ k" by (simp add: word_less_nat_alt)
  also have "\<dots> \<longleftrightarrow> unat (take_bit k x) = unat x"
    by (simp add: unsigned_take_bit_eq take_bit_nat_eq_self_iff)
  finally show ?thesis by (simp add: word_unat_eq_iff)
qed

lemma less_bit: "(x :: u32) < 2 ^ k \<Longrightarrow> k < 32 \<Longrightarrow> k \<le> n \<Longrightarrow> \<not> bit x n"
  using bit_take_bit_iff [of k x n] take_bit_self_u32 [of k x] by auto

lemma REG_NUM_8: "REG_NUM i n < 8"
  using unat_and_le [of "drop_bit n i" 7] by (simp add: REG_NUM_def)

lemma field3_less: "field3 i n < 8" "field3 i n < 16"
  using REG_NUM_8 [of i n] by (simp_all add: word_less_nat_alt flip: unat_field3)

text \<open>The register number of four bits of \<open>OP_ADD_SPE\<close> and the like.\<close>

definition high_field :: "u32 \<Rightarrow> u32" where "high_field i = (i AND 0x7) OR (drop_bit 4 i AND 8)"

lemma Rd_SPE_field: "Rd_SPE i = unat (high_field i)"
  by (simp add: Rd_SPE_def high_field_def)

lemma high_field_less: "high_field i < 16"
proof -
  have "high_field i = high_field i AND 0xF"
    by (simp add: high_field_def bit.conj_disj_distrib2 and.assoc)
  then have "unat (high_field i) \<le> 15" using unat_and_le [of "high_field i" 15] by simp
  then show ?thesis by (simp add: word_less_nat_alt)
qed

lemma arm_word_fields:
  assumes "op AND 0x000FFFFF = 0" "n < 16" "d < 16" "x < 0x1000"
  shows "drop_bit 16 (arm_word op n d x) AND 0xF = n" "drop_bit 12 (arm_word op n d x) AND 0xF = d"
    "arm_word op n d x AND 0xFFF = x"
proof -
  have op: "\<not> bit op k" if "k < 20" for k
  proof -
    have "(0x000FFFFF :: u32) = mask 20" by (simp add: mask_eq_exp_minus_1)
    then have "bit (op AND mask 20) k = bit (0 :: u32) k" using assms(1) by simp
    then show ?thesis using that by (simp add: bit_simps)
  qed
  have n: "\<not> bit n k" if "4 \<le> k" for k using less_bit [of n 4 k] that assms(2) by simp
  have d: "\<not> bit d k" if "4 \<le> k" for k using less_bit [of d 4 k] that assms(3) by simp
  have x: "\<not> bit x k" if "12 \<le> k" for k using less_bit [of x 12 k] that assms(4) by simp
  have m: "(0xF :: u32) = mask 4" "(0xFFF :: u32) = mask 12" by (simp_all add: mask_eq_exp_minus_1)
  show "drop_bit 16 (arm_word op n d x) AND 0xF = n" unfolding m arm_word_def
    by (rule bit_word_eqI) (auto simp: bit_simps op n d x intro: ccontr)
  show "drop_bit 12 (arm_word op n d x) AND 0xF = d" unfolding m arm_word_def
    by (rule bit_word_eqI) (auto simp: bit_simps op n d x intro: ccontr)
  show "arm_word op n d x AND 0xFFF = x" unfolding m arm_word_def
    by (rule bit_word_eqI) (auto simp: bit_simps op n d x intro: ccontr)
qed


lemma arm_word_REG:
  assumes "op AND 0x000FFFFF = 0" "n < 16" "d < 16" "x < 0x1000"
  shows "REG_POS (arm_word op n d x) 16 = unat n" "REG_POS (arm_word op n d x) 12 = unat d"
  using arm_word_fields [OF assms] by (simp_all add: REG_POS_def)

text \<open>The fields of the operand: a register with a shift by an immediate or by a register, or a byte.\<close>

definition op2_imm :: "u32 \<Rightarrow> u32 \<Rightarrow> u32 \<Rightarrow> u32" where
  "op2_imm v ty m = push_bit 7 v OR push_bit 5 ty OR m"

definition op2_reg :: "u32 \<Rightarrow> u32 \<Rightarrow> u32 \<Rightarrow> u32" where
  "op2_reg k ty m = push_bit 8 k OR push_bit 5 ty OR 0x10 OR m"

lemma op2_fields:
  assumes "v < 32" "ty < 4" "m < 8" "k < 8" "u < 8"
  shows "op2_imm v ty m < 0x1000" "drop_bit 7 (op2_imm v ty m) AND 0x1F = v" "op2_imm v ty m AND 0xF = m"
    "op2_reg k u m < 0x1000" "drop_bit 8 (op2_reg k u m) AND 0xF = k" "op2_reg k u m AND 0xF = m"
proof -
  have v: "\<not> bit v j" if "5 \<le> j" for j using less_bit [of v 5 j] that assms(1) by simp
  have t: "\<not> bit ty j" if "2 \<le> j" for j using less_bit [of ty 2 j] that assms(2) by simp
  have u: "\<not> bit u j" if "3 \<le> j" for j using less_bit [of u 3 j] that assms(5) by simp
  have n: "\<not> bit m j" if "3 \<le> j" for j using less_bit [of m 3 j] that assms(3) by simp
  have k: "\<not> bit k j" if "3 \<le> j" for j using less_bit [of k 3 j] that assms(4) by simp
  have ms: "(0xF :: u32) = mask 4" "(0x1F :: u32) = mask 5" by (simp_all add: mask_eq_exp_minus_1)
  have small: "w < 0x1000" if "\<And>j. 12 \<le> j \<Longrightarrow> \<not> bit w j" for w :: u32
  proof -
    have "take_bit 12 w = w" by (rule bit_word_eqI) (use that in \<open>auto simp: bit_simps intro: ccontr\<close>)
    then show ?thesis using take_bit_self_u32 [of 12 w] by simp
  qed
  have b4: "bit (0x10 :: int) j \<longleftrightarrow> j = 4" for j
    using bit_push_bit_iff [of 4 "1 :: int" j] by (auto simp: push_bit_eq_mult bit_1_iff)
  show "op2_imm v ty m < 0x1000"
    by (rule small) (auto simp: op2_imm_def bit_simps v t n)
  show "op2_reg k u m < 0x1000"
    by (rule small) (simp add: op2_reg_def bit_simps k u n b4)
  show "drop_bit 7 (op2_imm v ty m) AND 0x1F = v" "op2_imm v ty m AND 0xF = m" unfolding ms op2_imm_def
    by (rule bit_word_eqI; auto simp: bit_simps v t n intro: ccontr)+
  show "drop_bit 8 (op2_reg k u m) AND 0xF = k" "op2_reg k u m AND 0xF = m" unfolding ms op2_reg_def
    by (rule bit_word_eqI; auto simp: bit_simps k u n b4 intro: ccontr)+
qed


text \<open>The parts of the operand of \<open>arm_word op n d x\<close> that lie in its lower twelve bits.\<close>

lemma low_part:
  fixes w :: u32
  assumes "w AND 0xFFF = x" "k AND 0xFFF = k"
  shows "w AND k = x AND k"
  using assms by (metis and.assoc and.commute)

lemma low_drop:
  fixes w :: u32
  assumes "w AND 0xFFF = x" "push_bit n k AND 0xFFF = push_bit n k" "drop_bit n (push_bit n k) = k"
  shows "drop_bit n w AND k = drop_bit n x AND k"
proof -
  have "drop_bit n w AND k = drop_bit n (w AND push_bit n k)" by (simp only: drop_bit_and assms(3))
  also have "w AND push_bit n k = x AND push_bit n k" by (rule low_part) (simp_all only: assms)
  finally show ?thesis by (simp only: drop_bit_and assms(3))
qed

lemma arm_word_low:
  assumes "op AND 0x000FFFFF = 0" "n < 16" "d < 16" "x < 0x1000"
  shows "REG_POS (arm_word op n d x) 0 = unat (x AND 0xF)"
    "REG_POS (arm_word op n d x) 8 = unat (drop_bit 8 x AND 0xF)"
    "shift_imm (arm_word op n d x) = unat (drop_bit 7 x AND 0x1F)"
    "arm_word op n d x AND 0xFF = x AND 0xFF" "drop_bit 7 (arm_word op n d x) AND 0x1E = drop_bit 7 x AND 0x1E"
    "drop_bit 8 (arm_word op n d x) AND 0xF = drop_bit 8 x AND 0xF"
proof -
  note w = arm_word_fields(3) [OF assms]
  show "arm_word op n d x AND 0xFF = x AND 0xFF" by (rule low_part [OF w]) simp
  have "arm_word op n d x AND 0xF = x AND 0xF" by (rule low_part [OF w]) simp
  then show "REG_POS (arm_word op n d x) 0 = unat (x AND 0xF)" by (simp add: REG_POS_def)
  show 8: "drop_bit 8 (arm_word op n d x) AND 0xF = drop_bit 8 x AND 0xF"
    by (rule low_drop [OF w]) simp_all
  then show "REG_POS (arm_word op n d x) 8 = unat (drop_bit 8 x AND 0xF)" by (simp add: REG_POS_def)
  show "drop_bit 7 (arm_word op n d x) AND 0x1E = drop_bit 7 x AND 0x1E"
    by (rule low_drop [OF w]) simp_all
  have "drop_bit 7 (arm_word op n d x) AND 0x1F = drop_bit 7 x AND 0x1F"
    by (rule low_drop [OF w]) simp_all
  then show "shift_imm (arm_word op n d x) = unat (drop_bit 7 x AND 0x1F)" by (simp add: shift_imm_def)
qed


section \<open>Effects\<close>

text \<open>The three kinds of operand in the words of the translation.\<close>

lemma imm_less: "field3 i n < 0x100" "field3 i n < 0x1000" "i AND 0xFF < 0x1000" "i AND 0xFF < 0x100"
proof -
  show "field3 i n < 0x100" using field3_less(1) [of i n] by (rule order_less_trans) simp
  show "field3 i n < 0x1000" using field3_less(1) [of i n] by (rule order_less_trans) simp
  have "unat (i AND 0xFF) \<le> 255" using unat_and_le [of i 255] by simp
  then show "i AND 0xFF < 0x100" by (simp add: word_less_nat_alt)
  then show "i AND 0xFF < 0x1000" by (rule order_less_trans) simp
qed

lemma put_flag_same: "put_flag n (flag n c) c = c"
proof -
  have "put_bit n (bit w n) w = w" for w :: u32
    by (rule bit_word_eqI) (auto simp: put_bit_def bit_simps)
  then show ?thesis by (simp add: put_flag_def flag_def)
qed

lemma shift_plain:
  assumes "op AND 0x000FFFFF = 0" "n < 16" "d < 16" "m < 16"
  shows "shift_op LSL_IMM (arm_word op n d m) c = R c (unat m)"
    "S_shift_op LSL_IMM (arm_word op n d m) c = (R c (unat m), flag C_bit c)"
proof -
  have m: "m < 0x1000" using assms(4) by (rule order_less_trans) simp
  have l: "\<not> bit m j" if "4 \<le> j" for j using less_bit [of m 4 j] that assms(4) by simp
  have 7: "drop_bit 7 m AND 0x1F = 0"
    by (rule bit_word_eqI) (simp add: bit_simps l)
  have ms: "(0xF :: u32) = mask 4" by (simp add: mask_eq_exp_minus_1)
  have 0: "m AND 0xF = m" unfolding ms by (rule bit_word_eqI) (auto simp: bit_simps l intro: ccontr)
  show "shift_op LSL_IMM (arm_word op n d m) c = R c (unat m)"
    "S_shift_op LSL_IMM (arm_word op n d m) c = (R c (unat m), flag C_bit c)"
    using arm_word_low(1,3) [OF assms(1-3) m] by (simp_all add: 7 0 Let_def)
qed

lemma imm_plain:
  assumes "op AND 0x000FFFFF = 0" "n < 16" "d < 16" "x < 0x100"
  shows "shift_op IMM_VALUE (arm_word op n d x) c = x"
    "S_shift_op IMM_VALUE (arm_word op n d x) c = (x, flag C_bit c)"
proof -
  have m: "x < 0x1000" using assms(4) by (rule order_less_trans) simp
  have l: "\<not> bit x j" if "8 \<le> j" for j using less_bit [of x 8 j] that assms(4) by simp
  have ms: "(0xFF :: u32) = mask 8" by (simp add: mask_eq_exp_minus_1)
  have 0: "x AND 0xFF = x" unfolding ms by (rule bit_word_eqI) (auto simp: bit_simps l intro: ccontr)
  have 8: "drop_bit 8 x AND 0xF = 0" by (rule bit_word_eqI) (simp add: bit_simps l)
  have 7: "drop_bit 7 x AND 0x1E = 0"
  proof -
    have "bit (drop_bit 7 x AND 0x1E) j = bit 0 j" for j
      by (cases "j = 0") (auto simp: bit_simps l)
    then show ?thesis by (simp add: bit_eq_iff)
  qed
  have "ROR x 0 = x"
    by (rule bit_word_eqI) (auto simp: ROR_def bit_simps)
  then show "shift_op IMM_VALUE (arm_word op n d x) c = x"
    "S_shift_op IMM_VALUE (arm_word op n d x) c = (x, flag C_bit c)"
    using arm_word_low(4-6) [OF assms(1-3) m] by (simp_all add: imm_rotate_def 0 7 8 Let_def)
qed

end
