(* ===== verification/ThumbProperties.thy ===== *)
theory ThumbProperties
  imports ThumbCorrect ArmBlockProperties
begin

text \<open>
  The properties of the Thumb instructions.
\<close>

section \<open>Data processing\<close>

lemma put_flag_keep: "put_flag n (flag n c) (setR m v c) = setR m v c"
  using put_flag_same [of n "setR m v c"] by (simp add: flag_def setR_def)

lemma setR_same: "setR n (R c n) c = c"
  by (simp add: setR_def)

lemma not_15: "unat (field3 i n) \<noteq> 15" "REG_NUM i n \<noteq> 15"
  using REG_NUM_8 [of i n] by (simp_all add: unat_field3)

lemmas alu_arm = arm_word_REG shift_plain imm_plain field3_less imm_less unat_field3 write_rd_S_other not_15
  put_flag_same put_flag_keep lo_def Rn_def Let_def

lemmas result_fun = result_NZCV_def [abs_def] result_NZ_def [abs_def] result_SUB_def [abs_def] flags_SUB_def [abs_def]

lemma alu_arith:
  "snd (OP_ADD_REG i s) = snd (ADD_S_fn LSL_IMM (arm_word 0xE0900000 (field3 i 3) (field3 i 0) (field3 i 6)) s)"
  "snd (OP_SUB_REG i s) = snd (SUB_S_fn LSL_IMM (arm_word 0xE0500000 (field3 i 3) (field3 i 0) (field3 i 6)) s)"
  "snd (OP_SUB_IMM3 i s) = snd (SUB_S_fn IMM_VALUE (arm_word 0xE2500000 (field3 i 3) (field3 i 0) (field3 i 6)) s)"
  "snd (OP_ADD_IMM8 i s) = snd (ADD_S_fn IMM_VALUE (arm_word 0xE2900000 (field3 i 8) (field3 i 8) (i AND 0xFF)) s)"
  "snd (OP_SUB_IMM8 i s) = snd (SUB_S_fn IMM_VALUE (arm_word 0xE2500000 (field3 i 8) (field3 i 8) (i AND 0xFF)) s)"
  "snd (OP_NEG i s) = snd (RSB_S_fn IMM_VALUE (arm_word 0xE2700000 (field3 i 3) (field3 i 0) 0) s)"
  "snd (OP_CMP_IMM8 i s) = snd (CMP_fn IMM_VALUE (arm_word 0xE3500000 (field3 i 8) 0 (i AND 0xFF)) s)"
  "snd (OP_CMP_THUMB i s) = snd (CMP_fn LSL_IMM (arm_word 0xE1500000 (field3 i 0) 0 (field3 i 3)) s)"
  "snd (OP_CMN_THUMB i s) = snd (CMN_fn LSL_IMM (arm_word 0xE1700000 (field3 i 0) 0 (field3 i 3)) s)"
  by (simp_all add: alu_arm result_fun OP_ADD_REG_def ADD_S_fn_def OP_ADDS_def OP_SUB_REG_def SUB_S_fn_def
      OP_SUBS_def OP_SUB_IMM3_def OP_ADD_IMM8_def OP_SUB_IMM8_def OP_NEG_def RSB_S_fn_def OP_RSBS_def
      OP_CMP_IMM8_def CMP_fn_def OP_CMP_def OP_CMP_THUMB_def OP_CMN_THUMB_def CMN_fn_def OP_CMN_def
      field3_def [of i 6, symmetric] del: shift_op.simps S_shift_op.simps)

lemma alu_logic:
  "snd (OP_MOV_IMM8 i s) = snd (MOV_S_fn IMM_VALUE (arm_word 0xE3B00000 0 (field3 i 8) (i AND 0xFF)) s)"
  "snd (OP_AND_THUMB i s) = snd (AND_S_fn LSL_IMM (arm_word 0xE0100000 (field3 i 0) (field3 i 0) (field3 i 3)) s)"
  "snd (OP_EOR_THUMB i s) = snd (EOR_S_fn LSL_IMM (arm_word 0xE0300000 (field3 i 0) (field3 i 0) (field3 i 3)) s)"
  "snd (OP_ORR_THUMB i s) = snd (ORR_S_fn LSL_IMM (arm_word 0xE1900000 (field3 i 0) (field3 i 0) (field3 i 3)) s)"
  "snd (OP_BIC_THUMB i s) = snd (BIC_S_fn LSL_IMM (arm_word 0xE1D00000 (field3 i 0) (field3 i 0) (field3 i 3)) s)"
  "snd (OP_MVN_THUMB i s) = snd (MVN_S_fn LSL_IMM (arm_word 0xE1F00000 0 (field3 i 0) (field3 i 3)) s)"
  "snd (OP_TST_THUMB i s) = snd (TST_fn LSL_IMM (arm_word 0xE1100000 (field3 i 0) 0 (field3 i 3)) s)"
  by (simp_all add: alu_arm result_fun upd_cpu_def write_rd_S_def OP_MOV_IMM8_def MOV_S_fn_def mov_pc_def OP_MOVS_def
      OP_AND_THUMB_def AND_S_fn_def OP_ANDS_def OP_EOR_THUMB_def EOR_S_fn_def OP_EORS_def OP_ORR_THUMB_def
      ORR_S_fn_def OP_ORRS_def OP_BIC_THUMB_def BIC_S_fn_def OP_BICS_def OP_MVN_THUMB_def MVN_S_fn_def OP_MVNS_def
      OP_TST_THUMB_def TST_fn_def OP_TST_def put_NZC_def del: shift_op.simps S_shift_op.simps)


text \<open>Shifts by a register and by an immediate.\<close>

lemma op2_reg_REG:
  assumes "op AND 0x000FFFFF = 0" "n < 16" "d < 16" "ty < 8"
  shows "REG_POS (arm_word op n d (op2_reg (field3 i k) ty (field3 i m))) 8 = REG_NUM i k"
    "REG_POS (arm_word op n d (op2_reg (field3 i k) ty (field3 i m))) 0 = REG_NUM i m"
    "REG_POS (arm_word op n d (op2_reg (field3 i k) ty (field3 i m))) 12 = unat d"
    "REG_POS (arm_word op n d (op2_reg (field3 i k) ty (field3 i m))) 16 = unat n"
proof -
  note f = op2_fields(4-6) [of 0 0 "field3 i m" "field3 i k" ty]
  show "REG_POS (arm_word op n d (op2_reg (field3 i k) ty (field3 i m))) 8 = REG_NUM i k"
    "REG_POS (arm_word op n d (op2_reg (field3 i k) ty (field3 i m))) 0 = REG_NUM i m"
    "REG_POS (arm_word op n d (op2_reg (field3 i k) ty (field3 i m))) 12 = unat d"
    "REG_POS (arm_word op n d (op2_reg (field3 i k) ty (field3 i m))) 16 = unat n"
    using f assms by (simp_all add: arm_word_low arm_word_REG field3_less unat_field3)
qed

lemma alu_shift:
  "snd (OP_LSL_REG i s) = snd (MOV_S_fn LSL_REG (arm_word 0xE1B00000 0 (field3 i 0) (op2_reg (field3 i 3) 0 (field3 i 0))) s)"
  "snd (OP_LSR_REG i s) = snd (MOV_S_fn LSR_REG (arm_word 0xE1B00000 0 (field3 i 0) (op2_reg (field3 i 3) 1 (field3 i 0))) s)"
  "snd (OP_ASR_REG i s) = snd (MOV_S_fn ASR_REG (arm_word 0xE1B00000 0 (field3 i 0) (op2_reg (field3 i 3) 2 (field3 i 0))) s)"
  "snd (OP_ROR_REG i s) = snd (MOV_S_fn ROR_REG (arm_word 0xE1B00000 0 (field3 i 0) (op2_reg (field3 i 3) 3 (field3 i 0))) s)"
  by (simp_all add: alu_arm op2_reg_REG upd_cpu_def write_rd_S_def MOV_S_fn_def mov_pc_def OP_MOVS_def put_NZC_def
      OP_LSL_REG_def OP_LSR_REG_def OP_ASR_REG_def OP_ROR_REG_def result_fun amount_def shift_reg_def setR_same
      setR_put_flag)

text \<open>The carry out of an addition is the same for both operands.\<close>

lemma carry_sym:
  fixes x y :: u32
  shows "x + y < y \<longleftrightarrow> x + y < x" "x + y + 1 \<le> y \<longleftrightarrow> x + y + 1 \<le> x"
  by (rule uint_obtain [of x], rule uint_obtain [of y], auto simp: uint_plus uint_inc word_le_def word_less_def)+

lemma alu_carry:
  "snd (OP_ADC_REG i s) = snd (ADC_S_fn LSL_IMM (arm_word 0xE0B00000 (field3 i 0) (field3 i 0) (field3 i 3)) s)"
  "snd (OP_SBC_REG i s) = snd (SBC_S_fn LSL_IMM (arm_word 0xE0D00000 (field3 i 0) (field3 i 0) (field3 i 3)) s)"
  by (simp_all add: alu_arm upd_cpu_def OP_ADC_REG_def ADC_S_fn_def OP_ADCS_def OP_SBC_REG_def SBC_S_fn_def OP_SBCS_def
      carry_sym del: shift_op.simps)

lemma alu_mul:
  "snd (OP_MUL_REG i s) = snd (OP_MUL_S (arm_word 0xE0100000 (field3 i 0) 0 (op2_reg (field3 i 3) 4 (field3 i 0))) s)"
  by (simp add: OP_MUL_REG_def OP_MUL_S_def Let_def reg_def set_reg_def op2_reg_REG field3_less unat_field3 lo_def
      result_fun upd_cpu_upd_cpu)

lemma add_zero_flags: "CarryFrom x 0 = False" "OverflowFromADD x x 0 = False"
  using OverflowFromADD_iff [of x 0] by (simp_all add: CarryFrom_def)

lemma alu_add0:
  "snd (OP_ADD_IMM3 i s) = snd (ADD_S_fn IMM_VALUE (arm_word 0xE2900000 (field3 i 3) (field3 i 0) (field3 i 6)) s)"
  by (simp add: alu_arm result_fun OP_ADD_IMM3_def ADD_S_fn_def OP_ADDS_def add_zero_flags
      field3_def [of i 6, symmetric] del: shift_op.simps)


lemma reg_field: "drop_bit 3 i AND 0xF < 16" "drop_bit 3 i AND 0xF < 0x1000" "unat (drop_bit 3 i AND 0xF) = REG_POS i 3"
  using unat_and_le [of "drop_bit 3 i" 15] by (simp_all add: word_less_nat_alt REG_POS_def)

lemmas alu_high_arm = arm_word_REG shift_plain reg_field high_field_less Rd_SPE_field reg_def Rn_def Let_def

lemma alu_add_high:
  "snd (OP_ADD_SPE i s) = snd (ADD_fn LSL_IMM (arm_word 0xE0800000 (high_field i) (high_field i) (drop_bit 3 i AND 0xF)) s)"
  by (simp add: OP_ADD_SPE_def write_SPE_def ADD_fn_def OP_ADD_def write_rd_def alu_high_arm
        next_from_pc_def upd_cpu_def del: shift_op.simps)

lemma alu_cmp_high:
  "snd (OP_CMP_SPE i s) = snd (CMP_fn LSL_IMM (arm_word 0xE1500000 (high_field i) 0 (drop_bit 3 i AND 0xF)) s)"
  by (simp add: OP_CMP_SPE_def CMP_fn_def OP_CMP_def alu_high_arm result_fun del: shift_op.simps)

lemma mov_high_nop:
  assumes "arm_word 0xE1A00000 0 (high_field i) (drop_bit 3 i AND 0xF) = 0xE1A00000" (is "?w = _")
  shows "snd (OP_MOV_SPE i s) = s"
proof -
  have "REG_POS ?w 12 = Rd_SPE i" by (simp add: alu_high_arm)
  then have d: "Rd_SPE i = 0" by (simp add: assms REG_POS_def)
  have "REG_POS ?w 0 = unat ((drop_bit 3 i AND 0xF) AND 0xF)"
    by (rule arm_word_low) (simp_all add: alu_high_arm)
  then have "REG_POS i 3 = 0" by (simp add: assms REG_POS_def and.assoc)
  then show ?thesis using d by (simp add: OP_MOV_SPE_def write_SPE_def reg_def upd_cpu_def setR_same)
qed

lemma alu_mov_high:
  "snd (OP_MOV_SPE i s) = snd (MOV_fn LSL_IMM (arm_word 0xE1A00000 0 (high_field i) (drop_bit 3 i AND 0xF)) s)"
    (is "_ = snd (MOV_fn LSL_IMM ?w s)")
proof (cases "?w = 0xE1A00000")
  case True
  then show ?thesis by (simp only: mov_high_nop) (simp add: MOV_fn_def)
next
  case False
  then have "MOV_fn LSL_IMM ?w s = OP_MOV 1 3 ?w (shift_op LSL_IMM ?w (cpu s)) s"
    by (simp add: MOV_fn_def mov_pc_def cyc_def by_reg_def del: shift_op.simps)
  also have "shift_op LSL_IMM ?w (cpu s) = reg i 3 s" by (simp add: alu_high_arm del: shift_op.simps)
  finally show ?thesis
    by (simp add: OP_MOV_SPE_def write_SPE_def OP_MOV_def alu_high_arm next_from_pc_def upd_cpu_def setR_def)
qed

text \<open>Shifts by an immediate: the ARM instructions with amount 0 are the separate functions for that amount.\<close>

definition field5 :: "u32 \<Rightarrow> u32" where "field5 i = drop_bit 6 i AND 0x1F"

lemma imm5_field: "imm5 i = unat (field5 i)" "field5 i < 32"
  using unat_and_le [of "drop_bit 6 i" 31] by (simp_all add: imm5_def field5_def word_less_nat_alt)

definition shift_word :: "u32 \<Rightarrow> u32 \<Rightarrow> u32" where
  "shift_word ty i = arm_word 0xE1B00000 0 (field3 i 0) (op2_imm (field5 i) ty (field3 i 3))"

lemma shift_word_fields:
  assumes "ty < 4"
  shows "shift_imm (shift_word ty i) = imm5 i" "REG_POS (shift_word ty i) 0 = REG_NUM i 3"
    "REG_POS (shift_word ty i) 12 = REG_NUM i 0"
proof -
  note f = op2_fields(1-3) [OF imm5_field(2) assms field3_less(1), of 0 0 i i 3, simplified]
  show "shift_imm (shift_word ty i) = imm5 i" "REG_POS (shift_word ty i) 0 = REG_NUM i 3"
    "REG_POS (shift_word ty i) 12 = REG_NUM i 0"
    by (simp_all add: shift_word_def arm_word_low arm_word_REG f field3_less unat_field3 imm5_field(1))
qed

lemma alu_shift_imm:
  "imm5 i = 0 \<Longrightarrow> snd (OP_LSL_0 i s) = snd (MOV_S_fn LSL_IMM (shift_word 0 i) s)"
  "imm5 i \<noteq> 0 \<Longrightarrow> snd (OP_LSL i s) = snd (MOV_S_fn LSL_IMM (shift_word 0 i) s)"
  "imm5 i = 0 \<Longrightarrow> snd (OP_LSR_0 i s) = snd (MOV_S_fn LSR_IMM (shift_word 1 i) s)"
  "imm5 i \<noteq> 0 \<Longrightarrow> snd (OP_LSR i s) = snd (MOV_S_fn LSR_IMM (shift_word 1 i) s)"
  "imm5 i = 0 \<Longrightarrow> snd (OP_ASR_0 i s) = snd (MOV_S_fn ASR_IMM (shift_word 2 i) s)"
  "imm5 i \<noteq> 0 \<Longrightarrow> snd (OP_ASR i s) = snd (MOV_S_fn ASR_IMM (shift_word 2 i) s)"
  by (simp_all add: alu_arm shift_word_fields upd_cpu_def write_rd_S_def MOV_S_fn_def mov_pc_def OP_MOVS_def put_NZC_def
      OP_LSL_0_def OP_LSL_def OP_LSR_0_def OP_LSR_def OP_ASR_0_def OP_ASR_def result_fun setR_put_flag)

text \<open>Words added to the program counter or the stack pointer: the immediate of the ARM instruction is rotated by 30.\<close>

definition words_word :: "u32 \<Rightarrow> u32 \<Rightarrow> u32 \<Rightarrow> u32 \<Rightarrow> u32" where
  "words_word op n d x = arm_word op n d (0xF00 OR x)"

lemma words_word_fields:
  assumes "op AND 0x000FFFFF = 0" "n < 16" "d < 16" "x < 0x100"
  shows "REG_POS (words_word op n d x) 16 = unat n" "REG_POS (words_word op n d x) 12 = unat d"
    "shift_op IMM_VALUE (words_word op n d x) c = push_bit 2 x"
proof -
  have l: "\<not> bit x j" if "8 \<le> j" for j using less_bit [of x 8 j] that assms(4) by simp
  have F: "(0xF00 :: u32) = push_bit 8 (mask 4)" by (simp add: mask_eq_exp_minus_1)
  have ms: "(0xFF :: u32) = mask 8" "(0x1E :: u32) = push_bit 1 (mask 4)" by (simp_all add: mask_eq_exp_minus_1)
  have m: "0xF00 OR x < 0x1000"
  proof -
    have "take_bit 12 (0xF00 OR x) = 0xF00 OR x"
      unfolding F by (rule bit_word_eqI) (auto simp: bit_simps l intro: ccontr)
    then show ?thesis using take_bit_self_u32 [of 12 "0xF00 OR x"] by simp
  qed
  show "REG_POS (words_word op n d x) 16 = unat n" "REG_POS (words_word op n d x) 12 = unat d"
    using assms(1-3) m by (simp_all add: words_word_def arm_word_REG)
  have x: "(0xF00 OR x) AND 0xFF = x" unfolding ms F by (rule bit_word_eqI) (auto simp: bit_simps l intro: ccontr)
  have "drop_bit 7 (0xF00 OR x) AND 0x1E = 0x1E OR (drop_bit 7 x AND 0x1E)"
    by (simp add: drop_bit_or bit.conj_disj_distrib2)
  moreover have "drop_bit 7 x AND 0x1E = 0"
  proof -
    have "bit (drop_bit 7 x AND 0x1E) j = bit 0 j" for j by (cases "j = 0") (auto simp: bit_simps l)
    then show ?thesis by (simp add: bit_eq_iff)
  qed
  ultimately have r: "drop_bit 7 (0xF00 OR x) AND 0x1E = 30" by simp
  have "ROR x 30 = push_bit 2 x" by (rule bit_word_eqI) (auto simp: ROR_def bit_simps l)
  then show "shift_op IMM_VALUE (words_word op n d x) c = push_bit 2 x"
    using arm_word_low(4,5) [OF assms(1-3) m] by (simp add: words_word_def imm_rotate_def x r Let_def)
qed

lemma imm7_less: "i AND 0x7F < (0x100 :: u32)"
  using unat_and_le [of i 127] by (simp add: word_less_nat_alt)

lemma alu_words:
  "snd (OP_ADD_2SP i s) = snd (ADD_fn IMM_VALUE (words_word 0xE2800000 13 (field3 i 8) (i AND 0xFF)) s)"
  "snd (OP_ADJUST_P_SP i s) = snd (ADD_fn IMM_VALUE (words_word 0xE2800000 13 13 (i AND 0x7F)) s)"
  "snd (OP_ADJUST_M_SP i s) = snd (SUB_fn IMM_VALUE (words_word 0xE2400000 13 13 (i AND 0x7F)) s)"
  "snd (OP_ADD_2PC i s) = upd_cpu (setR 15 (R (cpu s) 15))
     (snd (ADD_fn IMM_VALUE (words_word 0xE2800000 15 (field3 i 8) (i AND 0xFF)) (upd_cpu (\<lambda>c. setR 15 (R c 15 AND 0xFFFFFFFC) c) s)))"
  by (simp_all add: words_word_fields imm7_less imm_less field3_less unat_field3 not_15 Rn_def reg_def upd_cpu_def
      OP_ADD_2SP_def OP_ADJUST_P_SP_def OP_ADJUST_M_SP_def OP_ADD_2PC_def ADD_fn_def OP_ADD_def SUB_fn_def OP_SUB_def
      write_rd_def setR_def fun_upd_twist fun_upd_triv del: shift_op.simps)

text \<open>
  The data-processing instructions of the table: the ARM function and word for the Thumb instruction \<open>i\<close>, by the
  upper ten bits. An addition to the program counter is not among them: it uses the counter with its two lowest
  bits cleared.
\<close>

definition arm_of :: "u32 \<Rightarrow> ('m op \<times> u32) option" where
  "arm_of i =
     (let n = unat (drop_bit 6 i) in
      if n \<le> 0x1F then Some (MOV_S_fn LSL_IMM, shift_word 0 i)
      else if n \<le> 0x3F then Some (MOV_S_fn LSR_IMM, shift_word 1 i)
      else if n \<le> 0x5F then Some (MOV_S_fn ASR_IMM, shift_word 2 i)
      else if n \<le> 0x67 then Some (ADD_S_fn LSL_IMM, arm_word 0xE0900000 (field3 i 3) (field3 i 0) (field3 i 6))
      else if n \<le> 0x6F then Some (SUB_S_fn LSL_IMM, arm_word 0xE0500000 (field3 i 3) (field3 i 0) (field3 i 6))
      else if n \<le> 0x77 then Some (ADD_S_fn IMM_VALUE, arm_word 0xE2900000 (field3 i 3) (field3 i 0) (field3 i 6))
      else if n \<le> 0x7F then Some (SUB_S_fn IMM_VALUE, arm_word 0xE2500000 (field3 i 3) (field3 i 0) (field3 i 6))
      else if n \<le> 0x9F then Some (MOV_S_fn IMM_VALUE, arm_word 0xE3B00000 0 (field3 i 8) (i AND 0xFF))
      else if n \<le> 0xBF then Some (CMP_fn IMM_VALUE, arm_word 0xE3500000 (field3 i 8) 0 (i AND 0xFF))
      else if n \<le> 0xDF then Some (ADD_S_fn IMM_VALUE, arm_word 0xE2900000 (field3 i 8) (field3 i 8) (i AND 0xFF))
      else if n \<le> 0xFF then Some (SUB_S_fn IMM_VALUE, arm_word 0xE2500000 (field3 i 8) (field3 i 8) (i AND 0xFF))
      else if n \<le> 0x100 then Some (AND_S_fn LSL_IMM, arm_word 0xE0100000 (field3 i 0) (field3 i 0) (field3 i 3))
      else if n \<le> 0x101 then Some (EOR_S_fn LSL_IMM, arm_word 0xE0300000 (field3 i 0) (field3 i 0) (field3 i 3))
      else if n \<le> 0x102 then Some (MOV_S_fn LSL_REG, arm_word 0xE1B00000 0 (field3 i 0) (op2_reg (field3 i 3) 0 (field3 i 0)))
      else if n \<le> 0x103 then Some (MOV_S_fn LSR_REG, arm_word 0xE1B00000 0 (field3 i 0) (op2_reg (field3 i 3) 1 (field3 i 0)))
      else if n \<le> 0x104 then Some (MOV_S_fn ASR_REG, arm_word 0xE1B00000 0 (field3 i 0) (op2_reg (field3 i 3) 2 (field3 i 0)))
      else if n \<le> 0x105 then Some (ADC_S_fn LSL_IMM, arm_word 0xE0B00000 (field3 i 0) (field3 i 0) (field3 i 3))
      else if n \<le> 0x106 then Some (SBC_S_fn LSL_IMM, arm_word 0xE0D00000 (field3 i 0) (field3 i 0) (field3 i 3))
      else if n \<le> 0x107 then Some (MOV_S_fn ROR_REG, arm_word 0xE1B00000 0 (field3 i 0) (op2_reg (field3 i 3) 3 (field3 i 0)))
      else if n \<le> 0x108 then Some (TST_fn LSL_IMM, arm_word 0xE1100000 (field3 i 0) 0 (field3 i 3))
      else if n \<le> 0x109 then Some (RSB_S_fn IMM_VALUE, arm_word 0xE2700000 (field3 i 3) (field3 i 0) 0)
      else if n \<le> 0x10A then Some (CMP_fn LSL_IMM, arm_word 0xE1500000 (field3 i 0) 0 (field3 i 3))
      else if n \<le> 0x10B then Some (CMN_fn LSL_IMM, arm_word 0xE1700000 (field3 i 0) 0 (field3 i 3))
      else if n \<le> 0x10C then Some (ORR_S_fn LSL_IMM, arm_word 0xE1900000 (field3 i 0) (field3 i 0) (field3 i 3))
      else if n \<le> 0x10D then Some (OP_MUL_S, arm_word 0xE0100000 (field3 i 0) 0 (op2_reg (field3 i 3) 4 (field3 i 0)))
      else if n \<le> 0x10E then Some (BIC_S_fn LSL_IMM, arm_word 0xE1D00000 (field3 i 0) (field3 i 0) (field3 i 3))
      else if n \<le> 0x10F then Some (MVN_S_fn LSL_IMM, arm_word 0xE1F00000 0 (field3 i 0) (field3 i 3))
      else if n \<le> 0x113 then Some (ADD_fn LSL_IMM, arm_word 0xE0800000 (high_field i) (high_field i) (drop_bit 3 i AND 0xF))
      else if n \<le> 0x117 then Some (CMP_fn LSL_IMM, arm_word 0xE1500000 (high_field i) 0 (drop_bit 3 i AND 0xF))
      else if n \<le> 0x11B then Some (MOV_fn LSL_IMM, arm_word 0xE1A00000 0 (high_field i) (drop_bit 3 i AND 0xF))
      else if n \<le> 0x29F then None
      else if n \<le> 0x2BF then Some (ADD_fn IMM_VALUE, words_word 0xE2800000 13 (field3 i 8) (i AND 0xFF))
      else if n \<le> 0x2C1 then Some (ADD_fn IMM_VALUE, words_word 0xE2800000 13 13 (i AND 0x7F))
      else if n \<le> 0x2C3 then Some (SUB_fn IMM_VALUE, words_word 0xE2400000 13 13 (i AND 0x7F))
      else None)"

text \<open>The amount of a shift decides between the two functions of its rows.\<close>

lemma imm5_index: "imm5 i = unat (drop_bit 6 i) mod 32"
proof -
  have "(0x1F :: u32) = mask 5" by (simp add: mask_eq_exp_minus_1)
  then have "imm5 i = take_bit 5 (unat (drop_bit 6 i))"
    by (simp only: imm5_def take_bit_eq_mask [symmetric] unsigned_take_bit_eq)
  then show ?thesis by (simp add: take_bit_eq_mod)
qed

lemma table_shift:
  assumes "n = unat (drop_bit 6 i)"
  shows "n \<le> 0x1F \<Longrightarrow> thumb_instructions_set M swi_tab (drop_bit 6 i) = (if imm5 i = 0 then OP_LSL_0 else OP_LSL)"
    "0x20 \<le> n \<Longrightarrow> n \<le> 0x3F \<Longrightarrow> thumb_instructions_set M swi_tab (drop_bit 6 i) = (if imm5 i = 0 then OP_LSR_0 else OP_LSR)"
    "0x40 \<le> n \<Longrightarrow> n \<le> 0x5F \<Longrightarrow> thumb_instructions_set M swi_tab (drop_bit 6 i) = (if imm5 i = 0 then OP_ASR_0 else OP_ASR)"
proof -
  have m: "(n \<le> 0x1F \<longrightarrow> (n mod 32 = 0 \<longleftrightarrow> n \<le> 0))" "(0x20 \<le> n \<longrightarrow> n \<le> 0x3F \<longrightarrow> (n mod 32 = 0 \<longleftrightarrow> n \<le> 0x20))"
    "(0x40 \<le> n \<longrightarrow> n \<le> 0x5F \<longrightarrow> (n mod 32 = 0 \<longleftrightarrow> n \<le> 0x40))" by presburger+
  show "n \<le> 0x1F \<Longrightarrow> thumb_instructions_set M swi_tab (drop_bit 6 i) = (if imm5 i = 0 then OP_LSL_0 else OP_LSL)"
    "0x20 \<le> n \<Longrightarrow> n \<le> 0x3F \<Longrightarrow> thumb_instructions_set M swi_tab (drop_bit 6 i) = (if imm5 i = 0 then OP_LSR_0 else OP_LSR)"
    "0x40 \<le> n \<Longrightarrow> n \<le> 0x5F \<Longrightarrow> thumb_instructions_set M swi_tab (drop_bit 6 i) = (if imm5 i = 0 then OP_ASR_0 else OP_ASR)"
    using m by (simp_all add: thumb_instructions_set_def imm5_index word_le_nat_alt flip: assms)
qed

text \<open>The two tables are compared entry by entry.\<close>

definition agrees :: "u32 \<Rightarrow> 'm CORE \<Rightarrow> 'm op \<Rightarrow> ('m op \<times> u32) option \<Rightarrow> bool" where
  "agrees i s f x = (case x of Some (arm, w) \<Rightarrow> snd (f i s) = snd (arm w s) | None \<Rightarrow> True)"

lemma agrees_if:
  "(b \<Longrightarrow> agrees i s f x) \<Longrightarrow> (\<not> b \<Longrightarrow> agrees i s g y) \<Longrightarrow> agrees i s (if b then f else g) (if b then x else y)"
  by simp

lemma if_parts: "b = c \<Longrightarrow> x = u \<Longrightarrow> y = v \<Longrightarrow> (if b then x else y) = (if c then u else v)"
  by simp

lemma agrees_None: "agrees i s f None"
  by (simp add: agrees_def)

lemma agrees_rows: "snd (f i s) = snd (arm w s) \<Longrightarrow> agrees i s f (Some (arm, w))"
  by (simp add: agrees_def)

lemmas alu_rows = alu_arith alu_logic alu_shift alu_carry alu_mul alu_add0 alu_add_high alu_cmp_high alu_mov_high

lemma table_alu: "agrees i s (thumb_instructions_set M swi_tab (drop_bit 6 i)) (arm_of i)"
proof -
  define n where "n = unat (drop_bit 6 i)"
  have "\<not> n \<le> 0x1F \<Longrightarrow> \<not> n \<le> 0x3F \<Longrightarrow> \<not> n \<le> 0x5F \<Longrightarrow> n \<noteq> 0 \<and> \<not> n \<le> 0x20 \<and> \<not> n \<le> 0x40" by simp
  then consider "n \<le> 0x5F" | "n \<noteq> 0" "\<not> n \<le> 0x1F" "\<not> n \<le> 0x20" "\<not> n \<le> 0x3F" "\<not> n \<le> 0x40" "\<not> n \<le> 0x5F"
      "n \<le> 0x11B" | "0x11B < n" "n \<le> 0x29F" | "0x29F < n" "n \<le> 0x2C3" | "0x2C3 < n" by fastforce
  then show ?thesis
  proof cases
    case 1
    then show ?thesis
      using table_shift [OF n_def, of M swi_tab]
      by (auto simp: agrees_def arm_of_def alu_shift_imm Let_def simp flip: n_def)
  next
    case 2
    note low = this
    show ?thesis
      unfolding thumb_instructions_set_def arm_of_def Let_def word_le_nat_alt
      by (simp add: low flip: n_def split del: if_split cong: if_parts) (intro agrees_if agrees_None agrees_rows alu_rows)
  next
    case 3
    then show ?thesis by (simp add: agrees_None arm_of_def Let_def flip: n_def)
  next
    case 4
    then show ?thesis
      by (auto simp: agrees_def arm_of_def thumb_instructions_set_def word_le_nat_alt alu_words Let_def simp flip: n_def)
  next
    case 5
    then show ?thesis by (simp add: agrees_None arm_of_def Let_def flip: n_def)
  qed
qed

lemma arm_of_defined:
  "arm_of i \<noteq> None \<longleftrightarrow> unat (drop_bit 6 i) \<le> 0x11B \<or> 0x2A0 \<le> unat (drop_bit 6 i) \<and> unat (drop_bit 6 i) \<le> 0x2C3"
  unfolding arm_of_def Let_def by (simp cong: if_parts split del: if_split) auto

lemma table_pc:
  assumes "unat (drop_bit 6 i) \<in> {0x280..0x29F}"
  shows "thumb_instructions_set M swi_tab (drop_bit 6 i) = OP_ADD_2PC"
  using assms by (simp add: thumb_instructions_set_def word_le_nat_alt)

text \<open>
  C7. Every data-processing instruction in Thumb state has the effect of the ARM instruction it stands for, with
  the flags and on all of the state: the function the table of Thumb instructions selects for an instruction and
  the function of the ARM instruction lead to the same state. This holds for all of them, the shifts,
  additions, subtractions, moves and comparisons with immediates, the operations on registers and the changes of
  the stack pointer; an addition to the program counter is the ARM one on the counter with its two lowest bits
  cleared.
\<close>
theorem thumb_alu_is_arm:
  fixes s :: "'m CORE"
  shows "(case arm_of i of
      Some (arm, w) \<Rightarrow> snd (thumb_instructions_set M swi_tab (drop_bit 6 i) i s) = snd (arm w s)
    | None \<Rightarrow> True) \<and>
   ((arm_of i :: ('m op \<times> u32) option) \<noteq> None \<longleftrightarrow>
     unat (drop_bit 6 i) \<le> 0x11B \<or> 0x2A0 \<le> unat (drop_bit 6 i) \<and> unat (drop_bit 6 i) \<le> 0x2C3) \<and>
   (unat (drop_bit 6 i) \<in> {0x280..0x29F} \<longrightarrow>
     snd (thumb_instructions_set M swi_tab (drop_bit 6 i) i s) =
       upd_cpu (setR 15 (R (cpu s) 15))
         (snd (ADD_fn IMM_VALUE (words_word 0xE2800000 15 (field3 i 8) (i AND 0xFF))
            (upd_cpu (\<lambda>c. setR 15 (R c 15 AND 0xFFFFFFFC) c) s))))"
  using table_alu [of i s M swi_tab] table_pc [of i M swi_tab] alu_words(4) [of i s] arm_of_defined [of i]
  by (simp add: agrees_def)

text \<open>\<open>ADD R0, PC, #4\<close>.\<close>

theorem thumb_alu_is_arm_witness:
  "snd (thumb_instructions_set (nds_mem example_bus) None 0x280 0xA001 example_core) =
     upd_cpu (setR 15 (R (cpu example_core) 15))
       (snd (ADD_fn IMM_VALUE 0xE28F0F01 (upd_cpu (\<lambda>c. setR 15 (R c 15 AND 0xFFFFFFFC) c) example_core)))"
  using thumb_alu_is_arm [where i = "0xA001" and M = "nds_mem example_bus" and swi_tab = None and s = example_core]
  by (simp add: words_word_def arm_word_def field3_def)


section \<open>Block transfers\<close>

text \<open>The bits of a word with the low registers of a list.\<close>

lemma list_bits:
  fixes i :: u32
  assumes "op AND 0xFF = 0"
  shows "n < 8 \<Longrightarrow> bit (op OR (i AND 0xFF)) n = bit i n" "8 \<le> n \<Longrightarrow> bit (op OR (i AND 0xFF)) n = bit op n"
    "REG_POS (op OR (i AND 0xFF)) 16 = REG_POS op 16"
proof -
  have ms: "(0xFF :: u32) = mask 8" by (simp add: mask_eq_exp_minus_1)
  have "\<not> bit op n" if "n < 8" for n
    using bit_and_iff [of op "mask 8" n] assms that unfolding ms by (simp add: bit_simps)
  then show "n < 8 \<Longrightarrow> bit (op OR (i AND 0xFF)) n = bit i n"
    "8 \<le> n \<Longrightarrow> bit (op OR (i AND 0xFF)) n = bit op n"
    unfolding ms by (simp_all add: bit_simps)
  have "drop_bit 16 (op OR (i AND 0xFF)) = drop_bit 16 op"
    unfolding ms by (rule bit_word_eqI) (simp add: bit_simps)
  then show "REG_POS (op OR (i AND 0xFF)) 16 = REG_POS op 16" by (simp add: REG_POS_def)
qed

lemma step_other:
  "\<not> bit i n \<Longrightarrow> stm_step M k i n q = q" "\<not> bit i n \<Longrightarrow> ldm_step M k i n q = q"
  by (cases q; simp add: stm_step_def ldm_step_def)+

lemma step_cong:
  "bit i n = bit j n \<Longrightarrow> stm_step M k i n q = stm_step M k j n q"
  "bit i n = bit j n \<Longrightarrow> ldm_step M k i n q = ldm_step M k j n q"
  by (cases q; simp add: stm_step_def ldm_step_def)+

lemma fold_other: "(\<And>n q. n \<in> set ns \<Longrightarrow> f n q = q) \<Longrightarrow> fold f ns q = q"
  by (induction ns arbitrary: q) auto

text \<open>A descending store loop whose address runs four bytes ahead.\<close>

lemma stm_DA_DB:
  "fold (stm_step M DA i) ns (start - 4, c, s) = (let (a, d, t) = fold (stm_step M DB i) ns (start, c, s) in (a - 4, d, t))"
proof (induction ns arbitrary: start c s)
  case Nil
  then show ?case by simp
next
  case (Cons n ns)
  show ?case
  proof (cases "bit i n")
    case True
    then obtain d t where "stm_step M DB i n (start, c, s) = (start - 4, d, t)"
        "stm_step M DA i n (start - 4, c, s) = (start - 4 - 4, d, t)"
      by (cases "MMU_memAccessCycles M 32 MMU_AD_WRITE (start - 4) (WRITE32 M (start - 4) (R (cpu s) n) s)")
        (simp add: stm_step_def Let_def before_def after_def)
    then show ?thesis using Cons.IH [of "start - 4" d t] by simp
  next
    case False
    then show ?thesis using Cons.IH by (simp add: step_other)
  qed
qed

text \<open>The loops of the ARM instructions on such a word.\<close>

lemma high_part:
  assumes "\<And>n. n \<in> set ns \<Longrightarrow> \<not> bit i n"
  shows "fold (stm_step M k i) ns q = q" "fold (ldm_step M k i) ns q = q"
  by (rule fold_other; simp add: step_other assms)+

lemma low_loops:
  assumes "\<And>n. n < 8 \<Longrightarrow> bit i n = bit j n"
  shows "fold (stm_step M k i) (rev [0..<8]) q = fold (stm_step M k j) (rev [0..<8]) q"
    "fold (stm_step M k i) [0..<8] q = fold (stm_step M k j) [0..<8] q"
    "fold (ldm_step M k i) [0..<8] q = fold (ldm_step M k j) [0..<8] q"
proof -
  have f: "stm_step M k i n = stm_step M k j n" "ldm_step M k i n = ldm_step M k j n" if "n < 8" for n
    using step_cong [OF assms [OF that]] by (auto simp: fun_eq_iff)
  show "fold (stm_step M k i) (rev [0..<8]) q = fold (stm_step M k j) (rev [0..<8]) q"
    "fold (stm_step M k i) [0..<8] q = fold (stm_step M k j) [0..<8] q"
    "fold (ldm_step M k i) [0..<8] q = fold (ldm_step M k j) [0..<8] q"
    by (rule fold_cong; simp add: f)+
qed

lemma stm_loop_low:
  assumes "\<And>n. n < 8 \<Longrightarrow> bit i n = bit j n" "\<And>n. 8 \<le> n \<Longrightarrow> n < 14 \<Longrightarrow> \<not> bit i n"
  shows "\<not> bit i 15 \<Longrightarrow> stm_loop M DB i q = fold (stm_step M DB j) (rev [0..<8]) (stm_step M DB i 14 q)"
    "\<not> bit i 14 \<Longrightarrow> \<not> bit i 15 \<Longrightarrow> stm_loop M IA i q = fold (stm_step M IA j) [0..<8] q"
    "\<not> bit i 14 \<Longrightarrow> ldm_list M IA i q = fold (ldm_step M IA j) [0..<8] q"
proof -
  have s: "[0..<16] = [0..<8] @ [8..<14] @ [14, 15]" "[0..<15] = [0..<8] @ [8..<14] @ [14]"
    by (simp_all add: upt_rec)
  have h: "fold (stm_step M k i) (rev [8..<14]) q = q" "fold (stm_step M k i) [8..<14] q = q"
    "fold (ldm_step M k i) [8..<14] q = q" for k q
    by (auto intro!: high_part dest: assms(2) simp del: upt_rec_numeral upt_Suc)
  note l = low_loops [of i j, OF assms(1)]
  show "stm_loop M DB i q = fold (stm_step M DB j) (rev [0..<8]) (stm_step M DB i 14 q)" if "\<not> bit i 15"
    by (simp add: stm_loop_def upwards_def s h l step_other that del: upt_Suc upt_rec_numeral)
  show "stm_loop M IA i q = fold (stm_step M IA j) [0..<8] q" if "\<not> bit i 14" "\<not> bit i 15"
    by (simp add: stm_loop_def upwards_def s h l step_other that del: upt_Suc upt_rec_numeral)
  show "ldm_list M IA i q = fold (ldm_step M IA j) [0..<8] q" if "\<not> bit i 14"
    by (simp add: ldm_list_def upwards_def s h l step_other that del: upt_Suc upt_rec_numeral)
qed

text \<open>The state and the address after a loop, and the two kinds of write to the stack pointer.\<close>

lemma sp_push:
  assumes "REG_POS w 16 = 13" "stm_loop M DB w (R (cpu s) 13, 0, s) = fold (stm_step M DB i) (rev [0..<8]) (start, c, t)"
  shows "snd (OP_STMDB_W M w s) = (let (adr, d, u) = thumb_push M i (start - 4, c, t) in upd_cpu (setR 13 (adr + 4)) u)"
  using assms by (simp add: OP_STMDB_W_def thumb_push_def stm_DA_DB reg_def set_reg_def Let_def split_beta)

text \<open>The words with the low registers and the ones of \<open>op\<close> among 14 and 15.\<close>

lemma block_word:
  fixes op :: u32
  assumes "op AND 0x3FFF = 0"
  defines "w \<equiv> \<lambda>i. op OR (i AND 0xFF)"
  shows "n < 8 \<Longrightarrow> bit (w i) n = bit i n" "8 \<le> n \<Longrightarrow> n < 14 \<Longrightarrow> \<not> bit (w i) n"
    "8 \<le> n \<Longrightarrow> bit (w i) n = bit op n" "REG_POS (w i) 16 = REG_POS op 16"
proof -
  have ms: "(0x3FFF :: u32) = mask 14" by (simp add: mask_eq_exp_minus_1)
  have z: "\<not> bit op k" if "k < 14" for k
    using bit_and_iff [of op "mask 14" k] assms(1) that unfolding ms by (simp add: bit_simps)
  have "op AND 0xFF = (op AND 0x3FFF) AND 0xFF" by (simp add: and.assoc)
  then have o: "op AND 0xFF = 0" by (simp add: assms(1))
  note l = list_bits [OF o, folded w_def]
  show "n < 8 \<Longrightarrow> bit (w i) n = bit i n" "8 \<le> n \<Longrightarrow> n < 14 \<Longrightarrow> \<not> bit (w i) n"
    "8 \<le> n \<Longrightarrow> bit (w i) n = bit op n" "REG_POS (w i) 16 = REG_POS op 16"
    using z l by (simp_all add: w_def)
qed

lemma push_is_arm:
  "snd (OP_PUSH M i s) = snd (OP_STMDB_W M (0xE92D0000 OR (i AND 0xFF)) s)"
  "snd (OP_PUSH_LR M i s) = snd (OP_STMDB_W M (0xE92D4000 OR (i AND 0xFF)) s)"
proof -
  note b = block_word [of "0xE92D0000", simplified] and c = block_word [of "0xE92D4000", simplified]
  have r: "REG_POS (0xE92D0000 OR (i AND 0xFF)) 16 = 13" "REG_POS (0xE92D4000 OR (i AND 0xFF)) 16 = 13"
    by (simp_all add: b(4) c(4)) (simp_all add: REG_POS_def)
  have "\<not> bit (0xE92D0000 OR (i AND 0xFF)) 14" "\<not> bit (0xE92D0000 OR (i AND 0xFF)) 15"
    "bit (0xE92D4000 OR (i AND 0xFF)) 14" "\<not> bit (0xE92D4000 OR (i AND 0xFF)) 15"
    by (simp_all add: b(3) c(3))
  note f = this
  have l: "stm_loop M DB (0xE92D0000 OR (i AND 0xFF)) q = fold (stm_step M DB i) (rev [0..<8]) q" for q
    using stm_loop_low(1) [OF b(1,2) f(2)] f(1) by (simp add: step_other)
  show "snd (OP_PUSH M i s) = snd (OP_STMDB_W M (0xE92D0000 OR (i AND 0xFF)) s)"
    by (simp add: sp_push [OF r(1) l] OP_PUSH_def Let_def split_beta)
  obtain d m where m: "MMU_memAccessCycles M 32 MMU_AD_WRITE (R (cpu s) 13 - 4)
      (WRITE32 M (R (cpu s) 13 - 4) (R (cpu s) 14) s) = (d, m)" by fastforce
  have "stm_loop M DB (0xE92D4000 OR (i AND 0xFF)) (R (cpu s) 13, 0, s) =
      fold (stm_step M DB i) (rev [0..<8]) (R (cpu s) 13 - 4, d, m)"
    using stm_loop_low(1) [where M = M and q = "(R (cpu s) 13, 0, s)", OF c(1,2) f(4)] f(3) m
    by (simp add: stm_step_def [of M DB _ 14] before_def after_def Let_def)
  then show "snd (OP_PUSH_LR M i s) = snd (OP_STMDB_W M (0xE92D4000 OR (i AND 0xFF)) s)"
    using m by (simp add: sp_push [OF r(2)] OP_PUSH_LR_def Let_def split_beta)
qed


lemma cycles_upd:
  assumes "proc_ID (f (cpu s)) = proc_ID (cpu s)"
  shows "MMU_memAccessCycles M n d a (upd_cpu f s) =
    (fst (MMU_memAccessCycles M n d a s), upd_cpu f (snd (MMU_memAccessCycles M n d a s)))"
  using assms by (simp add: MMU_memAccessCycles_def upd_cpu_def split_beta)

lemma proc_step: "proc_ID (cpu (snd (snd (ldm_step M k i n q)))) = proc_ID (cpu (snd (snd q)))"
  by (cases q) (simp add: ldm_step_def Let_def split_beta access_cpu setR_def)

lemma proc_pop: "proc_ID (cpu (snd (snd (thumb_pop M i q)))) = proc_ID (cpu (snd (snd q)))"
proof -
  have "proc_ID (cpu (snd (snd (fold (ldm_step M IA i) ns q)))) = proc_ID (cpu (snd (snd q)))" for ns
    by (induction ns arbitrary: q) (simp_all add: proc_step)
  then show ?thesis by (simp only: thumb_pop_def)
qed

lemma pop_is_arm:
  "snd (OP_POP M i s) = snd (OP_LDMIA_W M (0xE8BD0000 OR (i AND 0xFF)) s)"
  "proc_ID (cpu s) = 0 \<Longrightarrow> snd (OP_POP_PC M i s) = snd (OP_LDMIA_W M (0xE8BD8000 OR (i AND 0xFF)) s)"
proof -
  note b = block_word [of "0xE8BD0000", simplified] and c = block_word [of "0xE8BD8000", simplified]
  have r: "REG_POS (0xE8BD0000 OR (i AND 0xFF)) 16 = 13" "REG_POS (0xE8BD8000 OR (i AND 0xFF)) 16 = 13"
    by (simp_all add: b(4) c(4)) (simp_all add: REG_POS_def)
  have f: "\<not> bit (0xE8BD0000 OR (i AND 0xFF)) 14" "\<not> bit (0xE8BD0000 OR (i AND 0xFF)) 15"
    "\<not> bit (0xE8BD0000 OR (i AND 0xFF)) 13" "\<not> bit (0xE8BD8000 OR (i AND 0xFF)) 14"
    "bit (0xE8BD8000 OR (i AND 0xFF)) 15" "\<not> bit (0xE8BD8000 OR (i AND 0xFF)) 13"
    by (simp_all add: b(3) c(3))
  have l: "ldm_list M IA (0xE8BD0000 OR (i AND 0xFF)) q = thumb_pop M i q"
    "ldm_list M IA (0xE8BD8000 OR (i AND 0xFF)) q = thumb_pop M i q" for q
    using stm_loop_low(3) [where M = M and q = q, OF b(1,2) f(1)]
      stm_loop_low(3) [where M = M and q = q, OF c(1,2) f(4)] by (simp_all add: thumb_pop_def)
  show "snd (OP_POP M i s) = snd (OP_LDMIA_W M (0xE8BD0000 OR (i AND 0xFF)) s)"
    using f by (simp add: OP_POP_def OP_LDMIA_W_def l write_base_def r reg_def set_reg_def Let_def split_beta)
  show "snd (OP_POP_PC M i s) = snd (OP_LDMIA_W M (0xE8BD8000 OR (i AND 0xFF)) s)" if "proc_ID (cpu s) = 0"
  proof -
    obtain a c t where q: "thumb_pop M i (R (cpu s) 13, 0, s) = (a, c, t)" by (metis prod_cases3)
    obtain v u where v: "READ32 M a t = (v, u)" by fastforce
    have t: "proc_ID (cpu t) = 0" using proc_pop [of M i "(R (cpu s) 13, 0, s)"] that by (simp add: q)
    then have u: "proc_ID (cpu u) = 0" using access_cpu(1) [of M a t] by (simp add: v)
    have "MMU_memAccessCycles M 32 MMU_AD_READ a (upd_cpu (load_pc_word v) u) =
        (fst (MMU_memAccessCycles M 32 MMU_AD_READ a u),
         upd_cpu (load_pc_word v) (snd (MMU_memAccessCycles M 32 MMU_AD_READ a u)))"
      by (rule cycles_upd) (simp add: load_pc_word_def setR_def put_flag_def)
    then show ?thesis using f t u
      by (simp add: OP_POP_PC_def OP_LDMIA_W_def l write_base_def r reg_def set_reg_def Let_def split_beta q v
          upd_cpu_upd_cpu load_pc_word_def access_cpu)
        (simp add: upd_cpu_def access_cpu)
  qed
qed


text \<open>The words of \<open>STMIA\<close> and \<open>LDMIA\<close> on a low register.\<close>

lemma base_word:
  assumes "op AND 0x000FFFFF = 0"
  shows "arm_word op (field3 i n) 0 0 AND 0x3FFF = 0" "REG_POS (arm_word op (field3 i n) 0 0) 16 = REG_NUM i n"
    "14 \<le> k \<Longrightarrow> k < 16 \<Longrightarrow> \<not> bit (arm_word op (field3 i n) 0 0) k"
proof -
  have ms: "(0x000FFFFF :: u32) = mask 20" "(0x3FFF :: u32) = mask 14" by (simp_all add: mask_eq_exp_minus_1)
  have z: "\<not> bit op j" if "j < 20" for j
    using bit_and_iff [of op "mask 20" j] assms that unfolding ms by (simp add: bit_simps)
  show "arm_word op (field3 i n) 0 0 AND 0x3FFF = 0" unfolding ms
    by (rule bit_word_eqI) (auto simp: arm_word_def bit_simps z)
  show "\<not> bit (arm_word op (field3 i n) 0 0) k" if "14 \<le> k" "k < 16"
    using that by (simp add: arm_word_def bit_simps z)
  show "REG_POS (arm_word op (field3 i n) 0 0) 16 = REG_NUM i n"
    by (simp add: arm_word_REG assms field3_less unat_field3)
qed

lemma stmia_is_arm:
  "snd (OP_STMIA_THUMB M i s) = snd (OP_STMIA_W M (arm_word 0xE8A00000 (field3 i 8) 0 0 OR (i AND 0xFF)) s)"
  "\<not> bit i (REG_NUM i 8) \<Longrightarrow>
    snd (OP_LDMIA_THUMB M i s) = snd (OP_LDMIA_W M (arm_word 0xE8B00000 (field3 i 8) 0 0 OR (i AND 0xFF)) s)"
proof -
  have z: "(0xE8A00000 :: u32) AND 0x000FFFFF = 0" "(0xE8B00000 :: u32) AND 0x000FFFFF = 0" by simp_all
  note b = block_word [where i = i, OF base_word(1) [OF z(1), where i = i and n = 8]] base_word(2,3) [OF z(1), where i = i and n = 8]
  note c = block_word [where i = i, OF base_word(1) [OF z(2), where i = i and n = 8]] base_word(2,3) [OF z(2), where i = i and n = 8]
  let ?s = "arm_word 0xE8A00000 (field3 i 8) 0 0 OR (i AND 0xFF)" and ?l = "arm_word 0xE8B00000 (field3 i 8) 0 0 OR (i AND 0xFF)"
  have f: "\<not> bit ?s 14" "\<not> bit ?s 15" "\<not> bit ?l 14" "\<not> bit ?l 15"
    "bit ?l (REG_NUM i 8) = bit i (REG_NUM i 8)"
    using REG_NUM_8 [of i 8] by (simp_all add: b(3,6) c(1,3,6))
  have r: "REG_POS ?s 16 = REG_NUM i 8" "REG_POS ?l 16 = REG_NUM i 8" by (simp_all add: b(4,5) c(4,5))
  have l: "stm_loop M IA ?s q = fold (stm_step M IA i) [0..<8] q" "ldm_list M IA ?l q = thumb_pop M i q" for q
    using stm_loop_low(2) [where M = M and q = q, OF b(1,2) f(1,2)]
      stm_loop_low(3) [where M = M and q = q, OF c(1,2) f(3)] by (simp_all add: thumb_pop_def)
  show "snd (OP_STMIA_THUMB M i s) = snd (OP_STMIA_W M ?s s)"
    by (simp add: OP_STMIA_THUMB_def OP_STMIA_W_def l r reg_def set_reg_def lo_def Let_def split_beta del: upt_rec_numeral)
  show "snd (OP_LDMIA_THUMB M i s) = snd (OP_LDMIA_W M ?l s)" if "\<not> bit i (REG_NUM i 8)"
    using that f by (simp add: OP_LDMIA_THUMB_def OP_LDMIA_W_def l r reg_def set_reg_def lo_def write_base_def Let_def split_beta)
qed

text \<open>On the ARM7 a \<open>POP\<close> of the program counter keeps bit 1 of the address, and the ARM instruction does not.\<close>

lemma pop_pc_ARM7:
  fixes i :: u32
  assumes "proc_ID (cpu s) \<noteq> 0"
  defines "w \<equiv> 0xE8BD8000 OR (i AND 0xFF)"
  shows "\<exists>v. R (cpu (snd (OP_LDMIA_W M w s))) 15 = v AND 0xFFFFFFFC \<and>
    snd (OP_POP_PC M i s) = upd_cpu (\<lambda>c. next_from_pc (setR 15 (v AND 0xFFFFFFFE) c)) (snd (OP_LDMIA_W M w s))"
proof -
  note c = block_word [of "0xE8BD8000", where i = i, folded w_def, simplified]
  have r: "REG_POS w 16 = 13" by (simp add: c(4)) (simp add: REG_POS_def)
  have f: "\<not> bit w 14" "bit w 15" "\<not> bit w 13" by (simp_all add: c(3))
  have l: "ldm_list M IA w q = thumb_pop M i q" for q
    using stm_loop_low(3) [where M = M and q = q, OF c(1,2) f(1)] by (simp add: thumb_pop_def)
  obtain a d t where q: "thumb_pop M i (R (cpu s) 13, 0, s) = (a, d, t)" by (metis prod_cases3)
  obtain v u where v: "READ32 M a t = (v, u)" by fastforce
  have t: "proc_ID (cpu t) \<noteq> 0" using proc_pop [of M i "(R (cpu s) 13, 0, s)"] assms(1) by (simp add: q)
  then have u: "proc_ID (cpu u) \<noteq> 0" using access_cpu(1) [of M a t] by (simp add: v)
  have "MMU_memAccessCycles M 32 MMU_AD_READ a (upd_cpu (load_pc_word v) u) =
      (fst (MMU_memAccessCycles M 32 MMU_AD_READ a u),
       upd_cpu (load_pc_word v) (snd (MMU_memAccessCycles M 32 MMU_AD_READ a u)))"
    by (rule cycles_upd) (simp add: load_pc_word_def setR_def put_flag_def)
  moreover have "fun_upd (fun_upd f 15 x) 13 y = fun_upd (fun_upd f 13 y) 15 x" for f :: "nat \<Rightarrow> u32" and x y
    by (simp add: fun_upd_twist)
  ultimately show ?thesis using f t u
    by (intro exI [of _ v])
      (simp add: OP_POP_PC_def OP_LDMIA_W_def l write_base_def r reg_def set_reg_def Let_def split_beta q v
        upd_cpu_upd_cpu load_pc_word_def access_cpu setR_def next_from_pc_def upd_cpu_def)
qed

text \<open>A base register in the list of \<open>LDMIA\<close> keeps the loaded value, as without the write-back.\<close>

lemma ldmia_in_list:
  assumes "bit i (REG_NUM i 8)"
  shows "snd (OP_LDMIA_THUMB M i s) = snd (OP_LDMIA M (arm_word 0xE8900000 (field3 i 8) 0 0 OR (i AND 0xFF)) s)"
proof -
  have z: "(0xE8900000 :: u32) AND 0x000FFFFF = 0" by simp
  note c = block_word [where i = i, OF base_word(1) [OF z, where i = i and n = 8]] base_word(2,3) [OF z, where i = i and n = 8]
  let ?l = "arm_word 0xE8900000 (field3 i 8) 0 0 OR (i AND 0xFF)"
  have f: "\<not> bit ?l 14" "\<not> bit ?l 15" by (simp_all add: c(3,6))
  have r: "REG_POS ?l 16 = REG_NUM i 8" by (simp add: c(4,5))
  have l: "ldm_list M IA ?l q = thumb_pop M i q" for q
    using stm_loop_low(3) [where M = M and q = q, OF c(1,2) f(1)] by (simp add: thumb_pop_def)
  show ?thesis using assms f
    by (simp add: OP_LDMIA_THUMB_def OP_LDMIA_def l r reg_def lo_def Let_def split_beta)
qed

text \<open>
  C21. The Thumb block transfers are ARM block transfers: \<open>PUSH\<close> is \<open>STMDB SP!\<close>, also with the link register,
  \<open>POP\<close> is \<open>LDMIA SP!\<close>, \<open>STMIA\<close> is \<open>STMIA Rn!\<close> and \<open>LDMIA\<close> is \<open>LDMIA Rn!\<close>, or \<open>LDMIA Rn\<close> when the base register
  is in the list; both lead to the same state. \<open>POP\<close> with the program counter is \<open>LDMIA SP!\<close> with it on the ARM9,
  where it may leave Thumb state; on the ARM7 the two differ only in bit 1 of the address to go on at, which
  Thumb keeps.
\<close>
theorem thumb_block_is_arm:
  fixes s :: "'m CORE"
  shows "snd (OP_PUSH M i s) = snd (OP_STMDB_W M (0xE92D0000 OR (i AND 0xFF)) s) \<and>
    snd (OP_PUSH_LR M i s) = snd (OP_STMDB_W M (0xE92D4000 OR (i AND 0xFF)) s) \<and>
    snd (OP_POP M i s) = snd (OP_LDMIA_W M (0xE8BD0000 OR (i AND 0xFF)) s) \<and>
    snd (OP_STMIA_THUMB M i s) = snd (OP_STMIA_W M (arm_word 0xE8A00000 (field3 i 8) 0 0 OR (i AND 0xFF)) s) \<and>
    snd (OP_LDMIA_THUMB M i s) =
      (if bit i (REG_NUM i 8) then snd (OP_LDMIA M (arm_word 0xE8900000 (field3 i 8) 0 0 OR (i AND 0xFF)) s)
       else snd (OP_LDMIA_W M (arm_word 0xE8B00000 (field3 i 8) 0 0 OR (i AND 0xFF)) s)) \<and>
    (if proc_ID (cpu s) = 0 then snd (OP_POP_PC M i s) = snd (OP_LDMIA_W M (0xE8BD8000 OR (i AND 0xFF)) s)
     else \<exists>v. R (cpu (snd (OP_LDMIA_W M (0xE8BD8000 OR (i AND 0xFF)) s))) 15 = v AND 0xFFFFFFFC \<and>
       snd (OP_POP_PC M i s) = upd_cpu (\<lambda>c. next_from_pc (setR 15 (v AND 0xFFFFFFFE) c))
         (snd (OP_LDMIA_W M (0xE8BD8000 OR (i AND 0xFF)) s)))"
  using pop_pc_ARM7 [where s = s and i = i and M = M] by (simp add: push_is_arm pop_is_arm stmia_is_arm ldmia_in_list)

lemma example_ARM9: "proc_ID (cpu example_core) = 0"
  by (simp add: example_core_def core_of_def example_cpu_def)

theorem thumb_block_is_arm_witness:
  "snd (OP_POP_PC (nds_mem example_bus) 0xBD10 example_core) =
     snd (OP_LDMIA_W (nds_mem example_bus) 0xE8BD8010 example_core)"
  using thumb_block_is_arm [where i = "0xBD10" and M = "nds_mem example_bus" and s = example_core]
    example_ARM9 by simp


section \<open>Long branches\<close>

text \<open>The offset in the two halves of a long branch: 22 bits with a sign, counted in halfwords.\<close>

definition branch_offset :: "u32 \<Rightarrow> u32 \<Rightarrow> int" where
  "branch_offset i j = 2 * sint (word_cat (ucast i :: 11 word) (ucast j :: 11 word) :: 22 word)"

lemma branch_offset_word:
  "push_bit 12 (SIGNEXTEND_11 i) + push_bit 1 (j AND 0x7FF) = word_of_int (branch_offset i j)"
proof -
  have ms: "(0x7FF :: u32) = mask 11" by (simp add: mask_eq_exp_minus_1)
  have dbl: "bit (x * 2) n \<longleftrightarrow> 0 < n \<and> n < 32 \<and> bit x (n - 1)" for x :: u32 and n
    using bit_push_bit_iff [of 1 x n] by (auto simp: push_bit_eq_mult)
  have d: "push_bit 12 (SIGNEXTEND_11 i) AND push_bit 1 (j AND 0x7FF) = 0"
    unfolding ms by (rule bit_word_eqI) (auto simp: bit_simps dbl)
  have top: "21 \<le> n - Suc 0 \<Longrightarrow> n - 12 < 11 \<Longrightarrow> n - 12 = (10 :: nat)" for n by arith
  have "word_of_int (branch_offset i j) =
      push_bit 1 (scast (word_cat (ucast i :: 11 word) (ucast j :: 11 word) :: 22 word) :: u32)"
    by (simp add: branch_offset_def push_bit_eq_mult mult.commute)
  also have "\<dots> = push_bit 12 (SIGNEXTEND_11 i) OR push_bit 1 (j AND 0x7FF)"
    unfolding SIGNEXTEND_11_def ms
    by (rule bit_word_eqI) (auto simp: bit_simps bit_word_cat_iff bit_signed_drop_bit_iff dbl min_def not_le, (metis top)+)
  finally show ?thesis using disjunctive_add_eq_or [OF d] by simp
qed

text \<open>
  A long branch with link. The two halves together add the 22-bit offset of their immediates, with its
  sign and in halfwords, to the program counter the first half sees; between the halves only the link
  register has to be kept. The second half leaves the address after it in the link register with bit 0 set
  and stays in Thumb state, and a \<open>BX LR\<close> with that link register returns behind the call.
\<close>
theorem thumb_long_branch:
  assumes "R (cpu u) 14 = R (cpu (snd (OP_BL_10 i s))) 14" "REG_POS k 3 = 14"
    and "R (cpu w) 14 = R (cpu (snd (OP_BL_11 j u))) 14"
  shows "next_instruction (cpu (snd (OP_BL_11 j u))) = R (cpu s) 15 + word_of_int (branch_offset i j) \<and>
    R (cpu (snd (OP_BL_11 j u))) 15 = next_instruction (cpu (snd (OP_BL_11 j u))) \<and>
    R (cpu (snd (OP_BL_11 j u))) 14 = next_instruction (cpu u) OR 1 \<and>
    CPSR (cpu (snd (OP_BL_11 j u))) = CPSR (cpu u) \<and>
    next_instruction (cpu (snd (OP_BX_THUMB k w))) = next_instruction (cpu u) AND NOT 1 \<and>
    flag T_bit (cpu (snd (OP_BX_THUMB k w)))"
proof -
  have "(0xFFFFFFFC OR push_bit 1 1 :: u32) = NOT 1" by simp
  then have m: "(x OR 1) AND (0xFFFFFFFC OR push_bit 1 1) = x AND NOT 1" for x :: u32
    by (simp only:) (rule bit_word_eqI, auto simp: bit_simps)
  have w: "R (cpu w) 14 = next_instruction (cpu u) OR 1" and b: "bit (R (cpu w) 14) 0"
    using assms(3) by (simp_all add: OP_BL_11_def upd_cpu_def next_from_pc_def setR_def Let_def bit_or_iff)
  have r: "next_instruction (cpu (snd (OP_BX_THUMB k w))) = next_instruction (cpu u) AND NOT 1"
    "flag T_bit (cpu (snd (OP_BX_THUMB k w)))"
    using b m by (simp_all add: OP_BX_THUMB_def reg_def assms(2) upd_cpu_def next_from_pc_def setR_def w
        flag_def put_flag_def put_bit_def bit_simps T_bit_def Let_def)
  have "R (cpu s) 15 + push_bit 12 (SIGNEXTEND_11 i) + push_bit 1 (j AND 0x7FF) =
      R (cpu s) 15 + word_of_int (branch_offset i j)"
    using branch_offset_word [of i j] by (metis add.assoc)
  then show ?thesis using assms(1) r
    by (simp add: OP_BL_10_def OP_BL_11_def upd_cpu_def next_from_pc_def setR_def Let_def)
qed

theorem thumb_long_branch_witness:
  "next_instruction (cpu (snd (OP_BX_THUMB 0x4770 (snd (OP_BL_11 0xF8FE (snd (OP_BL_10 0xF7FF example_core))))))) =
     0x02000004"
  using thumb_long_branch [of "snd (OP_BL_10 0xF7FF example_core)" "0xF7FF" example_core "0x4770"
      "snd (OP_BL_11 0xF8FE (snd (OP_BL_10 0xF7FF example_core)))" "0xF8FE"]
  by (simp add: REG_POS_def) (simp add: OP_BL_10_def upd_cpu_def example_defs setR_def)


section \<open>Times of loads\<close>

text \<open>A data read at one of the addresses 0 to 31 is never a slow one.\<close>

lemma low_address_time:
  assumes "a < 32"
  shows "fst (MMU_accesstime P MMU_AT_DATA 32 MMU_AD_READ region a sequential t) \<le> (if P = 0 then 7 else 2)"
proof -
  have a: "unat a < 32" using assms(1) by (simp add: word_less_nat_alt)
  then have "unat (drop_bit 24 a) = 0" by (simp only: unat_drop_bit_eq) (simp add: drop_bit_eq_div)
  moreover have "unat (a AND 0x0F000000) = 0"
  proof -
    have "a AND mask 5 = a" by (rule less_mask_eq) (use assms in simp)
    then have "a AND 0x0F000000 = a AND (mask 5 AND 0x0F000000)" by (metis and.assoc)
    then show ?thesis by (simp add: mask_eq_exp_minus_1)
  qed
  ultimately show ?thesis by (simp add: MMU_accesstime_def MMU_WAIT_def in_main_def unat_eq_0 Let_def)
qed

lemma low_address_cycles:
  assumes "a < 32"
  shows "fst (MMU_aluMemAccessCycles (nds_mem B) 32 MMU_AD_READ 3 a s) \<le> 7"
proof -
  have "align_access 32 a \<le> a" by (simp add: align_access_def word_and_le2)
  then have "align_access 32 a < 32" using assms by (rule le_less_trans)
  note t = low_address_time [OF this]
  have plus: "3 + x \<le> 7" if "x \<le> 2" for x :: u32 using that by (simp add: word_le_nat_alt unat_word_ariths)
  obtain m u where s: "mmu s = (m, u)" by (cases "mmu s")
  let ?q = "if advanced_timing u then align_access 32 a = dataFetch_lastAddress u (proc_ID (cpu s)) + 4 else True"
  let ?t = "fst (MMU_accesstime (proc_ID (cpu s)) MMU_AT_DATA 32 MMU_AD_READ (DTCMRegion m) (align_access 32 a) ?q u)"
  have "fst (MMU_aluMemAccessCycles (nds_mem B) 32 MMU_AD_READ 3 a s) = MMU_aluMemCycles (proc_ID (cpu s)) 3 ?t"
    by (simp add: s MMU_aluMemAccessCycles_def MMU_memAccessCycles_def nds_mem_def split_beta
        MMU_memAccessCycles_timing_def Fetch_data_def)
  moreover have "MMU_aluMemCycles (proc_ID (cpu s)) 3 ?t \<le> 7"
    using t [of "proc_ID (cpu s)" "DTCMRegion m" ?q u] plus by (auto simp: MMU_aluMemCycles_def split: if_splits)
  ultimately show ?thesis by simp
qed

text \<open>
  The two word loads with an offset from a low register compute their time from the wrong address: the
  variable with the address is overwritten with the rotation, 0 to 24, before the access is timed. So they
  take 7 cycles at most, wherever the word is, while the ARM instruction that loads the same word of the
  main memory takes 52.
\<close>
theorem thumb_load_time:
  "fst (OP_LDR_IMM_OFF (nds_mem B) i s) \<le> 7 \<and> fst (OP_LDR_REG_OFF (nds_mem B) i s) \<le> 7 \<and>
   (let s = core_of (with_regs (\<lambda>_. 0x02000100)) (example_mmu, example_timing) in
    fst (OP_LDR_IMM_OFF (nds_mem example_bus) 0x6808 s) = 7 \<and>
    fst (OP_LDR_OFF (nds_mem example_bus) IMM_OFF_12 True 0xE5910000 s) = 52)"
proof (intro conjI)
  have r: "unat ((x AND 3) * 8) < 32" for x :: u32
  proof -
    have "unat (x AND 3) \<le> 3" using unat_and_le [of x 3] by simp
    then show ?thesis by (simp add: unat_word_ariths)
  qed
  then have r: "(x AND 3) * 8 < 32" for x :: u32 by (simp add: word_less_nat_alt)
  show "fst (OP_LDR_IMM_OFF (nds_mem B) i s) \<le> 7" "fst (OP_LDR_REG_OFF (nds_mem B) i s) \<le> 7"
    by (simp_all add: OP_LDR_IMM_OFF_def OP_LDR_REG_OFF_def load32_rot_def Let_def split_beta low_address_cycles r)
  show "let s = core_of (with_regs (\<lambda>_. 0x02000100)) (example_mmu, example_timing) in
    fst (OP_LDR_IMM_OFF (nds_mem example_bus) 0x6808 s) = 7 \<and>
    fst (OP_LDR_OFF (nds_mem example_bus) IMM_OFF_12 True 0xE5910000 s) = 52"
    by code_simp
qed

end
