(* ===== verification/Cp15.thy ===== *)
theory Cp15
  imports ArmBlock
begin

text \<open>
  The system coprocessor: \<^verbatim>\<open>cp15.h\<close>, \<^verbatim>\<open>cp15.cpp\<close>, and the two instructions that reach it,
  \<open>OP_MCR\<close> and \<open>OP_MRC\<close> of \<^verbatim>\<open>arm_instructions.cpp\<close>. Save states are left out. The arrays with one
  entry per region are functions, used below index 8. The coprocessor and the two fields of the structure
  \<open>MMU\<close> that only it writes are in the record \<open>SYSTEM\<close>, the part \<open>rest\<close> of the memory system; its own copies
  of the TCM registers have the suffix \<open>_cp15\<close>.

  The coprocessor acts on \<open>NDS_ARM9\<close> whichever processor executes the instruction: \<open>on_arm9\<close> exchanges the two
  processors when it is the ARM7. An operation returns \<open>False\<close> for a register that does not exist.
\<close>

section \<open>State\<close>

record armcp15_t =
  IDCode :: u32
  cacheType :: u32
  TCMSize :: u32
  ctrl :: u32
  DCConfig :: u32
  ICConfig :: u32
  writeBuffCtrl :: u32
  und :: u32
  DaccessPerm :: u32
  IaccessPerm :: u32
  protectBaseSize :: "nat \<Rightarrow> u32"
  cacheOp :: u32
  DcacheLock :: u32
  IcacheLock :: u32
  ITCMRegion_cp15 :: u32
  DTCMRegion_cp15 :: u32
  processID :: u32
  RAM_TAG :: u32
  testState :: u32
  cacheDbg :: u32
  regionWriteMask_USR :: "nat \<Rightarrow> u32"
  regionWriteMask_SYS :: "nat \<Rightarrow> u32"
  regionReadMask_USR :: "nat \<Rightarrow> u32"
  regionReadMask_SYS :: "nat \<Rightarrow> u32"
  regionExecuteMask_USR :: "nat \<Rightarrow> u32"
  regionExecuteMask_SYS :: "nat \<Rightarrow> u32"
  regionWriteSet_USR :: "nat \<Rightarrow> u32"
  regionWriteSet_SYS :: "nat \<Rightarrow> u32"
  regionReadSet_USR :: "nat \<Rightarrow> u32"
  regionReadSet_SYS :: "nat \<Rightarrow> u32"
  regionExecuteSet_USR :: "nat \<Rightarrow> u32"
  regionExecuteSet_SYS :: "nat \<Rightarrow> u32"

record 'd SYSTEM =
  cp15 :: armcp15_t
  ARM9_RW_MODE :: u32
  ITCMRegion_mmu :: u32
  beyond :: 'd

type_synonym 'd NDS = "('d SYSTEM MMU \<times> TIMING) CORE"

definition armcp15_new :: armcp15_t where
  "armcp15_new = \<lparr>IDCode = 0x41059461, cacheType = 0x0F0D2112, TCMSize = 0x00140180, ctrl = 0x00012078,
     DCConfig = 0, ICConfig = 0, writeBuffCtrl = 0, und = 0,
     DaccessPerm = 0x22222222, IaccessPerm = 0x22222222, protectBaseSize = (\<lambda>_. 0),
     cacheOp = 0, DcacheLock = 0, IcacheLock = 0, ITCMRegion_cp15 = 0x0C, DTCMRegion_cp15 = 0x0080000A,
     processID = 0, RAM_TAG = 0, testState = 0, cacheDbg = 0,
     regionWriteMask_USR = (\<lambda>_. 0), regionWriteMask_SYS = (\<lambda>_. 0), regionReadMask_USR = (\<lambda>_. 0),
     regionReadMask_SYS = (\<lambda>_. 0), regionExecuteMask_USR = (\<lambda>_. 0), regionExecuteMask_SYS = (\<lambda>_. 0),
     regionWriteSet_USR = (\<lambda>_. 0), regionWriteSet_SYS = (\<lambda>_. 0), regionReadSet_USR = (\<lambda>_. 0),
     regionReadSet_SYS = (\<lambda>_. 0), regionExecuteSet_USR = (\<lambda>_. 0), regionExecuteSet_SYS = (\<lambda>_. 0)\<rparr>"

section \<open>Protection regions\<close>

definition CP15_SIZEIDENTIFIER :: "u32 \<Rightarrow> nat" where
  "CP15_SIZEIDENTIFIER val = unat (drop_bit 1 val AND 0x1F)"
definition CP15_SIZEBINARY :: "u32 \<Rightarrow> u32" where
  "CP15_SIZEBINARY val = push_bit (CP15_SIZEIDENTIFIER val + 1) 1"
definition CP15_MASKFROMREG :: "u32 \<Rightarrow> u32" where
  "CP15_MASKFROMREG val = NOT ((CP15_SIZEBINARY val - 1) OR 0x3F)"
definition CP15_SETFROMREG :: "u32 \<Rightarrow> u32" where
  "CP15_SETFROMREG val = val AND CP15_MASKFROMREG val"
definition CP15_ACCESSTYPE :: "u32 \<Rightarrow> nat \<Rightarrow> u32" where
  "CP15_ACCESSTYPE val n = drop_bit (4 * n) val AND 0x0F"

text \<open>
  One case of the two \<open>switch\<close> statements of \<open>setSingleRegionAccess\<close>: the kinds of access that get the
  mask and the set of the region; the others get a pair that no address satisfies.
\<close>

definition m_of :: "bool \<Rightarrow> u32 \<Rightarrow> u32" where "m_of b rmask = (if b then rmask else 0)"
definition s_of :: "bool \<Rightarrow> u32 \<Rightarrow> u32" where "s_of b rset = (if b then rset else 0xFFFFFFFF)"

definition data_region ::
  "bool \<Rightarrow> bool \<Rightarrow> bool \<Rightarrow> bool \<Rightarrow> nat \<Rightarrow> u32 \<Rightarrow> u32 \<Rightarrow> armcp15_t \<Rightarrow> armcp15_t" where
  "data_region wu ru ws rs num rmask rset c = c\<lparr>
     regionWriteMask_USR := (regionWriteMask_USR c)(num := m_of wu rmask),
     regionWriteSet_USR := (regionWriteSet_USR c)(num := s_of wu rset),
     regionReadMask_USR := (regionReadMask_USR c)(num := m_of ru rmask),
     regionReadSet_USR := (regionReadSet_USR c)(num := s_of ru rset),
     regionWriteMask_SYS := (regionWriteMask_SYS c)(num := m_of ws rmask),
     regionWriteSet_SYS := (regionWriteSet_SYS c)(num := s_of ws rset),
     regionReadMask_SYS := (regionReadMask_SYS c)(num := m_of rs rmask),
     regionReadSet_SYS := (regionReadSet_SYS c)(num := s_of rs rset)\<rparr>"

definition exec_region :: "bool \<Rightarrow> bool \<Rightarrow> nat \<Rightarrow> u32 \<Rightarrow> u32 \<Rightarrow> armcp15_t \<Rightarrow> armcp15_t" where
  "exec_region xu xs num rmask rset c = c\<lparr>
     regionExecuteMask_USR := (regionExecuteMask_USR c)(num := m_of xu rmask),
     regionExecuteSet_USR := (regionExecuteSet_USR c)(num := s_of xu rset),
     regionExecuteMask_SYS := (regionExecuteMask_SYS c)(num := m_of xs rmask),
     regionExecuteSet_SYS := (regionExecuteSet_SYS c)(num := s_of xs rset)\<rparr>"

text \<open>The second \<open>switch\<close> has no case for 5 and no default.\<close>

definition setSingleRegionAccess :: "nat \<Rightarrow> u32 \<Rightarrow> u32 \<Rightarrow> armcp15_t \<Rightarrow> armcp15_t" where
  "setSingleRegionAccess num rmask rset c =
     (let d = CP15_ACCESSTYPE (DaccessPerm c) num;
          c = (if d = 1 then data_region False False True True num rmask rset c
               else if d = 2 then data_region False True True True num rmask rset c
               else if d = 3 then data_region True True True True num rmask rset c
               else if d = 5 then data_region False False False True num rmask rset c
               else if d = 6 then data_region False True False True num rmask rset c
               else data_region False False False False num rmask rset c);
          x = CP15_ACCESSTYPE (IaccessPerm c) num in
      if x = 1 then exec_region False True num rmask rset c
      else if x = 2 \<or> x = 3 \<or> x = 6 then exec_region True True num rmask rset c
      else if x = 5 then c
      else exec_region False False num rmask rset c)"

definition precalc :: "nat \<Rightarrow> armcp15_t \<Rightarrow> armcp15_t" where
  "precalc num c =
     (let v = protectBaseSize c num;
          (rmask, rset) =
            (if BIT_N v 0 \<noteq> 0 then
               (if CP15_SIZEIDENTIFIER v = 0x1F then (0, 0) else (CP15_MASKFROMREG v, CP15_SETFROMREG v))
             else (0, 0xFFFFFFFF)) in
      setSingleRegionAccess num rmask rset c)"

definition maskPrecalc :: "armcp15_t \<Rightarrow> armcp15_t" where
  "maskPrecalc c = fold precalc [0..<8] c"

text \<open>The codes of \<open>cp15.h\<close>: 0 to 5 for write, read and execute, each in user and in system mode.\<close>

datatype CP15_ACCESS = WRITEUSR | WRITESYS | READUSR | READSYS | EXECUSR | EXECSYS

definition region_match :: "armcp15_t \<Rightarrow> CP15_ACCESS \<Rightarrow> u32 \<Rightarrow> nat \<Rightarrow> bool" where
  "region_match c access address i =
     (case access of
        WRITEUSR \<Rightarrow> address AND regionWriteMask_USR c i = regionWriteSet_USR c i
      | WRITESYS \<Rightarrow> address AND regionWriteMask_SYS c i = regionWriteSet_SYS c i
      | READUSR \<Rightarrow> address AND regionReadMask_USR c i = regionReadSet_USR c i
      | READSYS \<Rightarrow> address AND regionReadMask_SYS c i = regionReadSet_SYS c i
      | EXECUSR \<Rightarrow> address AND regionExecuteMask_USR c i = regionExecuteSet_USR c i
      | EXECSYS \<Rightarrow> address AND regionExecuteMask_SYS c i = regionExecuteSet_SYS c i)"

definition isAccessAllowed :: "u32 \<Rightarrow> CP15_ACCESS \<Rightarrow> armcp15_t \<Rightarrow> bool" where
  "isAccessAllowed address access c =
     (if ctrl c AND 1 = 0 then True else list_ex (region_match c access address) [0..<8])"

section \<open>Operations\<close>

definition dataProcess :: bool where "dataProcess = False"
definition cp15_load :: bool where "cp15_load = False"
definition cp15_store :: bool where "cp15_store = False"

text \<open>The state of the coprocessor inside the memory system.\<close>

definition get_cp15 :: "'d NDS \<Rightarrow> armcp15_t" where
  "get_cp15 s = cp15 (rest (fst (mmu s)))"

definition upd_mem :: "('d SYSTEM MMU \<Rightarrow> 'd SYSTEM MMU) \<Rightarrow> 'd NDS \<Rightarrow> 'd NDS" where
  "upd_mem f s = s\<lparr>mmu := (f (fst (mmu s)), snd (mmu s))\<rparr>"

definition upd_cp15 :: "(armcp15_t \<Rightarrow> armcp15_t) \<Rightarrow> 'd NDS \<Rightarrow> 'd NDS" where
  "upd_cp15 f = upd_mem (\<lambda>m. m\<lparr>rest := (rest m)\<lparr>cp15 := f (cp15 (rest m))\<rparr>\<rparr>)"

definition NDS_ARM9 :: "'m CORE \<Rightarrow> armcpu_t" where
  "NDS_ARM9 s = (if proc_ID (cpu s) = ARMCPU_ARM9 then cpu s else peer s)"

text \<open>The register that is read, \<open>None\<close> when the operation fails.\<close>

definition cp15_register :: "armcp15_t \<Rightarrow> nat \<Rightarrow> nat \<Rightarrow> u32 \<Rightarrow> u32 \<Rightarrow> u32 option" where
  "cp15_register c CRn CRm opcode1 opcode2 =
     (if opcode1 \<noteq> 0 then None
      else if CRn = 0 then
        (if CRm = 0 then
           (if opcode2 = 1 then Some (cacheType c) else if opcode2 = 2 then Some (TCMSize c) else Some (IDCode c))
         else None)
      else if CRn = 1 then (if opcode2 = 0 \<and> CRm = 0 then Some (ctrl c) else None)
      else if CRn = 2 then
        (if CRm = 0 then
           (if opcode2 = 0 then Some (DCConfig c) else if opcode2 = 1 then Some (ICConfig c) else None)
         else None)
      else if CRn = 3 then (if opcode2 = 0 \<and> CRm = 0 then Some (writeBuffCtrl c) else None)
      else if CRn = 5 then
        (if CRm = 0 then
           (if opcode2 = 2 then Some (DaccessPerm c) else if opcode2 = 3 then Some (IaccessPerm c) else None)
         else None)
      else if CRn = 6 then (if opcode2 = 0 \<and> CRm < 8 then Some (protectBaseSize c CRm) else None)
      else if CRn = 9 then
        (if CRm = 0 \<and> opcode2 = 0 then Some (DcacheLock c)
         else if CRm = 0 \<and> opcode2 = 1 then Some (IcacheLock c)
         else if CRm = 1 \<and> opcode2 = 0 then Some (DTCMRegion_cp15 c)
         else if CRm = 1 \<and> opcode2 = 1 then Some (ITCMRegion_cp15 c)
         else None)
      else None)"

definition moveCP2ARM :: "nat \<Rightarrow> nat \<Rightarrow> u32 \<Rightarrow> u32 \<Rightarrow> 'd NDS \<Rightarrow> u32 option" where
  "moveCP2ARM CRn CRm opcode1 opcode2 s =
     (if psr_mode (CPSR (NDS_ARM9 s)) = USR then None
      else cp15_register (get_cp15 s) CRn CRm opcode1 opcode2)"

text \<open>The write of the control register, and of the other registers.\<close>

definition write_ctrl :: "u32 \<Rightarrow> 'd NDS \<Rightarrow> 'd NDS" where
  "write_ctrl val s =
     (let s = upd_cp15 (\<lambda>c. c\<lparr>ctrl := (val AND 0x000FF085) OR 0x00000078\<rparr>) s;
          s = upd_mem (\<lambda>m. m\<lparr>rest := (rest m)\<lparr>ARM9_RW_MODE := BIT_N val 7\<rparr>\<rparr>) s in
      on_arm9 (upd_cpu (\<lambda>c. c\<lparr>intVector := 0xFFFF0000 * BIT_N val 13, LDTBit := (BIT_N val 15 = 0)\<rparr>)) s)"

definition moveARM2CP :: "u32 \<Rightarrow> nat \<Rightarrow> nat \<Rightarrow> u32 \<Rightarrow> u32 \<Rightarrow> 'd NDS \<Rightarrow> bool \<times> 'd NDS" where
  "moveARM2CP val CRn CRm opcode1 opcode2 s =
     (if psr_mode (CPSR (NDS_ARM9 s)) = USR \<or> opcode1 \<noteq> 0 then (False, s)
      else if CRn = 1 then (if opcode2 = 0 \<and> CRm = 0 then (True, write_ctrl val s) else (False, s))
      else if CRn = 2 then
        (if CRm = 0 \<and> opcode2 = 0 then (True, upd_cp15 (\<lambda>c. c\<lparr>DCConfig := val\<rparr>) s)
         else if CRm = 0 \<and> opcode2 = 1 then (True, upd_cp15 (\<lambda>c. c\<lparr>ICConfig := val\<rparr>) s)
         else (False, s))
      else if CRn = 3 then
        (if opcode2 = 0 \<and> CRm = 0 then (True, upd_cp15 (\<lambda>c. c\<lparr>writeBuffCtrl := val\<rparr>) s) else (False, s))
      else if CRn = 5 then
        (if CRm = 0 \<and> opcode2 = 2 then (True, upd_cp15 (\<lambda>c. maskPrecalc (c\<lparr>DaccessPerm := val\<rparr>)) s)
         else if CRm = 0 \<and> opcode2 = 3 then (True, upd_cp15 (\<lambda>c. maskPrecalc (c\<lparr>IaccessPerm := val\<rparr>)) s)
         else (False, s))
      else if CRn = 6 then
        (if opcode2 = 0 \<and> CRm < 8
         then (True, upd_cp15 (\<lambda>c. maskPrecalc (c\<lparr>protectBaseSize := (protectBaseSize c)(CRm := val)\<rparr>)) s)
         else (False, s))
      else if CRn = 7 then
        (if CRm = 0 \<and> opcode2 = 4
         then (True, on_arm9 (upd_cpu (\<lambda>c. c\<lparr>waitIRQ := True, halt_IE_and_IF := True\<rparr>)) s)
         else (False, s))
      else if CRn = 9 then
        (if CRm = 0 \<and> opcode2 = 0 then (True, upd_cp15 (\<lambda>c. c\<lparr>DcacheLock := val\<rparr>) s)
         else if CRm = 0 \<and> opcode2 = 1 then (True, upd_cp15 (\<lambda>c. c\<lparr>IcacheLock := val\<rparr>) s)
         else if CRm = 1 \<and> opcode2 = 0 then
           (True, upd_mem (\<lambda>m. m\<lparr>DTCMRegion := val AND 0x0FFFF000\<rparr>)
              (upd_cp15 (\<lambda>c. c\<lparr>DTCMRegion_cp15 := val AND 0x0FFFF000\<rparr>) s))
         else if CRm = 1 \<and> opcode2 = 1 then
           (True, upd_mem (\<lambda>m. m\<lparr>rest := (rest m)\<lparr>ITCMRegion_mmu := 0\<rparr>\<rparr>)
              (upd_cp15 (\<lambda>c. c\<lparr>ITCMRegion_cp15 := val\<rparr>) s))
         else (False, s))
      else (False, s))"

section \<open>Instructions\<close>

definition OP_MCR :: "u32 \<Rightarrow> 'd NDS \<Rightarrow> u32 \<times> 'd NDS" where
  "OP_MCR i s =
     (if REG_POS i 8 \<noteq> 15 then (2, s)
      else (2, snd (moveARM2CP (reg i 12 s) (REG_POS i 16) (REG_POS i 0) (drop_bit 21 i AND 0x7) (drop_bit 5 i AND 0x7) s)))"

text \<open>The value stays 0 when the coprocessor does not deliver one.\<close>

definition OP_MRC :: "u32 \<Rightarrow> 'd NDS \<Rightarrow> u32 \<times> 'd NDS" where
  "OP_MRC i s =
     (if REG_POS i 8 \<noteq> 15 then (2, s)
      else (let data = (case moveCP2ARM (REG_POS i 16) (REG_POS i 0) (drop_bit 21 i AND 0x7) (drop_bit 5 i AND 0x7) s of
                          Some v \<Rightarrow> v | None \<Rightarrow> 0) in
        if REG_POS i 12 = 15 then
          (4, upd_cpu (put_flag V_bit (bit data 28) \<circ> put_flag C_bit (bit data 29) \<circ>
                put_flag Z_bit (bit data 30) \<circ> put_flag N_bit (bit data 31)) s)
        else (4, upd_cpu (setR (REG_POS i 12) data) s)))"

end
