(* ===== verification/Cp15Properties.thy ===== *)
theory Cp15Properties
  imports Cp15 ArmPipe ArmExample
begin

text \<open>
  The properties of the system coprocessor. The masks that an access is checked with are computed when a
  region or a permission is written; the specification reads the registers themselves.
\<close>

section \<open>The protection unit by its registers\<close>

text \<open>
  A region register enables the region with bit 0, and its size is 2 to the power \<open>region_bits\<close>, at least 64
  bytes; its base is aligned to the size.
\<close>

definition region_bits :: "u32 \<Rightarrow> nat" where
  "region_bits v = max 6 (CP15_SIZEIDENTIFIER v + 1)"

definition in_region :: "u32 \<Rightarrow> u32 \<Rightarrow> bool" where
  "in_region v a = (bit v 0 \<and> unat a div 2 ^ region_bits v = unat v div 2 ^ region_bits v)"

text \<open>The accesses a permission code grants.\<close>

fun granted :: "CP15_ACCESS \<Rightarrow> u32 \<Rightarrow> bool" where
  "granted WRITEUSR p = (p = 3)"
| "granted WRITESYS p = (p \<in> {1, 2, 3})"
| "granted READUSR p = (p \<in> {2, 3, 6})"
| "granted READSYS p = (p \<in> {1, 2, 3, 5, 6})"
| "granted EXECUSR p = (p \<in> {2, 3, 6})"
| "granted EXECSYS p = (p \<in> {1, 2, 3, 6})"

definition executes :: "CP15_ACCESS \<Rightarrow> bool" where
  "executes access = (access = EXECUSR \<or> access = EXECSYS)"

definition permission :: "armcp15_t \<Rightarrow> CP15_ACCESS \<Rightarrow> nat \<Rightarrow> u32" where
  "permission c access n = CP15_ACCESSTYPE (if executes access then IaccessPerm c else DaccessPerm c) n"

definition region_permits :: "armcp15_t \<Rightarrow> CP15_ACCESS \<Rightarrow> u32 \<Rightarrow> nat \<Rightarrow> bool" where
  "region_permits c access a n = (in_region (protectBaseSize c n) a \<and> granted access (permission c access n))"

section \<open>The masks\<close>

lemma mask_of_region:
  assumes "CP15_SIZEIDENTIFIER v \<noteq> 31"
  shows "CP15_MASKFROMREG v = NOT (mask (region_bits v))"
proof -
  have ms: "(0x3F :: u32) = mask 6" "CP15_SIZEBINARY v - 1 = mask (CP15_SIZEIDENTIFIER v + 1)"
    by (simp_all add: CP15_SIZEBINARY_def mask_eq_exp_minus_1 push_bit_of_1)
  show ?thesis unfolding CP15_MASKFROMREG_def ms region_bits_def
    by (rule bit_word_eqI) (auto simp: bit_simps)
qed

lemma masked_eq:
  "a AND NOT (mask k) = v AND NOT (mask k) \<longleftrightarrow> unat a div 2 ^ k = unat v div 2 ^ k" for a v :: u32
proof -
  have "a AND NOT (mask k) = v AND NOT (mask k) \<longleftrightarrow> drop_bit k a = drop_bit k v"
  proof
    assume e: "a AND NOT (mask k) = v AND NOT (mask k)"
    show "drop_bit k a = drop_bit k v"
    proof (rule bit_word_eqI)
      fix n assume "n < LENGTH(32)"
      from e have "bit (a AND NOT (mask k)) (k + n) = bit (v AND NOT (mask k)) (k + n)" by simp
      then show "bit (drop_bit k a) n = bit (drop_bit k v) n"
        using bit_imp_le_length [of a "k + n"] bit_imp_le_length [of v "k + n"] by (auto simp: bit_simps)
    qed
  next
    assume "drop_bit k a = drop_bit k v"
    then have "bit a (k + n) = bit v (k + n)" for n by (metis bit_drop_bit_eq comp_apply)
    then have "bit a n = bit v n" if "k \<le> n" for n using that by (metis le_add_diff_inverse)
    then show "a AND NOT (mask k) = v AND NOT (mask k)"
      by (intro bit_word_eqI) (auto simp: bit_simps not_less)
  qed
  also have "\<dots> \<longleftrightarrow> unat a div 2 ^ k = unat v div 2 ^ k"
    unfolding word_unat_eq_iff unat_drop_bit_eq by (simp only: drop_bit_eq_div)
  finally show ?thesis .
qed

lemma size_31: "CP15_SIZEIDENTIFIER v \<le> 31"
  using unat_and_le [of "drop_bit 1 v" 31] by (simp add: CP15_SIZEIDENTIFIER_def)

lemma full_region: "CP15_SIZEIDENTIFIER v = 31 \<Longrightarrow> unat a div 2 ^ region_bits v = (0 :: nat)" for a :: u32
  using unsigned_less [where 'a = nat, of a] by (simp add: region_bits_def)

text \<open>What \<open>precalc\<close> computes for a region is right, and it changes nothing else.\<close>

definition matches :: "u32 \<Rightarrow> u32 \<times> u32 \<Rightarrow> bool" where
  "matches a p = (a AND fst p = snd p)"

definition region_pair :: "u32 \<Rightarrow> u32 \<times> u32" where
  "region_pair v =
     (if BIT_N v 0 \<noteq> 0 then
        (if CP15_SIZEIDENTIFIER v = 0x1F then (0, 0) else (CP15_MASKFROMREG v, CP15_SETFROMREG v))
      else (0, 0xFFFFFFFF))"

lemma region_pair: "matches a (region_pair v) = in_region v a"
proof -
  have b: "BIT_N v 0 \<noteq> 0 \<longleftrightarrow> bit v 0" by (simp add: BIT_N_def bit_0 and_one_eq odd_iff_mod_2_eq_one)
  show ?thesis
    using full_region [of v] by (auto simp: matches_def region_pair_def in_region_def b mask_of_region
        CP15_SETFROMREG_def masked_eq)
qed

lemma matches_of: "a AND m_of b k = s_of b v \<longleftrightarrow> b \<and> matches a (k, v)"
  by (simp add: m_of_def s_of_def matches_def)

lemma precalc_pair:
  "precalc n c = setSingleRegionAccess n (fst (region_pair (protectBaseSize c n))) (snd (region_pair (protectBaseSize c n))) c"
  by (simp add: precalc_def region_pair_def Let_def)

lemma precalc_other:
  assumes "n \<noteq> k"
  shows "region_match (precalc k c) access a n = region_match c access a n"
  using assms by (auto simp: precalc_pair setSingleRegionAccess_def data_region_def exec_region_def
      region_match_def Let_def split: CP15_ACCESS.split)

lemma precalc_registers:
  "protectBaseSize (precalc k c) = protectBaseSize c" "DaccessPerm (precalc k c) = DaccessPerm c"
  "IaccessPerm (precalc k c) = IaccessPerm c" "ctrl (precalc k c) = ctrl c"
  by (simp_all add: precalc_pair setSingleRegionAccess_def data_region_def exec_region_def Let_def)

lemma precalc_self:
  assumes "executes access \<longrightarrow> permission c access n \<noteq> 5"
  shows "region_match (precalc n c) access a n = region_permits c access a n"
proof -
  note m = matches_of [of _ _ "fst (region_pair (protectBaseSize c n))" "snd (region_pair (protectBaseSize c n))",
      simplified, unfolded region_pair]
  show ?thesis using assms
    by (cases access) (simp_all add: precalc_pair setSingleRegionAccess_def data_region_def exec_region_def
        region_match_def region_permits_def permission_def executes_def Let_def m)
qed

lemma fold_registers:
  "protectBaseSize (fold precalc ns c) = protectBaseSize c" "DaccessPerm (fold precalc ns c) = DaccessPerm c"
  "IaccessPerm (fold precalc ns c) = IaccessPerm c" "ctrl (fold precalc ns c) = ctrl c"
  by (induction ns arbitrary: c) (simp_all add: precalc_registers)

lemma precalc_fold_other:
  "n \<notin> set ns \<Longrightarrow> region_match (fold precalc ns c) access a n = region_match c access a n"
  by (induction ns arbitrary: c) (simp_all add: precalc_other)

lemma permits_cong:
  assumes "protectBaseSize c = protectBaseSize d" "DaccessPerm c = DaccessPerm d" "IaccessPerm c = IaccessPerm d"
  shows "region_permits c access a n = region_permits d access a n" "permission c access n = permission d access n"
  using assms by (simp_all add: region_permits_def permission_def)

lemma precalc_fold:
  assumes "n \<in> set ns" "distinct ns" "executes access \<longrightarrow> permission c access n \<noteq> 5"
  shows "region_match (fold precalc ns c) access a n = region_permits c access a n"
  using assms
proof (induction ns arbitrary: c)
  case (Cons k ns)
  note p = permits_cong [OF precalc_registers(1-3), of _ c]
  show ?case
  proof (cases "n = k")
    case True
    then show ?thesis using Cons.prems by (simp add: precalc_fold_other precalc_self)
  next
    case False
    then show ?thesis using Cons.prems Cons.IH [of "precalc k c"] by (simp add: p)
  qed
qed simp


section \<open>The coprocessor in the memory system\<close>

lemma get_upd:
  "get_cp15 (upd_cp15 f s) = f (get_cp15 s)" "get_cp15 (on_arm9 (upd_cpu g) s) = get_cp15 s"
  "get_cp15 (upd_mem (DTCMRegion_update h) s) = get_cp15 s"
  "get_cp15 (upd_mem (\<lambda>m. m\<lparr>rest := (rest m)\<lparr>ITCMRegion_mmu := v\<rparr>\<rparr>) s) = get_cp15 s"
  "get_cp15 (write_ctrl w s) = (get_cp15 s)\<lparr>ctrl := (w AND 0x000FF085) OR 0x00000078\<rparr>"
  by (simp_all add: get_cp15_def upd_cp15_def upd_mem_def on_arm9_def upd_cpu_def write_ctrl_def Let_def)

text \<open>The masks belong to the registers, but for the execution of a region with permission 5.\<close>

definition masks_ok :: "armcp15_t \<Rightarrow> bool" where
  "masks_ok c = (\<forall>n < 8. \<forall>access a. (executes access \<longrightarrow> permission c access n \<noteq> 5) \<longrightarrow>
     region_match c access a n = region_permits c access a n)"

lemma masks_ok_precalc: "masks_ok (maskPrecalc c)"
  unfolding masks_ok_def maskPrecalc_def
proof (intro allI impI)
  fix n access a
  assume n: "n < (8 :: nat)" and e: "executes access \<longrightarrow> permission (fold precalc [0..<8] c) access n \<noteq> 5"
  note p = permits_cong [OF fold_registers(1-3) [of "[0..<8]" c]]
  show "region_match (fold precalc [0..<8] c) access a n = region_permits (fold precalc [0..<8] c) access a n"
    using n e precalc_fold [where n = n and ns = "[0..<8]" and access = access and c = c and a = a] by (simp add: p del: upt_rec_numeral)
qed

lemma match_update:
  "region_match (c\<lparr>ctrl := v\<rparr>) = region_match c" "region_match (c\<lparr>DCConfig := v\<rparr>) = region_match c"
  "region_match (c\<lparr>ICConfig := v\<rparr>) = region_match c" "region_match (c\<lparr>writeBuffCtrl := v\<rparr>) = region_match c"
  "region_match (c\<lparr>DcacheLock := v\<rparr>) = region_match c" "region_match (c\<lparr>IcacheLock := v\<rparr>) = region_match c"
  "region_match (c\<lparr>DTCMRegion_cp15 := v\<rparr>) = region_match c" "region_match (c\<lparr>ITCMRegion_cp15 := v\<rparr>) = region_match c"
  by (simp_all add: fun_eq_iff region_match_def split: CP15_ACCESS.split)

lemma masks_ok_update:
  "masks_ok (c\<lparr>ctrl := v\<rparr>) = masks_ok c" "masks_ok (c\<lparr>DCConfig := v\<rparr>) = masks_ok c"
  "masks_ok (c\<lparr>ICConfig := v\<rparr>) = masks_ok c" "masks_ok (c\<lparr>writeBuffCtrl := v\<rparr>) = masks_ok c"
  "masks_ok (c\<lparr>DcacheLock := v\<rparr>) = masks_ok c" "masks_ok (c\<lparr>IcacheLock := v\<rparr>) = masks_ok c"
  "masks_ok (c\<lparr>DTCMRegion_cp15 := v\<rparr>) = masks_ok c" "masks_ok (c\<lparr>ITCMRegion_cp15 := v\<rparr>) = masks_ok c"
  by (simp_all add: masks_ok_def match_update region_permits_def permission_def)

lemma masks_ok_move:
  assumes "masks_ok (get_cp15 s) \<or> fst (moveARM2CP v n m o1 o2 s) \<and> (n = 5 \<or> n = 6)"
  shows "masks_ok (get_cp15 (snd (moveARM2CP v n m o1 o2 s)))"
  using assms by (simp add: moveARM2CP_def get_upd masks_ok_precalc masks_ok_update split: if_splits)

type_synonym cp15_write = "u32 \<times> nat \<times> nat \<times> u32 \<times> u32"

text \<open>Any sequence of writes.\<close>

definition cp15_writes :: "cp15_write list \<Rightarrow> 'd NDS \<Rightarrow> 'd NDS" where
  "cp15_writes ws s = fold (\<lambda>(v, n, m, o1, o2) s. snd (moveARM2CP v n m o1 o2 s)) ws s"

lemma masks_ok_writes: "masks_ok (get_cp15 s) \<Longrightarrow> masks_ok (get_cp15 (cp15_writes ws s))"
  unfolding cp15_writes_def by (induction ws arbitrary: s) (auto simp: masks_ok_move)

text \<open>
  C8. The protection unit does what its registers say. After a region or permission register has been
  written, and any further writes to the coprocessor, an access to an address is allowed if and only if the
  protection is off or one of the eight regions is enabled, contains the address by the base and size in its
  register, and grants this kind of access in its permission code; an instruction fetch also needs that no
  region has the permission code 5.
\<close>
theorem region_protection:
  fixes s :: "'d NDS" and ws :: "cp15_write list"
  assumes "fst (moveARM2CP v n m o1 o2 s)" "n = 5 \<or> n = 6"
  defines "c \<equiv> get_cp15 (cp15_writes ws (snd (moveARM2CP v n m o1 o2 s)))"
  assumes "executes access \<longrightarrow> list_all (\<lambda>k. permission c access k \<noteq> 5) [0..<8]"
  shows "isAccessAllowed a access c \<longleftrightarrow> ctrl c AND 1 = 0 \<or> list_ex (region_permits c access a) [0..<8]"
proof -
  have "masks_ok c" unfolding c_def using assms(1,2) by (intro masks_ok_writes masks_ok_move) simp
  then have "region_match c access a k = region_permits c access a k" if "k < 8" for k
    using that assms(4) by (auto simp: masks_ok_def list_all_iff)
  then have "list_ex (region_match c access a) [0..<8] = list_ex (region_permits c access a) [0..<8]"
    by (auto simp: list_ex_iff simp del: upt_rec_numeral)
  then show ?thesis by (simp add: isAccessAllowed_def del: upt_rec_numeral)
qed

text \<open>A system in which the first region is the main memory and the protection is switched on.\<close>

definition example_nds :: "unit NDS" where
  "example_nds = core_of example_cpu (\<lparr>MAIN_MEM = (\<lambda>_. 0), ARM9_DTCM = (\<lambda>_. 0), ARM9_ITCM = (\<lambda>_. 0),
     ARM7_BIOS = (\<lambda>_. 0), DTCMRegion = 0x027C0000, MAIN_MEM_MASK = 0x3FFFFF, MAIN_MEM_MASK16 = 0x3FFFFE,
     MAIN_MEM_MASK32 = 0x3FFFFC,
     rest = \<lparr>cp15 = armcp15_new, ARM9_RW_MODE = 0, ITCMRegion_mmu = 0, beyond = ()\<rparr>\<rparr>, example_timing)"

lemma example_privileged: "psr_mode (CPSR (NDS_ARM9 example_nds)) \<noteq> USR" "get_cp15 example_nds = armcp15_new"
  by (simp_all add: NDS_ARM9_def example_nds_def example_defs get_cp15_def psr_mode_def USR_def ARMCPU_ARM9_def)

lemma example_region_write: "fst (moveARM2CP 0x0200002B 6 0 0 0 example_nds)"
  using example_privileged by (simp add: moveARM2CP_def)

lemma NDS_ARM9_upd: "NDS_ARM9 (upd_cp15 f s) = NDS_ARM9 s"
  by (simp add: NDS_ARM9_def upd_cp15_def upd_mem_def)

lemma example_cp15:
  "get_cp15 (cp15_writes [(0x1, 1, 0, 0, 0)] (snd (moveARM2CP 0x0200002B 6 0 0 0 example_nds))) =
     (maskPrecalc (armcp15_new\<lparr>protectBaseSize := (\<lambda>_. 0)(0 := 0x0200002B)\<rparr>))\<lparr>ctrl := 0x79\<rparr>"
  using example_privileged
  by (simp add: cp15_writes_def moveARM2CP_def get_upd NDS_ARM9_upd) (simp add: armcp15_new_def)

theorem region_protection_witness:
  "let c = get_cp15 (cp15_writes [(0x1, 1, 0, 0, 0)] (snd (moveARM2CP 0x0200002B 6 0 0 0 example_nds))) in
   isAccessAllowed 0x023FFFFF READUSR c \<and> \<not> isAccessAllowed 0x02400000 READUSR c"
proof -
  note a = region_protection [OF example_region_write, where ws = "[(0x1, 1, 0, 0, 0)]" and access = READUSR,
      unfolded example_cp15, folded maskPrecalc_def]
  show ?thesis unfolding Let_def example_cp15
    by (subst (1 2) a) (simp_all add: executes_def region_permits_def permission_def in_region_def region_bits_def
        maskPrecalc_def fold_registers armcp15_new_def CP15_SIZEIDENTIFIER_def CP15_ACCESSTYPE_def upt_rec
        del: fold.simps)
qed

text \<open>
  Two gaps of the protection unit. In a region with the permission code 5 for instructions, the masks for
  instruction fetches stay what they were before, whatever is written into the region's register, even if
  that disables the region. And until the first write to a region or permission register all masks are
  those of the constructor, which match every address: with the protection switched on and no region enabled
  every access is allowed.
\<close>
theorem protection_gaps:
  assumes "psr_mode (CPSR (NDS_ARM9 s)) \<noteq> USR" "k < 8" "CP15_ACCESSTYPE (IaccessPerm (get_cp15 s)) k = 5"
    and "executes access"
  shows "region_match (get_cp15 (snd (moveARM2CP v 6 k 0 0 s))) access a k = region_match (get_cp15 s) access a k \<and>
    isAccessAllowed a any (armcp15_new\<lparr>ctrl := v\<rparr>) \<and>
    \<not> list_ex (region_permits (armcp15_new\<lparr>ctrl := v\<rparr>) any a) [0..<8]"
proof (intro conjI)
  have self: "region_match (precalc k c) access a k = region_match c access a k"
    if "CP15_ACCESSTYPE (IaccessPerm c) k = 5" for c
    using assms(4) that by (auto simp: executes_def precalc_pair setSingleRegionAccess_def data_region_def
        exec_region_def region_match_def Let_def)
  have "region_match (fold precalc ns c) access a k = region_match c access a k"
    if "CP15_ACCESSTYPE (IaccessPerm c) k = 5" for ns c
    using that
  proof (induction ns arbitrary: c)
    case (Cons n ns)
    then show ?case by (cases "n = k") (simp_all add: precalc_registers self precalc_other)
  qed simp
  then show "region_match (get_cp15 (snd (moveARM2CP v 6 k 0 0 s))) access a k = region_match (get_cp15 s) access a k"
    using assms by (auto simp: moveARM2CP_def get_upd maskPrecalc_def region_match_def executes_def
        simp del: upt_rec_numeral)
  have "region_match (armcp15_new\<lparr>ctrl := v\<rparr>) any a 0" by (cases any) (simp_all add: region_match_def armcp15_new_def)
  then show "isAccessAllowed a any (armcp15_new\<lparr>ctrl := v\<rparr>)" by (auto simp: isAccessAllowed_def upt_rec)
  show "\<not> list_ex (region_permits (armcp15_new\<lparr>ctrl := v\<rparr>) any a) [0..<8]"
    by (auto simp: list_ex_iff region_permits_def in_region_def armcp15_new_def simp del: upt_rec_numeral)
qed

theorem protection_gaps_witness:
  "let s = snd (moveARM2CP 0x22222225 5 0 0 3 example_nds) in
   region_match (get_cp15 (snd (moveARM2CP 0 6 0 0 0 s))) EXECUSR 0x1000 0 = region_match (get_cp15 s) EXECUSR 0x1000 0 \<and>
   isAccessAllowed 0x027FFFFC WRITEUSR (armcp15_new\<lparr>ctrl := 0\<rparr>)"
proof -
  let ?s = "snd (moveARM2CP 0x22222225 5 0 0 3 example_nds)"
  have "?s = upd_cp15 (\<lambda>c. maskPrecalc (c\<lparr>IaccessPerm := 0x22222225\<rparr>)) example_nds"
    using example_privileged by (simp add: moveARM2CP_def)
  then have "psr_mode (CPSR (NDS_ARM9 ?s)) \<noteq> USR" "CP15_ACCESSTYPE (IaccessPerm (get_cp15 ?s)) 0 = 5"
    using example_privileged(1)
    by (simp_all add: NDS_ARM9_upd get_upd maskPrecalc_def fold_registers CP15_ACCESSTYPE_def del: upt_rec_numeral)
  then show ?thesis unfolding Let_def
    using protection_gaps [where s = ?s and k = 0 and access = EXECUSR and v = 0 and a = "0x1000" and any = EXECUSR]
      protection_gaps [where s = ?s and k = 0 and access = EXECUSR and v = 0 and a = "0x027FFFFC" and any = WRITEUSR]
    by (simp add: executes_def)
qed

section \<open>Registers\<close>

lemma mode_keep:
  "NDS_ARM9 (upd_mem f s) = NDS_ARM9 s"
  "(\<And>c. proc_ID (g c) = proc_ID c) \<Longrightarrow> (\<And>c. CPSR (g c) = CPSR c) \<Longrightarrow>
    CPSR (NDS_ARM9 (on_arm9 (upd_cpu g) s)) = CPSR (NDS_ARM9 s)"
  by (simp_all add: NDS_ARM9_def upd_mem_def on_arm9_def upd_cpu_def Let_def)

lemma mode_move: "CPSR (NDS_ARM9 (snd (moveARM2CP v n m o1 o2 s))) = CPSR (NDS_ARM9 s)"
  by (simp add: moveARM2CP_def write_ctrl_def mode_keep NDS_ARM9_upd Let_def)

lemma data_fields:
  "cacheType (data_region wu ru ws rs k p q c) = cacheType c" "TCMSize (data_region wu ru ws rs k p q c) = TCMSize c"
  "IDCode (data_region wu ru ws rs k p q c) = IDCode c" "ctrl (data_region wu ru ws rs k p q c) = ctrl c"
  "DCConfig (data_region wu ru ws rs k p q c) = DCConfig c" "ICConfig (data_region wu ru ws rs k p q c) = ICConfig c"
  "writeBuffCtrl (data_region wu ru ws rs k p q c) = writeBuffCtrl c" "DaccessPerm (data_region wu ru ws rs k p q c) = DaccessPerm c"
  "IaccessPerm (data_region wu ru ws rs k p q c) = IaccessPerm c" "protectBaseSize (data_region wu ru ws rs k p q c) = protectBaseSize c"
  "DcacheLock (data_region wu ru ws rs k p q c) = DcacheLock c" "IcacheLock (data_region wu ru ws rs k p q c) = IcacheLock c"
  "DTCMRegion_cp15 (data_region wu ru ws rs k p q c) = DTCMRegion_cp15 c" "ITCMRegion_cp15 (data_region wu ru ws rs k p q c) = ITCMRegion_cp15 c"
  by (simp_all add: data_region_def)

lemma exec_fields:
  "cacheType (exec_region xu xs k p q c) = cacheType c" "TCMSize (exec_region xu xs k p q c) = TCMSize c"
  "IDCode (exec_region xu xs k p q c) = IDCode c" "ctrl (exec_region xu xs k p q c) = ctrl c"
  "DCConfig (exec_region xu xs k p q c) = DCConfig c" "ICConfig (exec_region xu xs k p q c) = ICConfig c"
  "writeBuffCtrl (exec_region xu xs k p q c) = writeBuffCtrl c" "DaccessPerm (exec_region xu xs k p q c) = DaccessPerm c"
  "IaccessPerm (exec_region xu xs k p q c) = IaccessPerm c" "protectBaseSize (exec_region xu xs k p q c) = protectBaseSize c"
  "DcacheLock (exec_region xu xs k p q c) = DcacheLock c" "IcacheLock (exec_region xu xs k p q c) = IcacheLock c"
  "DTCMRegion_cp15 (exec_region xu xs k p q c) = DTCMRegion_cp15 c" "ITCMRegion_cp15 (exec_region xu xs k p q c) = ITCMRegion_cp15 c"
  by (simp_all add: exec_region_def)

lemma register_precalc: "cp15_register (maskPrecalc c) n m o1 o2 = cp15_register c n m o1 o2"
proof -
  have "cp15_register (data_region wu ru ws rs k p q c) n m o1 o2 = cp15_register c n m o1 o2"
    "cp15_register (exec_region xu xs k p q c) n m o1 o2 = cp15_register c n m o1 o2" for wu ru ws rs xu xs k p q c
    by (simp_all only: cp15_register_def data_fields exec_fields)
  then have "cp15_register (precalc k c) n m o1 o2 = cp15_register c n m o1 o2" for k c
    by (simp add: precalc_pair setSingleRegionAccess_def Let_def)
  then have "cp15_register (fold precalc ks c) n m o1 o2 = cp15_register c n m o1 o2" for ks
    by (induction ks arbitrary: c) simp_all
  then show ?thesis by (simp only: maskPrecalc_def)
qed

text \<open>The value a register gets.\<close>

definition written :: "u32 \<Rightarrow> nat \<Rightarrow> nat \<Rightarrow> u32 \<Rightarrow> u32" where
  "written v n m o2 = (if n = 1 then (v AND 0x000FF085) OR 0x78 else if n = 9 \<and> m = 1 \<and> o2 = 0 then v AND 0x0FFFF000 else v)"

lemma written_cases:
  assumes "fst (moveARM2CP v n m o1 o2 s)" "n \<noteq> 7"
  shows "o1 = 0 \<and> (n, m, o2) \<in> {(1, 0, 0), (2, 0, 0), (2, 0, 1), (3, 0, 0), (5, 0, 2), (5, 0, 3),
      (9, 0, 0), (9, 0, 1), (9, 1, 0), (9, 1, 1)} \<union> {6} \<times> {..<8} \<times> {0}" "psr_mode (CPSR (NDS_ARM9 s)) \<noteq> USR"
  using assms by (simp_all add: moveARM2CP_def split: if_splits)

lemma register_written:
  assumes "fst (moveARM2CP v n m o1 o2 s)" "n \<noteq> 7"
  shows "cp15_register (get_cp15 (snd (moveARM2CP v n m o1 o2 s))) n' m' 0 p' =
    (if (n', m', p') = (n, m, o2) then Some (written v n m o2) else cp15_register (get_cp15 s) n' m' 0 p')"
  using written_cases [OF assms]
  by (elim conjE UnE insertE emptyE SigmaE; simp add: moveARM2CP_def get_upd register_precalc)
    (simp_all add: cp15_register_def written_def)

text \<open>
  A register of the coprocessor that has been written reads back as the value written, but for the fixed
  bits of the control register and of the DTCM register, and no other register changes.
\<close>
theorem cp15_read_back:
  assumes "fst (moveARM2CP v n m o1 o2 s)" "n \<noteq> 7"
  shows "moveCP2ARM n m o1 o2 (snd (moveARM2CP v n m o1 o2 s)) = Some (written v n m o2) \<and>
    ((n', m', p') \<noteq> (n, m, o2) \<longrightarrow>
      moveCP2ARM n' m' 0 p' (snd (moveARM2CP v n m o1 o2 s)) = moveCP2ARM n' m' 0 p' s)"
  using register_written [OF assms] written_cases [OF assms] by (auto simp: moveCP2ARM_def mode_move)

theorem cp15_read_back_witness:
  "moveCP2ARM 9 1 0 0 (snd (moveARM2CP 0x027C000A 9 1 0 0 example_nds)) = Some 0x027C0000"
  using cp15_read_back [of "0x027C000A" 9 1 0 0 example_nds] example_privileged
  by (simp add: moveARM2CP_def written_def)

end
