(* ===== verification/Hardware.thy ===== *)
theory Hardware
  imports Cp15
begin

text \<open>
  The state of the devices behind the I/O registers, and what they share: interrupt requests
  (\<^verbatim>\<open>setIF\<close> of \<^verbatim>\<open>armcpu.cpp\<close>, the \<open>IF\<close> register of \<^verbatim>\<open>MMU.cpp\<close>) and the requests to the sequencer of
  \<^verbatim>\<open>NDSSystem.cpp\<close>. The fields come from the structures \<open>MMU\<close>, \<open>MMU_new\<close>, \<open>nds\<close> and \<open>sequencer\<close>; \<open>REG p\<close> is
  the memory of the I/O registers of processor \<open>p\<close> (\<open>ARM9_REG\<close> for 0 and \<open>ARM7_REG\<close> for 1, page 0x40 of
  \<open>MMU_MEM\<close>). Arrays are functions, and flags that only hold 0 and 1 are \<open>bool\<close>. The timers count
  \<open>nds_timer\<close>, 64 bits of the time of the console. \<open>coproc\<close> is the state of the system coprocessor (\<open>Cp15\<close>).
\<close>

section \<open>More byte array accesses\<close>

definition T1ReadWord :: "array \<Rightarrow> u32 \<Rightarrow> u16" where
  "T1ReadWord mem addr = push_bit 8 (ucast (mem (unat addr + 1))) OR ucast (mem (unat addr))"

definition T1ReadLong :: "array \<Rightarrow> u32 \<Rightarrow> u32" where
  "T1ReadLong mem addr = T1ReadLong_guaranteedAligned mem (addr AND NOT 3)"

definition T1ReadQuad :: "array \<Rightarrow> u32 \<Rightarrow> u64" where
  "T1ReadQuad mem addr =
     push_bit 56 (ucast (mem (unat addr + 7))) OR push_bit 48 (ucast (mem (unat addr + 6))) OR
     push_bit 40 (ucast (mem (unat addr + 5))) OR push_bit 32 (ucast (mem (unat addr + 4))) OR
     push_bit 24 (ucast (mem (unat addr + 3))) OR push_bit 16 (ucast (mem (unat addr + 2))) OR
     push_bit 8 (ucast (mem (unat addr + 1))) OR ucast (mem (unat addr))"

section \<open>Devices\<close>

record IPC_FIFO =
  ipc_buf :: "nat \<Rightarrow> u32"
  ipc_head :: byte
  ipc_tail :: byte
  ipc_size :: byte

record GFX_FIFO =
  gx_cmd :: "nat \<Rightarrow> byte"
  gx_param :: "nat \<Rightarrow> u32"
  gx_head :: u32
  gx_tail :: u32
  gx_size :: u32
  matrix_stack_op_size :: u32

record GFX_PIPE =
  pipe_cmd :: "nat \<Rightarrow> byte"
  pipe_param :: "nat \<Rightarrow> u32"
  pipe_head :: byte
  pipe_tail :: byte
  pipe_size :: byte

record DISP_FIFO =
  disp_buf :: "nat \<Rightarrow> u32"
  disp_head :: u32
  disp_tail :: u32

record TGXSTAT =
  gx_tb :: byte
  gx_tr :: byte
  gx_se :: byte
  gx_sb :: bool
  gxfifo_irq :: u32
  fifo_empty :: bool
  fifo_low :: bool

text \<open>The stages of a scan line.\<close>

datatype ESI_DISPCNT = ESI_DISPCNT_HStart | ESI_DISPCNT_HStartIRQ | ESI_DISPCNT_HDraw | ESI_DISPCNT_HBlank

datatype EDMAMode = EDMAMode_Immediate | EDMAMode_VBlank | EDMAMode_HBlank | EDMAMode_HStart
  | EDMAMode_MemDisplay | EDMAMode_Card | EDMAMode_GBASlot | EDMAMode_GXFifo | EDMAMode7_Wifi
  | EDMAMode7_GBASlot

datatype EDMASourceUpdate = SAR_Increment | SAR_Decrement | SAR_Fixed | SAR_Invalid
datatype EDMADestinationUpdate = DAR_Increment | DAR_Decrement | DAR_Fixed | DAR_IncrementReload

record DmaController =
  dma_enable :: bool
  dma_irq :: bool
  repeatMode :: bool
  dma_startmode :: u32  \<comment> \<open>\<open>_startmode\<close>\<close>
  wordcount :: u32
  startmode :: EDMAMode
  bitWidth32 :: bool
  sar :: EDMASourceUpdate
  dar :: EDMADestinationUpdate
  saddr :: u32
  daddr :: u32
  saddr_user :: u32
  daddr_user :: u32
  dmaCheck :: bool
  running :: bool
  paused :: bool
  triggered :: bool
  nextEvent :: u64

record DivController =
  div_mode :: byte
  div_busy :: bool
  div0 :: bool

record SqrtController =
  sqrt_mode :: byte
  sqrt_busy :: bool

record HW =
  nds_timer :: u64
  resched :: bool
  REG :: "nat \<Rightarrow> array"
  reg_IF_bits :: "nat \<Rightarrow> u32"
  gxstat :: TGXSTAT
  ipc_fifo :: "nat \<Rightarrow> IPC_FIFO"
  gxFIFO :: GFX_FIFO
  gxPIPE :: GFX_PIPE
  disp_fifo :: DISP_FIFO
  gfx3dCycles :: u64
  gxfifo_enabled :: bool
  timer :: "nat \<Rightarrow> nat \<Rightarrow> u16"
  timerMODE :: "nat \<Rightarrow> nat \<Rightarrow> nat"
  timerON :: "nat \<Rightarrow> nat \<Rightarrow> bool"
  timerReload :: "nat \<Rightarrow> nat \<Rightarrow> u16"
  timerCycle :: "nat \<Rightarrow> nat \<Rightarrow> u64"
  timer_enabled :: "nat \<Rightarrow> nat \<Rightarrow> bool"
  dma :: "nat \<Rightarrow> nat \<Rightarrow> DmaController"
  freezeBus :: u32
  VCount :: u32
  card_transfer_count :: "nat \<Rightarrow> u32"
  divider :: DivController
  divRunning :: bool
  divResult :: u64
  divMod :: u64
  divCycles :: u64
  sqrtunit :: SqrtController
  sqrtRunning :: bool
  sqrtResult :: u32
  sqrtCycles :: u64
  ensataEmulation :: bool
  ensataIpcSyncCounter :: u32
  reg_IE :: "nat \<Rightarrow> u32"
  reg_IME :: "nat \<Rightarrow> u32"
  reg_IF_pending :: "nat \<Rightarrow> u32"
  dispcnt_timestamp :: u64
  dispcnt_param :: ESI_DISPCNT
  dispcnt_enabled :: bool
  nds_vblankEnded :: bool
  rigorous_timing :: bool
  nds_sleeping :: bool
  nds_arm9_timer :: u64
  nds_arm7_timer :: u64
  idleCycles :: "nat \<Rightarrow> u32"
  runCycleCollector :: "nat \<Rightarrow> nat \<Rightarrow> u32"
  idleFrameCounter :: u32
  coproc :: "unit SYSTEM"

text \<open>A change of the registers of processor \<open>p\<close>.\<close>

definition upd_REG :: "nat \<Rightarrow> (array \<Rightarrow> array) \<Rightarrow> HW \<Rightarrow> HW" where
  "upd_REG p f h = h\<lparr>REG := (REG h)(p := f (REG h p))\<rparr>"

section \<open>The sequencer\<close>

text \<open>\<open>NDS_Reschedule\<close>, \<open>NDS_RescheduleGXFIFO\<close>, \<open>NDS_RescheduleDMA\<close> and \<open>NDS_RescheduleTimers\<close>.\<close>

definition HW_Reschedule :: "HW \<Rightarrow> HW" where
  "HW_Reschedule h = h\<lparr>resched := True\<rparr>"

definition NDS_RescheduleGXFIFO :: "u64 \<Rightarrow> HW \<Rightarrow> HW" where
  "NDS_RescheduleGXFIFO cost h =
     (let h = (if \<not> gxfifo_enabled h then h\<lparr>gfx3dCycles := nds_timer h, gxfifo_enabled := True\<rparr> else h) in
      HW_Reschedule (h\<lparr>gfx3dCycles := gfx3dCycles h + cost\<rparr>))"

definition NDS_RescheduleDMA :: "HW \<Rightarrow> HW" where
  "NDS_RescheduleDMA h = HW_Reschedule h"

definition timer_schedule :: "nat \<Rightarrow> nat \<Rightarrow> HW \<Rightarrow> bool" where
  "timer_schedule p n h = (timerON h p n \<and> timerMODE h p n \<noteq> 0xFFFF)"

definition NDS_RescheduleTimers :: "HW \<Rightarrow> HW" where
  "NDS_RescheduleTimers h =
     HW_Reschedule (h\<lparr>timer_enabled :=
       (\<lambda>p n. if p < 2 \<and> n < 4 then timer_schedule p n h else timer_enabled h p n)\<rparr>)"

section \<open>Interrupts\<close>

definition IRQ_BIT_TIMER_0 :: nat where "IRQ_BIT_TIMER_0 = 3"
definition IRQ_BIT_DMA_0 :: nat where "IRQ_BIT_DMA_0 = 8"
definition IRQ_BIT_IPCSYNC :: nat where "IRQ_BIT_IPCSYNC = 16"
definition IRQ_BIT_IPCFIFO_SENDEMPTY :: nat where "IRQ_BIT_IPCFIFO_SENDEMPTY = 17"
definition IRQ_BIT_IPCFIFO_RECVNONEMPTY :: nat where "IRQ_BIT_IPCFIFO_RECVNONEMPTY = 18"
definition IRQ_MASK_ARM9_GXFIFO :: u32 where "IRQ_MASK_ARM9_GXFIFO = push_bit 21 1"

definition setIF :: "nat \<Rightarrow> u32 \<Rightarrow> HW \<Rightarrow> HW" where
  "setIF p flg h = HW_Reschedule (h\<lparr>reg_IF_bits := (reg_IF_bits h)(p := reg_IF_bits h p OR flg)\<rparr>)"

definition NDS_makeIrq :: "nat \<Rightarrow> nat \<Rightarrow> HW \<Rightarrow> HW" where
  "NDS_makeIrq p num h = setIF p (push_bit num 1) h"

text \<open>Acknowledging: a write to the \<open>IF\<close> register clears the bits that are set in the value.\<close>

definition REG_IF_WriteByte :: "nat \<Rightarrow> nat \<Rightarrow> byte \<Rightarrow> HW \<Rightarrow> HW" where
  "REG_IF_WriteByte p addr val h =
     (let val = (if addr = 2 \<and> p = 0 then val AND NOT 0x20 else val) in
      HW_Reschedule (h\<lparr>reg_IF_bits := (reg_IF_bits h)
        (p := reg_IF_bits h p AND NOT (push_bit (addr * 8) (ucast val)))\<rparr>))"

definition REG_IF_WriteWord :: "nat \<Rightarrow> nat \<Rightarrow> u16 \<Rightarrow> HW \<Rightarrow> HW" where
  "REG_IF_WriteWord p addr val h =
     REG_IF_WriteByte p (addr + 1) (ucast (drop_bit 8 val AND 0xFF))
       (REG_IF_WriteByte p addr (ucast (val AND 0xFF)) h)"

definition REG_IF_WriteLong :: "nat \<Rightarrow> u32 \<Rightarrow> HW \<Rightarrow> HW" where
  "REG_IF_WriteLong p val h =
     REG_IF_WriteByte p 3 (ucast (drop_bit 24 val AND 0xFF))
       (REG_IF_WriteByte p 2 (ucast (drop_bit 16 val AND 0xFF))
         (REG_IF_WriteByte p 1 (ucast (drop_bit 8 val AND 0xFF))
           (REG_IF_WriteByte p 0 (ucast (val AND 0xFF)) h)))"

definition gen_IF :: "nat \<Rightarrow> HW \<Rightarrow> u32" where
  "gen_IF p h =
     (let f = reg_IF_bits h p in
      if p = 0 \<and> (gxfifo_irq (gxstat h) = 1 \<and> fifo_low (gxstat h) \<or>
                  gxfifo_irq (gxstat h) = 2 \<and> fifo_empty (gxstat h))
      then f OR IRQ_MASK_ARM9_GXFIFO else f)"

section \<open>Triggering DMA\<close>

text \<open>\<open>doSchedule\<close>, \<open>tryTrigger\<close> of channel \<open>c\<close> of processor \<open>p\<close>, and \<open>triggerDma\<close>.\<close>

definition upd_dma :: "nat \<Rightarrow> nat \<Rightarrow> (DmaController \<Rightarrow> DmaController) \<Rightarrow> HW \<Rightarrow> HW" where
  "upd_dma p c f h = h\<lparr>dma := (dma h)(p := (dma h p)(c := f (dma h p c)))\<rparr>"

definition doSchedule :: "nat \<Rightarrow> nat \<Rightarrow> HW \<Rightarrow> HW" where
  "doSchedule p c h = NDS_RescheduleDMA (upd_dma p c (\<lambda>d. d\<lparr>dmaCheck := True, nextEvent := nds_timer h\<rparr>) h)"

definition tryTrigger :: "EDMAMode \<Rightarrow> nat \<Rightarrow> nat \<Rightarrow> HW \<Rightarrow> HW" where
  "tryTrigger mode p c h =
     (let d = dma h p c in
      if startmode d \<noteq> mode then h
      else if \<not> dma_enable d then h
      else if running d \<and> \<not> paused d then h
      else doSchedule p c (upd_dma p c (\<lambda>d. d\<lparr>triggered := True\<rparr>) h))"

definition triggerDma :: "EDMAMode \<Rightarrow> HW \<Rightarrow> HW" where
  "triggerDma mode h = fold (\<lambda>(p, c). tryTrigger mode p c) [(p, c). p \<leftarrow> [0, 1], c \<leftarrow> [0..<4]] h"

end
