(* ===== verification/Fifo.thy ===== *)
theory Fifo
  imports Hardware
begin

text \<open>
  The queues of \<^verbatim>\<open>FIFO.cpp\<close>: between the two processors (\<open>IPC\<close>), to the geometry engine (\<open>GFX\<close>) and of
  the display (\<open>DISP\<close>). The control register of the first is the halfword 0x184 of the I/O registers of each
  processor.
\<close>

section \<open>Between the processors\<close>

definition IPCFIFOCNT_SENDEMPTY :: u16 where "IPCFIFOCNT_SENDEMPTY = 0x0001"
definition IPCFIFOCNT_SENDFULL :: u16 where "IPCFIFOCNT_SENDFULL = 0x0002"
definition IPCFIFOCNT_SENDIRQEN :: u16 where "IPCFIFOCNT_SENDIRQEN = 0x0004"
definition IPCFIFOCNT_SENDCLEAR :: u16 where "IPCFIFOCNT_SENDCLEAR = 0x0008"
definition IPCFIFOCNT_RECVEMPTY :: u16 where "IPCFIFOCNT_RECVEMPTY = 0x0100"
definition IPCFIFOCNT_RECVFULL :: u16 where "IPCFIFOCNT_RECVFULL = 0x0200"
definition IPCFIFOCNT_RECVIRQEN :: u16 where "IPCFIFOCNT_RECVIRQEN = 0x0400"
definition IPCFIFOCNT_FIFOERROR :: u16 where "IPCFIFOCNT_FIFOERROR = 0x4000"
definition IPCFIFOCNT_FIFOENABLE :: u16 where "IPCFIFOCNT_FIFOENABLE = 0x8000"
definition IPCFIFOCNT_WRITEABLE :: u16 where
  "IPCFIFOCNT_WRITEABLE = IPCFIFOCNT_SENDIRQEN OR IPCFIFOCNT_RECVIRQEN OR IPCFIFOCNT_FIFOENABLE"

lemmas cnt_defs = IPCFIFOCNT_SENDEMPTY_def IPCFIFOCNT_SENDFULL_def IPCFIFOCNT_SENDIRQEN_def
  IPCFIFOCNT_SENDCLEAR_def IPCFIFOCNT_RECVEMPTY_def IPCFIFOCNT_RECVFULL_def IPCFIFOCNT_RECVIRQEN_def
  IPCFIFOCNT_FIFOERROR_def IPCFIFOCNT_FIFOENABLE_def IPCFIFOCNT_WRITEABLE_def

text \<open>The register, and \<open>proc ^ 1\<close>.\<close>

definition get_cnt :: "nat \<Rightarrow> HW \<Rightarrow> u16" where "get_cnt p h = T1ReadWord (REG h p) 0x184"
definition put_cnt :: "nat \<Rightarrow> u16 \<Rightarrow> HW \<Rightarrow> HW" where
  "put_cnt p v h = upd_REG p (\<lambda>r. T1WriteWord r 0x184 v) h"
definition remote :: "nat \<Rightarrow> nat" where "remote p = (if p = 0 then 1 else 0)"
definition has :: "u16 \<Rightarrow> u16 \<Rightarrow> bool" where "has cnt f = (cnt AND f \<noteq> 0)"

definition upd_ipc :: "nat \<Rightarrow> (IPC_FIFO \<Rightarrow> IPC_FIFO) \<Rightarrow> HW \<Rightarrow> HW" where
  "upd_ipc p f h = h\<lparr>ipc_fifo := (ipc_fifo h)(p := f (ipc_fifo h p))\<rparr>"

definition IPC_FIFOinit :: "nat \<Rightarrow> HW \<Rightarrow> HW" where
  "IPC_FIFOinit p h =
     put_cnt p 0x0101 (upd_ipc p (\<lambda>_. \<lparr>ipc_buf = (\<lambda>_. 0), ipc_head = 0, ipc_tail = 0, ipc_size = 0\<rparr>) h)"

text \<open>The queue part of sending and receiving.\<close>

definition ipc_put :: "u32 \<Rightarrow> IPC_FIFO \<Rightarrow> IPC_FIFO" where
  "ipc_put val q =
     (let q = q\<lparr>ipc_buf := (ipc_buf q)(unat (ipc_tail q) := val), ipc_tail := ipc_tail q + 1, ipc_size := ipc_size q + 1\<rparr> in
      if ipc_tail q > 15 then q\<lparr>ipc_tail := 0\<rparr> else q)"

definition ipc_get :: "IPC_FIFO \<Rightarrow> IPC_FIFO" where
  "ipc_get q =
     (let q = q\<lparr>ipc_head := ipc_head q + 1, ipc_size := ipc_size q - 1\<rparr> in
      if ipc_head q > 15 then q\<lparr>ipc_head := 0\<rparr> else q)"

definition IPC_FIFOsend :: "nat \<Rightarrow> u32 \<Rightarrow> HW \<Rightarrow> HW" where
  "IPC_FIFOsend p val h =
     (let cnt_l = get_cnt p h in
      if \<not> has cnt_l IPCFIFOCNT_FIFOENABLE then h
      else if ipc_size (ipc_fifo h p) > 15 then put_cnt p (cnt_l OR IPCFIFOCNT_FIFOERROR) h
      else
        (let cnt_r = get_cnt (remote p) h;
             cnt_l = cnt_l AND 0xBFFC;
             cnt_r = cnt_r AND 0xBCFF;
             h = upd_ipc p (ipc_put val) h;
             full = ipc_size (ipc_fifo h p) > 15;
             cnt_l = (if full then cnt_l OR IPCFIFOCNT_SENDFULL else cnt_l);
             cnt_r = (if full then cnt_r OR IPCFIFOCNT_RECVFULL else cnt_r);
             h = put_cnt (remote p) cnt_r (put_cnt p cnt_l h);
             h = (if has cnt_r IPCFIFOCNT_RECVIRQEN then NDS_makeIrq (remote p) IRQ_BIT_IPCFIFO_RECVNONEMPTY h else h) in
         HW_Reschedule h))"

definition IPC_FIFOrecv :: "nat \<Rightarrow> HW \<Rightarrow> u32 \<times> HW" where
  "IPC_FIFOrecv p h =
     (let cnt_l = get_cnt p h in
      if \<not> has cnt_l IPCFIFOCNT_FIFOENABLE then (0, h)
      else if ipc_size (ipc_fifo h (remote p)) = 0 then (0, put_cnt p (cnt_l OR IPCFIFOCNT_FIFOERROR) h)
      else
        (let cnt_r = get_cnt (remote p) h;
             cnt_l = cnt_l AND 0xBCFF;
             cnt_r = cnt_r AND 0xBFFC;
             q = ipc_fifo h (remote p);
             val = ipc_buf q (unat (ipc_head q));
             h = upd_ipc (remote p) ipc_get h;
             none = (ipc_size (ipc_fifo h (remote p)) = 0);
             cnt_l = (if none then cnt_l OR IPCFIFOCNT_RECVEMPTY else cnt_l);
             cnt_r = (if none then cnt_r OR IPCFIFOCNT_SENDEMPTY else cnt_r);
             h = (if none \<and> has cnt_r IPCFIFOCNT_SENDIRQEN then NDS_makeIrq (remote p) IRQ_BIT_IPCFIFO_SENDEMPTY h else h) in
         (val, HW_Reschedule (put_cnt (remote p) cnt_r (put_cnt p cnt_l h)))))"

definition IPC_FIFOcnt :: "nat \<Rightarrow> u16 \<Rightarrow> HW \<Rightarrow> HW" where
  "IPC_FIFOcnt p val h =
     (let cnt_l = get_cnt p h;
          cnt_r = get_cnt (remote p) h;
          cnt_l = (if has val IPCFIFOCNT_FIFOERROR then cnt_l AND NOT IPCFIFOCNT_FIFOERROR else cnt_l);
          (cnt_l, cnt_r, h) =
            (if has val IPCFIFOCNT_SENDCLEAR then
               ((cnt_l OR IPCFIFOCNT_SENDEMPTY) AND NOT IPCFIFOCNT_SENDFULL,
                (cnt_r OR IPCFIFOCNT_RECVEMPTY) AND NOT IPCFIFOCNT_RECVFULL,
                upd_ipc p (\<lambda>q. q\<lparr>ipc_head := 0, ipc_tail := 0, ipc_size := 0\<rparr>) h)
             else (cnt_l, cnt_r, h));
          cnt_l = (cnt_l AND NOT IPCFIFOCNT_WRITEABLE) OR (val AND IPCFIFOCNT_WRITEABLE);
          h = (if has cnt_l IPCFIFOCNT_SENDIRQEN \<and> has cnt_l IPCFIFOCNT_SENDEMPTY
               then NDS_makeIrq p IRQ_BIT_IPCFIFO_SENDEMPTY h else h);
          h = (if has cnt_l IPCFIFOCNT_RECVIRQEN \<and> \<not> has cnt_l IPCFIFOCNT_RECVEMPTY
               then NDS_makeIrq p IRQ_BIT_IPCFIFO_RECVNONEMPTY h else h) in
      HW_Reschedule (put_cnt (remote p) cnt_r (put_cnt p cnt_l h)))"

section \<open>To the geometry engine\<close>

definition HACK_GXIFO_SIZE :: u32 where "HACK_GXIFO_SIZE = 200000"

definition GFX_PIPEclear :: "HW \<Rightarrow> HW" where
  "GFX_PIPEclear h = h\<lparr>gxPIPE := (gxPIPE h)\<lparr>pipe_head := 0, pipe_tail := 0, pipe_size := 0\<rparr>,
     gxFIFO := (gxFIFO h)\<lparr>matrix_stack_op_size := 0\<rparr>\<rparr>"

definition GFX_FIFOclear :: "HW \<Rightarrow> HW" where
  "GFX_FIFOclear h = h\<lparr>gxFIFO := (gxFIFO h)\<lparr>gx_head := 0, gx_tail := 0, gx_size := 0, matrix_stack_op_size := 0\<rparr>\<rparr>"

definition GXF_FIFO_handleEvents :: "HW \<Rightarrow> HW" where
  "GXF_FIFO_handleEvents h =
     (let low = gx_size (gxFIFO h) \<le> 127;
          lowchange = (fifo_low (gxstat h) \<noteq> low);
          h = h\<lparr>gxstat := (gxstat h)\<lparr>fifo_low := low\<rparr>\<rparr>;
          h = (if low then triggerDma EDMAMode_GXFifo h else h);
          none = (gx_size (gxFIFO h) = 0);
          emptychange = (fifo_empty (gxstat h) \<noteq> none);
          h = h\<lparr>gxstat := (gxstat h)\<lparr>fifo_empty := none, gx_sb := (matrix_stack_op_size (gxFIFO h) \<noteq> 0)\<rparr>\<rparr> in
      if emptychange \<or> lowchange then HW_Reschedule h else h)"

definition IsMatrixStackCommand :: "byte \<Rightarrow> bool" where
  "IsMatrixStackCommand cmd = (cmd = 0x11 \<or> cmd = 0x12)"

definition gx_put :: "byte \<times> u32 \<Rightarrow> GFX_FIFO \<Rightarrow> GFX_FIFO" where
  "gx_put x q =
     (let q = q\<lparr>gx_cmd := (gx_cmd q)(unat (gx_tail q) := fst x), gx_param := (gx_param q)(unat (gx_tail q) := snd x),
            gx_tail := gx_tail q + 1, gx_size := gx_size q + 1\<rparr>;
          q = (if gx_tail q > HACK_GXIFO_SIZE - 1 then q\<lparr>gx_tail := 0\<rparr> else q) in
      if IsMatrixStackCommand (fst x) then q\<lparr>matrix_stack_op_size := matrix_stack_op_size q + 1\<rparr> else q)"

definition gx_get :: "GFX_FIFO \<Rightarrow> GFX_FIFO" where
  "gx_get q =
     (let q = (if IsMatrixStackCommand (gx_cmd q (unat (gx_head q)))
               then q\<lparr>matrix_stack_op_size := matrix_stack_op_size q - 1\<rparr> else q);
          q = q\<lparr>gx_head := gx_head q + 1, gx_size := gx_size q - 1\<rparr> in
      if gx_head q > HACK_GXIFO_SIZE - 1 then q\<lparr>gx_head := 0\<rparr> else q)"

definition GFX_FIFOsend :: "byte \<Rightarrow> u32 \<Rightarrow> HW \<Rightarrow> HW" where
  "GFX_FIFOsend cmd param h =
     NDS_RescheduleGXFIFO 1 (GXF_FIFO_handleEvents (h\<lparr>gxFIFO := gx_put (cmd, param) (gxFIFO h)\<rparr>))"

text \<open>The command and parameter that are delivered, \<open>None\<close> when there is none.\<close>

definition GFX_PIPErecv :: "HW \<Rightarrow> (byte \<times> u32) option \<times> HW" where
  "GFX_PIPErecv h =
     (let q = gxFIFO h in
      if gx_size q = 0 then (None, GXF_FIFO_handleEvents h)
      else (Some (gx_cmd q (unat (gx_head q)), gx_param q (unat (gx_head q))),
            GXF_FIFO_handleEvents (h\<lparr>gxFIFO := gx_get q\<rparr>)))"

definition GFX_FIFOcnt :: "u32 \<Rightarrow> HW \<Rightarrow> HW" where
  "GFX_FIFOcnt val h =
     (if bit val 29 then GFX_FIFOclear (GFX_PIPEclear h)
      else upd_REG 0 (\<lambda>r. T1WriteLong r 0x600 val) h)"

section \<open>Of the display\<close>

definition DISP_FIFOinit :: "HW \<Rightarrow> HW" where
  "DISP_FIFOinit h = h\<lparr>disp_fifo := \<lparr>disp_buf = (\<lambda>_. 0), disp_head = 0, disp_tail = 0\<rparr>\<rparr>"

definition disp_put :: "u32 \<Rightarrow> DISP_FIFO \<Rightarrow> DISP_FIFO" where
  "disp_put val q =
     (let q = q\<lparr>disp_buf := (disp_buf q)(unat (disp_tail q) := val), disp_tail := disp_tail q + 1\<rparr> in
      if disp_tail q > 0x5FFF then q\<lparr>disp_tail := 0\<rparr> else q)"

definition disp_get :: "DISP_FIFO \<Rightarrow> DISP_FIFO" where
  "disp_get q =
     (let q = q\<lparr>disp_head := disp_head q + 1\<rparr> in if disp_head q > 0x5FFF then q\<lparr>disp_head := 0\<rparr> else q)"

definition DISP_FIFOsend :: "u32 \<Rightarrow> HW \<Rightarrow> HW" where
  "DISP_FIFOsend val h = h\<lparr>disp_fifo := disp_put val (disp_fifo h)\<rparr>"

definition DISP_FIFOrecv :: "HW \<Rightarrow> u32 \<times> HW" where
  "DISP_FIFOrecv h =
     (disp_buf (disp_fifo h) (unat (disp_head (disp_fifo h))), h\<lparr>disp_fifo := disp_get (disp_fifo h)\<rparr>)"

definition DISP_FIFOreset :: "HW \<Rightarrow> HW" where
  "DISP_FIFOreset h = h\<lparr>disp_fifo := (disp_fifo h)\<lparr>disp_head := 0, disp_tail := 0\<rparr>\<rparr>"

end
