(* ===== verification/FifoCorrect.thy ===== *)
theory FifoCorrect
  imports Fifo
begin

text \<open>
  The queues as lists. The locale \<open>ring\<close> is what the three circular buffers share: a cell per index, a
  head, a tail, a number of items, and two operations on them; its lemmas say what the operations do to the
  list of items. For the queue between the processors the flags of the control registers are part of the
  invariant.
\<close>

section \<open>Circular buffers\<close>

locale ring =
  fixes cell :: "'q \<Rightarrow> nat \<Rightarrow> 'v"
    and head tail num :: "'q \<Rightarrow> nat"
    and put :: "'v \<Rightarrow> 'q \<Rightarrow> 'q" and get :: "'q \<Rightarrow> 'q"
    and N cap :: nat
    and ok :: "'q \<Rightarrow> bool"
  assumes cap: "0 < cap" "cap \<le> N"
    and ok: "ok q \<Longrightarrow> head q < N \<and> tail q = (head q + num q) mod N \<and> num q \<le> cap"
    and put: "ok q \<Longrightarrow> num q < cap \<Longrightarrow> cell (put v q) = (cell q)(tail q := v) \<and> head (put v q) = head q \<and>
      num (put v q) = Suc (num q) \<and> ok (put v q)"
    and get: "ok q \<Longrightarrow> 0 < num q \<Longrightarrow> cell (get q) = cell q \<and> head (get q) = Suc (head q) mod N \<and>
      num (get q) = num q - 1 \<and> ok (get q)"
begin

definition items :: "'q \<Rightarrow> 'v list" where
  "items q = map (\<lambda>i. cell q ((head q + i) mod N)) [0..<num q]"

lemma length_items [simp]: "length (items q) = num q"
  by (simp add: items_def)

lemma items_put:
  assumes "ok q" "num q < cap"
  shows "items (put v q) = items q @ [v]"
proof -
  have lt: "num q < N" using assms(2) cap by simp
  have t: "tail q = (head q + num q) mod N" using ok [OF assms(1)] by simp
  have d: "(head q + i) mod N \<noteq> tail q" if "i < num q" for i
  proof
    assume "(head q + i) mod N = tail q"
    then have "(head q + i) mod N = (head q + num q) mod N" using t by simp
    then have "N dvd (head q + num q) - (head q + i)"
      using that by (metis add_left_mono less_imp_le_nat mod_eq_dvd_iff_nat)
    then have "N \<le> num q - i" using that by (simp add: dvd_imp_le)
    then show False using that lt by simp
  qed
  show ?thesis using put [OF assms] t d by (simp add: items_def)
qed

lemma items_get:
  assumes "ok q" "0 < num q"
  shows "items q = cell q (head q) # items (get q)"
proof -
  have h: "head q < N" using ok [OF assms(1)] by simp
  have u: "[0..<num q] = 0 # map Suc [0..<num q - 1]"
    using upt_conv_Cons [OF assms(2)] map_Suc_upt [of 0 "num q - 1"] assms(2) by (simp del: upt_Suc)
  have m: "(Suc (head q) mod N + i) mod N = (head q + Suc i) mod N" for i
    by (simp add: mod_add_left_eq)
  have g: "cell (get q) = cell q" "head (get q) = Suc (head q) mod N" "num (get q) = num q - 1"
    using get [OF assms] by simp_all
  have "items (get q) = map (\<lambda>i. cell q ((head q + Suc i) mod N)) [0..<num q - 1]"
    unfolding items_def g m ..
  moreover have "items q = cell q (head q) # map (\<lambda>i. cell q ((head q + Suc i) mod N)) [0..<num q - 1]"
    unfolding items_def u by (simp add: o_def h del: upt_Suc)
  ultimately show ?thesis by simp
qed

text \<open>A run of operations; a \<open>None\<close> takes an item when there is one.\<close>

fun step :: "'v option \<Rightarrow> 'v list \<times> 'q \<Rightarrow> 'v list \<times> 'q" where
  "step (Some v) (out, q) = (out, put v q)"
| "step None (out, q) = (if num q = 0 then (out, q) else (out @ [cell q (head q)], get q))"

text \<open>
  Nothing is lost, repeated or reordered: while the queue has room, what was taken and what is still there
  is what was there and what was put, in order.
\<close>

lemma run_order:
  assumes "ok q" "num q + length (filter (\<lambda>x. x \<noteq> None) ops) \<le> cap"
  shows "fst (fold step ops (out, q)) @ items (snd (fold step ops (out, q))) =
      out @ items q @ map the (filter (\<lambda>x. x \<noteq> None) ops)"
  using assms
proof (induction ops arbitrary: out q)
  case (Cons x ops)
  show ?case
  proof (cases x)
    case None
    then show ?thesis using Cons.prems Cons.IH [of q out] Cons.IH [of "get q" "out @ [cell q (head q)]"]
        get [OF Cons.prems(1)] items_get [OF Cons.prems(1)] by simp
  next
    case (Some v)
    then have n: "num q < cap" using Cons.prems by simp
    show ?thesis using Some Cons.prems Cons.IH [of "put v q" out] put [OF Cons.prems(1) n, of v]
        items_put [OF Cons.prems(1) n, of v] by simp
  qed
qed simp

end


section \<open>The three buffers of the program\<close>

definition ipc_ring :: "IPC_FIFO \<Rightarrow> bool" where
  "ipc_ring q = (unat (ipc_head q) < 16 \<and> unat (ipc_tail q) = (unat (ipc_head q) + unat (ipc_size q)) mod 16 \<and>
     unat (ipc_size q) \<le> 16)"

definition gx_ring :: "GFX_FIFO \<Rightarrow> bool" where
  "gx_ring q = (unat (gx_head q) < 200000 \<and> unat (gx_tail q) = (unat (gx_head q) + unat (gx_size q)) mod 200000 \<and>
     unat (gx_size q) \<le> 200000)"

definition disp_num :: "DISP_FIFO \<Rightarrow> nat" where
  "disp_num q = (unat (disp_tail q) + 0x6000 - unat (disp_head q)) mod 0x6000"

definition disp_ring :: "DISP_FIFO \<Rightarrow> bool" where
  "disp_ring q = (unat (disp_head q) < 0x6000 \<and> unat (disp_tail q) < 0x6000)"

lemma suc_mod: "(a :: nat) < n \<Longrightarrow> Suc a mod n = (if Suc a = n then 0 else Suc a)"
  by simp

lemma step_mod: "Suc ((h + k) mod n) mod n = (h + Suc k) mod (n :: nat)"
  by (simp add: mod_Suc_eq)

lemma step_back: "0 < k \<Longrightarrow> (Suc h mod n + (k - 1)) mod n = (h + k) mod (n :: nat)"
  by (simp only: mod_add_left_eq) simp

lemma unat_suc_byte: "unat (x :: byte) < 255 \<Longrightarrow> unat (x + 1) = Suc (unat x)"
  by (simp add: unat_word_ariths)

lemma unat_suc_u32: "unat (x :: u32) < 4294967295 \<Longrightarrow> unat (x + 1) = Suc (unat x)"
  by (simp add: unat_word_ariths)

lemma unat_pred: "0 < unat (x :: 'a :: len word) \<Longrightarrow> unat (x - 1) = unat x - 1"
  by (metis One_nat_def Suc_pred' unat_minus_one unat_gt_0)

interpretation ipc: ring
  "\<lambda>q. ipc_buf q" "\<lambda>q. unat (ipc_head q)" "\<lambda>q. unat (ipc_tail q)" "\<lambda>q. unat (ipc_size q)" ipc_put ipc_get 16 16 ipc_ring
proof (unfold_locales, goal_cases)
  case (4 q v)
  then have r: "unat (ipc_head q) < 16" "unat (ipc_tail q) = (unat (ipc_head q) + unat (ipc_size q)) mod 16"
    "unat (ipc_size q) < 16" by (simp_all add: ipc_ring_def)
  have t: "unat (ipc_tail q) < 16" using r(2) by simp
  have u: "unat (ipc_tail q + 1) = Suc (unat (ipc_tail q))" "unat (ipc_size q + 1) = Suc (unat (ipc_size q))"
    using t r(3) by (simp_all add: unat_suc_byte)
  have e: "15 < ipc_tail q + 1 \<longleftrightarrow> Suc (unat (ipc_tail q)) = 16"
    using t u(1) by (auto simp: word_less_nat_alt)
  show ?case using r t e u step_mod [of "unat (ipc_head q)" "unat (ipc_size q)" 16]
    by (auto simp: ipc_put_def ipc_ring_def Let_def suc_mod [OF t] split: if_splits)
next
  case (5 q)
  then have r: "unat (ipc_head q) < 16" "unat (ipc_tail q) = (unat (ipc_head q) + unat (ipc_size q)) mod 16"
    "unat (ipc_size q) \<le> 16" "0 < unat (ipc_size q)" by (simp_all add: ipc_ring_def)
  have u: "unat (ipc_head q + 1) = Suc (unat (ipc_head q))" "unat (ipc_size q - 1) = unat (ipc_size q) - 1"
    using r by (simp_all add: unat_suc_byte unat_pred)
  have e: "15 < ipc_head q + 1 \<longleftrightarrow> Suc (unat (ipc_head q)) = 16"
    using r u(1) by (auto simp: word_less_nat_alt)
  have "(Suc (unat (ipc_head q)) mod 16 + (unat (ipc_size q) - 1)) mod 16 = (unat (ipc_head q) + unat (ipc_size q)) mod 16"
    by (rule step_back [OF r(4)])
  then show ?case using r e u
    by (auto simp: ipc_get_def ipc_ring_def Let_def suc_mod [OF r(1)] split: if_splits)
qed (simp_all add: ipc_ring_def)


interpretation gx: ring
  "\<lambda>q i. (gx_cmd q i, gx_param q i)" "\<lambda>q. unat (gx_head q)" "\<lambda>q. unat (gx_tail q)" "\<lambda>q. unat (gx_size q)"
  gx_put gx_get 200000 200000 gx_ring
proof (unfold_locales, goal_cases)
  case (4 q v)
  then have r: "unat (gx_head q) < 200000" "unat (gx_tail q) = (unat (gx_head q) + unat (gx_size q)) mod 200000"
    "unat (gx_size q) < 200000" by (simp_all add: gx_ring_def)
  have t: "unat (gx_tail q) < 200000" using r(2) by simp
  have u: "unat (gx_tail q + 1) = Suc (unat (gx_tail q))" "unat (gx_size q + 1) = Suc (unat (gx_size q))"
    using t r(3) by (simp_all add: unat_suc_u32)
  have e: "199999 < gx_tail q + 1 \<longleftrightarrow> Suc (unat (gx_tail q)) = 200000"
    using t u(1) by (auto simp: word_less_nat_alt)
  show ?case using r t e u step_mod [of "unat (gx_head q)" "unat (gx_size q)" 200000]
    by (cases v) (auto simp: gx_put_def gx_ring_def HACK_GXIFO_SIZE_def Let_def suc_mod [OF t] fun_eq_iff split: if_splits)
next
  case (5 q)
  then have r: "unat (gx_head q) < 200000" "unat (gx_tail q) = (unat (gx_head q) + unat (gx_size q)) mod 200000"
    "unat (gx_size q) \<le> 200000" "0 < unat (gx_size q)" by (simp_all add: gx_ring_def)
  have u: "unat (gx_head q + 1) = Suc (unat (gx_head q))" "unat (gx_size q - 1) = unat (gx_size q) - 1"
    using r by (simp_all add: unat_suc_u32 unat_pred)
  have e: "199999 < gx_head q + 1 \<longleftrightarrow> Suc (unat (gx_head q)) = 200000"
    using r u(1) by (auto simp: word_less_nat_alt)
  have "(Suc (unat (gx_head q)) mod 200000 + (unat (gx_size q) - 1)) mod 200000 =
      (unat (gx_head q) + unat (gx_size q)) mod 200000"
    by (rule step_back [OF r(4)])
  then show ?case using r e u
    by (auto simp: gx_get_def gx_ring_def HACK_GXIFO_SIZE_def Let_def suc_mod [OF r(1)] fun_eq_iff split: if_splits)
qed (simp_all add: gx_ring_def)

lemma disp_next:
  assumes "unat (x :: u32) < 0x6000"
  shows "unat (if 0x5FFF < x + 1 then 0 else x + 1) = Suc (unat x) mod 0x6000"
proof -
  have u: "unat (x + 1) = Suc (unat x)" using assms by (simp add: unat_suc_u32)
  then have "0x5FFF < x + 1 \<longleftrightarrow> Suc (unat x) = 0x6000" using assms by (auto simp: word_less_nat_alt)
  then show ?thesis using u assms by (simp add: suc_mod)
qed

text \<open>The display queue has no counter: its number of items is the distance from head to tail, less than the size.\<close>

interpretation disp: ring
  "\<lambda>q. disp_buf q" "\<lambda>q. unat (disp_head q)" "\<lambda>q. unat (disp_tail q)" disp_num disp_put disp_get "0x6000" "0x5FFF" disp_ring
proof (unfold_locales, goal_cases)
  case (3 q)
  then have r: "unat (disp_head q) < 0x6000" "unat (disp_tail q) < 0x6000" by (simp_all add: disp_ring_def)
  then show ?case by (auto simp: disp_num_def mod_if)
next
  case (4 q v)
  then have r: "unat (disp_head q) < 0x6000" "unat (disp_tail q) < 0x6000" "disp_num q < 0x5FFF"
    by (simp_all add: disp_ring_def)
  have t: "disp_tail (disp_put v q) = (if 0x5FFF < disp_tail q + 1 then 0 else disp_tail q + 1)"
    "disp_buf (disp_put v q) = (disp_buf q)(unat (disp_tail q) := v)" "disp_head (disp_put v q) = disp_head q"
    by (simp_all add: disp_put_def Let_def)
  have "disp_num (disp_put v q) = Suc (disp_num q)"
    unfolding disp_num_def t disp_next [OF r(2)] using r by (auto simp: disp_num_def mod_if split: if_splits)
  moreover have "disp_ring (disp_put v q)"
    unfolding disp_ring_def t disp_next [OF r(2)] using r by simp
  ultimately show ?case by (simp add: t)
next
  case (5 q)
  then have r: "unat (disp_head q) < 0x6000" "unat (disp_tail q) < 0x6000" "0 < disp_num q"
    by (simp_all add: disp_ring_def)
  have t: "disp_head (disp_get q) = (if 0x5FFF < disp_head q + 1 then 0 else disp_head q + 1)"
    "disp_buf (disp_get q) = disp_buf q" "disp_tail (disp_get q) = disp_tail q"
    by (simp_all add: disp_get_def Let_def)
  have "disp_num (disp_get q) = disp_num q - 1"
    unfolding disp_num_def t disp_next [OF r(1)] using r by (auto simp: disp_num_def mod_if split: if_splits)
  moreover have "disp_ring (disp_get q)"
    unfolding disp_ring_def t disp_next [OF r(1)] using r by simp
  ultimately show ?case by (simp add: t disp_next [OF r(1)] del: if_split)
qed simp_all


section \<open>The control registers\<close>

lemma has_bit:
  "has c IPCFIFOCNT_SENDEMPTY = bit c 0" "has c IPCFIFOCNT_SENDFULL = bit c 1" "has c IPCFIFOCNT_SENDIRQEN = bit c 2"
  "has c IPCFIFOCNT_SENDCLEAR = bit c 3" "has c IPCFIFOCNT_RECVEMPTY = bit c 8" "has c IPCFIFOCNT_RECVFULL = bit c 9"
  "has c IPCFIFOCNT_RECVIRQEN = bit c 10" "has c IPCFIFOCNT_FIFOERROR = bit c 14" "has c IPCFIFOCNT_FIFOENABLE = bit c 15"
  using and_exp_eq_0_iff_not_bit [of c 0] and_exp_eq_0_iff_not_bit [of c 1] and_exp_eq_0_iff_not_bit [of c 2]
    and_exp_eq_0_iff_not_bit [of c 3] and_exp_eq_0_iff_not_bit [of c 8] and_exp_eq_0_iff_not_bit [of c 9]
    and_exp_eq_0_iff_not_bit [of c 10] and_exp_eq_0_iff_not_bit [of c 14] and_exp_eq_0_iff_not_bit [of c 15]
  by (simp_all add: has_def cnt_defs)

lemmas has_num = has_bit [unfolded cnt_defs]

lemma read_write_word: "T1ReadWord (T1WriteWord mem a v) a = v"
proof -
  have m: "(0xFF :: u16) = mask 8" by (simp add: mask_eq_exp_minus_1)
  show ?thesis unfolding T1ReadWord_def T1WriteWord_def m
    by (rule bit_word_eqI) (auto simp: bit_simps)
qed

lemma get_put_cnt [simp]:
  "get_cnt p (put_cnt q v h) = (if p = q then v else get_cnt p h)"
  by (simp add: get_cnt_def put_cnt_def upd_REG_def read_write_word)

lemma get_cnt_other [simp]:
  "get_cnt p (upd_ipc q f h) = get_cnt p h" "get_cnt p (HW_Reschedule h) = get_cnt p h"
  "get_cnt p (NDS_makeIrq q n h) = get_cnt p h"
  by (simp_all add: get_cnt_def upd_ipc_def HW_Reschedule_def NDS_makeIrq_def setIF_def)

lemma ipc_fifo_other [simp]:
  "ipc_fifo (put_cnt q v h) = ipc_fifo h" "ipc_fifo (HW_Reschedule h) = ipc_fifo h"
  "ipc_fifo (NDS_makeIrq q n h) = ipc_fifo h"
  "ipc_fifo (upd_ipc q f h) = (ipc_fifo h)(q := f (ipc_fifo h q))"
  by (simp_all add: put_cnt_def upd_REG_def upd_ipc_def HW_Reschedule_def NDS_makeIrq_def setIF_def)

section \<open>Channels\<close>

text \<open>
  The contract of the queues between the processors: a channel per direction, a list of words that a
  processor has sent and the other has not received. \<open>ipc_ok\<close> is the invariant: the buffers are well formed and
  the flags for empty and full on both sides are those of the channels.
\<close>

definition chan :: "HW \<Rightarrow> nat \<Rightarrow> u32 list" where
  "chan h p = ipc.items (ipc_fifo h p)"

definition flags_match :: "u16 \<Rightarrow> nat \<Rightarrow> nat \<Rightarrow> nat \<Rightarrow> bool" where
  "flags_match cnt k j n = (bit cnt k = (n = 0) \<and> bit cnt j = (n = 16))"

definition chan_ok :: "HW \<Rightarrow> nat \<Rightarrow> bool" where
  "chan_ok h p = (ipc_ring (ipc_fifo h p) \<and>
     flags_match (get_cnt p h) 0 1 (length (chan h p)) \<and>
     flags_match (get_cnt (remote p) h) 8 9 (length (chan h p)))"

definition ipc_ok :: "HW \<Rightarrow> bool" where
  "ipc_ok h = list_all (chan_ok h) [0, 1]"

definition fifo_on :: "HW \<Rightarrow> nat \<Rightarrow> bool" where
  "fifo_on h p = bit (get_cnt p h) 15"

datatype ipc_op = Send nat u32 | Recv nat | Cnt nat u16

fun op_proc :: "ipc_op \<Rightarrow> nat" where
  "op_proc (Send p v) = p" | "op_proc (Recv p) = p" | "op_proc (Cnt p v) = p"

fun ipc_step :: "ipc_op \<Rightarrow> HW \<Rightarrow> u32 \<times> HW" where
  "ipc_step (Send p v) h = (0, IPC_FIFOsend p v h)"
| "ipc_step (Recv p) h = IPC_FIFOrecv p h"
| "ipc_step (Cnt p v) h = (0, IPC_FIFOcnt p v h)"

text \<open>The same operations on the channels; \<open>en\<close> says which processors have the queue enabled.\<close>

type_synonym channels = "nat \<Rightarrow> u32 list"

fun chan_step :: "ipc_op \<Rightarrow> (nat \<Rightarrow> bool) \<Rightarrow> channels \<Rightarrow> u32 \<times> channels" where
  "chan_step (Send p v) en c = (0, if en p \<and> length (c p) < 16 then c(p := c p @ [v]) else c)"
| "chan_step (Recv p) en c =
     (if en p \<and> c (remote p) \<noteq> [] then (hd (c (remote p)), c(remote p := tl (c (remote p)))) else (0, c))"
| "chan_step (Cnt p v) en c = (0, if bit v 3 then c(p := []) else c)"

lemma chan_other [simp]:
  "chan (put_cnt q v h) = chan h" "chan (HW_Reschedule h) = chan h" "chan (NDS_makeIrq q n h) = chan h"
  "chan (upd_ipc q f h) = (chan h)(q := ipc.items (f (ipc_fifo h q)))"
  by (simp_all add: chan_def [abs_def] fun_eq_iff)

lemma chan_length: "length (chan h p) = unat (ipc_size (ipc_fifo h p))"
  by (simp add: chan_def)

lemma remote [simp]: "remote p \<noteq> p" "p \<noteq> remote p" "p < 2 \<Longrightarrow> remote (remote p) = p" "remote p < 2"
  by (auto simp: remote_def)

lemma ipc_ok_both: "p < 2 \<Longrightarrow> ipc_ok h = (chan_ok h p \<and> chan_ok h (remote p))"
  by (auto simp: ipc_ok_def less_2_cases_iff remote_def)

lemma full_size: "15 < x \<longleftrightarrow> 16 \<le> unat x" for x :: byte
  by (auto simp: word_less_nat_alt)

lemma send_chan:
  assumes "ipc_ok h" "p < 2"
  shows "ipc_ok (IPC_FIFOsend p v h) \<and>
    chan (IPC_FIFOsend p v h) = snd (chan_step (Send p v) (fifo_on h) (chan h))"
proof -
  define q where "q = ipc_fifo h p"
  have k: "chan_ok h p" "chan_ok h (remote p)" using assms by (simp_all add: ipc_ok_both)
  have q: "ipc_ring q" "chan h p = ipc.items q" using k by (simp_all add: chan_ok_def q_def chan_def)
  have put: "ipc_ring (ipc_put v q)" "ipc.items (ipc_put v q) = ipc.items q @ [v]"
    "unat (ipc_size (ipc_put v q)) = Suc (unat (ipc_size q))" if "unat (ipc_size q) < 16"
    using ipc.put [OF q(1) that, of v] ipc.items_put [OF q(1) that, of v] by simp_all
  consider "\<not> fifo_on h p" | "fifo_on h p" "16 \<le> unat (ipc_size q)" | "fifo_on h p" "unat (ipc_size q) < 16"
    by fastforce
  then show ?thesis
  proof cases
    case 1
    then show ?thesis using assms by (simp add: IPC_FIFOsend_def has_bit fifo_on_def)
  next
    case 2
    then show ?thesis using k assms(2)
      by (simp add: IPC_FIFOsend_def has_num fifo_on_def full_size q_def [symmetric] ipc_ok_both [OF assms(2)]
          chan_ok_def flags_match_def chan_length cnt_defs bit_simps Let_def)
  next
    case 3
    note p = put [OF 3(2)]
    show ?thesis using 3 k assms(2) p q
      by (simp add: IPC_FIFOsend_def has_num fifo_on_def full_size q_def [symmetric] ipc_ok_both [OF assms(2)]
          chan_ok_def flags_match_def cnt_defs bit_simps Let_def fun_eq_iff)
  qed
qed

lemma recv_chan:
  assumes "ipc_ok h" "p < 2"
  shows "ipc_ok (snd (IPC_FIFOrecv p h)) \<and>
    (fst (IPC_FIFOrecv p h), chan (snd (IPC_FIFOrecv p h))) = chan_step (Recv p) (fifo_on h) (chan h)"
proof -
  define q where "q = ipc_fifo h (remote p)"
  have k: "chan_ok h p" "chan_ok h (remote p)" using assms by (simp_all add: ipc_ok_both)
  have q: "ipc_ring q" "chan h (remote p) = ipc.items q" using k by (simp_all add: chan_ok_def q_def chan_def)
  have get: "ipc_ring (ipc_get q)" "ipc.items q = ipc_buf q (unat (ipc_head q)) # ipc.items (ipc_get q)"
    "unat (ipc_size (ipc_get q)) = unat (ipc_size q) - 1" if "0 < unat (ipc_size q)"
    using ipc.get [OF q(1) that] ipc.items_get [OF q(1) that] by simp_all
  have z: "x = 0 \<longleftrightarrow> unat x = 0" for x :: byte by (simp add: unat_eq_0)
  have n: "ipc.items q = [] \<longleftrightarrow> unat (ipc_size q) = 0" for q by (metis ipc.length_items length_0_conv)
  have m: "unat (ipc_size q) \<le> 16" using q(1) by (simp add: ipc_ring_def)
  consider "\<not> fifo_on h p" | "fifo_on h p" "unat (ipc_size q) = 0" | "fifo_on h p" "0 < unat (ipc_size q)"
    by fastforce
  then show ?thesis
  proof cases
    case 1
    then show ?thesis using assms by (simp add: IPC_FIFOrecv_def has_bit fifo_on_def)
  next
    case 2
    then show ?thesis using k assms(2) n q(2)
      by (simp add: IPC_FIFOrecv_def has_num fifo_on_def q_def [symmetric] ipc_ok_both [OF assms(2)]
          chan_ok_def flags_match_def chan_length cnt_defs bit_simps Let_def z)
  next
    case 3
    note g = get [OF 3(2)]
    have i: "ipc.items (ipc_get q) = [] \<longleftrightarrow> unat (ipc_size q) \<le> 1" "unat (ipc_size q) - 1 \<noteq> 16"
      using n [of "ipc_get q"] g(3) m by auto
    show ?thesis using 3 k assms(2) g q m i
      by (simp add: IPC_FIFOrecv_def has_num fifo_on_def q_def [symmetric] ipc_ok_both [OF assms(2)]
          chan_ok_def flags_match_def cnt_defs bit_simps Let_def z fun_eq_iff)
  qed
qed

lemma cnt_chan:
  assumes "ipc_ok h" "p < 2"
  shows "ipc_ok (IPC_FIFOcnt p v h) \<and> chan (IPC_FIFOcnt p v h) = snd (chan_step (Cnt p v) (fifo_on h) (chan h))"
proof -
  have k: "chan_ok h p" "chan_ok h (remote p)" using assms by (simp_all add: ipc_ok_both)
  have e: "ipc_ring (q\<lparr>ipc_head := 0, ipc_tail := 0, ipc_size := 0\<rparr>)"
    "ipc.items (q\<lparr>ipc_head := 0, ipc_tail := 0, ipc_size := 0\<rparr>) = []" for q
    by (simp_all add: ipc_ring_def ipc.items_def)
  show ?thesis using k e assms(2)
    by (cases "bit v 3"; cases "bit v 14")
      (simp_all add: IPC_FIFOcnt_def has_num ipc_ok_both [OF assms(2)]
          chan_ok_def flags_match_def cnt_defs bit_simps Let_def)
qed

lemma init_ok: "ipc_ok (IPC_FIFOinit 1 (IPC_FIFOinit 0 h))"
  by (simp add: ipc_ok_def chan_ok_def IPC_FIFOinit_def remote_def flags_match_def chan_length ipc_ring_def)

end
