(* ===== verification/FifoProperties.thy ===== *)
theory FifoProperties
  imports FifoCorrect
begin

text \<open>
  The properties of the queues: the one between the processors refines a pair of channels and delivers what is
  sent; the one to the geometry engine keeps its order, its count of matrix commands and its status flags.
\<close>

section \<open>Runs\<close>

text \<open>
  The state of the specification: which processors have their queue enabled, and the channels. The results
  of a run are the results of its operations.
\<close>

type_synonym ipc_spec = "(nat \<Rightarrow> bool) \<times> channels"

fun spec_step :: "ipc_op \<Rightarrow> ipc_spec \<Rightarrow> u32 \<times> ipc_spec" where
  "spec_step op (en, c) =
     (let (r, c) = chan_step op en c in
      (r, (case op of Cnt p v \<Rightarrow> en(p := bit v 15) | _ \<Rightarrow> en), c))"

fun run :: "('op \<Rightarrow> 's \<Rightarrow> 'r \<times> 's) \<Rightarrow> 'op list \<Rightarrow> 's \<Rightarrow> 'r list \<times> 's" where
  "run f [] s = ([], s)"
| "run f (x # xs) s = (let (r, s) = f x s; (rs, s) = run f xs s in (r # rs, s))"

definition agree :: "HW \<Rightarrow> ipc_spec \<Rightarrow> bool" where
  "agree h a = (ipc_ok h \<and> (\<forall>p < 2. fst a p = fifo_on h p \<and> snd a p = chan h p))"

lemma enable_bits:
  "bit (c AND 0xBFFC) 15 = bit c 15" "bit (c AND 0xBCFF) 15 = bit c 15" for c :: u16
  by (simp_all add: bit_simps)

lemma fifo_on_step:
  "p < 2 \<Longrightarrow> fifo_on (IPC_FIFOsend q v h) p = fifo_on h p"
  "p < 2 \<Longrightarrow> fifo_on (snd (IPC_FIFOrecv q h)) p = fifo_on h p"
  "p < 2 \<Longrightarrow> fifo_on (IPC_FIFOcnt q w h) p = (if p = q then bit w 15 else fifo_on h p)"
  by (auto simp: fifo_on_def IPC_FIFOsend_def IPC_FIFOrecv_def IPC_FIFOcnt_def cnt_defs bit_simps Let_def split: if_splits)

lemma step_agree:
  assumes "agree h a" "op_proc op < 2"
  shows "fst (ipc_step op h) = fst (spec_step op a)" "agree (snd (ipc_step op h)) (snd (spec_step op a))"
proof -
  obtain en c where a: "a = (en, c)" by (cases a)
  have ok: "ipc_ok h" using assms(1) by (simp add: agree_def)
  have e: "en p = fifo_on h p" "c p = chan h p" if "p < 2" for p
    using assms(1) that by (simp_all add: agree_def a)
    have "fst (ipc_step op h) = fst (spec_step op a) \<and> agree (snd (ipc_step op h)) (snd (spec_step op a))"
  proof (cases op)
    case (Send p v)
    then show ?thesis using assms(2) send_chan [OF ok, of p v] e [of p] e
      by (simp add: a agree_def fifo_on_step Let_def)
  next
    case (Recv p)
    obtain v h' where r: "IPC_FIFOrecv p h = (v, h')" by fastforce
    have p: "p < 2" using Recv assms(2) by simp
    have on: "fifo_on h' q = fifo_on h q" if "q < 2" for q
      using fifo_on_step(2) [OF that, of p h] by (simp add: r)
    have "ipc_ok h'" "(v, chan h') = chan_step (Recv p) (fifo_on h) (chan h)"
      using recv_chan [OF ok p] by (simp_all add: r)
    then show ?thesis using Recv p e [of p] e [of "remote p"] e on
      by (auto simp: a r agree_def Let_def split: if_splits)
  next
    case (Cnt p v)
    then show ?thesis using assms(2) cnt_chan [OF ok, of p v] e [of p] e
      by (simp add: a agree_def fifo_on_step Let_def)
  qed
  then show "fst (ipc_step op h) = fst (spec_step op a)" "agree (snd (ipc_step op h)) (snd (spec_step op a))"
    by simp_all
qed

text \<open>The state after both queues have been initialised, and any run from it.\<close>

definition ipc_reset :: "HW \<Rightarrow> HW" where
  "ipc_reset h = IPC_FIFOinit 1 (IPC_FIFOinit 0 h)"

lemma reset_agree: "agree (ipc_reset h) (\<lambda>_. False, \<lambda>_. [])"
  using init_ok [of h]
  by (simp add: agree_def ipc_reset_def fifo_on_def IPC_FIFOinit_def less_2_cases_iff chan_def ipc.items_def)

lemma run_agree:
  assumes "agree h a" "list_all (\<lambda>op. op_proc op < 2) ops"
  shows "fst (run ipc_step ops h) = fst (run spec_step ops a) \<and>
    agree (snd (run ipc_step ops h)) (snd (run spec_step ops a))"
  using assms by (induction ops arbitrary: h a) (simp_all add: Let_def split_beta step_agree)

text \<open>
  C9. The queue between the processors refines two channels of at most 16 words: in any sequence of sends,
  receives and control writes of the two processors from the reset on, every receive returns the oldest
  word the other processor has sent and not cleared, or 0 when there is none or the queue is disabled, and
  at the end the flags for empty and full in both control registers are those of the channels.
\<close>
theorem ipc_fifo_refines:
  assumes "list_all (\<lambda>op. op_proc op < 2) ops"
  shows "fst (run ipc_step ops (ipc_reset h)) = fst (run spec_step ops (\<lambda>_. False, \<lambda>_. [])) \<and>
    agree (snd (run ipc_step ops (ipc_reset h))) (snd (run spec_step ops (\<lambda>_. False, \<lambda>_. [])))"
  by (rule run_agree [OF reset_agree assms])

theorem ipc_fifo_refines_witness:
  "\<forall>h. fst (run ipc_step [Cnt 0 0x8000, Cnt 1 0x8000, Send 0 7, Send 0 8, Recv 1, Recv 0] (ipc_reset h)) = [0, 0, 0, 0, 7, 0]"
proof
  fix h
  let ?ops = "[Cnt 0 0x8000, Cnt 1 0x8000, Send 0 7, Send 0 8, Recv 1, Recv 0]"
  have "list_all (\<lambda>op. op_proc op < 2) ?ops" by simp
  from ipc_fifo_refines [OF this, of h]
  have "fst (run ipc_step ?ops (ipc_reset h)) = fst (run spec_step ?ops (\<lambda>_. False, \<lambda>_. []))" ..
  also have "\<dots> = [0, 0, 0, 0, 7, 0]" by (simp add: remote_def)
  finally show "fst (run ipc_step ?ops (ipc_reset h)) = [0, 0, 0, 0, 7, 0]" .
qed

section \<open>Delivery\<close>

text \<open>The words processor \<open>r\<close> receives in a run.\<close>

fun received :: "nat \<Rightarrow> ipc_op list \<Rightarrow> HW \<Rightarrow> u32 list" where
  "received r [] h = []"
| "received r (op # ops) h =
     (if op = Recv r then [fst (ipc_step op h)] else []) @ received r ops (snd (ipc_step op h))"

fun transfer_op :: "ipc_op \<Rightarrow> bool" where
  "transfer_op (Cnt p v) = False" | "transfer_op (Send p v) = (p < 2)" | "transfer_op (Recv p) = (p < 2)"

lemma transfer_on: "transfer_op op \<Longrightarrow> p < 2 \<Longrightarrow> fifo_on (snd (ipc_step op h)) p = fifo_on h p"
  by (cases op) (simp_all add: fifo_on_step)

text \<open>What one transfer does to the channel of \<open>p\<close>: it takes the head, or appends, or nothing.\<close>

lemma transfer_chan:
  assumes "ipc_ok h" "p < 2" "fifo_on h (remote p)" "transfer_op op" "chan h p = ys @ v # zs"
  shows "ipc_ok (snd (ipc_step op h))"
    "op = Recv (remote p) \<Longrightarrow> fst (ipc_step op h) = hd (ys @ v # zs) \<and> chan (snd (ipc_step op h)) p = tl (ys @ v # zs)"
    "op \<noteq> Recv (remote p) \<Longrightarrow> \<exists>zs'. chan (snd (ipc_step op h)) p = ys @ v # zs'"
proof -
  have r: "ipc_ok (snd (IPC_FIFOrecv q h))" "fst (IPC_FIFOrecv q h) = fst (chan_step (Recv q) (fifo_on h) (chan h))"
    "chan (snd (IPC_FIFOrecv q h)) = snd (chan_step (Recv q) (fifo_on h) (chan h))" if "q < 2" for q
    using recv_chan [OF assms(1) that] by (metis fst_conv snd_conv)+
  note s = send_chan [OF assms(1)]
  show "ipc_ok (snd (ipc_step op h))" using assms(4) r(1) s by (cases op) simp_all
  show "op = Recv (remote p) \<Longrightarrow>
      fst (ipc_step op h) = hd (ys @ v # zs) \<and> chan (snd (ipc_step op h)) p = tl (ys @ v # zs)"
    using r [of "remote p"] assms(2,3,5) by simp
  show "\<exists>zs'. chan (snd (ipc_step op h)) p = ys @ v # zs'" if "op \<noteq> Recv (remote p)"
  proof (cases op)
    case (Recv q)
    then have "remote q \<noteq> p" using that assms(2,4) by auto
    then show ?thesis using Recv r(3) [of q] assms(4,5) by auto
  qed (use assms(4,5) s in auto)
qed

lemma delivery:
  assumes "ipc_ok h" "p < 2" "fifo_on h (remote p)" "list_all transfer_op ops" "chan h p = ys @ v # zs"
    and "length ys < length (filter (\<lambda>op. op = Recv (remote p)) ops)"
  shows "received (remote p) ops h ! length ys = v"
  using assms
proof (induction ops arbitrary: h ys zs)
  case (Cons op ops)
  note t = transfer_chan [OF Cons.prems(1-3) _ Cons.prems(5), of op]
  have o: "transfer_op op" "list_all transfer_op ops" using Cons.prems(4) by simp_all
  have on: "fifo_on (snd (ipc_step op h)) (remote p)" using transfer_on [OF o(1)] Cons.prems(3) by simp
  note IH = Cons.IH [OF t(1) [OF o(1)] Cons.prems(2) on o(2)]
  show ?case
  proof (cases "op = Recv (remote p)")
    case True
    show ?thesis
    proof (cases ys)
      case Nil
      then show ?thesis using True t(2) [OF o(1) True] by simp
    next
      case (Cons y ys')
      then show ?thesis using True t(2) [OF o(1) True] IH [of ys' zs] Cons.prems(6) by simp
    qed
  next
    case False
    then obtain zs' where "chan (snd (ipc_step op h)) p = ys @ v # zs'" using t(3) [OF o(1)] by blast
    then show ?thesis using False IH [of ys zs'] Cons.prems(6) by simp
  qed
qed simp

text \<open>
  C14. A word that has been sent is received: when processor \<open>p\<close> sends a word with the queue enabled and \<open>n\<close>
  words waiting, \<open>n < 16\<close>, then in every later run of sends and receives of the two processors, in any
  interleaving, the receive number \<open>n\<close> of the other processor, counted from 0, returns the word.
\<close>
theorem ipc_fifo_delivers:
  assumes "ipc_ok h" "p < 2" "fifo_on h p" "fifo_on h (remote p)" "length (chan h p) < 16"
    and "list_all transfer_op ops"
    and "length (chan h p) < length (filter (\<lambda>op. op = Recv (remote p)) ops)"
  shows "received (remote p) ops (IPC_FIFOsend p v h) ! length (chan h p) = v"
proof (rule delivery [where zs = "[]"])
  show "ipc_ok (IPC_FIFOsend p v h)" "chan (IPC_FIFOsend p v h) p = chan h p @ [v]"
    using send_chan [OF assms(1,2), of v] assms(3,5) by simp_all
qed (use assms in \<open>simp_all add: fifo_on_step\<close>)

text \<open>A reset console with both queues enabled.\<close>

definition ipc_enabled :: "HW \<Rightarrow> HW" where
  "ipc_enabled h = IPC_FIFOcnt 1 0x8000 (IPC_FIFOcnt 0 0x8000 (ipc_reset h))"

theorem ipc_fifo_delivers_witness:
  "\<forall>h. received 1 [Send 1 3, Recv 0, Recv 1, Recv 1] (IPC_FIFOsend 0 9 (IPC_FIFOsend 0 8 (ipc_enabled h))) ! 1 = 9"
proof
  fix h
  have r: "ipc_ok (ipc_reset h)" "\<And>p. p < 2 \<Longrightarrow> chan (ipc_reset h) p = []"
    using reset_agree [of h] by (simp_all add: agree_def)
  have a: "ipc_ok (IPC_FIFOcnt 0 0x8000 (ipc_reset h))" "chan (IPC_FIFOcnt 0 0x8000 (ipc_reset h)) = chan (ipc_reset h)"
    using cnt_chan [OF r(1), of 0 "0x8000"] by simp_all
  have b: "ipc_ok (ipc_enabled h)" "chan (ipc_enabled h) 0 = []"
    using cnt_chan [OF a(1), of 1 "0x8000"] a(2) r(2) by (simp_all add: ipc_enabled_def)
  have on: "fifo_on (ipc_enabled h) p" if "p < 2" for p
    using that by (auto simp: ipc_enabled_def fifo_on_step)
  have c: "ipc_ok (IPC_FIFOsend 0 8 (ipc_enabled h))" "chan (IPC_FIFOsend 0 8 (ipc_enabled h)) 0 = [8]"
    using send_chan [OF b(1), of 0 8] b(2) on by simp_all
  show "received 1 [Send 1 3, Recv 0, Recv 1, Recv 1] (IPC_FIFOsend 0 9 (IPC_FIFOsend 0 8 (ipc_enabled h))) ! 1 = 9"
    using ipc_fifo_delivers [OF c(1), of 0 "[Send 1 3, Recv 0, Recv 1, Recv 1]" 9] c(2) on
    by (simp add: fifo_on_step remote_def)
qed


section \<open>The queue to the geometry engine\<close>

text \<open>The count of matrix commands, and what the status register says of the queue.\<close>

definition gx_ok :: "GFX_FIFO \<Rightarrow> bool" where
  "gx_ok q = (gx_ring q \<and>
     unat (matrix_stack_op_size q) = length (filter (\<lambda>x. IsMatrixStackCommand (fst x)) (gx.items q)))"

definition status_ok :: "HW \<Rightarrow> bool" where
  "status_ok h = (fifo_low (gxstat h) = (length (gx.items (gxFIFO h)) \<le> 127) \<and>
     fifo_empty (gxstat h) = (gx.items (gxFIFO h) = []) \<and>
     gx_sb (gxstat h) = list_ex (\<lambda>x. IsMatrixStackCommand (fst x)) (gx.items (gxFIFO h)))"

lemma trigger_other:
  "gxFIFO (triggerDma m h) = gxFIFO h" "gxstat (triggerDma m h) = gxstat h"
proof -
  have s: "gxFIFO (tryTrigger m p c h) = gxFIFO h" "gxstat (tryTrigger m p c h) = gxstat h" for p c h
    by (simp_all add: tryTrigger_def doSchedule_def NDS_RescheduleDMA_def HW_Reschedule_def upd_dma_def Let_def)
  have "gxFIFO (fold (\<lambda>(p, c). tryTrigger m p c) xs h) = gxFIFO h \<and>
      gxstat (fold (\<lambda>(p, c). tryTrigger m p c) xs h) = gxstat h" for xs
    by (induction xs arbitrary: h) (auto simp: s)
  then show "gxFIFO (triggerDma m h) = gxFIFO h" "gxstat (triggerDma m h) = gxstat h"
    by (simp_all only: triggerDma_def)
qed

lemma events_other: "gxFIFO (GXF_FIFO_handleEvents h) = gxFIFO h"
  by (simp add: GXF_FIFO_handleEvents_def trigger_other HW_Reschedule_def Let_def)

lemma events_gxstat:
  "gxstat (GXF_FIFO_handleEvents h) = (gxstat h)\<lparr>fifo_low := gx_size (gxFIFO h) \<le> 127,
     fifo_empty := gx_size (gxFIFO h) = 0, gx_sb := (matrix_stack_op_size (gxFIFO h) \<noteq> 0)\<rparr>"
  by (cases "gx_size (gxFIFO h) \<le> 127")
    (simp_all add: GXF_FIFO_handleEvents_def trigger_other HW_Reschedule_def Let_def)

lemma events_status:
  assumes "gx_ok (gxFIFO h)"
  shows "status_ok (GXF_FIFO_handleEvents h)"
proof -
  have l: "x \<le> 127 \<longleftrightarrow> unat x \<le> 127" for x :: u32 unfolding word_le_nat_alt by simp
  have n: "gx.items q = [] \<longleftrightarrow> unat (gx_size q) = 0" for q by (simp add: gx.items_def)
  have m: "matrix_stack_op_size (gxFIFO h) \<noteq> 0 \<longleftrightarrow> list_ex (\<lambda>x. IsMatrixStackCommand (fst x)) (gx.items (gxFIFO h))"
  proof -
    have u: "unat (matrix_stack_op_size (gxFIFO h)) =
        length (filter (\<lambda>x. IsMatrixStackCommand (fst x)) (gx.items (gxFIFO h)))"
      using assms by (simp add: gx_ok_def)
    have "matrix_stack_op_size (gxFIFO h) \<noteq> 0 \<longleftrightarrow> unat (matrix_stack_op_size (gxFIFO h)) \<noteq> 0"
      by (simp add: unat_gt_0)
    then show ?thesis unfolding u by (auto simp: filter_empty_conv list_ex_iff)
  qed
  show ?thesis
    unfolding status_ok_def events_other events_gxstat using m n [of "gxFIFO h"] l [of "gx_size (gxFIFO h)"]
    by (simp only: TGXSTAT.simps gx.length_items) (simp add: unat_eq_0)
qed

lemma gx_put_ok:
  assumes "gx_ok q" "length (gx.items q) < 200000"
  shows "gx_ok (gx_put x q)" "gx.items (gx_put x q) = gx.items q @ [x]"
proof -
  have r: "gx_ring q" "unat (gx_size q) < 200000" using assms by (simp_all add: gx_ok_def)
  show i: "gx.items (gx_put x q) = gx.items q @ [x]" by (rule gx.items_put [OF r])
  have "unat (matrix_stack_op_size q) \<le> length (gx.items q)"
    using assms(1) length_filter_le [of "\<lambda>x. IsMatrixStackCommand (fst x)" "gx.items q"] by (simp only: gx_ok_def)
  then have "unat (matrix_stack_op_size q + 1) = Suc (unat (matrix_stack_op_size q))"
    using assms(2) by (intro unat_suc_u32) simp
  moreover have "matrix_stack_op_size (gx_put x q) =
      (if IsMatrixStackCommand (fst x) then matrix_stack_op_size q + 1 else matrix_stack_op_size q)"
    by (simp add: gx_put_def Let_def)
  ultimately show "gx_ok (gx_put x q)" using assms(1) gx.put [OF r, of x] i by (simp add: gx_ok_def)
qed

lemma gx_get_ok:
  assumes "gx_ok q" "0 < unat (gx_size q)"
  shows "gx_ok (gx_get q)" "gx.items q = (gx_cmd q (unat (gx_head q)), gx_param q (unat (gx_head q))) # gx.items (gx_get q)"
proof -
  have r: "gx_ring q" using assms by (simp_all add: gx_ok_def)
  show i: "gx.items q = (gx_cmd q (unat (gx_head q)), gx_param q (unat (gx_head q))) # gx.items (gx_get q)"
    by (rule gx.items_get [OF r assms(2)])
  have "matrix_stack_op_size (gx_get q) =
      (if IsMatrixStackCommand (gx_cmd q (unat (gx_head q))) then matrix_stack_op_size q - 1 else matrix_stack_op_size q)"
    by (simp add: gx_get_def Let_def)
  then show "gx_ok (gx_get q)" using assms(1) gx.get [OF r assms(2)] i
    by (auto simp: gx_ok_def unat_pred split: if_splits)
qed

text \<open>
  C29. The queue to the geometry engine is a list: sending appends the command, unless there are 200000
  already, and receiving takes the first one; the count of matrix commands is exact, and after every
  operation the status register says whether the queue is empty, less than half full and whether a matrix
  command is waiting.
\<close>
theorem gx_fifo_contract:
  assumes "gx_ok (gxFIFO h)"
  shows "gx_ok (gxFIFO (snd (GFX_PIPErecv h))) \<and> status_ok (snd (GFX_PIPErecv h)) \<and>
    (fst (GFX_PIPErecv h), gx.items (gxFIFO (snd (GFX_PIPErecv h)))) =
      (case gx.items (gxFIFO h) of [] \<Rightarrow> (None, []) | x # xs \<Rightarrow> (Some x, xs)) \<and>
    (length (gx.items (gxFIFO h)) < 200000 \<longrightarrow>
      gx_ok (gxFIFO (GFX_FIFOsend cmd param h)) \<and> status_ok (GFX_FIFOsend cmd param h) \<and>
      gx.items (gxFIFO (GFX_FIFOsend cmd param h)) = gx.items (gxFIFO h) @ [(cmd, param)])"
proof -
  let ?q = "gxFIFO h" and ?r = "GFX_PIPErecv h" and ?s = "GFX_FIFOsend cmd param h"
  have recv: "gx_ok (gxFIFO (snd ?r)) \<and> status_ok (snd ?r) \<and>
    (fst ?r, gx.items (gxFIFO (snd ?r))) = (case gx.items ?q of [] \<Rightarrow> (None, []) | x # xs \<Rightarrow> (Some x, xs))"
  proof (cases "gx_size ?q = 0")
    case True
    then have "gx.items ?q = []" by (simp add: gx.items_def)
    then show ?thesis using True events_status [OF assms] assms by (simp add: GFX_PIPErecv_def events_other)
  next
    case False
    then have "0 < unat (gx_size ?q)" by (simp add: unat_gt_0)
    note g = gx_get_ok [OF assms this]
    have "?r = (Some (gx_cmd ?q (unat (gx_head ?q)), gx_param ?q (unat (gx_head ?q))),
        GXF_FIFO_handleEvents (h\<lparr>gxFIFO := gx_get ?q\<rparr>))"
      using False by (simp add: GFX_PIPErecv_def Let_def)
    moreover have "status_ok (GXF_FIFO_handleEvents (h\<lparr>gxFIFO := gx_get ?q\<rparr>))" using g(1) by (intro events_status) simp
    ultimately show ?thesis unfolding g(2) using g(1) by (simp add: events_other)
  qed
  have s: "status_ok (NDS_RescheduleGXFIFO n h) = status_ok h" "gxFIFO (NDS_RescheduleGXFIFO n h) = gxFIFO h" for n h
    by (simp_all add: status_ok_def NDS_RescheduleGXFIFO_def HW_Reschedule_def Let_def)
  have send: "gx_ok (gxFIFO ?s) \<and> status_ok ?s \<and> gx.items (gxFIFO ?s) = gx.items ?q @ [(cmd, param)]"
    if "length (gx.items ?q) < 200000"
  proof -
    note p = gx_put_ok [OF assms that, of "(cmd, param)"]
    have "status_ok (GXF_FIFO_handleEvents (h\<lparr>gxFIFO := gx_put (cmd, param) ?q\<rparr>))"
      using p(1) by (intro events_status) simp
    then show ?thesis using p by (simp add: GFX_FIFOsend_def s events_other)
  qed
  show ?thesis using recv send by blast
qed

lemma gx_clear_ok: "gx_ok (gxFIFO (GFX_FIFOclear h))" "gx.items (gxFIFO (GFX_FIFOclear h)) = []"
  by (simp_all add: gx_ok_def gx_ring_def GFX_FIFOclear_def gx.items_def)

theorem gx_fifo_contract_witness:
  "\<forall>h. fst (GFX_PIPErecv (GFX_FIFOsend 0x11 5 (GFX_FIFOclear h))) = Some (0x11, 5)"
proof
  fix h
  let ?h = "GFX_FIFOsend 0x11 5 (GFX_FIFOclear h)"
  have "gx_ok (gxFIFO ?h)" "gx.items (gxFIFO ?h) = [(0x11, 5)]"
    using gx_fifo_contract [OF gx_clear_ok(1), of h "0x11" 5] gx_clear_ok(2) [of h] by simp_all
  then show "fst (GFX_PIPErecv ?h) = Some (0x11, 5)" using gx_fifo_contract [of ?h 0 0] by simp
qed
end
