(* ===== verification/MathUnit.thy ===== *)
theory MathUnit
  imports Hardware "HOL-Library.Signed_Division"
begin

text \<open>
  The division and square root unit: \<open>isqrt\<close>, \<open>execsqrt\<close> and \<open>execdiv\<close> of \<^verbatim>\<open>MMU.cpp\<close>, the controllers of
  \<^verbatim>\<open>MMU.h\<close>, and the two sequencer items of \<^verbatim>\<open>NDSSystem.cpp\<close> that deliver the results (the build for a
  32-bit host, which writes two words). An operand is written to the registers of the ARM9 and the
  calculation is started; the result is there when the unit has finished.

  Dividing the least 64-bit number by -1 has no defined result in C and raises an arithmetic exception on a
  PC: \<open>execdiv\<close> returns \<open>None\<close> then. A signed 64-bit variable is a word, compared with the signed order;
  \<open>sdiv\<close> and \<open>smod\<close> round towards zero as C does.
\<close>

section \<open>Square root\<close>

lemma drop_2_less: "x \<noteq> 0 \<Longrightarrow> unat (drop_bit 2 x) < unat x" for x :: u64
  unfolding unat_drop_bit_eq by (simp add: drop_bit_eq_div unat_gt_0)

function isqrt_loop :: "u64 \<Rightarrow> u64 \<Rightarrow> u64 \<Rightarrow> u64" where
  "isqrt_loop squaredbit rmd root =
     (if squaredbit = 0 then root
      else if rmd \<ge> squaredbit OR root
      then isqrt_loop (drop_bit 2 squaredbit) (rmd - (squaredbit OR root)) (drop_bit 1 root OR squaredbit)
      else isqrt_loop (drop_bit 2 squaredbit) rmd (drop_bit 1 root))"
  by pat_completeness auto

termination by (relation "measure (\<lambda>(squaredbit, rmd, root). unat squaredbit)") 
  (simp_all only: wf_measure in_measure case_prod_conv drop_2_less not_False_eq_True)

declare isqrt_loop.simps [simp del]

definition isqrt :: "u64 \<Rightarrow> u64" where
  "isqrt x = (if x < 1 then 0 else isqrt_loop (drop_bit 1 (- 1) AND NOT (drop_bit 2 (- 1))) x 0)"

definition SqrtController_write16 :: "u16 \<Rightarrow> SqrtController \<Rightarrow> SqrtController" where
  "SqrtController_write16 val c = c\<lparr>sqrt_mode := ucast (val AND 1)\<rparr>"

definition SqrtController_read16 :: "SqrtController \<Rightarrow> u16" where
  "SqrtController_read16 c = ucast (sqrt_mode c) OR (if sqrt_busy c then push_bit 15 1 else 0)"

definition execsqrt :: "HW \<Rightarrow> HW" where
  "execsqrt h =
     (let h = h\<lparr>sqrtunit := (sqrtunit h)\<lparr>sqrt_busy := True\<rparr>\<rparr>;
          ret = (if sqrt_mode (sqrtunit h) \<noteq> 0 then ucast (isqrt (T1ReadQuad (REG h 0) 0x2B8))
                 else ucast (isqrt (ucast (T1ReadLong (REG h 0) 0x2B8))));
          h = upd_REG 0 (\<lambda>r. T1WriteLong r 0x2B4 0) h in
      HW_Reschedule (h\<lparr>sqrtCycles := nds_timer h + 26, sqrtResult := ret, sqrtRunning := True\<rparr>))"

definition sqrtunit_isTriggered :: "HW \<Rightarrow> bool" where
  "sqrtunit_isTriggered h = (sqrtRunning h \<and> nds_timer h \<ge> sqrtCycles h)"

definition sqrtunit_exec :: "HW \<Rightarrow> HW" where
  "sqrtunit_exec h =
     (upd_REG 0 (\<lambda>r. T1WriteLong r 0x2B4 (sqrtResult h)) (h\<lparr>sqrtunit := (sqrtunit h)\<lparr>sqrt_busy := False\<rparr>\<rparr>))
        \<lparr>sqrtRunning := False\<rparr>"

section \<open>Division\<close>

definition DivController_write16 :: "u16 \<Rightarrow> DivController \<Rightarrow> DivController" where
  "DivController_write16 val c = c\<lparr>div_mode := ucast (val AND 3)\<rparr>"

definition DivController_read16 :: "DivController \<Rightarrow> u16" where
  "DivController_read16 c =
     ucast (div_mode c) OR (if div_busy c then push_bit 15 1 else 0) OR (if div0 c then push_bit 14 1 else 0)"

text \<open>Numerator, denominator and time of the three modes.\<close>

definition div_operands :: "HW \<Rightarrow> u64 \<times> u64 \<times> u64" where
  "div_operands h =
     (let mode = div_mode (divider h);
          num32 = scast (T1ReadLong (REG h 0) 0x290); num64 = T1ReadQuad (REG h 0) 0x290;
          den32 = scast (T1ReadLong (REG h 0) 0x298); den64 = T1ReadQuad (REG h 0) 0x298 in
      if mode = 0 then (num32, den32, 36)
      else if mode = 1 \<or> mode = 3 then (num64, den32, 68)
      else (num64, den64, 68))"

definition execdiv :: "HW \<Rightarrow> HW option" where
  "execdiv h =
     (let h = h\<lparr>divider := (divider h)\<lparr>div_busy := True, div0 := False\<rparr>\<rparr>;
          (num, den, time) = div_operands h;
          h = h\<lparr>divCycles := nds_timer h + time\<rparr> in do {
      (res, rmd, h) \<leftarrow>
        (if den = 0 then
           Some (if num <s 0 then 1 else - 1, num,
             if T1ReadQuad (REG h 0) 0x298 = 0 then h\<lparr>divider := (divider h)\<lparr>div0 := True\<rparr>\<rparr> else h)
         else if num = push_bit 63 1 \<and> den = - 1 then None
         else Some (word_of_int (sint num sdiv sint den), word_of_int (sint num smod sint den), h));
      let h = upd_REG 0 (\<lambda>r. T1WriteLong (T1WriteLong (T1WriteLong (T1WriteLong r 0x2A0 0) 0x2A4 0) 0x2A8 0) 0x2AC 0) h;
      Some (HW_Reschedule (h\<lparr>divResult := res, divMod := rmd, divRunning := True\<rparr>))
     })"

definition divider_isTriggered :: "HW \<Rightarrow> bool" where
  "divider_isTriggered h = (divRunning h \<and> nds_timer h \<ge> divCycles h)"

definition divider_exec :: "HW \<Rightarrow> HW" where
  "divider_exec h =
     (upd_REG 0 (\<lambda>r. T1WriteLong (T1WriteLong (T1WriteLong (T1WriteLong r 0x2A0 (ucast (divResult h)))
          0x2A4 (ucast (drop_bit 32 (divResult h)))) 0x2A8 (ucast (divMod h))) 0x2AC (ucast (drop_bit 32 (divMod h))))
        (h\<lparr>divider := (divider h)\<lparr>div_busy := False\<rparr>\<rparr>))\<lparr>divRunning := False\<rparr>"

text \<open>The writes of the processor that start a calculation, by the address of the register.\<close>

definition write_math :: "u32 \<Rightarrow> u32 \<Rightarrow> HW \<Rightarrow> HW option" where
  "write_math adr val h =
     (if adr \<in> {0x290, 0x294, 0x298, 0x29C} then execdiv (upd_REG 0 (\<lambda>r. T1WriteLong r adr val) h)
      else if adr \<in> {0x2B8, 0x2BC} then Some (execsqrt (upd_REG 0 (\<lambda>r. T1WriteLong r adr val) h))
      else Some h)"

end
