(* ===== verification/MathProperties.thy ===== *)
theory MathProperties
  imports MathUnit MmuCorrect
begin

text \<open>
  The properties of the division and square root unit: the loop computes the integer square root of every
  64-bit number, and division delivers quotient and remainder rounded towards zero.
\<close>

section \<open>Square root\<close>

text \<open>A bit and a number with no bits up to it: \<open>OR\<close> is addition.\<close>

lemma or_plus_nat: "2 ^ Suc m dvd b \<Longrightarrow> 2 ^ m OR b = 2 ^ m + b" for b :: nat
proof -
  assume "2 ^ Suc m dvd b"
  then obtain c where b: "b = 2 ^ m * (2 * c)" by (auto simp: dvd_def mult.assoc mult.left_commute)
  have "\<not> bit b m" by (simp add: b bit_iff_odd)
  then have "2 ^ m AND b = 0" by (intro bit_eqI) (auto simp: bit_and_iff bit_exp_iff)
  then show ?thesis by (simp add: disjunctive_add_eq_or)
qed

lemma unat_or_plus:
  fixes x root :: u64
  assumes "unat x = 2 ^ m" "2 ^ Suc m dvd unat root"
  shows "unat (x OR root) = 2 ^ m + unat root"
  using or_plus_nat [OF assms(2)] assms(1) by (simp add: unsigned_or_eq)

text \<open>
  The invariant of the loop, before the bit \<open>4 ^ k\<close> is tried: \<open>r\<close> are the bits of the root found so far, the
  variable \<open>root\<close> holds them shifted to the left, and the remainder is what their square leaves.
\<close>

definition root_inv :: "nat \<Rightarrow> nat \<Rightarrow> u64 \<Rightarrow> u64 \<Rightarrow> nat \<Rightarrow> bool" where
  "root_inv n k rmd root r =
     (2 ^ k dvd r \<and> unat root = r * 2 ^ k \<and> unat rmd + r ^ 2 = n \<and> n < (r + 2 ^ k) ^ 2)"

lemma drop_bit_unat: "unat (drop_bit j x) = unat x div 2 ^ j" for x :: u64
  by (simp only: unat_drop_bit_eq drop_bit_eq_div [where ?'a = nat])

lemma root_step:
  assumes inv: "root_inv n (Suc k) rmd root r" and bit: "unat squaredbit = 4 ^ k"
  shows "rmd \<ge> squaredbit OR root \<Longrightarrow>
      root_inv n k (rmd - (squaredbit OR root)) (drop_bit 1 root OR squaredbit) (r + 2 ^ k)"
    and "\<not> rmd \<ge> squaredbit OR root \<Longrightarrow> root_inv n k rmd (drop_bit 1 root) r"
proof -
  obtain c where c: "r = 2 ^ Suc k * c" using inv by (auto simp: root_inv_def)
  have four: "(4::nat) ^ k = 2 ^ (2 * k)" by (simp add: power_mult)
  have root: "unat root = 2 * (r * 2 ^ k)" using inv by (simp add: root_inv_def)
  have h: "unat (drop_bit 1 root) = r * 2 ^ k" by (simp add: drop_bit_unat root)
  have d: "2 ^ Suc (2 * k) dvd r * 2 ^ k" 
    by (rule dvdI [of _ _ c]) (simp add: c power_add algebra_simps flip: power_add power_mult mult_2)
  then have "2 ^ Suc (2 * k) dvd unat root" unfolding root by (rule dvd_mult)
  then have sum: "unat (squaredbit OR root) = 4 ^ k + 2 * (r * 2 ^ k)"
    using unat_or_plus [of squaredbit "2 * k" root] bit by (simp add: four root)
  have sq: "(r + 2 ^ k) ^ 2 = r ^ 2 + (4 ^ k + 2 * (r * 2 ^ k))"
    by (simp add: power2_sum four power_mult [symmetric] mult.commute)
  have new: "unat (drop_bit 1 root OR squaredbit) = (r + 2 ^ k) * 2 ^ k"
  proof -
    have "unat (squaredbit OR drop_bit 1 root) = 2 ^ (2 * k) + unat (drop_bit 1 root)"
      by (rule unat_or_plus) (use bit d in \<open>simp_all only: h four\<close>)
    then show ?thesis by (simp only: or.commute [of "drop_bit 1 root"] h add_mult_distrib mult_2 power_add add.commute)
  qed
  have dv: "2 ^ k dvd r" "2 ^ k dvd r + 2 ^ k" by (simp_all add: c)
  have up: "r + 2 ^ k + 2 ^ k = r + 2 ^ Suc k" by simp
  have old: "unat rmd + r ^ 2 = n" "n < (r + 2 ^ Suc k) ^ 2" using inv by (simp_all add: root_inv_def)
  show "rmd \<ge> squaredbit OR root \<Longrightarrow>
      root_inv n k (rmd - (squaredbit OR root)) (drop_bit 1 root OR squaredbit) (r + 2 ^ k)"
    unfolding root_inv_def new up using dv old by (simp add: unat_sub word_le_nat_alt sum sq del: power_Suc)
  show "\<not> rmd \<ge> squaredbit OR root \<Longrightarrow> root_inv n k rmd (drop_bit 1 root) r"
    unfolding root_inv_def h sq using dv old by (simp add: word_le_nat_alt sum)
qed

lemma root_loop:
  assumes "root_inv n k rmd root r" "unat squaredbit = (if k = 0 then 0 else 4 ^ (k - 1))"
  shows "unat (isqrt_loop squaredbit rmd root) ^ 2 \<le> n \<and> n < (unat (isqrt_loop squaredbit rmd root) + 1) ^ 2"
  using assms
proof (induction k arbitrary: squaredbit rmd root r)
  case 0
  have "squaredbit = 0" using 0(2) by (simp add: unat_eq_zero)
  then show ?case using 0(1) by (subst isqrt_loop.simps, subst (2) isqrt_loop.simps) (auto simp: root_inv_def)
next
  case (Suc k)
  have b: "unat squaredbit = 4 ^ k" using Suc.prems(2) by simp
  then have nz: "squaredbit \<noteq> 0" by (metis power_eq_0_iff unsigned_0 zero_neq_numeral)
  have next_bit: "unat (drop_bit 2 squaredbit) = (if k = 0 then 0 else 4 ^ (k - 1))"
    by (cases k) (simp_all add: drop_bit_unat b)
  show ?case
  proof (cases "rmd \<ge> squaredbit OR root")
    case True
    show ?thesis using Suc.IH [OF root_step(1) [OF Suc.prems(1) b True] next_bit] nz True
      by (subst isqrt_loop.simps, subst (2) isqrt_loop.simps) simp
  next
    case False
    show ?thesis using Suc.IH [OF root_step(2) [OF Suc.prems(1) b False] next_bit] nz False
      by (subst isqrt_loop.simps, subst (2) isqrt_loop.simps) simp
  qed
qed

lemma first_bit: "(drop_bit 1 (- 1) AND NOT (drop_bit 2 (- 1)) :: u64) = 0x4000000000000000"
  by code_simp

text \<open>
  C22. \<open>isqrt\<close> computes the integer square root of every 64-bit number: the largest number whose square is
  not larger. The loop always ends.
\<close>
theorem isqrt_correct: "unat (isqrt x) ^ 2 \<le> unat x \<and> unat x < (unat (isqrt x) + 1) ^ 2"
proof (cases "x < 1")
  case True
  then have "x = 0" by (simp add: word_less_nat_alt unat_eq_zero)
  then show ?thesis by (simp add: isqrt_def)
next
  case False
  have "unat x < 2 ^ 64" using unsigned_less [of x] by simp
  then have "root_inv (unat x) 32 x 0 0" by (simp add: root_inv_def)
  moreover have "unat (drop_bit 1 (- 1) AND NOT (drop_bit 2 (- 1)) :: u64) = (if (32::nat) = 0 then 0 else 4 ^ (32 - 1))"
    by (simp only: first_bit) simp
  ultimately show ?thesis using False root_loop by (simp only: isqrt_def if_False)
qed


section \<open>Division\<close>

text \<open>A quadword is two words.\<close>

lemma byte_bit64: "bit (push_bit k (ucast b) :: u64) n = (k \<le> n \<and> n < 64 \<and> bit b (n - k))" for b :: byte
  by (auto simp: bit_simps dest: bit_imp_le_length)

lemma byte_bit32: "bit (push_bit k (ucast b) :: u32) n = (k \<le> n \<and> n < 32 \<and> bit b (n - k))" for b :: byte
  by (auto simp: bit_simps dest: bit_imp_le_length)

lemma word_bit64: "bit (push_bit k (ucast b) :: u64) n = (k \<le> n \<and> n < 64 \<and> bit b (n - k))" for b :: u32
  by (auto simp: bit_simps dest: bit_imp_le_length)

lemma quad_longs:
  assumes "unat (a + 4) = unat a + 4"
  shows "T1ReadQuad m a = push_bit 32 (ucast (T1ReadLong_guaranteedAligned m (a + 4))) OR
    ucast (T1ReadLong_guaranteedAligned m a)"
proof (rule bit_word_eqI)
  fix n :: nat assume "n < LENGTH(64)"
  then have n: "n < 64" by simp
  have b: "\<not> bit x j" if "8 \<le> j" for x :: byte and j
    using that by (auto dest: bit_imp_le_length)
  note low = byte_bit64 [of 0, unfolded push_bit_0_id id_apply]
    byte_bit32 [of 0, unfolded push_bit_0_id id_apply] word_bit64 [of 0, unfolded push_bit_0_id id_apply]
  have sub: "j \<le> n - 32 \<longleftrightarrow> n < 32 \<and> j = 0 \<or> 32 \<le> n \<and> j + 32 \<le> n" "n - 32 < 32" for j using n by auto
  have ad: "unat a + 4 + j = unat a + (4 + j)" for j by simp
  show "bit (T1ReadQuad m a) n = bit (push_bit 32 (ucast (T1ReadLong_guaranteedAligned m (a + 4))) OR
    ucast (T1ReadLong_guaranteedAligned m a) :: u64) n"
    unfolding T1ReadQuad_def T1ReadLong_guaranteedAligned_def assms bit_or_iff byte_bit64 byte_bit32 word_bit64 low ad
      diff_diff_left add_numeral_left
    using n by (cases "n < 8"; cases "n < 16"; cases "n < 24"; cases "n < 32"; cases "n < 40"; cases "n < 48"; cases "n < 56") (simp_all add: b sub)
qed

lemma quad_halves: "push_bit 32 (ucast (ucast (drop_bit 32 v) :: u32)) OR ucast (ucast v :: u32) = v" for v :: u64
  by (rule bit_word_eqI) (auto simp: bit_simps)


text \<open>The registers of the result after \<open>divider_exec\<close>, and division towards zero.\<close>

lemma result_registers:
  "T1ReadQuad (REG (divider_exec h) 0) 0x2A0 = divResult h"
  "T1ReadQuad (REG (divider_exec h) 0) 0x2A8 = divMod h"
  by (simp_all add: divider_exec_def upd_REG_def quad_longs read_write_long read_write_other quad_halves)


lemma signed_word:
  assumes "- (2 ^ 63) \<le> k" "k < 2 ^ 63"
  shows "sint (word_of_int k :: u64) = k"
  using assms by (simp add: signed_of_int signed_take_bit_int_eq_self)

lemma signed_bounds: "- (2 ^ 63) \<le> sint (x :: u64)" "sint (x :: u64) < 2 ^ 63"
  using sint_greater_eq [of x] sint_less [of x] by simp_all

lemma quotient_word:
  fixes num den :: u64
  assumes "den \<noteq> 0" "\<not> (num = push_bit 63 1 \<and> den = - 1)"
  shows "sint (word_of_int (sint num sdiv sint den) :: u64) = sint num sdiv sint den"
    and "sint (word_of_int (sint num smod sint den) :: u64) = sint num smod sint den"
proof -
  have d: "sint den \<noteq> 0" using assms(1) signed_word_eqI [of den 0] by auto
  have q: "\<bar>sint num sdiv sint den\<bar> \<le> \<bar>sint num\<bar>" using sdiv_int_range [of "sint num" "sint den"] by auto
  have "sint num sdiv sint den \<noteq> 2 ^ 63"
  proof
    assume e: "sint num sdiv sint den = 2 ^ 63"
    then have "2 ^ 63 \<le> \<bar>sint num\<bar>" using q by simp
    then have n: "sint num = - (2 ^ 63)" using signed_bounds [of num] by linarith
    then have "sint den = - 1" using e int_sdiv_negated_is_minus1 [of "sint num" "sint den"] by simp
    then have "den = - 1" by (metis sint_n1 signed_word_eqI)
    moreover have "num = push_bit 63 1" by (rule signed_word_eqI) (use n in simp)
    ultimately show False using assms(2) by blast
  qed
  then show "sint (word_of_int (sint num sdiv sint den) :: u64) = sint num sdiv sint den"
    by (intro signed_word) (use q signed_bounds [of num] in linarith)+
  show "sint (word_of_int (sint num smod sint den) :: u64) = sint num smod sint den"
    by (intro signed_word) (use smod_int_range [OF d, of "sint num"] signed_bounds [of den] in auto)
qed


text \<open>A calculation from its start to the delivery of the result.\<close>

text \<open>
  C30. Division is complete: unless the least number is divided by -1, the unit starts, is busy and has zero
  in its result registers until the time of the mode has passed, and then delivers. With a divisor other than
  zero, quotient and remainder satisfy the division law with the sign of the numerator and a remainder
  smaller than the divisor; dividing by zero yields 1 or -1 and the numerator. The error flag says that
  all 64 bits of the register of the divisor are zero, provided that the operand itself is zero.
\<close>
theorem division_correct:
  assumes "div_operands h = (num, den, time)" "\<not> (num = push_bit 63 1 \<and> den = - 1)"
  shows "\<exists>h'. execdiv h = Some h' \<and>
    (\<forall>t. divider_isTriggered (h'\<lparr>nds_timer := t\<rparr>) = (nds_timer h + time \<le> t)) \<and>
    bit (DivController_read16 (divider h')) 15 \<and>
    T1ReadQuad (REG h' 0) 0x2A0 = 0 \<and> T1ReadQuad (REG h' 0) 0x2A8 = 0 \<and>
    div0 (divider h') = (den = 0 \<and> T1ReadQuad (REG h 0) 0x298 = 0) \<and>
    (let quotient = sint (T1ReadQuad (REG (divider_exec h') 0) 0x2A0);
         remainder = sint (T1ReadQuad (REG (divider_exec h') 0) 0x2A8) in
     if den = 0 then quotient = (if sint num < 0 then 1 else - 1) \<and> remainder = sint num
     else sint num = quotient * sint den + remainder \<and> \<bar>remainder\<bar> < \<bar>sint den\<bar> \<and>
       (remainder = 0 \<or> sgn remainder = sgn (sint num)))"
proof -
  have flag: "bit (DivController_read16 c) 15" if "div_busy c" for c
    using that by (simp add: DivController_read16_def bit_simps)
  have ops: "div_operands (h\<lparr>divider := (divider h)\<lparr>div_busy := True, div0 := False\<rparr>\<rparr>) = (num, den, time)"
    using assms(1) by (simp add: div_operands_def Let_def)
  note clear = upd_REG_def quad_longs read_write_long read_write_other HW_Reschedule_def divider_isTriggered_def flag
  show ?thesis
  proof (cases "den = 0")
    case True
    then show ?thesis unfolding execdiv_def Let_def ops
      by (simp add: clear result_registers word_sless_alt Let_def)
  next
    case False
    then have d: "sint den \<noteq> 0" using signed_word_eqI [of den 0] by (metis signed_0)
    have "sgn (sint num smod sint den) = sgn (sint num)" if "sint num smod sint den \<noteq> 0"
    proof -
      have "\<bar>sint num\<bar> mod \<bar>sint den\<bar> \<noteq> 0" using that by (auto simp: smod_int_alt_def)
      moreover have "0 \<le> \<bar>sint num\<bar> mod \<bar>sint den\<bar>"
        using d by (intro pos_mod_sign) simp
      ultimately show ?thesis by (simp add: smod_int_alt_def sgn_mult)
    qed
    moreover have "\<bar>sint num smod sint den\<bar> < \<bar>sint den\<bar>"
      using smod_int_range [OF d, of "sint num"] by auto
    ultimately show ?thesis unfolding execdiv_def Let_def ops using False assms(2)
      by (auto simp: clear result_registers quotient_word sdiv_mult_smod_eq)
  qed
qed


text \<open>-7 divided by 2 in the mode for 32 bits: the quotient is -3 and the remainder -1.\<close>

definition division_example :: "HW \<Rightarrow> HW" where
  "division_example h =
     (let mem = (\<lambda>k. if k = 0x290 then 0xF9 else if 0x290 < k \<and> k \<le> 0x297 then 0xFF
                     else if k = 0x298 then 2 else 0) in
      h\<lparr>divider := \<lparr>div_mode = 0, div_busy = False, div0 = False\<rparr>, REG := (\<lambda>_. mem), nds_timer := 10\<rparr>)"

lemma division_example_operands: "div_operands (division_example h) = (- 7, 2, 36)"
  by (simp add: div_operands_def division_example_def Let_def T1ReadLong_def T1ReadLong_guaranteedAligned_def)

theorem division_correct_witness:
  "\<forall>h. \<exists>h'. execdiv (division_example h) = Some h' \<and>
    (let quotient = sint (T1ReadQuad (REG (divider_exec h') 0) 0x2A0);
         remainder = sint (T1ReadQuad (REG (divider_exec h') 0) 0x2A8) in
     - 7 = quotient * 2 + remainder \<and> \<bar>remainder\<bar> < 2 \<and> (remainder = 0 \<or> sgn remainder = - 1))"
  using division_correct [OF division_example_operands] by (auto simp: Let_def)

end
