(* ===== verification/IoRegs.thy ===== *)
theory IoRegs
  imports Fifo "HOL-Library.Signed_Division"
begin

text \<open>
  The synchronisation register of the two processors and the four timers of each: \<open>MMU_IPCSync\<close>,
  \<open>read_timer\<close> and \<open>write_timer\<close> of \<^verbatim>\<open>MMU.cpp\<close>, and the item of the sequencer that lets a timer overflow
  (\<open>TSequenceItem_Timer\<close> of \<^verbatim>\<open>NDSSystem.cpp\<close>).

  A timer counts up, from its reload value to the overflow at 65536, one step every \<open>2 ^ timerMODE\<close> cycles
  of \<open>nds_timer\<close>. The emulator stores when the overflow is due (\<open>timerCycle\<close>) and computes the count from it. A
  timer of the mode 0xFFFF is chained: it counts the overflows of the timer before it.
\<close>

section \<open>Synchronisation\<close>

definition IPCSYNC_IRQ_SEND :: u32 where "IPCSYNC_IRQ_SEND = 0x2000"
definition IPCSYNC_IRQ_RECV :: u32 where "IPCSYNC_IRQ_RECV = 0x4000"

text \<open>The answers for a program that looks for the emulator Ensata; a wrong value is only reported.\<close>

definition ensata_sync :: "nat \<Rightarrow> u32 \<Rightarrow> u32 \<times> u32 \<times> HW \<Rightarrow> u32 \<times> u32 \<times> HW" where
  "ensata_sync p val = (\<lambda>(sync_l, sync_r, h).
     if ensataEmulation h \<and> p = 1 \<and> ensataIpcSyncCounter h < 9 then
       (let iteration = drop_bit 8 (val AND 0x0F00);
            h = (if iteration = 8 - ensataIpcSyncCounter h
                 then h\<lparr>ensataIpcSyncCounter := ensataIpcSyncCounter h + 1\<rparr> else h) in
        (sync_l AND 0xFFF0 OR iteration, sync_r AND 0xF0FF OR push_bit 8 iteration, h))
     else (sync_l, sync_r, h))"

definition MMU_IPCSync :: "nat \<Rightarrow> u32 \<Rightarrow> HW \<Rightarrow> HW" where
  "MMU_IPCSync p val h =
     (let sync_l = T1ReadLong (REG h p) 0x180 AND 0xFFFF;
          sync_r = T1ReadLong (REG h (remote p)) 0x180 AND 0xFFFF;
          sync_l = (sync_l AND 0x000F) OR (val AND 0x0F00);
          sync_r = (sync_r AND 0x6F00) OR (drop_bit 8 val AND 0x000F);
          sync_l = sync_l OR (val AND 0x6000);
          (sync_l, sync_r, h) = ensata_sync p val (sync_l, sync_r, h);
          h = upd_REG (remote p) (\<lambda>r. T1WriteLong r 0x180 sync_r) (upd_REG p (\<lambda>r. T1WriteLong r 0x180 sync_l) h);
          h = (if sync_l AND IPCSYNC_IRQ_SEND \<noteq> 0 \<and> sync_r AND IPCSYNC_IRQ_RECV \<noteq> 0
               then NDS_makeIrq (remote p) IRQ_BIT_IPCSYNC h else h) in
      HW_Reschedule h)"

section \<open>Timers\<close>

text \<open>A value for one timer in a table of all timers.\<close>

definition upd_timer :: "nat \<Rightarrow> nat \<Rightarrow> 'a \<Rightarrow> (nat \<Rightarrow> nat \<Rightarrow> 'a) \<Rightarrow> nat \<Rightarrow> nat \<Rightarrow> 'a" where
  "upd_timer p i x f = f(p := (f p)(i := x))"

definition read_timer :: "nat \<Rightarrow> nat \<Rightarrow> HW \<Rightarrow> u16" where
  "read_timer p i h =
     (if timerMODE h p i = 0xFFFF then timer h p i
      else if \<not> timerON h p i then timer h p i
      else
        (let diff = sint (ucast (timerCycle h p i - nds_timer h) :: u32);
             units = diff sdiv (2 ^ timerMODE h p i) in
         if units = 65536 then 0
         else if units > 65536 then 0
         else word_of_int (65535 - units)))"

text \<open>
  \<open>remain << timerMODE\<close>: the cycles from the reload value to the overflow. For a chained timer the C code
  shifts by 0xFFFF, which is undefined; \<open>ub\<close> is the value that results. It is stored as the time of an overflow
  that never happens, because a chained timer is not an item of the sequencer.
\<close>

definition timer_period :: "u64 \<Rightarrow> nat \<Rightarrow> nat \<Rightarrow> HW \<Rightarrow> u64" where
  "timer_period ub p i h =
     (if timerMODE h p i = 0xFFFF then ub
      else push_bit (timerMODE h p i) (of_nat (65536 - unat (timerReload h p i))))"

definition timer_mode :: "u16 \<Rightarrow> nat" where
  "timer_mode val =
     (let k = val AND 7 in
      if k = 0 then 0 + 1 else if k = 1 then 6 + 1 else if k = 2 then 8 + 1 else if k = 3 then 10 + 1 else 0xFFFF)"

definition write_timer :: "u64 \<Rightarrow> nat \<Rightarrow> nat \<Rightarrow> u16 \<Rightarrow> HW \<Rightarrow> HW" where
  "write_timer ub p i val h =
     (let h = (if val AND 0x80 \<noteq> 0 then h\<lparr>timer := upd_timer p i (timerReload h p i) (timer h)\<rparr>
               else if timerON h p i then h\<lparr>timer := upd_timer p i (read_timer p i h) (timer h)\<rparr> else h);
          h = h\<lparr>timerON := upd_timer p i (val AND 0x80 \<noteq> 0) (timerON h)\<rparr>;
          h = h\<lparr>timerMODE := upd_timer p i (timer_mode val) (timerMODE h)\<rparr>;
          h = h\<lparr>timerCycle := upd_timer p i (nds_timer h + timer_period ub p i h) (timerCycle h)\<rparr>;
          h = upd_REG p (\<lambda>r. T1WriteWord r (0x102 + of_nat i * 4) val) h in
      NDS_RescheduleTimers h)"

section \<open>Overflow\<close>

definition timer_isTriggered :: "nat \<Rightarrow> nat \<Rightarrow> HW \<Rightarrow> bool" where
  "timer_isTriggered p num h = (timer_enabled h p num \<and> nds_timer h \<ge> timerCycle h p num)"

text \<open>The inner loop, which would run forever when the addition wraps around.\<close>

partial_function (option) catch_up :: "u64 \<Rightarrow> u64 \<Rightarrow> u64 \<Rightarrow> u64 option" where
  "catch_up period now cycle =
     (if cycle \<le> now then catch_up period now (cycle + period) else Some cycle)"

definition timer_over :: "nat \<Rightarrow> nat \<Rightarrow> HW \<Rightarrow> HW" where
  "timer_over p i h =
     (let h = h\<lparr>timer := upd_timer p i (timerReload h p i) (timer h)\<rparr> in
      if T1ReadWord (REG h p) (0x102 + of_nat i * 4) AND 0x40 \<noteq> 0
      then NDS_makeIrq p (IRQ_BIT_TIMER_0 + i) h else h)"

fun timer_chain :: "nat \<Rightarrow> bool \<Rightarrow> nat list \<Rightarrow> HW \<Rightarrow> HW option" where
  "timer_chain p first [] h = Some h"
| "timer_chain p first (i # is) h =
     (if \<not> timerON h p i then Some h
      else if timerMODE h p i = 0xFFFF then
        (let h = h\<lparr>timer := upd_timer p i (timer h p i + 1) (timer h)\<rparr> in
         if timer h p i = 0 then timer_chain p first is (timer_over p i h) else Some h)
      else if \<not> first then Some h
      else do {
        cycle \<leftarrow> catch_up (timer_period 0 p i h) (nds_timer h) (timerCycle h p i);
        timer_chain p False is (timer_over p i (h\<lparr>timerCycle := upd_timer p i cycle (timerCycle h)\<rparr>))
      })"

definition timer_exec :: "nat \<Rightarrow> nat \<Rightarrow> HW \<Rightarrow> HW option" where
  "timer_exec p num h = timer_chain p True [num..<4] h"

end
