(* ===== verification/TimerProperties.thy ===== *)
theory TimerProperties
  imports IoRegs FifoCorrect
begin

text \<open>
  The properties of the timers: what a running timer reads, when it overflows, and that a row of chained
  timers counts as one number with several digits.
\<close>

section \<open>The modes\<close>


lemma timer_mode_cases: "timer_mode val \<le> 11 \<or> timer_mode val = 0xFFFF"
  by (simp add: timer_mode_def Let_def)

lemma write_timer_fields:
  "timerMODE (write_timer ub p i val h) = upd_timer p i (timer_mode val) (timerMODE h)"
  "timerON (write_timer ub p i val h) = upd_timer p i (val AND 0x80 \<noteq> 0) (timerON h)"
  "timerReload (write_timer ub p i val h) = timerReload h"
  "nds_timer (write_timer ub p i val h) = nds_timer h"
  "timerCycle (write_timer ub p i val h) p i =
     nds_timer h + (if timer_mode val = 0xFFFF then ub
       else push_bit (timer_mode val) (of_nat (65536 - unat (timerReload h p i))))"
  "timer_enabled (write_timer ub p i val h) q j =
     (if q < 2 \<and> j < 4 then timer_schedule q j (write_timer ub p i val h) else timer_enabled h q j)"
  by (simp_all add: write_timer_def Let_def NDS_RescheduleTimers_def HW_Reschedule_def upd_REG_def timer_period_def
      upd_timer_def timer_schedule_def)

lemma timer_over_fields [simp]:
  "timerMODE (timer_over p i h) = timerMODE h" "timerON (timer_over p i h) = timerON h"
  "timerReload (timer_over p i h) = timerReload h" "nds_timer (timer_over p i h) = nds_timer h"
  "timerCycle (timer_over p i h) = timerCycle h" "timer_enabled (timer_over p i h) = timer_enabled h"
  "REG (timer_over p i h) = REG h"
  "timer (timer_over p i h) = upd_timer p i (timerReload h p i) (timer h)"
  by (simp_all add: timer_over_def Let_def NDS_makeIrq_def setIF_def HW_Reschedule_def)

lemma timer_chain_fields:
  "timer_chain p first is h = Some h' \<Longrightarrow>
     timerMODE h' = timerMODE h \<and> timerON h' = timerON h \<and> timerReload h' = timerReload h \<and>
     timer_enabled h' = timer_enabled h \<and> nds_timer h' = nds_timer h \<and> REG h' = REG h"
  by (induction p first "is" h rule: timer_chain.induct) (auto simp: Let_def bind_eq_Some_conv split: if_splits)

lemma period_bounds:
  assumes "timerMODE h p i \<le> 11"
  shows "unat (timer_period ub p i h) = (65536 - unat (timerReload h p i)) * 2 ^ timerMODE h p i"
    and "0 < unat (timer_period ub p i h)" "unat (timer_period ub p i h) \<le> 2 ^ 27"
proof -
  let ?R = "65536 - unat (timerReload h p i)"
  have r: "0 < ?R" "?R \<le> 2 ^ 16" using unsigned_less [of "timerReload h p i"] by simp_all
  have m: "(2::nat) ^ timerMODE h p i \<le> 2 ^ 11" using assms by (intro power_increasing) simp_all
  have "?R * 2 ^ timerMODE h p i \<le> 2 ^ 16 * 2 ^ 11" using r m by (intro mult_le_mono)
  then have le: "?R * 2 ^ timerMODE h p i \<le> 2 ^ 27" by simp
  have "timer_period ub p i h = of_nat (?R * 2 ^ timerMODE h p i)"
    using assms by (simp add: timer_period_def push_bit_eq_mult)
  then show e: "unat (timer_period ub p i h) = ?R * 2 ^ timerMODE h p i"
    using le by (simp only: unat_of_nat) simp
  show "0 < unat (timer_period ub p i h)" "unat (timer_period ub p i h) \<le> 2 ^ 27"
    using r le unfolding e by simp_all
qed



text \<open>A console with all timers off.\<close>

definition timers_off :: "HW \<Rightarrow> HW" where
  "timers_off h = h\<lparr>timerMODE := (\<lambda>_ _. 1), timerON := (\<lambda>_ _. False), timer_enabled := (\<lambda>_ _. False),
     timerReload := (\<lambda>_ _. 0xFFFE), timer := (\<lambda>_ _. 0), nds_timer := 1000, timerCycle := (\<lambda>_ _. 0)\<rparr>"


section \<open>Reading a running timer\<close>

lemma ceil_div:
  fixes R m e :: nat
  assumes "0 < e" "e \<le> R * m"
  shows "(R * m - e) div m = R - ((e - 1) div m + 1)"
proof -
  have m: "0 < m" using assms by (cases m) auto
  define q where "q = (e - 1) div m"
  have "e - 1 = q * m + (e - 1) mod m" by (simp add: q_def)
  then have e: "e = q * m + Suc ((e - 1) mod m)" using assms(1) by linarith
  have "q < R" unfolding q_def using assms m by (simp add: less_mult_imp_div_less)
  then obtain d where R: "R = q + Suc d" by (metis less_iff_Suc_add add_Suc_right)
  have "(e - 1) mod m < m" using m by simp
  then have "R * m - e = (m - Suc ((e - 1) mod m)) + d * m" using e unfolding R by (simp add: algebra_simps)
  then have "(R * m - e) div m = d" using m by (simp add: div_nat_eqI)
  then show ?thesis unfolding q_def [symmetric] R by simp
qed

text \<open>What the code computes.\<close>

lemma timer_read:
  assumes "val AND 0x80 \<noteq> 0" "timer_mode val \<noteq> 0xFFFF"
    and "e \<le> (65536 - unat (timerReload h p i)) * 2 ^ timer_mode val"
  shows "read_timer p i ((write_timer ub p i val h)\<lparr>nds_timer := nds_timer h + of_nat e\<rparr>) =
    (if e = 0 then (if timerReload h p i = 0 then 0 else timerReload h p i - 1)
     else timerReload h p i + of_nat ((e - 1) div 2 ^ timer_mode val))"
proof -
  let ?h = "write_timer ub p i val h" and ?r = "unat (timerReload h p i)" and ?m = "2 ^ timer_mode val :: nat"
  let ?P = "(65536 - ?r) * ?m"
  have m11: "timer_mode val \<le> 11" using timer_mode_cases assms(2) by blast
  have r: "?r < 65536" using unsigned_less [of "timerReload h p i"] by simp
  have "?P \<le> 2 ^ 16 * 2 ^ 11" using m11 by (intro mult_le_mono power_increasing) simp_all
  then have P: "?P \<le> 2 ^ 27" by simp
  have "timerCycle ?h p i = nds_timer h + of_nat ?P"
    using assms(2) by (simp add: write_timer_fields push_bit_eq_mult)
  then have "timerCycle ?h p i - (nds_timer h + of_nat e) = of_nat (?P - e)"
    using assms(3) by (simp add: of_nat_diff)
  moreover have "sint (ucast (of_nat (?P - e) :: u64) :: u32) = int (?P - e)"
  proof -
    have "ucast (of_nat (?P - e) :: u64) = (of_nat (?P - e) :: u32)" using P by (simp add: unsigned_of_nat take_bit_nat_eq_self)
    then show ?thesis using P by (simp add: signed_of_nat signed_take_bit_int_eq_self)
  qed
  ultimately have d: "sint (ucast (timerCycle ?h p i - (nds_timer h + of_nat e)) :: u32) = int (?P - e)" by simp
  have "int k sdiv 2 ^ n = int (k div 2 ^ n)" for k n :: nat
    by (cases "k = 0") (simp_all add: signed_divide_int_def zdiv_int)
  then have u: "int (?P - e) sdiv 2 ^ timer_mode val = int ((?P - e) div ?m)" .
  have read: "read_timer p i (?h\<lparr>nds_timer := nds_timer h + of_nat e\<rparr>) =
    (if 65536 \<le> (?P - e) div ?m then 0 else word_of_int (65535 - int ((?P - e) div ?m)))"
  proof -
    have "timerMODE ?h p i = timer_mode val" "timerON ?h p i"
      using assms(1) by (simp_all add: write_timer_fields upd_timer_def)
    then show ?thesis using assms(2) by (simp add: read_timer_def Let_def d u)
  qed
  show ?thesis
  proof (cases "e = 0")
    case True
    have "(?P - 0) div ?m = 65536 - ?r" by simp
    moreover have "word_of_int (65535 - int (65536 - ?r)) = timerReload h p i - 1"
      using r by (simp add: of_nat_diff)
    moreover have "?r = 0 \<longleftrightarrow> timerReload h p i = 0" by (rule unat_eq_zero)
    ultimately show ?thesis unfolding read using True by auto
  next
    case False
    define q where "q = (e - 1) div ?m"
    have "q < 65536 - ?r" unfolding q_def using assms(3) False by (intro less_mult_imp_div_less) simp
    moreover have "(?P - e) div ?m = 65536 - ?r - (q + 1)"
      unfolding q_def using False assms(3) by (intro ceil_div) simp_all
    moreover define X where "X = (?P - e) div ?m"
    ultimately have small: "\<not> 65536 \<le> X" and "65535 - int X = int (?r + q)" using r by simp_all
    then show ?thesis unfolding read q_def [symmetric] X_def [symmetric] if_not_P [OF small] using False by simp
  qed
qed

lemma steps_before:
  assumes "0 < e" "0 < (m :: nat)"
  shows "(e - 1) div m = (if e mod m = 0 then e div m - 1 else e div m)"
proof -
  obtain d where e: "e = Suc d" using assms(1) by (cases e) auto
  have "Suc d div m = (if Suc d mod m = 0 then Suc (d div m) else d div m)" by (rule div_Suc)
  then show ?thesis unfolding e by simp
qed

text \<open>
  C31. A timer that was started reads its count: \<open>e\<close> cycles after the start, at most one period, it reads the
  reload value plus the whole steps of \<open>2 ^ timerMODE\<close> cycles since the start, except exactly at the end of a step,
  where it still reads the value before it. At the start itself this is one less than the reload value, a value
  the timer never counts through (the code reads 0 for the reload value 0).
\<close>
theorem timer_count:
  assumes "val AND 0x80 \<noteq> 0" "timer_mode val \<noteq> 0xFFFF"
    and "e \<le> (65536 - unat (timerReload h p i)) * 2 ^ timer_mode val"
  shows "let m = 2 ^ timer_mode val; count = timerReload h p i + of_nat (e div m) in
    read_timer p i ((write_timer ub p i val h)\<lparr>nds_timer := nds_timer h + of_nat e\<rparr>) =
    (if e mod m \<noteq> 0 then count else if e = 0 \<and> timerReload h p i = 0 then 0 else count - 1)"
proof (cases "e = 0")
  case True
  then show ?thesis using timer_read [OF assms, of ub] by (simp add: Let_def)
next
  case False
  define m where "m = (2 ^ timer_mode val :: nat)"
  have m: "0 < m" by (simp add: m_def)
  have s: "(e - 1) div m = (if e mod m = 0 then e div m - 1 else e div m)" using False m by (intro steps_before) simp_all
  have "1 \<le> e div m" if "e mod m = 0"
    using that False mult_div_mod_eq [of m e] by (cases "e div m") auto
  then show ?thesis using timer_read [OF assms, of ub] False s
    unfolding m_def [symmetric] by (auto simp: Let_def of_nat_diff)
qed

theorem timer_count_witness:
  "\<forall>h. read_timer 0 2 ((write_timer 0 0 2 0x80 (timers_off h))\<lparr>nds_timer := 1000 + 3\<rparr>) = 0xFFFF"
  using timer_count [of "0x80" 3 "timers_off h" 0 2 0 for h] by (simp add: timers_off_def timer_mode_def)


section \<open>Overflow\<close>

text \<open>
  The inner loop ends when the time of the console is far enough from the end of its range, after the first
  multiple of the period that lies in the future.
\<close>

lemma catch_up_ends:
  assumes "0 < unat period" "unat now + unat period < 2 ^ 64"
  shows "\<exists>k. catch_up period now cycle = Some (cycle + of_nat k * period) \<and>
    now < cycle + of_nat k * period \<and> unat (cycle + of_nat k * period) = unat cycle + k * unat period \<and>
    (k = 0 \<or> unat cycle + k * unat period \<le> unat now + unat period)"
proof (induction "unat now + 1 - unat cycle" arbitrary: cycle rule: less_induct)
  case less
  show ?case
  proof (cases "cycle \<le> now")
    case True
    then have le: "unat cycle \<le> unat now" by (simp add: word_le_nat_alt)
    then have u: "unat (cycle + period) = unat cycle + unat period"
      using assms(2) by (simp add: unat_word_ariths)
    have "unat now + 1 - unat (cycle + period) < unat now + 1 - unat cycle" using u le assms(1) by simp
    from less [OF this] u obtain k where k: "catch_up period now (cycle + period) = Some (cycle + period + of_nat k * period)"
      "now < cycle + period + of_nat k * period"
      "unat (cycle + period + of_nat k * period) = unat cycle + unat period + k * unat period"
      "k = 0 \<or> unat cycle + unat period + k * unat period \<le> unat now + unat period"
      by auto
    have s: "cycle + of_nat (Suc k) * period = cycle + period + of_nat k * period" by (simp add: algebra_simps)
    have "unat cycle + Suc k * unat period \<le> unat now + unat period" using k(4) le by auto
    then show ?thesis using True k(1-3) unfolding s
      by (intro exI [of _ "Suc k"]) (simp add: catch_up.simps [of period now cycle] s algebra_simps)
  next
    case False
    then have "now < cycle" by simp
    moreover have "catch_up period now cycle = Some cycle" by (subst catch_up.simps) (simp add: False)
    ultimately show ?thesis by (intro exI [of _ 0]) simp
  qed
qed

section \<open>Chained timers\<close>

text \<open>
  Chained timers are the digits of one number, the timer next to the counting one the least: a timer has as
  many values as there are from its reload value to 65535.
\<close>

definition base :: "nat \<Rightarrow> HW \<Rightarrow> nat \<Rightarrow> nat" where
  "base p h i = 65536 - unat (timerReload h p i)"

definition digit :: "nat \<Rightarrow> HW \<Rightarrow> nat \<Rightarrow> nat" where
  "digit p h i = unat (timer h p i) - unat (timerReload h p i)"

fun chain_value :: "nat \<Rightarrow> HW \<Rightarrow> nat list \<Rightarrow> nat" where
  "chain_value p h [] = 0"
| "chain_value p h (i # is) = digit p h i + base p h i * chain_value p h is"

fun chain_size :: "nat \<Rightarrow> HW \<Rightarrow> nat list \<Rightarrow> nat" where
  "chain_size p h [] = 1"
| "chain_size p h (i # is) = base p h i * chain_size p h is"

definition chained :: "nat \<Rightarrow> HW \<Rightarrow> nat \<Rightarrow> bool" where
  "chained p h i = (timerON h p i \<and> timerMODE h p i = 0xFFFF \<and> timerReload h p i \<le> timer h p i)"

lemma base_pos: "0 < base p h i"
  using unsigned_less [of "timerReload h p i"] by (simp add: base_def)

lemma digit_less: "chained p h i \<Longrightarrow> digit p h i < base p h i"
  using unsigned_less [of "timer h p i", where ?'a = nat] by (auto simp: digit_def base_def chained_def word_le_nat_alt)

text \<open>Only the timers at their last value and the first one that is not change.\<close>

lemma chain_other:
  "\<lbrakk>timer_chain p first is h = Some h'; \<forall>i \<in> set is. timerMODE h p i = 0xFFFF; j \<notin> set is\<rbrakk> \<Longrightarrow>
    timer h' p j = timer h p j"
  by (induction p first "is" h rule: timer_chain.induct)
    (auto simp: Let_def upd_timer_def split: if_splits)

lemma chain_cycles:
  "\<lbrakk>timer_chain p first is h = Some h'; \<forall>i \<in> set is. timerMODE h p i = 0xFFFF\<rbrakk> \<Longrightarrow>
    timerCycle h' = timerCycle h"
  by (induction p first "is" h rule: timer_chain.induct) (auto simp: Let_def split: if_splits)

lemma chain_value_cong:
  "\<lbrakk>\<forall>i \<in> set is. timer h' p i = timer h p i; timerReload h' = timerReload h\<rbrakk> \<Longrightarrow>
    chain_value p h' is = chain_value p h is \<and> chain_size p h' is = chain_size p h is"
  by (induction "is") (auto simp: digit_def base_def)

lemma chain_counts:
  assumes "distinct is" "\<forall>i \<in> set is. chained p h i"
  shows "\<exists>h'. timer_chain p first is h = Some h' \<and> (\<forall>i \<in> set is. chained p h' i) \<and>
    chain_value p h' is = (chain_value p h is + 1) mod chain_size p h is \<and> chain_value p h is < chain_size p h is"
  using assms
proof (induction "is" arbitrary: h)
  case (Cons i "is")
  let ?h = "h\<lparr>timer := upd_timer p i (timer h p i + 1) (timer h)\<rparr>"
  have c: "chained p h i" "timerON h p i" "timerMODE h p i = 0xFFFF" "timerReload h p i \<le> timer h p i"
    using Cons.prems(2) by (simp_all add: chained_def)
  have t: "timer ?h p i = timer h p i + 1" by (simp add: upd_timer_def)
  show ?case
  proof (cases "timer h p i + 1 = 0")
    case False
    then have u: "unat (timer h p i + 1) = unat (timer h p i) + 1" by (simp add: unatSuc [of "timer h p i"] add.commute)
    have step: "timer_chain p first (i # is) h = Some ?h" using False c t by (simp add: Let_def)
    have other: "chain_value p ?h is = chain_value p h is"
      using Cons.prems(1) by (intro chain_value_cong [THEN conjunct1]) (auto simp: upd_timer_def)
    have d: "digit p ?h i = digit p h i + 1" "base p ?h i = base p h i"
      using c(4) u by (simp_all add: digit_def base_def upd_timer_def word_le_nat_alt)
    have ok: "chained p ?h j" if "j \<in> set (i # is)" for j
      using Cons.prems(2) that c(4) u by (auto simp: chained_def upd_timer_def word_le_nat_alt)
    have "chain_value p h is < chain_size p h is" using Cons by auto
    moreover have "digit p h i + 1 < base p h i" using digit_less [OF ok [of i]] d by simp
    ultimately have "chain_value p h (i # is) + 1 < chain_size p h (i # is)"
    proof -
      assume a: "chain_value p h is < chain_size p h is" "digit p h i + 1 < base p h i"
      have "base p h i * Suc (chain_value p h is) \<le> base p h i * chain_size p h is" using a(1) by (intro mult_le_mono2) simp
      then show ?thesis using a(2) by simp
    qed
    then show ?thesis using step other d ok by simp
  next
    case True
    let ?g = "timer_over p i ?h"
    have step: "timer_chain p first (i # is) h = timer_chain p first is ?g" using True c t by (simp add: Let_def)
    have "\<forall>j \<in> set is. chained p ?g j" using Cons.prems by (auto simp: chained_def upd_timer_def)
    then obtain h' where h': "timer_chain p first is ?g = Some h'" "\<forall>j \<in> set is. chained p h' j"
      "chain_value p h' is = (chain_value p ?g is + 1) mod chain_size p ?g is" "chain_value p ?g is < chain_size p ?g is"
      using Cons.IH [of ?g] Cons.prems(1) by auto
    have g: "chain_value p ?g is = chain_value p h is" "chain_size p ?g is = chain_size p h is"
      using Cons.prems(1) chain_value_cong [of "is" ?g p h] by (auto simp: upd_timer_def)
    note f = timer_chain_fields [OF h'(1)]
    have ti: "timer h' p i = timerReload h p i"
      using chain_other [OF h'(1), of i] Cons.prems by (auto simp: chained_def upd_timer_def)
    have d: "digit p h' i = 0" "base p h' i = base p h i" using ti f by (simp_all add: digit_def base_def)
    have "unat (timer h p i) = 65535"
      using True unat_plus_if_size [of "timer h p i" 1] unsigned_less [of "timer h p i", where ?'a = nat] by (simp add: word_size split: if_splits)
    then have dl: "digit p h i + 1 = base p h i" using c(4) by (simp add: digit_def base_def word_le_nat_alt)
    have "chained p h' i" using c f ti by (simp add: chained_def)
    moreover have "base p h i * ((v + 1) mod n) = (digit p h i + base p h i * v + 1) mod (base p h i * n)" for v n
    proof -
      have "digit p h i + base p h i * v + 1 = base p h i * (v + 1)" using dl by (simp add: algebra_simps)
      then show ?thesis by (simp only: mult_mod_right)
    qed
    moreover have "digit p h i + base p h i * chain_value p h is < base p h i * chain_size p h is"
    proof -
      have "base p h i * Suc (chain_value p h is) \<le> base p h i * chain_size p h is" using h'(4) g by (intro mult_le_mono2) simp
      then show ?thesis using dl by simp
    qed
    ultimately show ?thesis using step h' g d by simp
  qed
qed simp



text \<open>A timer that is off or not chained ends the row.\<close>

lemma chain_append:
  assumes "more_is = [] \<or> \<not> timerON h p (hd more_is) \<or> timerMODE h p (hd more_is) \<noteq> 0xFFFF"
    and "\<forall>i \<in> set is. timerMODE h p i = 0xFFFF"
  shows "timer_chain p False (is @ more_is) h = timer_chain p False is h"
  using assms
proof (induction "is" arbitrary: h)
  case Nil
  then show ?case by (cases more_is) auto
qed (simp add: Let_def)

text \<open>
  C15. The overflow of a timer that runs on its own: at any time up to \<open>2 ^ 64 - 2 ^ 28\<close> the code returns; the next
  overflow is due at the first time after now that is a whole number of periods after the last one; the
  timer holds its reload value; and the \<open>n\<close> chained timers behind it, read as the digits of one number, count
  one more, with a carry where a digit was at its end.
\<close>
theorem timer_overflow:
  assumes "timerON h p num" "timerMODE h p num \<le> 11" "num + n < 4" "unat (nds_timer h) < 2 ^ 64 - 2 ^ 28"
    and "\<forall>i \<in> set [Suc num..<Suc num + n]. chained p h i"
    and "num + n = 3 \<or> \<not> timerON h p (Suc num + n) \<or> timerMODE h p (Suc num + n) \<noteq> 0xFFFF"
  shows "\<exists>h' k. timer_exec p num h = Some h' \<and>
    unat (timerCycle h' p num) = unat (timerCycle h p num) + k * unat (timer_period 0 p num h) \<and>
    nds_timer h < timerCycle h' p num \<and>
    (k = 0 \<or> unat (timerCycle h' p num) \<le> unat (nds_timer h) + unat (timer_period 0 p num h)) \<and>
    timer h' p num = timerReload h p num \<and>
    chain_value p h' [Suc num..<Suc num + n] =
      (chain_value p h [Suc num..<Suc num + n] + 1) mod chain_size p h [Suc num..<Suc num + n]"
proof -
  let ?is = "[Suc num..<Suc num + n]" and ?P = "timer_period 0 p num h"
  have P: "0 < unat ?P" "unat (nds_timer h) + unat ?P < 2 ^ 64"
    using period_bounds [OF assms(2), of 0] assms(4) by simp_all
  obtain k where k: "catch_up ?P (nds_timer h) (timerCycle h p num) = Some (timerCycle h p num + of_nat k * ?P)"
    "nds_timer h < timerCycle h p num + of_nat k * ?P"
    "unat (timerCycle h p num + of_nat k * ?P) = unat (timerCycle h p num) + k * unat ?P"
    "k = 0 \<or> unat (timerCycle h p num) + k * unat ?P \<le> unat (nds_timer h) + unat ?P"
    using catch_up_ends [OF P] by blast
  let ?g = "timer_over p num (h\<lparr>timerCycle := upd_timer p num (timerCycle h p num + of_nat k * ?P) (timerCycle h)\<rparr>)"
  have split: "[num..<4] = num # ?is @ [Suc num + n..<4]"
    using assms(3) upt_add_eq_append [of "Suc num" "Suc num + n" "3 - num - n"] by (simp add: upt_conv_Cons)
  have "timer_exec p num h = timer_chain p False (?is @ [Suc num + n..<4]) ?g"
    unfolding timer_exec_def split using assms(1,2) k(1) by (simp add: upd_timer_def)
  also have "\<dots> = timer_chain p False ?is ?g"
    by (rule chain_append) (use assms(3,5,6) in \<open>auto simp: chained_def upt_conv_Cons\<close>)
  finally have e: "timer_exec p num h = timer_chain p False ?is ?g" .
  have g: "\<forall>i \<in> set ?is. chained p ?g i" using assms(5) by (auto simp: chained_def upd_timer_def)
  have same: "chain_value p ?g ?is = chain_value p h ?is" "chain_size p ?g ?is = chain_size p h ?is"
    using chain_value_cong [of ?is ?g p h] by (auto simp: upd_timer_def)
  obtain h' where h': "timer_chain p False ?is ?g = Some h'"
    "chain_value p h' ?is = (chain_value p ?g ?is + 1) mod chain_size p ?g ?is"
    using chain_counts [OF distinct_upt g, of False] by blast
  have "timer h' p num = timerReload h p num"
    using chain_other [OF h'(1), of num] g by (auto simp: chained_def upd_timer_def)
  moreover have "timerCycle h' = timerCycle ?g"
    using chain_cycles [OF h'(1)] g by (auto simp: chained_def)
  ultimately show ?thesis using e h' same k by (intro exI [of _ h'] exI [of _ k]) (simp add: upd_timer_def)
qed


text \<open>Timer 0 with the reload value 0xFFFE, timer 1 chained to it and at its end, timer 2 chained to both.\<close>

definition timers_on :: "HW \<Rightarrow> HW" where
  "timers_on h = (timers_off h)\<lparr>timerON := (\<lambda>_ i. i < 3), timerMODE := (\<lambda>_ i. if i = 0 then 7 else 0xFFFF),
     timer := (\<lambda>_ i. if i = 1 then 0xFFFF else 0xFFFE), timerCycle := (\<lambda>_ _. 900)\<rparr>"

theorem timer_overflow_witness:
  "\<forall>h. \<exists>h' k. timer_exec 0 0 (timers_on h) = Some h' \<and> unat (timerCycle h' 0 0) = 900 + k * 256 \<and>
    1000 < timerCycle h' 0 0 \<and> chain_value 0 h' [1, 2] = 2"
proof
  fix h
  let ?h = "timers_on h"
  have two: "[Suc 0..<Suc 0 + 2] = [1, 2]" by (simp add: upt_conv_Cons)
  have "unat (timer_period 0 0 0 ?h) = 256"
    using period_bounds(1) [of ?h 0 0 0] by (simp add: timers_on_def timers_off_def)
  moreover have "chain_value 0 ?h [1, 2] = 1" "chain_size 0 ?h [1, 2] = 4"
    by (simp_all add: timers_on_def timers_off_def digit_def base_def)
  moreover have "\<forall>i \<in> set [1, 2]. chained 0 ?h i" by (simp add: timers_on_def timers_off_def chained_def)
  ultimately show "\<exists>h' k. timer_exec 0 0 ?h = Some h' \<and> unat (timerCycle h' 0 0) = 900 + k * 256 \<and>
      1000 < timerCycle h' 0 0 \<and> chain_value 0 h' [1, 2] = 2"
    using timer_overflow [of ?h 0 0 2, unfolded two]
    by (auto simp: timers_on_def timers_off_def)
qed

end
