(* ===== verification/Dma.thy ===== *)
theory Dma
  imports Hardware Timing
begin

text \<open>
  The DMA controller: \<open>DmaController\<close> of \<^verbatim>\<open>MMU.h\<close> and \<^verbatim>\<open>MMU.cpp\<close>, its registers, and its item of the
  sequencer. A channel copies memory over the bus of its processor, so the state is the memory system with the
  device state \<open>HW\<close> behind the bus, and the access times. All data is copied when the channel is
  triggered; it stays \<open>running\<close> until the event that is scheduled for the end of the copy.
\<close>

type_synonym DMA = "HW MMU \<times> TIMING"

definition upd_hw :: "(HW \<Rightarrow> HW) \<Rightarrow> DMA \<Rightarrow> DMA" where
  "upd_hw f s = ((fst s)\<lparr>rest := f (rest (fst s))\<rparr>, snd s)"

definition channel :: "nat \<Rightarrow> nat \<Rightarrow> DMA \<Rightarrow> DmaController" where
  "channel p c s = dma (rest (fst s)) p c"

section \<open>Control register\<close>

definition sar_of :: "u32 \<Rightarrow> EDMASourceUpdate" where
  "sar_of n = (if n = 0 then SAR_Increment else if n = 1 then SAR_Decrement else if n = 2 then SAR_Fixed else SAR_Invalid)"

definition dar_of :: "u32 \<Rightarrow> EDMADestinationUpdate" where
  "dar_of n = (if n = 0 then DAR_Increment else if n = 1 then DAR_Decrement else if n = 2 then DAR_Fixed
     else DAR_IncrementReload)"

definition sar_code :: "EDMASourceUpdate \<Rightarrow> u32" where
  "sar_code x = (case x of SAR_Increment \<Rightarrow> 0 | SAR_Decrement \<Rightarrow> 1 | SAR_Fixed \<Rightarrow> 2 | SAR_Invalid \<Rightarrow> 3)"

definition dar_code :: "EDMADestinationUpdate \<Rightarrow> u32" where
  "dar_code x = (case x of DAR_Increment \<Rightarrow> 0 | DAR_Decrement \<Rightarrow> 1 | DAR_Fixed \<Rightarrow> 2 | DAR_IncrementReload \<Rightarrow> 3)"

text \<open>The fields that a write of the control register sets; the addresses are latched when it enables.\<close>

definition dma_latch :: "nat \<Rightarrow> u32 \<Rightarrow> DmaController \<Rightarrow> DmaController" where
  "dma_latch p val d =
     (let wasEnable = dma_enable d;
          valhi = drop_bit 16 val;
          startmode = drop_bit 11 valhi AND 7;
          d = d\<lparr>wordcount := val AND 0x1FFFFF,
                dar := dar_of (drop_bit 5 valhi AND 3),
                sar := sar_of (drop_bit 7 valhi AND 3),
                repeatMode := bit valhi 9,
                bitWidth32 := bit valhi 10,
                dma_startmode := (if p = 1 then startmode AND 6 else startmode),
                dma_irq := bit valhi 14,
                dma_enable := bit valhi 15\<rparr>;
          d = (if \<not> wasEnable \<and> dma_enable d then d\<lparr>triggered := False\<rparr> else d) in
      if dma_enable d then d\<lparr>saddr := saddr_user d, daddr := daddr_user d\<rparr> else d)"

definition dma_write32 :: "nat \<Rightarrow> nat \<Rightarrow> u32 \<Rightarrow> HW \<Rightarrow> HW" where
  "dma_write32 p c val h =
     (let wasEnable = dma_enable (dma h p c);
          h = upd_dma p c (dma_latch p val) h;
          doNotStart = (startmode (dma h p c) \<noteq> EDMAMode_Immediate \<and> startmode (dma h p c) \<noteq> EDMAMode_GXFifo \<and> wasEnable) in
      if \<not> doNotStart then doSchedule p c h else h)"

definition dma_read32 :: "DmaController \<Rightarrow> u32" where
  "dma_read32 d =
     (if dma_enable d then push_bit 31 1 else 0) OR (if dma_irq d then push_bit 30 1 else 0) OR
     push_bit 27 (dma_startmode d) OR (if bitWidth32 d then push_bit 26 1 else 0) OR
     (if repeatMode d then push_bit 25 1 else 0) OR push_bit 23 (sar_code (sar d)) OR
     push_bit 21 (dar_code (dar d)) OR wordcount d"

section \<open>Registers\<close>

text \<open>The registers 0 to 2 of a channel: source, destination, control (\<open>regs\<close>).\<close>

definition dma_reg_read :: "nat \<Rightarrow> DmaController \<Rightarrow> u32" where
  "dma_reg_read n d = (if n = 0 then saddr_user d else if n = 1 then daddr_user d else dma_read32 d)"

definition dma_reg_write :: "nat \<Rightarrow> nat \<Rightarrow> nat \<Rightarrow> u32 \<Rightarrow> HW \<Rightarrow> HW" where
  "dma_reg_write p c n val h =
     (if n = 0 then upd_dma p c (\<lambda>d. d\<lparr>saddr_user := val\<rparr>) h
      else if n = 1 then upd_dma p c (\<lambda>d. d\<lparr>daddr_user := val\<rparr>) h
      else dma_write32 p c val h)"

text \<open>\<open>TRegister_32\<close>: a narrow access reads and writes the whole register.\<close>

definition Register_write :: "(u32 \<Rightarrow> HW \<Rightarrow> HW) \<Rightarrow> u32 \<Rightarrow> nat \<Rightarrow> u32 \<Rightarrow> u32 \<Rightarrow> HW \<Rightarrow> HW" where
  "Register_write write32 old size_bits adr val h =
     (if size_bits = 32 then write32 val h
      else
        (let offset = unat (adr AND 3) in
         if size_bits = 8 then write32 (old AND NOT (push_bit (offset * 8) 0xFF) OR push_bit (offset * 8) val) h
         else if size_bits = 16 then write32 (old AND NOT (push_bit (offset * 8) 0xFFFF) OR push_bit (offset * 8) val) h
         else h))"

definition Register_read :: "u32 \<Rightarrow> nat \<Rightarrow> u32 \<Rightarrow> u32" where
  "Register_read val size_bits adr =
     (if size_bits = 32 then val
      else
        (let offset = unat (adr AND 3) in
         if size_bits = 8 then drop_bit (offset * 8) val AND 0xFF else drop_bit (offset * 8) val AND 0xFFFF))"

definition REG_DMA_CONTROL_MIN :: u32 where "REG_DMA_CONTROL_MIN = 0x040000B0"
definition REG_DMA_CONTROL_MAX :: u32 where "REG_DMA_CONTROL_MAX = 0x040000DF"

definition is_dma :: "u32 \<Rightarrow> bool" where
  "is_dma adr = (REG_DMA_CONTROL_MIN \<le> adr \<and> adr \<le> REG_DMA_CONTROL_MAX)"

definition write_dma :: "nat \<Rightarrow> nat \<Rightarrow> u32 \<Rightarrow> u32 \<Rightarrow> HW \<Rightarrow> HW" where
  "write_dma p size_bits adr val h =
     (let adr = adr - REG_DMA_CONTROL_MIN;
          c = unat adr div 12;
          regnum = (unat adr - c * 12) div 4 in
      Register_write (dma_reg_write p c regnum) (dma_reg_read regnum (dma h p c)) size_bits adr val h)"

definition read_dma :: "nat \<Rightarrow> nat \<Rightarrow> u32 \<Rightarrow> HW \<Rightarrow> u32" where
  "read_dma p size_bits adr h =
     (let adr = adr - REG_DMA_CONTROL_MIN;
          c = unat adr div 12;
          regnum = (unat adr - c * 12) div 4 in
      Register_read (dma_reg_read regnum (dma h p c)) size_bits adr)"

section \<open>Copying\<close>

text \<open>One word or halfword: the two access times, the read and the write.\<close>

definition dma_access :: "HW BUS \<Rightarrow> nat \<Rightarrow> bool \<Rightarrow> u32 \<Rightarrow> u32 \<Rightarrow> DMA \<Rightarrow> u32 \<times> DMA" where
  "dma_access B p wide src dst s =
     (let P = of_nat p; (m, t) = s;
          size_bits = (if wide then 32 else 16);
          (a, t) = MMU_accesstime P MMU_AT_DMA size_bits MMU_AD_READ (DTCMRegion m) src True t;
          (b, t) = MMU_accesstime P MMU_AT_DMA size_bits MMU_AD_WRITE (DTCMRegion m) dst True t in
      if wide then
        (let (temp, m) = MMU_read32 B P MMU_AT_DMA src m in (a + b, MMU_write32 B P MMU_AT_DMA dst temp m, t))
      else
        (let (temp, m) = MMU_read16 B P MMU_AT_DMA src m in (a + b, MMU_write16 B P MMU_AT_DMA dst temp m, t)))"

fun dma_loop :: "HW BUS \<Rightarrow> nat \<Rightarrow> bool \<Rightarrow> u32 \<Rightarrow> u32 \<Rightarrow> nat \<Rightarrow> u32 \<times> u32 \<times> u32 \<times> DMA \<Rightarrow> u32 \<times> u32 \<times> u32 \<times> DMA" where
  "dma_loop B p wide srcinc dstinc 0 x = x"
| "dma_loop B p wide srcinc dstinc (Suc n) (time, src, dst, s) =
     (let (a, s) = dma_access B p wide src dst s in
      dma_loop B p wide srcinc dstinc n (time + a, src + srcinc, dst + dstinc, s))"

definition dma_todo :: "nat \<Rightarrow> DmaController \<Rightarrow> u32 \<Rightarrow> u32" where
  "dma_todo p d transfer_count =
     (let sz = (if bitWidth32 d then 4 else 2);
          todo = wordcount d;
          todo = (if p = 0 \<and> todo = 0 then 0x200000 else todo);
          todo = (if startmode d = EDMAMode_MemDisplay then 128 else todo);
          todo = (if startmode d = EDMAMode_Card then transfer_count div sz else todo) in
      if startmode d = EDMAMode_GXFifo then min todo 112 else todo)"

definition dst_step :: "u32 \<Rightarrow> EDMADestinationUpdate \<Rightarrow> u32" where
  "dst_step sz x = (case x of DAR_Increment \<Rightarrow> sz | DAR_Decrement \<Rightarrow> - sz | DAR_Fixed \<Rightarrow> 0 | DAR_IncrementReload \<Rightarrow> sz)"

definition src_step :: "u32 \<Rightarrow> EDMASourceUpdate \<Rightarrow> u32 option" where
  "src_step sz x = (case x of SAR_Increment \<Rightarrow> Some sz | SAR_Decrement \<Rightarrow> Some (- sz) | SAR_Fixed \<Rightarrow> Some 0 | SAR_Invalid \<Rightarrow> None)"

text \<open>
  \<open>doCopy\<close>. The prohibited way to update the source (\<open>bogarted\<close>) returns without a copy. The counter of the loop
  is signed. After the loop the registers are read again, which the copy may have changed.
\<close>

definition dma_finish :: "nat \<Rightarrow> nat \<Rightarrow> u32 \<Rightarrow> u32 \<Rightarrow> u32 \<Rightarrow> u32 \<Rightarrow> HW \<Rightarrow> HW" where
  "dma_finish p c todo time src dst h =
     (let h = doSchedule p c h;
          h = upd_dma p c (\<lambda>d. d\<lparr>nextEvent := nextEvent d + scast time\<rparr>) h;
          h = (if p = 0 then h\<lparr>freezeBus := freezeBus h OR push_bit (c + 1) 1\<rparr> else h);
          h = upd_dma p c (\<lambda>d. d\<lparr>saddr := src\<rparr>) h;
          h = (if dar (dma h p c) \<noteq> DAR_IncrementReload then upd_dma p c (\<lambda>d. d\<lparr>daddr := dst\<rparr>) h else h) in
      if \<not> repeatMode (dma h p c) then
        (if startmode (dma h p c) = EDMAMode_Card then upd_dma p c (\<lambda>d. d\<lparr>wordcount := 0\<rparr>) h
         else upd_dma p c (\<lambda>d. d\<lparr>wordcount := wordcount d - todo\<rparr>) h)
      else h)"

definition dma_doCopy :: "HW BUS \<Rightarrow> nat \<Rightarrow> nat \<Rightarrow> DMA \<Rightarrow> DMA" where
  "dma_doCopy B p c s =
     (let h = rest (fst s); d = dma h p c;
          sz = (if bitWidth32 d then 4 else 2);
          todo = dma_todo p d (card_transfer_count h p);
          s = (if startmode d = EDMAMode_MemDisplay \<and> VCount h = 191
               then upd_hw (upd_dma p c (\<lambda>d. d\<lparr>dma_enable := False\<rparr>)) s else s) in
      case src_step sz (sar d) of
        None \<Rightarrow> s
      | Some srcinc \<Rightarrow>
          (let (time, src, dst, s) =
             dma_loop B p (bitWidth32 d) srcinc (dst_step sz (dar d)) (nat (sint todo)) (0, saddr d, daddr d, s) in
           upd_hw (dma_finish p c todo time src dst) s))"

section \<open>Events\<close>

definition doPause :: "nat \<Rightarrow> nat \<Rightarrow> HW \<Rightarrow> HW" where
  "doPause p c h = upd_dma p c (\<lambda>d. d\<lparr>triggered := False, paused := True\<rparr>) h"

definition doStop :: "nat \<Rightarrow> nat \<Rightarrow> HW \<Rightarrow> HW" where
  "doStop p c h =
     (let h = upd_dma p c (\<lambda>d. d\<lparr>running := False\<rparr>) h;
          h = (if \<not> repeatMode (dma h p c) then upd_dma p c (\<lambda>d. d\<lparr>dma_enable := False\<rparr>) h else h) in
      if dma_irq (dma h p c) then NDS_makeIrq p (IRQ_BIT_DMA_0 + c) h else h)"

text \<open>The start mode of a code of the control register.\<close>

definition start_mode :: "nat \<Rightarrow> nat \<Rightarrow> u32 \<Rightarrow> EDMAMode" where
  "start_mode p c code =
     (if p = 0 then
        [EDMAMode_Immediate, EDMAMode_VBlank, EDMAMode_HBlank, EDMAMode_HStart, EDMAMode_MemDisplay,
         EDMAMode_Card, EDMAMode_GBASlot, EDMAMode_GXFifo] ! unat code
      else
        (let mode = [EDMAMode_Immediate, EDMAMode_VBlank, EDMAMode_Card, EDMAMode7_Wifi] ! unat (drop_bit 1 code) in
         if mode = EDMAMode7_Wifi \<and> (c = 1 \<or> c = 3) then EDMAMode7_GBASlot else mode))"

definition dma_start :: "HW BUS \<Rightarrow> nat \<Rightarrow> nat \<Rightarrow> DMA \<Rightarrow> DMA" where
  "dma_start B p c s =
     (if dma_enable (channel p c s) then
        (let s = upd_hw (upd_dma p c (\<lambda>d. d\<lparr>startmode := start_mode p c (dma_startmode d)\<rparr>)) s;
             mode = startmode (channel p c s);
             s = (if mode = EDMAMode_Immediate \<or> mode = EDMAMode_GXFifo \<and> gx_size (gxFIFO (rest (fst s))) \<le> 127
                  then upd_hw (upd_dma p c (\<lambda>d. d\<lparr>triggered := True\<rparr>)) s else s) in
         if triggered (channel p c s)
         then dma_doCopy B p c (upd_hw (upd_dma p c (\<lambda>d. d\<lparr>running := True, paused := False\<rparr>)) s)
         else s)
      else s)"

definition dma_exec :: "HW BUS \<Rightarrow> nat \<Rightarrow> nat \<Rightarrow> DMA \<Rightarrow> DMA" where
  "dma_exec B p c s =
     (let s = (if p = 0 then upd_hw (\<lambda>h. h\<lparr>freezeBus := freezeBus h AND NOT (push_bit (c + 1) 1)\<rparr>) s else s);
          s = upd_hw (upd_dma p c (\<lambda>d. d\<lparr>dmaCheck := False\<rparr>)) s;
          d = channel p c s in
      if running d then
        (if startmode d = EDMAMode_GXFifo \<and> wordcount d > 0 then dma_start B p c (upd_hw (doPause p c) s)
         else upd_hw (doStop p c) s)
      else dma_start B p c s)"

definition dma_isTriggered :: "nat \<Rightarrow> nat \<Rightarrow> HW \<Rightarrow> bool" where
  "dma_isTriggered p c h = (dmaCheck (dma h p c) \<and> nds_timer h \<ge> nextEvent (dma h p c))"

end
