(* ===== verification/DmaProperties.thy ===== *)
theory DmaProperties
  imports Dma MmuCorrect
begin

text \<open>
  The properties of the DMA controller: the control register reads back as written, a transfer between
  addresses of the main memory copies or fills it and ends with an interrupt, and what keeps a channel
  going.
\<close>

section \<open>The control register\<close>

lemma field_codes: "sar_code (sar_of (x AND 3)) = x AND 3" "dar_code (dar_of (x AND 3)) = x AND 3" for x :: u32
proof -
  have "x AND 3 = take_bit 2 x" by (simp add: take_bit_eq_mask mask_eq_exp_minus_1)
  moreover have "unat (take_bit 2 x) < 4" unfolding unsigned_take_bit_eq by (simp add: take_bit_eq_mod)
  then have "unat (take_bit 2 x) \<in> {0, 1, 2, 3}" by auto
  then have "take_bit 2 x \<in> {0, 1, 2, 3}"
    by (auto simp: word_unat_eq_iff)
  ultimately show "sar_code (sar_of (x AND 3)) = x AND 3" "dar_code (dar_of (x AND 3)) = x AND 3"
    by (auto simp: sar_code_def sar_of_def dar_code_def dar_of_def)
qed

lemma small_masks: "(3 :: u32) = mask 2" "(7 :: u32) = mask 3" "(0x1FFFFF :: u32) = mask 21" "(6 :: u32) = push_bit 1 (mask 2)"
  by (simp_all add: mask_eq_exp_minus_1)

lemma latch_fields:
  "dma_enable (dma_latch p val d) = bit val 31" "dma_irq (dma_latch p val d) = bit val 30"
  "dma_startmode (dma_latch p val d) = (if p = 1 then drop_bit 27 val AND 6 else drop_bit 27 val AND 7)"
  "bitWidth32 (dma_latch p val d) = bit val 26" "repeatMode (dma_latch p val d) = bit val 25"
  "sar_code (sar (dma_latch p val d)) = drop_bit 23 val AND 3"
  "dar_code (dar (dma_latch p val d)) = drop_bit 21 val AND 3"
  "wordcount (dma_latch p val d) = val AND 0x1FFFFF"
proof -
  have "(7 :: u32) AND 6 = 6" by simp
  then show "dma_startmode (dma_latch p val d) = (if p = 1 then drop_bit 27 val AND 6 else drop_bit 27 val AND 7)"
    by (simp add: dma_latch_def Let_def and.assoc)
qed (simp_all add: dma_latch_def Let_def bit_drop_bit_eq field_codes)

lemma field_bit:
  "bit (push_bit k (drop_bit k v AND mask w)) j = (k \<le> j \<and> j < 32 \<and> j < k + w \<and> bit v j)" for v :: u32
  by (auto simp: bit_simps dest: bit_imp_le_length)

lemma field_bit_above:
  "bit (push_bit k (drop_bit k v AND push_bit a (mask w))) j = (k + a \<le> j \<and> j < 32 \<and> j < k + a + w \<and> bit v j)" for v :: u32
  by (auto simp: bit_simps dest: bit_imp_le_length)

lemma bit_cleared: "bit (v AND NOT (push_bit k 1)) j = (j \<noteq> k \<and> bit v j)" for v :: u32
  by (auto simp: bit_simps dest: bit_imp_le_length)

lemma control_word:
  "dma_read32 (dma_latch p val d) = (if p = 1 then val AND NOT (push_bit 27 1) else val)"
proof (rule bit_word_eqI)
  fix j :: nat assume "j < LENGTH(32)"
  then have j: "j < 32" by simp
  have one: "bit (if c then push_bit k 1 else 0 :: u32) j = (c \<and> k = j)" for c k
    using j by (auto simp: bit_simps)
  have low: "bit (val AND mask 21) j = (j < 21 \<and> bit val j)" by (auto simp: bit_simps)
  have cases: "j = 31 \<or> j = 30 \<or> j = 29 \<or> j = 28 \<or> j = 27 \<or> j = 26 \<or> j = 25 \<or> 23 \<le> j \<and> j < 25 \<or> 21 \<le> j \<and> j < 23 \<or> j < 21"
    using j by linarith
  show "bit (dma_read32 (dma_latch p val d)) j = bit (if p = 1 then val AND NOT (push_bit 27 1) else val) j"
  proof (cases "p = 1")
    case True
    show ?thesis unfolding dma_read32_def latch_fields if_P [OF True] bit_or_iff one bit_cleared unfolding small_masks
        low field_bit_above field_bit using cases j by auto
  next
    case False
    show ?thesis unfolding dma_read32_def latch_fields if_not_P [OF False] bit_or_iff one unfolding small_masks
        low field_bit using cases j by auto
  qed
qed

text \<open>
  C33. The control register of a channel reads back as it was written, in one access of 32 bits: all fields are
  kept. On the ARM7 the lowest bit of the start mode reads as zero.
\<close>
theorem dma_control_round_trip:
  "dma_read32 (dma (dma_write32 p c val h) p c) = (if p = 1 then val AND NOT (push_bit 27 1) else val)"
proof -
  have "dma_read32 (dma (doSchedule p c g) p c) = dma_read32 (dma g p c)" for g
    by (simp add: doSchedule_def NDS_RescheduleDMA_def HW_Reschedule_def upd_dma_def dma_read32_def)
  then have "dma_read32 (dma (dma_write32 p c val h) p c) = dma_read32 (dma_latch p val (dma h p c))"
    by (simp add: dma_write32_def Let_def upd_dma_def)
  then show ?thesis by (simp only: control_word)
qed

section \<open>Transfers in the main memory\<close>

lemma main_read_dma:
  assumes "P = 0 \<or> P = 1" "main_ok k region m" "main_word P region a"
  shows "MMU_read32 B P MMU_AT_DMA a m = (T1ReadLong_guaranteedAligned (MAIN_MEM m) (a AND k), m)"
proof -
  have "\<not> a < 0x02000000" if "in_main a"
  proof
    assume "a < 0x02000000"
    then have "unat (a AND 0x0F000000) < 0x02000000"
      using unat_and_le [of "0x0F000000" a] by (simp add: word_less_nat_alt and.commute)
    then show False using that by (simp add: in_main_def)
  qed
  then show ?thesis using assms by (auto simp: MMU_read32_def main_ok_def main_word_def in_dtcm_def)
qed

lemma main_write_dma:
  assumes "P = 0 \<or> P = 1" "main_ok k region m" "main_word P region a"
  shows "MMU_write32 B P MMU_AT_DMA a v m = m\<lparr>MAIN_MEM := T1WriteLong (MAIN_MEM m) (a AND k) v\<rparr>"
proof -
  have "\<not> a < 0x02000000" if "in_main a"
  proof
    assume "a < 0x02000000"
    then have "unat (a AND 0x0F000000) < 0x02000000"
      using unat_and_le [of "0x0F000000" a] by (simp add: word_less_nat_alt and.commute)
    then show False using that by (simp add: in_main_def)
  qed
  then show ?thesis using assms by (auto simp: MMU_write32_def main_ok_def main_word_def in_dtcm_def)
qed

interpretation dma_main: word_store
  "\<lambda>a m. fst (MMU_read32 B P MMU_AT_DMA a m)" "MMU_write32 B P MMU_AT_DMA"
  "\<lambda>m. main_ok k region m \<and> (P = 0 \<or> P = 1)" "main_word P region" "\<lambda>a. a AND k"
  for B P k region
proof (unfold_locales, goal_cases)
  case (1 m a v)
  then show ?case by (auto simp: main_write_dma main_ok_def)
next
  case (2 m a b v)
  then have m: "P = 0 \<or> P = 1" "main_ok k region m" "main_word P region a" "main_word P region b"
    by auto
  have ok: "main_ok k region (m\<lparr>MAIN_MEM := mem\<rparr>)" for mem using m(2) by (simp add: main_ok_def)
  have al: "(x AND k) AND 3 = 0" for x using m(2) by (simp add: main_ok_def and.assoc)
  show ?case unfolding main_write_dma [OF m(1-3)] main_read_dma [OF m(1) ok m(4)] main_read_dma [OF m(1,2,4)]
    by (simp add: read_write_long read_write_other al)
qed

text \<open>The words a transfer writes: address and value, in order.\<close>

definition transfer :: "HW BUS \<Rightarrow> u32 \<Rightarrow> u32 \<Rightarrow> u32 \<Rightarrow> u32 \<Rightarrow> u32 \<Rightarrow> nat \<Rightarrow> HW MMU \<Rightarrow> (u32 \<times> u32) list" where
  "transfer B P src dst srcinc dstinc n m =
     map (\<lambda>i. (dst + of_nat i * dstinc, fst (MMU_read32 B P MMU_AT_DMA (src + of_nat i * srcinc) m))) [0..<n]"

lemma transfer_Suc:
  "transfer B P src dst srcinc dstinc (Suc n) m =
     (dst, fst (MMU_read32 B P MMU_AT_DMA src m)) # map (\<lambda>i. (dst + dstinc + of_nat i * dstinc,
       fst (MMU_read32 B P MMU_AT_DMA (src + srcinc + of_nat i * srcinc) m))) [0..<n]"
  unfolding transfer_def by (simp add: upt_conv_Cons map_Suc_upt [symmetric] algebra_simps del: upt_Suc)

text \<open>A copy whose sources are not destinations of the words before them.\<close>

definition apart :: "u32 \<Rightarrow> u32 \<Rightarrow> u32 \<Rightarrow> u32 \<Rightarrow> u32 \<Rightarrow> nat \<Rightarrow> bool" where
  "apart k src dst srcinc dstinc n \<longleftrightarrow>
     (\<forall>i < n. \<forall>j < i. (src + of_nat i * srcinc) AND k \<noteq> (dst + of_nat j * dstinc) AND k)"

lemma accesstime_dma: "snd (MMU_accesstime P MMU_AT_DMA size_bits dir region a True t) = t"
  by (simp add: MMU_accesstime_def Let_def)

lemma dma_loop_main:
  assumes "of_nat p = P" "P = 0 \<or> P = 1" "main_ok k region m"
    and "\<forall>i < n. main_word P region (src + of_nat i * srcinc) \<and> main_word P region (dst + of_nat i * dstinc)"
    and "apart k src dst srcinc dstinc n"
  shows "\<exists>time'. dma_loop B p True srcinc dstinc n (time, src, dst, m, t) =
    (time', src + of_nat n * srcinc, dst + of_nat n * dstinc,
     dma_main.writes B P (transfer B P src dst srcinc dstinc n m) m, t)"
  using assms(3-)
proof (induction n arbitrary: time src dst m)
  case 0
  then show ?case by (simp add: transfer_def dma_main.writes_def)
next
  case (Suc n)
  have w: "main_word P region src" "main_word P region dst" using Suc.prems(2) [rule_format, of 0] by simp_all
  obtain v where rd: "MMU_read32 B P MMU_AT_DMA src m = (v, m)"
    using main_read_dma [OF assms(2) Suc.prems(1) w(1), of B] by blast
  let ?m = "MMU_write32 B P MMU_AT_DMA dst v m"
  have step: "\<exists>a. dma_access B p True src dst (m, t) = (a, ?m, t)"
    using accesstime_dma [of P 32 MMU_AD_READ "DTCMRegion m" src t] accesstime_dma [of P 32 MMU_AD_WRITE "DTCMRegion m" dst t]
    by (simp add: dma_access_def Let_def assms(1) split_beta rd)
  then obtain a where a: "dma_access B p True src dst (m, t) = (a, ?m, t)" ..
  have shift: "x + of_nat (Suc i) * d = x + d + of_nat i * d" for x d :: u32 and i by (simp add: algebra_simps)
  have ok: "main_ok k region ?m" using dma_main.wr_ok [of k region m P dst B v] Suc.prems(1) assms(2) w by blast
  have words: "\<forall>i < n. main_word P region (src + srcinc + of_nat i * srcinc) \<and> main_word P region (dst + dstinc + of_nat i * dstinc)"
    using Suc.prems(2) [rule_format, of "Suc i" for i] by (simp add: shift del: of_nat_Suc)
  have ap: "apart k (src + srcinc) (dst + dstinc) srcinc dstinc n"
    unfolding apart_def
  proof (intro allI impI)
    fix i j assume "i < n" "j < i"
    then show "(src + srcinc + of_nat i * srcinc) AND k \<noteq> (dst + dstinc + of_nat j * dstinc) AND k"
      using Suc.prems(3) [unfolded apart_def, rule_format, of "Suc i" "Suc j"] by (simp add: shift del: of_nat_Suc)
  qed
  have same: "fst (MMU_read32 B P MMU_AT_DMA (src + srcinc + of_nat i * srcinc) ?m) =
      fst (MMU_read32 B P MMU_AT_DMA (src + srcinc + of_nat i * srcinc) m)" if "i < n" for i
  proof -
    have "(src + of_nat (Suc i) * srcinc) AND k \<noteq> (dst + of_nat 0 * dstinc) AND k"
      using Suc.prems(3) that unfolding apart_def by blast
    then have "(src + srcinc + of_nat i * srcinc) AND k \<noteq> dst AND k" by (simp only: shift of_nat_0 mult_zero_left add_0_right) simp
    moreover have "main_word P region (src + srcinc + of_nat i * srcinc)" using words that by blast
    ultimately show ?thesis
      using dma_main.rd_wr [of k region m P dst "src + srcinc + of_nat i * srcinc" B v] Suc.prems(1) assms(2) w by auto
  qed
  have tr: "transfer B P src dst srcinc dstinc (Suc n) m =
      (dst, v) # transfer B P (src + srcinc) (dst + dstinc) srcinc dstinc n ?m"
    unfolding transfer_Suc rd fst_conv unfolding transfer_def using same by simp
  obtain time' where "dma_loop B p True srcinc dstinc n (time + a, src + srcinc, dst + dstinc, ?m, t) =
      (time', src + srcinc + of_nat n * srcinc, dst + dstinc + of_nat n * dstinc,
       dma_main.writes B P (transfer B P (src + srcinc) (dst + dstinc) srcinc dstinc n ?m) ?m, t)"
    using Suc.IH [OF ok words ap] by blast
  then show ?case
    by (simp only: dma_loop.simps Let_def a case_prod_conv tr dma_main.writes_def fold_simps o_def id_apply shift) simp
qed

text \<open>A word of the main memory.\<close>

definition cell :: "u32 \<Rightarrow> 'b MMU \<Rightarrow> u32 \<Rightarrow> u32" where
  "cell k m a = T1ReadLong_guaranteedAligned (MAIN_MEM m) (a AND k)"

lemma writes_effect:
  assumes "P = 0 \<or> P = 1" "main_ok k region m" "list_all (\<lambda>(a, v). main_word P region a) ws"
  shows "rest (dma_main.writes B P ws m) = rest m" "main_ok k region (dma_main.writes B P ws m)"
    and "main_word P region b \<Longrightarrow> cell k (dma_main.writes B P ws m) b =
      (case map_of (rev (map (\<lambda>(a, v). (a AND k, v)) ws)) (b AND k) of Some v \<Rightarrow> v | None \<Rightarrow> cell k m b)"
proof -
  show ok: "main_ok k region (dma_main.writes B P ws m)"
    using dma_main.writes_ok [of k region m P ws B] assms by blast
  show "rest (dma_main.writes B P ws m) = rest m"
    using assms(2,3)
  proof (induction ws arbitrary: m)
    case (Cons w ws)
    obtain a v where w: "w = (a, v)" by (cases w)
    have "main_word P region a" using Cons.prems(2) by (simp add: w)
    note st = main_write_dma [OF assms(1) Cons.prems(1) this, of B v]
    have "main_ok k region (MMU_write32 B P MMU_AT_DMA a v m)" unfolding st using Cons.prems(1) by (simp add: main_ok_def)
    then show ?case using Cons.IH [of "MMU_write32 B P MMU_AT_DMA a v m"] Cons.prems(2) st
      by (simp add: w dma_main.writes_def)
  qed (simp add: dma_main.writes_def)
  show "cell k (dma_main.writes B P ws m) b =
      (case map_of (rev (map (\<lambda>(a, v). (a AND k, v)) ws)) (b AND k) of Some v \<Rightarrow> v | None \<Rightarrow> cell k m b)"
    if b: "main_word P region b"
    using dma_main.rd_writes [of k region m P ws b B] assms b
    unfolding main_read_dma [OF assms(1) ok b] main_read_dma [OF assms(1,2) b] cell_def fst_conv by simp
qed

definition separate :: "u32 \<Rightarrow> u32 \<Rightarrow> u32 \<Rightarrow> nat \<Rightarrow> bool" where
  "separate k dst dstinc n \<longleftrightarrow>
     (\<forall>i < n. \<forall>j < i. (dst + of_nat i * dstinc) AND k \<noteq> (dst + of_nat j * dstinc) AND k)"

lemma transfer_effect:
  fixes B :: "HW BUS"
  assumes "P = 0 \<or> P = 1" "main_ok k region m"
    and w: "\<forall>i < n. main_word P region (src + of_nat i * srcinc) \<and> main_word P region (dst + of_nat i * dstinc)"
  defines "m' \<equiv> dma_main.writes B P (transfer B P src dst srcinc dstinc n m) m"
  shows "rest m' = rest m" "main_ok k region m'"
    and "separate k dst dstinc n \<Longrightarrow> i < n \<Longrightarrow> cell k m' (dst + of_nat i * dstinc) = cell k m (src + of_nat i * srcinc)"
    and "main_word P region b \<Longrightarrow> \<forall>i < n. b AND k \<noteq> (dst + of_nat i * dstinc) AND k \<Longrightarrow> cell k m' b = cell k m b"
proof -
  let ?ws = "transfer B P src dst srcinc dstinc n m"
  have ws: "list_all (\<lambda>(a, v). main_word P region a) ?ws" using w by (simp add: transfer_def list_all_iff)
  show "rest m' = rest m" "main_ok k region m'" unfolding m'_def by (rule writes_effect [OF assms(1,2) ws])+
  have keys: "map (\<lambda>(a, v). (a AND k, v)) ?ws =
      map (\<lambda>i. ((dst + of_nat i * dstinc) AND k, cell k m (src + of_nat i * srcinc))) [0..<n]"
    using w by (simp add: transfer_def main_read_dma [OF assms(1,2)] cell_def)
  show "cell k m' b = cell k m b" if "main_word P region b" "\<forall>i < n. b AND k \<noteq> (dst + of_nat i * dstinc) AND k"
  proof -
    have "map_of (rev (map (\<lambda>(a, v). (a AND k, v)) ?ws)) (b AND k) = None"
      unfolding keys map_of_eq_None_iff using that(2) by auto
    then show ?thesis unfolding m'_def by (simp add: writes_effect(3) [OF assms(1,2) ws that(1)])
  qed
  show "cell k m' (dst + of_nat i * dstinc) = cell k m (src + of_nat i * srcinc)"
    if sep: "separate k dst dstinc n" and i: "i < n"
  proof -
    have "inj_on (\<lambda>i. (dst + of_nat i * dstinc) AND k) {0..<n}"
      using sep unfolding separate_def inj_on_def by (metis atLeastLessThan_iff linorder_neqE_nat)
    then have "distinct (map fst (rev (map (\<lambda>(a, v). (a AND k, v)) ?ws)))"
      unfolding keys by (simp add: rev_map [symmetric] distinct_map o_def)
    moreover have "((dst + of_nat i * dstinc) AND k, cell k m (src + of_nat i * srcinc)) \<in> set (rev (map (\<lambda>(a, v). (a AND k, v)) ?ws))"
      unfolding keys using i by auto
    ultimately have "map_of (rev (map (\<lambda>(a, v). (a AND k, v)) ?ws)) ((dst + of_nat i * dstinc) AND k) =
        Some (cell k m (src + of_nat i * srcinc))" by (rule map_of_is_SomeI)
    moreover have "main_word P region (dst + of_nat i * dstinc)" using w i by blast
    ultimately show ?thesis unfolding m'_def by (simp add: writes_effect(3) [OF assms(1,2) ws])
  qed
qed

lemma finish_fields:
  fixes h :: HW and p c :: nat and todo time src dst :: u32
  defines "d \<equiv> dma h p c" and "g \<equiv> dma_finish p c todo time src dst h"
  shows "running (dma g p c) = running d" "dmaCheck (dma g p c)" "saddr (dma g p c) = src"
    "nextEvent (dma g p c) = nds_timer h + scast time"
    "wordcount (dma g p c) = (if repeatMode d then wordcount d
       else if startmode d = EDMAMode_Card then 0 else wordcount d - todo)"
    "repeatMode (dma g p c) = repeatMode d" "dma_irq (dma g p c) = dma_irq d" "startmode (dma g p c) = startmode d"
    "dma_enable (dma g p c) = dma_enable d" "reg_IF_bits g = reg_IF_bits h"
  by (simp_all add: d_def g_def dma_finish_def Let_def doSchedule_def NDS_RescheduleDMA_def HW_Reschedule_def upd_dma_def)

text \<open>What every event of a channel does first.\<close>

definition enter :: "nat \<Rightarrow> nat \<Rightarrow> HW \<Rightarrow> HW" where
  "enter p c h = upd_dma p c (\<lambda>d. d\<lparr>dmaCheck := False\<rparr>)
     (if p = 0 then h\<lparr>freezeBus := freezeBus h AND NOT (push_bit (c + 1) 1)\<rparr> else h)"

lemma enter_fields: "dma (enter p c h) p c = (dma h p c)\<lparr>dmaCheck := False\<rparr>" "reg_IF_bits (enter p c h) = reg_IF_bits h"
  by (simp_all add: enter_def upd_dma_def)

lemma channel_upd: "channel p c (upd_hw f s) = dma (f (rest (fst s))) p c"
  by (simp add: channel_def upd_hw_def)

lemma exec_enter:
  "dma_exec B p c s =
     (let d = channel p c s; s = upd_hw (enter p c) s in
      if running d then
        (if startmode d = EDMAMode_GXFifo \<and> wordcount d > 0 then dma_start B p c (upd_hw (doPause p c) s)
         else upd_hw (doStop p c) s)
      else dma_start B p c s)"
  by (cases "p = 0") (simp_all add: dma_exec_def Let_def channel_def upd_hw_def enter_def upd_dma_def)

text \<open>The end of a transfer that does not pause.\<close>

lemma stop_fields:
  "\<not> running (dma (doStop p c h) p c)" "dma_enable (dma (doStop p c h) p c) = (repeatMode (dma h p c) \<and> dma_enable (dma h p c))"
  "reg_IF_bits (doStop p c h) p = reg_IF_bits h p OR (if dma_irq (dma h p c) then push_bit (8 + c) 1 else 0)"
  by (simp_all add: doStop_def Let_def upd_dma_def NDS_makeIrq_def setIF_def HW_Reschedule_def IRQ_BIT_DMA_0_def add.commute)

lemma exec_stop:
  fixes B :: "HW BUS"
  assumes "running (channel p c s)" "startmode (channel p c s) \<noteq> EDMAMode_GXFifo"
  defines "e \<equiv> dma_exec B p c s"
  shows "\<not> running (channel p c e)" "dma_enable (channel p c e) = (repeatMode (channel p c s) \<and> dma_enable (channel p c s))"
    and "reg_IF_bits (rest (fst e)) p =
      reg_IF_bits (rest (fst s)) p OR (if dma_irq (channel p c s) then push_bit (8 + c) 1 else 0)"
    and "MAIN_MEM (fst e) = MAIN_MEM (fst s)"
proof -
  have e: "e = upd_hw (doStop p c) (upd_hw (enter p c) s)" using assms(1,2) by (simp add: e_def exec_enter Let_def)
  show "\<not> running (channel p c e)" "dma_enable (channel p c e) = (repeatMode (channel p c s) \<and> dma_enable (channel p c s))"
    by (simp_all add: e channel_upd stop_fields) (simp add: upd_hw_def channel_def enter_fields)
  show "reg_IF_bits (rest (fst e)) p =
      reg_IF_bits (rest (fst s)) p OR (if dma_irq (channel p c s) then push_bit (8 + c) 1 else 0)"
    "MAIN_MEM (fst e) = MAIN_MEM (fst s)"
    by (simp_all add: e upd_hw_def stop_fields enter_fields channel_def)
qed

text \<open>The start of an immediate transfer of words.\<close>

definition started :: "nat \<Rightarrow> nat \<Rightarrow> HW \<Rightarrow> HW" where
  "started p c h = upd_dma p c (\<lambda>d. d\<lparr>startmode := EDMAMode_Immediate, triggered := True,
     running := True, paused := False\<rparr>) (enter p c h)"

lemma start_immediate:
  assumes "dma_enable (channel p c s)" "dma_startmode (channel p c s) = 0"
  shows "dma_start B p c s = dma_doCopy B p c (upd_hw (upd_dma p c (\<lambda>d. d\<lparr>startmode := EDMAMode_Immediate,
    triggered := True, running := True, paused := False\<rparr>)) s)"
proof -
  have "start_mode p c 0 = EDMAMode_Immediate" by (simp add: start_mode_def)
  then show ?thesis using assms by (simp add: dma_start_def Let_def channel_def upd_hw_def upd_dma_def)
qed

lemma exec_start:
  fixes m :: "HW MMU" and p c :: nat
  defines "d \<equiv> dma (rest m) p c"
  assumes "dma_enable d" "\<not> running d" "dma_startmode d = 0"
  shows "dma_exec B p c (m, t) = dma_doCopy B p c (m\<lparr>rest := started p c (rest m)\<rparr>, t)"
proof -
  have c: "channel p c (upd_hw (enter p c) (m, t)) = d\<lparr>dmaCheck := False\<rparr>"
    by (simp add: channel_upd enter_fields d_def)
  have "dma_exec B p c (m, t) = dma_start B p c (upd_hw (enter p c) (m, t))"
    using assms(3) by (simp add: exec_enter Let_def channel_def d_def)
  also have "\<dots> = dma_doCopy B p c (upd_hw (upd_dma p c (\<lambda>d. d\<lparr>startmode := EDMAMode_Immediate,
    triggered := True, running := True, paused := False\<rparr>)) (upd_hw (enter p c) (m, t)))"
    by (rule start_immediate) (simp_all add: c assms(2-))
  also have "\<dots> = dma_doCopy B p c (m\<lparr>rest := started p c (rest m)\<rparr>, t)"
    by (simp add: upd_hw_def started_def)
  finally show ?thesis .
qed

lemma started_fields:
  "saddr (dma (started p c h) p c) = saddr (dma h p c)" "daddr (dma (started p c h) p c) = daddr (dma h p c)"
  "bitWidth32 (dma (started p c h) p c) = bitWidth32 (dma h p c)" "sar (dma (started p c h) p c) = sar (dma h p c)"
  "dar (dma (started p c h) p c) = dar (dma h p c)" "wordcount (dma (started p c h) p c) = wordcount (dma h p c)"
  "startmode (dma (started p c h) p c) = EDMAMode_Immediate" "running (dma (started p c h) p c)"
  "repeatMode (dma (started p c h) p c) = repeatMode (dma h p c)" "dma_irq (dma (started p c h) p c) = dma_irq (dma h p c)"
  "dma_enable (dma (started p c h) p c) = dma_enable (dma h p c)" "reg_IF_bits (started p c h) = reg_IF_bits h"
  by (simp_all add: started_def upd_dma_def enter_def)

lemma copy_words:
  fixes m :: "HW MMU" and p c :: nat
  defines "h \<equiv> rest m" and "d \<equiv> dma (rest m) p c"
  assumes "p < 2" "main_ok k region m" "startmode d = EDMAMode_Immediate" "bitWidth32 d"
    and n: "wordcount d = of_nat n" "0 < n" "n < 2 ^ 21"
    and "src_step 4 (sar d) = Some srcinc" "dst_step 4 (dar d) = dstinc"
    and "\<forall>i < n. main_word (of_nat p) region (saddr d + of_nat i * srcinc) \<and>
      main_word (of_nat p) region (daddr d + of_nat i * dstinc)"
    and "apart k (saddr d) (daddr d) srcinc dstinc n"
  shows "\<exists>time. dma_doCopy B p c (m, t) =
    upd_hw (dma_finish p c (of_nat n) time (saddr d + of_nat n * srcinc) (daddr d + of_nat n * dstinc))
     (dma_main.writes B (of_nat p) (transfer B (of_nat p) (saddr d) (daddr d) srcinc dstinc n m) m, t)"
proof -
  have P: "(of_nat p :: u32) = 0 \<or> (of_nat p :: u32) = 1" using assms(3) by (cases p) auto
  have nz: "(of_nat n :: u32) \<noteq> 0" using n(2,3) by (simp add: word_of_nat_eq_0_iff nat_dvd_not_less)
  then have todo: "dma_todo p d (card_transfer_count h p) = of_nat n"
    using assms(5) n(1) by (simp add: dma_todo_def Let_def)
  have "sint (of_nat n :: u32) = int n" using n(3) by (simp add: signed_of_nat signed_take_bit_int_eq_self)
  then have count: "nat (sint (of_nat n :: u32)) = n" by simp
  obtain time where loop: "dma_loop B p True srcinc dstinc n (0, saddr d, daddr d, m, t) =
      (time, saddr d + of_nat n * srcinc, daddr d + of_nat n * dstinc,
       dma_main.writes B (of_nat p) (transfer B (of_nat p) (saddr d) (daddr d) srcinc dstinc n m) m, t)"
    using dma_loop_main [OF refl P assms(4,12,13)] by blast
  have d: "dma h p c = d" by (simp add: d_def h_def)
  show ?thesis
    unfolding dma_doCopy_def Let_def fst_conv h_def [symmetric] d todo count
    using assms(5,6,10,11) loop by (intro exI [of _ time]) simp
qed

text \<open>A channel that is set up to copy \<open>n\<close> words at once, between words of the main memory.\<close>

definition copy_ready ::
  "nat \<Rightarrow> nat \<Rightarrow> u32 \<Rightarrow> u32 \<Rightarrow> u32 \<Rightarrow> u32 \<Rightarrow> nat \<Rightarrow> HW MMU \<Rightarrow> bool" where
  "copy_ready p c k region srcinc dstinc n m =
     (let d = dma (rest m) p c in
      p < 2 \<and> main_ok k region m \<and> dma_enable d \<and> \<not> running d \<and> dma_startmode d = 0 \<and> bitWidth32 d \<and>
      wordcount d = of_nat n \<and> 0 < n \<and> n < 2 ^ 21 \<and> src_step 4 (sar d) = Some srcinc \<and> dst_step 4 (dar d) = dstinc \<and>
      (\<forall>i < n. main_word (of_nat p) region (saddr d + of_nat i * srcinc) \<and>
        main_word (of_nat p) region (daddr d + of_nat i * dstinc)) \<and>
      apart k (saddr d) (daddr d) srcinc dstinc n)"

text \<open>
  C10. An immediate transfer of words in the main memory copies (or fills, when an address is fixed), for either
  processor and each way to update the addresses, when no word is read after it was overwritten: every
  destination that is written once holds the word of its source, no other word changes, and the channel
  runs with its source advanced and an event scheduled. At that event, whenever it comes, the channel stops,
  stays enabled only if it repeats, requests its interrupt if it is asked to, and leaves the memory alone.
\<close>
theorem dma_transfer:
  assumes "copy_ready p c k region srcinc dstinc n m"
  shows "\<exists>m'. dma_exec B p c (m, t) = (m', t) \<and>
    (let d = dma (rest m) p c; d' = dma (rest m') p c in
     (separate k (daddr d) dstinc n \<longrightarrow>
       (\<forall>i < n. cell k m' (daddr d + of_nat i * dstinc) = cell k m (saddr d + of_nat i * srcinc))) \<and>
     (\<forall>b. main_word (of_nat p) region b \<and> (\<forall>i < n. b AND k \<noteq> (daddr d + of_nat i * dstinc) AND k) \<longrightarrow>
       cell k m' b = cell k m b) \<and>
     running d' \<and> dmaCheck d' \<and> saddr d' = saddr d + of_nat n * srcinc \<and>
     wordcount d' = (if repeatMode d then wordcount d else 0) \<and>
     (\<forall>now. let e = dma_exec B p c (upd_hw (\<lambda>h. h\<lparr>nds_timer := now\<rparr>) (m', t)) in
       \<not> running (channel p c e) \<and> dma_enable (channel p c e) = repeatMode d \<and> MAIN_MEM (fst e) = MAIN_MEM m' \<and>
       reg_IF_bits (rest (fst e)) p =
         reg_IF_bits (rest m) p OR (if dma_irq d then push_bit (8 + c) 1 else 0)))"
proof -
  let ?d = "dma (rest m) p c" and ?P = "of_nat p :: u32"
  let ?m = "m\<lparr>rest := started p c (rest m)\<rparr>"
  note r = assms [unfolded copy_ready_def Let_def]
  have P: "?P = 0 \<or> ?P = 1" using r by (cases p) auto
  have same: "cell k ?m = cell k m" by (simp add: cell_def fun_eq_iff)
  have ok: "main_ok k region ?m" using r by (simp add: main_ok_def)
  have w: "\<forall>i < n. main_word ?P region (saddr ?d + of_nat i * srcinc) \<and> main_word ?P region (daddr ?d + of_nat i * dstinc)"
    using r by blast
  have "dma_exec B p c (m, t) = dma_doCopy B p c (?m, t)" using r by (intro exec_start) simp_all
  moreover obtain time where "dma_doCopy B p c (?m, t) =
    upd_hw (dma_finish p c (of_nat n) time (saddr ?d + of_nat n * srcinc) (daddr ?d + of_nat n * dstinc))
     (dma_main.writes B ?P (transfer B ?P (saddr ?d) (daddr ?d) srcinc dstinc n ?m) ?m, t)"
    using copy_words [where m = ?m and p = p and c = c and k = k and region = region and n = n and srcinc = srcinc and dstinc = dstinc and B = B and t = t] r ok by (auto simp: started_fields)
  ultimately obtain time where e: "dma_exec B p c (m, t) =
    upd_hw (dma_finish p c (of_nat n) time (saddr ?d + of_nat n * srcinc) (daddr ?d + of_nat n * dstinc))
     (dma_main.writes B ?P (transfer B ?P (saddr ?d) (daddr ?d) srcinc dstinc n ?m) ?m, t)" by auto
  define M where "M = dma_main.writes B ?P (transfer B ?P (saddr ?d) (daddr ?d) srcinc dstinc n ?m) ?m"
  define F where "F = dma_finish p c (of_nat n) time (saddr ?d + of_nat n * srcinc) (daddr ?d + of_nat n * dstinc)"
  define m' where "m' = M\<lparr>rest := F (rest M)\<rparr>"
  note t = transfer_effect [OF P ok w, where B = B, folded M_def, unfolded same]
  have rm: "rest M = started p c (rest m)" using t(1) by simp
  have cells: "cell k m' = cell k M" by (simp add: m'_def cell_def fun_eq_iff)
  have d': "running (dma (rest m') p c)" "dmaCheck (dma (rest m') p c)" "saddr (dma (rest m') p c) = saddr ?d + of_nat n * srcinc"
    "wordcount (dma (rest m') p c) = (if repeatMode ?d then wordcount ?d else 0)" "repeatMode (dma (rest m') p c) = repeatMode ?d"
    "dma_irq (dma (rest m') p c) = dma_irq ?d" "startmode (dma (rest m') p c) = EDMAMode_Immediate"
    "dma_enable (dma (rest m') p c)" "reg_IF_bits (rest m') p = reg_IF_bits (rest m) p"
    using r by (simp_all add: m'_def F_def rm finish_fields started_fields)
  have stop: "let e = dma_exec B p c (upd_hw (\<lambda>h. h\<lparr>nds_timer := now\<rparr>) (m', t)) in
       \<not> running (channel p c e) \<and> dma_enable (channel p c e) = repeatMode ?d \<and> MAIN_MEM (fst e) = MAIN_MEM m' \<and>
       reg_IF_bits (rest (fst e)) p = reg_IF_bits (rest m) p OR (if dma_irq ?d then push_bit (8 + c) 1 else 0)" for now
  proof -
    let ?s = "upd_hw (\<lambda>h. h\<lparr>nds_timer := now\<rparr>) (m', t)"
    have ch: "channel p c ?s = dma (rest m') p c" by (simp add: channel_upd)
    have s: "rest (fst ?s) = (rest m')\<lparr>nds_timer := now\<rparr>" "MAIN_MEM (fst ?s) = MAIN_MEM m'" by (simp_all add: upd_hw_def)
    show ?thesis using exec_stop [where p = p and c = c and s = ?s and B = B] d' unfolding ch s Let_def by simp
  qed
  have "dma_exec B p c (m, t) = (m', t)" by (simp add: e m'_def M_def F_def upd_hw_def)
  moreover have "separate k (daddr ?d) dstinc n \<longrightarrow>
      (\<forall>i < n. cell k m' (daddr ?d + of_nat i * dstinc) = cell k m (saddr ?d + of_nat i * srcinc))"
    unfolding cells using t(3) by blast
  moreover have "\<forall>b. main_word ?P region b \<and> (\<forall>i < n. b AND k \<noteq> (daddr ?d + of_nat i * dstinc) AND k) \<longrightarrow>
      cell k m' b = cell k m b" unfolding cells using t(4) by blast
  ultimately show ?thesis using stop d' unfolding Let_def by blast
qed


text \<open>Channel 3 of the ARM7 copies the words at 0x02000000 and 0x02000004 to 0x02000100, with an interrupt.\<close>

definition example_channel :: DmaController where
  "example_channel = \<lparr>dma_enable = True, dma_irq = True, repeatMode = False, dma_startmode = 0, wordcount = 2,
     startmode = EDMAMode_Immediate, bitWidth32 = True, sar = SAR_Increment, dar = DAR_Increment,
     saddr = 0x02000000, daddr = 0x02000100, saddr_user = 0x02000000, daddr_user = 0x02000100, dmaCheck = True,
     running = False, paused = False, triggered = False, nextEvent = 0\<rparr>"

definition example_dma :: "HW \<Rightarrow> HW MMU" where
  "example_dma h = \<lparr>MAIN_MEM = (\<lambda>i. of_nat (i mod 256)), ARM9_DTCM = (\<lambda>_. 0), ARM9_ITCM = (\<lambda>_. 0),
     ARM7_BIOS = (\<lambda>_. 0), DTCMRegion = 0x027C0000, MAIN_MEM_MASK = 0x3FFFFF, MAIN_MEM_MASK16 = 0x3FFFFE,
     MAIN_MEM_MASK32 = 0x3FFFFC, rest = upd_dma 1 3 (\<lambda>_. example_channel) h\<rparr>"

lemma example_copy_ready: "copy_ready 1 3 0x3FFFFC 0x027C0000 4 4 2 (example_dma h)"
proof -
  have two: "(\<forall>i < 2. P i) \<longleftrightarrow> P 0 \<and> P 1" for P :: "nat \<Rightarrow> bool" by (auto simp: less_2_cases_iff)
  have "apart 0x3FFFFC 0x02000000 0x02000100 4 4 2" by (simp add: apart_def two)
  then show ?thesis
    by (simp add: copy_ready_def Let_def example_dma_def upd_dma_def example_channel_def main_ok_def two main_word_def
        in_main_def src_step_def dst_step_def)
qed

theorem dma_transfer_witness:
  "\<forall>h B t. \<exists>m'. dma_exec B 1 3 (example_dma h, t) = (m', t) \<and> cell 0x3FFFFC m' 0x02000104 = 0x07060504"
proof (intro allI)
  fix h B t
  have two: "(\<forall>i < 2. P i) \<longleftrightarrow> P 0 \<and> P 1" for P :: "nat \<Rightarrow> bool" by (auto simp: less_2_cases_iff)
  have f: "saddr (dma (rest (example_dma h)) 1 3) = 0x02000000" "daddr (dma (rest (example_dma h)) 1 3) = 0x02000100"
    by (simp_all add: example_dma_def upd_dma_def example_channel_def)
  have "separate 0x3FFFFC 0x02000100 4 2" by (simp add: separate_def two)
  then obtain m' where m': "dma_exec B 1 3 (example_dma h, t) = (m', t)"
    "cell 0x3FFFFC m' 0x02000104 = cell 0x3FFFFC (example_dma h) 0x02000004"
    using dma_transfer [OF example_copy_ready, of B h t] unfolding f Let_def two by auto
  have "cell 0x3FFFFC (example_dma h) 0x02000004 = 0x07060504"
    by (simp add: cell_def example_dma_def T1ReadLong_guaranteedAligned_def)
  then show "\<exists>m'. dma_exec B 1 3 (example_dma h, t) = (m', t) \<and> cell 0x3FFFFC m' 0x02000104 = 0x07060504"
    using m' by auto
qed

section \<open>The prohibited source mode\<close>

lemma trigger_busy:
  assumes "running (dma h p c)" "\<not> paused (dma h p c)"
  shows "dma (tryTrigger mode q j h) p c = dma h p c"
  using assms by (auto simp: tryTrigger_def Let_def doSchedule_def NDS_RescheduleDMA_def HW_Reschedule_def upd_dma_def)

lemma trigger_fold_busy:
  assumes "running (dma h p c)" "\<not> paused (dma h p c)"
  shows "dma (fold (\<lambda>(q, j). tryTrigger mode q j) qs h) p c = dma h p c"
  using assms by (induction qs arbitrary: h) (auto simp: trigger_busy)

text \<open>
  C40. A channel with the prohibited way to update the source gets stuck: when it is triggered it copies nothing
  but is marked as running, with no event scheduled for it; no later trigger, of any mode, changes it, and
  the sequencer never selects it again.
\<close>
theorem dma_invalid_source:
  assumes "dma_enable (dma (rest m) p c)" "\<not> running (dma (rest m) p c)" "dma_startmode (dma (rest m) p c) = 0"
    and "sar (dma (rest m) p c) = SAR_Invalid"
  shows "\<exists>h'. dma_exec B p c (m, t) = (m\<lparr>rest := h'\<rparr>, t) \<and> running (dma h' p c) \<and> \<not> dma_isTriggered p c h' \<and>
    (\<forall>mode. running (dma (triggerDma mode h') p c) \<and> \<not> dma_isTriggered p c (triggerDma mode h'))"
proof -
  let ?h = "started p c (rest m)"
  have f: "running (dma ?h p c)" "\<not> paused (dma ?h p c)" "\<not> dmaCheck (dma ?h p c)"
    by (simp_all add: started_def upd_dma_def enter_def)
  have "dma_exec B p c (m, t) = dma_doCopy B p c (m\<lparr>rest := ?h\<rparr>, t)" using assms by (intro exec_start) simp_all
  also have "\<dots> = (m\<lparr>rest := ?h\<rparr>, t)"
    using assms(4) by (simp add: dma_doCopy_def Let_def started_fields src_step_def)
  finally have "dma_exec B p c (m, t) = (m\<lparr>rest := ?h\<rparr>, t)" .
  moreover have "dma (triggerDma mode ?h) p c = dma ?h p c" for mode
    unfolding triggerDma_def by (rule trigger_fold_busy [OF f(1,2)])
  ultimately show ?thesis using f by (intro exI [of _ ?h]) (simp add: dma_isTriggered_def)
qed

theorem dma_invalid_source_witness:
  "\<forall>h B t. \<exists>h'. dma_exec B 1 3 ((example_dma h)\<lparr>rest := upd_dma 1 3 (\<lambda>_. example_channel\<lparr>sar := SAR_Invalid\<rparr>) h\<rparr>, t) =
    ((example_dma h)\<lparr>rest := h'\<rparr>, t) \<and> running (dma h' 1 3)"
proof (intro allI)
  fix h B t
  let ?m = "(example_dma h)\<lparr>rest := upd_dma 1 3 (\<lambda>_. example_channel\<lparr>sar := SAR_Invalid\<rparr>) h\<rparr>"
  have "dma (rest ?m) 1 3 = example_channel\<lparr>sar := SAR_Invalid\<rparr>" by (simp add: upd_dma_def)
  then have c: "dma_enable (dma (rest ?m) 1 3)" "\<not> running (dma (rest ?m) 1 3)" "dma_startmode (dma (rest ?m) 1 3) = 0"
    "sar (dma (rest ?m) 1 3) = SAR_Invalid" by (simp_all add: example_channel_def)
  show "\<exists>h'. dma_exec B 1 3 (?m, t) = ((example_dma h)\<lparr>rest := h'\<rparr>, t) \<and> running (dma h' 1 3)"
    using dma_invalid_source [OF c, of B t] by auto
qed

end
