(* ===== verification/Display.thy ===== *)
theory Display
  imports Hardware
begin

text \<open>
  The scan lines of the display: the functions \<open>execHardware_...\<close> of \<^verbatim>\<open>NDSSystem.cpp\<close> and the first part of
  \<open>Sequencer::execHardware\<close>. A line has four stages of fixed length; there are 263 lines in a frame, and the
  last 71 of them are the vertical blank. Drawing, sound and the end of a frame on the host are arguments
  (\<open>HOOKS\<close>), functions on the device state.
\<close>

record HOOKS =
  RenderLine :: "HW \<Rightarrow> HW"
  gfx3d_VBlankSignal :: "HW \<Rightarrow> HW"
  gfx3d_VBlankEndSignal :: "HW \<Rightarrow> HW"
  SPU_Emulate_core :: "HW \<Rightarrow> HW"
  gfx3d_execute3D :: "HW \<Rightarrow> HW"
  frame_advance :: "HW \<Rightarrow> HW"

definition IRQ_BIT_LCD_VBLANK :: nat where "IRQ_BIT_LCD_VBLANK = 0"
definition IRQ_BIT_LCD_HBLANK :: nat where "IRQ_BIT_LCD_HBLANK = 1"
definition IRQ_BIT_LCD_VMATCH :: nat where "IRQ_BIT_LCD_VMATCH = 2"

text \<open>A change of the status register of the display of both processors, and a halfword of the registers.\<close>

definition both_status :: "(u16 \<Rightarrow> u16) \<Rightarrow> HW \<Rightarrow> HW" where
  "both_status f h =
     upd_REG 1 (\<lambda>r. T1WriteWord r 4 (f (T1ReadWord r 4))) (upd_REG 0 (\<lambda>r. T1WriteWord r 4 (f (T1ReadWord r 4))) h)"

definition status :: "nat \<Rightarrow> HW \<Rightarrow> u16" where "status p h = T1ReadWord (REG h p) 4"

definition set_pending :: "nat \<Rightarrow> nat \<Rightarrow> HW \<Rightarrow> HW" where
  "set_pending p n h = h\<lparr>reg_IF_pending := (reg_IF_pending h)(p := reg_IF_pending h p OR push_bit n 1)\<rparr>"

text \<open>A pending interrupt becomes a request.\<close>

definition fire_pending :: "nat \<Rightarrow> nat \<Rightarrow> HW \<Rightarrow> HW" where
  "fire_pending n p h =
     (if bit (reg_IF_pending h p) n
      then NDS_makeIrq p n (h\<lparr>reg_IF_pending := (reg_IF_pending h)(p := reg_IF_pending h p AND NOT (push_bit n 1))\<rparr>)
      else h)"

definition execHardware_hblank :: "HOOKS \<Rightarrow> HW \<Rightarrow> HW" where
  "execHardware_hblank K h =
     (let h = (if VCount h < 192 then triggerDma EDMAMode_HBlank (RenderLine K h) else h);
          h = both_status (\<lambda>x. x OR 2) h;
          h = (if status 0 h AND 0x10 \<noteq> 0 then NDS_makeIrq 0 IRQ_BIT_LCD_HBLANK h else h);
          h = (if status 1 h AND 0x10 \<noteq> 0 then NDS_makeIrq 1 IRQ_BIT_LCD_HBLANK h else h) in
      SPU_Emulate_core K h)"

definition execHardware_hstart_vblankEnd :: "HOOKS \<Rightarrow> HW \<Rightarrow> HW" where
  "execHardware_hstart_vblankEnd K h =
     (let h = h\<lparr>nds_vblankEnded := True, resched := True\<rparr>;
          h = both_status (\<lambda>x. x AND NOT 1) h in
      frame_advance K h)"

definition execHardware_hstart_vblankStart :: "HW \<Rightarrow> HW" where
  "execHardware_hstart_vblankStart h =
     (let h = fire_pending IRQ_BIT_LCD_VBLANK 1 (fire_pending IRQ_BIT_LCD_VBLANK 0 h);
          h = triggerDma EDMAMode_VBlank h;
          n = unat (idleFrameCounter h) in
      h\<lparr>runCycleCollector := (runCycleCollector h)
          (0 := (runCycleCollector h 0)(n := 1120380 - idleCycles h 0),
           1 := (runCycleCollector h 1)(n := 1120380 - idleCycles h 1)),
        idleFrameCounter := (idleFrameCounter h + 1) AND 15,
        idleCycles := (idleCycles h)(0 := 0, 1 := 0)\<rparr>)"

definition vmatch_goal :: "u16 \<Rightarrow> u32" where
  "vmatch_goal x = ucast (drop_bit 8 x) OR (push_bit 1 (ucast x) AND push_bit 8 1)"

definition execHardware_hstart_vcount_irq :: "HW \<Rightarrow> HW" where
  "execHardware_hstart_vcount_irq h = fire_pending IRQ_BIT_LCD_VMATCH 1 (fire_pending IRQ_BIT_LCD_VMATCH 0 h)"

definition vcount_match :: "nat \<Rightarrow> HW \<Rightarrow> HW" where
  "vcount_match p h =
     (if VCount h = vmatch_goal (status p h) then
        (let h = upd_REG p (\<lambda>r. T1WriteWord r 4 (T1ReadWord r 4 OR 4)) h in
         if status p h AND 32 \<noteq> 0 then set_pending p IRQ_BIT_LCD_VMATCH h else h)
      else upd_REG p (\<lambda>r. T1WriteWord r 4 (T1ReadWord r 4 AND 0xFFFB)) h)"

definition execHardware_hstart_vcount :: "HW \<Rightarrow> HW" where
  "execHardware_hstart_vcount h = vcount_match 1 (vcount_match 0 h)"

definition execHardware_hstart_irq :: "HW \<Rightarrow> HW" where
  "execHardware_hstart_irq h =
     (let h = h\<lparr>resched := True\<rparr>;
          h = (if VCount h = 192 then execHardware_hstart_vblankStart h else h) in
      execHardware_hstart_vcount_irq h)"

definition vblank_flag :: "HW \<Rightarrow> HW" where
  "vblank_flag h =
     (let h = both_status (\<lambda>x. x OR 1) h;
          h = (if status 0 h AND 8 \<noteq> 0 then set_pending 0 IRQ_BIT_LCD_VBLANK h else h) in
      if status 1 h AND 8 \<noteq> 0 then set_pending 1 IRQ_BIT_LCD_VBLANK h else h)"

text \<open>The next line: the \<open>switch\<close> over the line counter, and the registers.\<close>

definition hstart_line :: "HOOKS \<Rightarrow> HW \<Rightarrow> HW" where
  "hstart_line K h =
     (if VCount h = 214 then (if rigorous_timing h then gfx3d_VBlankEndSignal K h else h)
      else if VCount h = 263 then h\<lparr>VCount := 0\<rparr>
      else if VCount h = 262 then
        execHardware_hstart_vblankEnd K (if \<not> rigorous_timing h then gfx3d_VBlankEndSignal K h else h)
      else if VCount h = 192 then NDS_RescheduleGXFIFO (392 * 2) (gfx3d_VBlankSignal K (vblank_flag h))
      else h)"

definition hstart_registers :: "HW \<Rightarrow> HW" where
  "hstart_registers h =
     (let v = ucast (VCount h);
          h = upd_REG 0 (\<lambda>r. T1WriteWord (T1WriteWord r 6 v) 0x1006 v) h;
          h = upd_REG 1 (\<lambda>r. T1WriteWord (T1WriteWord r 6 v) 0x1006 v) h in
      both_status (\<lambda>x. x AND 0xFFFD) h)"

definition execHardware_hstart :: "HOOKS \<Rightarrow> HW \<Rightarrow> HW" where
  "execHardware_hstart K h =
     (let h = hstart_line K (h\<lparr>VCount := VCount h + 1\<rparr>);
          h = execHardware_hstart_vcount (hstart_registers h);
          h = triggerDma EDMAMode_HStart h in
      if VCount h < 192 then triggerDma EDMAMode_MemDisplay h else h)"

text \<open>The display part of \<open>execHardware\<close>.\<close>

definition next_stage :: "u64 \<Rightarrow> ESI_DISPCNT \<Rightarrow> HW \<Rightarrow> HW" where
  "next_stage time stage h = h\<lparr>dispcnt_timestamp := dispcnt_timestamp h + time, dispcnt_param := stage\<rparr>"

definition dispcnt_isTriggered :: "HW \<Rightarrow> bool" where
  "dispcnt_isTriggered h = (dispcnt_enabled h \<and> nds_timer h \<ge> dispcnt_timestamp h)"

definition dispcnt_exec :: "HOOKS \<Rightarrow> HW \<Rightarrow> HW" where
  "dispcnt_exec K h =
     (case dispcnt_param h of
        ESI_DISPCNT_HStart \<Rightarrow> next_stage (1 * 6 * 2) ESI_DISPCNT_HStartIRQ (execHardware_hstart K h)
      | ESI_DISPCNT_HStartIRQ \<Rightarrow> next_stage (7 * 6 * 2) ESI_DISPCNT_HDraw (execHardware_hstart_irq h)
      | ESI_DISPCNT_HDraw \<Rightarrow> next_stage ((267 - 8) * 6 * 2) ESI_DISPCNT_HBlank h
      | ESI_DISPCNT_HBlank \<Rightarrow> next_stage ((355 - 267) * 6 * 2) ESI_DISPCNT_HStart (execHardware_hblank K h))"

end
