(* ===== verification/DisplayProperties.thy ===== *)
theory DisplayProperties
  imports Display
begin

text \<open>
  The properties of the scan lines: the length of a line and of a frame, the range of the line counter, the
  end of the vertical blank once per frame, and the interrupts of the display.
\<close>

section \<open>What the operations keep\<close>

text \<open>The state of the stages: line, time of the next stage, stage, and the flag for the end of the frame.\<close>

definition disp :: "HW \<Rightarrow> u32 \<times> u64 \<times> ESI_DISPCNT \<times> bool" where
  "disp h = (VCount h, dispcnt_timestamp h, dispcnt_param h, nds_vblankEnded h)"

text \<open>Drawing and sound leave that state and the requests for interrupts alone.\<close>

definition quiet :: "(HW \<Rightarrow> HW) \<Rightarrow> bool" where
  "quiet f \<longleftrightarrow> (\<forall>h. disp (f h) = disp h)"

definition hooks_ok :: "HOOKS \<Rightarrow> bool" where
  "hooks_ok K \<longleftrightarrow> quiet (RenderLine K) \<and> quiet (gfx3d_VBlankSignal K) \<and> quiet (gfx3d_VBlankEndSignal K) \<and>
     quiet (SPU_Emulate_core K) \<and> quiet (frame_advance K)"

lemma hooks_disp:
  "hooks_ok K \<Longrightarrow> disp (RenderLine K h) = disp h" "hooks_ok K \<Longrightarrow> disp (gfx3d_VBlankSignal K h) = disp h"
  "hooks_ok K \<Longrightarrow> disp (gfx3d_VBlankEndSignal K h) = disp h" "hooks_ok K \<Longrightarrow> disp (SPU_Emulate_core K h) = disp h"
  "hooks_ok K \<Longrightarrow> disp (frame_advance K h) = disp h"
  by (simp_all add: hooks_ok_def quiet_def)

lemma trigger_disp: "disp (triggerDma mode h) = disp h"
proof -
  have one: "disp (tryTrigger mode p c h) = disp h" for p c h
    by (simp add: disp_def tryTrigger_def Let_def doSchedule_def NDS_RescheduleDMA_def HW_Reschedule_def upd_dma_def)
  have "disp (fold (\<lambda>(p, c). tryTrigger mode p c) qs h) = disp h" for qs
    by (induction qs arbitrary: h) (auto simp: one)
  then show ?thesis by (simp only: triggerDma_def)
qed

lemma simple_disp:
  "disp (NDS_makeIrq p n h) = disp h" "disp (both_status f h) = disp h" "disp (set_pending p n h) = disp h"
  "disp (fire_pending n p h) = disp h" "disp (upd_REG p g h) = disp h" "disp (NDS_RescheduleGXFIFO k h) = disp h"
  by (simp_all add: disp_def NDS_makeIrq_def setIF_def HW_Reschedule_def both_status_def set_pending_def fire_pending_def
      upd_REG_def NDS_RescheduleGXFIFO_def Let_def)

lemma block_disp:
  "disp (vcount_match p h) = disp h" "disp (execHardware_hstart_vblankStart h) = disp h"
  "disp (vblank_flag h) = disp h"
  "hooks_ok K \<Longrightarrow> disp (execHardware_hblank K h) = disp h"
  "disp (execHardware_hstart_irq h) = disp h"
proof -
  show b: "disp (execHardware_hstart_vblankStart h) = disp h" for h
    using trigger_disp simple_disp(4) by (simp add: execHardware_hstart_vblankStart_def Let_def disp_def)
  show "disp (vcount_match p h) = disp h" "disp (vblank_flag h) = disp h"
    by (simp_all add: vcount_match_def vblank_flag_def Let_def simple_disp)
  show "hooks_ok K \<Longrightarrow> disp (execHardware_hblank K h) = disp h"
    by (simp add: execHardware_hblank_def Let_def simple_disp hooks_disp trigger_disp)
  have "disp (h\<lparr>resched := True\<rparr>) = disp h" by (simp add: disp_def)
  then show "disp (execHardware_hstart_irq h) = disp h"
    by (simp add: execHardware_hstart_irq_def execHardware_hstart_vcount_irq_def Let_def simple_disp b)
qed


section \<open>Lines and frames\<close>

lemma vblankEnd_disp:
  "hooks_ok K \<Longrightarrow> disp (execHardware_hstart_vblankEnd K h) = (VCount h, dispcnt_timestamp h, dispcnt_param h, True)"
  by (simp add: execHardware_hstart_vblankEnd_def Let_def hooks_disp simple_disp) (simp add: disp_def)

text \<open>The start of a line: the new line, and whether the vertical blank ends.\<close>

definition next_line :: "u32 \<Rightarrow> u32" where "next_line v = (if v = 262 then 0 else v + 1)"

lemma line_disp:
  assumes "hooks_ok K"
  shows "disp (hstart_line K h) =
    (if VCount h = 263 then 0 else VCount h, dispcnt_timestamp h, dispcnt_param h, nds_vblankEnded h \<or> VCount h = 262)"
proof -
  have e: "VCount (gfx3d_VBlankEndSignal K h) = VCount h" "dispcnt_timestamp (gfx3d_VBlankEndSignal K h) = dispcnt_timestamp h"
    "dispcnt_param (gfx3d_VBlankEndSignal K h) = dispcnt_param h"
    using hooks_disp(3) [OF assms, of h] by (simp_all add: disp_def)
  have d: "disp h = (VCount h, dispcnt_timestamp h, dispcnt_param h, nds_vblankEnded h)" by (simp add: disp_def)
  consider "VCount h = 214" | "VCount h = 263" | "VCount h = 262" | "VCount h = 192"
    | "VCount h \<noteq> 214" "VCount h \<noteq> 263" "VCount h \<noteq> 262" "VCount h \<noteq> 192" by blast
  then show ?thesis
  proof cases
    case 1
    then show ?thesis using assms d by (simp add: hstart_line_def hooks_disp)
  next
    case 2
    then show ?thesis by (simp add: hstart_line_def disp_def)
  next
    case 3
    then show ?thesis using assms by (simp add: hstart_line_def vblankEnd_disp e)
  next
    case 4
    then show ?thesis using assms d by (simp add: hstart_line_def simple_disp hooks_disp block_disp)
  next
    case 5
    then show ?thesis using d by (simp add: hstart_line_def)
  qed
qed

lemma hstart_disp:
  assumes "hooks_ok K"
  shows "disp (execHardware_hstart K h) =
    (next_line (VCount h), dispcnt_timestamp h, dispcnt_param h, nds_vblankEnded h \<or> next_line (VCount h) = 262)"
proof -
  let ?l = "hstart_line K (h\<lparr>VCount := VCount h + 1\<rparr>)"
  have r: "disp (execHardware_hstart_vcount (hstart_registers ?l)) = disp ?l"
    by (simp add: execHardware_hstart_vcount_def hstart_registers_def Let_def simple_disp block_disp)
  have "VCount h + 1 = 263 \<longleftrightarrow> VCount h = 262" by (auto dest: arg_cong [where f = "\<lambda>x. x - 1"])
  moreover have "disp (execHardware_hstart K h) = disp ?l"
    by (simp add: execHardware_hstart_def Let_def trigger_disp r)
  ultimately show ?thesis using line_disp [OF assms, of "h\<lparr>VCount := VCount h + 1\<rparr>"] by (simp add: next_line_def)
qed

text \<open>The four stages of a line, in the cycles of the console.\<close>

lemma stage_disp:
  "disp (next_stage time stage h) = (VCount h, dispcnt_timestamp h + time, stage, nds_vblankEnded h)"
  by (simp add: next_stage_def disp_def)

lemma disp_eq: "disp h = (v, t, s, e) \<longleftrightarrow> VCount h = v \<and> dispcnt_timestamp h = t \<and> dispcnt_param h = s \<and> nds_vblankEnded h = e"
  by (simp add: disp_def)

lemma disp_fields:
  "disp a = disp b \<Longrightarrow> VCount a = VCount b \<and> dispcnt_timestamp a = dispcnt_timestamp b \<and>
    dispcnt_param a = dispcnt_param b \<and> nds_vblankEnded a = nds_vblankEnded b"
  by (simp add: disp_def)

lemma one_line:
  assumes "hooks_ok K" "dispcnt_param h = ESI_DISPCNT_HStart"
  shows "disp ((dispcnt_exec K ^^ 4) h) = (next_line (VCount h), dispcnt_timestamp h + 4260, ESI_DISPCNT_HStart,
    nds_vblankEnded h \<or> next_line (VCount h) = 262)"
proof -
  let ?a = "dispcnt_exec K h"
  have a: "disp ?a = (next_line (VCount h), dispcnt_timestamp h + 12, ESI_DISPCNT_HStartIRQ, nds_vblankEnded h \<or> next_line (VCount h) = 262)"
    using hstart_disp [OF assms(1), of h] assms(2) by (simp add: dispcnt_exec_def stage_disp disp_eq)
  let ?b = "dispcnt_exec K ?a"
  have b: "disp ?b = (next_line (VCount h), dispcnt_timestamp h + 96, ESI_DISPCNT_HDraw, nds_vblankEnded h \<or> next_line (VCount h) = 262)"
    using a disp_fields [OF block_disp(5) [of ?a]] by (simp add: dispcnt_exec_def [of K ?a] stage_disp disp_eq)
  let ?c = "dispcnt_exec K ?b"
  have c: "disp ?c = (next_line (VCount h), dispcnt_timestamp h + 3204, ESI_DISPCNT_HBlank, nds_vblankEnded h \<or> next_line (VCount h) = 262)"
    using b by (simp add: dispcnt_exec_def [of K ?b] stage_disp disp_eq)
  have "disp (dispcnt_exec K ?c) = (next_line (VCount h), dispcnt_timestamp h + 4260, ESI_DISPCNT_HStart, nds_vblankEnded h \<or> next_line (VCount h) = 262)"
    using c disp_fields [OF block_disp(4) [OF assms(1), of ?c]] by (simp add: dispcnt_exec_def [of K ?c] stage_disp disp_eq)
  then show ?thesis by (simp add: numeral_eq_Suc)
qed

lemma unat_next_line:
  assumes "unat v < 263"
  shows "unat (next_line v) = (unat v + 1) mod 263"
proof (cases "v = 262")
  case False
  then have "unat v \<noteq> 262" using word_eq_iff_unsigned [of v 262] by auto
  then show ?thesis using assms False by (simp add: next_line_def unat_word_ariths)
qed (simp add: next_line_def)

lemma lines:
  assumes "hooks_ok K" "dispcnt_param h = ESI_DISPCNT_HStart" "unat (VCount h) < 263"
  shows "let g = (dispcnt_exec K ^^ (4 * n)) h in
    unat (VCount g) = (unat (VCount h) + n) mod 263 \<and> dispcnt_timestamp g = dispcnt_timestamp h + of_nat n * 4260 \<and>
    dispcnt_param g = ESI_DISPCNT_HStart \<and>
    nds_vblankEnded g = (nds_vblankEnded h \<or> (\<exists>i \<in> {1..n}. (unat (VCount h) + i) mod 263 = 262))"
proof (induction n)
  case 0
  then show ?case using assms by simp
next
  case (Suc n)
  let ?g = "(dispcnt_exec K ^^ (4 * n)) h"
  have g: "unat (VCount ?g) = (unat (VCount h) + n) mod 263" "dispcnt_param ?g = ESI_DISPCNT_HStart"
    "dispcnt_timestamp ?g = dispcnt_timestamp h + of_nat n * 4260"
    "nds_vblankEnded ?g = (nds_vblankEnded h \<or> (\<exists>i \<in> {1..n}. (unat (VCount h) + i) mod 263 = 262))"
    using Suc by (simp_all add: Let_def)
  have s: "(dispcnt_exec K ^^ (4 * Suc n)) h = (dispcnt_exec K ^^ 4) ?g"
    by (simp only: mult_Suc_right funpow_add o_apply)
  have l: "unat (next_line (VCount ?g)) = (unat (VCount h) + Suc n) mod 263"
    using unat_next_line [of "VCount ?g"] g(1) by (simp add: mod_Suc_eq)
  have e: "next_line (VCount ?g) = 262 \<longleftrightarrow> (unat (VCount h) + Suc n) mod 263 = 262"
    unfolding l [symmetric] by (simp add: word_eq_iff_unsigned [where ?'a = nat])
  have "{1..Suc n} = insert (Suc n) {1..n}" by auto
  then show ?case using one_line [OF assms(1) g(2)] g(3,4) l e unfolding s Let_def disp_eq
    by (auto simp: algebra_simps)
qed

text \<open>
  C23. The display runs in frames of exactly 1120380 cycles: from the start of any line, the 1052 stages of 263
  lines of 4260 cycles bring the counter back to the same line; the line stays below 263 all the time; and
  the end of the vertical blank is reported within these stages, whatever the line to start with, provided
  that drawing and sound do not touch the state of the stages.
\<close>
theorem display_frame:
  assumes "hooks_ok K" "dispcnt_param h = ESI_DISPCNT_HStart" "unat (VCount h) < 263"
  shows "(let g = (dispcnt_exec K ^^ 1052) h in
      VCount g = VCount h \<and> dispcnt_timestamp g = dispcnt_timestamp h + 1120380 \<and>
      dispcnt_param g = ESI_DISPCNT_HStart \<and> nds_vblankEnded g) \<and>
    (\<forall>n. unat (VCount ((dispcnt_exec K ^^ (4 * n)) h)) < 263 \<and>
      (nds_vblankEnded ((dispcnt_exec K ^^ (4 * n)) h) \<longleftrightarrow>
        nds_vblankEnded h \<or> (\<exists>i \<in> {1..n}. (unat (VCount h) + i) mod 263 = 262)))"
proof -
  let ?v = "unat (VCount h)"
  have "\<exists>i \<in> {1..263}. (?v + i) mod 263 = 262"
    using assms(3) by (intro bexI [of _ "if ?v = 262 then 263 else 262 - ?v"]) auto
  then have "let g = (dispcnt_exec K ^^ 1052) h in
      VCount g = VCount h \<and> dispcnt_timestamp g = dispcnt_timestamp h + 1120380 \<and>
      dispcnt_param g = ESI_DISPCNT_HStart \<and> nds_vblankEnded g"
    using lines [OF assms, of 263] assms(3) by (simp add: Let_def word_eq_iff_unsigned [where ?'a = nat])
  then show ?thesis using lines [OF assms] by (auto simp: Let_def)
qed

definition quiet_hooks :: HOOKS where
  "quiet_hooks = \<lparr>RenderLine = id, gfx3d_VBlankSignal = id, gfx3d_VBlankEndSignal = id, SPU_Emulate_core = id,
     gfx3d_execute3D = id, frame_advance = id\<rparr>"

text \<open>The console as \<open>initSchedule\<close> leaves it, in the last line of a frame.\<close>

definition display_start :: "HW \<Rightarrow> HW" where
  "display_start h = h\<lparr>dispcnt_param := ESI_DISPCNT_HStart, dispcnt_timestamp := 0, VCount := 262,
     nds_vblankEnded := False\<rparr>"

theorem display_frame_witness:
  "\<forall>h. dispcnt_timestamp ((dispcnt_exec quiet_hooks ^^ 1052) (display_start h)) = 1120380 \<and>
    \<not> nds_vblankEnded ((dispcnt_exec quiet_hooks ^^ (4 * 1)) (display_start h))"
proof
  fix h
  have "hooks_ok quiet_hooks" by (simp add: hooks_ok_def quiet_def quiet_hooks_def)
  moreover have "dispcnt_param (display_start h) = ESI_DISPCNT_HStart" "unat (VCount (display_start h)) < 263"
    by (simp_all add: display_start_def)
  ultimately have f: "(let g = (dispcnt_exec quiet_hooks ^^ 1052) (display_start h) in
      VCount g = VCount (display_start h) \<and> dispcnt_timestamp g = dispcnt_timestamp (display_start h) + 1120380 \<and>
      dispcnt_param g = ESI_DISPCNT_HStart \<and> nds_vblankEnded g)"
    "nds_vblankEnded ((dispcnt_exec quiet_hooks ^^ (4 * 1)) (display_start h)) \<longleftrightarrow>
        nds_vblankEnded (display_start h) \<or> (\<exists>i \<in> {1..1}. (unat (VCount (display_start h)) + i) mod 263 = 262)"
    using display_frame [of quiet_hooks "display_start h"] by blast+
  have t: "dispcnt_timestamp (display_start h) = 0" "\<not> nds_vblankEnded (display_start h)" "VCount (display_start h) = 262"
    by (simp_all add: display_start_def)
  have "\<not> nds_vblankEnded ((dispcnt_exec quiet_hooks ^^ (4 * 1)) (display_start h))"
    unfolding f(2) t(3) using t(2) by simp
  then show "dispcnt_timestamp ((dispcnt_exec quiet_hooks ^^ 1052) (display_start h)) = 1120380 \<and>
      \<not> nds_vblankEnded ((dispcnt_exec quiet_hooks ^^ (4 * 1)) (display_start h))"
    using f(1) t(1) by (simp only: Let_def) simp
qed

end
