(* ===== verification/ArmTable.thy ===== *)
theory ArmTable
  imports ArmBlock
begin

text \<open>
  The table of ARM instructions, \<^verbatim>\<open>instruction_tabdef.inc\<close>: the 4096 functions by bits 20 to 27 and 4 to 7 of
  the instruction (\<open>INSTRUCTION_INDEX\<close>), in 256 rows of 16. The first eight bits give the row. \<open>swi_tab\<close> is the
  table of functions of the emulated BIOS; \<open>mcr\<close> and \<open>mrc\<close> are the two coprocessor transfers, which need the state of
  the system coprocessor.
\<close>

section \<open>Kinds of rows\<close>

definition same_row :: "'m op \<Rightarrow> 'm op list" where "same_row f = replicate 16 f"

text \<open>
  A data-processing instruction with a shifted register: bit 4 selects a shift by a register; with bits 4 and 7 set
  there are four other instructions.
\<close>

definition alu_row :: "(shifter \<Rightarrow> 'm op) \<Rightarrow> 'm op \<Rightarrow> 'm op \<Rightarrow> 'm op \<Rightarrow> 'm op \<Rightarrow> 'm op list" where
  "alu_row f a b c d =
     [f LSL_IMM, f LSL_REG, f LSR_IMM, f LSR_REG, f ASR_IMM, f ASR_REG, f ROR_IMM, f ROR_REG,
      f LSL_IMM, a, f LSR_IMM, b, f ASR_IMM, c, f ROR_IMM, d]"

text \<open>A transfer of a word or a byte with a shifted register as offset, and the coprocessor instructions.\<close>

definition offset_row :: "(word_offset \<Rightarrow> 'm op) \<Rightarrow> 'm op list" where
  "offset_row g =
     concat (replicate 2 [g LSL_IMM_OFF, OP_UND, g LSR_IMM_OFF, OP_UND, g ASR_IMM_OFF, OP_UND, g ROR_IMM_OFF, OP_UND])"

definition pair_row :: "'m op \<Rightarrow> 'm op \<Rightarrow> 'm op list" where
  "pair_row x y = concat (replicate 8 [x, y])"

section \<open>The rows\<close>

definition data_rows :: "'m MEM \<Rightarrow> 'm op list list" where
  "data_rows M =
     [alu_row AND_fn OP_MUL (OP_STRH_POSTIND M REG_OFF False) (OP_LDRD_STRD_POST_INDEX M) (OP_LDRD_STRD_POST_INDEX M),
      alu_row AND_S_fn OP_MUL_S (OP_LDRH_POSTIND M REG_OFF False) (OP_LDRSB_POSTIND M REG_OFF False)
         (OP_LDRSH_POSTIND M REG_OFF False),
      alu_row EOR_fn OP_MLA OP_UND OP_UND OP_UND, alu_row EOR_S_fn OP_MLA_S OP_UND OP_UND OP_UND,
      alu_row SUB_fn OP_UND (OP_STRH_POSTIND M IMM_OFF False) (OP_LDRD_STRD_POST_INDEX M) (OP_LDRD_STRD_POST_INDEX M),
      alu_row SUB_S_fn OP_UND (OP_LDRH_POSTIND M IMM_OFF False) (OP_LDRSB_POSTIND M IMM_OFF False)
         (OP_LDRSH_POSTIND M IMM_OFF False),
      alu_row RSB_fn OP_UND OP_UND OP_UND OP_UND, alu_row RSB_S_fn OP_UND OP_UND OP_UND OP_UND,
      alu_row ADD_fn OP_UMULL (OP_STRH_POSTIND M REG_OFF True) (OP_LDRD_STRD_POST_INDEX M)
         (OP_LDRD_STRD_POST_INDEX M),
      alu_row ADD_S_fn OP_UMULL_S (OP_LDRH_POSTIND M REG_OFF True) (OP_LDRSB_POSTIND M REG_OFF True)
         (OP_LDRSH_POSTIND M REG_OFF True),
      alu_row ADC_fn OP_UMLAL OP_UND OP_UND OP_UND, alu_row ADC_S_fn OP_UMLAL_S OP_UND OP_UND OP_UND,
      alu_row SBC_fn OP_SMULL (OP_STRH_POSTIND M IMM_OFF True) (OP_LDRD_STRD_POST_INDEX M)
         (OP_LDRD_STRD_POST_INDEX M),
      alu_row SBC_S_fn OP_SMULL_S (OP_LDRH_POSTIND M IMM_OFF True) (OP_LDRSB_POSTIND M IMM_OFF True)
         (OP_LDRSH_POSTIND M IMM_OFF True),
      alu_row RSC_fn OP_SMLAL OP_UND OP_UND OP_UND, alu_row RSC_S_fn OP_SMLAL_S OP_UND OP_UND OP_UND]"

definition misc_rows :: "'m MEM \<Rightarrow> 'm op list list" where
  "misc_rows M =
     [[OP_MRS_CPSR, OP_UND, OP_UND, OP_UND, OP_UND, OP_QADD, OP_UND, OP_UND, OP_SMLA_B_B, OP_SWP M, OP_SMLA_T_B,
       OP_STRH_OFF M REG_OFF False, OP_SMLA_B_T, OP_LDRD_STRD_OFFSET_PRE_INDEX M, OP_SMLA_T_T,
       OP_LDRD_STRD_OFFSET_PRE_INDEX M],
      alu_row TST_fn OP_UND (OP_LDRH_OFF M REG_OFF False) (OP_LDRSB_OFF M REG_OFF False)
         (OP_LDRSH_OFF M REG_OFF False),
      [OP_MSR_CPSR, OP_BX, OP_UND, OP_BLX_REG, OP_UND, OP_QSUB, OP_UND, OP_BKPT, OP_SMLAW_B, OP_UND, OP_SMULW_B,
       OP_STRH_PREIND M REG_OFF False, OP_SMLAW_T, OP_LDRD_STRD_OFFSET_PRE_INDEX M, OP_SMULW_T,
       OP_LDRD_STRD_OFFSET_PRE_INDEX M],
      alu_row TEQ_fn OP_UND (OP_LDRH_PREIND M REG_OFF False) (OP_LDRSB_PREIND M REG_OFF False)
         (OP_LDRSH_PREIND M REG_OFF False),
      [OP_MRS_SPSR, OP_UND, OP_UND, OP_UND, OP_UND, OP_QDADD, OP_UND, OP_UND, OP_SMLAL_B_B, OP_SWPB M,
       OP_SMLAL_T_B, OP_STRH_OFF M IMM_OFF False, OP_SMLAL_B_T, OP_LDRD_STRD_OFFSET_PRE_INDEX M, OP_SMLAL_T_T,
       OP_LDRD_STRD_OFFSET_PRE_INDEX M],
      alu_row CMP_fn OP_UND (OP_LDRH_OFF M IMM_OFF False) (OP_LDRSB_OFF M IMM_OFF False)
         (OP_LDRSH_OFF M IMM_OFF False),
      [OP_MSR_SPSR, OP_CLZ, OP_UND, OP_UND, OP_UND, OP_QDSUB, OP_UND, OP_UND, OP_SMUL_B_B, OP_UND, OP_SMUL_T_B,
       OP_STRH_PREIND M IMM_OFF False, OP_SMUL_B_T, OP_LDRD_STRD_OFFSET_PRE_INDEX M, OP_SMUL_T_T,
       OP_LDRD_STRD_OFFSET_PRE_INDEX M],
      alu_row CMN_fn OP_UND (OP_LDRH_PREIND M IMM_OFF False) (OP_LDRSB_PREIND M IMM_OFF False)
         (OP_LDRSH_PREIND M IMM_OFF False),
      alu_row ORR_fn (OP_STREX M) (OP_STRH_OFF M REG_OFF True) (OP_LDRD_STRD_OFFSET_PRE_INDEX M)
         (OP_LDRD_STRD_OFFSET_PRE_INDEX M),
      alu_row ORR_S_fn (OP_LDREX M) (OP_LDRH_OFF M REG_OFF True) (OP_LDRSB_OFF M REG_OFF True)
         (OP_LDRSH_OFF M REG_OFF True),
      alu_row MOV_fn OP_UND (OP_STRH_PREIND M REG_OFF True) (OP_LDRD_STRD_OFFSET_PRE_INDEX M)
         (OP_LDRD_STRD_OFFSET_PRE_INDEX M),
      alu_row MOV_S_fn OP_UND (OP_LDRH_PREIND M REG_OFF True) (OP_LDRSB_PREIND M REG_OFF True)
         (OP_LDRSH_PREIND M REG_OFF True),
      alu_row BIC_fn OP_UND (OP_STRH_OFF M IMM_OFF True) (OP_LDRD_STRD_OFFSET_PRE_INDEX M)
         (OP_LDRD_STRD_OFFSET_PRE_INDEX M),
      alu_row BIC_S_fn OP_UND (OP_LDRH_OFF M IMM_OFF True) (OP_LDRSB_OFF M IMM_OFF True)
         (OP_LDRSH_OFF M IMM_OFF True),
      alu_row MVN_fn OP_UND (OP_STRH_PREIND M IMM_OFF True) (OP_LDRD_STRD_OFFSET_PRE_INDEX M)
         (OP_LDRD_STRD_OFFSET_PRE_INDEX M),
      alu_row MVN_S_fn OP_UND (OP_LDRH_PREIND M IMM_OFF True) (OP_LDRSB_PREIND M IMM_OFF True)
         (OP_LDRSH_PREIND M IMM_OFF True)]"

definition immediate_rows :: "'m op list list" where
  "immediate_rows =
     [same_row (AND_fn IMM_VALUE), same_row (AND_S_fn IMM_VALUE), same_row (EOR_fn IMM_VALUE),
      same_row (EOR_S_fn IMM_VALUE), same_row (SUB_fn IMM_VALUE), same_row (SUB_S_fn IMM_VALUE),
      same_row (RSB_fn IMM_VALUE), same_row (RSB_S_fn IMM_VALUE), same_row (ADD_fn IMM_VALUE),
      same_row (ADD_S_fn IMM_VALUE), same_row (ADC_fn IMM_VALUE), same_row (ADC_S_fn IMM_VALUE),
      same_row (SBC_fn IMM_VALUE), same_row (SBC_S_fn IMM_VALUE), same_row (RSC_fn IMM_VALUE),
      same_row (RSC_S_fn IMM_VALUE), same_row OP_UND, same_row (TST_fn IMM_VALUE),
      same_row OP_MSR_CPSR_IMM_VAL, same_row (TEQ_fn IMM_VALUE), same_row OP_UND, same_row (CMP_fn IMM_VALUE),
      same_row OP_MSR_SPSR_IMM_VAL, same_row (CMN_fn IMM_VALUE), same_row (ORR_fn IMM_VALUE),
      same_row (ORR_S_fn IMM_VALUE), same_row (MOV_fn IMM_VALUE), same_row (MOV_S_fn IMM_VALUE),
      same_row (BIC_fn IMM_VALUE), same_row (BIC_S_fn IMM_VALUE), same_row (MVN_fn IMM_VALUE),
      same_row (MVN_S_fn IMM_VALUE)]"

definition transfer_rows :: "'m MEM \<Rightarrow> 'm op list list" where
  "transfer_rows M =
     [same_row (OP_STR_POSTIND M IMM_OFF_12 False), same_row (OP_LDR_POSTIND M IMM_OFF_12 False),
      same_row (OP_STR_POSTIND M IMM_OFF_12 False), same_row (OP_LDR_POSTIND M IMM_OFF_12 False),
      same_row (OP_STRB_POSTIND M IMM_OFF_12 False), same_row (OP_LDRB_POSTIND M IMM_OFF_12 False),
      same_row (OP_STRB_POSTIND M IMM_OFF_12 False), same_row (OP_LDRB_POSTIND M IMM_OFF_12 False),
      same_row (OP_STR_POSTIND M IMM_OFF_12 True), same_row (OP_LDR_POSTIND M IMM_OFF_12 True),
      same_row (OP_STR_POSTIND M IMM_OFF_12 True), same_row (OP_LDR_POSTIND M IMM_OFF_12 True),
      same_row (OP_STRB_POSTIND M IMM_OFF_12 True), same_row (OP_LDRB_POSTIND M IMM_OFF_12 True),
      same_row (OP_STRB_POSTIND M IMM_OFF_12 True), same_row (OP_LDRB_POSTIND M IMM_OFF_12 True),
      same_row (OP_STR_OFF M IMM_OFF_12 False), same_row (OP_LDR_OFF M IMM_OFF_12 False),
      same_row (OP_STR_PREIND M IMM_OFF_12 False), same_row (OP_LDR_PREIND M IMM_OFF_12 False),
      same_row (OP_STRB_OFF M IMM_OFF_12 False), same_row (OP_LDRB_OFF M IMM_OFF_12 False),
      same_row (OP_STRB_PREIND M IMM_OFF_12 False), same_row (OP_LDRB_PREIND M IMM_OFF_12 False),
      same_row (OP_STR_OFF M IMM_OFF_12 True), same_row (OP_LDR_OFF M IMM_OFF_12 True),
      same_row (OP_STR_PREIND M IMM_OFF_12 True), same_row (OP_LDR_PREIND M IMM_OFF_12 True),
      same_row (OP_STRB_OFF M IMM_OFF_12 True), same_row (OP_LDRB_OFF M IMM_OFF_12 True),
      same_row (OP_STRB_PREIND M IMM_OFF_12 True), same_row (OP_LDRB_PREIND M IMM_OFF_12 True)]"

definition offset_rows :: "'m MEM \<Rightarrow> 'm op list list" where
  "offset_rows M =
     [offset_row (\<lambda>k. OP_STR_POSTIND M k False), offset_row (\<lambda>k. OP_LDR_POSTIND M k False),
      offset_row (\<lambda>k. OP_STR_POSTIND M k False), offset_row (\<lambda>k. OP_LDR_POSTIND M k False),
      offset_row (\<lambda>k. OP_STRB_POSTIND M k False), offset_row (\<lambda>k. OP_LDRB_POSTIND M k False),
      offset_row (\<lambda>k. OP_STRB_POSTIND M k False), offset_row (\<lambda>k. OP_LDRB_POSTIND M k False),
      offset_row (\<lambda>k. OP_STR_POSTIND M k True), offset_row (\<lambda>k. OP_LDR_POSTIND M k True),
      offset_row (\<lambda>k. OP_STR_POSTIND M k True), offset_row (\<lambda>k. OP_LDR_POSTIND M k True),
      offset_row (\<lambda>k. OP_STRB_POSTIND M k True), offset_row (\<lambda>k. OP_LDRB_POSTIND M k True),
      offset_row (\<lambda>k. OP_STRB_POSTIND M k True), offset_row (\<lambda>k. OP_LDRB_POSTIND M k True),
      offset_row (\<lambda>k. OP_STR_OFF M k False), offset_row (\<lambda>k. OP_LDR_OFF M k False),
      offset_row (\<lambda>k. OP_STR_PREIND M k False), offset_row (\<lambda>k. OP_LDR_PREIND M k False),
      offset_row (\<lambda>k. OP_STRB_OFF M k False), offset_row (\<lambda>k. OP_LDRB_OFF M k False),
      offset_row (\<lambda>k. OP_STRB_PREIND M k False), offset_row (\<lambda>k. OP_LDRB_PREIND M k False),
      offset_row (\<lambda>k. OP_STR_OFF M k True), offset_row (\<lambda>k. OP_LDR_OFF M k True),
      offset_row (\<lambda>k. OP_STR_PREIND M k True), offset_row (\<lambda>k. OP_LDR_PREIND M k True),
      offset_row (\<lambda>k. OP_STRB_OFF M k True), offset_row (\<lambda>k. OP_LDRB_OFF M k True),
      offset_row (\<lambda>k. OP_STRB_PREIND M k True), offset_row (\<lambda>k. OP_LDRB_PREIND M k True)]"

definition block_rows :: "'m MEM \<Rightarrow> 'm op list list" where
  "block_rows M =
     [same_row (OP_STMDA M), same_row (OP_LDMDA M), same_row (OP_STMDA_W M), same_row (OP_LDMDA_W M),
      same_row (OP_STMDA2 M), same_row (OP_LDMDA2 M), same_row (OP_STMDA2_W M), same_row (OP_LDMDA2_W M),
      same_row (OP_STMIA M), same_row (OP_LDMIA M), same_row (OP_STMIA_W M), same_row (OP_LDMIA_W M),
      same_row (OP_STMIA2 M), same_row (OP_LDMIA2 M), same_row (OP_STMIA2_W M), same_row (OP_LDMIA2_W M),
      same_row (OP_STMDB M), same_row (OP_LDMDB M), same_row (OP_STMDB_W M), same_row (OP_LDMDB_W M),
      same_row (OP_STMDB2 M), same_row (OP_LDMDB2 M), same_row (OP_STMDB2_W M), same_row (OP_LDMDB2_W M),
      same_row (OP_STMIB M), same_row (OP_LDMIB M), same_row (OP_STMIB_W M), same_row (OP_LDMIB_W M),
      same_row (OP_STMIB2 M), same_row (OP_LDMIB2 M), same_row (OP_STMIB2_W M), same_row (OP_LDMIB2_W M)]"

definition other_rows :: "(u32 \<Rightarrow> 'm CORE \<Rightarrow> u32 \<times> 'm CORE) option \<Rightarrow> 'm op \<Rightarrow> 'm op \<Rightarrow> 'm op list list" where
  "other_rows swi_tab mcr mrc =
     replicate 16 (same_row OP_B) @ replicate 16 (same_row OP_BL) @
     [same_row OP_STC, same_row OP_LDC, same_row OP_STC, same_row OP_LDC, same_row OP_STC, same_row OP_LDC,
      same_row OP_STC, same_row OP_LDC, same_row OP_STC, same_row OP_LDC, same_row OP_STC, same_row OP_LDC,
      same_row OP_STC, same_row OP_LDC, same_row OP_STC, same_row OP_LDC, same_row OP_STC, same_row OP_LDC,
      same_row OP_STC, same_row OP_LDC, same_row OP_STC, same_row OP_LDC, same_row OP_STC, same_row OP_LDC,
      same_row OP_STC, same_row OP_LDC, same_row OP_STC, same_row OP_LDC, same_row OP_STC, same_row OP_LDC,
      same_row OP_STC, same_row OP_LDC] @
     concat (replicate 8 [pair_row OP_CDP mcr, pair_row OP_CDP mrc]) @
     replicate 16 (same_row (OP_SWI swi_tab))"

section \<open>The table\<close>

definition arm_rows ::
  "'m MEM \<Rightarrow> (u32 \<Rightarrow> 'm CORE \<Rightarrow> u32 \<times> 'm CORE) option \<Rightarrow> 'm op \<Rightarrow> 'm op \<Rightarrow> 'm op list list" where
  "arm_rows M swi_tab mcr mrc =
     data_rows M @ misc_rows M @ immediate_rows @ transfer_rows M @ offset_rows M @ block_rows M @
     other_rows swi_tab mcr mrc"

definition arm_instructions_set ::
  "'m MEM \<Rightarrow> (u32 \<Rightarrow> 'm CORE \<Rightarrow> u32 \<times> 'm CORE) option \<Rightarrow> 'm op \<Rightarrow> 'm op \<Rightarrow> u32 \<Rightarrow> 'm op" where
  "arm_instructions_set M swi_tab mcr mrc n = concat (arm_rows M swi_tab mcr mrc) ! unat n"

end
