(* ===== verification/Sequencer.thy ===== *)
theory Sequencer
  imports Display MathUnit IoRegs Dma ArmPipe ArmTable Thumb
begin

text \<open>
  The main loop of \<^verbatim>\<open>NDSSystem.cpp\<close>: the sequencer of hardware events (\<open>Sequencer::findNext\<close> and
  \<open>execHardware\<close>), the loop that runs the two processors up to the next event (\<open>armInnerLoop\<close>) and
  \<open>NDS_exec\<close>, which runs the console to the end of a frame.

  The whole console is a \<open>CORE\<close> whose processor is the ARM9 and whose other processor is the ARM7; the device
  state is behind the memory. The flag \<open>sequencer.reschedule\<close> is set by instructions and by devices and is
  the disjunction of the two fields that stand for it. The times \<open>arm9\<close>, \<open>arm7\<close> and \<open>s32next\<close>, relative to
  the start of the loop, are integers of type \<open>s32\<close>: an \<open>int\<close> that every computation wraps (\<open>s32\<close>). \<open>bios p\<close> is the table
  of functions of the emulated BIOS of processor \<open>p\<close>, \<open>None\<close> when the BIOS of the console is used.
\<close>

type_synonym MACHINE = "(HW MMU \<times> TIMING) CORE"

definition hw :: "MACHINE \<Rightarrow> HW" where "hw s = rest (fst (mmu s))"
definition on_hw :: "(HW \<Rightarrow> HW) \<Rightarrow> MACHINE \<Rightarrow> MACHINE" where "on_hw f s = s\<lparr>mmu := upd_hw f (mmu s)\<rparr>"
definition must_reschedule :: "MACHINE \<Rightarrow> bool" where "must_reschedule s = (reschedule s \<or> resched (hw s))"

text \<open>The ARM7 as the current processor.\<close>

definition swap_cpus :: "MACHINE \<Rightarrow> MACHINE" where
  "swap_cpus s = s\<lparr>cpu := peer s, peer := cpu s\<rparr>"

text \<open>
  The instructions \<open>OP_MCR\<close> and \<open>OP_MRC\<close> work on the part of the state the system coprocessor uses; it is taken out of the
  device state and put back.
\<close>

definition as_NDS :: "MACHINE \<Rightarrow> unit NDS" where
  "as_NDS s =
     (let m = fst (mmu s) in
      \<lparr>cpu = cpu s, peer = peer s,
       mmu = (\<lparr>MAIN_MEM = MAIN_MEM m, ARM9_DTCM = ARM9_DTCM m, ARM9_ITCM = ARM9_ITCM m, ARM7_BIOS = ARM7_BIOS m,
         DTCMRegion = DTCMRegion m, MAIN_MEM_MASK = MAIN_MEM_MASK m, MAIN_MEM_MASK16 = MAIN_MEM_MASK16 m,
         MAIN_MEM_MASK32 = MAIN_MEM_MASK32 m, rest = coproc (rest m)\<rparr>, snd (mmu s)),
       reschedule = reschedule s, execute = execute s\<rparr>)"

definition from_NDS :: "HW \<Rightarrow> unit NDS \<Rightarrow> MACHINE" where
  "from_NDS h s =
     (let m = fst (mmu s) in
      \<lparr>cpu = cpu s, peer = peer s,
       mmu = (\<lparr>MAIN_MEM = MAIN_MEM m, ARM9_DTCM = ARM9_DTCM m, ARM9_ITCM = ARM9_ITCM m, ARM7_BIOS = ARM7_BIOS m,
         DTCMRegion = DTCMRegion m, MAIN_MEM_MASK = MAIN_MEM_MASK m, MAIN_MEM_MASK16 = MAIN_MEM_MASK16 m,
         MAIN_MEM_MASK32 = MAIN_MEM_MASK32 m, rest = h\<lparr>coproc := rest m\<rparr>\<rparr>, snd (mmu s)),
       reschedule = reschedule s, execute = execute s\<rparr>)"

definition machine_op :: "(u32 \<Rightarrow> unit NDS \<Rightarrow> u32 \<times> unit NDS) \<Rightarrow> u32 \<Rightarrow> MACHINE \<Rightarrow> u32 \<times> MACHINE" where
  "machine_op f i s = (let (c, n) = f i (as_NDS s) in (c, from_NDS (hw s) n))"

section \<open>The next event\<close>

definition fast_min :: "u64 \<Rightarrow> u64 \<Rightarrow> u64" where "fast_min a b = (if a < b then a else b)"

definition channels :: "(nat \<times> nat) list" where "channels = [(p, c). p \<leftarrow> [0, 1], c \<leftarrow> [0..<4]]"

definition findNext :: "HW \<Rightarrow> u64" where
  "findNext h =
     (let n = dispcnt_timestamp h;
          n = (if divRunning h then fast_min n (divCycles h) else n);
          n = (if sqrtRunning h then fast_min n (sqrtCycles h) else n);
          n = (if gxfifo_enabled h then fast_min n (gfx3dCycles h) else n);
          n = fold (\<lambda>(p, c) n. if dmaCheck (dma h p c) then fast_min n (nextEvent (dma h p c)) else n) channels n in
      fold (\<lambda>(p, i) n. if timer_enabled h p i then fast_min n (timerCycle h p i) else n) channels n)"

section \<open>Executing the events\<close>

definition gxfifo_isTriggered :: "HW \<Rightarrow> bool" where
  "gxfifo_isTriggered h = (gxfifo_enabled h \<and> nds_timer h \<ge> gfx3dCycles h)"

partial_function (option) gxfifo_exec :: "HOOKS \<Rightarrow> HW \<Rightarrow> HW option" where
  "gxfifo_exec K h =
     (if gxfifo_isTriggered h then gxfifo_exec K (gfx3d_execute3D K (h\<lparr>gxfifo_enabled := False\<rparr>)) else Some h)"

definition try_hw :: "(HW \<Rightarrow> HW option) \<Rightarrow> DMA \<Rightarrow> DMA option" where
  "try_hw f s = do { h \<leftarrow> f (rest (fst s)); Some ((fst s)\<lparr>rest := h\<rparr>, snd s) }"

definition exec_dma :: "HW BUS \<Rightarrow> nat \<times> nat \<Rightarrow> DMA \<Rightarrow> DMA" where
  "exec_dma B = (\<lambda>(p, c) s. if dma_isTriggered p c (rest (fst s)) then dma_exec B p c s else s)"

fun exec_timers :: "(nat \<times> nat) list \<Rightarrow> DMA \<Rightarrow> DMA option" where
  "exec_timers [] s = Some s"
| "exec_timers ((p, i) # qs) s =
     do { s \<leftarrow> (if timer_isTriggered p i (rest (fst s)) then try_hw (timer_exec p i) s else Some s); exec_timers qs s }"

definition execHardware :: "HOOKS \<Rightarrow> HW BUS \<Rightarrow> DMA \<Rightarrow> DMA option" where
  "execHardware K B s =
     (let s = (if dispcnt_isTriggered (rest (fst s)) then upd_hw (dispcnt_exec K) s else s);
          s = (if divider_isTriggered (rest (fst s)) then upd_hw divider_exec s else s);
          s = (if sqrtunit_isTriggered (rest (fst s)) then upd_hw sqrtunit_exec s else s) in do {
      s \<leftarrow> (if gxfifo_isTriggered (rest (fst s)) then try_hw (gxfifo_exec K) s else Some s);
      exec_timers channels (fold (exec_dma B) channels s)
     })"

definition execHardware_interrupts :: "HW BUS \<Rightarrow> MACHINE \<Rightarrow> MACHINE" where
  "execHardware_interrupts B s =
     (let s = execHardware_interrupts_core (nds_mem B) (gen_IF 0 (hw s)) (reg_IE (hw s) 0) (reg_IME (hw s) 0) s in
      swap_cpus (execHardware_interrupts_core (nds_mem B) (gen_IF 1 (hw s)) (reg_IE (hw s) 1) (reg_IME (hw s) 1)
        (swap_cpus s)))"

section \<open>Running the processors\<close>

definition kMaxWork :: int where "kMaxWork = 4000"
definition kIrqWait :: int where "kIrqWait = 4000"

definition s32 :: "int \<Rightarrow> int" where "s32 x = sint (word_of_int x :: u32)"

definition minarmtime :: "bool \<Rightarrow> bool \<Rightarrow> int \<Rightarrow> int \<Rightarrow> int" where
  "minarmtime doarm9 doarm7 arm9 arm7 = (if doarm9 then (if doarm7 then min arm9 arm7 else arm9) else arm7)"

text \<open>One instruction of a processor: \<open>armcpu_exec<PROCNUM>\<close>, with the two tables of instructions.\<close>

type_synonym BIOS = "nat \<Rightarrow> (u32 \<Rightarrow> MACHINE \<Rightarrow> u32 \<times> MACHINE) option"

definition cpu_exec :: "HW BUS \<Rightarrow> BIOS \<Rightarrow> nat \<Rightarrow> MACHINE \<Rightarrow> u32 \<times> MACHINE" where
  "cpu_exec B bios p s =
     (let run = armcpu_exec (nds_mem B)
            (arm_instructions_set (nds_mem B) (bios p) (machine_op OP_MCR) (machine_op OP_MRC))
            (thumb_instructions_set (nds_mem B) (bios p)) in
      if p = 0 then run s else (let (c, s) = run (swap_cpus s) in (c, swap_cpus s)))"

definition set_timer :: "u64 \<Rightarrow> int \<Rightarrow> MACHINE \<Rightarrow> MACHINE" where
  "set_timer base t s = on_hw (\<lambda>h. h\<lparr>nds_timer := base + word_of_int t\<rparr>) s"

definition add_idle :: "nat \<Rightarrow> int \<Rightarrow> MACHINE \<Rightarrow> MACHINE" where
  "add_idle p d s = on_hw (\<lambda>h. h\<lparr>idleCycles := (idleCycles h)(p := idleCycles h p + word_of_int d)\<rparr>) s"

text \<open>The two halves of the body of the loop.\<close>

definition arm9_step :: "HW BUS \<Rightarrow> BIOS \<Rightarrow> int \<Rightarrow> int \<Rightarrow> MACHINE \<Rightarrow> int \<times> MACHINE" where
  "arm9_step B bios s32next arm9 s =
     (if \<not> waitIRQ (cpu s) \<and> freezeBus (hw s) = 0 then
        (let (c, s) = cpu_exec B bios 0 s in (s32 (arm9 + uint c), s))
      else
        (let t = min s32next (s32 (arm9 + kIrqWait));
             s = add_idle 0 (t - arm9) s in
         (t, if gx_size (gxFIFO (hw s)) < 255 then on_hw (\<lambda>h. h\<lparr>freezeBus := freezeBus h AND NOT 1\<rparr>) s else s)))"

definition arm7_step :: "HW BUS \<Rightarrow> BIOS \<Rightarrow> int \<Rightarrow> int \<Rightarrow> MACHINE \<Rightarrow> bool \<times> int \<times> MACHINE" where
  "arm7_step B bios s32next arm7 s =
     (if \<not> waitIRQ (peer s) \<and> freezeBus (hw s) = 0 then
        (let (c, s) = cpu_exec B bios 1 s in (False, s32 (arm7 + uint (push_bit 1 c)), s))
      else
        (let t = min s32next (s32 (arm7 + kIrqWait)) in (t = s32next, t, add_idle 1 (t - arm7) s)))"

text \<open>
  \<open>armInnerLoop<doarm9, doarm7>\<close>. When the ARM7 has nothing to do up to the next event, the loop goes on with the
  ARM9 alone.
\<close>

partial_function (option) armInnerLoop ::
  "HW BUS \<Rightarrow> BIOS \<Rightarrow> bool \<Rightarrow> bool \<Rightarrow> u64 \<Rightarrow> int \<Rightarrow> int \<Rightarrow> int \<Rightarrow> MACHINE \<Rightarrow> (int \<times> int \<times> MACHINE) option" where
  "armInnerLoop B bios doarm9 doarm7 base s32next arm9 arm7 s =
     (let t = minarmtime doarm9 doarm7 arm9 arm7 in
      if t < s32next \<and> \<not> must_reschedule s \<and> execute s then
        (let (arm9, s) = (if doarm9 \<and> (\<not> doarm7 \<or> arm9 \<le> t) then arm9_step B bios s32next arm9 s else (arm9, s));
             (alone, arm7, s) =
               (if doarm7 \<and> (\<not> doarm9 \<or> arm7 \<le> t) then arm7_step B bios s32next arm7 s else (False, arm7, s)) in
         if alone then
           armInnerLoop B bios doarm9 False base s32next arm9 arm7 (set_timer base (minarmtime doarm9 False arm9 arm7) s)
         else
           armInnerLoop B bios doarm9 doarm7 base s32next arm9 arm7
             (set_timer base (minarmtime doarm9 doarm7 arm9 arm7) s))
      else Some (arm9, arm7, s))"

section \<open>To the end of the frame\<close>

text \<open>\<open>(s32)(a - b)\<close> of two times.\<close>

definition time_diff :: "u64 \<Rightarrow> u64 \<Rightarrow> int" where "time_diff a b = sint (ucast (a - b) :: u32)"

text \<open>A processor that waits for an interrupt is brought back to the time of the console.\<close>

definition roll_back9 :: "MACHINE \<Rightarrow> MACHINE" where
  "roll_back9 s =
     (if waitIRQ (cpu s) then
        on_hw (\<lambda>h. h\<lparr>nds_arm9_timer := nds_timer h\<rparr>) (add_idle 0 (- time_diff (nds_arm9_timer (hw s)) (nds_timer (hw s))) s)
      else s)"

definition roll_back7 :: "MACHINE \<Rightarrow> MACHINE" where
  "roll_back7 s =
     (if waitIRQ (peer s) then
        on_hw (\<lambda>h. h\<lparr>nds_arm7_timer := nds_timer h\<rparr>) (add_idle 1 (- time_diff (nds_arm7_timer (hw s)) (nds_timer (hw s))) s)
      else s)"

text \<open>The processors between two events.\<close>

definition run_cpus :: "HW BUS \<Rightarrow> BIOS \<Rightarrow> MACHINE \<Rightarrow> MACHINE option" where
  "run_cpus B bios s =
     (let h = hw s;
          n = min (findNext h) (nds_timer h + 4000);
          s = on_hw (\<lambda>h. h\<lparr>resched := False\<rparr>) (s\<lparr>reschedule := False\<rparr>);
          base = nds_timer h in do {
      (arm9, arm7, s) \<leftarrow> armInnerLoop B bios True True base (time_diff n base)
         (time_diff (nds_arm9_timer h) base) (time_diff (nds_arm7_timer h) base) s;
      let s = on_hw (\<lambda>h. h\<lparr>nds_arm7_timer := base + word_of_int arm7, nds_arm9_timer := base + word_of_int arm9\<rparr>) s;
      Some (roll_back7 (roll_back9 s))
     })"

text \<open>One pass of the loop of \<open>NDS_exec\<close>, and whether it leaves the loop.\<close>

definition frame_pass ::
  "HOOKS \<Rightarrow> HW BUS \<Rightarrow> BIOS \<Rightarrow> MACHINE \<Rightarrow> (bool \<times> MACHINE) option" where
  "frame_pass K B bios s = do {
     m \<leftarrow> execHardware K B (mmu s);
     let s = s\<lparr>mmu := m\<rparr>;
     if nds_vblankEnded (hw s) then Some (True, s)
     else if \<not> execute s then Some (True, s)
     else do {
       s \<leftarrow> run_cpus B bios (execHardware_interrupts B s);
       Some (False, s)
     }
   }"

partial_function (option) frame_loop ::
  "HOOKS \<Rightarrow> HW BUS \<Rightarrow> BIOS \<Rightarrow> MACHINE \<Rightarrow> MACHINE option" where
  "frame_loop K B bios s = do {
     (stop, s) \<leftarrow> frame_pass K B bios s;
     (if stop then Some s else frame_loop K B bios s)
   }"

definition NDS_exec ::
  "HOOKS \<Rightarrow> HW BUS \<Rightarrow> BIOS \<Rightarrow> MACHINE \<Rightarrow> MACHINE option" where
  "NDS_exec K B bios s =
     (let s = on_hw (\<lambda>h. h\<lparr>nds_vblankEnded := False\<rparr>) s in
      if nds_sleeping (hw s) then
        Some (if reg_IE (hw s) 1 AND gen_IF 1 (hw s) \<noteq> 0 then on_hw (\<lambda>h. h\<lparr>nds_sleeping := False\<rparr>) s else s)
      else frame_loop K B bios s)"

text \<open>\<open>Sequencer::init\<close> and \<open>initSchedule\<close>.\<close>

definition Sequencer_init :: "HW \<Rightarrow> HW" where
  "Sequencer_init h =
     (NDS_RescheduleDMA (NDS_RescheduleTimers h))\<lparr>resched := False, nds_timer := 0, nds_arm9_timer := 0,
        nds_arm7_timer := 0, dispcnt_enabled := True, dispcnt_param := ESI_DISPCNT_HStart,
        dispcnt_timestamp := 0, gxfifo_enabled := False\<rparr>"

definition initSchedule :: "HW \<Rightarrow> HW" where
  "initSchedule h = (Sequencer_init h)\<lparr>VCount := 262, nds_vblankEnded := False\<rparr>"

end
