(* ===== verification/ArmCost.thy ===== *)
theory ArmCost
  imports ArmTable Thumb Cp15 TimingProperties
begin

text \<open>
  The time of the instructions. \<open>timed\<close> says that the advanced timing is on. \<open>tame f\<close> says that an instruction function
  takes at most 1000 cycles and leaves this setting as it is; it holds for every entry of the two tables when the
  BIOS of the console is used. With the time of the fetch, an instruction then takes between 1 and 1000 cycles
  (\<open>exec_cost\<close>).
\<close>

section \<open>Instructions without memory accesses\<close>

type_synonym 'b CONSOLE = "('b MMU \<times> TIMING) CORE"

definition timed :: "'b CONSOLE \<Rightarrow> bool" where "timed s = advanced_timing (snd (mmu s))"

definition tame :: "('b MMU \<times> TIMING) op \<Rightarrow> bool" where
  "tame f \<longleftrightarrow> (\<forall>i s. unat (fst (f i s)) \<le> 1000 \<and> timed (snd (f i s)) = timed s)"

lemma timed_core [simp]:
  "timed (upd_cpu f s) = timed s" "timed (set_reg i n v s) = timed s" "timed (s\<lparr>cpu := c\<rparr>) = timed s"
  "timed (s\<lparr>peer := c\<rparr>) = timed s" "timed (s\<lparr>reschedule := q\<rparr>) = timed s" "timed (s\<lparr>execute := q\<rparr>) = timed s"
  "timed (changeCPSR s) = timed s" "timed (emu_halt s) = timed s" "timed (snd (armcpu_switchMode m s)) = timed s"
  by (simp_all add: timed_def upd_cpu_def set_reg_def changeCPSR_def NDS_Reschedule_def emu_halt_def armcpu_switchMode_def)

lemma timed_jump [simp]:
  "timed (restore_spsr s) = timed s" "timed (switch_to_spsr s) = timed s" "timed (copy_spsr s) = timed s"
  "timed (armcpu_exception n s) = timed s" "timed (enter_exception m l v s) = timed s"
  "timed (load_pc s) = timed s" "timed (write_base i st s) = timed s" "timed (set_Q q s) = timed s"
  "timed (snd (write_rd i a b v s)) = timed s" "timed (snd (write_rd_S i a b v fl s)) = timed s"
  by (simp_all add: restore_spsr_def switch_to_spsr_def copy_spsr_def armcpu_exception_def enter_exception_def load_pc_def
    write_base_def set_Q_def write_rd_def write_rd_S_def Let_def split_beta)

lemma cost_write [simp]:
  "fst (write_rd i a b v s) = (if REG_POS i 12 = 15 then b else a)"
  "fst (write_rd_S i a b v fl s) = (if REG_POS i 12 = 15 then b else a)"
  by (simp_all add: write_rd_def write_rd_S_def Let_def)

lemma trap [simp]: "fst (TRAPUNDEF s) = 4" "timed (snd (TRAPUNDEF s)) = timed s"
proof -
  show "timed (snd (TRAPUNDEF s)) = timed s"
    using timed_jump(4) [of EXCEPTION_UNDEFINED_INSTRUCTION "s\<lparr>cpu := peer s, peer := cpu s\<rparr>"]
    by (simp add: TRAPUNDEF_def on_arm9_def Let_def)
qed (simp add: TRAPUNDEF_def)

lemmas alu_ops = AND_fn_def AND_S_fn_def EOR_fn_def EOR_S_fn_def SUB_fn_def SUB_S_fn_def RSB_fn_def RSB_S_fn_def
  ADD_fn_def ADD_S_fn_def ADC_fn_def ADC_S_fn_def SBC_fn_def SBC_S_fn_def RSC_fn_def RSC_S_fn_def TST_fn_def TEQ_fn_def
  CMP_fn_def CMN_fn_def ORR_fn_def ORR_S_fn_def MOV_fn_def MOV_S_fn_def BIC_fn_def BIC_S_fn_def MVN_fn_def MVN_S_fn_def
lemmas alu_macros = OP_AND_def OP_ANDS_def OP_EOR_def OP_EORS_def OP_SUB_def OP_SUBS_def OP_RSB_def OP_RSBS_def
  OP_ADD_def OP_ADDS_def OP_ADC_def OP_ADCS_def OP_SBC_def OP_SBCS_def OP_RSC_def OP_RSCS_def OP_TST_def OP_TEQ_def
  OP_CMP_def OP_CMN_def OP_ORR_def OP_ORRS_def OP_MOV_def OP_MOVS_def OP_BIC_def OP_BICS_def OP_MVN_def OP_MVNS_def

lemma tame_alu:
  "tame (AND_fn m)" "tame (AND_S_fn m)" "tame (EOR_fn m)" "tame (EOR_S_fn m)" "tame (SUB_fn m)" "tame (SUB_S_fn m)"
  "tame (RSB_fn m)" "tame (RSB_S_fn m)" "tame (ADD_fn m)" "tame (ADD_S_fn m)" "tame (ADC_fn m)" "tame (ADC_S_fn m)"
  "tame (SBC_fn m)" "tame (SBC_S_fn m)" "tame (RSC_fn m)" "tame (RSC_S_fn m)" "tame (TST_fn m)" "tame (TEQ_fn m)"
  "tame (CMP_fn m)" "tame (CMN_fn m)" "tame (ORR_fn m)" "tame (ORR_S_fn m)" "tame (MOV_fn m)" "tame (MOV_S_fn m)"
  "tame (BIC_fn m)" "tame (BIC_S_fn m)" "tame (MVN_fn m)" "tame (MVN_S_fn m)"
  by (simp_all add: tame_def alu_ops alu_macros cyc_def Let_def split_beta)

lemma mul_cycles:
  "unat (MUL_Mxx_END v 1) \<le> 1000" "unat (MUL_Mxx_END v 2) \<le> 1000"
  "unat (MUL_UMxxL_END v 2) \<le> 1000" "unat (MUL_UMxxL_END v 3) \<le> 1000"
  "unat (MUL_SMxxL_END w 2) \<le> 1000" "unat (MUL_SMxxL_END w 3) \<le> 1000" "unat (MUL_Mxx_END_THUMB v 1) \<le> 1000"
  by (simp_all add: MUL_Mxx_END_def MUL_UMxxL_END_def MUL_SMxxL_END_def MUL_Mxx_END_THUMB_def Let_def)

lemma timed_long [simp]:
  "timed (store_long i r s) = timed s" "timed (accumulate_long i r s) = timed s" "timed (put_NZ_long i s) = timed s"
  "timed (snd (write_saturated i v w s)) = timed s" "timed (snd (saturated_double i s)) = timed s"
  by (simp_all add: store_long_def accumulate_long_def put_NZ_long_def write_saturated_def saturated_double_def Let_def)

lemma tame_mul:
  "tame OP_MUL" "tame OP_MLA" "tame OP_MUL_S" "tame OP_MLA_S" "tame OP_UMULL" "tame OP_UMLAL" "tame OP_UMULL_S"
  "tame OP_UMLAL_S" "tame OP_SMULL" "tame OP_SMLAL" "tame OP_SMULL_S" "tame OP_SMLAL_S"
  by (simp_all add: tame_def mul_cycles OP_MUL_def OP_MLA_def OP_MUL_S_def OP_MLA_S_def OP_UMULL_def OP_UMLAL_def
    OP_UMULL_S_def OP_UMLAL_S_def OP_SMULL_def OP_SMLAL_def OP_SMULL_S_def OP_SMLAL_S_def Let_def)

lemma saturated_cost: "fst (write_saturated i v r s) = (if v = 0 \<and> REG_POS i 12 = 15 then 3 else 2)"
  by (simp add: write_saturated_def Let_def)

lemma tame_misc:
  "tame OP_UND" "tame OP_MRS_CPSR" "tame OP_MRS_SPSR" "tame OP_MSR_CPSR" "tame OP_MSR_SPSR"
  "tame OP_MSR_CPSR_IMM_VAL" "tame OP_MSR_SPSR_IMM_VAL" "tame OP_BX" "tame OP_BLX_REG" "tame OP_B" "tame OP_BL"
  "tame OP_CLZ" "tame OP_QADD" "tame OP_QSUB" "tame OP_QDADD" "tame OP_QDSUB"
  "tame OP_SMUL_B_B" "tame OP_SMUL_B_T" "tame OP_SMUL_T_B" "tame OP_SMUL_T_T" "tame OP_SMLA_B_B" "tame OP_SMLA_B_T"
  "tame OP_SMLA_T_B" "tame OP_SMLA_T_T" "tame OP_SMLAL_B_B" "tame OP_SMLAL_B_T" "tame OP_SMLAL_T_B" "tame OP_SMLAL_T_T"
  "tame OP_SMULW_B" "tame OP_SMULW_T" "tame OP_SMLAW_B" "tame OP_SMLAW_T" "tame OP_STC" "tame OP_LDC" "tame OP_CDP"
  "tame OP_BKPT"
  by (simp_all add: tame_def OP_UND_def OP_MRS_CPSR_def OP_MRS_SPSR_def OP_MSR_CPSR_def OP_MSR_SPSR_def
    OP_MSR_CPSR_IMM_VAL_def OP_MSR_SPSR_IMM_VAL_def MSR_CPSR_macro_def MSR_SPSR_macro_def OP_BX_def OP_BLX_REG_def
    OP_B_def OP_BL_def OP_CLZ_def OP_QADD_def OP_QSUB_def OP_QDADD_def OP_QDSUB_def saturated_cost
    OP_SMUL_B_B_def OP_SMUL_B_T_def OP_SMUL_T_B_def OP_SMUL_T_T_def OP_SMLA_B_B_def OP_SMLA_B_T_def
    OP_SMLA_T_B_def OP_SMLA_T_T_def OP_SMLAL_B_B_def OP_SMLAL_B_T_def OP_SMLAL_T_B_def OP_SMLAL_T_T_def smlal_half_def
    OP_SMULW_B_def OP_SMULW_T_def OP_SMLAW_B_def OP_SMLAW_T_def OP_STC_def OP_LDC_def OP_CDP_def OP_BKPT_def
    Let_def split_beta)

lemma tame_SWI: "tame (OP_SWI None)" "tame (OP_SWI_THUMB None)"
  by (simp_all add: tame_def OP_SWI_def OP_SWI_THUMB_def Let_def)

section \<open>Transfers\<close>

lemma nds_mem_timed [simp]:
  "advanced_timing (snd (snd (rd08 (nds_mem B) P AT a m))) = advanced_timing (snd m)"
  "advanced_timing (snd (snd (rd16 (nds_mem B) P AT a m))) = advanced_timing (snd m)"
  "advanced_timing (snd (snd (rd32 (nds_mem B) P AT a m))) = advanced_timing (snd m)"
  "advanced_timing (snd (wr08 (nds_mem B) P a v8 m)) = advanced_timing (snd m)"
  "advanced_timing (snd (wr16 (nds_mem B) P a v16 m)) = advanced_timing (snd m)"
  "advanced_timing (snd (wr32 (nds_mem B) P a v32 m)) = advanced_timing (snd m)"
  by (simp_all add: nds_mem_def split_beta)

lemma accesstime_timed [simp]:
  "advanced_timing (snd (MMU_accesstime P AT n d r a q t)) = advanced_timing t"
  by (simp add: MMU_accesstime_def Let_def split_beta)

lemma data_cycles_nds:
  "unat (fst (data_cycles (nds_mem B) P n d a m)) \<le> 52"
  "advanced_timing (snd (snd (data_cycles (nds_mem B) P n d a m))) = advanced_timing (snd m)"
  using access_bounds(2) by (simp_all add: nds_mem_def MMU_memAccessCycles_timing_def Fetch_data_def Let_def split_beta)

lemma code_cycles_nds:
  "unat (fst (code_cycles (nds_mem B) P n a m)) \<le> 52" "1 \<le> unat (fst (code_cycles (nds_mem B) P n a m))"
  "advanced_timing (snd (snd (code_cycles (nds_mem B) P n a m))) = advanced_timing (snd m)"
  using access_bounds by (simp_all add: nds_mem_def MMU_codeFetchCycles_timing_def Fetch_code_def Let_def split_beta)

lemma timed_memory [simp]:
  "timed (snd (READ32 (nds_mem B) a s)) = timed s" "timed (snd (READ16 (nds_mem B) a s)) = timed s"
  "timed (snd (READ8 (nds_mem B) a s)) = timed s" "timed (WRITE32 (nds_mem B) a v32 s) = timed s"
  "timed (WRITE16 (nds_mem B) a v16 s) = timed s" "timed (WRITE8 (nds_mem B) a v8 s) = timed s"
  "timed (snd (MMU_memAccessCycles (nds_mem B) n d a s)) = timed s"
  "timed (snd (MMU_aluMemAccessCycles (nds_mem B) n d k a s)) = timed s"
  by (simp_all add: timed_def READ32_def READ16_def READ8_def WRITE32_def WRITE16_def WRITE8_def MMU_memAccessCycles_def
    MMU_aluMemAccessCycles_def data_cycles_nds Let_def split_beta)

lemma cycles_bound: "unat (fst (MMU_memAccessCycles (nds_mem B) n d a s)) \<le> 52"
  using data_cycles_nds(1) by (simp add: MMU_memAccessCycles_def split_beta)

lemma plus_bound: "unat x \<le> a \<Longrightarrow> unat y \<le> b \<Longrightarrow> unat (x + y :: u32) \<le> a + b"
  using mod_less_eq_dividend [of "unat x + unat y" "2 ^ 32"] by (simp add: unat_word_ariths)

lemma alu_bound: "unat k \<le> 5 \<Longrightarrow> unat c \<le> 995 \<Longrightarrow> unat (MMU_aluMemCycles P k c) \<le> 1000"
  using plus_bound [of k 5 c 995] by (auto simp: MMU_aluMemCycles_def max_def)

lemma alu_access: "unat k \<le> 5 \<Longrightarrow> unat (fst (MMU_aluMemAccessCycles (nds_mem B) n d k a s)) \<le> 1000"
  using cycles_bound by (auto simp: MMU_aluMemAccessCycles_def split_beta intro!: alu_bound order_trans [OF cycles_bound])

lemmas access_defs = load_half_def load_shalf_def load_sbyte_def load_byte_def load_word_def store_half_def store_word_def
  store_byte_def store8_def store16_def store32_def load8_def load16_def load32_rot_def load32_def

lemma tame_transfer:
  "tame (OP_LDRH_OFF (nds_mem B) k u)" "tame (OP_LDRH_PREIND (nds_mem B) k u)" "tame (OP_LDRH_POSTIND (nds_mem B) k u)"
  "tame (OP_STRH_OFF (nds_mem B) k u)" "tame (OP_STRH_PREIND (nds_mem B) k u)" "tame (OP_STRH_POSTIND (nds_mem B) k u)"
  "tame (OP_LDRSH_OFF (nds_mem B) k u)" "tame (OP_LDRSH_PREIND (nds_mem B) k u)" "tame (OP_LDRSH_POSTIND (nds_mem B) k u)"
  "tame (OP_LDRSB_OFF (nds_mem B) k u)" "tame (OP_LDRSB_PREIND (nds_mem B) k u)" "tame (OP_LDRSB_POSTIND (nds_mem B) k u)"
  "tame (OP_LDR_OFF (nds_mem B) w u)" "tame (OP_LDR_PREIND (nds_mem B) w u)" "tame (OP_LDR_POSTIND (nds_mem B) w u)"
  "tame (OP_LDRB_OFF (nds_mem B) w u)" "tame (OP_LDRB_PREIND (nds_mem B) w u)" "tame (OP_LDRB_POSTIND (nds_mem B) w u)"
  "tame (OP_STR_OFF (nds_mem B) w u)" "tame (OP_STR_PREIND (nds_mem B) w u)" "tame (OP_STR_POSTIND (nds_mem B) w u)"
  "tame (OP_STRB_OFF (nds_mem B) w u)" "tame (OP_STRB_PREIND (nds_mem B) w u)" "tame (OP_STRB_POSTIND (nds_mem B) w u)"
  "tame (OP_LDREX (nds_mem B))" "tame (OP_STREX (nds_mem B))"
  by (simp_all add: tame_def OP_LDRH_OFF_def OP_LDRH_PREIND_def OP_LDRH_POSTIND_def OP_STRH_OFF_def OP_STRH_PREIND_def
    OP_STRH_POSTIND_def OP_LDRSH_OFF_def OP_LDRSH_PREIND_def OP_LDRSH_POSTIND_def OP_LDRSB_OFF_def OP_LDRSB_PREIND_def
    OP_LDRSB_POSTIND_def OP_LDR_OFF_def OP_LDR_PREIND_def OP_LDR_POSTIND_def OP_LDRB_OFF_def OP_LDRB_PREIND_def
    OP_LDRB_POSTIND_def OP_STR_OFF_def OP_STR_PREIND_def OP_STR_POSTIND_def OP_STRB_OFF_def OP_STRB_PREIND_def
    OP_STRB_POSTIND_def OP_LDREX_def OP_STREX_def access_defs alu_access Let_def split_beta)

lemma two_cycles:
  "unat (fst (MMU_memAccessCycles (nds_mem B) n d a s) + fst (MMU_memAccessCycles (nds_mem B) n' d' a' s')) \<le> 995"
  using plus_bound [OF cycles_bound cycles_bound] by (rule order_trans) simp

lemma double_cost:
  "unat (fst (load_double (nds_mem B) n a s)) \<le> 995" "unat (fst (store_double (nds_mem B) n a s)) \<le> 995"
  "timed (snd (load_double (nds_mem B) n a s)) = timed s" "timed (snd (store_double (nds_mem B) n a s)) = timed s"
  by (simp_all add: load_double_def store_double_def Let_def split_beta two_cycles)

lemma tame_double:
  "tame (OP_SWP (nds_mem B))" "tame (OP_SWPB (nds_mem B))" "tame (OP_LDRD_STRD_POST_INDEX (nds_mem B))"
  "tame (OP_LDRD_STRD_OFFSET_PRE_INDEX (nds_mem B))"
  by (auto simp: tame_def OP_SWP_def OP_SWPB_def OP_LDRD_STRD_POST_INDEX_def OP_LDRD_STRD_OFFSET_PRE_INDEX_def Let_def
    split_beta double_cost two_cycles intro!: alu_bound)

section \<open>Block transfers\<close>

lemma fold_cost:
  assumes "\<And>n p. unat (fst (snd (g n p))) \<le> unat (fst (snd p) :: u32) + 52 \<and> timed (snd (snd (g n p))) = timed (snd (snd p))"
  shows "unat (fst (snd (fold g ns p))) \<le> unat (fst (snd p)) + 52 * length ns \<and>
    timed (snd (snd (fold g ns p))) = timed (snd (snd p))"
proof (induction ns arbitrary: p)
  case (Cons n ns)
  show ?case using Cons [of "g n p"] assms [of n p] by simp
qed simp

lemma step_cost:
  "unat (fst (snd (ldm_step (nds_mem B) k i n p))) \<le> unat (fst (snd p)) + 52 \<and>
   timed (snd (snd (ldm_step (nds_mem B) k i n p))) = timed (snd (snd p))"
  "unat (fst (snd (stm_step (nds_mem B) k i n p))) \<le> unat (fst (snd p)) + 52 \<and>
   timed (snd (snd (stm_step (nds_mem B) k i n p))) = timed (snd (snd p))"
  by (auto simp: ldm_step_def stm_step_def Let_def split_beta intro!: plus_bound cycles_bound)

lemma block_cost:
  "unat (fst (snd (ldm_list (nds_mem B) k i p))) \<le> unat (fst (snd p)) + 780"
  "unat (fst (snd (stm_loop (nds_mem B) k i p))) \<le> unat (fst (snd p)) + 832"
  "unat (fst (snd (thumb_push (nds_mem B) i p))) \<le> unat (fst (snd p)) + 416"
  "unat (fst (snd (thumb_pop (nds_mem B) i p))) \<le> unat (fst (snd p)) + 416"
  "unat (fst (snd (fold (stm_step (nds_mem B) k i) [0..<8] p))) \<le> unat (fst (snd p)) + 416"
  using fold_cost [of "ldm_step (nds_mem B) k i", OF step_cost(1), of "if upwards k then [0..<15] else rev [0..<15]" p]
    fold_cost [of "stm_step (nds_mem B) k i", OF step_cost(2), of "if upwards k then [0..<16] else rev [0..<16]" p]
    fold_cost [of "stm_step (nds_mem B) DA i", OF step_cost(2), of "rev [0..<8]" p]
    fold_cost [of "ldm_step (nds_mem B) IA i", OF step_cost(1), of "[0..<8]" p]
    fold_cost [of "stm_step (nds_mem B) k i", OF step_cost(2), of "[0..<8]" p]
  unfolding ldm_list_def stm_loop_def thumb_push_def thumb_pop_def by (simp_all split: if_splits del: upt_rec_numeral)

lemma timed_block [simp]:
  "timed (snd (snd (ldm_list (nds_mem B) k i p))) = timed (snd (snd p))"
  "timed (snd (snd (stm_loop (nds_mem B) k i p))) = timed (snd (snd p))"
  "timed (snd (snd (thumb_push (nds_mem B) i p))) = timed (snd (snd p))"
  "timed (snd (snd (thumb_pop (nds_mem B) i p))) = timed (snd (snd p))"
  "timed (snd (snd (fold (stm_step (nds_mem B) k i) ns p))) = timed (snd (snd p))"
  unfolding ldm_list_def stm_loop_def thumb_push_def thumb_pop_def
  by (rule fold_cost [OF step_cost(1), THEN conjunct2] fold_cost [OF step_cost(2), THEN conjunct2])+

text \<open>Bounds of the cycles of a block transfer, in the shapes the functions have.\<close>

lemma block_bounds:
  "unat (fst (snd (ldm_list (nds_mem B) k i (a, 0, s)))) \<le> 995"
  "unat (fst (snd (ldm_list (nds_mem B) k i (a, fst (MMU_memAccessCycles (nds_mem B) n d a' s'), s)))) \<le> 995"
  "unat (fst (snd (ldm_list (nds_mem B) k i (a, MMU_memAccessCycles (nds_mem B) n d a' s')))) \<le> 995"
  "unat (fst (snd (ldm_list (nds_mem B) k i (a, 0, s))) + fst (MMU_memAccessCycles (nds_mem B) n d a' s')) \<le> 995"
  "unat (fst (snd (stm_loop (nds_mem B) k i (a, 0, s)))) \<le> 995"
  "unat (fst (snd (thumb_push (nds_mem B) i (a, 0, s)))) \<le> 995"
  "unat (fst (snd (thumb_push (nds_mem B) i (a, fst (MMU_memAccessCycles (nds_mem B) n d a' s'), s)))) \<le> 995"
  "unat (fst (snd (thumb_push (nds_mem B) i (a, MMU_memAccessCycles (nds_mem B) n d a' s')))) \<le> 995"
  "unat (fst (snd (thumb_pop (nds_mem B) i (a, 0, s)))) \<le> 995"
  "unat (fst (snd (thumb_pop (nds_mem B) i (a, 0, s))) + fst (MMU_memAccessCycles (nds_mem B) n d a' s')) \<le> 995"
  "unat (fst (snd (fold (stm_step (nds_mem B) k i) [0..<8] (a, 0, s)))) \<le> 995"
  using cycles_bound [of B n d a' s'] block_cost(1) [of B k i "(a, 0, s)"] block_cost(4) [of B i "(a, 0, s)"]
    block_cost(1) [of B k i "(a, fst (MMU_memAccessCycles (nds_mem B) n d a' s'), s)"]
    block_cost(1) [of B k i "(a, MMU_memAccessCycles (nds_mem B) n d a' s')"]
    block_cost(3) [of B i "(a, MMU_memAccessCycles (nds_mem B) n d a' s')"]
    block_cost(3) [of B i "(a, fst (MMU_memAccessCycles (nds_mem B) n d a' s'), s)"]
    block_cost(2) [of B k i "(a, 0, s)"] block_cost(3) [of B i "(a, 0, s)"] block_cost(5) [of B k i "(a, 0, s)"]
    plus_bound [OF block_cost(1) cycles_bound, of B k i "(a, 0, s)" B n d a' s']
    plus_bound [OF block_cost(4) cycles_bound, of B i "(a, 0, s)" B n d a' s']
  by (simp_all del: upt_rec_numeral)

lemma tame_LDM:
  "tame (OP_LDMIA (nds_mem B))" "tame (OP_LDMIB (nds_mem B))" "tame (OP_LDMDA (nds_mem B))" "tame (OP_LDMDB (nds_mem B))"
  "tame (OP_LDMIA_W (nds_mem B))" "tame (OP_LDMIB_W (nds_mem B))" "tame (OP_LDMDA_W (nds_mem B))" "tame (OP_LDMDB_W (nds_mem B))"
  by (auto simp: tame_def OP_LDMIA_def OP_LDMIB_def OP_LDMDA_def OP_LDMDB_def OP_LDMIA_W_def OP_LDMIB_W_def OP_LDMDA_W_def
    OP_LDMDB_W_def Let_def split_beta block_bounds intro!: alu_bound)

lemma tame_LDM2:
  "tame (OP_LDMIA2 (nds_mem B))" "tame (OP_LDMIB2 (nds_mem B))" "tame (OP_LDMDA2 (nds_mem B))" "tame (OP_LDMDB2 (nds_mem B))"
  "tame (OP_LDMIA2_W (nds_mem B))" "tame (OP_LDMIB2_W (nds_mem B))" "tame (OP_LDMDA2_W (nds_mem B))" "tame (OP_LDMDB2_W (nds_mem B))"
  by (auto simp: tame_def OP_LDMIA2_def OP_LDMIB2_def OP_LDMDA2_def OP_LDMDB2_def OP_LDMIA2_W_def OP_LDMIB2_W_def OP_LDMDA2_W_def
    OP_LDMDB2_W_def Let_def split_beta block_bounds intro!: alu_bound)

lemma tame_STM:
  "tame (OP_STMIA (nds_mem B))" "tame (OP_STMIB (nds_mem B))" "tame (OP_STMDA (nds_mem B))" "tame (OP_STMDB (nds_mem B))"
  "tame (OP_STMIA_W (nds_mem B))" "tame (OP_STMIB_W (nds_mem B))" "tame (OP_STMDA_W (nds_mem B))" "tame (OP_STMDB_W (nds_mem B))"
  "tame (OP_STMIA2 (nds_mem B))" "tame (OP_STMIB2 (nds_mem B))" "tame (OP_STMDA2 (nds_mem B))" "tame (OP_STMDB2 (nds_mem B))"
  "tame (OP_STMIA2_W (nds_mem B))" "tame (OP_STMIB2_W (nds_mem B))" "tame (OP_STMDA2_W (nds_mem B))" "tame (OP_STMDB2_W (nds_mem B))"
  by (auto simp: tame_def OP_STMIA_def OP_STMIB_def OP_STMDA_def OP_STMDB_def OP_STMIA_W_def OP_STMIB_W_def OP_STMDA_W_def
    OP_STMDB_W_def OP_STMIA2_def OP_STMIB2_def OP_STMDA2_def OP_STMDB2_def OP_STMIA2_W_def OP_STMIB2_W_def OP_STMDA2_W_def
    OP_STMDB2_W_def Let_def split_beta block_bounds intro!: alu_bound)

section \<open>The tables\<close>

lemma tame_thumb_alu:
  "tame OP_LSL_0" "tame OP_LSL" "tame OP_LSL_REG" "tame OP_LSR_0" "tame OP_LSR" "tame OP_LSR_REG" "tame OP_ASR_0"
  "tame OP_ASR" "tame OP_ASR_REG" "tame OP_ADD_IMM3" "tame OP_ADD_IMM8" "tame OP_ADD_REG" "tame OP_ADD_SPE"
  "tame OP_ADD_2PC" "tame OP_ADD_2SP" "tame OP_SUB_IMM3" "tame OP_SUB_IMM8" "tame OP_SUB_REG" "tame OP_MOV_IMM8"
  "tame OP_MOV_SPE" "tame OP_CMP_IMM8" "tame OP_CMP_THUMB" "tame OP_CMP_SPE" "tame OP_AND_THUMB" "tame OP_EOR_THUMB"
  "tame OP_ADC_REG" "tame OP_SBC_REG" "tame OP_ROR_REG" "tame OP_TST_THUMB" "tame OP_NEG" "tame OP_CMN_THUMB"
  "tame OP_ORR_THUMB" "tame OP_BIC_THUMB" "tame OP_MVN_THUMB" "tame OP_MUL_REG" "tame OP_ADJUST_P_SP" "tame OP_ADJUST_M_SP"
  by (simp_all add: tame_def OP_LSL_0_def OP_LSL_def OP_LSL_REG_def OP_LSR_0_def OP_LSR_def OP_LSR_REG_def OP_ASR_0_def
    OP_ASR_def OP_ASR_REG_def OP_ADD_IMM3_def OP_ADD_IMM8_def OP_ADD_REG_def OP_ADD_SPE_def OP_ADD_2PC_def OP_ADD_2SP_def
    OP_SUB_IMM3_def OP_SUB_IMM8_def OP_SUB_REG_def OP_MOV_IMM8_def OP_MOV_SPE_def OP_CMP_IMM8_def OP_CMP_THUMB_def
    OP_CMP_SPE_def OP_AND_THUMB_def OP_EOR_THUMB_def OP_ADC_REG_def OP_SBC_REG_def OP_ROR_REG_def OP_TST_THUMB_def
    OP_NEG_def OP_CMN_THUMB_def OP_ORR_THUMB_def OP_BIC_THUMB_def OP_MVN_THUMB_def OP_MUL_REG_def OP_ADJUST_P_SP_def
    OP_ADJUST_M_SP_def write_SPE_def mul_cycles Let_def split_beta)

lemma tame_thumb_jumps:
  "tame OP_UND_THUMB" "tame OP_BKPT_THUMB" "tame OP_B_COND" "tame OP_B_UNCOND" "tame OP_BLX" "tame OP_BL_10"
  "tame OP_BL_11" "tame OP_BX_THUMB" "tame OP_BLX_THUMB"
  by (simp_all add: tame_def OP_UND_THUMB_def OP_BKPT_THUMB_def OP_B_COND_def OP_B_UNCOND_def OP_BLX_def OP_BL_10_def
    OP_BL_11_def OP_BX_THUMB_def OP_BLX_THUMB_def Let_def)

lemma tame_thumb_transfers:
  "tame (OP_STRB_IMM_OFF (nds_mem B))" "tame (OP_LDRB_IMM_OFF (nds_mem B))" "tame (OP_STRB_REG_OFF (nds_mem B))"
  "tame (OP_LDRB_REG_OFF (nds_mem B))" "tame (OP_LDRSB_REG_OFF (nds_mem B))" "tame (OP_STRH_IMM_OFF (nds_mem B))"
  "tame (OP_LDRH_IMM_OFF (nds_mem B))" "tame (OP_STRH_REG_OFF (nds_mem B))" "tame (OP_LDRH_REG_OFF (nds_mem B))"
  "tame (OP_LDRSH_REG_OFF (nds_mem B))" "tame (OP_STR_IMM_OFF (nds_mem B))" "tame (OP_LDR_IMM_OFF (nds_mem B))"
  "tame (OP_STR_REG_OFF (nds_mem B))" "tame (OP_LDR_REG_OFF (nds_mem B))" "tame (OP_STR_SPREL (nds_mem B))"
  "tame (OP_LDR_SPREL (nds_mem B))" "tame (OP_LDR_PCREL (nds_mem B))"
  by (simp_all add: tame_def OP_STRB_IMM_OFF_def OP_LDRB_IMM_OFF_def OP_STRB_REG_OFF_def OP_LDRB_REG_OFF_def
    OP_LDRSB_REG_OFF_def OP_STRH_IMM_OFF_def OP_LDRH_IMM_OFF_def OP_STRH_REG_OFF_def OP_LDRH_REG_OFF_def
    OP_LDRSH_REG_OFF_def OP_STR_IMM_OFF_def OP_LDR_IMM_OFF_def OP_STR_REG_OFF_def OP_LDR_REG_OFF_def OP_STR_SPREL_def
    OP_LDR_SPREL_def OP_LDR_PCREL_def access_defs alu_access Let_def split_beta)

lemma tame_thumb_blocks:
  "tame (OP_PUSH (nds_mem B))" "tame (OP_PUSH_LR (nds_mem B))" "tame (OP_POP (nds_mem B))" "tame (OP_POP_PC (nds_mem B))"
  "tame (OP_STMIA_THUMB (nds_mem B))" "tame (OP_LDMIA_THUMB (nds_mem B))"
  by (auto simp: tame_def OP_PUSH_def OP_PUSH_LR_def OP_POP_def OP_POP_PC_def OP_STMIA_THUMB_def OP_LDMIA_THUMB_def
    Let_def split_beta block_bounds simp del: upt_rec_numeral intro!: alu_bound)

lemma tame_if: "tame f \<Longrightarrow> tame g \<Longrightarrow> tame (if b then f else g)"
  by simp

lemma tame_thumb_set: "tame (thumb_instructions_set (nds_mem B) None n)"
  unfolding thumb_instructions_set_def
  by (intro tame_if tame_thumb_alu tame_thumb_jumps tame_thumb_transfers tame_thumb_blocks tame_SWI)

lemma list_all_rep [simp]: "list_all P (replicate n x) \<longleftrightarrow> n = 0 \<or> P x"
  by (auto simp: list_all_iff)

definition tame_row :: "('b MMU \<times> TIMING) op list \<Rightarrow> bool" where
  "tame_row r \<longleftrightarrow> length r = 16 \<and> list_all tame r"

lemma tame_rows:
  "tame f \<Longrightarrow> tame_row (same_row f)"
  "tame x \<Longrightarrow> tame y \<Longrightarrow> tame_row (pair_row x y)"
  "(\<And>w. tame (g w)) \<Longrightarrow> tame_row (offset_row g)"
  "(\<And>m. tame (h m)) \<Longrightarrow> tame a \<Longrightarrow> tame b \<Longrightarrow> tame c \<Longrightarrow> tame d \<Longrightarrow> tame_row (alu_row h a b c d)"
  by (simp_all add: tame_row_def same_row_def pair_row_def offset_row_def alu_row_def numeral_eq_Suc tame_misc)

lemmas tame_all = tame_alu tame_mul tame_misc tame_SWI tame_transfer tame_double tame_LDM tame_LDM2 tame_STM

lemma rows_tame:
  "list_all tame_row (data_rows (nds_mem B))" "list_all tame_row (misc_rows (nds_mem B))"
  "list_all tame_row immediate_rows" "list_all tame_row (transfer_rows (nds_mem B))"
  "list_all tame_row (offset_rows (nds_mem B))" "list_all tame_row (block_rows (nds_mem B))"
  unfolding data_rows_def misc_rows_def immediate_rows_def transfer_rows_def offset_rows_def block_rows_def
  by (simp_all add: tame_rows tame_all) (simp_all add: tame_row_def tame_all)

lemma other_rows_tame:
  assumes "tame mcr" "tame mrc"
  shows "list_all tame_row (other_rows None mcr mrc)"
  unfolding other_rows_def by (simp add: tame_rows tame_all assms numeral_eq_Suc)

lemma rows_length: "length (arm_rows M swi_tab mcr mrc) = 256"
  by (simp add: arm_rows_def data_rows_def misc_rows_def immediate_rows_def transfer_rows_def offset_rows_def
    block_rows_def other_rows_def length_concat sum_list_replicate)

lemma concat_rows: "list_all tame_row rs \<Longrightarrow> length (concat rs) = 16 * length rs \<and> list_all tame (concat rs)"
  by (induction rs) (auto simp: tame_row_def)

lemma index_less: "unat (INSTRUCTION_INDEX i) < 4096"
proof -
  have "INSTRUCTION_INDEX i = INSTRUCTION_INDEX i AND 0xFFF"
    by (simp add: INSTRUCTION_INDEX_def bit.conj_disj_distrib2 and.assoc)
  also have "\<dots> \<le> 0xFFF" by (rule word_and_le1)
  finally show ?thesis by (simp add: word_le_nat_alt)
qed

lemma tame_arm_set:
  assumes "tame mcr" "tame mrc"
  shows "tame (arm_instructions_set (nds_mem B) None mcr mrc (INSTRUCTION_INDEX i))"
proof -
  let ?rs = "arm_rows (nds_mem B) None mcr mrc"
  have "list_all tame_row ?rs" unfolding arm_rows_def by (simp add: rows_tame other_rows_tame [OF assms])
  from concat_rows [OF this] show ?thesis
    unfolding arm_instructions_set_def using index_less [of i] by (simp add: rows_length list_all_length)
qed

section \<open>One instruction\<close>

lemma timed_on_arm9: "(\<And>s. timed (f s) = timed s) \<Longrightarrow> timed (on_arm9 f s) = timed s"
  by (simp add: on_arm9_def Let_def)

lemma timed_coprocessor [simp]:
  "timed (upd_mem f s) = timed s" "timed (upd_cp15 g s) = timed s" "timed (write_ctrl v s) = timed s"
proof -
  have mem: "timed (upd_mem f s) = timed s" for f and s :: "'a NDS" by (simp add: timed_def upd_mem_def)
  then show "timed (upd_mem f s) = timed s" .
  have cp: "timed (upd_cp15 g s) = timed s" for g and s :: "'a NDS" by (simp add: upd_cp15_def mem)
  then show "timed (upd_cp15 g s) = timed s" .
  show "timed (write_ctrl v s) = timed s" by (simp add: write_ctrl_def Let_def timed_on_arm9 mem cp)
qed

lemma timed_moveARM2CP: "timed (snd (moveARM2CP v n m o1 o2 s)) = timed s"
  by (simp add: moveARM2CP_def timed_on_arm9)

lemma tame_coprocessor: "tame OP_MCR" "tame OP_MRC"
  by (simp_all add: tame_def OP_MCR_def OP_MRC_def timed_moveARM2CP Let_def)

lemma fetch_cost:
  "1 \<le> unat (fst (armcpu_prefetch (nds_mem B) s))" "unat (fst (armcpu_prefetch (nds_mem B) s)) \<le> 1000"
  "timed (snd (armcpu_prefetch (nds_mem B) s)) = timed s"
proof -
  have "x + 2 \<noteq> x" for x :: u32 by simp
  note c = code_cycles_nds(1) [THEN order_trans, of 1000] code_cycles_nds(2) [unfolded One_nat_def] code_cycles_nds(3)
  show "1 \<le> unat (fst (armcpu_prefetch (nds_mem B) s))" "unat (fst (armcpu_prefetch (nds_mem B) s)) \<le> 1000"
    "timed (snd (armcpu_prefetch (nds_mem B) s)) = timed s"
    by (simp_all add: armcpu_prefetch_def prefetch_arm_def prefetch_thumb_def Let_def split_beta c timed_def upd_cpu_def)
qed

lemma exec_cost:
  assumes "\<And>i. tame (A (INSTRUCTION_INDEX i))" "\<And>n. tame (T n)" "timed s"
  shows "1 \<le> unat (fst (armcpu_exec (nds_mem B) A T s)) \<and> unat (fst (armcpu_exec (nds_mem B) A T s)) \<le> 1000 \<and>
    timed (snd (armcpu_exec (nds_mem B) A T s))"
proof -
  let ?i = "instruction (cpu s)"
  let ?e = "if \<not> flag T_bit (cpu s) then
      (if CONDITION ?i = 0x0E \<or> TEST_COND (CONDITION ?i) (CODE ?i) (CPSR (cpu s)) then A (INSTRUCTION_INDEX ?i) ?i s
       else (1, s))
    else T (drop_bit 6 ?i) ?i s"
  have e: "unat (fst ?e) \<le> 1000" "timed (snd ?e)" using assms by (auto simp: tame_def)
  have u: "use_timing (nds_mem B) (mmu s') = timed s'" for s' by (simp add: nds_mem_def timed_def split_beta)
  have "armcpu_exec (nds_mem B) A T s = (let (c, s') = ?e; (f, s') = armcpu_prefetch (nds_mem B) s' in
      (MMU_fetchExecuteCycles (timed s') c f, s'))"
    by (simp only: armcpu_exec_def Let_def u)
  then show ?thesis
    using e fetch_cost [of B "snd ?e"]
    by (simp only: Let_def split_beta fst_conv snd_conv MMU_fetchExecuteCycles_def) (auto simp: max_def word_le_nat_alt)
qed

end
