(* ===== verification/SequencerProperties.thy ===== *)
theory SequencerProperties
  imports Sequencer ArmCost ArmExample
begin

text \<open>
  The properties of the main loop: the next event is the earliest of the scheduled ones and nothing happens
  before it; the loop over the processors ends, close to the next event and with the processors close to each
  other.
\<close>

section \<open>Running the processors\<close>

lemma timed_machine [simp]:
  "timed (on_hw f s) = timed s" "timed (swap_cpus s) = timed s" "timed (set_timer base t s) = timed s"
  "timed (add_idle p d s) = timed s"
  by (simp_all add: timed_def on_hw_def swap_cpus_def set_timer_def add_idle_def upd_hw_def)

lemma tame_machine: "tame f \<Longrightarrow> tame (machine_op f)"
proof -
  assume f: "tame f"
  have n: "timed (as_NDS s) = timed s" "timed (from_NDS h n) = timed n" for s h n
    by (simp_all add: timed_def as_NDS_def from_NDS_def Let_def)
  show "tame (machine_op f)"
    using f by (simp add: tame_def machine_op_def split_beta n)
qed

text \<open>With the advanced timing and the BIOS of the console, an instruction takes between 1 and 1000 cycles.\<close>

lemma uint_range: "1 \<le> unat c \<and> unat c \<le> 1000 \<Longrightarrow> 1 \<le> uint c \<and> uint c \<le> 1000" for c :: u32
  unfolding uint_eq_int_unat by linarith

lemma cpu_exec_cost:
  assumes "timed s"
  shows "1 \<le> uint (fst (cpu_exec B (\<lambda>_. None) p s))" "uint (fst (cpu_exec B (\<lambda>_. None) p s)) \<le> 1000"
    "timed (snd (cpu_exec B (\<lambda>_. None) p s))"
proof -
  let ?A = "arm_instructions_set (nds_mem B) None (machine_op OP_MCR) (machine_op OP_MRC)"
  let ?T = "thumb_instructions_set (nds_mem B) None"
  define run where "run = armcpu_exec (nds_mem B) ?A ?T"
  have A: "tame (?A (INSTRUCTION_INDEX i))" for i
    by (rule tame_arm_set; rule tame_machine; rule tame_coprocessor)
  have r: "1 \<le> unat (fst (run s)) \<and> unat (fst (run s)) \<le> 1000 \<and> timed (snd (run s))" if "timed s" for s
    unfolding run_def by (rule exec_cost [where A = ?A and T = ?T]; (rule A tame_thumb_set that))
  then have c: "1 \<le> uint (fst (run s)) \<and> uint (fst (run s)) \<le> 1000 \<and> timed (snd (run s))" if "timed s" for s
    using that uint_range by blast
  have e: "cpu_exec B (\<lambda>_. None) p s = (if p = 0 then run s else (fst (run (swap_cpus s)), swap_cpus (snd (run (swap_cpus s)))))"
    by (simp only: cpu_exec_def run_def Let_def split_beta)
  show "1 \<le> uint (fst (cpu_exec B (\<lambda>_. None) p s))" "uint (fst (cpu_exec B (\<lambda>_. None) p s)) \<le> 1000"
    "timed (snd (cpu_exec B (\<lambda>_. None) p s))"
    using c [OF assms] c [of "swap_cpus s"] assms by (simp_all add: e)
qed

lemma s32_id: "- (2 ^ 31) \<le> x \<Longrightarrow> x < 2 ^ 31 \<Longrightarrow> s32 x = x"
  by (simp add: s32_def sint_sbintrunc' signed_take_bit_int_eq_self)

lemma twice: "uint c \<le> 1000 \<Longrightarrow> uint (push_bit 1 c :: u32) = 2 * uint c"
  by (simp add: push_bit_eq_mult uint_word_ariths)

text \<open>The range of the times of the loop.\<close>

definition in_range :: "int \<Rightarrow> bool" where "in_range x \<longleftrightarrow> - (2 ^ 31) \<le> x \<and> x \<le> 2 ^ 31 - 5000"

lemma arm9_step_time:
  assumes "timed s" "arm9 < n" "in_range arm9" "in_range n"
  shows "arm9 < fst (arm9_step B (\<lambda>_. None) n arm9 s)" "fst (arm9_step B (\<lambda>_. None) n arm9 s) < n + 1000"
    "fst (arm9_step B (\<lambda>_. None) n arm9 s) \<le> arm9 + 4000" "timed (snd (arm9_step B (\<lambda>_. None) n arm9 s))"
proof -
  note c = cpu_exec_cost [OF assms(1), of B 0]
  have "s32 (arm9 + uint (fst (cpu_exec B (\<lambda>_. None) 0 s))) = arm9 + uint (fst (cpu_exec B (\<lambda>_. None) 0 s))"
    "s32 (arm9 + 4000) = arm9 + 4000"
    using c assms(2-4) by (auto simp: in_range_def intro!: s32_id)
  then show "arm9 < fst (arm9_step B (\<lambda>_. None) n arm9 s)" "fst (arm9_step B (\<lambda>_. None) n arm9 s) < n + 1000"
    "fst (arm9_step B (\<lambda>_. None) n arm9 s) \<le> arm9 + 4000" "timed (snd (arm9_step B (\<lambda>_. None) n arm9 s))"
    using assms(1,2) c by (auto simp: arm9_step_def kIrqWait_def Let_def split_beta)
qed

lemma arm7_step_time:
  assumes "timed s" "arm7 < n" "in_range arm7" "in_range n"
  shows "arm7 < fst (snd (arm7_step B (\<lambda>_. None) n arm7 s))" "fst (snd (arm7_step B (\<lambda>_. None) n arm7 s)) < n + 2000"
    "fst (snd (arm7_step B (\<lambda>_. None) n arm7 s)) \<le> arm7 + 4000"
    "fst (arm7_step B (\<lambda>_. None) n arm7 s) \<Longrightarrow> fst (snd (arm7_step B (\<lambda>_. None) n arm7 s)) = n"
    "timed (snd (snd (arm7_step B (\<lambda>_. None) n arm7 s)))"
proof -
  note c = cpu_exec_cost [OF assms(1), of B 1]
  have "s32 (arm7 + uint (push_bit 1 (fst (cpu_exec B (\<lambda>_. None) 1 s)))) = arm7 + 2 * uint (fst (cpu_exec B (\<lambda>_. None) 1 s))"
    "s32 (arm7 + 4000) = arm7 + 4000"
    using c assms(2-4) unfolding twice [OF c(2)] by (auto simp: in_range_def intro!: s32_id)
  then show "arm7 < fst (snd (arm7_step B (\<lambda>_. None) n arm7 s))" "fst (snd (arm7_step B (\<lambda>_. None) n arm7 s)) < n + 2000"
    "fst (snd (arm7_step B (\<lambda>_. None) n arm7 s)) \<le> arm7 + 4000"
    "fst (arm7_step B (\<lambda>_. None) n arm7 s) \<Longrightarrow> fst (snd (arm7_step B (\<lambda>_. None) n arm7 s)) = n"
    "timed (snd (snd (arm7_step B (\<lambda>_. None) n arm7 s)))"
    using assms(1,2) c by (auto simp: arm7_step_def kIrqWait_def Let_def split_beta simp del: One_nat_def)
qed

lemma timer_set: "nds_timer (hw (set_timer base t s)) = base + word_of_int t"
  by (simp add: set_timer_def hw_def on_hw_def upd_hw_def)

text \<open>What a run of the loop has reached.\<close>

definition done_at :: "int \<Rightarrow> int \<Rightarrow> int \<Rightarrow> MACHINE \<Rightarrow> bool" where
  "done_at n a9 a7 s \<longleftrightarrow> n \<le> a9 \<and> n \<le> a7 \<or> must_reschedule s \<or> \<not> execute s"

text \<open>The ARM9 alone.\<close>

lemma alone_loop:
  assumes "n \<le> arm7" "n \<le> 2 ^ 31 - 5000" "- (2 ^ 31) \<le> arm9" "timed s"
  shows "\<exists>a9 s'. armInnerLoop B (\<lambda>_. None) True False base n arm9 arm7 s = Some (a9, arm7, s') \<and> done_at n a9 arm7 s' \<and>
    arm9 \<le> a9 \<and> (a9 = arm9 \<or> a9 < n + 1000) \<and> (s' = s \<and> a9 = arm9 \<or> nds_timer (hw s') = base + word_of_int a9)"
  using assms(3,4)
proof (induction "nat (n - arm9)" arbitrary: arm9 s rule: less_induct)
  case less
  show ?case
  proof (cases "arm9 < n \<and> \<not> must_reschedule s \<and> execute s")
    case True
    obtain t g where st: "arm9_step B (\<lambda>_. None) n arm9 s = (t, g)" by fastforce
    have "in_range arm9" "in_range n" using True less.prems assms(2) by (auto simp: in_range_def)
    then have t: "arm9 < t" "t < n + 1000" "timed g"
      using arm9_step_time [OF less.prems(2), of arm9 n B] True by (simp_all add: st)
    let ?g = "set_timer base t g"
    obtain a9 s' where r: "armInnerLoop B (\<lambda>_. None) True False base n t arm7 ?g = Some (a9, arm7, s')" "done_at n a9 arm7 s'"
      "t \<le> a9" "a9 = t \<or> a9 < n + 1000" "s' = ?g \<and> a9 = t \<or> nds_timer (hw s') = base + word_of_int a9"
      using less.hyps [of t ?g] t True less.prems by auto
    have "armInnerLoop B (\<lambda>_. None) True False base n arm9 arm7 s = Some (a9, arm7, s')"
      using r(1) True by (subst armInnerLoop.simps) (simp add: st minarmtime_def)
    moreover have "nds_timer (hw s') = base + word_of_int a9" using r(5) timer_set [of base t g] by auto
    ultimately show ?thesis using r t by auto
  next
    case False
    then have "armInnerLoop B (\<lambda>_. None) True False base n arm9 arm7 s = Some (arm9, arm7, s)"
      by (subst armInnerLoop.simps) (auto simp: minarmtime_def)
    then show ?thesis using False assms(1) by (auto simp: done_at_def)
  qed
qed

text \<open>Both processors: \<open>D\<close> bounds their distance, \<open>U\<close> how far they get.\<close>

lemma both_step:
  assumes "min arm9 arm7 < n" "\<not> must_reschedule s" "execute s"
    and g: "(if arm9 \<le> min arm9 arm7 then arm9_step B bios n arm9 s else (arm9, s)) = (b9, g)"
    and h: "(if arm7 \<le> min arm9 arm7 then arm7_step B bios n arm7 g else (False, arm7, g)) = (alone, b7, h)"
  shows "armInnerLoop B bios True True base n arm9 arm7 s =
    (if alone then armInnerLoop B bios True False base n b9 b7 (set_timer base b9 h)
     else armInnerLoop B bios True True base n b9 b7 (set_timer base (min b9 b7) h))"
  by (subst armInnerLoop.simps)
    (simp only: Let_def minarmtime_def if_True if_False simp_thms g h case_prod_conv assms(1-3) if_not_P [OF assms(2)]
      not_True_eq_False not_False_eq_True)

lemma both_loop:
  assumes "4000 \<le> D" "n + 2000 \<le> U" "n \<le> 2 ^ 31 - 5000"
    and "- (2 ^ 31) \<le> arm9" "- (2 ^ 31) \<le> arm7" "timed s" "\<bar>arm9 - arm7\<bar> \<le> D" "arm9 \<le> U" "arm7 \<le> U"
  shows "\<exists>a9 a7 s'. armInnerLoop B (\<lambda>_. None) True True base n arm9 arm7 s = Some (a9, a7, s') \<and> done_at n a9 a7 s' \<and>
    arm9 \<le> a9 \<and> arm7 \<le> a7 \<and> a9 \<le> U \<and> a7 \<le> U \<and> \<bar>a9 - a7\<bar> \<le> D \<and>
    (s' = s \<or> (\<exists>t. nds_timer (hw s') = base + word_of_int t \<and> min arm9 arm7 \<le> t \<and> t \<le> U))"
  using assms(4-9)
proof (induction "nat (n - arm9) + nat (n - arm7)" arbitrary: arm9 arm7 s rule: less_induct)
  case less
  let ?t = "min arm9 arm7" and ?bios = "\<lambda>_. None"
  show ?case
  proof (cases "?t < n \<and> \<not> must_reschedule s \<and> execute s")
    case True
    obtain b9 g where g: "(if arm9 \<le> ?t then arm9_step B ?bios n arm9 s else (arm9, s)) = (b9, g)" by fastforce
    obtain alone b7 h where h: "(if arm7 \<le> ?t then arm7_step B ?bios n arm7 g else (False, arm7, g)) = (alone, b7, h)"
      by (metis prod_cases3)
    have rn: "arm9 \<le> ?t \<Longrightarrow> in_range arm9" "arm7 \<le> ?t \<Longrightarrow> in_range arm7" "in_range n"
      using True less.prems assms(3) by (auto simp: in_range_def)
    have b9: "arm9 \<le> ?t \<and> arm9 < b9 \<and> b9 < n + 1000 \<and> b9 \<le> arm9 + D \<or> \<not> arm9 \<le> ?t \<and> b9 = arm9" "timed g"
      using g arm9_step_time [OF less.prems(3), of arm9 n B] True assms(1) rn less.prems(3) by (auto split: if_splits)
    have b7: "arm7 \<le> ?t \<and> arm7 < b7 \<and> b7 < n + 2000 \<and> b7 \<le> arm7 + D \<and> (alone \<longrightarrow> b7 = n) \<or>
        \<not> arm7 \<le> ?t \<and> b7 = arm7 \<and> \<not> alone" "timed h"
      using h arm7_step_time [OF b9(2), of arm7 n B] True assms(1) rn b9(2) by (auto split: if_splits)
    have m: "nat (n - b9) + nat (n - b7) < nat (n - arm9) + nat (n - arm7)" using b9(1) b7(1) True by linarith
    have d: "- (2 ^ 31) \<le> b9" "- (2 ^ 31) \<le> b7" "timed h" "\<bar>b9 - b7\<bar> \<le> D" "b9 \<le> U" "b7 \<le> U" "arm9 \<le> b9" "arm7 \<le> b7"
      using b9(1) b7 less.prems assms(2) by linarith+
    show ?thesis
    proof (cases alone)
      case True
      then have "b7 = n" using b7 by blast
      let ?h = "set_timer base b9 h"
      obtain a9 s' where r: "armInnerLoop B ?bios True False base n b9 b7 ?h = Some (a9, b7, s')" "done_at n a9 b7 s'"
        "b9 \<le> a9" "a9 = b9 \<or> a9 < n + 1000" "s' = ?h \<and> a9 = b9 \<or> nds_timer (hw s') = base + word_of_int a9"
        using alone_loop [of n b7 b9 ?h B base] \<open>b7 = n\<close> assms(3) d(1,3) by auto
      have e: "armInnerLoop B ?bios True True base n arm9 arm7 s = Some (a9, b7, s')"
        using r(1) \<open>?t < n \<and> \<not> must_reschedule s \<and> execute s\<close> True
        using both_step [OF _ _ _ g h] by simp
      have "nds_timer (hw s') = base + word_of_int a9" using r(5) timer_set [of base b9 h] by auto
      moreover have "\<bar>a9 - b7\<bar> \<le> D" "a9 \<le> U" "arm9 \<le> a9" "?t \<le> a9"
        using r(3,4) d \<open>b7 = n\<close> assms(1,2) by linarith+
      ultimately show ?thesis using e r(2) d by blast
    next
      case False
      let ?h = "set_timer base (min b9 b7) h"
      obtain a9 a7 s' where r: "armInnerLoop B ?bios True True base n b9 b7 ?h = Some (a9, a7, s')" "done_at n a9 a7 s'"
        "b9 \<le> a9" "b7 \<le> a7" "a9 \<le> U" "a7 \<le> U" "\<bar>a9 - a7\<bar> \<le> D"
        "s' = ?h \<or> (\<exists>t. nds_timer (hw s') = base + word_of_int t \<and> min b9 b7 \<le> t \<and> t \<le> U)"
        using less.hyps [OF m d(1,2) _ d(4-6), of ?h] d(3) by auto
      have e: "armInnerLoop B ?bios True True base n arm9 arm7 s = Some (a9, a7, s')"
        using r(1) \<open>?t < n \<and> \<not> must_reschedule s \<and> execute s\<close> False
        using both_step [OF _ _ _ g h] by simp
      have "\<exists>t. nds_timer (hw s') = base + word_of_int t \<and> ?t \<le> t \<and> t \<le> U"
      proof (cases "s' = ?h")
        case True
        moreover have "?t \<le> min b9 b7" "min b9 b7 \<le> U" using d by linarith+
        ultimately show ?thesis using timer_set [of base "min b9 b7" h] by blast
      next
        case False
        then obtain t where "nds_timer (hw s') = base + word_of_int t" "min b9 b7 \<le> t" "t \<le> U" using r(8) by blast
        then show ?thesis using d by (intro exI [of _ t]) auto
      qed
      then show ?thesis using e r d by (meson order_trans)
    qed
  next
    case False
    then have "armInnerLoop B ?bios True True base n arm9 arm7 s = Some (arm9, arm7, s)"
      by (subst armInnerLoop.simps) (auto simp: minarmtime_def)
    then show ?thesis using False less.prems by (auto simp: done_at_def)
  qed
qed

text \<open>
  C4. With the advanced timing and the BIOS of the console, the loop over the processors always ends, whatever they
  execute: every instruction of the two tables takes between 1 and 1000 cycles. Both processors have then
  reached the next event, unless something asks for a new schedule or the console was halted; neither has gone
  more than 2000 cycles past the event (or beyond where it started); they are never further apart than 4000 cycles or
  their distance before; and the time of the console lies in the same range. The times start within the range of an
  \<open>s32\<close>, the event at most at \<open>2 ^ 31 - 5000\<close>; within these bounds no time wraps around.
\<close>
theorem inner_loop:
  assumes "advanced_timing (snd (mmu s))"
    and "- (2 ^ 31) \<le> arm9" "- (2 ^ 31) \<le> arm7" "n \<le> 2 ^ 31 - 5000"
  shows "\<exists>a9 a7 s'. armInnerLoop B (\<lambda>_. None) True True base n arm9 arm7 s = Some (a9, a7, s') \<and>
    (n \<le> a9 \<and> n \<le> a7 \<or> must_reschedule s' \<or> \<not> execute s') \<and> arm9 \<le> a9 \<and> arm7 \<le> a7 \<and>
    max a9 a7 \<le> max (max arm9 arm7) (n + 2000) \<and> \<bar>a9 - a7\<bar> \<le> max \<bar>arm9 - arm7\<bar> 4000 \<and>
    (s' = s \<or> (\<exists>t. nds_timer (hw s') = base + word_of_int t \<and>
      min arm9 arm7 \<le> t \<and> t \<le> max (max arm9 arm7) (n + 2000)))"
  using both_loop [of "max \<bar>arm9 - arm7\<bar> 4000" n "max (max arm9 arm7) (n + 2000)" arm9 arm7 s B base] assms
  by (force simp: done_at_def timed_def)

text \<open>
  A console with a processor of the examples for both, whatever is on its bus and in its devices: the ARM7 is one cycle
  ahead and the event is due in 11.
\<close>

definition example_machine :: "HW \<Rightarrow> MACHINE" where
  "example_machine h =
     core_of example_cpu (\<lparr>MAIN_MEM = (\<lambda>_. 0), ARM9_DTCM = (\<lambda>_. 0), ARM9_ITCM = (\<lambda>_. 0), ARM7_BIOS = (\<lambda>_. 0),
       DTCMRegion = 0x027C0000, MAIN_MEM_MASK = 0x3FFFFF, MAIN_MEM_MASK16 = 0x3FFFFE, MAIN_MEM_MASK32 = 0x3FFFFC,
       rest = h\<rparr>, example_timing)"

theorem inner_loop_witness:
  "\<forall>B h. \<exists>a9 a7 s'. armInnerLoop B (\<lambda>_. None) True True 0 11 0 1 (example_machine h) = Some (a9, a7, s') \<and>
    (11 \<le> a9 \<and> 11 \<le> a7 \<or> must_reschedule s' \<or> \<not> execute s') \<and> max a9 a7 \<le> 2011 \<and> \<bar>a9 - a7\<bar> \<le> 4000"
proof (intro allI)
  fix B h
  have "advanced_timing (snd (mmu (example_machine h)))"
    by (simp add: example_machine_def core_of_def example_timing_def)
  from inner_loop [OF this, of 0 1 11 B 0]
  show "\<exists>a9 a7 s'. armInnerLoop B (\<lambda>_. None) True True 0 11 0 1 (example_machine h) = Some (a9, a7, s') \<and>
    (11 \<le> a9 \<and> 11 \<le> a7 \<or> must_reschedule s' \<or> \<not> execute s') \<and> max a9 a7 \<le> 2011 \<and> \<bar>a9 - a7\<bar> \<le> 4000" by force
qed

section \<open>The next event\<close>

text \<open>The scheduled events.\<close>

definition events :: "HW \<Rightarrow> u64 set" where
  "events h = {dispcnt_timestamp h} \<union> {t. t = divCycles h \<and> divRunning h} \<union> {t. t = sqrtCycles h \<and> sqrtRunning h} \<union>
     {t. t = gfx3dCycles h \<and> gxfifo_enabled h} \<union>
     {t. \<exists>p < 2. \<exists>c < 4. t = nextEvent (dma h p c) \<and> dmaCheck (dma h p c)} \<union>
     {t. \<exists>p < 2. \<exists>i < 4. t = timerCycle h p i \<and> timer_enabled h p i}"

lemma fast_min: "fast_min a b = min a b"
  by (auto simp: fast_min_def min_def)

lemma channels: "set channels = {(p, c). p < 2 \<and> c < 4}"
  by (auto simp: channels_def less_2_cases_iff image_iff)

lemma fold_min:
  "(fold (\<lambda>x n. if P x then fast_min n (f x) else n) xs n \<in> insert n (f ` {x \<in> set xs. P x})) \<and>
   (\<forall>t \<in> insert n (f ` {x \<in> set xs. P x}). fold (\<lambda>x n. if P x then fast_min n (f x) else n) xs n \<le> t)"
  for f :: "'a \<Rightarrow> u64"
proof (induction xs arbitrary: n)
  case (Cons x xs)
  show ?case
  proof (cases "P x")
    case True
    then show ?thesis using Cons [of "min n (f x)"] by (auto simp: fast_min min_def split: if_splits)
  next
    case False
    then show ?thesis using Cons [of n] by auto
  qed
qed simp

lemma dma_idle:
  assumes "\<forall>(p, c) \<in> set qs. \<not> dma_isTriggered p c (rest (fst s))"
  shows "fold (exec_dma B) qs s = s"
  using assms by (induction qs) (auto simp: exec_dma_def)

lemma timers_idle:
  assumes "\<forall>(p, i) \<in> set qs. \<not> timer_isTriggered p i (rest (fst s))"
  shows "exec_timers qs s = Some s"
  using assms by (induction qs) auto

text \<open>
  C16. The sequencer finds the earliest of the scheduled events, and misses none: at any time before it, executing
  the hardware does nothing at all.
\<close>
theorem next_event:
  "findNext h \<in> events h \<and> (\<forall>t \<in> events h. findNext h \<le> t) \<and>
   (\<forall>now < findNext h. execHardware K B (m\<lparr>rest := h\<lparr>nds_timer := now\<rparr>\<rparr>, t) = Some (m\<lparr>rest := h\<lparr>nds_timer := now\<rparr>\<rparr>, t))"
proof -
  let ?n1 = "(let n = dispcnt_timestamp h;
          n = (if divRunning h then fast_min n (divCycles h) else n);
          n = (if sqrtRunning h then fast_min n (sqrtCycles h) else n) in
          if gxfifo_enabled h then fast_min n (gfx3dCycles h) else n)"
  let ?E1 = "{dispcnt_timestamp h} \<union> {t. t = divCycles h \<and> divRunning h} \<union> {t. t = sqrtCycles h \<and> sqrtRunning h} \<union>
     {t. t = gfx3dCycles h \<and> gxfifo_enabled h}"
  have n1: "?n1 \<in> ?E1" "\<forall>t \<in> ?E1. ?n1 \<le> t" by (auto simp: Let_def fast_min min_def)
  let ?n2 = "fold (\<lambda>x n. if dmaCheck (dma h (fst x) (snd x)) then fast_min n (nextEvent (dma h (fst x) (snd x))) else n) channels ?n1"
  have f: "findNext h = fold (\<lambda>x n. if timer_enabled h (fst x) (snd x) then fast_min n (timerCycle h (fst x) (snd x)) else n) channels ?n2"
    by (simp only: findNext_def Let_def case_prod_unfold)
  note d = fold_min [of "\<lambda>x. dmaCheck (dma h (fst x) (snd x))" "\<lambda>x. nextEvent (dma h (fst x) (snd x))" channels ?n1]
  note e = fold_min [of "\<lambda>x. timer_enabled h (fst x) (snd x)" "\<lambda>x. timerCycle h (fst x) (snd x)" channels ?n2, folded f]
  have "findNext h \<in> events h"
  proof -
    have "findNext h = ?n2 \<or> (\<exists>x \<in> set channels. timer_enabled h (fst x) (snd x) \<and> findNext h = timerCycle h (fst x) (snd x))"
      using e by auto
    moreover have "?n2 = ?n1 \<or> (\<exists>x \<in> set channels. dmaCheck (dma h (fst x) (snd x)) \<and> ?n2 = nextEvent (dma h (fst x) (snd x)))"
      using d by auto
    ultimately show ?thesis using n1(1) unfolding events_def channels by (elim bexE disjE) auto
  qed
  moreover have low: "findNext h \<le> t" if "t \<in> events h" for t
  proof -
    have a: "findNext h \<le> ?n2" "?n2 \<le> ?n1" using d e by blast+
    have b: "findNext h \<le> timerCycle h p i" if "p < 2" "i < 4" "timer_enabled h p i" for p i
      using e that by (auto simp: channels)
    have "?n2 \<le> nextEvent (dma h p c)" if "p < 2" "c < 4" "dmaCheck (dma h p c)" for p c
      using d that by (auto simp: channels)
    then have c: "findNext h \<le> nextEvent (dma h p c)" if "p < 2" "c < 4" "dmaCheck (dma h p c)" for p c
      using a(1) that by (meson order_trans)
    have "findNext h \<le> t" if "t \<in> ?E1" for t using n1(2) a that by (meson order_trans)
    then show ?thesis using that b c unfolding events_def by auto
  qed
  moreover have "execHardware K B (m\<lparr>rest := h\<lparr>nds_timer := now\<rparr>\<rparr>, t) = Some (m\<lparr>rest := h\<lparr>nds_timer := now\<rparr>\<rparr>, t)"
    if now: "now < findNext h" for now
  proof -
    let ?h = "h\<lparr>nds_timer := now\<rparr>"
    have late: "\<not> x \<le> now" if "x \<in> events h" for x using low [OF that] now by (meson leD order_less_le_trans)
    have d: "nextEvent (dma h p c) \<in> events h" if "p < 2" "c < 4" "dmaCheck (dma h p c)" for p c
      using that by (auto simp: events_def)
    have e: "timerCycle h p i \<in> events h" if "p < 2" "i < 4" "timer_enabled h p i" for p i
      using that by (auto simp: events_def)
    have s: "\<not> dispcnt_isTriggered ?h" "\<not> divider_isTriggered ?h" "\<not> sqrtunit_isTriggered ?h" "\<not> gxfifo_isTriggered ?h"
      using late by (auto simp: events_def dispcnt_isTriggered_def divider_isTriggered_def sqrtunit_isTriggered_def gxfifo_isTriggered_def)
    have "\<forall>(p, c) \<in> set channels. \<not> dma_isTriggered p c ?h" "\<forall>(p, i) \<in> set channels. \<not> timer_isTriggered p i ?h"
      using late [OF d] late [OF e] unfolding channels by (auto simp: dma_isTriggered_def timer_isTriggered_def)
    then show ?thesis using s by (simp add: execHardware_def Let_def dma_idle timers_idle)
  qed
  ultimately show ?thesis by blast
qed

theorem next_event_witness:
  "\<forall>h. findNext (initSchedule h) \<le> 0"
proof
  fix h
  have "0 \<in> events (initSchedule h)" by (simp add: events_def initSchedule_def Sequencer_init_def)
  then show "findNext (initSchedule h) \<le> 0" using next_event [of "initSchedule h"] by blast
qed

end
