(* ===== verification/Encrypt.thy ===== *)
theory Encrypt
  imports Mmu "HOL-Library.Monad_Syntax"
begin

text \<open>
  The ciphers of the game cards: \<^verbatim>\<open>encrypt.cpp\<close>. \<open>KEY1\<close> is a variant of Blowfish with a table of 0x412 words, a
  function from indices to words; \<open>KEY2\<close> is a stream of bytes from two shift registers of 39 bits. The seeds of
  \<open>KEY2\<close> are read from the I/O registers; they are arguments here. A number that selects the key codes and
  is zero (a division by zero) or above 12 (an index outside the three codes) gives no result.
\<close>

section \<open>KEY1\<close>

record KEY1 =
  keyBuf :: "nat \<Rightarrow> u32"
  keyCode :: "nat \<Rightarrow> u32"

definition DWNUM :: "nat \<Rightarrow> nat" where "DWNUM i = i div 4"

text \<open>The four table lookups of a round.\<close>

definition key_mix :: "(nat \<Rightarrow> u32) \<Rightarrow> u32 \<Rightarrow> u32" where
  "key_mix K z =
     (let x = K (DWNUM (0x048 + unat (drop_bit 24 z AND 0xFF) * 4));
          x = K (DWNUM (0x448 + unat (drop_bit 16 z AND 0xFF) * 4)) + x;
          x = K (DWNUM (0x848 + unat (drop_bit 8 z AND 0xFF) * 4)) XOR x in
      K (DWNUM (0xC48 + unat (z AND 0xFF) * 4)) + x)"

definition key_round :: "(nat \<Rightarrow> u32) \<Rightarrow> nat \<Rightarrow> u32 \<times> u32 \<Rightarrow> u32 \<times> u32" where
  "key_round K i = (\<lambda>(y, x). let z = K i XOR x in (z, y XOR key_mix K z))"

text \<open>A pair is \<open>ptr[0]\<close> and \<open>ptr[1]\<close>.\<close>

definition encrypt :: "(nat \<Rightarrow> u32) \<Rightarrow> u32 \<times> u32 \<Rightarrow> u32 \<times> u32" where
  "encrypt K ptr =
     (let (y, x) = fold (key_round K) [0..<16] ptr in (x XOR K (DWNUM 0x40), y XOR K (DWNUM 0x44)))"

definition decrypt :: "(nat \<Rightarrow> u32) \<Rightarrow> u32 \<times> u32 \<Rightarrow> u32 \<times> u32" where
  "decrypt K ptr =
     (let (y, x) = fold (key_round K) (rev [2..<18]) ptr in (x XOR K (DWNUM 0x04), y XOR K (DWNUM 0x00)))"

definition bswap32 :: "u32 \<Rightarrow> u32" where
  "bswap32 v = push_bit 24 (v AND 0xFF) OR push_bit 8 (v AND 0xFF00) OR (drop_bit 8 v AND 0xFF00) OR
     (drop_bit 24 v AND 0xFF)"

text \<open>The encryption of two adjacent key codes.\<close>

definition encrypt_codes :: "nat \<Rightarrow> KEY1 \<Rightarrow> KEY1" where
  "encrypt_codes i k =
     (let (a, b) = encrypt (keyBuf k) (keyCode k i, keyCode k (i + 1)) in
      k\<lparr>keyCode := (keyCode k)(i := a, i + 1 := b)\<rparr>)"

definition xor_codes :: "nat \<Rightarrow> nat \<Rightarrow> KEY1 \<Rightarrow> KEY1" where
  "xor_codes modul i k =
     k\<lparr>keyBuf := (keyBuf k)(DWNUM i := keyBuf k (DWNUM i) XOR bswap32 (keyCode k (DWNUM (i mod modul))))\<rparr>"

text \<open>One step of the loop that fills the table with the encryptions of \<open>scratch\<close>.\<close>

definition fill_step :: "nat \<Rightarrow> (u32 \<times> u32) \<times> KEY1 \<Rightarrow> (u32 \<times> u32) \<times> KEY1" where
  "fill_step i = (\<lambda>(scratch, k).
     let scratch = encrypt (keyBuf k) scratch in
     (scratch, k\<lparr>keyBuf := (keyBuf k)(DWNUM i := snd scratch, DWNUM (i + 4) := fst scratch)\<rparr>))"

definition applyKeycode :: "nat \<Rightarrow> KEY1 \<Rightarrow> KEY1 option" where
  "applyKeycode modul k =
     (if modul = 0 \<or> 12 < modul then None
      else
        (let k = encrypt_codes 0 (encrypt_codes 1 k);
             k = fold (\<lambda>i. xor_codes modul (i * 4)) [0..<0x12] k in
         Some (snd (fold (\<lambda>i. fill_step (i * 8)) [0..<0x209] ((0, 0), k)))))"

text \<open>\<open>init\<close>: the table is copied from bytes, and the code applied up to three times.\<close>

definition KEY1_init :: "array \<Rightarrow> u32 \<Rightarrow> byte \<Rightarrow> byte \<Rightarrow> KEY1 \<Rightarrow> KEY1 option" where
  "KEY1_init keyBufPtr idcode level modul k =
     (let k = k\<lparr>keyBuf := (\<lambda>i. if i < 0x412 then T1ReadLong_guaranteedAligned keyBufPtr (of_nat (i * 4)) else keyBuf k i),
                keyCode := (keyCode k)(0 := idcode, 1 := drop_bit 1 idcode, 2 := push_bit 1 idcode)\<rparr> in do {
      k \<leftarrow> (if level \<ge> 1 then applyKeycode (unat modul) k else Some k);
      k \<leftarrow> (if level \<ge> 2 then applyKeycode (unat modul) k else Some k);
      let k = k\<lparr>keyCode := (keyCode k)(1 := push_bit 1 (keyCode k 1), 2 := drop_bit 1 (keyCode k 2))\<rparr>;
      if level \<ge> 3 then applyKeycode (unat modul) k else Some k
     })"

section \<open>KEY2\<close>

record KEY2 =
  seed0 :: u64
  seed1 :: u64
  key_x :: u64
  key_y :: u64

definition bitsReverse39 :: "u64 \<Rightarrow> u64" where
  "bitsReverse39 key = fold (\<lambda>i tmp. tmp OR push_bit (38 - i) (drop_bit i key AND 1)) [0..<39] 0"

definition applySeed :: "u32 \<Rightarrow> byte \<Rightarrow> u32 \<Rightarrow> byte \<Rightarrow> KEY2 \<Rightarrow> KEY2" where
  "applySeed seed0L seed0H seed1L seed1H k =
     (let s0 = ucast seed0L OR push_bit 32 (ucast (seed0H AND 0xFF));
          s1 = ucast seed1L OR push_bit 32 (ucast (seed1H AND 0xFF)) in
      k\<lparr>seed0 := s0, seed1 := s1, key_x := bitsReverse39 s0, key_y := bitsReverse39 s1\<rparr>)"

definition KEY2_apply :: "byte \<Rightarrow> KEY2 \<Rightarrow> byte \<times> KEY2" where
  "KEY2_apply data k =
     (let x = key_x k; y = key_y k;
          x = ((drop_bit 5 x XOR drop_bit 17 x XOR drop_bit 18 x XOR drop_bit 31 x) AND 0xFF) + push_bit 8 x;
          y = ((drop_bit 5 y XOR drop_bit 23 y XOR drop_bit 18 y XOR drop_bit 31 y) AND 0xFF) + push_bit 8 y in
      (ucast ((ucast data XOR x XOR y) AND 0xFF), k\<lparr>key_x := x, key_y := y\<rparr>))"

end
