(* ===== verification/EncryptProperties.thy ===== *)
theory EncryptProperties
  imports Encrypt
begin

text \<open>The properties of the ciphers: decryption undoes encryption, for every key.\<close>

section \<open>KEY1\<close>

text \<open>The state after the first \<open>i\<close> rounds of the encryption.\<close>

definition key_after :: "(nat \<Rightarrow> u32) \<Rightarrow> nat \<Rightarrow> u32 \<times> u32 \<Rightarrow> u32 \<times> u32" where
  "key_after K i ptr = fold (key_round K) [0..<i] ptr"

lemma key_after_Suc: "key_after K (Suc i) ptr = (K i XOR snd (key_after K i ptr), fst (key_after K i ptr) XOR key_mix K (K i XOR snd (key_after K i ptr)))"
  by (simp add: key_after_def key_round_def split_beta Let_def)

text \<open>The decryption walks back through these states: the halves are swapped and masked with two of the keys.\<close>

lemma xor_left_self: "x XOR (x XOR y) = y" for x y :: u32
  by (simp flip: xor.assoc)

lemma walk_back:
  "i \<le> 16 \<Longrightarrow> fold (key_round K) (rev [i + 2..<18]) (snd (key_after K 16 ptr) XOR K 16, fst (key_after K 16 ptr) XOR K 17) =
    (snd (key_after K i ptr) XOR K i, fst (key_after K i ptr) XOR K (i + 1))"
proof (induction "16 - i" arbitrary: i)
  case 0
  then show ?case by simp
next
  case (Suc d)
  let ?a = "key_after K i ptr"
  have i: "i < 16" "d = 16 - Suc i" using Suc by simp_all
  have "rev [i + 2..<18] = rev [Suc i + 2..<18] @ [i + 2]" using i by (simp add: upt_conv_Cons)
  then have "fold (key_round K) (rev [i + 2..<18]) (snd (key_after K 16 ptr) XOR K 16, fst (key_after K 16 ptr) XOR K 17) =
    key_round K (i + 2) (snd (key_after K (Suc i) ptr) XOR K (Suc i), fst (key_after K (Suc i) ptr) XOR K (Suc i + 1))"
    using Suc.hyps(1) [OF i(2)] i by simp
  also have "\<dots> = (snd ?a XOR K i, fst ?a XOR K (i + 1))"
    by (simp add: key_round_def Let_def key_after_Suc xor.assoc xor.commute xor.left_commute xor_left_self)
  finally show ?case .
qed

lemma decrypt_encrypt: "decrypt K (encrypt K ptr) = ptr"
proof -
  have "encrypt K ptr = (snd (key_after K 16 ptr) XOR K 16, fst (key_after K 16 ptr) XOR K 17)"
    by (simp add: encrypt_def key_after_def split_beta Let_def DWNUM_def)
  moreover have "fold (key_round K) (rev [2..<18]) (snd (key_after K 16 ptr) XOR K 16, fst (key_after K 16 ptr) XOR K 17) =
      (snd (key_after K 0 ptr) XOR K 0, fst (key_after K 0 ptr) XOR K 1)"
    using walk_back [of 0 K ptr] by (simp only: add_0)
  ultimately show ?thesis unfolding decrypt_def by (simp only: Let_def) (simp add: DWNUM_def xor.assoc key_after_def)
qed

text \<open>Every index of the table is inside it.\<close>

lemma key_index: "DWNUM (base + unat (z AND 0xFF) * 4) \<le> DWNUM base + 255" for z :: u32
proof -
  have "z AND 0xFF = take_bit 8 z" by (simp add: take_bit_eq_mask mask_eq_exp_minus_1)
  moreover have "unat (take_bit 8 z) < 256" unfolding unsigned_take_bit_eq by (simp add: take_bit_eq_mod)
  ultimately have "base + unat (z AND 0xFF) * 4 \<le> base + 255 * 4" by simp
  then have "(base + unat (z AND 0xFF) * 4) div 4 \<le> (base + 255 * 4) div 4" by (rule div_le_mono)
  then show ?thesis by (simp add: DWNUM_def)
qed

section \<open>KEY2\<close>

text \<open>A run of the stream cipher over a list of bytes.\<close>

fun KEY2_stream :: "byte list \<Rightarrow> KEY2 \<Rightarrow> byte list \<times> KEY2" where
  "KEY2_stream [] k = ([], k)"
| "KEY2_stream (b # bs) k = (let (c, k) = KEY2_apply b k; (cs, k) = KEY2_stream bs k in (c # cs, k))"

lemma apply_state: "snd (KEY2_apply b k) = snd (KEY2_apply c k)"
  by (simp add: KEY2_apply_def Let_def)

lemma low_byte: "ucast ((ucast d XOR x XOR y) AND 0xFF) = d XOR ucast x XOR ucast y" for d :: byte and x y :: u64
proof -
  have m: "(0xFF :: u64) = mask 8" by (simp add: mask_eq_exp_minus_1)
  show ?thesis unfolding m by (intro bit_word_eqI) (auto simp: bit_simps)
qed

lemma apply_twice: "fst (KEY2_apply (fst (KEY2_apply b k)) k) = b"
proof -
  have x: "(z XOR x XOR y) XOR x XOR y = z" for x y z :: byte by (rule bit_word_eqI) (auto simp: bit_simps)
  show ?thesis by (simp only: KEY2_apply_def Let_def fst_conv low_byte x)
qed

lemma stream_twice: "KEY2_stream (fst (KEY2_stream bs k)) k = (bs, snd (KEY2_stream bs k))"
proof (induction bs arbitrary: k)
  case (Cons b bs)
  show ?case using Cons [of "snd (KEY2_apply b k)"] apply_twice [of b k] apply_state [of "fst (KEY2_apply b k)" k b]
    by (simp add: Let_def split_beta)
qed simp

text \<open>
  Both ciphers are undone: for every table of keys the decryption of \<open>KEY1\<close> inverts its encryption and the other
  way round, so that no two texts are encrypted to the same, and \<open>KEY2\<close> applied twice from the same state
  restores any sequence of bytes and ends in the same state.
\<close>
theorem ciphers_round_trip:
  "decrypt K (encrypt K ptr) = ptr \<and> encrypt K (decrypt K ptr) = ptr \<and>
   KEY2_stream (fst (KEY2_stream bs k)) k = (bs, snd (KEY2_stream bs k))"
proof -
  have "inj (encrypt K)" by (rule inj_on_inverseI [of _ "decrypt K"]) (rule decrypt_encrypt)
  then have "surj (encrypt K)" by (intro finite_UNIV_inj_surj) simp_all
  then obtain q where "ptr = encrypt K q" by (metis surjD)
  then have "encrypt K (decrypt K ptr) = ptr" by (simp add: decrypt_encrypt)
  then show ?thesis using decrypt_encrypt stream_twice by blast
qed

end
