(* ===== verification/Spec2Isabelle.thy ===== *)
theory Spec2Isabelle
  imports CacheProperties FatProperties PartitionProperties FileProperties
    ArmDataProperties ArmModeProperties ArmNumberProperties MmuProperties TimingProperties
    ArmBlockProperties ThumbProperties Cp15Properties FifoProperties MathProperties TimerProperties
    DmaProperties DisplayProperties SequencerProperties EncryptProperties
begin

text \<open>
  A verification development for DeSmuME, an emulator of the Nintendo DS (\<^verbatim>\<open>src/desmume/src\<close>). It models the
  processors and what is close to them, and the FAT file system with which the emulator serves memory cards
  of homebrew software. Paths below are relative to \<^verbatim>\<open>src/desmume/src\<close>.

  \<^bold>\<open>The program.\<close> The console has two processors, an ARM9 (number 0) and an ARM7 (number 1). Each has its
  registers (\<open>armcpu_t\<close> of \<^verbatim>\<open>armcpu.h\<close>), executes one instruction per call of \<open>armcpu_exec\<close>, which returns the
  cycles it took, and reaches memory through \<open>_MMU_read32\<close> and its relatives (\<^verbatim>\<open>MMU.h\<close>). Accesses that are
  not to main memory or to the tightly coupled memories go to the bus: other memories and the I/O registers
  of \<^verbatim>\<open>MMU.cpp\<close>. Devices ask for interrupts by setting bits of \<open>reg_IF_bits\<close> and for attention of the main
  loop (\<^verbatim>\<open>NDSSystem.cpp\<close>) by \<open>NDS_Reschedule\<close>. The file system (\<^verbatim>\<open>utils/libfat\<close>) is a library in C on
  top of a disc interface, here the memory image of \<^verbatim>\<open>libfat_public_api.c\<close>.

  \<^bold>\<open>Processors.\<close>
  \<^item> \<open>ArmState\<close>: the record \<open>armcpu_t\<close>, the status register as a word with its bit fields, the modes and
    \<open>armcpu_switchMode\<close> (\<^verbatim>\<open>armcpu.h\<close>, \<^verbatim>\<open>armcpu.cpp\<close>). \<open>CORE\<close> is the state an instruction works on: its
    processor, the other one, the memory, and the two flags of the main loop. \<open>ArmExec\<close>: prefetch,
    exceptions, interrupts, the table of conditions and \<open>armcpu_exec\<close>, whose two tables of instructions are
    arguments.
  \<^item> \<open>ArmAlu\<close>, \<open>ArmMisc\<close>, \<open>ArmTransfer\<close>, \<open>ArmBlock\<close>: the instructions of \<^verbatim>\<open>arm_instructions.cpp\<close>, one
    definition per macro or function; an instruction takes the opcode and the state and returns its cycles and
    the new state. A family of functions that one C macro generates is one definition with the shift or the
    size as an argument.
  \<^item> \<open>Thumb\<close>: the instructions of \<^verbatim>\<open>thumb_instructions.cpp\<close> and the table of \<^verbatim>\<open>thumb_tabdef.inc\<close>.
  \<^item> \<open>ArmTable\<close>: the 4096 entries of the table of ARM instructions (\<^verbatim>\<open>instruction_tabdef.inc\<close>), row by row. \<open>ArmCost\<close>:
    every entry of the two tables takes at most 1000 cycles, and with the fetch at least one (\<open>exec_cost\<close>).
  \<^item> \<open>Cp15\<close>: the system coprocessor and its protection unit (\<^verbatim>\<open>cp15.cpp\<close>, \<^verbatim>\<open>cp15.h\<close>), and the instructions
    MCR and MRC.
  \<^item> \<open>ArmArith\<close>, \<open>ArmShift\<close>, \<open>ArmLogic\<close>, \<open>ArmNumbers\<close>, \<open>ArmCond\<close> state what the ARM architecture
    prescribes (addition with carry, barrel shifter, exact products, conditions) and show that the code computes
    it; \<open>ArmMode\<close> the view \<open>banked\<close> of all registers of all modes, kept by every change of mode; \<open>ArmPipe\<close> the
    invariant of the pipeline and that the instruction in it is the one in memory (\<open>fetched\<close>), by induction
    over the steps of a processor, whatever the instructions do;
    \<open>ArmBlockCorrect\<close> block transfers over a memory of words (locale \<open>core_memory\<close>); \<open>ThumbCorrect\<close> each
    Thumb instruction as the ARM instruction it stands for. The theories \<open>ArmDataProperties\<close>,
    \<open>ArmModeProperties\<close>, \<open>ArmNumberProperties\<close>, \<open>ArmBlockProperties\<close>, \<open>ThumbProperties\<close> and
    \<open>Cp15Properties\<close> hold the properties.

  \<^bold>\<open>Memory and time.\<close> \<open>Mmu\<close>: the byte array accessors of \<^verbatim>\<open>mem.h\<close> and the dispatch of \<^verbatim>\<open>MMU.h\<close> between main
  memory, the tightly coupled memories and the bus, which is an argument (\<open>BUS\<close>, with a state of any type).
  \<open>MmuCorrect\<close>: main memory is a store of words (locale \<open>word_store\<close>). \<open>Timing\<close>: access times and the
  cache controller of \<^verbatim>\<open>MMU_timing.h\<close>; \<open>TimingProperties\<close> bounds every access by 1 and 52 cycles.

  \<^bold>\<open>Devices.\<close> \<open>Hardware\<close>: the record \<open>HW\<close> of device state, interrupt requests and their acknowledgement,
  triggering of DMA. \<open>Fifo\<close>: the three queues of \<^verbatim>\<open>FIFO.cpp\<close>; \<open>FifoCorrect\<close> shows that a ring buffer is a
  list (locale \<open>ring\<close>, interpreted for each of the three) and \<open>FifoProperties\<close> that the queue between the
  processors refines a pair of channels. \<open>MathUnit\<close>: the division and square root unit of \<^verbatim>\<open>MMU.cpp\<close> with
  its items of the sequencer. \<open>IoRegs\<close>: the synchronisation register and the eight timers; a timer keeps only the
  time of its next overflow, and \<open>TimerProperties\<close> shows that reads and chains of timers count as the console
  does, with one deviation at the end of a step. \<open>Dma\<close>: the DMA controller, over the memory; \<open>DmaProperties\<close> follows
  a transfer and the control register. \<open>Encrypt\<close>: the two ciphers of the game cards (\<^verbatim>\<open>encrypt.cpp\<close>), with the
  proof in \<open>EncryptProperties\<close> that decryption undoes encryption.

  \<^bold>\<open>Main loop\<close> (\<^verbatim>\<open>NDSSystem.cpp\<close>). \<open>Display\<close>: the events of a scan line; what the video hardware and the cheats do
  there is an argument (\<open>HOOKS\<close>). \<open>Sequencer\<close>: the next event, the execution of the events, the loop that runs the
  two processors up to it and the loop to the end of a frame, on the whole console: a \<open>CORE\<close> with the ARM9 as
  processor, the ARM7 as the other one and \<open>HW\<close> behind the memory. The loops are \<open>partial_function (option)\<close>;
  \<open>DisplayProperties\<close> shows that a frame ends, \<open>SequencerProperties\<close> that no event is missed and that the loop over
  the processors returns.

  \<^bold>\<open>File system.\<close> \<open>Prelude\<close>, \<open>ByteOrder\<close> (\<^verbatim>\<open>bit_ops.h\<close>), \<open>Medium\<close> (the disc interface as a locale, and the
  memory image that implements it), \<open>Cache\<close> (\<^verbatim>\<open>cache.c\<close>), \<open>Volume\<close> (the record \<open>PARTITION\<close> of
  \<^verbatim>\<open>partition.h\<close>), \<open>FatTable\<close> (\<^verbatim>\<open>file_allocation_table.c\<close>), \<open>Partition\<close> (\<^verbatim>\<open>partition.c\<close>), \<open>FatFile\<close>
  (reading, seeking and synchronising of \<^verbatim>\<open>fatfile.c\<close>). \<open>CacheCorrect\<close> proves that the cache is transparent:
  whatever it holds, the sectors seen through it are those of a plain disc, and a flush makes the disc equal
  to that view. On this rest \<open>FatEntry\<close>, \<open>FatChain\<close> and \<open>FatCorrect\<close> (tables as functions from
  clusters to clusters, chains of clusters), \<open>PartitionCorrect\<close> and \<open>FileCorrect\<close>; \<open>Image\<close> instantiates
  them with the memory image, and the theories whose names end in \<open>Properties\<close> hold the properties.

  \<^bold>\<open>Conventions.\<close> An integer of the program is a word of its width, so that arithmetic wraps as it does in C;
  a buffer is a list with checked copies, a memory of the console a function from indices to bytes. What C
  leaves undefined and the code may reach is a result \<open>None\<close>: an access outside a buffer, a division that
  traps, a loop that does not end. Loops are structural recursions, or recursions with a termination proof;
  the loops over chains of clusters may not end on a damaged table and are \<open>partial_function (option)\<close>, with
  theorems that they return for a well-formed table. The display of messages is left out.

  \<^bold>\<open>Assumptions on the build.\<close> No JIT compiler, no debugging or developer options, a little-endian host, and
  the branch for 32-bit hosts where results of the division unit are written. A template instantiated for
  each processor is one definition with the number of the processor as an argument.

  \<^bold>\<open>Not modelled.\<close> The
  I/O registers of \<^verbatim>\<open>MMU.cpp\<close> beyond those named above and the read protection of the BIOS of the ARM7 (both
  behind the bus), the emulated BIOS functions (\<^verbatim>\<open>bios.cpp\<close>, an argument of the instruction SWI), 2D and 3D graphics (\<^verbatim>\<open>GPU.cpp\<close>, \<^verbatim>\<open>gfx3d.cpp\<close> and
  the renderers: floating point and OpenGL), sound, wireless, the JIT compiler (it writes machine code),
  disassembler and debugger, cheats, save states and configuration (file formats and input and output), the
  cartridge slots, real-time clock, backup memory and firmware, and of the file system the
  directories and the extending of files. They are separate devices or pure input and output; no definition
  stands in for them.
\<close>

end
